(* ===== verification/Prelude.thy ===== *)
theory Prelude imports Main "HOL-Library.Word" begin

text \<open>
  Vocabulary shared by every component of the development: the machine integer types of the
  C sources, byte buffers, little-endian access, decimal printing, fixed-size chunking of a
  buffer, and the lemma collections the component theories add to.
  Buffers are lists of bytes.  A C access beyond a buffer is undefined behaviour; where the
  program guards an access the model uses the guarded form, and where it does not the model
  returns an option with \<open>None\<close> for the undefined access.
\<close>

unbundle bit_operations_syntax

type_synonym u8 = "8 word"
type_synonym u16 = "16 word"
type_synonym u32 = "32 word"
type_synonym bytes = "u8 list"

named_theorems frame_simps \<open>fields an operation leaves unchanged\<close>
named_theorems step_defs \<open>the definitions a transition unfolds to\<close>

section \<open>Negative error numbers\<close>

text \<open>The error numbers the sources return, as the C library numbers them.\<close>

definition ENOENT :: int where "ENOENT = 2"
definition EIO :: int where "EIO = 5"
definition EAGAIN :: int where "EAGAIN = 11"
definition EACCES :: int where "EACCES = 13"
definition EBUSY :: int where "EBUSY = 16"
definition ENODEV :: int where "ENODEV = 19"
definition EINVAL :: int where "EINVAL = 22"
definition ENOTSUP :: int where "ENOTSUP = 134"
definition ETIMEDOUT :: int where "ETIMEDOUT = 110"

lemmas errno_defs = ENOENT_def EIO_def EAGAIN_def EACCES_def EBUSY_def ENODEV_def EINVAL_def ENOTSUP_def ETIMEDOUT_def

section \<open>Little-endian access\<close>

definition le16 :: "u8 \<Rightarrow> u8 \<Rightarrow> u16" where
  "le16 a b = (ucast a) OR (push_bit 8 (ucast b))"

definition le32 :: "u8 \<Rightarrow> u8 \<Rightarrow> u8 \<Rightarrow> u8 \<Rightarrow> u32" where
  "le32 a b c d = (ucast a) OR (push_bit 8 (ucast b))
     OR (push_bit 16 (ucast c)) OR (push_bit 24 (ucast d))"

definition get_le16 :: "bytes \<Rightarrow> u16" where
  "get_le16 bs = le16 (bs ! 0) (bs ! 1)"

definition get_le32 :: "bytes \<Rightarrow> u32" where
  "get_le32 bs = le32 (bs ! 0) (bs ! 1) (bs ! 2) (bs ! 3)"

definition put_le16 :: "u16 \<Rightarrow> bytes" where
  "put_le16 v = [ucast v, ucast (drop_bit 8 v)]"

definition put_le32 :: "u32 \<Rightarrow> bytes" where
  "put_le32 v = [ucast v, ucast (drop_bit 8 v),
     ucast (drop_bit 16 v), ucast (drop_bit 24 v)]"

lemma length_put_le [simp]: "length (put_le16 h) = 2" "length (put_le32 v) = 4"
  by (simp_all add: put_le16_def put_le32_def)

lemma le16_put: "le16 (ucast v) (ucast (drop_bit 8 v)) = v"
  by (rule bit_word_eqI) (auto simp: le16_def bit_simps)

lemma le32_put:
  "le32 (ucast v) (ucast (drop_bit 8 v))
     (ucast (drop_bit 16 v)) (ucast (drop_bit 24 v)) = v"
proof (rule bit_word_eqI)
  fix n assume n: "n < LENGTH(32)"
  then consider "n < 8" | "8 \<le> n" "n < 16" | "16 \<le> n" "n < 24" | "24 \<le> n" "n < 32"
    by fastforce
  then show "bit (le32 (ucast v) (ucast (drop_bit 8 v)) (ucast (drop_bit 16 v))
      (ucast (drop_bit 24 v))) n = bit v n"
    by cases (use n in \<open>auto simp: le32_def bit_simps\<close>)
qed

lemma get_put_le16 [simp]: "get_le16 (put_le16 v @ r) = v"
  by (simp add: get_le16_def put_le16_def le16_put)

lemma get_put_le32 [simp]: "get_le32 (put_le32 v @ r) = v"
  by (simp add: get_le32_def put_le32_def le32_put)

lemma get_put_le32_nil [simp]: "get_le32 (put_le32 v) = v"
  using get_put_le32 [of v "[]"] by simp

lemma get_put_le16_nil [simp]: "get_le16 (put_le16 v) = v"
  using get_put_le16 [of v "[]"] by simp

lemma put_le32_neq_Nil [simp]: "put_le32 v \<noteq> []"
  by (simp add: put_le32_def)

section \<open>Big-endian access\<close>

definition be16_at :: "bytes \<Rightarrow> u16" where
  "be16_at d = le16 (d ! 1) (d ! 0)"

definition put_be16 :: "u16 \<Rightarrow> bytes" where
  "put_be16 v = [ucast (drop_bit 8 v), ucast v]"

definition be32_at :: "bytes \<Rightarrow> u32" where
  "be32_at d = le32 (d ! 3) (d ! 2) (d ! 1) (d ! 0)"

definition put_be32 :: "u32 \<Rightarrow> bytes" where
  "put_be32 v = [ucast (drop_bit 24 v), ucast (drop_bit 16 v), ucast (drop_bit 8 v), ucast v]"

lemma length_put_be [simp]: "length (put_be16 h) = 2" "length (put_be32 v) = 4"
  by (simp_all add: put_be16_def put_be32_def)

lemma be16_put [simp]: "be16_at (put_be16 v @ r) = v" "be16_at (put_be16 v) = v"
  by (simp_all add: be16_at_def put_be16_def le16_put)

lemma be32_put [simp]: "be32_at (put_be32 v @ r) = v" "be32_at (put_be32 v) = v"
  by (simp_all add: be32_at_def put_be32_def le32_put)

lemma drop_put_be [simp]: "drop 2 (put_be16 v @ r) = r" "drop 4 (put_be32 w @ r) = r"
  by (simp_all add: put_be16_def put_be32_def)

section \<open>Rounding up to a multiple\<close>

text \<open>
  \<open>ROUND_UP(x, align)\<close> on a 32-bit target: the multiple of the alignment above, computed in
  unsigned 32-bit arithmetic, so it wraps to zero within one alignment of the top.
\<close>

definition round_up32 :: "u32 \<Rightarrow> u32 \<Rightarrow> u32" where
  "round_up32 x align = ((x + (align - 1)) div align) * align"

section \<open>Overwriting a segment of a buffer (memcpy)\<close>

definition blit :: "nat \<Rightarrow> 'a list \<Rightarrow> 'a list \<Rightarrow> 'a list" where
  "blit off src dst = take off dst @ src @ drop (off + length src) dst"

lemma length_blit [simp]: "off + length src \<le> length dst \<Longrightarrow> length (blit off src dst) = length dst"
  by (simp add: blit_def)

lemma nth_blit:
  "off + length src \<le> length dst \<Longrightarrow> i < length dst \<Longrightarrow>
   blit off src dst ! i = (if off \<le> i \<and> i < off + length src then src ! (i - off) else dst ! i)"
  by (auto simp: blit_def nth_append min_def)

section \<open>Decimal printing (the \<open>%d\<close> of a non-negative int)\<close>

definition ascii_digit :: "nat \<Rightarrow> u8" where
  "ascii_digit d = of_nat (48 + d)"

fun dec :: "nat \<Rightarrow> bytes" where
  "dec n = (if n < 10 then [ascii_digit n] else dec (n div 10) @ [ascii_digit (n mod 10)])"

declare dec.simps [simp del]

lemma length_dec_le3: "n < 1000 \<Longrightarrow> length (dec n) \<le> 3"
  by (subst dec.simps, simp, subst dec.simps, simp, subst dec.simps, simp)

lemma dec_nonempty [simp]: "dec n \<noteq> []"
  by (subst dec.simps) simp

lemma ascii_digit_nonzero: "d < 10 \<Longrightarrow> ascii_digit d \<noteq> 0"
proof -
  assume "d < 10"
  then have "d = 0 \<or> d = 1 \<or> d = 2 \<or> d = 3 \<or> d = 4 \<or> d = 5 \<or> d = 6 \<or> d = 7 \<or> d = 8 \<or> d = 9"
    by arith
  then show ?thesis by (elim disjE) (simp_all add: ascii_digit_def)
qed

lemma dec_no_nul: "0 \<notin> set (dec n)"
proof (induction n rule: dec.induct)
  case (1 n)
  show ?case
  proof (cases "n < 10")
    case True
    then have "dec n = [ascii_digit n]" by (subst dec.simps) simp
    with True show ?thesis using ascii_digit_nonzero [of n] by simp
  next
    case False
    then have "dec n = dec (n div 10) @ [ascii_digit (n mod 10)]" by (subst dec.simps) simp
    with False show ?thesis using 1 ascii_digit_nonzero [of "n mod 10"] by simp
  qed
qed

section \<open>Cutting a buffer into chunks\<close>

fun chunks :: "nat \<Rightarrow> 'a list \<Rightarrow> 'a list list" where
  "chunks n [] = []"
| "chunks n (x # xs) = (if n = 0 then [x # xs] else take n (x # xs) # chunks n (drop n (x # xs)))"

declare chunks.simps(2) [simp del]

lemma chunks_Nil_iff [simp]: "chunks n xs = [] \<longleftrightarrow> xs = []"
  by (cases xs) (simp_all add: chunks.simps)

lemma chunks_step: "0 < n \<Longrightarrow> xs \<noteq> [] \<Longrightarrow> chunks n xs = take n xs # chunks n (drop n xs)"
  by (cases xs) (simp_all add: chunks.simps)

lemma concat_chunks [simp]: "concat (chunks n xs) = xs"
proof (induction n xs rule: chunks.induct)
  case (2 n x xs)
  then show ?case
    using append_take_drop_id [of n "x # xs"] by (cases "n = 0") (simp_all add: chunks.simps(2))
qed simp

section \<open>Lists and words\<close>

lemma take_add_drop: "take (m + n) xs = take m xs @ take n (drop m xs)"
  by (rule take_add)

lemma unat_lt_of_le: "(a::'a::len word) < b \<Longrightarrow> unat a < unat b"
  by (simp add: word_less_nat_alt)

lemma unat_add_no_wrap:
  "unat (a::u32) + n < 2 ^ 32 \<Longrightarrow> unat (a + of_nat n) = unat a + n"
  by (simp add: unat_word_ariths unat_of_nat)

lemma unat_of_nat_u32: "n < 2 ^ 32 \<Longrightarrow> unat (of_nat n :: u32) = n"
  by (simp add: unat_of_nat take_bit_nat_eq_self)

lemma of_nat_u32_inj:
  "m < 2 ^ 32 \<Longrightarrow> n < 2 ^ 32 \<Longrightarrow> (of_nat m :: u32) = of_nat n \<longleftrightarrow> m = n"
  by (metis unat_of_nat_u32)

lemma of_nat_mod64_u32: "(of_nat n :: u32) mod 64 = 0 \<longleftrightarrow> n mod 64 = 0" if "n < 2 ^ 32"
proof -
  have "unat ((of_nat n :: u32) mod 64) = n mod 64"
    using that by (simp add: unat_mod unat_of_nat_u32)
  then show ?thesis by (metis unat_eq_zero)
qed

end
