(* ===== verification/ZephyrApi.thy ===== *)
theory ZephyrApi imports Prelude begin

text \<open>
  The services of the RTOS the sources call and that are not part of the repository, as
  parameters of the model.  A service is a field of a record of functions over an unspecified
  world type \<open>'w\<close> (the flash contents, the application's own state, the clock); every
  definition that calls one takes the record as an argument.  What the callers rely on is
  stated separately as predicates over such a record (\<open>flash_img_laws\<close>,
  \<open>flash_no_fault\<close>); they appear as hypotheses of the properties, and
  \<open>ram_flash\<close> is a concrete instance that meets them.
\<close>

section \<open>Flash areas and the image writer\<close>

datatype partition = Slot0 | Slot1 | Scratch | Storage

record 'w flash_api =
  fa_open :: "partition \<Rightarrow> 'w \<Rightarrow> int"
  fa_size :: "partition \<Rightarrow> 'w \<Rightarrow> u32"
  fa_erase :: "partition \<Rightarrow> u32 \<Rightarrow> u32 \<Rightarrow> 'w \<Rightarrow> int \<times> 'w"
  fa_read :: "partition \<Rightarrow> u32 \<Rightarrow> nat \<Rightarrow> 'w \<Rightarrow> int \<times> bytes"
  img_init :: "partition \<Rightarrow> 'w \<Rightarrow> int \<times> 'w"
  img_write :: "bytes \<Rightarrow> bool \<Rightarrow> 'w \<Rightarrow> int \<times> 'w"
  img_bytes_written :: "'w \<Rightarrow> u32"
  boot_request :: "u32 \<Rightarrow> 'w \<Rightarrow> int \<times> 'w"

text \<open>
  The documented contract of the image writer, over the ghost view \<open>img\<close>: the bytes accepted
  since the writer was initialised.  Initialisation empties it, an accepted write appends to it
  (a write that reports an error promises nothing), a boot request leaves it alone.
\<close>

definition flash_img_laws :: "'w flash_api \<Rightarrow> ('w \<Rightarrow> bytes) \<Rightarrow> bool" where
  "flash_img_laws F img \<longleftrightarrow>
     (\<forall>p w w'. img_init F p w = (0, w') \<longrightarrow> img w' = []) \<and>
     (\<forall>d fl w w'. img_write F d fl w = (0, w') \<longrightarrow> img w' = img w @ d) \<and>
     (\<forall>v w r w'. boot_request F v w = (r, w') \<longrightarrow> img w' = img w)"

text \<open>A flash that does not fail as long as an image stays below \<open>cap\<close> bytes.\<close>

definition flash_no_fault :: "'w flash_api \<Rightarrow> ('w \<Rightarrow> bytes) \<Rightarrow> nat \<Rightarrow> bool" where
  "flash_no_fault F img cap \<longleftrightarrow>
     (\<forall>p w. fa_open F p w = 0) \<and>
     (\<forall>p w. fst (img_init F p w) = 0) \<and>
     (\<forall>d fl w. length (img w) + length d \<le> cap \<longrightarrow> fst (img_write F d fl w) = 0) \<and>
     (\<forall>v w. fst (boot_request F v w) = 0)"

text \<open>
  What reading the slot back after a flush gives: the number of bytes written is the length of
  the image, and a read inside it returns its bytes.
\<close>

definition flash_readback_laws :: "'w flash_api \<Rightarrow> ('w \<Rightarrow> bytes) \<Rightarrow> partition \<Rightarrow> bool" where
  "flash_readback_laws F img p \<longleftrightarrow>
     (\<forall>d w w'. img_write F d True w = (0, w') \<longrightarrow>
        img_bytes_written F w' = of_nat (length (img w')) \<and>
        (\<forall>off n. unat off + n \<le> length (img w') \<longrightarrow>
           fa_read F p off n w' = (0, take n (drop (unat off) (img w')))))"

section \<open>A flash in memory that meets the contract\<close>

record ram_world =
  ram_img :: bytes
  ram_pending :: "u32 option"

definition ram_flash :: "ram_world flash_api" where
  "ram_flash = \<lparr> fa_open = (\<lambda>_ _. 0), fa_size = (\<lambda>_ _. 0x60000),
     fa_erase = (\<lambda>_ _ _ w. (0, w)),
     fa_read = (\<lambda>_ off n w. (0, take n (drop (unat off) (ram_img w)))),
     img_init = (\<lambda>_ w. (0, w\<lparr>ram_img := []\<rparr>)),
     img_write = (\<lambda>d _ w. (0, w\<lparr>ram_img := ram_img w @ d\<rparr>)),
     img_bytes_written = (\<lambda>w. of_nat (length (ram_img w))),
     boot_request = (\<lambda>v w. (0, w\<lparr>ram_pending := Some v\<rparr>)) \<rparr>"

definition ram_empty :: ram_world where
  "ram_empty = \<lparr>ram_img = [], ram_pending = None\<rparr>"

lemma ram_flash_laws: "flash_img_laws ram_flash ram_img"
  by (auto simp: flash_img_laws_def ram_flash_def)

lemma ram_flash_no_fault: "flash_no_fault ram_flash ram_img cap"
  by (simp add: flash_no_fault_def ram_flash_def)

lemma ram_flash_readback: "flash_readback_laws ram_flash ram_img p"
  by (auto simp: flash_readback_laws_def ram_flash_def)

section \<open>Using the contract\<close>

lemma img_init_ok: "flash_img_laws F img \<Longrightarrow> img_init F p w = (0, w') \<Longrightarrow> img w' = []"
  by (simp add: flash_img_laws_def)

lemma img_write_ok: "flash_img_laws F img \<Longrightarrow> img_write F d fl w = (0, w') \<Longrightarrow> img w' = img w @ d"
  unfolding flash_img_laws_def by blast

lemma boot_request_img: "flash_img_laws F img \<Longrightarrow> img (snd (boot_request F v w)) = img w"
  unfolding flash_img_laws_def by (metis prod.collapse)

lemma no_fault_write:
  "flash_no_fault F img cap \<Longrightarrow> flash_img_laws F img \<Longrightarrow> length (img w) + length d \<le> cap \<Longrightarrow>
   \<exists>w'. img_write F d fl w = (0, w') \<and> img w' = img w @ d"
  by (metis flash_no_fault_def img_write_ok prod.collapse)

lemma no_fault_init:
  "flash_no_fault F img cap \<Longrightarrow> flash_img_laws F img \<Longrightarrow>
   \<exists>w'. img_init F p w = (0, w') \<and> img w' = []"
  by (metis flash_no_fault_def img_init_ok prod.collapse)

lemma no_fault_open: "flash_no_fault F img cap \<Longrightarrow> fa_open F p w = 0"
  by (simp add: flash_no_fault_def)

lemma no_fault_boot: "flash_no_fault F img cap \<Longrightarrow> fst (boot_request F v w) = 0"
  by (simp add: flash_no_fault_def)

end
