(* ===== verification/CanFw.thy ===== *)
theory CanFw imports ZephyrApi begin

text \<open>
  The CAN firmware-upgrade library, \<open>libs/can_fw_upgrade/can_fw_upgrade.c\<close>: its static state as
  the record \<open>can_st\<close>, the frame handlers, the receive thread's dispatch, initialisation and the
  registration functions.  The two builds of the file (inside the application and inside the
  boot loader, \<open>CONFIG_CAN_FW_UPGRADE_BOOT_WAIT\<close>) and the optional key-hash check are fields of
  the environment record \<open>can_env\<close>.  Frames passed to \<open>can_send\<close>, whose result the code ignores,
  are appended to the ghost field \<open>tx\<close>.  A function pointer is a number that the environment
  resolves; \<open>NULL\<close> is \<open>None\<close>.
\<close>

section \<open>Frames, commands and reply codes\<close>

record can_frame =
  fr_id :: u32
  fr_dlc :: u8
  fr_data :: bytes

definition pad8 :: "bytes \<Rightarrow> bytes" where
  "pad8 d = d @ replicate (8 - length d) 0"

definition frame_data_32 :: "can_frame \<Rightarrow> nat \<Rightarrow> u32" where
  "frame_data_32 fr i = get_le32 (drop (4 * i) (fr_data fr))"

definition CAN_FW_PLATFORM_RX :: u32 where "CAN_FW_PLATFORM_RX = 0x101"
definition CAN_FW_PLATFORM_TX :: u32 where "CAN_FW_PLATFORM_TX = 0x102"
definition CAN_FW_FW_DATA_RX :: u32 where "CAN_FW_FW_DATA_RX = 0x103"
definition CAN_FW_KEYHASH_RX :: u32 where "CAN_FW_KEYHASH_RX = 0x104"
definition CAN_FW_VERSION_TX :: u32 where "CAN_FW_VERSION_TX = 0x105"
definition CAN_FW_BOOT_PROBE_TX :: u32 where "CAN_FW_BOOT_PROBE_TX = 0x106"
definition CAN_FW_BOOT_ACK_RX :: u32 where "CAN_FW_BOOT_ACK_RX = 0x107"
definition CAN_FW_BOOT_TRACE_TX :: u32 where "CAN_FW_BOOT_TRACE_TX = 0x108"
definition CAN_FW_BOOT_PROBE_MAGIC :: u32 where "CAN_FW_BOOT_PROBE_MAGIC = 0x42544F31"

lemmas can_id_defs = CAN_FW_PLATFORM_RX_def CAN_FW_PLATFORM_TX_def CAN_FW_FW_DATA_RX_def
  CAN_FW_KEYHASH_RX_def CAN_FW_VERSION_TX_def CAN_FW_BOOT_PROBE_TX_def CAN_FW_BOOT_ACK_RX_def
  CAN_FW_BOOT_TRACE_TX_def

definition FW_KEYHASH_KEY_LEN :: nat where "FW_KEYHASH_KEY_LEN = 32"
definition CAN_FW_KEYHASH_CHUNK_BYTES :: nat where "CAN_FW_KEYHASH_CHUNK_BYTES = 7"
definition CAN_FW_KEYHASH_CHUNKS :: nat where
  "CAN_FW_KEYHASH_CHUNKS =
     (FW_KEYHASH_KEY_LEN + CAN_FW_KEYHASH_CHUNK_BYTES - 1) div CAN_FW_KEYHASH_CHUNK_BYTES"
definition CAN_FW_KEYHASH_FULL_MASK :: u8 where
  "CAN_FW_KEYHASH_FULL_MASK = push_bit CAN_FW_KEYHASH_CHUNKS 1 - 1"

datatype fw_cmd = FW_CMD_START_UPDATE | FW_CMD_CONFIRM | FW_CMD_VERSION | FW_CMD_REBOOT
  | FW_CMD_DEBUG_DUMP

fun fw_cmd_val :: "fw_cmd \<Rightarrow> u32" where
  "fw_cmd_val FW_CMD_START_UPDATE = 0"
| "fw_cmd_val FW_CMD_CONFIRM = 1"
| "fw_cmd_val FW_CMD_VERSION = 2"
| "fw_cmd_val FW_CMD_REBOOT = 3"
| "fw_cmd_val FW_CMD_DEBUG_DUMP = 0xDE"

datatype fw_code = FW_CODE_OFFSET | FW_CODE_UPDATE_SUCCESS | FW_CODE_VERSION | FW_CODE_CONFIRM
  | FW_CODE_FLASH_ERROR | FW_CODE_TRANFER_ERROR | FW_CODE_KEYHASH_ERROR

fun fw_code_val :: "fw_code \<Rightarrow> u32" where
  "fw_code_val FW_CODE_OFFSET = 0"
| "fw_code_val FW_CODE_UPDATE_SUCCESS = 1"
| "fw_code_val FW_CODE_VERSION = 2"
| "fw_code_val FW_CODE_CONFIRM = 3"
| "fw_code_val FW_CODE_FLASH_ERROR = 4"
| "fw_code_val FW_CODE_TRANFER_ERROR = 5"
| "fw_code_val FW_CODE_KEYHASH_ERROR = 6"

datatype boot_trace = TRACE_INIT_DONE | TRACE_HOOK_ENTER | TRACE_HOST_ACK | TRACE_CONFIRMED
  | TRACE_PROCEED_BOOT | TRACE_FW_START

fun boot_trace_val :: "boot_trace \<Rightarrow> u8" where
  "boot_trace_val TRACE_INIT_DONE = 1"
| "boot_trace_val TRACE_HOOK_ENTER = 2"
| "boot_trace_val TRACE_HOST_ACK = 3"
| "boot_trace_val TRACE_CONFIRMED = 4"
| "boot_trace_val TRACE_PROCEED_BOOT = 5"
| "boot_trace_val TRACE_FW_START = 6"

section \<open>Environment and state\<close>

record 'w can_env =
  can_flash :: "'w flash_api"
  boot_wait :: bool
  fw_keyhash :: "bytes option"
  max_handlers :: nat
  app_version :: "nat \<times> nat \<times> nat"
  git_version :: bytes
  default_bitrate :: u32
  has_scratch :: bool
  dlc_to_bytes :: "u8 \<Rightarrow> u8"
  bytes_to_dlc :: "u8 \<Rightarrow> u8"
  uptime_get_32 :: "'w \<Rightarrow> u32"
  run_handler :: "nat \<Rightarrow> nat \<Rightarrow> can_frame \<Rightarrow> 'w \<Rightarrow> bool \<times> 'w"
  run_start_hook :: "nat \<Rightarrow> 'w \<Rightarrow> bool \<times> 'w"
  run_reboot_hook :: "nat \<Rightarrow> 'w \<Rightarrow> 'w"
  drv_ready :: bool
  drv_set_mode :: int
  drv_set_bitrate :: "u32 \<Rightarrow> int"
  drv_start :: int

record 'w can_st =
  handlers :: "(nat option \<times> nat) list"
  pre_reboot_hooks :: "nat list"
  pre_start_hook :: "nat option"
  fw_img_initialized :: bool
  fw_written :: u32
  fw_total_size :: u32
  rx_keybuf :: bytes
  key_chunk_mask :: u8
  rx_msgq :: "can_frame list"
  last_activity_ms :: u32
  fw_confirmed :: bool
  rx_busy :: bool
  boot_ack_sem :: nat
  bitrate_override :: u32
  bus_bitrate :: "u32 option"
  bus_one_shot :: bool
  bus_started :: bool
  bus_filter :: bool
  can_ier :: u32
  tx :: "can_frame list"
  rebooted :: bool
  world :: 'w

definition CAN_FW_MSGQ_DEPTH :: nat where "CAN_FW_MSGQ_DEPTH = 32"
definition CAN_FW_MAX_PRE_REBOOT_HOOKS :: nat where "CAN_FW_MAX_PRE_REBOOT_HOOKS = 4"

text \<open>The static initialisers: everything zero, no handler registered.\<close>

definition can_st_init :: "'w can_env \<Rightarrow> 'w \<Rightarrow> 'w can_st" where
  "can_st_init E w = \<lparr> handlers = replicate (max_handlers E) (None, 0), pre_reboot_hooks = [],
     pre_start_hook = None, fw_img_initialized = False, fw_written = 0, fw_total_size = 0,
     rx_keybuf = replicate FW_KEYHASH_KEY_LEN 0, key_chunk_mask = 0, rx_msgq = [],
     last_activity_ms = 0, fw_confirmed = False, rx_busy = False, boot_ack_sem = 0,
     bitrate_override = 0, bus_bitrate = None, bus_one_shot = False, bus_started = False,
     bus_filter = False, can_ier = 0, tx = [], rebooted = False, world = w \<rparr>"

definition fw_target :: "'w can_env \<Rightarrow> partition" where
  "fw_target E = (if boot_wait E then Slot0 else Slot1)"

section \<open>Registration\<close>

definition can_fw_add_pre_reboot_hook :: "nat option \<Rightarrow> 'w can_st \<Rightarrow> 'w can_st" where
  "can_fw_add_pre_reboot_hook hook s =
     (case hook of None \<Rightarrow> s
      | Some h \<Rightarrow> if length (pre_reboot_hooks s) \<ge> CAN_FW_MAX_PRE_REBOOT_HOOKS then s
                 else s\<lparr>pre_reboot_hooks := pre_reboot_hooks s @ [h]\<rparr>)"

definition can_fw_add_pre_start_hook :: "nat option \<Rightarrow> 'w can_st \<Rightarrow> 'w can_st" where
  "can_fw_add_pre_start_hook hook s = s\<lparr>pre_start_hook := hook\<rparr>"

fun fill_free_slot :: "nat \<Rightarrow> nat \<Rightarrow> (nat option \<times> nat) list \<Rightarrow> (nat option \<times> nat) list option" where
  "fill_free_slot cb ud [] = None"
| "fill_free_slot cb ud (h # hs) =
     (if fst h = None then Some ((Some cb, ud) # hs)
      else map_option (Cons h) (fill_free_slot cb ud hs))"

fun clear_slot :: "nat option \<Rightarrow> (nat option \<times> nat) list \<Rightarrow> (nat option \<times> nat) list option" where
  "clear_slot cb [] = None"
| "clear_slot cb (h # hs) =
     (if fst h = cb then Some ((None, 0) # hs) else map_option (Cons h) (clear_slot cb hs))"

text \<open>The result is whether the returned device pointer is non-\<open>NULL\<close>.\<close>

definition can_fw_set_app_handler :: "nat option \<Rightarrow> nat \<Rightarrow> 'w can_st \<Rightarrow> bool \<times> 'w can_st" where
  "can_fw_set_app_handler cb ud s =
     (case cb of None \<Rightarrow> (True, s)
      | Some f \<Rightarrow> (case fill_free_slot f ud (handlers s) of
            Some hs \<Rightarrow> (True, s\<lparr>handlers := hs\<rparr>)
          | None \<Rightarrow> (False, s)))"

definition can_fw_remove_handler :: "nat option \<Rightarrow> 'w can_st \<Rightarrow> int \<times> 'w can_st" where
  "can_fw_remove_handler cb s =
     (case clear_slot cb (handlers s) of
        Some hs \<Rightarrow> (0, s\<lparr>handlers := hs\<rparr>)
      | None \<Rightarrow> (- ENOENT, s))"

definition can_fw_set_bitrate :: "u32 \<Rightarrow> 'w can_st \<Rightarrow> 'w can_st" where
  "can_fw_set_bitrate b s = s\<lparr>bitrate_override := b\<rparr>"

section \<open>Sending\<close>

definition can_send :: "can_frame \<Rightarrow> 'w can_st \<Rightarrow> 'w can_st" where
  "can_send fr s = s\<lparr>tx := tx s @ [fr]\<rparr>"

definition reply_frame :: "'w can_env \<Rightarrow> fw_code \<Rightarrow> u32 \<Rightarrow> can_frame" where
  "reply_frame E code off = \<lparr>fr_id = CAN_FW_PLATFORM_TX, fr_dlc = bytes_to_dlc E 8,
     fr_data = put_le32 (fw_code_val code) @ put_le32 off\<rparr>"

definition fw_can_reply :: "'w can_env \<Rightarrow> fw_code \<Rightarrow> u32 \<Rightarrow> 'w can_st \<Rightarrow> 'w can_st" where
  "fw_can_reply E code off s = can_send (reply_frame E code off) s"

definition trace_frame :: "'w can_env \<Rightarrow> boot_trace \<Rightarrow> can_frame" where
  "trace_frame E t = \<lparr>fr_id = CAN_FW_BOOT_TRACE_TX, fr_dlc = bytes_to_dlc E 1,
     fr_data = pad8 [boot_trace_val t]\<rparr>"

text \<open>
  The version string and its fragments.  The C loop counts \<open>off\<close> and \<open>seq\<close> in bytes; the string
  is shorter than 24 (\<open>version_string_length\<close> in the properties), so they do not wrap and the
  model counts them as naturals.
\<close>

definition version_string :: "'w can_env \<Rightarrow> bytes" where
  "version_string E = (case app_version E of (ma, mi, pa) \<Rightarrow>
     [0x76] @ dec ma @ [0x2E] @ dec mi @ [0x2E] @ dec pa @ [0x5F] @ git_version E)"

definition version_frame :: "'w can_env \<Rightarrow> nat \<Rightarrow> bytes \<Rightarrow> can_frame" where
  "version_frame E seq chunk = \<lparr>fr_id = CAN_FW_VERSION_TX, fr_dlc = bytes_to_dlc E 8,
     fr_data = pad8 (of_nat seq # chunk)\<rparr>"

function send_version_loop :: "'w can_env \<Rightarrow> bytes \<Rightarrow> nat \<Rightarrow> nat \<Rightarrow> nat \<Rightarrow> 'w can_st \<Rightarrow> 'w can_st" where
  "send_version_loop E ver len off seq s =
     (if off < len then
        send_version_loop E ver len (off + 7) (seq + 1)
          (can_send (version_frame E seq (take (min 7 (len - off)) (drop off ver))) s)
      else s)"
  by pat_completeness auto
termination
  by (relation "measure (\<lambda>(E, ver, len, off, seq, s). len - off)") auto

declare send_version_loop.simps [simp del]

definition fw_can_send_version_string :: "'w can_env \<Rightarrow> bytes \<Rightarrow> nat \<Rightarrow> 'w can_st \<Rightarrow> 'w can_st" where
  "fw_can_send_version_string E ver len s = send_version_loop E ver len 0 0 s"

section \<open>Platform commands (0x101)\<close>

definition key_complete :: "'w can_st \<Rightarrow> bool" where
  "key_complete s \<longleftrightarrow>
     (key_chunk_mask s AND CAN_FW_KEYHASH_FULL_MASK) = CAN_FW_KEYHASH_FULL_MASK"

text \<open>
  \<open>start_flash\<close> is the part of START after its checks: reset the target partition and the
  writer, drop what queued up meanwhile, report offset 0.  The result of the erase is ignored,
  as in the source.
\<close>

definition start_flash :: "'w can_env \<Rightarrow> u32 \<Rightarrow> 'w can_st \<Rightarrow> 'w can_st" where
  "start_flash E sz s0 =
     (let s = s0\<lparr>fw_total_size := sz\<rparr>; F = can_flash E; p = fw_target E in
      if fa_open F p (world s) \<noteq> 0 then fw_can_reply E FW_CODE_FLASH_ERROR 0 s
      else
        let s = s\<lparr>world := snd (fa_erase F p 0 (round_up32 sz 4096) (world s))\<rparr>;
            (rc, w) = img_init F p (world s);
            s = s\<lparr>world := w\<rparr> in
        if rc \<noteq> 0 then fw_can_reply E FW_CODE_FLASH_ERROR 0 (s\<lparr>fw_img_initialized := False\<rparr>)
        else fw_can_reply E FW_CODE_OFFSET 0
               (s\<lparr>fw_img_initialized := True, fw_written := 0, rx_msgq := []\<rparr>))"

definition call_start_hook :: "'w can_env \<Rightarrow> 'w can_st \<Rightarrow> bool \<times> 'w can_st" where
  "call_start_hook E s =
     (case pre_start_hook s of None \<Rightarrow> (True, s)
      | Some h \<Rightarrow> (let (ok, w) = run_start_hook E h (world s) in (ok, s\<lparr>world := w\<rparr>)))"

definition handle_start :: "'w can_env \<Rightarrow> can_frame \<Rightarrow> 'w can_st \<Rightarrow> 'w can_st" where
  "handle_start E fr s =
     (if dlc_to_bytes E (fr_dlc fr) \<noteq> 8 then fw_can_reply E FW_CODE_FLASH_ERROR 0 s
      else
        let s = (if boot_wait E then can_send (trace_frame E TRACE_FW_START) s else s);
            check = fw_keyhash E \<noteq> None \<and> key_complete s;
            s' = (if check then s\<lparr>key_chunk_mask := 0\<rparr> else s) in
        if check \<and> Some (rx_keybuf s) \<noteq> fw_keyhash E
        then fw_can_reply E FW_CODE_KEYHASH_ERROR 0 s'
        else
          let (ok, s2) = call_start_hook E s' in
          if \<not> ok then fw_can_reply E FW_CODE_TRANFER_ERROR 0 s2
          else start_flash E (frame_data_32 fr 1) s2)"

definition handle_confirm :: "'w can_env \<Rightarrow> can_frame \<Rightarrow> 'w can_st \<Rightarrow> 'w can_st" where
  "handle_confirm E fr s =
     (if \<not> fw_img_initialized s then fw_can_reply E FW_CODE_TRANFER_ERROR 0 s
      else
        let s = s\<lparr>world := snd (img_write (can_flash E) [] True (world s)),
                  fw_img_initialized := False\<rparr> in
        if fw_written s \<noteq> fw_total_size s then fw_can_reply E FW_CODE_TRANFER_ERROR 0 s
        else if boot_wait E
        then (fw_can_reply E FW_CODE_CONFIRM 0x55AA55AA s)\<lparr>fw_confirmed := True\<rparr>
        else
          let (ret, w) = boot_request (can_flash E) (frame_data_32 fr 1) (world s);
              s = s\<lparr>world := w\<rparr> in
          if ret = 0 then fw_can_reply E FW_CODE_CONFIRM 0x55AA55AA s
          else fw_can_reply E FW_CODE_TRANFER_ERROR 0 s)"

definition handle_version :: "'w can_env \<Rightarrow> 'w can_st \<Rightarrow> 'w can_st" where
  "handle_version E s =
     (let ver = version_string E; vlen = length ver in
      fw_can_send_version_string E ver vlen (fw_can_reply E FW_CODE_VERSION (of_nat vlen) s))"

definition handle_reboot :: "'w can_env \<Rightarrow> 'w can_st \<Rightarrow> 'w can_st" where
  "handle_reboot E s =
     (if boot_wait E then s\<lparr>fw_confirmed := True\<rparr>
      else s\<lparr>world := fold (run_reboot_hook E) (pre_reboot_hooks s) (world s), rebooted := True\<rparr>)"

definition dump_area :: "'w can_env \<Rightarrow> u32 \<Rightarrow> partition" where
  "dump_area E area =
     (if has_scratch E \<and> area = 2 then Scratch else if area = 1 then Slot1 else Slot0)"

definition handle_debug_dump :: "'w can_env \<Rightarrow> can_frame \<Rightarrow> 'w can_st \<Rightarrow> 'w can_st" where
  "handle_debug_dump E fr s =
     (let F = can_flash E;
          area = drop_bit 24 (frame_data_32 fr 1);
          off = frame_data_32 fr 1 AND 0xFFFFFF;
          p = dump_area E area in
      if fa_open F p (world s) \<noteq> 0 then fw_can_reply E FW_CODE_FLASH_ERROR 0xDE01 s
      else if off + 56 > fa_size F p (world s) then fw_can_reply E FW_CODE_FLASH_ERROR 0xDE02 s
      else
        let buf = snd (fa_read F p off 56 (world s)) in
        fold (\<lambda>seq. can_send \<lparr>fr_id = 0x109, fr_dlc = bytes_to_dlc E 8,
                fr_data = of_nat seq # take 7 (drop (seq * 7) buf)\<rparr>) [0..<8] s)"

definition handle_platform_rx :: "'w can_env \<Rightarrow> can_frame \<Rightarrow> 'w can_st \<Rightarrow> 'w can_st" where
  "handle_platform_rx E fr s =
     (let cmd = frame_data_32 fr 0 in
      if cmd = fw_cmd_val FW_CMD_START_UPDATE then handle_start E fr s
      else if cmd = fw_cmd_val FW_CMD_CONFIRM then handle_confirm E fr s
      else if cmd = fw_cmd_val FW_CMD_VERSION then handle_version E s
      else if cmd = fw_cmd_val FW_CMD_REBOOT then handle_reboot E s
      else if boot_wait E \<and> cmd = fw_cmd_val FW_CMD_DEBUG_DUMP then handle_debug_dump E fr s
      else s)"

section \<open>Key-hash (0x104) and data (0x103) frames\<close>

definition handle_keyhash_frame :: "'w can_env \<Rightarrow> can_frame \<Rightarrow> 'w can_st \<Rightarrow> 'w can_st" where
  "handle_keyhash_frame E fr s =
     (let seq = fr_data fr ! 0;
          rem = 32 - seq * 7;
          chunk = min rem 7;
          bytes = dlc_to_bytes E (fr_dlc fr) in
      if unat seq \<ge> CAN_FW_KEYHASH_CHUNKS \<or> unat bytes < 1 + unat chunk then s
      else s\<lparr>rx_keybuf := blit (unat seq * CAN_FW_KEYHASH_CHUNK_BYTES)
                            (take (unat chunk) (drop 1 (fr_data fr))) (rx_keybuf s),
             key_chunk_mask := key_chunk_mask s OR push_bit (unat seq) 1\<rparr>)"

definition handle_fw_data :: "'w can_env \<Rightarrow> can_frame \<Rightarrow> 'w can_st \<Rightarrow> 'w can_st" where
  "handle_fw_data E fr s =
     (if \<not> fw_img_initialized s then fw_can_reply E FW_CODE_TRANFER_ERROR 0 s
      else
        let n = dlc_to_bytes E (fr_dlc fr);
            (rc, w) = img_write (can_flash E) (take (unat n) (fr_data fr)) False (world s);
            s = s\<lparr>world := w\<rparr> in
        if rc \<noteq> 0 then fw_can_reply E FW_CODE_FLASH_ERROR 0 s
        else
          let s = s\<lparr>fw_written := fw_written s + ucast n\<rparr> in
          if fw_written s = fw_total_size s
          then fw_can_reply E FW_CODE_UPDATE_SUCCESS (fw_total_size s) s
          else if fw_written s mod 64 = 0 then fw_can_reply E FW_CODE_OFFSET (fw_written s) s
          else s)"

section \<open>The receive thread\<close>

definition can_fw_note_activity :: "'w can_env \<Rightarrow> 'w can_st \<Rightarrow> 'w can_st" where
  "can_fw_note_activity E s =
     (if boot_wait E then s\<lparr>last_activity_ms := uptime_get_32 E (world s)\<rparr> else s)"

text \<open>Every registered callback sees the frame, in slot order; the result is whether one took it.\<close>

fun broadcast :: "'w can_env \<Rightarrow> can_frame \<Rightarrow> (nat option \<times> nat) list \<Rightarrow> bool \<Rightarrow> 'w \<Rightarrow> bool \<times> 'w" where
  "broadcast E fr [] handled w = (handled, w)"
| "broadcast E fr ((None, ud) # hs) handled w = broadcast E fr hs handled w"
| "broadcast E fr ((Some cb, ud) # hs) handled w =
     (let (r, w') = run_handler E cb ud fr w in broadcast E fr hs (handled \<or> r) w')"

text \<open>One frame taken from the queue by \<open>can_fw_rx_thread_fn\<close>.\<close>

definition can_fw_rx_frame :: "'w can_env \<Rightarrow> can_frame \<Rightarrow> 'w can_st \<Rightarrow> 'w can_st" where
  "can_fw_rx_frame E fr s =
     (if fr_id fr = CAN_FW_PLATFORM_RX then
        (handle_platform_rx E fr ((can_fw_note_activity E s)\<lparr>rx_busy := True\<rparr>))\<lparr>rx_busy := False\<rparr>
      else if fr_id fr = CAN_FW_FW_DATA_RX then handle_fw_data E fr (can_fw_note_activity E s)
      else if fw_keyhash E \<noteq> None \<and> fr_id fr = CAN_FW_KEYHASH_RX
      then handle_keyhash_frame E fr (can_fw_note_activity E s)
      else if boot_wait E \<and> fr_id fr = CAN_FW_BOOT_ACK_RX then s\<lparr>boot_ack_sem := 1\<rparr>
      else s\<lparr>world := snd (broadcast E fr (handlers s) False (world s))\<rparr>)"

section \<open>Initialisation\<close>

definition can_init_bail :: "'w can_env \<Rightarrow> int \<Rightarrow> int" where
  "can_init_bail E rc = (if boot_wait E then 0 else rc)"

definition can_fw_init :: "'w can_env \<Rightarrow> 'w can_st \<Rightarrow> int \<times> 'w can_st" where
  "can_fw_init E s =
     (if \<not> drv_ready E then (can_init_bail E (- ENODEV), s)
      else
        let bitrate = (if bitrate_override s \<noteq> 0 then bitrate_override s else default_bitrate E);
            s = (if boot_wait E \<and> drv_set_mode E = 0 then s\<lparr>bus_one_shot := True\<rparr> else s);
            err = drv_set_bitrate E bitrate in
        if err \<noteq> 0 then (can_init_bail E err, s)
        else
          let s = s\<lparr>bus_bitrate := Some bitrate\<rparr> in
          if drv_start E \<noteq> 0 then (0, s)
          else
            let s = s\<lparr>bus_started := True, can_ier := can_ier s AND NOT 0x1F00, bus_filter := True\<rparr> in
            (0, if boot_wait E then can_send (trace_frame E TRACE_INIT_DONE) s else s))"

section \<open>Interleaving of the interrupt side and the thread\<close>

text \<open>
  The driver's interrupt handler puts a received frame into the message queue and drops it when
  the queue is full; the thread takes the head.  After a reboot nothing runs.
\<close>

inductive can_step :: "'w can_env \<Rightarrow> 'w can_st \<Rightarrow> 'w can_st \<Rightarrow> bool" for E where
  isr_put: "\<not> rebooted s \<Longrightarrow> bus_filter s \<Longrightarrow> length (rx_msgq s) < CAN_FW_MSGQ_DEPTH \<Longrightarrow>
     length (fr_data fr) = 8 \<Longrightarrow> can_step E s (s\<lparr>rx_msgq := rx_msgq s @ [fr]\<rparr>)"
| isr_drop: "\<not> rebooted s \<Longrightarrow> \<not> length (rx_msgq s) < CAN_FW_MSGQ_DEPTH \<Longrightarrow> can_step E s s"
| thread: "\<not> rebooted s \<Longrightarrow> rx_msgq s = fr # q \<Longrightarrow>
     can_step E s (can_fw_rx_frame E fr (s\<lparr>rx_msgq := q\<rparr>))"
| add_handler: "can_step E s (snd (can_fw_set_app_handler cb ud s))"
| remove_handler: "can_step E s (snd (can_fw_remove_handler cb s))"
| reboot_hook: "can_step E s (can_fw_add_pre_reboot_hook hook s)"
| start_hook: "can_step E s (can_fw_add_pre_start_hook hook s)"
| set_bitrate: "can_step E s (can_fw_set_bitrate b s)"
| init: "can_step E s (snd (can_fw_init E s))"

inductive_cases can_step_cases: "can_step E s t"

inductive can_reach :: "'w can_env \<Rightarrow> 'w \<Rightarrow> 'w can_st \<Rightarrow> bool" for E w where
  start: "can_reach E w (can_st_init E w)"
| step: "can_reach E w s \<Longrightarrow> can_step E s t \<Longrightarrow> can_reach E w t"

end
