(* ===== verification/CanFwProps.thy ===== *)
theory CanFwProps imports CanFw "HOL-Library.Sublist" begin

text \<open>
  What the CAN upgrade library guarantees: bounds of its buffers and queues in every reachable
  state, one reply per platform command, the key-hash gate in front of the flash, the conditions
  of a confirmation, and the bookkeeping of the data frames.
\<close>

section \<open>Frame lemmas\<close>

lemma can_send_simps [frame_simps]:
  "handlers (can_send fr s) = handlers s" "pre_reboot_hooks (can_send fr s) = pre_reboot_hooks s"
  "pre_start_hook (can_send fr s) = pre_start_hook s"
  "fw_img_initialized (can_send fr s) = fw_img_initialized s"
  "fw_written (can_send fr s) = fw_written s" "fw_total_size (can_send fr s) = fw_total_size s"
  "rx_keybuf (can_send fr s) = rx_keybuf s" "key_chunk_mask (can_send fr s) = key_chunk_mask s"
  "rx_msgq (can_send fr s) = rx_msgq s" "world (can_send fr s) = world s"
  "fw_confirmed (can_send fr s) = fw_confirmed s" "rebooted (can_send fr s) = rebooted s"
  "rx_busy (can_send fr s) = rx_busy s" "boot_ack_sem (can_send fr s) = boot_ack_sem s"
  "tx (can_send fr s) = tx s @ [fr]"
  by (simp_all add: can_send_def)

lemma fw_can_reply_simps [frame_simps]:
  "handlers (fw_can_reply E c x s) = handlers s"
  "pre_reboot_hooks (fw_can_reply E c x s) = pre_reboot_hooks s"
  "pre_start_hook (fw_can_reply E c x s) = pre_start_hook s"
  "fw_img_initialized (fw_can_reply E c x s) = fw_img_initialized s"
  "fw_written (fw_can_reply E c x s) = fw_written s"
  "fw_total_size (fw_can_reply E c x s) = fw_total_size s"
  "rx_keybuf (fw_can_reply E c x s) = rx_keybuf s"
  "key_chunk_mask (fw_can_reply E c x s) = key_chunk_mask s"
  "rx_msgq (fw_can_reply E c x s) = rx_msgq s" "world (fw_can_reply E c x s) = world s"
  "fw_confirmed (fw_can_reply E c x s) = fw_confirmed s"
  "rebooted (fw_can_reply E c x s) = rebooted s"
  "tx (fw_can_reply E c x s) = tx s @ [reply_frame E c x]"
  by (simp_all add: fw_can_reply_def frame_simps)

lemma note_activity_simps [frame_simps]:
  "handlers (can_fw_note_activity E s) = handlers s"
  "pre_reboot_hooks (can_fw_note_activity E s) = pre_reboot_hooks s"
  "pre_start_hook (can_fw_note_activity E s) = pre_start_hook s"
  "fw_img_initialized (can_fw_note_activity E s) = fw_img_initialized s"
  "fw_written (can_fw_note_activity E s) = fw_written s"
  "fw_total_size (can_fw_note_activity E s) = fw_total_size s"
  "rx_keybuf (can_fw_note_activity E s) = rx_keybuf s"
  "key_chunk_mask (can_fw_note_activity E s) = key_chunk_mask s"
  "rx_msgq (can_fw_note_activity E s) = rx_msgq s" "world (can_fw_note_activity E s) = world s"
  "fw_confirmed (can_fw_note_activity E s) = fw_confirmed s"
  "rebooted (can_fw_note_activity E s) = rebooted s"
  "tx (can_fw_note_activity E s) = tx s"
  by (simp_all add: can_fw_note_activity_def)

lemma fr_id_frames [simp]:
  "fr_id (reply_frame E c x) = CAN_FW_PLATFORM_TX"
  "fr_id (trace_frame E t) = CAN_FW_BOOT_TRACE_TX"
  "fr_id (version_frame E n d) = CAN_FW_VERSION_TX"
  by (simp_all add: reply_frame_def trace_frame_def version_frame_def)

lemma reply_data_32 [simp]:
  "frame_data_32 (reply_frame E c x) 0 = fw_code_val c"
  "frame_data_32 (reply_frame E c x) 1 = x"
  by (simp_all add: frame_data_32_def reply_frame_def)

lemma frame_data_32_pair [simp]:
  "frame_data_32 \<lparr>fr_id = i, fr_dlc = d, fr_data = put_le32 a @ put_le32 b\<rparr> 0 = a"
  "frame_data_32 \<lparr>fr_id = i, fr_dlc = d, fr_data = put_le32 a @ put_le32 b\<rparr> (Suc 0) = b"
  by (simp_all add: frame_data_32_def)

lemma fw_code_val_inject [simp]: "fw_code_val a = fw_code_val b \<longleftrightarrow> a = b"
  by (cases a; cases b) simp_all

lemma reply_frame_inject [simp]: "reply_frame E a x = reply_frame E b y \<longleftrightarrow> a = b \<and> x = y"
  by (metis reply_data_32 fw_code_val_inject)

lemma keyhash_consts: "CAN_FW_KEYHASH_CHUNKS = 5" "CAN_FW_KEYHASH_FULL_MASK = 31"
  by (simp_all add: CAN_FW_KEYHASH_CHUNKS_def FW_KEYHASH_KEY_LEN_def CAN_FW_KEYHASH_CHUNK_BYTES_def
      CAN_FW_KEYHASH_FULL_MASK_def push_bit_eq_mult)

section \<open>Replies\<close>

definition replies :: "can_frame list \<Rightarrow> can_frame list" where
  "replies fs = filter (\<lambda>f. fr_id f = CAN_FW_PLATFORM_TX) fs"

lemma replies_append [simp]: "replies (a @ b) = replies a @ replies b"
  by (simp add: replies_def)

lemma replies_frames [simp]:
  "replies [] = []" "replies [reply_frame E c x] = [reply_frame E c x]"
  "replies [trace_frame E t] = []" "replies [version_frame E n d] = []"
  by (simp_all add: replies_def can_id_defs)

lemma send_version_loop_replies: "replies (tx (send_version_loop E ver len off seq s)) = replies (tx s)"
proof (induction E ver len off seq s rule: send_version_loop.induct)
  case (1 E ver len off seq s)
  then show ?case
    by (subst send_version_loop.simps) (simp add: frame_simps)
qed

lemma call_start_hook_simps [frame_simps]:
  "tx (snd (call_start_hook E s)) = tx s" "rx_keybuf (snd (call_start_hook E s)) = rx_keybuf s"
  "handlers (snd (call_start_hook E s)) = handlers s"
  "key_chunk_mask (snd (call_start_hook E s)) = key_chunk_mask s"
  "pre_reboot_hooks (snd (call_start_hook E s)) = pre_reboot_hooks s"
  "rx_msgq (snd (call_start_hook E s)) = rx_msgq s"
  "rebooted (snd (call_start_hook E s)) = rebooted s"
  "fw_img_initialized (snd (call_start_hook E s)) = fw_img_initialized s"
  by (simp_all add: call_start_hook_def split: option.splits prod.splits)

lemma start_flash_open_fails:
  "fa_open (can_flash E) (fw_target E) (world s) \<noteq> 0 \<Longrightarrow>
   start_flash E sz s = fw_can_reply E FW_CODE_FLASH_ERROR 0 (s\<lparr>fw_total_size := sz\<rparr>)"
  by (simp add: start_flash_def)

definition erased_world :: "'w can_env \<Rightarrow> u32 \<Rightarrow> 'w can_st \<Rightarrow> 'w" where
  "erased_world E sz s =
     snd (fa_erase (can_flash E) (fw_target E) 0 (round_up32 sz 4096) (world s))"

lemma start_flash_init_fails:
  "fa_open (can_flash E) (fw_target E) (world s) = 0 \<Longrightarrow>
   img_init (can_flash E) (fw_target E) (erased_world E sz s) = (rc, w) \<Longrightarrow> rc \<noteq> 0 \<Longrightarrow>
   start_flash E sz s = fw_can_reply E FW_CODE_FLASH_ERROR 0
     (s\<lparr>fw_total_size := sz, world := w, fw_img_initialized := False\<rparr>)"
  by (simp add: start_flash_def erased_world_def)

lemma start_flash_ok:
  "fa_open (can_flash E) (fw_target E) (world s) = 0 \<Longrightarrow>
   img_init (can_flash E) (fw_target E) (erased_world E sz s) = (0, w) \<Longrightarrow>
   start_flash E sz s = fw_can_reply E FW_CODE_OFFSET 0
     (s\<lparr>fw_total_size := sz, world := w, fw_img_initialized := True, fw_written := 0,
        rx_msgq := []\<rparr>)"
  by (simp add: start_flash_def erased_world_def)

lemma start_flash_cases:
  obtains (ok) w where "start_flash E sz s = fw_can_reply E FW_CODE_OFFSET 0
      (s\<lparr>fw_total_size := sz, world := w, fw_img_initialized := True, fw_written := 0,
         rx_msgq := []\<rparr>)"
      "img_init (can_flash E) (fw_target E) (erased_world E sz s) = (0, w)"
  | (open_fails) "start_flash E sz s = fw_can_reply E FW_CODE_FLASH_ERROR 0 (s\<lparr>fw_total_size := sz\<rparr>)"
  | (init_fails) w where "start_flash E sz s = fw_can_reply E FW_CODE_FLASH_ERROR 0
      (s\<lparr>fw_total_size := sz, world := w, fw_img_initialized := False\<rparr>)"
  by (cases "fa_open (can_flash E) (fw_target E) (world s) = 0";
      cases "img_init (can_flash E) (fw_target E) (erased_world E sz s)";
      cases "fst (img_init (can_flash E) (fw_target E) (erased_world E sz s)) = 0")
     (auto simp: start_flash_open_fails start_flash_init_fails start_flash_ok)

lemma start_flash_replies: "\<exists>c. replies (tx (start_flash E sz s)) = replies (tx s) @ [reply_frame E c 0]"
  by (cases rule: start_flash_cases [of E sz s]) (simp_all add: frame_simps)

text \<open>The states START passes through before it touches the flash.\<close>

definition start_traced :: "'w can_env \<Rightarrow> 'w can_st \<Rightarrow> 'w can_st" where
  "start_traced E s = (if boot_wait E then can_send (trace_frame E TRACE_FW_START) s else s)"

definition start_checked :: "'w can_env \<Rightarrow> 'w can_st \<Rightarrow> 'w can_st" where
  "start_checked E s = (if fw_keyhash E \<noteq> None \<and> key_complete s
     then (start_traced E s)\<lparr>key_chunk_mask := 0\<rparr> else start_traced E s)"

lemma start_traced_simps [frame_simps]:
  "replies (tx (start_traced E s)) = replies (tx s)" "world (start_traced E s) = world s"
  "rx_keybuf (start_traced E s) = rx_keybuf s" "key_chunk_mask (start_traced E s) = key_chunk_mask s"
  "handlers (start_traced E s) = handlers s" "pre_start_hook (start_traced E s) = pre_start_hook s"
  "pre_reboot_hooks (start_traced E s) = pre_reboot_hooks s" "rx_msgq (start_traced E s) = rx_msgq s"
  "fw_img_initialized (start_traced E s) = fw_img_initialized s"
  "rebooted (start_traced E s) = rebooted s"
  by (simp_all add: start_traced_def frame_simps)

lemma start_checked_simps [frame_simps]:
  "replies (tx (start_checked E s)) = replies (tx s)" "world (start_checked E s) = world s"
  "rx_keybuf (start_checked E s) = rx_keybuf s"
  "handlers (start_checked E s) = handlers s" "pre_start_hook (start_checked E s) = pre_start_hook s"
  "pre_reboot_hooks (start_checked E s) = pre_reboot_hooks s" "rx_msgq (start_checked E s) = rx_msgq s"
  "fw_img_initialized (start_checked E s) = fw_img_initialized s"
  "rebooted (start_checked E s) = rebooted s"
  by (simp_all add: start_checked_def frame_simps)

definition key_mismatch :: "'w can_env \<Rightarrow> 'w can_st \<Rightarrow> bool" where
  "key_mismatch E s \<longleftrightarrow> fw_keyhash E \<noteq> None \<and> key_complete s \<and> Some (rx_keybuf s) \<noteq> fw_keyhash E"

lemma handle_start_alt:
  "handle_start E fr s =
     (if dlc_to_bytes E (fr_dlc fr) \<noteq> 8 then fw_can_reply E FW_CODE_FLASH_ERROR 0 s
      else if key_mismatch E s then fw_can_reply E FW_CODE_KEYHASH_ERROR 0 (start_checked E s)
      else if \<not> fst (call_start_hook E (start_checked E s))
      then fw_can_reply E FW_CODE_TRANFER_ERROR 0 (snd (call_start_hook E (start_checked E s)))
      else start_flash E (frame_data_32 fr 1) (snd (call_start_hook E (start_checked E s))))"
proof -
  have k: "key_complete (start_traced E s) = key_complete s"
    by (simp add: key_complete_def frame_simps)
  show ?thesis
    unfolding handle_start_def Let_def start_traced_def [symmetric] key_mismatch_def
      start_checked_def k
    by (auto simp: case_prod_beta start_traced_simps)
qed

lemma start_replies: "\<exists>c. replies (tx (handle_start E fr s)) = replies (tx s) @ [reply_frame E c 0]"
proof -
  have "replies (tx (snd (call_start_hook E (start_checked E s)))) = replies (tx s)"
    by (simp add: frame_simps)
  then show ?thesis
    unfolding handle_start_alt
    using start_flash_replies [of E "frame_data_32 fr 1" "snd (call_start_hook E (start_checked E s))"]
    by (simp add: frame_simps)
qed

lemma confirm_replies:
  "\<exists>c x. replies (tx (handle_confirm E fr s)) = replies (tx s) @ [reply_frame E c x]"
  by (auto simp: handle_confirm_def Let_def frame_simps split: prod.splits)

lemma version_replies:
  "replies (tx (handle_version E s)) =
     replies (tx s) @ [reply_frame E FW_CODE_VERSION (of_nat (length (version_string E)))]"
  by (simp add: handle_version_def Let_def fw_can_send_version_string_def send_version_loop_replies
      frame_simps)

lemma reply_counts:
  "length (replies (tx (handle_start E fr s))) = Suc (length (replies (tx s)))"
  "length (replies (tx (handle_confirm E fr s))) = Suc (length (replies (tx s)))"
  "length (replies (tx (handle_version E s))) = Suc (length (replies (tx s)))"
  using start_replies [of E fr s] confirm_replies [of E fr s] version_replies [of E s]
  by (elim exE; simp)+

lemma sends_replies_mono:
  "length (replies (tx s)) \<le> length (replies (tx (fold (\<lambda>x. can_send (g x)) xs s)))"
proof (induction xs arbitrary: s)
  case (Cons x xs)
  have "length (replies (tx s)) \<le> length (replies (tx (can_send (g x) s)))"
    by (simp add: frame_simps)
  also note Cons.IH [of "can_send (g x) s"]
  finally show ?case by simp
qed simp

lemma dump_replies_mono: "length (replies (tx s)) \<le> length (replies (tx (handle_debug_dump E fr s)))"
  by (simp add: handle_debug_dump_def Let_def frame_simps sends_replies_mono)

section \<open>The version string\<close>

text \<open>With version components below 256 and a six-character commit the string fits the 24-byte
  buffer, so the byte counters of the fragment loop cannot wrap and no terminator is cut off.\<close>

lemma version_string_length:
  assumes "app_version E = (ma, mi, pa)" "ma < 256" "mi < 256" "pa < 256" "length (git_version E) = 6"
  shows "length (version_string E) < 24"
  using assms length_dec_le3 [of ma] length_dec_le3 [of mi] length_dec_le3 [of pa]
  by (simp add: version_string_def)

definition version_fragments :: "'w can_env \<Rightarrow> nat \<Rightarrow> bytes \<Rightarrow> can_frame list" where
  "version_fragments E seq ver =
     map (\<lambda>(i, c). version_frame E i c) (enumerate seq (chunks 7 ver))"

lemma send_version_loop_tx:
  "off \<le> length ver \<Longrightarrow>
   send_version_loop E ver (length ver) off seq s =
     s\<lparr>tx := tx s @ version_fragments E seq (drop off ver)\<rparr>"
proof (induction E ver "length ver" off seq s rule: send_version_loop.induct)
  case (1 E ver off seq s)
  show ?case
  proof (cases "off < length ver")
    case True
    have c: "chunks 7 (drop off ver) = take 7 (drop off ver) # chunks 7 (drop (off + 7) ver)"
      using True by (subst chunks_step) (simp_all add: add.commute)
    have t: "take (min 7 (length ver - off)) (drop off ver) = take 7 (drop off ver)"
      by (simp add: min_def)
    show ?thesis
    proof (cases "off + 7 \<le> length ver")
      case True
      with 1 \<open>off < length ver\<close> show ?thesis
        by (subst send_version_loop.simps) (simp add: t c version_fragments_def can_send_def)
    next
      case False
      then have "drop (off + 7) ver = []" by simp
      with False \<open>off < length ver\<close> show ?thesis
        by (subst send_version_loop.simps, subst send_version_loop.simps)
           (simp add: t c version_fragments_def can_send_def)
    qed
  next
    case False
    with 1 show ?thesis by (subst send_version_loop.simps) (simp add: version_fragments_def)
  qed
qed

lemma handle_version_tx:
  "tx (handle_version E s) = tx s @ reply_frame E FW_CODE_VERSION (of_nat (length (version_string E)))
     # version_fragments E 0 (version_string E)"
  by (simp add: handle_version_def Let_def fw_can_send_version_string_def send_version_loop_tx
      frame_simps)

section \<open>Bounds kept in every reachable state\<close>

text \<open>
  \<open>can_inv\<close>: the static arrays keep their sizes, the queue never exceeds its depth and holds
  whole frames, and the chunk mask only uses the five bits of the five chunks.
\<close>

definition can_inv :: "'w can_env \<Rightarrow> 'w can_st \<Rightarrow> bool" where
  "can_inv E s \<longleftrightarrow> length (handlers s) = max_handlers E \<and>
     length (pre_reboot_hooks s) \<le> CAN_FW_MAX_PRE_REBOOT_HOOKS \<and>
     length (rx_keybuf s) = FW_KEYHASH_KEY_LEN \<and> (key_chunk_mask s AND NOT 31) = 0 \<and>
     length (rx_msgq s) \<le> CAN_FW_MSGQ_DEPTH \<and> (\<forall>f \<in> set (rx_msgq s). length (fr_data f) = 8)"

lemma can_inv_init: "can_inv E (can_st_init E w)"
  by (simp add: can_inv_def can_st_init_def)

lemma can_inv_reply [simp]: "can_inv E (fw_can_reply E c x s) = can_inv E s"
  by (simp add: can_inv_def frame_simps)

lemma can_inv_send [simp]: "can_inv E (can_send fr s) = can_inv E s"
  by (simp add: can_inv_def frame_simps)

lemma can_inv_fields [simp]:
  "can_inv E (s\<lparr>world := w\<rparr>) = can_inv E s" "can_inv E (s\<lparr>fw_total_size := x\<rparr>) = can_inv E s"
  "can_inv E (s\<lparr>fw_written := x\<rparr>) = can_inv E s"
  "can_inv E (s\<lparr>fw_img_initialized := b\<rparr>) = can_inv E s"
  "can_inv E (s\<lparr>fw_confirmed := b\<rparr>) = can_inv E s" "can_inv E (s\<lparr>rx_busy := b\<rparr>) = can_inv E s"
  "can_inv E (s\<lparr>rebooted := b\<rparr>) = can_inv E s" "can_inv E (s\<lparr>boot_ack_sem := n\<rparr>) = can_inv E s"
  "can_inv E (s\<lparr>last_activity_ms := x\<rparr>) = can_inv E s" "can_inv E (s\<lparr>tx := y\<rparr>) = can_inv E s"
  by (simp_all add: can_inv_def)

lemma can_inv_reset:
  "can_inv E s \<Longrightarrow> can_inv E (s\<lparr>rx_msgq := []\<rparr>)" "can_inv E s \<Longrightarrow> can_inv E (s\<lparr>key_chunk_mask := 0\<rparr>)"
  by (simp_all add: can_inv_def)

lemma can_inv_activity [simp]: "can_inv E (can_fw_note_activity E s) = can_inv E s"
  by (simp add: can_fw_note_activity_def)

lemma can_inv_hook [simp]: "can_inv E (snd (call_start_hook E s)) = can_inv E s"
  by (simp add: call_start_hook_def split: option.splits prod.splits)

lemma can_inv_start_flash: "can_inv E s \<Longrightarrow> can_inv E (start_flash E sz s)"
  by (cases rule: start_flash_cases [of E sz s]) (simp_all add: can_inv_reset)

lemma can_inv_start_checked: "can_inv E s \<Longrightarrow> can_inv E (start_checked E s)"
  by (simp add: start_checked_def start_traced_def can_inv_reset)

lemma can_inv_start: "can_inv E s \<Longrightarrow> can_inv E (handle_start E fr s)"
  by (simp add: handle_start_alt can_inv_start_flash can_inv_start_checked)

lemma can_inv_confirm: "can_inv E s \<Longrightarrow> can_inv E (handle_confirm E fr s)"
  by (simp add: handle_confirm_def Let_def split: prod.splits)

lemma can_inv_version: "can_inv E s \<Longrightarrow> can_inv E (handle_version E s)"
  by (simp add: handle_version_def fw_can_send_version_string_def send_version_loop_tx Let_def)

lemma can_inv_reboot: "can_inv E s \<Longrightarrow> can_inv E (handle_reboot E s)"
  by (simp add: handle_reboot_def)

lemma can_inv_sends: "can_inv E (fold (\<lambda>x. can_send (f x)) xs s) = can_inv E s"
  by (induction xs arbitrary: s) simp_all

lemma can_inv_dump: "can_inv E s \<Longrightarrow> can_inv E (handle_debug_dump E fr s)"
  by (simp add: handle_debug_dump_def Let_def can_inv_sends)

lemma can_inv_platform: "can_inv E s \<Longrightarrow> can_inv E (handle_platform_rx E fr s)"
  by (simp add: handle_platform_rx_def Let_def can_inv_start can_inv_confirm can_inv_version
      can_inv_reboot can_inv_dump)

text \<open>The key-hash frame: the copied chunk lies inside the 32-byte buffer for every sequence byte.\<close>

lemma u8_small_cases:
  assumes "unat (x::u8) < 5"
  shows "x = 0 \<or> x = 1 \<or> x = 2 \<or> x = 3 \<or> x = 4"
proof -
  have "x \<in> of_nat ` {0,1,2,3,4}"
    using assms by (intro image_eqI [where x = "unat x"]) (simp, auto)
  then show ?thesis by auto
qed

lemma keyhash_chunk_size:
  "unat (x::u8) < 5 \<Longrightarrow> unat (min (32 - x * 7) 7) = min 7 (32 - 7 * unat x)"
  by (drule u8_small_cases, elim disjE) (simp_all add: min_def)

lemma keyhash_mask_bits:
  assumes "unat (x::u8) < 5" "m AND - 32 = (0::u8)"
  shows "(m OR 2 ^ unat x) AND - 32 = 0"
proof -
  from u8_small_cases [OF assms(1)] have "2 ^ unat x AND (- 32 :: u8) = 0"
    by (elim disjE) simp_all
  then show ?thesis using assms(2) by (simp add: bit.conj_disj_distrib2)
qed

lemma keyhash_blit_in_bounds:
  assumes "unat (x::u8) < 5" "length d = 8"
  shows "unat x * 7 + length (take (unat (min (32 - x * 7) 7)) (drop 1 d)) \<le> 32"
  using assms by (auto simp: keyhash_chunk_size)

lemma can_inv_keyhash:
  assumes inv: "can_inv E s" and len: "length (fr_data fr) = 8"
  shows "can_inv E (handle_keyhash_frame E fr s)"
proof (cases "unat (fr_data fr ! 0) < 5")
  case True
  with inv keyhash_blit_in_bounds [OF True len] keyhash_mask_bits [OF True] show ?thesis
    by (simp add: handle_keyhash_frame_def Let_def can_inv_def keyhash_consts FW_KEYHASH_KEY_LEN_def
        CAN_FW_KEYHASH_CHUNK_BYTES_def)
next
  case False
  with inv show ?thesis by (simp add: handle_keyhash_frame_def Let_def keyhash_consts)
qed

lemma can_inv_fw_data: "can_inv E s \<Longrightarrow> can_inv E (handle_fw_data E fr s)"
  by (simp add: handle_fw_data_def Let_def split: prod.splits)

lemma can_inv_rx_frame:
  "can_inv E s \<Longrightarrow> length (fr_data fr) = 8 \<Longrightarrow> can_inv E (can_fw_rx_frame E fr s)"
  by (simp add: can_fw_rx_frame_def can_inv_platform can_inv_fw_data can_inv_keyhash)

lemma fill_free_slot_length [simp]: "fill_free_slot cb ud hs = Some hs' \<Longrightarrow> length hs' = length hs"
  by (induction hs arbitrary: hs') (auto split: if_splits)

lemma clear_slot_length [simp]: "clear_slot cb hs = Some hs' \<Longrightarrow> length hs' = length hs"
  by (induction hs arbitrary: hs') (auto split: if_splits)

lemma can_inv_register:
  "can_inv E s \<Longrightarrow> can_inv E (snd (can_fw_set_app_handler cb ud s))"
  "can_inv E s \<Longrightarrow> can_inv E (snd (can_fw_remove_handler cb s))"
  "can_inv E s \<Longrightarrow> can_inv E (can_fw_add_pre_reboot_hook hook s)"
  "can_inv E s \<Longrightarrow> can_inv E (can_fw_add_pre_start_hook hook s)"
  "can_inv E s \<Longrightarrow> can_inv E (can_fw_set_bitrate b s)"
  by (auto simp: can_fw_set_app_handler_def can_fw_remove_handler_def can_inv_def
      can_fw_add_pre_reboot_hook_def can_fw_add_pre_start_hook_def can_fw_set_bitrate_def
      split: option.splits)

lemma can_inv_fw_init: "can_inv E s \<Longrightarrow> can_inv E (snd (can_fw_init E s))"
  by (auto simp: can_fw_init_def Let_def can_inv_def frame_simps)

lemma can_step_inv: "can_step E s t \<Longrightarrow> can_inv E s \<Longrightarrow> can_inv E t"
proof (induction rule: can_step.induct)
  case (thread s fr q)
  then have "can_inv E (s\<lparr>rx_msgq := q\<rparr>)" "length (fr_data fr) = 8"
    by (auto simp: can_inv_def)
  then show ?case by (rule can_inv_rx_frame)
next
  case (isr_put s fr)
  then show ?case by (auto simp: can_inv_def)
qed (auto simp: can_inv_register can_inv_fw_init)

lemma can_reach_inv: "can_reach E w s \<Longrightarrow> can_inv E s"
  by (induction rule: can_reach.induct) (auto simp: can_inv_init intro: can_step_inv)

section \<open>Data frames\<close>

text \<open>The payload a data frame carries, and the effect of one accepted frame.\<close>

definition payload :: "'w can_env \<Rightarrow> can_frame \<Rightarrow> bytes" where
  "payload E fr = take (unat (dlc_to_bytes E (fr_dlc fr))) (fr_data fr)"

definition data_reply :: "'w can_env \<Rightarrow> u32 \<Rightarrow> u32 \<Rightarrow> can_frame list" where
  "data_reply E written total_size =
     (if written = total_size then [reply_frame E FW_CODE_UPDATE_SUCCESS total_size]
      else if written mod 64 = 0 then [reply_frame E FW_CODE_OFFSET written] else [])"

lemma handle_fw_data_accepted:
  assumes "fw_img_initialized s" "img_write (can_flash E) (payload E fr) False (world s) = (0, w)"
  shows "handle_fw_data E fr s =
    (let n = fw_written s + ucast (dlc_to_bytes E (fr_dlc fr)) in
     s\<lparr>world := w, fw_written := n, tx := tx s @ data_reply E n (fw_total_size s)\<rparr>)"
  using assms by (simp add: handle_fw_data_def payload_def Let_def fw_can_reply_def can_send_def
      data_reply_def)

lemma handle_fw_data_failed:
  assumes "fw_img_initialized s" "img_write (can_flash E) (payload E fr) False (world s) = (rc, w)" "rc \<noteq> 0"
  shows "handle_fw_data E fr s = fw_can_reply E FW_CODE_FLASH_ERROR 0 (s\<lparr>world := w\<rparr>)"
  using assms by (simp add: handle_fw_data_def payload_def Let_def)

text \<open>A frame whose payload is as long as its length code says.\<close>

definition frame_ok :: "'w can_env \<Rightarrow> can_frame \<Rightarrow> bool" where
  "frame_ok E fr \<longleftrightarrow> unat (dlc_to_bytes E (fr_dlc fr)) \<le> length (fr_data fr)"

lemma length_payload: "frame_ok E fr \<Longrightarrow> length (payload E fr) = unat (dlc_to_bytes E (fr_dlc fr))"
  by (simp add: payload_def frame_ok_def)

lemma ucast_payload: "frame_ok E fr \<Longrightarrow> (ucast (dlc_to_bytes E (fr_dlc fr)) :: u32) = of_nat (length (payload E fr))"
  by (simp add: length_payload)

definition no_flash_error :: "can_frame list \<Rightarrow> bool" where
  "no_flash_error fs \<longleftrightarrow>
     list_all (\<lambda>f. frame_data_32 f 0 \<noteq> fw_code_val FW_CODE_FLASH_ERROR) (replies fs)"

lemma no_flash_error_append [simp]:
  "no_flash_error (a @ b) \<longleftrightarrow> no_flash_error a \<and> no_flash_error b"
  by (simp add: no_flash_error_def)

lemma data_reply_no_error [simp]: "no_flash_error (data_reply E n t)"
  by (simp add: data_reply_def no_flash_error_def replies_def)

lemma flash_error_reply [simp]: "\<not> no_flash_error [reply_frame E FW_CODE_FLASH_ERROR x]"
  by (simp add: no_flash_error_def replies_def)

text \<open>
  A run of data frames in a started session during which no flash error was reported: the image
  has grown by exactly the payloads, in order, and the byte counter by their length.
\<close>

lemma data_run:
  assumes laws: "flash_img_laws (can_flash E) img"
  shows "fw_img_initialized s \<Longrightarrow> \<forall>f \<in> set frs. frame_ok E f \<Longrightarrow>
    no_flash_error (tx (fold (handle_fw_data E) frs s)) \<Longrightarrow>
    img (world (fold (handle_fw_data E) frs s)) = img (world s) @ concat (map (payload E) frs) \<and>
    fw_written (fold (handle_fw_data E) frs s) = fw_written s + of_nat (length (concat (map (payload E) frs))) \<and>
    fw_img_initialized (fold (handle_fw_data E) frs s) \<and>
    fw_total_size (fold (handle_fw_data E) frs s) = fw_total_size s \<and>
    no_flash_error (tx s)"
proof (induction frs arbitrary: s)
  case (Cons fr frs)
  obtain rc w where wr: "img_write (can_flash E) (payload E fr) False (world s) = (rc, w)"
    by fastforce
  let ?s = "handle_fw_data E fr s"
  have init: "fw_img_initialized ?s"
    using Cons.prems(1) wr handle_fw_data_accepted [of s E fr w] handle_fw_data_failed [of s E fr rc w]
    by (cases "rc = 0") (simp_all add: Let_def frame_simps)
  from Cons.prems have rest: "no_flash_error (tx (fold (handle_fw_data E) frs ?s))" by simp
  note ih = Cons.IH [OF init _ rest]
  with Cons.prems(2) have no: "no_flash_error (tx ?s)" by simp
  have "rc = 0"
  proof (rule ccontr)
    assume "rc \<noteq> 0"
    from handle_fw_data_failed [OF Cons.prems(1) wr this] no show False by (simp add: frame_simps)
  qed
  with wr have eq: "?s = (let n = fw_written s + ucast (dlc_to_bytes E (fr_dlc fr)) in
     s\<lparr>world := w, fw_written := n, tx := tx s @ data_reply E n (fw_total_size s)\<rparr>)"
    using handle_fw_data_accepted [OF Cons.prems(1)] by simp
  have "img w = img (world s) @ payload E fr"
    using img_write_ok [OF laws] wr \<open>rc = 0\<close> by blast
  with ih Cons.prems(2) no eq show ?case by (simp add: Let_def ucast_payload algebra_simps)
qed simp

text \<open>Losing frames shortens the total, so equal totals mean nothing was lost.\<close>

lemma subseq_concat_eq:
  "subseq xs ys \<Longrightarrow> \<forall>y \<in> set ys. y \<noteq> [] \<Longrightarrow> length (concat xs) = length (concat ys) \<Longrightarrow> xs = ys"
proof (induction rule: list_emb.induct)
  case (list_emb_Cons xs ys y)
  have "length (concat xs) \<le> length (concat ys)"
    using list_emb_Cons.hyps
    by (induction rule: list_emb.induct) auto
  moreover from list_emb_Cons.prems(1) have "0 < length y" by simp
  ultimately show ?case using list_emb_Cons.prems(2) by simp
qed auto

end
