(* ===== verification/CanFwTheorems.thy ===== *)
theory CanFwTheorems imports CanFwProps begin

text \<open>
  The properties of the CAN upgrade library on its own, over any environment that meets the
  stated contracts, with a concrete build (\<open>demo_can\<close>, an in-memory flash and a 32-byte key
  hash) that each hypothesis is met by.
\<close>

section \<open>A concrete build\<close>

definition demo_key :: bytes where
  "demo_key = map of_nat [0..<32]"

definition demo_can :: "ram_world can_env" where
  "demo_can = \<lparr> can_flash = ram_flash, boot_wait = False, fw_keyhash = Some demo_key,
     max_handlers = 4, app_version = (1, 2, 3), git_version = [0x61, 0x62, 0x63, 0x31, 0x32, 0x33],
     default_bitrate = 250000, has_scratch = True, dlc_to_bytes = (\<lambda>d. d), bytes_to_dlc = (\<lambda>n. n),
     uptime_get_32 = (\<lambda>_. 0), run_handler = (\<lambda>_ _ _ w. (False, w)),
     run_start_hook = (\<lambda>_ w. (True, w)), run_reboot_hook = (\<lambda>_ w. w), drv_ready = True,
     drv_set_mode = 0, drv_set_bitrate = (\<lambda>_. 0), drv_start = 0 \<rparr>"

definition demo_st :: "ram_world can_st" where
  "demo_st = can_st_init demo_can ram_empty"

lemma demo_can_simps [simp]:
  "can_flash demo_can = ram_flash" "boot_wait demo_can = False" "fw_keyhash demo_can = Some demo_key"
  "dlc_to_bytes demo_can = (\<lambda>d. d)" "bytes_to_dlc demo_can = (\<lambda>n. n)" "max_handlers demo_can = 4"
  "app_version demo_can = (1, 2, 3)" "drv_ready demo_can"
  "run_start_hook demo_can = (\<lambda>_ w. (True, w))"
  "git_version demo_can = [0x61, 0x62, 0x63, 0x31, 0x32, 0x33]"
  by (simp_all add: demo_can_def)

lemma ram_flash_simps [simp]:
  "fa_open ram_flash p w = 0" "img_init ram_flash p w = (0, w\<lparr>ram_img := []\<rparr>)"
  "fa_erase ram_flash p a b w = (0, w)"
  "img_write ram_flash d fl w = (0, w\<lparr>ram_img := ram_img w @ d\<rparr>)"
  "boot_request ram_flash v w = (0, w\<lparr>ram_pending := Some v\<rparr>)"
  by (simp_all add: ram_flash_def)

section \<open>Safety of the receive path\<close>

text \<open>
  C1. In every state the library can reach, by any interleaving of the driver interrupt, the
  receive thread, registrations and initialisation, and for every frame received, the key buffer
  keeps its 32 bytes (no key-hash frame writes outside it), the message queue holds at most 32
  whole frames, the chunk mask uses only its five bits and the callback tables keep their sizes.
\<close>
theorem can_reachable_bounds:
  assumes "can_reach E w s"
  shows "length (rx_keybuf s) = 32 \<and> length (rx_msgq s) \<le> 32 \<and>
    (key_chunk_mask s AND NOT 31) = 0 \<and> length (handlers s) = max_handlers E \<and>
    length (pre_reboot_hooks s) \<le> 4"
  using can_reach_inv [OF assms]
  by (simp add: can_inv_def FW_KEYHASH_KEY_LEN_def CAN_FW_MSGQ_DEPTH_def
      CAN_FW_MAX_PRE_REBOOT_HOOKS_def)

theorem can_reachable_bounds_witness:
  "length (rx_keybuf (snd (can_fw_init demo_can demo_st))) = 32"
proof -
  have "can_reach demo_can ram_empty (snd (can_fw_init demo_can demo_st))"
    unfolding demo_st_def by (intro can_reach.step [OF can_reach.start] can_step.init)
  from can_reachable_bounds [OF this] show ?thesis by simp
qed

text \<open>
  The key-hash gate: when all five key chunks have arrived and differ from the key the
  firmware was built with, START_UPDATE answers KEYHASH_ERROR, leaves the flash and the
  application untouched, calls no hook, and consumes the received chunks so that the next START
  needs them again.
\<close>
theorem start_rejects_wrong_key:
  assumes "dlc_to_bytes E (fr_dlc fr) = 8" and "fw_keyhash E = Some k" and "key_complete s"
    and "rx_keybuf s \<noteq> k"
  shows "world (handle_start E fr s) = world s \<and>
    fw_img_initialized (handle_start E fr s) = fw_img_initialized s \<and>
    key_chunk_mask (handle_start E fr s) = 0 \<and>
    replies (tx (handle_start E fr s)) = replies (tx s) @ [reply_frame E FW_CODE_KEYHASH_ERROR 0]"
proof -
  have "key_mismatch E s" using assms by (simp add: key_mismatch_def)
  with assms show ?thesis
    by (simp add: handle_start_alt frame_simps) (simp add: start_checked_def)
qed

definition start_frame :: "u32 \<Rightarrow> can_frame" where
  "start_frame n = \<lparr>fr_id = CAN_FW_PLATFORM_RX, fr_dlc = 8,
     fr_data = put_le32 (fw_cmd_val FW_CMD_START_UPDATE) @ put_le32 n\<rparr>"

definition confirm_frame :: "u32 \<Rightarrow> can_frame" where
  "confirm_frame permanent = \<lparr>fr_id = CAN_FW_PLATFORM_RX, fr_dlc = 8,
     fr_data = put_le32 (fw_cmd_val FW_CMD_CONFIRM) @ put_le32 permanent\<rparr>"

definition data_frame :: "bytes \<Rightarrow> can_frame" where
  "data_frame d = \<lparr>fr_id = CAN_FW_FW_DATA_RX, fr_dlc = of_nat (length d), fr_data = pad8 d\<rparr>"

theorem start_rejects_wrong_key_witness:
  "world (handle_start demo_can (start_frame 64) (demo_st\<lparr>key_chunk_mask := 31\<rparr>)) = ram_empty"
proof -
  have k: "fw_keyhash demo_can = Some demo_key" by simp
  have "key_complete (demo_st\<lparr>key_chunk_mask := 31\<rparr>)"
    by (simp add: key_complete_def keyhash_consts)
  moreover have "rx_keybuf (demo_st\<lparr>key_chunk_mask := 31\<rparr>) \<noteq> demo_key"
    by (simp add: demo_st_def can_st_init_def demo_key_def FW_KEYHASH_KEY_LEN_def upt_rec numeral_eq_Suc)
  moreover have "dlc_to_bytes demo_can (fr_dlc (start_frame 64)) = 8" by (simp add: start_frame_def)
  ultimately show ?thesis
    using start_rejects_wrong_key [OF _ k, of "start_frame 64" "demo_st\<lparr>key_chunk_mask := 31\<rparr>"]
    by (simp add: demo_st_def can_st_init_def)
qed

text \<open>
  Every START_UPDATE, CONFIRM and VERSION command is answered by exactly one 0x102 reply
  frame, whatever branch it takes; REBOOT and unknown commands are answered by none.
\<close>
theorem platform_reply_count:
  "length (replies (tx (handle_platform_rx E fr s))) = length (replies (tx s)) +
     (if frame_data_32 fr 0 \<in> {0, 1, 2} then 1
      else if boot_wait E \<and> frame_data_32 fr 0 = 0xDE
      then length (replies (tx (handle_debug_dump E fr s))) - length (replies (tx s)) else 0)"
  using dump_replies_mono [of s E fr]
  by (simp add: handle_platform_rx_def Let_def handle_reboot_def reply_counts)

text \<open>
  A confirmation is answered with the magic number if and only if a session is open, the
  bytes written equal the announced size and, in the application build, the boot request for the
  new image was accepted; and it closes the session in every case.
\<close>
theorem confirm_accepted_iff:
  "(tx (handle_confirm E fr s) = tx s @ [reply_frame E FW_CODE_CONFIRM 0x55AA55AA]) =
     (fw_img_initialized s \<and> fw_written s = fw_total_size s \<and>
      (boot_wait E \<or> fst (boot_request (can_flash E) (frame_data_32 fr 1)
          (snd (img_write (can_flash E) [] True (world s)))) = 0)) \<and>
   \<not> fw_img_initialized (handle_confirm E fr s)"
  by (auto simp: handle_confirm_def Let_def frame_simps split: prod.splits)

text \<open>
  C2. Completeness of a confirmed transfer over a bus that may lose frames: if the frames that
  arrived are a subsequence of those the host sent for an image, no flash error was reported and
  the confirmation is accepted, then every frame arrived and the image writer accepted exactly the
  bytes the host sent.  If moreover the write that CONFIRM makes to flush the writer's buffer succeeds
  (the code ignores its result), then after CONFIRM the written image is the one sent, and reading
  the upgrade slot back right after that flush gives its bytes.
\<close>
theorem confirmed_transfer_is_complete:
  assumes "flash_img_laws (can_flash E) img" and "fw_img_initialized s" and "fw_written s = 0"
    and "img (world s) = []"
    and "fw_total_size s = of_nat (length (concat (map (payload E) sent)))"
    and "length (concat (map (payload E) sent)) < 2 ^ 32"
    and "\<forall>f \<in> set sent. frame_ok E f \<and> payload E f \<noteq> []" and "subseq arrived sent"
    and "no_flash_error (tx (fold (handle_fw_data E) arrived s))"
    and "tx (handle_confirm E fr (fold (handle_fw_data E) arrived s)) =
      tx (fold (handle_fw_data E) arrived s) @ [reply_frame E FW_CODE_CONFIRM 0x55AA55AA]"
    and "flash_readback_laws (can_flash E) img (fw_target E)"
  shows "arrived = sent \<and>
    img (world (fold (handle_fw_data E) arrived s)) = concat (map (payload E) sent) \<and>
    (\<forall>w. img_write (can_flash E) [] True (world (fold (handle_fw_data E) arrived s)) = (0, w) \<longrightarrow>
      img (world (handle_confirm E fr (fold (handle_fw_data E) arrived s))) = concat (map (payload E) sent) \<and>
      fa_read (can_flash E) (fw_target E) 0 (length (concat (map (payload E) sent))) w =
        (0, concat (map (payload E) sent)))"
proof -
  let ?s = "fold (handle_fw_data E) arrived s"
  let ?len = "\<lambda>fs. length (concat (map (payload E) fs))"
  have "\<forall>f \<in> set arrived. frame_ok E f"
    using assms(7,8) by (auto dest: list_emb_set)
  from data_run [OF assms(1) assms(2) this assms(9)] assms(3,4)
  have img: "img (world ?s) = concat (map (payload E) arrived)"
    and n: "fw_written ?s = of_nat (?len arrived)" and t: "fw_total_size ?s = fw_total_size s"
    by simp_all
  have sub: "subseq (map (payload E) arrived) (map (payload E) sent)"
    using assms(8) by (rule subseq_map)
  have le: "?len arrived \<le> ?len sent"
    using assms(8) by (induction rule: list_emb.induct) auto
  have "fw_written ?s = fw_total_size ?s"
    using assms(10) confirm_accepted_iff by blast
  with n t assms(5,6) le have "?len arrived = ?len sent"
    by (simp add: of_nat_u32_inj)
  with assms(7,8) have "arrived = sent"
  proof -
    have "map (payload E) arrived = map (payload E) sent"
      using subseq_concat_eq [OF sub] assms(7) \<open>?len arrived = ?len sent\<close> by simp
    then have "length arrived = length sent" by (metis length_map)
    with assms(8) show ?thesis using subseq_same_length by blast
  qed
  with img have all: "img (world ?s) = concat (map (payload E) sent)" by simp
  have "img (world (handle_confirm E fr ?s)) = concat (map (payload E) sent) \<and>
      fa_read (can_flash E) (fw_target E) 0 (length (concat (map (payload E) sent))) w =
        (0, concat (map (payload E) sent))"
    if w: "img_write (can_flash E) [] True (world ?s) = (0, w)" for w
  proof -
    have i: "img w = concat (map (payload E) sent)" using img_write_ok [OF assms(1) w] all by simp
    moreover have "img (world (handle_confirm E fr ?s)) = img w"
      using w all i boot_request_img [OF assms(1)]
      by (simp add: handle_confirm_def Let_def frame_simps split: prod.split) (metis snd_conv)
    ultimately show ?thesis using assms(11) w by (simp add: flash_readback_laws_def)
  qed
  with all \<open>arrived = sent\<close> show ?thesis by simp
qed

theorem confirmed_transfer_is_complete_witness:
  "ram_img (world (handle_confirm demo_can (confirm_frame 1)
     (fold (handle_fw_data demo_can) [data_frame [1,2,3,4,5,6,7,8], data_frame [9]]
       (demo_st\<lparr>fw_img_initialized := True, fw_total_size := 9\<rparr>)))) = [1,2,3,4,5,6,7,8,9]"
proof -
  let ?fs = "[data_frame [1,2,3,4,5,6,7,8], data_frame [9]]"
  let ?s = "demo_st\<lparr>fw_img_initialized := True, fw_total_size := 9\<rparr>"
  have p: "payload demo_can (data_frame [1,2,3,4,5,6,7,8]) = [1,2,3,4,5,6,7,8]"
    "payload demo_can (data_frame [9]) = [9]"
    by (simp_all add: payload_def data_frame_def pad8_def)
  have ok: "\<forall>f \<in> set ?fs. frame_ok demo_can f \<and> payload demo_can f \<noteq> []"
    by (simp add: p frame_ok_def) (simp add: data_frame_def pad8_def)
  let ?r = "?s\<lparr>world := ram_empty\<lparr>ram_img := [1,2,3,4,5,6,7,8,9]\<rparr>, fw_written := 9,
       tx := [reply_frame demo_can FW_CODE_UPDATE_SUCCESS 9]\<rparr>"
  have run: "fold (handle_fw_data demo_can) ?fs ?s = ?r"
    by (simp add: handle_fw_data_def Let_def demo_st_def can_st_init_def data_frame_def pad8_def
        ram_empty_def fw_can_reply_def can_send_def)
  have no: "no_flash_error (tx ?r)" by (simp add: no_flash_error_def replies_def)
  have conf: "tx (handle_confirm demo_can (confirm_frame 1) ?r) =
      tx ?r @ [reply_frame demo_can FW_CODE_CONFIRM 0x55AA55AA]"
    by (simp add: handle_confirm_def frame_simps demo_st_def can_st_init_def)
  have flds: "fw_img_initialized ?s" "fw_written ?s = 0" "ram_img (world ?s) = []"
    "fw_total_size ?s = of_nat (length (concat (map (payload demo_can) ?fs)))"
    "length (concat (map (payload demo_can) ?fs)) < 2 ^ 32"
    by (simp_all add: p) (simp_all add: demo_st_def can_st_init_def ram_empty_def)
  have laws: "flash_img_laws (can_flash demo_can) ram_img" by (simp add: ram_flash_laws)
  have rb: "flash_readback_laws (can_flash demo_can) ram_img (fw_target demo_can)"
    by (simp add: ram_flash_readback)
  have flush: "img_write (can_flash demo_can) [] True (world ?r) = (0, world ?r)"
    by (simp add: ram_flash_def)
  from confirmed_transfer_is_complete [where fr = "confirm_frame 1", OF laws flds ok subseq_order.order_refl,
      unfolded run, OF no conf rb]
  show ?thesis using flush unfolding run by (simp add: p)
qed

end
