(* ===== verification/CanBoot.thy ===== *)
theory CanBoot imports CanFwTheorems begin

text \<open>
  The boot loader's wait hook, \<open>libs/can_fw_upgrade/can_fw_boot.c\<close>, on the library state it
  shares with the receive thread.  The hook polls: at poll number \<open>i\<close> it reads the clock
  (\<open>now_at i\<close>), decides, and blocks, while the interrupt handler and the receive thread act on the
  state (\<open>act_at i\<close>, any function).  The loops carry fuel; the properties say how many polls are
  enough, so the hook returns, and the device boots, on every clock that does not stand still.
\<close>

definition PROBE_INTERVAL_MS :: u32 where "PROBE_INTERVAL_MS = 200"
definition BOOT_POLL_MS :: nat where "BOOT_POLL_MS = 50"
definition RX_BUSY_LIMIT_MS :: nat where "RX_BUSY_LIMIT_MS = 30000"

record boot_cfg =
  probe_timeout_ms :: nat
  idle_timeout_ms :: nat
  boot_version :: "u8 \<times> u8 \<times> u8"

record 'w schedule =
  now_at :: "nat \<Rightarrow> u32"
  act_at :: "nat \<Rightarrow> 'w can_st \<Rightarrow> 'w can_st"

definition send_boot_probe :: "'w can_env \<Rightarrow> boot_cfg \<Rightarrow> 'w can_st \<Rightarrow> 'w can_st" where
  "send_boot_probe E C = (case boot_version C of (ma, mi, pa) \<Rightarrow>
     can_send \<lparr>fr_id = CAN_FW_BOOT_PROBE_TX, fr_dlc = bytes_to_dlc E 8,
       fr_data = put_le32 CAN_FW_BOOT_PROBE_MAGIC @ [ma, mi, pa, 0]\<rparr>)"

definition send_boot_trace :: "'w can_env \<Rightarrow> boot_trace \<Rightarrow> 'w can_st \<Rightarrow> 'w can_st" where
  "send_boot_trace E t = can_send (trace_frame E t)"

text \<open>\<open>(int32_t)(a - b)\<close>: the signed distance of two millisecond counters that wrap.\<close>

definition ms_diff :: "u32 \<Rightarrow> u32 \<Rightarrow> int" where
  "ms_diff a b = sint (a - b)"

section \<open>The probe window\<close>

text \<open>
  \<open>while (!acked)\<close>: the result is whether the host answered, the number of the next poll and the
  state.
\<close>

fun probe_loop :: "nat \<Rightarrow> 'w can_env \<Rightarrow> boot_cfg \<Rightarrow> 'w schedule \<Rightarrow> u32 \<Rightarrow> nat \<Rightarrow> u32 \<Rightarrow> 'w can_st
    \<Rightarrow> (bool \<times> nat \<times> 'w can_st) option" where
  "probe_loop 0 E C S deadline i next_probe s = None"
| "probe_loop (Suc fuel) E C S deadline i next_probe s =
     (let now = now_at S i in
      if ms_diff now deadline \<ge> 0 then Some (False, Suc i, s)
      else
        let (np, s1) = (if ms_diff now next_probe \<ge> 0
              then (now + PROBE_INTERVAL_MS, send_boot_probe E C s) else (next_probe, s));
            s2 = act_at S i s1 in
        if boot_ack_sem s2 > 0 then Some (True, Suc i, s2\<lparr>boot_ack_sem := boot_ack_sem s2 - 1\<rparr>)
        else probe_loop fuel E C S deadline (Suc i) np s2)"

section \<open>The upgrade wait\<close>

definition wait_over :: "boot_cfg \<Rightarrow> u32 \<Rightarrow> 'w can_st \<Rightarrow> bool" where
  "wait_over C now s \<longleftrightarrow>
     (ms_diff now (last_activity_ms s) \<ge> int (idle_timeout_ms C) \<and> \<not> rx_busy s) \<or>
     (rx_busy s \<and> ms_diff now (last_activity_ms s) \<ge> int RX_BUSY_LIMIT_MS)"

text \<open>\<open>while (!can_fw_confirmed)\<close>: the state in which the loop is left.\<close>

fun wait_loop :: "nat \<Rightarrow> boot_cfg \<Rightarrow> 'w schedule \<Rightarrow> nat \<Rightarrow> 'w can_st \<Rightarrow> 'w can_st option" where
  "wait_loop 0 C S i s = None"
| "wait_loop (Suc fuel) C S i s =
     (if fw_confirmed s \<or> wait_over C (now_at S i) s then Some s
      else wait_loop fuel C S (Suc i) (act_at S i s))"

section \<open>The hook\<close>

definition boot_wait_entry :: "'w can_env \<Rightarrow> u32 \<Rightarrow> 'w can_st \<Rightarrow> 'w can_st" where
  "boot_wait_entry E now s =
     (send_boot_trace E TRACE_HOST_ACK s)\<lparr>rx_msgq := [], fw_confirmed := False,
        last_activity_ms := now\<rparr>"

definition boot_leave :: "'w can_env \<Rightarrow> 'w can_st \<Rightarrow> 'w can_st" where
  "boot_leave E s = (send_boot_trace E TRACE_PROCEED_BOOT s)\<lparr>bus_started := False\<rparr>"

definition boot_go_hook :: "nat \<Rightarrow> 'w can_env \<Rightarrow> boot_cfg \<Rightarrow> 'w schedule \<Rightarrow> 'w can_st \<Rightarrow> 'w can_st option" where
  "boot_go_hook fuel E C S s =
     (if \<not> drv_ready E then Some s
      else
        let s = (send_boot_trace E TRACE_HOOK_ENTER s)\<lparr>boot_ack_sem := 0\<rparr>;
            deadline = now_at S 0 + of_nat (probe_timeout_ms C) in
        case probe_loop fuel E C S deadline 1 0 s of
          None \<Rightarrow> None
        | Some (False, i, s) \<Rightarrow> Some (boot_leave E s)
        | Some (True, i, s) \<Rightarrow>
            (case wait_loop fuel C S i (boot_wait_entry E (now_at S i) s) of
               None \<Rightarrow> None
             | Some s \<Rightarrow> Some (boot_leave E
                 (if fw_confirmed s then send_boot_trace E TRACE_CONFIRMED s else s))))"

section \<open>Counters that wrap\<close>

lemma ms_diff_add: "n < 2 ^ 31 \<Longrightarrow> ms_diff (a + of_nat n) a = int n"
proof -
  assume n: "n < 2 ^ 31"
  then have "sint (of_nat n :: u32) = int n"
    by (simp add: signed_of_nat signed_take_bit_int_eq_self)
  then show ?thesis by (simp add: ms_diff_def)
qed

text \<open>
  What the hook needs of its schedule.  The clock is read in milliseconds, so two polls may see the
  same value; it only has to advance once in \<open>N\<close> polls, and never by \<open>2 ^ 30\<close> milliseconds or
  more between two of them.
\<close>

definition clock_runs :: "nat \<Rightarrow> 'w schedule \<Rightarrow> bool" where
  "clock_runs N S \<longleftrightarrow>
     (\<forall>i. unat (now_at S (Suc i) - now_at S i) < 2 ^ 30 \<and>
          (\<exists>j. i \<le> j \<and> j < i + N \<and> now_at S (Suc j) \<noteq> now_at S j))"

lemma clock_step:
  assumes "clock_runs N S"
  obtains d where "now_at S (Suc i) = now_at S i + of_nat d" "d < 2 ^ 30"
    "d = unat (now_at S (Suc i) - now_at S i)"
proof
  show "now_at S (Suc i) = now_at S i + of_nat (unat (now_at S (Suc i) - now_at S i))" by simp
qed (use assms in \<open>simp_all add: clock_runs_def\<close>)

text \<open>\<open>ticks_within r S i\<close>: the clock is seen to advance within \<open>r\<close> polls of poll \<open>i\<close>.\<close>

definition ticks_within :: "nat \<Rightarrow> 'w schedule \<Rightarrow> nat \<Rightarrow> bool" where
  "ticks_within r S i \<longleftrightarrow> (\<exists>j. i \<le> j \<and> j < i + r \<and> now_at S (Suc j) \<noteq> now_at S j)"

lemma clock_ticks: "clock_runs N S \<Longrightarrow> ticks_within N S i"
  by (simp add: clock_runs_def ticks_within_def)

lemma ticks_later:
  assumes "ticks_within r S i" "now_at S (Suc i) = now_at S i"
  obtains r' where "r = Suc r'" "ticks_within r' S (Suc i)"
proof -
  obtain j where j: "i \<le> j" "j < i + r" "now_at S (Suc j) \<noteq> now_at S j"
    using assms(1) by (auto simp: ticks_within_def)
  with assms(2) have "i \<noteq> j" by auto
  with j have "Suc i \<le> j" "j < Suc i + (r - 1)" "r = Suc (r - 1)" by auto
  with j(3) show thesis by (intro that [of "r - 1"]) (auto simp: ticks_within_def)
qed

text \<open>
  The measure of both loops: \<open>e\<close> milliseconds of a window of \<open>L\<close> have passed and the clock ticks
  within \<open>r\<close> polls.  A poll lowers \<open>N * (L - e) + r\<close>.
\<close>

lemma poll_measure:
  assumes "clock_runs N S" "ticks_within r S i" "e < L" "N * (L - e) + r < Suc fuel"
    "d = unat (now_at S (Suc i) - now_at S i)"
  obtains r' where "ticks_within r' S (Suc i)" "N * (L - (e + d)) + r' < fuel"
proof (cases "now_at S (Suc i) = now_at S i")
  case True
  with assms(2) obtain r' where "r = Suc r'" "ticks_within r' S (Suc i)" by (rule ticks_later)
  with assms(4,5) True show thesis by (intro that [of r']) auto
next
  case False
  then have "0 < d" using assms(5) by (metis gr0I right_minus_eq unat_eq_0)
  with assms(3) have "L - e \<ge> Suc (L - (e + d))" by simp
  then have "N * (L - e) \<ge> N * (L - (e + d)) + N" by (metis mult_Suc_right mult_le_mono2 add.commute)
  moreover have "0 < r" using assms(2) by (auto simp: ticks_within_def)
  ultimately show thesis using assms(4) by (intro that [of N, OF clock_ticks [OF assms(1)]]) simp
qed

lemma ms_diff_nat:
  assumes "m < 2 ^ 31" "n < 2 ^ 31"
  shows "ms_diff (a + of_nat m) (a + of_nat n) = int m - int n"
proof -
  have "(a + of_nat m) - (a + of_nat n) = (of_int (int m - int n) :: u32)" by simp
  moreover have "sint (of_int (int m - int n) :: u32) = int m - int n"
    using assms by (subst sint_sbintrunc', subst signed_take_bit_int_eq_self) auto
  ultimately show ?thesis by (simp only: ms_diff_def)
qed

section \<open>The loops end\<close>

lemma probe_loop_ends:
  assumes clock: "clock_runs N S" and T: "T < 2 ^ 30"
  shows "now_at S i = t0 + of_nat e \<Longrightarrow> e < T + 2 ^ 30 \<Longrightarrow> ticks_within r S i \<Longrightarrow>
    N * (T - e) + r < fuel \<Longrightarrow> \<exists>x. probe_loop fuel E C S (t0 + of_nat T) i np s = Some x"
proof (induction fuel arbitrary: i e r np s)
  case (Suc fuel)
  show ?case
  proof (cases "T \<le> e")
    case True
    with Suc.prems T have "ms_diff (now_at S i) (t0 + of_nat T) \<ge> 0" by (simp add: ms_diff_nat)
    then show ?thesis by (simp add: Let_def del: split_paired_Ex)
  next
    case False
    obtain d where d: "now_at S (Suc i) = now_at S i + of_nat d" "d < 2 ^ 30"
      "d = unat (now_at S (Suc i) - now_at S i)" using clock by (rule clock_step)
    then have now': "now_at S (Suc i) = t0 + of_nat (e + d)" using Suc.prems(1) by simp
    obtain r' where r': "ticks_within r' S (Suc i)" "N * (T - (e + d)) + r' < fuel"
      using poll_measure [OF clock Suc.prems(3) _ Suc.prems(4) d(3)] False by auto
    have "e + d < T + 2 ^ 30" using d(2) False by simp
    from Suc.IH [OF now' this r'] show ?thesis by (auto simp: Let_def)
  qed
qed simp

text \<open>
  \<open>stamps_now S\<close>: what runs between two polls leaves the activity time alone or sets it to the
  clock as it stands at that moment (\<open>can_fw_note_activity\<close>).  \<open>quiet k S\<close>: from poll \<open>k\<close> on no
  upgrade frame refreshes it any more.
\<close>

definition stamps_now :: "'w schedule \<Rightarrow> bool" where
  "stamps_now S \<longleftrightarrow> (\<forall>i s. last_activity_ms (act_at S i s) = last_activity_ms s \<or>
     (\<exists>d \<le> unat (now_at S (Suc i) - now_at S i). last_activity_ms (act_at S i s) = now_at S i + of_nat d))"

definition quiet :: "nat \<Rightarrow> 'w schedule \<Rightarrow> bool" where
  "quiet k S \<longleftrightarrow> (\<forall>i s. k \<le> i \<longrightarrow> last_activity_ms (act_at S i s) = last_activity_ms s)"

lemma stamp_elapsed:
  assumes "clock_runs N S" "stamps_now S" "now_at S i = last_activity_ms s + of_nat e" "e < L"
  obtains e' where "now_at S (Suc i) = last_activity_ms (act_at S i s) + of_nat e'" "e' < L + 2 ^ 30"
proof -
  obtain d where d: "now_at S (Suc i) = now_at S i + of_nat d" "d < 2 ^ 30"
    "d = unat (now_at S (Suc i) - now_at S i)" using assms(1) by (rule clock_step)
  consider "last_activity_ms (act_at S i s) = last_activity_ms s"
    | b where "b \<le> d" "last_activity_ms (act_at S i s) = now_at S i + of_nat b"
    using assms(2) d(3) unfolding stamps_now_def by blast
  then show thesis
  proof cases
    case 1
    with d assms(3,4) show thesis by (intro that [of "e + d"]) simp_all
  next
    case 2
    with d show thesis by (intro that [of "d - b"]) (simp_all add: of_nat_diff)
  qed
qed

lemma wait_elapsed:
  assumes "\<not> wait_over C (now_at S i) s" "now_at S i = last_activity_ms s + of_nat e"
    "e < L + 2 ^ 30" "L = max (idle_timeout_ms C) RX_BUSY_LIMIT_MS" "L < 2 ^ 30"
  shows "e < L"
proof -
  have "ms_diff (now_at S i) (last_activity_ms s) = int e"
    using assms(2,3,5) by (simp add: ms_diff_add)
  with assms(1,4) show ?thesis by (auto simp: wait_over_def)
qed

lemma wait_loop_ends_quiet:
  assumes clock: "clock_runs N S" and q: "quiet k S"
    and L: "L = max (idle_timeout_ms C) RX_BUSY_LIMIT_MS" "L < 2 ^ 30"
  shows "k \<le> i \<Longrightarrow> now_at S i = last_activity_ms s + of_nat e \<Longrightarrow> e < L + 2 ^ 30 \<Longrightarrow>
    ticks_within r S i \<Longrightarrow> N * (L - e) + r < fuel \<Longrightarrow> \<exists>x. wait_loop fuel C S i s = Some x"
proof (induction fuel arbitrary: i e r s)
  case (Suc fuel)
  show ?case
  proof (cases "fw_confirmed s \<or> wait_over C (now_at S i) s")
    case False
    then have "e < L" using wait_elapsed [OF _ Suc.prems(2,3) L] by simp
    obtain d where d: "now_at S (Suc i) = now_at S i + of_nat d" "d < 2 ^ 30"
      "d = unat (now_at S (Suc i) - now_at S i)" using clock by (rule clock_step)
    have la: "last_activity_ms (act_at S i s) = last_activity_ms s"
      using q Suc.prems(1) by (simp add: quiet_def)
    obtain r' where r': "ticks_within r' S (Suc i)" "N * (L - (e + d)) + r' < fuel"
      using poll_measure [OF clock Suc.prems(4) \<open>e < L\<close> Suc.prems(5) d(3)] .
    have "now_at S (Suc i) = last_activity_ms (act_at S i s) + of_nat (e + d)" "e + d < L + 2 ^ 30"
      using d \<open>e < L\<close> Suc.prems(2) la by simp_all
    from Suc.IH [OF _ this r'] False Suc.prems(1) show ?thesis by simp
  qed simp
qed simp

lemma wait_loop_ends:
  assumes clock: "clock_runs N S" and st: "stamps_now S" and q: "quiet k S"
    and L: "L = max (idle_timeout_ms C) RX_BUSY_LIMIT_MS" "L < 2 ^ 30"
  shows "now_at S i = last_activity_ms s + of_nat e \<Longrightarrow> e < L + 2 ^ 30 \<Longrightarrow>
    (k - i) + N * L + N < fuel \<Longrightarrow> \<exists>x. wait_loop fuel C S i s = Some x"
proof (induction "k - i" arbitrary: fuel i e s)
  case 0
  have "N * (L - e) \<le> N * L" by simp
  with 0(4) have "N * (L - e) + N < fuel" by linarith
  with 0(1) show ?case
    using wait_loop_ends_quiet [OF clock q L _ 0(2,3) clock_ticks [OF clock]] by simp
next
  case (Suc n)
  then obtain f where f: "fuel = Suc f" by (cases fuel) auto
  show ?case
  proof (cases "fw_confirmed s \<or> wait_over C (now_at S i) s")
    case True
    then show ?thesis by (simp add: f)
  next
    case False
    then have "e < L" using wait_elapsed [OF _ Suc.prems(1,2) L] by simp
    obtain e' where e': "now_at S (Suc i) = last_activity_ms (act_at S i s) + of_nat e'" "e' < L + 2 ^ 30"
      using stamp_elapsed [OF clock st Suc.prems(1) \<open>e < L\<close>] .
    have "n = k - Suc i" using Suc.hyps(2) by simp
    moreover have "k - Suc i + N * L + N < f" using Suc.prems(3) Suc.hyps(2) f by simp
    ultimately show ?thesis using Suc.hyps(1) [OF _ e'] False by (simp add: f)
  qed
qed

lemma boot_wait_entry_simps [frame_simps]:
  "last_activity_ms (boot_wait_entry E now s) = now" "rx_msgq (boot_wait_entry E now s) = []"
  "\<not> fw_confirmed (boot_wait_entry E now s)"
  by (simp_all add: boot_wait_entry_def)

lemma probe_loop_index: "probe_loop fuel E C S dl i np s = Some (a, j, t) \<Longrightarrow> i < j"
  by (induction fuel arbitrary: i np s) (fastforce simp: Let_def split: if_splits)+

lemma wait_loop_unconfirmed:
  assumes "\<And>i s. fw_confirmed (act_at S i s) = fw_confirmed s"
  shows "wait_loop fuel C S i s = Some t \<Longrightarrow> fw_confirmed t = fw_confirmed s"
  by (induction fuel arbitrary: i s) (auto simp: assms split: if_splits)

lemma wait_loop_busy:
  "wait_loop fuel C S i s = Some t \<Longrightarrow>
   \<exists>j. i \<le> j \<and> (fw_confirmed t \<or> wait_over C (now_at S j) t)"
proof (induction fuel arbitrary: i s)
  case (Suc fuel)
  then show ?case by (auto split: if_splits) (meson Suc_leD)
qed simp

section \<open>Properties\<close>

text \<open>
  C8. The boot loader does not hang in its upgrade wait.  Let the clock be seen to advance at least
  once in any N polls, let activity be stamped with the time it happens at, let the configured
  windows be below 2^30 ms and let the last upgrade frame come before poll k.  Then the hook returns
  after at most k + N * (longest window + 1) polls of each loop, where the windows are the probe
  timeout, the idle timeout and the 30 s limit of a busy receive thread; also when the 32-bit
  millisecond counter wraps meanwhile, and even if the receive thread stays busy for ever.  It
  leaves the CAN controller stopped.
\<close>
theorem boot_hook_returns:
  assumes "clock_runs N S" and "stamps_now S" and "quiet k S" and "drv_ready E"
    and "probe_timeout_ms C < 2 ^ 30" and "idle_timeout_ms C < 2 ^ 30"
    and "L = max (probe_timeout_ms C) (max (idle_timeout_ms C) RX_BUSY_LIMIT_MS)"
    and "fuel > k + N * (L + 1)"
  shows "\<exists>t. boot_go_hook fuel E C S s = Some t \<and> \<not> bus_started t"
proof -
  let ?s = "(send_boot_trace E TRACE_HOOK_ENTER s)\<lparr>boot_ack_sem := 0\<rparr>"
  let ?M = "max (idle_timeout_ms C) RX_BUSY_LIMIT_MS"
  have le: "N * (probe_timeout_ms C - d) \<le> N * L" "N * ?M \<le> N * L" for d using assms(7) by auto
  obtain d where d: "now_at S 1 = now_at S 0 + of_nat d" "d < 2 ^ 30"
    using clock_step [OF assms(1), of 0] unfolding One_nat_def by metis
  have f: "N * L + N < fuel" "k + N * L + N < fuel" using assms(8) by (simp_all add: algebra_simps)
  have "N * (probe_timeout_ms C - d) + N < fuel" using le(1) [of d] f(1) by linarith
  moreover have "d < probe_timeout_ms C + 2 ^ 30" using d(2) by simp
  ultimately have "\<exists>r. probe_loop fuel E C S (now_at S 0 + of_nat (probe_timeout_ms C)) 1 0 ?s = Some r"
    using probe_loop_ends [OF assms(1,5) d(1) _ clock_ticks [OF assms(1)]] by blast
  then obtain a i u where p:
    "probe_loop fuel E C S (now_at S 0 + of_nat (probe_timeout_ms C)) 1 0 ?s = Some (a, i, u)"
    by (auto simp del: probe_loop.simps)
  have "\<exists>r. wait_loop fuel C S i (boot_wait_entry E (now_at S i) u) = Some r"
  proof (rule wait_loop_ends [OF assms(1-3) refl, where e = 0])
    show "k - i + N * ?M + N < fuel" using f(2) le(2) by linarith
  qed (use assms(6) in \<open>simp_all add: frame_simps RX_BUSY_LIMIT_MS_def\<close>)
  with p assms(4) show ?thesis
    by (cases a) (auto simp: boot_go_hook_def Let_def boot_leave_def)
qed

text \<open>A schedule whose clock is seen to stand still at every second poll; a frame comes at poll 3.\<close>

definition demo_schedule :: "ram_world schedule" where
  "demo_schedule = \<lparr>now_at = (\<lambda>i. of_nat (50 * (i div 2))),
     act_at = (\<lambda>i s. if i = 3 then s\<lparr>last_activity_ms := 60\<rparr> else s)\<rparr>"

definition demo_boot_cfg :: boot_cfg where
  "demo_boot_cfg = \<lparr>probe_timeout_ms = 500, idle_timeout_ms = 15000, boot_version = (1, 2, 3)\<rparr>"

lemma demo_clock: "clock_runs 2 demo_schedule"
proof -
  have now: "now_at demo_schedule i = of_nat (50 * (i div 2))" for i by (simp add: demo_schedule_def)
  have step: "now_at demo_schedule (Suc i) = now_at demo_schedule i + (if even i then 0 else 50)" for i
    by (auto simp: now elim!: oddE)
  then have "now_at demo_schedule (Suc i) - now_at demo_schedule i = (if even i then 0 else 50)" for i
    by simp
  then have "unat (now_at demo_schedule (Suc i) - now_at demo_schedule i) < 2 ^ 30" for i by simp
  moreover have "\<exists>j. i \<le> j \<and> j < i + 2 \<and> now_at demo_schedule (Suc j) \<noteq> now_at demo_schedule j" for i
    by (rule exI [of _ "if even i then Suc i else i"]) (simp add: step)
  ultimately show ?thesis by (simp add: clock_runs_def)
qed

lemma demo_stamps: "stamps_now demo_schedule" "quiet 4 demo_schedule"
proof -
  have "unat (now_at demo_schedule 4 - now_at demo_schedule 3) = 50"
    "now_at demo_schedule 3 + of_nat 10 = 60" by (simp_all add: demo_schedule_def)
  then have "last_activity_ms (act_at demo_schedule i s) = last_activity_ms s \<or>
      (\<exists>d \<le> unat (now_at demo_schedule (Suc i) - now_at demo_schedule i).
        last_activity_ms (act_at demo_schedule i s) = now_at demo_schedule i + of_nat d)" for i s
    by (cases "i = 3") (auto simp: demo_schedule_def intro!: exI [of _ 10])
  then show "stamps_now demo_schedule" by (simp add: stamps_now_def)
qed (simp add: quiet_def demo_schedule_def)

theorem boot_hook_returns_witness:
  "\<exists>t. boot_go_hook 60007 demo_can demo_boot_cfg demo_schedule demo_st = Some t \<and> \<not> bus_started t"
  by (rule boot_hook_returns [OF demo_clock demo_stamps, where L = 30000])
     (simp_all add: demo_boot_cfg_def RX_BUSY_LIMIT_MS_def)

text \<open>
  A stale REBOOT cannot cut the wait short: whatever the state held before the host answered
  (a confirmed flag already set, frames still queued), the wait that follows the answer starts
  unconfirmed with an empty queue, and unless the receive thread confirms an upgrade during the
  wait the hook leaves it without having seen a confirmation.
\<close>
theorem boot_wait_ignores_stale_reboot:
  assumes "\<And>i s. fw_confirmed (act_at S i s) = fw_confirmed s"
    and "wait_loop fuel C S i (boot_wait_entry E (now_at S i) s) = Some t"
  shows "\<not> fw_confirmed t \<and> rx_msgq (boot_wait_entry E (now_at S i) s) = [] \<and>
    (\<exists>j \<ge> i. wait_over C (now_at S j) t)"
  using wait_loop_unconfirmed [OF assms] wait_loop_busy [OF assms(2)] by (auto simp: frame_simps)

theorem boot_wait_ignores_stale_reboot_witness:
  "\<exists>t. wait_loop 60007 demo_boot_cfg demo_schedule 2
      (boot_wait_entry demo_can 50 (demo_st\<lparr>fw_confirmed := True\<rparr>)) = Some t \<and> \<not> fw_confirmed t"
proof -
  let ?s = "boot_wait_entry demo_can (now_at demo_schedule 2) (demo_st\<lparr>fw_confirmed := True\<rparr>)"
  have now: "now_at demo_schedule 2 = 50" by (simp add: demo_schedule_def)
  have "\<exists>t. wait_loop 60007 demo_boot_cfg demo_schedule 2 ?s = Some t"
    by (rule wait_loop_ends [OF demo_clock demo_stamps, where e = 0 and L = 30000])
       (simp_all add: frame_simps demo_boot_cfg_def RX_BUSY_LIMIT_MS_def)
  then obtain t where t: "wait_loop 60007 demo_boot_cfg demo_schedule 2 ?s = Some t" by blast
  have "\<not> fw_confirmed t"
    using boot_wait_ignores_stale_reboot [OF _ t] by (simp add: demo_schedule_def)
  with t show ?thesis by (simp only: now) blast
qed

end
