(* ===== verification/HostImage.thy ===== *)
theory HostImage imports Prelude "HOL-Library.Monad_Syntax" begin

text \<open>
  The parts of the host tool \<open>tools/firmware_upgrade/firmware_upgrade.c\<close> that both transports
  share: little-endian access, the CRC, and the MCUboot image parser.  A read of the file buffer
  outside its bounds is \<open>None\<close>; that the parser never makes one is a property.
\<close>

section \<open>Little-endian access into a buffer\<close>

definition rd_le16 :: "bytes \<Rightarrow> nat \<Rightarrow> u16 option" where
  "rd_le16 p i = (if i + 2 \<le> length p then Some (le16 (p ! i) (p ! (i + 1))) else None)"

definition rd_le32 :: "bytes \<Rightarrow> nat \<Rightarrow> u32 option" where
  "rd_le32 p i = (if i + 4 \<le> length p
     then Some (le32 (p ! i) (p ! (i + 1)) (p ! (i + 2)) (p ! (i + 3))) else None)"

definition wr_le16 :: "u16 \<Rightarrow> bytes" where
  "wr_le16 v = [ucast v, ucast (drop_bit 8 v)]"

definition wr_le32 :: "u32 \<Rightarrow> bytes" where
  "wr_le32 v = [ucast v, ucast (drop_bit 8 v), ucast (drop_bit 16 v), ucast (drop_bit 24 v)]"

lemma wr_le_put: "wr_le16 h = put_le16 h" "wr_le32 v = put_le32 v"
  by (simp_all add: wr_le16_def put_le16_def wr_le32_def put_le32_def)

lemma rd_le32_drop: "rd_le32 p i = (if 4 \<le> length (drop i p) then Some (get_le32 (drop i p)) else None)"
  by (auto simp: rd_le32_def get_le32_def add.commute)

lemma rd_le16_drop: "rd_le16 p i = (if 2 \<le> length (drop i p) then Some (get_le16 (drop i p)) else None)"
  by (auto simp: rd_le16_def get_le16_def add.commute)

section \<open>CRC16-CCITT\<close>

definition crc16_step :: "u16 \<Rightarrow> u8 \<Rightarrow> u16" where
  "crc16_step seed b =
     (let e = ucast seed XOR b; f = e XOR push_bit 4 e in
      (drop_bit 8 seed XOR push_bit 8 (ucast f)) XOR push_bit 3 (ucast f) XOR ucast (drop_bit 4 f))"

definition crc16_ccitt :: "bytes \<Rightarrow> u16" where
  "crc16_ccitt data = foldl crc16_step 0 data"

text \<open>The bit-serial reference: the reflected polynomial 0x1021, least significant bit first.\<close>

definition crc_bit :: "u16 \<Rightarrow> u16" where
  "crc_bit c = drop_bit 1 c XOR (if bit c 0 then 0x8408 else 0)"

definition crc_ref_step :: "u16 \<Rightarrow> u8 \<Rightarrow> u16" where
  "crc_ref_step c b = (crc_bit ^^ 8) (c XOR ucast b)"

definition crc_ref :: "bytes \<Rightarrow> u16" where
  "crc_ref data = foldl crc_ref_step 0 data"

lemma crc_bit_linear: "crc_bit (a XOR b) = crc_bit a XOR crc_bit b"
  by (rule bit_word_eqI) (auto simp: crc_bit_def bit_simps)

lemma crc_bits_linear: "(crc_bit ^^ n) (a XOR b) = (crc_bit ^^ n) a XOR (crc_bit ^^ n) b"
  by (induction n) (simp_all add: crc_bit_linear)

lemma crc_bit_shift: "\<not> bit c 0 \<Longrightarrow> crc_bit c = drop_bit 1 c"
  by (simp add: crc_bit_def)

lemma crc_bits_shift: "(\<forall>i < n. \<not> bit c i) \<Longrightarrow> (crc_bit ^^ n) c = drop_bit n c"
proof (induction n)
  case (Suc n)
  then have "(crc_bit ^^ n) c = drop_bit n c" by simp
  moreover have "\<not> bit (drop_bit n c) 0" using Suc.prems by (simp add: bit_simps)
  ultimately show ?case by (simp add: crc_bit_shift)
qed simp

definition crc_byte :: "u8 \<Rightarrow> u16" where
  "crc_byte e = (let f = e XOR push_bit 4 e in
     (push_bit 8 (ucast f)) XOR push_bit 3 (ucast f) XOR ucast (drop_bit 4 f))"

text \<open>Both sides are linear in the byte, so agreement on the eight single-bit bytes is enough.\<close>

lemma ucast_xor: "ucast (a XOR b) = (ucast a XOR ucast b :: u16)" for a b :: u8
  by (rule bit_word_eqI) (auto simp: bit_simps)

lemma crc_byte_linear: "crc_byte (a XOR b) = crc_byte a XOR crc_byte b"
  by (simp add: crc_byte_def Let_def push_bit_xor drop_bit_xor ucast_xor xor.assoc xor.left_commute
      xor.commute)

lemma crc_bits_8: "(crc_bit ^^ 8) c =
    crc_bit (crc_bit (crc_bit (crc_bit (crc_bit (crc_bit (crc_bit (crc_bit c)))))))"
  by (simp add: eval_nat_numeral)

lemma crc_byte_basis:
  "(crc_bit ^^ 8) 1 = crc_byte 1" "(crc_bit ^^ 8) 2 = crc_byte 2" "(crc_bit ^^ 8) 4 = crc_byte 4"
  "(crc_bit ^^ 8) 8 = crc_byte 8" "(crc_bit ^^ 8) 16 = crc_byte 16" "(crc_bit ^^ 8) 32 = crc_byte 32"
  "(crc_bit ^^ 8) 64 = crc_byte 64" "(crc_bit ^^ 8) 128 = crc_byte 128"
  "(crc_bit ^^ 8) 0 = crc_byte 0"
  by (simp_all add: crc_bits_8 crc_bit_def crc_byte_def)

definition bit_part :: "u8 \<Rightarrow> nat \<Rightarrow> u8" where
  "bit_part e k = (if bit e k then 2 ^ k else 0)"

lemma u8_bits: "e = bit_part e 0 XOR bit_part e 1 XOR bit_part e 2 XOR bit_part e 3
    XOR bit_part e 4 XOR bit_part e 5 XOR bit_part e 6 XOR bit_part e 7"
proof (rule bit_word_eqI)
  fix n assume "n < LENGTH(8)"
  then have "n = 0 \<or> n = 1 \<or> n = 2 \<or> n = 3 \<or> n = 4 \<or> n = 5 \<or> n = 6 \<or> n = 7" by auto
  then show "bit e n = bit (bit_part e 0 XOR bit_part e 1 XOR bit_part e 2 XOR bit_part e 3
    XOR bit_part e 4 XOR bit_part e 5 XOR bit_part e 6 XOR bit_part e 7) n"
    by (elim disjE) (simp_all add: bit_part_def bit_xor_iff)
qed

lemma crc_part: "k < 8 \<Longrightarrow> (crc_bit ^^ 8) (ucast (bit_part e k)) = crc_byte (bit_part e k)"
proof -
  assume "k < 8"
  then have "k = 0 \<or> k = 1 \<or> k = 2 \<or> k = 3 \<or> k = 4 \<or> k = 5 \<or> k = 6 \<or> k = 7" by arith
  then show ?thesis
    by (elim disjE) (simp_all add: bit_part_def crc_byte_basis [simplified])
qed

lemma crc_byte_ref: "(crc_bit ^^ 8) (ucast (e :: u8)) = crc_byte e"
  by (subst (1 2) u8_bits [of e]) (simp only: ucast_xor crc_bits_linear crc_byte_linear, simp add: crc_part)

lemma crc_step_eq_ref: "crc16_step c b = crc_ref_step c b"
proof -
  have split: "c XOR ucast b = push_bit 8 (drop_bit 8 c) XOR ucast (ucast c XOR b :: u8)"
    by (rule bit_word_eqI) (auto simp: bit_simps)
  have "(crc_bit ^^ 8) (push_bit 8 (drop_bit 8 c)) = drop_bit 8 c"
  proof -
    have "(crc_bit ^^ 8) (push_bit 8 (drop_bit 8 c)) = drop_bit 8 (push_bit 8 (drop_bit 8 c))"
      by (rule crc_bits_shift) (simp add: bit_simps)
    also have "\<dots> = drop_bit 8 c"
    proof (rule bit_word_eqI)
      fix n
      have "bit c (8 + n) \<Longrightarrow> n < 8" using bit_imp_le_length [of c "8 + n"] by simp
      then show "bit (drop_bit 8 (push_bit 8 (drop_bit 8 c))) n = bit (drop_bit 8 c) n"
        by (auto simp: bit_simps)
    qed
    finally show ?thesis .
  qed
  then have "crc_ref_step c b = drop_bit 8 c XOR crc_byte (ucast c XOR b)"
    by (simp add: crc_ref_step_def split crc_bits_linear crc_byte_ref)
  then show ?thesis
    by (simp add: crc16_step_def crc_byte_def Let_def xor.assoc)
qed

section \<open>The image parser\<close>

definition IMG_MAGIC :: u32 where "IMG_MAGIC = 0x96F3B83D"
definition IMG_TLV_INFO_MAGIC :: u16 where "IMG_TLV_INFO_MAGIC = 0x6907"
definition IMG_TLV_KEYHASH :: u16 where "IMG_TLV_KEYHASH = 1"
definition IMG_KEYHASH_LEN :: nat where "IMG_KEYHASH_LEN = 32"

definition EXIT_OK :: int where "EXIT_OK = 0"
definition EXIT_IMAGE_ERR :: int where "EXIT_IMAGE_ERR = 1"
definition EXIT_COMM_ERR :: int where "EXIT_COMM_ERR = 2"
definition EXIT_DEVICE_REJECT :: int where "EXIT_DEVICE_REJECT = 3"

lemmas exit_defs = EXIT_OK_def EXIT_IMAGE_ERR_def EXIT_COMM_ERR_def EXIT_DEVICE_REJECT_def

record fw_image =
  img_data :: bytes
  img_keyhash :: bytes
  has_keyhash :: bool

text \<open>The TLV walk: \<open>Some None\<close> when no key hash is found, the outer \<open>None\<close> an undefined read.\<close>

function find_keyhash :: "bytes \<Rightarrow> nat \<Rightarrow> bytes option option" where
  "find_keyhash data off =
     (if off + 4 \<le> length data then do {
        tp \<leftarrow> rd_le16 data off;
        tlv_len \<leftarrow> rd_le16 data (off + 2);
        if tp = 0 \<or> tlv_len = 0 \<or> off + 4 + unat tlv_len > length data then Some None
        else if tp = IMG_TLV_KEYHASH \<and> unat tlv_len = IMG_KEYHASH_LEN
        then (if off + 4 + IMG_KEYHASH_LEN \<le> length data
              then Some (Some (take IMG_KEYHASH_LEN (drop (off + 4) data))) else None)
        else find_keyhash data (off + 4 + unat tlv_len) }
      else Some None)"
  by pat_completeness auto
termination
  by (relation "measure (\<lambda>(data, off). length data - off)") auto

declare find_keyhash.simps [simp del]

text \<open>
  \<open>file\<close> is the contents of the file, \<open>None\<close> when it cannot be opened or read.
\<close>

definition parse_image :: "bytes option \<Rightarrow> bool \<Rightarrow> (int + fw_image) option" where
  "parse_image file require_keyhash =
     (case file of None \<Rightarrow> Some (Inl EXIT_IMAGE_ERR)
      | Some data \<Rightarrow>
        let sz = length data in
        if sz < 32 then Some (Inl EXIT_IMAGE_ERR)
        else do {
          magic \<leftarrow> rd_le32 data 0;
          if magic \<noteq> IMG_MAGIC then Some (Inl EXIT_IMAGE_ERR)
          else do {
            hdr_size \<leftarrow> rd_le16 data 8;
            img_size \<leftarrow> rd_le32 data 12;
            if hdr_size < 32 \<or> (hdr_size AND 3) \<noteq> 0 \<or> img_size > of_nat sz
            then Some (Inl EXIT_IMAGE_ERR)
            else
              let tlv_off = unat hdr_size + unat img_size in
              if tlv_off + 4 > sz then Some (Inl EXIT_IMAGE_ERR)
              else do {
                info \<leftarrow> rd_le16 data tlv_off;
                if info \<noteq> IMG_TLV_INFO_MAGIC then Some (Inl EXIT_IMAGE_ERR)
                else do {
                  key \<leftarrow> find_keyhash data (tlv_off + 4);
                  if require_keyhash \<and> key = None then Some (Inl EXIT_IMAGE_ERR)
                  else Some (Inr \<lparr>img_data = data,
                         img_keyhash = (case key of None \<Rightarrow> replicate IMG_KEYHASH_LEN 0 | Some k \<Rightarrow> k),
                         has_keyhash = (key \<noteq> None)\<rparr>) } } } })"

lemma find_keyhash_defined: "find_keyhash data off \<noteq> None"
proof (induction data off rule: find_keyhash.induct)
  case (1 data off)
  show ?case
  proof (cases "off + 4 \<le> length data")
    case True
    define tp len where "tp = le16 (data ! off) (data ! (off + 1))"
      and "len = le16 (data ! (off + 2)) (data ! (off + 2 + 1))"
    have rd: "rd_le16 data off = Some tp" "rd_le16 data (off + 2) = Some len"
      using True by (simp_all add: rd_le16_def tp_def len_def)
    show ?thesis
      using "1.IH" [OF True rd] True
      by (subst find_keyhash.simps) (auto simp: rd [simplified] IMG_KEYHASH_LEN_def)
  next
    case False
    then show ?thesis by (subst find_keyhash.simps) simp
  qed
qed

lemma find_keyhash_length: "find_keyhash data off = Some (Some k) \<Longrightarrow> length k = 32"
proof (induction data off rule: find_keyhash.induct)
  case (1 data off)
  from "1.prems" show ?case
    by (subst (asm) find_keyhash.simps)
       (auto simp: bind_eq_Some_conv IMG_KEYHASH_LEN_def split: if_splits intro: "1.IH")
qed

section \<open>Images as the signing tool lays them out\<close>

definition mk_tlv :: "u16 \<times> bytes \<Rightarrow> bytes" where
  "mk_tlv tv = put_le16 (fst tv) @ put_le16 (of_nat (length (snd tv))) @ snd tv"

definition mk_image :: "bytes \<Rightarrow> bytes \<Rightarrow> bytes \<Rightarrow> bytes \<Rightarrow> bytes \<Rightarrow> bytes \<Rightarrow> bytes" where
  "mk_image load prot tail body tot tlvs =
     put_le32 IMG_MAGIC @ load @ put_le16 (of_nat (16 + length tail)) @ prot
     @ put_le32 (of_nat (length body)) @ tail @ body @ put_le16 IMG_TLV_INFO_MAGIC @ tot @ tlvs"

definition skipped_tlv :: "u16 \<times> bytes \<Rightarrow> bool" where
  "skipped_tlv tv \<longleftrightarrow> fst tv \<noteq> 0 \<and> snd tv \<noteq> [] \<and> length (snd tv) < 2 ^ 16 \<and>
     \<not> (fst tv = IMG_TLV_KEYHASH \<and> length (snd tv) = IMG_KEYHASH_LEN)"

lemma unat_of_nat_u16: "n < 2 ^ 16 \<Longrightarrow> unat (of_nat n :: u16) = n"
  by (simp add: unat_of_nat take_bit_nat_eq_self)

lemma rd_tlv:
  assumes "length v < 2 ^ 16"
  shows "rd_le16 (pre @ mk_tlv (t, v) @ post) (length pre) = Some t"
    "rd_le16 (pre @ mk_tlv (t, v) @ post) (length pre + 2) = Some (of_nat (length v))"
  by (simp_all add: rd_le16_drop mk_tlv_def)

lemma u16_len_neq_0: "v \<noteq> [] \<Longrightarrow> length v < 2 ^ 16 \<Longrightarrow> (of_nat (length v) :: u16) \<noteq> 0"
  by (metis length_greater_0_conv less_numeral_extra(3) unat_0 unat_of_nat_u16)

lemma find_keyhash_skip:
  assumes "skipped_tlv tv"
  shows "find_keyhash (pre @ mk_tlv tv @ post) (length pre) =
    find_keyhash (pre @ mk_tlv tv @ post) (length (pre @ mk_tlv tv))"
proof (cases tv)
  case (Pair t v)
  with assms have v: "v \<noteq> []" "length v < 2 ^ 16" "t \<noteq> 0" "\<not> (t = IMG_TLV_KEYHASH \<and> length v = IMG_KEYHASH_LEN)"
    by (simp_all add: skipped_tlv_def)
  have len: "length (mk_tlv (t, v)) = 4 + length v" by (simp add: mk_tlv_def)
  show ?thesis
    unfolding Pair
    using v u16_len_neq_0 [OF v(1,2)] rd_tlv [OF v(2), of pre t post]
    by (subst find_keyhash.simps) (auto simp: len unat_of_nat_u16 add.assoc)
qed

lemma find_keyhash_hit:
  assumes "length k = 32"
  shows "find_keyhash (pre @ mk_tlv (IMG_TLV_KEYHASH, k) @ post) (length pre) = Some (Some k)"
proof -
  have "length k < 2 ^ 16" using assms by simp
  note rd = rd_tlv [OF this, of pre IMG_TLV_KEYHASH post]
  have "take 32 (drop (length pre + 4) (pre @ mk_tlv (IMG_TLV_KEYHASH, k) @ post)) = k"
    using assms by (simp add: mk_tlv_def)
  with rd assms show ?thesis
    by (subst find_keyhash.simps) (simp add: IMG_TLV_KEYHASH_def IMG_KEYHASH_LEN_def mk_tlv_def)
qed

lemma find_keyhash_tlvs:
  assumes "length k = 32"
  shows "list_all skipped_tlv tlvs \<Longrightarrow>
    find_keyhash (pre @ concat (map mk_tlv tlvs) @ mk_tlv (IMG_TLV_KEYHASH, k) @ post) (length pre)
      = Some (Some k)"
proof (induction tlvs arbitrary: pre)
  case Nil
  then show ?case using find_keyhash_hit [OF assms] by simp
next
  case (Cons tv tlvs)
  then show ?case
    using find_keyhash_skip [of tv pre] Cons.IH [of "pre @ mk_tlv tv"] by simp
qed

section \<open>Properties\<close>

text \<open>
  C26. Memory safety and totality of the image parser: for every file, truncated or malicious, it
  returns a verdict and never reads outside the file buffer; an accepted image is the file
  unchanged with a 32-byte key hash.
\<close>
theorem parse_image_safe:
  "case parse_image f r of
     None \<Rightarrow> False
   | Some (Inl e) \<Rightarrow> e = EXIT_IMAGE_ERR
   | Some (Inr im) \<Rightarrow> f = Some (img_data im) \<and> length (img_keyhash im) = 32 \<and>
       32 \<le> length (img_data im) \<and> (if r then has_keyhash im else True)"
proof (cases f)
  case (Some data)
  show ?thesis
  proof (cases "length data < 32")
    case False
    then have "rd_le32 data 0 \<noteq> None" "rd_le16 data 8 \<noteq> None" "rd_le32 data 12 \<noteq> None"
      by (simp_all add: rd_le32_def rd_le16_def)
    then obtain m h n where rd: "rd_le32 data 0 = Some m" "rd_le16 data 8 = Some h" "rd_le32 data 12 = Some n"
      by blast
    have info: "unat h + unat n + 4 \<le> length data \<Longrightarrow> \<exists>i. rd_le16 data (unat h + unat n) = Some i"
      by (simp add: rd_le16_def)
    obtain key where key: "find_keyhash data (unat h + unat n + 4) = Some key"
      using find_keyhash_defined [of data "unat h + unat n + 4"] by blast
    have "\<And>k. key = Some k \<Longrightarrow> length k = 32" using key find_keyhash_length by blast
    then show ?thesis using Some False rd info key
      by (auto simp: parse_image_def Let_def IMG_KEYHASH_LEN_def not_le split: option.splits if_splits)
  qed (simp add: Some parse_image_def)
qed (simp add: parse_image_def)

text \<open>
  C27. Round trip with the image layout: a file built from a header, a body and a TLV area in
  which the first 32-byte KEYHASH entry follows any number of other well-formed entries parses to
  exactly that file and that key, whatever follows.
\<close>
theorem parse_image_roundtrip:
  assumes "length load = 4" and "length prot = 2" and "length tot = 2" and "16 \<le> length tail"
    and "4 dvd length tail" and "16 + length tail < 2 ^ 16"
    and "list_all skipped_tlv tlvs" and "length k = 32"
    and "file = mk_image load prot tail body tot
        (concat (map mk_tlv tlvs) @ mk_tlv (IMG_TLV_KEYHASH, k) @ post)"
    and "length file < 2 ^ 32"
  shows "parse_image (Some file) r = Some (Inr \<lparr>img_data = file, img_keyhash = k, has_keyhash = True\<rparr>)"
proof -
  define h :: u16 where "h = of_nat (16 + length tail)"
  define n :: u32 where "n = of_nat (length body)"
  have hs: "unat h = 16 + length tail" unfolding h_def using assms(6) by (rule unat_of_nat_u16)
  have fl: "file = put_le32 IMG_MAGIC @ load @ put_le16 h @ prot @ put_le32 n @ tail @ body
      @ put_le16 IMG_TLV_INFO_MAGIC @ tot @ concat (map mk_tlv tlvs)
      @ mk_tlv (IMG_TLV_KEYHASH, k) @ post"
    by (simp only: assms(9) mk_image_def h_def n_def append_assoc)
  have flen: "length file = 20 + length tail + length body + length (concat (map mk_tlv tlvs)
      @ mk_tlv (IMG_TLV_KEYHASH, k) @ post)"
    by (simp add: assms(1,2,3,9) mk_image_def)
  then have bl: "length body < 2 ^ 32" using assms(10) by linarith
  have n: "unat n = length body" unfolding n_def using bl by (rule unat_of_nat_u32)
  have hs32: "\<not> h < 32" using assms(4) hs by (simp add: word_less_nat_alt)
  have "unat (h AND 3) = 0"
  proof -
    have "unat (h AND 3) = (16 + length tail) AND 3" 
      by (subst unsigned_and_eq) (simp only: hs, simp)
    also have "\<dots> = take_bit 2 (16 + length tail)" 
      by (subst take_bit_eq_mask) (simp add: mask_eq_exp_minus_1)
    also have "\<dots> = 0" using assms(5) by (simp add: take_bit_eq_mod mod_eq_0_iff_dvd)
    finally show ?thesis .
  qed
  then have hs4: "h AND 3 = 0" by (simp add: unat_eq_zero)
  have n_le: "\<not> n > of_nat (length file)"
  proof -
    have "length body \<le> length file" using flen by linarith
    then show ?thesis by (simp only: word_less_nat_alt n unat_of_nat_u32 [OF assms(10)] not_less)
  qed
  let ?pre = "put_le32 IMG_MAGIC @ load @ put_le16 h @ prot @ put_le32 n @ tail @ body
      @ put_le16 IMG_TLV_INFO_MAGIC @ tot"
  have pre: "file = ?pre @ (concat (map mk_tlv tlvs) @ mk_tlv (IMG_TLV_KEYHASH, k) @ post)"
    by (simp add: fl)
  have lpre: "length ?pre = unat h + unat n + 4" by (simp only: hs n) (simp add: assms(1,2,3))
  have key: "find_keyhash file (unat h + unat n + 4) = Some (Some k)"
    using find_keyhash_tlvs [OF assms(8,7), of ?pre post] by (simp only: lpre [symmetric] pre)
  have rd: "rd_le32 file 0 = Some IMG_MAGIC" "rd_le16 file 8 = Some h" "rd_le32 file 12 = Some n"
    "rd_le16 file (unat h + unat n) = Some IMG_TLV_INFO_MAGIC"
    using assms(1,2,3) by (simp_all add: rd_le32_drop rd_le16_drop fl hs n)
  have "32 \<le> length file" "unat h + unat n + 4 \<le> length file"
    using flen assms(4) by (simp_all add: hs n mk_tlv_def assms(8))
  then show ?thesis
    using hs32 hs4 n_le by (simp add: parse_image_def Let_def rd key)
qed

theorem parse_image_roundtrip_witness:
  "\<exists>im. parse_image (Some (mk_image [0,0,0,0] [0,0] (replicate 16 0) [7] [0,0]
      (concat (map mk_tlv [(2, [9])]) @ mk_tlv (IMG_TLV_KEYHASH, replicate 32 5) @ []))) True = Some (Inr im) \<and>
    img_keyhash im = replicate 32 5"
  by (subst parse_image_roundtrip [OF _ _ _ _ _ _ _ _ refl])
     (simp_all add: skipped_tlv_def mk_image_def mk_tlv_def IMG_KEYHASH_LEN_def)

text \<open>
  The byte-at-a-time CRC equals the bit-serial CRC16-CCITT (reflected polynomial 0x1021, zero
  seed) on every input.
\<close>
theorem crc16_is_reference: "crc16_ccitt data = crc_ref data"
  by (simp add: crc16_ccitt_def crc_ref_def crc_step_eq_ref [abs_def])

end
