(* ===== verification/UdpFw.thy ===== *)
theory UdpFw imports HostImage CanFw begin

text \<open>
  The UDP firmware upgrade library, \<open>libs/udp_fw_upgrade/udp_fw_upgrade.c\<close>.  One state record holds
  the file-scope variables and the datagrams sent; the receive thread is a function of one
  datagram, the commands one function each.  The socket, the network interface and the flash are
  parameters (\<open>udp_env\<close>); the hash of Zephyr's CRC module is \<open>z_crc16\<close>.
\<close>

section \<open>Data\<close>

datatype udp_cmd = U_START | U_DATA | U_END | U_GET_VERSION | U_REBOOT | U_DATA_V2

fun udp_cmd_val :: "udp_cmd \<Rightarrow> u8" where
  "udp_cmd_val U_START = 1"
| "udp_cmd_val U_DATA = 2"
| "udp_cmd_val U_END = 3"
| "udp_cmd_val U_GET_VERSION = 4"
| "udp_cmd_val U_REBOOT = 5"
| "udp_cmd_val U_DATA_V2 = 6"

datatype start_status = FW_START_ERR_FAIL | FW_START_OK | FW_START_ERR_KEYHASH

fun start_status_val :: "start_status \<Rightarrow> u8" where
  "start_status_val FW_START_ERR_FAIL = 0"
| "start_status_val FW_START_OK = 1"
| "start_status_val FW_START_ERR_KEYHASH = 2"

record sockaddr =
  sin_addr :: u32
  sin_port :: u16

record 'w udp_env =
  udp_flash :: "'w flash_api"
  udp_keyhash :: "bytes option"
  v2_chunk :: u16
  bcast_restrict :: bool
  udp_max_handlers :: nat
  max_bcast_cmds :: nat
  udp_version :: "nat \<times> nat \<times> nat"
  udp_git :: bytes
  config_port :: u16
  local_addr :: "'w \<Rightarrow> (u32 \<times> u32) option"
  z_crc16 :: "u16 \<Rightarrow> bytes \<Rightarrow> u16"
  run_cmd_handler :: "nat \<Rightarrow> nat \<Rightarrow> u8 \<Rightarrow> bytes \<Rightarrow> 'w \<Rightarrow> bool \<times> (u8 \<times> bytes) list \<times> 'w"
  run_udp_start :: "nat \<Rightarrow> 'w \<Rightarrow> bool \<times> 'w"
  run_udp_fail :: "nat \<Rightarrow> 'w \<Rightarrow> 'w"
  run_udp_reboot :: "nat \<Rightarrow> 'w \<Rightarrow> 'w"
  sys_socket :: int
  sys_bind :: int
  iface_up :: bool

record 'w udp_st =
  u_handlers :: "(nat option \<times> nat) list"
  u_reboot_hooks :: "nat list"
  u_start_hook :: "nat option"
  u_fail_hook :: "nat option"
  config_sock :: int
  remote_addr :: sockaddr
  bcast_allowed :: "u8 list"
  fw_started :: bool
  fw_size :: u32
  fw_received :: u32
  fw_listening :: bool
  rx_running :: bool
  wait_if_up :: bool
  u_tx :: "(sockaddr \<times> bytes) list"
  u_rebooted :: bool
  u_world :: 'w

definition UDP_FW_MAX_PRE_REBOOT_HOOKS :: nat where "UDP_FW_MAX_PRE_REBOOT_HOOKS = 4"
definition FW_CRC_CHUNK :: nat where "FW_CRC_CHUNK = 64"
definition INADDR_BROADCAST :: u32 where "INADDR_BROADCAST = 0xFFFFFFFF"

definition udp_st_init :: "'w udp_env \<Rightarrow> 'w \<Rightarrow> 'w udp_st" where
  "udp_st_init E w = \<lparr> u_handlers = replicate (udp_max_handlers E) (None, 0), u_reboot_hooks = [],
     u_start_hook = None, u_fail_hook = None, config_sock = - 1,
     remote_addr = \<lparr>sin_addr = 0, sin_port = 0\<rparr>, bcast_allowed = [], fw_started = False,
     fw_size = 0, fw_received = 0, fw_listening = False, rx_running = False, wait_if_up = False,
     u_tx = [], u_rebooted = False, u_world = w \<rparr>"

section \<open>Registration\<close>

definition udp_fw_add_pre_reboot_hook :: "nat option \<Rightarrow> 'w udp_st \<Rightarrow> 'w udp_st" where
  "udp_fw_add_pre_reboot_hook hook s =
     (case hook of None \<Rightarrow> s
      | Some h \<Rightarrow> if length (u_reboot_hooks s) \<ge> UDP_FW_MAX_PRE_REBOOT_HOOKS then s
                 else s\<lparr>u_reboot_hooks := u_reboot_hooks s @ [h]\<rparr>)"

definition udp_fw_add_pre_start_hook :: "nat option \<Rightarrow> 'w udp_st \<Rightarrow> 'w udp_st" where
  "udp_fw_add_pre_start_hook hook s = s\<lparr>u_start_hook := hook\<rparr>"

definition udp_fw_add_fail_hook :: "nat option \<Rightarrow> 'w udp_st \<Rightarrow> 'w udp_st" where
  "udp_fw_add_fail_hook hook s = s\<lparr>u_fail_hook := hook\<rparr>"

definition udp_fw_set_app_handler :: "nat option \<Rightarrow> nat \<Rightarrow> 'w udp_st \<Rightarrow> 'w udp_st" where
  "udp_fw_set_app_handler cb ud s =
     (case cb of None \<Rightarrow> s
      | Some f \<Rightarrow> (case fill_free_slot f ud (u_handlers s) of
            Some hs \<Rightarrow> s\<lparr>u_handlers := hs\<rparr> | None \<Rightarrow> s))"

definition udp_fw_remove_handler :: "nat option \<Rightarrow> 'w udp_st \<Rightarrow> int \<times> 'w udp_st" where
  "udp_fw_remove_handler cb s =
     (case clear_slot cb (u_handlers s) of
        Some hs \<Rightarrow> (0, s\<lparr>u_handlers := hs\<rparr>)
      | None \<Rightarrow> (- ENOENT, s))"

definition bcast_cmd_allowed :: "u8 \<Rightarrow> 'w udp_st \<Rightarrow> bool" where
  "bcast_cmd_allowed cmd s \<longleftrightarrow> cmd \<in> set (bcast_allowed s)"

definition udp_fw_allow_broadcast_cmd :: "'w udp_env \<Rightarrow> u8 \<Rightarrow> 'w udp_st \<Rightarrow> 'w udp_st" where
  "udp_fw_allow_broadcast_cmd E cmd s =
     (if \<not> bcast_restrict E then s
      else if bcast_cmd_allowed cmd s then s
      else if length (bcast_allowed s) < max_bcast_cmds E
      then s\<lparr>bcast_allowed := bcast_allowed s @ [cmd]\<rparr> else s)"

section \<open>Replies\<close>

text \<open>\<open>local_addr\<close> is \<open>None\<close> when there is no interface or no address yet.\<close>

definition is_same_subnet :: "'w udp_env \<Rightarrow> u32 \<Rightarrow> 'w udp_st \<Rightarrow> bool" where
  "is_same_subnet E sender_ip s =
     (case local_addr E (u_world s) of None \<Rightarrow> True
      | Some (ip, nm) \<Rightarrow> (sender_ip AND nm) = (ip AND nm))"

definition udp_fw_reply :: "'w udp_env \<Rightarrow> u8 \<Rightarrow> bytes \<Rightarrow> 'w udp_st \<Rightarrow> 'w udp_st" where
  "udp_fw_reply E cmd dat s =
     (if config_sock s < 0 then s
      else
        let body = (if 0 < length dat \<and> length dat \<le> 63 then cmd # dat else [cmd]);
            dst = (if is_same_subnet E (sin_addr (remote_addr s)) s then remote_addr s
                   else \<lparr>sin_addr = INADDR_BROADCAST, sin_port = config_port E + 1\<rparr>) in
        s\<lparr>u_tx := u_tx s @ [(dst, body)]\<rparr>)"

section \<open>Upgrade commands\<close>

definition fw_session_fail :: "'w udp_env \<Rightarrow> 'w udp_st \<Rightarrow> 'w udp_st" where
  "fw_session_fail E s =
     (let s = s\<lparr>fw_started := False\<rparr> in
      case u_fail_hook s of None \<Rightarrow> s
      | Some h \<Rightarrow> s\<lparr>u_world := run_udp_fail E h (u_world s)\<rparr>)"

text \<open>The read-back loop of \<open>fw_verify_crc\<close>; the result is \<open>None\<close> when a read failed.\<close>

function crc_loop :: "'w flash_api \<Rightarrow> (u16 \<Rightarrow> bytes \<Rightarrow> u16) \<Rightarrow> 'w \<Rightarrow> nat \<Rightarrow> nat \<Rightarrow> u16 \<Rightarrow> u16 option" where
  "crc_loop F crc w written off calc =
     (if off < written then
        let n = (if written - off < FW_CRC_CHUNK then written - off else FW_CRC_CHUNK);
            (rc, buf) = fa_read F Slot1 (of_nat off) n w in
        if rc \<noteq> 0 then None
        else crc_loop F crc w written (off + FW_CRC_CHUNK) (crc calc buf)
      else Some calc)"
  by pat_completeness auto
termination
  by (relation "measure (\<lambda>(F, crc, w, written, off, calc). written - off)") (auto simp: FW_CRC_CHUNK_def)

declare crc_loop.simps [simp del]

definition fw_verify_crc :: "'w udp_env \<Rightarrow> u16 \<Rightarrow> 'w \<Rightarrow> bool" where
  "fw_verify_crc E recv_crc w =
     (if fa_open (udp_flash E) Slot1 w \<noteq> 0 then False
      else crc_loop (udp_flash E) (z_crc16 E) w (unat (img_bytes_written (udp_flash E) w)) 0 0 = Some recv_crc)"

definition build_version_string :: "'w udp_env \<Rightarrow> bytes" where
  "build_version_string E = (case udp_version E of (ma, mi, pa) \<Rightarrow>
     [0x76] @ dec ma @ [0x2E] @ dec mi @ [0x2E] @ dec pa @ [0x5F] @ udp_git E)"

definition start_reply :: "'w udp_env \<Rightarrow> start_status \<Rightarrow> 'w udp_st \<Rightarrow> 'w udp_st" where
  "start_reply E st s =
     udp_fw_reply E (udp_cmd_val U_START) (start_status_val st # put_le16 (v2_chunk E)) s"

text \<open>START once the hook has agreed: reset the partition and the writer.\<close>

definition udp_open_session :: "'w udp_env \<Rightarrow> 'w udp_st \<Rightarrow> 'w udp_st" where
  "udp_open_session E s =
     (let F = udp_flash E in
      if fa_open F Slot1 (u_world s) \<noteq> 0
      then start_reply E FW_START_ERR_FAIL (fw_session_fail E s)
      else
        let s = s\<lparr>u_world := snd (fa_erase F Slot1 0 (round_up32 (fw_size s) 4096) (u_world s))\<rparr>;
            (rc, w) = img_init F Slot1 (u_world s);
            s = s\<lparr>u_world := w\<rparr> in
        if rc \<noteq> 0 then start_reply E FW_START_ERR_FAIL (fw_session_fail E s)
        else start_reply E FW_START_OK (s\<lparr>fw_started := True, fw_received := 0\<rparr>))"

definition fw_cmd_start :: "'w udp_env \<Rightarrow> bytes \<Rightarrow> 'w udp_st \<Rightarrow> 'w udp_st" where
  "fw_cmd_start E dat s =
     (if fw_started s \<or> length dat < 4 then start_reply E FW_START_ERR_FAIL s
      else
        let s = s\<lparr>fw_size := get_le32 dat\<rparr> in
        if udp_keyhash E \<noteq> None \<and> length dat = 36 \<and> Some (drop 4 dat) \<noteq> udp_keyhash E
        then start_reply E FW_START_ERR_KEYHASH s
        else
          case u_start_hook s of None \<Rightarrow> udp_open_session E s
          | Some h \<Rightarrow>
              let (ok, w) = run_udp_start E h (u_world s);
                  s = s\<lparr>u_world := w\<rparr> in
              if \<not> ok then start_reply E FW_START_ERR_FAIL s else udp_open_session E s)"

definition fw_cmd_data :: "'w udp_env \<Rightarrow> bytes \<Rightarrow> 'w udp_st \<Rightarrow> 'w udp_st" where
  "fw_cmd_data E dat s =
     (if fw_started s \<and> 0 < length dat then
        let (rc, w) = img_write (udp_flash E) dat False (u_world s);
            s = s\<lparr>u_world := w\<rparr> in
        if rc = 0 then
          let s = s\<lparr>fw_received := fw_received s + of_nat (length dat)\<rparr> in
          udp_fw_reply E (udp_cmd_val U_DATA) (put_le32 (fw_received s)) s
        else udp_fw_reply E (udp_cmd_val U_DATA) (put_le32 0) (fw_session_fail E s)
      else udp_fw_reply E (udp_cmd_val U_DATA) (put_le32 0) s)"

definition fw_cmd_data_v2 :: "'w udp_env \<Rightarrow> bytes \<Rightarrow> 'w udp_st \<Rightarrow> 'w udp_st" where
  "fw_cmd_data_v2 E dat s =
     (if fw_started s \<and> 4 < length dat then
        let expect = get_le32 dat;
            s = (if expect = fw_received s then
                   let (rc, w) = img_write (udp_flash E) (drop 4 dat) False (u_world s);
                       s = s\<lparr>u_world := w\<rparr> in
                   if rc = 0 then s\<lparr>fw_received := fw_received s + of_nat (length dat - 4)\<rparr>
                   else fw_session_fail E s
                 else s) in
        udp_fw_reply E (udp_cmd_val U_DATA_V2) (put_le32 (fw_received s)) s
      else udp_fw_reply E (udp_cmd_val U_DATA_V2) (put_le32 0) s)"

definition fw_cmd_end :: "'w udp_env \<Rightarrow> bytes \<Rightarrow> 'w udp_st \<Rightarrow> 'w udp_st" where
  "fw_cmd_end E dat s =
     (if fw_started s \<and> 3 \<le> length dat then
        let test_mode = dat ! 0;
            recv_crc = get_le16 (drop 1 dat);
            s = s\<lparr>u_world := snd (img_write (udp_flash E) [] True (u_world s))\<rparr> in
        if fw_verify_crc E recv_crc (u_world s) then
          let (ret, w) = boot_request (udp_flash E) (if test_mode \<noteq> 0 then 0 else 1) (u_world s);
              s = s\<lparr>u_world := w\<rparr> in
          if ret = 0 then udp_fw_reply E (udp_cmd_val U_END) [1] (s\<lparr>fw_started := False\<rparr>)
          else udp_fw_reply E (udp_cmd_val U_END) [0] (fw_session_fail E s)
        else udp_fw_reply E (udp_cmd_val U_END) [0] (fw_session_fail E s)
      else udp_fw_reply E (udp_cmd_val U_END) [0] s)"

definition fw_cmd_get_version :: "'w udp_env \<Rightarrow> 'w udp_st \<Rightarrow> 'w udp_st" where
  "fw_cmd_get_version E s = udp_fw_reply E (udp_cmd_val U_GET_VERSION) (build_version_string E) s"

definition fw_cmd_reboot :: "'w udp_env \<Rightarrow> 'w udp_st \<Rightarrow> 'w udp_st" where
  "fw_cmd_reboot E s =
     (let s = udp_fw_reply E (udp_cmd_val U_REBOOT) [1] s in
      s\<lparr>u_world := fold (run_udp_reboot E) (u_reboot_hooks s) (u_world s), u_rebooted := True\<rparr>)"

text \<open>\<open>None\<close>: not an upgrade command, left to the application.\<close>

definition handle_fw_cmd :: "'w udp_env \<Rightarrow> u8 \<Rightarrow> bytes \<Rightarrow> 'w udp_st \<Rightarrow> 'w udp_st option" where
  "handle_fw_cmd E cmd dat s =
     (if cmd = udp_cmd_val U_START then Some (fw_cmd_start E dat s)
      else if cmd = udp_cmd_val U_DATA then Some (fw_cmd_data E dat s)
      else if cmd = udp_cmd_val U_DATA_V2 then Some (fw_cmd_data_v2 E dat s)
      else if cmd = udp_cmd_val U_END then Some (fw_cmd_end E dat s)
      else if cmd = udp_cmd_val U_GET_VERSION then Some (fw_cmd_get_version E s)
      else if cmd = udp_cmd_val U_REBOOT then Some (fw_cmd_reboot E s)
      else None)"

section \<open>The receive thread\<close>

text \<open>
  A registered callback returns whether it took the command, the replies it sent through
  \<open>udp_fw_reply\<close> and the application state; every callback sees the command, in slot order.
\<close>

fun run_cmd_handlers :: "'w udp_env \<Rightarrow> u8 \<Rightarrow> bytes \<Rightarrow> (nat option \<times> nat) list \<Rightarrow> bool \<Rightarrow> 'w udp_st \<Rightarrow> bool \<times> 'w udp_st" where
  "run_cmd_handlers E cmd dat [] handled s = (handled, s)"
| "run_cmd_handlers E cmd dat ((None, ud) # hs) handled s = run_cmd_handlers E cmd dat hs handled s"
| "run_cmd_handlers E cmd dat ((Some cb, ud) # hs) handled s =
     (let (r, outs, w) = run_cmd_handler E cb ud cmd dat (u_world s) in
      run_cmd_handlers E cmd dat hs (handled \<or> r)
        (fold (\<lambda>(c, d). udp_fw_reply E c d) outs (s\<lparr>u_world := w\<rparr>)))"

text \<open>
  One datagram.  The socket truncates it to the receive buffer; an empty one (or a receive error)
  is skipped before the sender is recorded.
\<close>

definition rx_buf_len :: "'w udp_env \<Rightarrow> nat" where
  "rx_buf_len E = 1 + 4 + unat (v2_chunk E)"

definition udp_fw_rx :: "'w udp_env \<Rightarrow> sockaddr \<Rightarrow> bytes \<Rightarrow> 'w udp_st \<Rightarrow> 'w udp_st" where
  "udp_fw_rx E src pkt s =
     (case take (rx_buf_len E) pkt of [] \<Rightarrow> s
      | cmd # dat \<Rightarrow>
          let s = s\<lparr>remote_addr := src\<rparr> in
          if bcast_restrict E \<and> \<not> is_same_subnet E (sin_addr src) s \<and> \<not> bcast_cmd_allowed cmd s then s
          else case handle_fw_cmd E cmd dat s of Some s' \<Rightarrow> s'
            | None \<Rightarrow> snd (run_cmd_handlers E cmd dat (u_handlers s) False s))"

section \<open>Start-up\<close>

definition udp_fw_start :: "'w udp_env \<Rightarrow> 'w udp_st \<Rightarrow> 'w udp_st" where
  "udp_fw_start E s =
     (if fw_listening s then s
      else
        let s = s\<lparr>config_sock := sys_socket E\<rparr> in
        if config_sock s < 0 then s
        else if sys_bind E < 0 then s\<lparr>config_sock := - 1\<rparr>
        else s\<lparr>fw_listening := True, rx_running := True\<rparr>)"

definition if_up_handler :: "'w udp_env \<Rightarrow> bool \<Rightarrow> 'w udp_st \<Rightarrow> 'w udp_st" where
  "if_up_handler E is_if_up s = (if is_if_up then udp_fw_start E s else s)"

definition udp_fw_init :: "'w udp_env \<Rightarrow> 'w udp_st \<Rightarrow> int \<times> 'w udp_st" where
  "udp_fw_init E s =
     (if iface_up E then (0, udp_fw_start E s) else (0, s\<lparr>wait_if_up := True\<rparr>))"

text \<open>Everything that can happen to the library, one event at a time.\<close>

inductive udp_step :: "'w udp_env \<Rightarrow> 'w udp_st \<Rightarrow> 'w udp_st \<Rightarrow> bool" for E where
  rx: "rx_running s \<Longrightarrow> udp_step E s (udp_fw_rx E src pkt s)"
| boot: "udp_step E s (snd (udp_fw_init E s))"
| if_up: "wait_if_up s \<Longrightarrow> udp_step E s (if_up_handler E b s)"
| reboot_hook: "udp_step E s (udp_fw_add_pre_reboot_hook hook s)"
| start_hook: "udp_step E s (udp_fw_add_pre_start_hook hook s)"
| fail_hook: "udp_step E s (udp_fw_add_fail_hook hook s)"
| set_handler: "udp_step E s (udp_fw_set_app_handler cb ud s)"
| remove_handler: "udp_step E s (snd (udp_fw_remove_handler cb s))"
| allow: "udp_step E s (udp_fw_allow_broadcast_cmd E cmd s)"

inductive udp_reach :: "'w udp_env \<Rightarrow> 'w \<Rightarrow> 'w udp_st \<Rightarrow> bool" for E w where
  start: "udp_reach E w (udp_st_init E w)"
| step: "udp_reach E w s \<Longrightarrow> udp_step E s t \<Longrightarrow> udp_reach E w t"

end
