(* ===== verification/UpgradeLock.thy ===== *)
theory UpgradeLock imports CanFwTheorems UdpFw begin

text \<open>
  The upgrade lock of the io-edge-hub application, \<open>applications/io-edge-hub/src/fw_upgrade_state.c\<close>:
  one flag and the channel that set it, shared by the UDP, CAN and WebSocket upgrade paths.  Each
  function runs under a mutex, so it is one step.  The interface the upgrade paths rely on is the
  locale \<open>upgrade_mutex\<close>, interpreted on the application's functions.
\<close>

section \<open>The interface\<close>

datatype 'c lock_op = Try 'c | Unlock 'c

locale upgrade_mutex =
  fixes try_lock :: "'c \<Rightarrow> 's \<Rightarrow> bool \<times> 's"
    and unlock :: "'c \<Rightarrow> 's \<Rightarrow> 's"
    and active :: "'s \<Rightarrow> bool"
    and owner :: "'s \<Rightarrow> 'c"
  assumes try_free: "\<not> active s \<Longrightarrow> fst (try_lock c s) \<and> active (snd (try_lock c s)) \<and> owner (snd (try_lock c s)) = c"
    and try_taken: "active s \<Longrightarrow> try_lock c s = (False, s)"
    and unlock_owner: "owner s = c \<Longrightarrow> \<not> active (unlock c s)"
    and unlock_other: "owner s \<noteq> c \<Longrightarrow> unlock c s = s"
begin

fun run_op :: "'c lock_op \<Rightarrow> 's \<Rightarrow> 's" where
  "run_op (Try c) s = snd (try_lock c s)"
| "run_op (Unlock c) s = unlock c s"

definition held :: "'c \<Rightarrow> 's \<Rightarrow> bool" where
  "held c s \<longleftrightarrow> active s \<and> owner s = c"

lemma try_gives_held: "fst (try_lock c s) \<Longrightarrow> held c (snd (try_lock c s))"
  using try_free [of s c] try_taken [of s c] by (cases "active s") (auto simp: held_def)

lemma held_step: "held c s \<Longrightarrow> x \<noteq> Unlock c \<Longrightarrow> held c (run_op x s)"
  using unlock_other [of s] by (cases x) (auto simp: held_def try_taken)

lemma held_run: "held c s \<Longrightarrow> Unlock c \<notin> set xs \<Longrightarrow> held c (fold run_op xs s)"
proof (induction xs arbitrary: s)
  case (Cons x xs)
  then show ?case using held_step [of c s x] by auto
qed simp

lemma held_excludes: "held c s \<Longrightarrow> Unlock c \<notin> set xs \<Longrightarrow> \<not> fst (try_lock d (fold run_op xs s))"
  using held_run [of c s xs] by (simp add: held_def try_taken)

lemma free_after_unlock: "held c s \<Longrightarrow> fst (try_lock d (unlock c s))"
  using try_free [of "unlock c s" d] unlock_owner [of s c] by (simp add: held_def)

end

section \<open>The implementation\<close>

datatype fw_upgrade_channel = CHANNEL_UDP | CHANNEL_CAN | CHANNEL_WS

record lock_st =
  current_channel :: fw_upgrade_channel
  upgrade_active :: bool

definition lock_init :: lock_st where
  "lock_init = \<lparr>current_channel = CHANNEL_UDP, upgrade_active = False\<rparr>"

definition fw_upgrade_try_lock :: "fw_upgrade_channel \<Rightarrow> lock_st \<Rightarrow> bool \<times> lock_st" where
  "fw_upgrade_try_lock channel s =
     (if upgrade_active s then (False, s)
      else (True, s\<lparr>upgrade_active := True, current_channel := channel\<rparr>))"

definition fw_upgrade_unlock :: "fw_upgrade_channel \<Rightarrow> lock_st \<Rightarrow> lock_st" where
  "fw_upgrade_unlock channel s =
     (if current_channel s = channel then s\<lparr>upgrade_active := False\<rparr> else s)"

definition fw_upgrade_is_active :: "lock_st \<Rightarrow> bool" where
  "fw_upgrade_is_active s = upgrade_active s"

interpretation hub_lock: upgrade_mutex fw_upgrade_try_lock fw_upgrade_unlock
  fw_upgrade_is_active current_channel
  by unfold_locales
     (auto simp: fw_upgrade_try_lock_def fw_upgrade_unlock_def fw_upgrade_is_active_def)

definition fw_pre_start_hook :: "lock_st \<Rightarrow> bool \<times> lock_st" where
  "fw_pre_start_hook = fw_upgrade_try_lock CHANNEL_UDP"

definition fw_fail_hook :: "lock_st \<Rightarrow> lock_st" where
  "fw_fail_hook = fw_upgrade_unlock CHANNEL_UDP"

section \<open>The application's environment for the CAN library\<close>

text \<open>
  A world with the flash on one side and the lock on the other.  \<open>fw_upgrade_state_init\<close> registers
  \<open>fw_pre_start_hook\<close> (function number 0) as the start hook of both libraries and
  \<open>fw_fail_hook\<close> as the UDP library's fail hook; the CAN library has no fail hook.
\<close>

definition lift_flash :: "'f flash_api \<Rightarrow> ('f \<times> 'x) flash_api" where
  "lift_flash F = \<lparr> fa_open = (\<lambda>p (f, x). fa_open F p f), fa_size = (\<lambda>p (f, x). fa_size F p f),
     fa_erase = (\<lambda>p a n (f, x). (fst (fa_erase F p a n f), (snd (fa_erase F p a n f), x))),
     fa_read = (\<lambda>p a n (f, x). fa_read F p a n f),
     img_init = (\<lambda>p (f, x). (fst (img_init F p f), (snd (img_init F p f), x))),
     img_write = (\<lambda>d fl (f, x). (fst (img_write F d fl f), (snd (img_write F d fl f), x))),
     img_bytes_written = (\<lambda>(f, x). img_bytes_written F f),
     boot_request = (\<lambda>v (f, x). (fst (boot_request F v f), (snd (boot_request F v f), x))) \<rparr>"

lemma lift_flash_snd [simp]:
  "snd (snd (fa_erase (lift_flash F) p a n w)) = snd w"
  "snd (snd (img_init (lift_flash F) p w)) = snd w"
  "snd (snd (img_write (lift_flash F) d fl w)) = snd w"
  "snd (snd (boot_request (lift_flash F) v w)) = snd w"
  by (simp_all add: lift_flash_def split: prod.splits)

definition hub_can_env :: "'f can_env \<Rightarrow> ('f \<times> lock_st) can_env" where
  "hub_can_env B = \<lparr> can_flash = lift_flash (can_flash B), boot_wait = False,
     fw_keyhash = fw_keyhash B, max_handlers = max_handlers B, app_version = app_version B,
     git_version = git_version B, default_bitrate = default_bitrate B, has_scratch = has_scratch B,
     dlc_to_bytes = dlc_to_bytes B, bytes_to_dlc = bytes_to_dlc B,
     uptime_get_32 = (\<lambda>(f, l). uptime_get_32 B f),
     run_handler = (\<lambda>cb ud fr (f, l). (fst (run_handler B cb ud fr f), (snd (run_handler B cb ud fr f), l))),
     run_start_hook = (\<lambda>h (f, l). (fst (fw_pre_start_hook l), (f, snd (fw_pre_start_hook l)))),
     run_reboot_hook = (\<lambda>h (f, l). (run_reboot_hook B h f, l)),
     drv_ready = drv_ready B, drv_set_mode = drv_set_mode B, drv_set_bitrate = drv_set_bitrate B,
     drv_start = drv_start B \<rparr>"

definition hub_udp_env :: "'f udp_env \<Rightarrow> ('f \<times> lock_st) udp_env" where
  "hub_udp_env B = \<lparr> udp_flash = lift_flash (udp_flash B), udp_keyhash = udp_keyhash B,
     v2_chunk = v2_chunk B, bcast_restrict = bcast_restrict B, udp_max_handlers = udp_max_handlers B,
     max_bcast_cmds = max_bcast_cmds B, udp_version = udp_version B, udp_git = udp_git B,
     config_port = config_port B, local_addr = (\<lambda>(f, l). local_addr B f), z_crc16 = z_crc16 B,
     run_cmd_handler = (\<lambda>cb ud c d (f, l). (let (r, outs, f') = run_cmd_handler B cb ud c d f in (r, outs, (f', l)))),
     run_udp_start = (\<lambda>h (f, l). (fst (fw_pre_start_hook l), (f, snd (fw_pre_start_hook l)))),
     run_udp_fail = (\<lambda>h (f, l). (f, fw_fail_hook l)),
     run_udp_reboot = (\<lambda>h (f, l). (run_udp_reboot B h f, l)),
     sys_socket = sys_socket B, sys_bind = sys_bind B, iface_up = iface_up B \<rparr>"

definition fw_upgrade_state_init ::
  "('f \<times> lock_st) udp_st \<times> ('g \<times> lock_st) can_st \<Rightarrow> ('f \<times> lock_st) udp_st \<times> ('g \<times> lock_st) can_st" where
  "fw_upgrade_state_init us =
     (case us of (u, c) \<Rightarrow>
        (udp_fw_add_fail_hook (Some 0) (udp_fw_add_pre_start_hook (Some 0) u),
         can_fw_add_pre_start_hook (Some 0) c))"

definition lock_taken :: "('f \<times> lock_st) can_st \<Rightarrow> bool" where
  "lock_taken s \<longleftrightarrow> pre_start_hook s = Some 0 \<and> upgrade_active (snd (world s))"

section \<open>The lock once taken by CAN stays taken\<close>

lemma hub_flash [simp]: "can_flash (hub_can_env B) = lift_flash (can_flash B)"
  "boot_wait (hub_can_env B) = False"
  by (simp_all add: hub_can_env_def)

lemma hub_hook_taken:
  "lock_taken s \<Longrightarrow> call_start_hook (hub_can_env B) s = (False, s)"
  by (cases "world s") (auto simp: lock_taken_def call_start_hook_def hub_can_env_def
      fw_pre_start_hook_def fw_upgrade_try_lock_def)

lemma lock_taken_fields [simp]:
  "lock_taken (fw_can_reply E c x s) = lock_taken s" "lock_taken (can_send fr s) = lock_taken s"
  "lock_taken (s\<lparr>key_chunk_mask := m\<rparr>) = lock_taken s" "lock_taken (s\<lparr>rx_keybuf := k\<rparr>) = lock_taken s"
  "lock_taken (s\<lparr>fw_img_initialized := b\<rparr>) = lock_taken s" "lock_taken (s\<lparr>fw_written := n\<rparr>) = lock_taken s"
  "lock_taken (s\<lparr>rx_busy := b\<rparr>) = lock_taken s" "lock_taken (s\<lparr>rebooted := b\<rparr>) = lock_taken s"
  "lock_taken (s\<lparr>fw_confirmed := b\<rparr>) = lock_taken s" "lock_taken (s\<lparr>tx := y\<rparr>) = lock_taken s"
  "lock_taken (s\<lparr>boot_ack_sem := j\<rparr>) = lock_taken s"
  by (simp_all add: lock_taken_def frame_simps)

lemma lock_taken_world: "lock_taken s \<Longrightarrow> snd w = snd (world s) \<Longrightarrow> lock_taken (s\<lparr>world := w\<rparr>)"
  by (simp add: lock_taken_def)

lemma lock_taken_checked: "lock_taken s \<Longrightarrow> lock_taken (start_checked (hub_can_env B) s)"
  by (simp add: start_checked_def start_traced_def)

lemma hub_start_refused:
  assumes "lock_taken s"
  shows "lock_taken (handle_start (hub_can_env B) fr s) \<and>
    world (handle_start (hub_can_env B) fr s) = world s \<and>
    fw_img_initialized (handle_start (hub_can_env B) fr s) = fw_img_initialized s \<and>
    (\<exists>c. c \<noteq> FW_CODE_OFFSET \<and> replies (tx (handle_start (hub_can_env B) fr s)) =
      replies (tx s) @ [reply_frame (hub_can_env B) c 0])"
  using lock_taken_checked [OF assms, of B]
  by (auto simp: handle_start_alt hub_hook_taken frame_simps assms)

lemma hub_broadcast_lock: "snd (snd (broadcast (hub_can_env B) fr hs b w)) = snd w"
proof (induction "hub_can_env B" fr hs b w rule: broadcast.induct)
  case (3 fr cb ud hs b w)
  then show ?case by (cases w) (auto simp: hub_can_env_def split: prod.splits)
qed auto

lemma hub_reboot_lock: "snd (fold (run_reboot_hook (hub_can_env B)) hs w) = snd w"
  by (induction hs arbitrary: w) (auto simp: hub_can_env_def split: prod.splits)

lemma lock_taken_confirm: "lock_taken s \<Longrightarrow> lock_taken (handle_confirm (hub_can_env B) fr s)"
  by (auto simp: handle_confirm_def Let_def split: prod.splits intro!: lock_taken_world)
     (metis lift_flash_snd snd_conv)+

lemma lock_taken_data: "lock_taken s \<Longrightarrow> lock_taken (handle_fw_data (hub_can_env B) fr s)"
proof -
  assume l: "lock_taken s"
  obtain rc w where w: "img_write (lift_flash (can_flash B)) (payload (hub_can_env B) fr) False (world s) = (rc, w)"
    by (cases "img_write (lift_flash (can_flash B)) (payload (hub_can_env B) fr) False (world s)") simp
  then have "snd w = snd (world s)" by (metis lift_flash_snd(3) snd_conv)
  with l have "lock_taken (s\<lparr>world := w\<rparr>)" by (rule lock_taken_world)
  with l w show ?thesis by (simp add: handle_fw_data_def payload_def Let_def)
qed

lemma lock_taken_platform: "lock_taken s \<Longrightarrow> lock_taken (handle_platform_rx (hub_can_env B) fr s)"
  using hub_start_refused [of s B fr]
  by (auto simp: handle_platform_rx_def Let_def lock_taken_confirm handle_version_def
      fw_can_send_version_string_def send_version_loop_tx handle_reboot_def hub_reboot_lock
      intro!: lock_taken_world)

lemma lock_taken_frame: "lock_taken s \<Longrightarrow> lock_taken (can_fw_rx_frame (hub_can_env B) fr s)"
  by (auto simp: can_fw_rx_frame_def can_fw_note_activity_def lock_taken_platform lock_taken_data
      handle_keyhash_frame_def Let_def hub_broadcast_lock intro!: lock_taken_world)

section \<open>Properties\<close>

text \<open>
  Mutual exclusion of the upgrade channels: once a channel has acquired the lock, no request
  of any channel succeeds, after any sequence of requests and releases by the others, until that
  channel releases it; and after its release the next request succeeds.
\<close>
theorem upgrade_lock_excludes:
  assumes "fst (fw_upgrade_try_lock c s)" and "Unlock c \<notin> set xs"
  shows "\<not> fst (fw_upgrade_try_lock d (fold hub_lock.run_op xs (snd (fw_upgrade_try_lock c s)))) \<and>
    fst (fw_upgrade_try_lock d (fw_upgrade_unlock c (fold hub_lock.run_op xs (snd (fw_upgrade_try_lock c s)))))"
  using hub_lock.try_gives_held [OF assms(1)] assms(2)
  by (metis hub_lock.held_run hub_lock.held_excludes hub_lock.free_after_unlock)

theorem upgrade_lock_excludes_witness:
  "\<not> fst (fw_upgrade_try_lock CHANNEL_WS
     (fold hub_lock.run_op [Try CHANNEL_CAN, Unlock CHANNEL_WS] (snd (fw_upgrade_try_lock CHANNEL_UDP lock_init))))"
proof -
  have "fst (fw_upgrade_try_lock CHANNEL_UDP lock_init)"
    by (simp add: fw_upgrade_try_lock_def lock_init_def)
  from upgrade_lock_excludes [OF this, of "[Try CHANNEL_CAN, Unlock CHANNEL_WS]"] show ?thesis by simp
qed

text \<open>
  In the io-edge-hub the CAN path takes the upgrade lock at START and nothing on that path
  gives it back: after any sequence of further CAN frames, a failed transfer included, another
  START_UPDATE is refused without touching the flash.
\<close>
theorem hub_can_restart_refused:
  assumes "lock_taken s"
  shows "lock_taken (fold (can_fw_rx_frame (hub_can_env B)) frs s) \<and>
    world (handle_start (hub_can_env B) fr (fold (can_fw_rx_frame (hub_can_env B)) frs s)) =
      world (fold (can_fw_rx_frame (hub_can_env B)) frs s) \<and>
    (\<exists>c. c \<noteq> FW_CODE_OFFSET \<and>
      replies (tx (handle_start (hub_can_env B) fr (fold (can_fw_rx_frame (hub_can_env B)) frs s))) =
      replies (tx (fold (can_fw_rx_frame (hub_can_env B)) frs s)) @ [reply_frame (hub_can_env B) c 0])"
proof -
  have "lock_taken (fold (can_fw_rx_frame (hub_can_env B)) frs s)"
    using assms by (induction frs arbitrary: s) (auto simp: lock_taken_frame)
  then show ?thesis using hub_start_refused by blast
qed

definition demo_udp :: "ram_world udp_env" where
  "demo_udp = \<lparr> udp_flash = ram_flash, udp_keyhash = Some demo_key, v2_chunk = 512,
     bcast_restrict = True, udp_max_handlers = 4, max_bcast_cmds = 8, udp_version = (1, 2, 3),
     udp_git = [0x61, 0x62, 0x63, 0x31, 0x32, 0x33], config_port = 8600,
     local_addr = (\<lambda>_. Some (0x0100000A, 0x00FFFFFF)), z_crc16 = foldl crc_ref_step,
     run_cmd_handler = (\<lambda>_ _ _ _ w. (False, [], w)), run_udp_start = (\<lambda>_ w. (True, w)),
     run_udp_fail = (\<lambda>_ w. w), run_udp_reboot = (\<lambda>_ w. w), sys_socket = 3, sys_bind = 0,
     iface_up = True \<rparr>"

definition demo_hub :: "(ram_world \<times> lock_st) udp_st \<times> (ram_world \<times> lock_st) can_st" where
  "demo_hub = fw_upgrade_state_init (udp_st_init (hub_udp_env demo_udp) (ram_empty, lock_init),
     can_st_init (hub_can_env demo_can) (ram_empty, lock_init))"

definition demo_hub_st :: "(ram_world \<times> lock_st) can_st" where
  "demo_hub_st = snd demo_hub"

theorem hub_can_restart_refused_witness:
  "fw_img_initialized (handle_start (hub_can_env demo_can) (start_frame 64) demo_hub_st) \<and>
   lock_taken (fold (can_fw_rx_frame (hub_can_env demo_can)) [data_frame [1], confirm_frame 1]
     (handle_start (hub_can_env demo_can) (start_frame 64) demo_hub_st))"
proof -
  have eq: "fw_img_initialized (handle_start (hub_can_env demo_can) (start_frame 64) demo_hub_st)"
    "lock_taken (handle_start (hub_can_env demo_can) (start_frame 64) demo_hub_st)"
    by (simp_all add: handle_start_alt start_checked_def start_traced_def key_mismatch_def
        key_complete_def keyhash_consts demo_hub_st_def demo_hub_def fw_upgrade_state_init_def can_st_init_def
        can_fw_add_pre_start_hook_def hub_can_env_def call_start_hook_def start_flash_def
        start_frame_def lift_flash_def fw_pre_start_hook_def fw_upgrade_try_lock_def lock_init_def
        frame_simps lock_taken_def)
  from hub_can_restart_refused [OF eq(2), of demo_can "[data_frame [1], confirm_frame 1]"] eq(1)
  show ?thesis by blast
qed

end
