(* ===== verification/HostCan.thy ===== *)
theory HostCan imports UpgradeLock HostImage begin

text \<open>
  The CAN side of the host tool, \<open>tools/firmware_upgrade/firmware_upgrade.c\<close>.  The SocketCAN
  socket is a record of two functions over a link state \<open>'n\<close>; a function that may wait for ever
  (retrying a full transmit queue, skipping frames of other identifiers) is a
  \<open>partial_function\<close> into \<open>option\<close> with \<open>None\<close> for not returning, and every function built on one
  returns an option.  Results are the C return values: 0 or a negative error number.
\<close>

section \<open>The socket\<close>

record host_frame =
  hf_id :: u32
  hf_dlc :: nat
  hf_data :: bytes

datatype 'a io = Ok 'a | Errno int

record 'n can_sock =
  sock_write :: "host_frame \<Rightarrow> 'n \<Rightarrow> unit io \<times> 'n"
  sock_read :: "int \<Rightarrow> 'n \<Rightarrow> host_frame io \<times> 'n"

definition CAN_SFF_OK :: "u32 \<Rightarrow> bool" where
  "CAN_SFF_OK i \<longleftrightarrow> (i AND 0xE0000000) = 0"

partial_function (option) can_write_loop :: "'n can_sock \<Rightarrow> host_frame \<Rightarrow> 'n \<Rightarrow> (int \<times> 'n) option" where
  "can_write_loop K fr n =
     (case sock_write K fr n of
        (Ok _, n') \<Rightarrow> Some (0, n')
      | (Errno e, n') \<Rightarrow> if e \<noteq> EAGAIN then Some (- e, n') else can_write_loop K fr n')"

definition host_can_send :: "'n can_sock \<Rightarrow> u32 \<Rightarrow> bytes \<Rightarrow> nat \<Rightarrow> 'n \<Rightarrow> (int \<times> 'n) option" where
  "host_can_send K i data len n =
     (if len > 8 then Some (- EINVAL, n)
      else can_write_loop K \<lparr>hf_id = i, hf_dlc = len, hf_data = pad8 (take len data)\<rparr> n)"

partial_function (option) can_recv :: "'n can_sock \<Rightarrow> u32 \<Rightarrow> int \<Rightarrow> 'n \<Rightarrow> (host_frame io \<times> 'n) option" where
  "can_recv K expect_id tmo n =
     (case sock_read K tmo n of
        (Errno e, n') \<Rightarrow> Some (Errno e, n')
      | (Ok fr, n') \<Rightarrow>
          if \<not> CAN_SFF_OK (hf_id fr) \<or> (expect_id \<noteq> 0 \<and> hf_id fr \<noteq> expect_id)
          then can_recv K expect_id tmo n' else Some (Ok fr, n'))"

section \<open>Commands and replies\<close>

definition can_send_fw_cmd :: "'n can_sock \<Rightarrow> u32 \<Rightarrow> u32 \<Rightarrow> 'n \<Rightarrow> (int \<times> 'n) option" where
  "can_send_fw_cmd K cmd arg n = host_can_send K 0x101 (wr_le32 cmd @ wr_le32 arg) 8 n"

definition can_wait_reply :: "'n can_sock \<Rightarrow> int \<Rightarrow> 'n \<Rightarrow> ((u32 \<times> u32) io \<times> 'n) option" where
  "can_wait_reply K tmo n = do {
     (r, n) \<leftarrow> can_recv K 0x102 tmo n;
     case r of Errno e \<Rightarrow> Some (Errno e, n)
     | Ok fr \<Rightarrow> if hf_dlc fr < 8 then Some (Errno EIO, n)
         else Some (Ok (get_le32 (hf_data fr), get_le32 (drop 4 (hf_data fr))), n) }"

text \<open>
  The key hash in five frames.  The fifth copies seven bytes starting at offset 28 of the 32-byte
  array; the three bytes after the array are whatever follows it in memory, \<open>beyond\<close>.
\<close>

fun can_send_keyhash_from :: "'n can_sock \<Rightarrow> bytes \<Rightarrow> nat list \<Rightarrow> 'n \<Rightarrow> (int \<times> 'n) option" where
  "can_send_keyhash_from K mem [] n = Some (0, n)"
| "can_send_keyhash_from K mem (seq # seqs) n = do {
     (rc, n) \<leftarrow> host_can_send K 0x104 (of_nat seq # take 7 (drop (seq * 7) mem)) 8 n;
     if rc < 0 then Some (rc, n) else can_send_keyhash_from K mem seqs n }"

definition can_send_keyhash :: "'n can_sock \<Rightarrow> bytes \<Rightarrow> bytes \<Rightarrow> 'n \<Rightarrow> (int \<times> 'n) option" where
  "can_send_keyhash K keyhash beyond n = can_send_keyhash_from K (keyhash @ beyond) [0, 1, 2, 3, 4] n"

definition can_start_update :: "'n can_sock \<Rightarrow> u32 \<Rightarrow> 'n \<Rightarrow> (int \<times> 'n) option" where
  "can_start_update K img_size n = do {
     (rc, n) \<leftarrow> can_send_fw_cmd K 0 img_size n;
     if rc < 0 then Some (rc, n)
     else do {
       (r, n) \<leftarrow> can_wait_reply K 10000 n;
       Some (case r of Errno e \<Rightarrow> (- e, n)
         | Ok (code, arg) \<Rightarrow>
             if code = 6 then (- EACCES, n) else if code = 4 then (- EIO, n)
             else if code \<noteq> 0 then (- EIO, n) else if arg \<noteq> 0 then (- EIO, n) else (0, n)) } }"

section \<open>Data\<close>

text \<open>The tail of fewer than eight bytes, sent with its real length.\<close>

definition can_send_tail :: "'n can_sock \<Rightarrow> bytes \<Rightarrow> nat \<Rightarrow> 'n \<Rightarrow> (int \<times> 'n) option" where
  "can_send_tail K data off n =
     (if off < length data then do {
        (rc, n) \<leftarrow> host_can_send K 0x103 (drop off data) (length data - off) n;
        if rc < 0 then Some (rc, n)
        else do {
          (r, n) \<leftarrow> can_wait_reply K 5000 n;
          Some (case r of Errno e \<Rightarrow> (- e, n)
            | Ok (code, arg) \<Rightarrow> if code \<noteq> 1 \<and> code \<noteq> 0 then (- EIO, n) else (0, n)) } }
      else Some (0, n))"

function can_send_data :: "'n can_sock \<Rightarrow> bytes \<Rightarrow> nat \<Rightarrow> nat \<Rightarrow> 'n \<Rightarrow> (int \<times> 'n) option" where
  "can_send_data K data off seq_in_block n =
     (if off + 8 \<le> length data then do {
        (rc, n) \<leftarrow> host_can_send K 0x103 (drop off data) 8 n;
        if rc < 0 then Some (rc, n)
        else if seq_in_block + 1 \<ge> 8 \<or> off + 8 \<ge> length data then do {
          (r, n) \<leftarrow> can_wait_reply K 5000 n;
          case r of Errno e \<Rightarrow> Some (- e, n)
          | Ok (code, arg) \<Rightarrow>
              if code = 4 then Some (- EIO, n) else if code = 5 then Some (- EIO, n)
              else if code = 1 then Some (0, n) else if code \<noteq> 0 then Some (- EIO, n)
              else can_send_data K data (off + 8) 0 n }
        else can_send_data K data (off + 8) (seq_in_block + 1) n }
      else can_send_tail K data off n)"
  by pat_completeness auto
termination
  by (relation "measure (\<lambda>(K, data, off, seq, n). length data - off)") auto

declare can_send_data.simps [simp del]

definition can_confirm :: "'n can_sock \<Rightarrow> bool \<Rightarrow> 'n \<Rightarrow> (int \<times> 'n) option" where
  "can_confirm K permanent n = do {
     (rc, n) \<leftarrow> can_send_fw_cmd K 1 (if permanent then 1 else 0) n;
     if rc < 0 then Some (rc, n)
     else do {
       (r, n) \<leftarrow> can_wait_reply K 5000 n;
       Some (case r of Errno e \<Rightarrow> (- e, n)
         | Ok (code, arg) \<Rightarrow>
             if code = 5 then (- EIO, n) else if code \<noteq> 3 then (- EIO, n)
             else if arg \<noteq> 0x55AA55AA then (- EIO, n) else (0, n)) } }"

section \<open>The upgrade\<close>

text \<open>
  \<open>upgrade_can\<close> after the image is parsed and the socket open, outside boot-loader mode: key hash
  (unless skipped), START, data, CONFIRM, REBOOT; the result is the exit status.
\<close>

definition upgrade_can :: "'n can_sock \<Rightarrow> fw_image \<Rightarrow> bytes \<Rightarrow> bool \<Rightarrow> bool \<Rightarrow> 'n \<Rightarrow> (int \<times> 'n) option" where
  "upgrade_can K im beyond test_mode no_keyhash n = do {
     (rc, n) \<leftarrow> (if has_keyhash im \<and> \<not> no_keyhash
        then can_send_keyhash K (img_keyhash im) beyond n else Some (0, n));
     if rc < 0 then Some (EXIT_COMM_ERR, n)
     else do {
       (rc, n) \<leftarrow> can_start_update K (of_nat (length (img_data im))) n;
       if rc < 0 then Some (if rc = - EACCES then EXIT_DEVICE_REJECT else EXIT_COMM_ERR, n)
       else do {
         (rc, n) \<leftarrow> can_send_data K (img_data im) 0 0 n;
         if rc < 0 then Some (EXIT_COMM_ERR, n)
         else do {
           (rc, n) \<leftarrow> can_confirm K (\<not> test_mode) n;
           if rc < 0 then Some (EXIT_COMM_ERR, n)
           else do {
             (rc, n) \<leftarrow> can_send_fw_cmd K 3 0 n;
             Some (EXIT_OK, n) } } } } }"

section \<open>A bus with the modelled device at the other end\<close>

text \<open>
  Every frame written is delivered to the device's receive thread; the host reads the frames the
  device sent, in order, and times out when there is none left.
\<close>

record 'w bus =
  dev :: "'w can_st"
  taken :: nat

definition to_dev_frame :: "host_frame \<Rightarrow> can_frame" where
  "to_dev_frame f = \<lparr>fr_id = hf_id f, fr_dlc = of_nat (hf_dlc f), fr_data = hf_data f\<rparr>"

definition to_host_frame :: "'w can_env \<Rightarrow> can_frame \<Rightarrow> host_frame" where
  "to_host_frame E f = \<lparr>hf_id = fr_id f, hf_dlc = unat (dlc_to_bytes E (fr_dlc f)), hf_data = fr_data f\<rparr>"

definition bus_sock :: "'w can_env \<Rightarrow> 'w bus can_sock" where
  "bus_sock E = \<lparr> sock_write = (\<lambda>f n. (Ok (), n\<lparr>dev := can_fw_rx_frame E (to_dev_frame f) (dev n)\<rparr>)),
     sock_read = (\<lambda>_ n. if taken n < length (tx (dev n))
        then (Ok (to_host_frame E (tx (dev n) ! taken n)), n\<lparr>taken := Suc (taken n)\<rparr>)
        else (Errno EAGAIN, n)) \<rparr>"

section \<open>The link\<close>

definition link_ok :: "'w can_env \<Rightarrow> bool" where
  "link_ok E \<longleftrightarrow> \<not> boot_wait E \<and> (\<forall>d \<le> 8. dlc_to_bytes E d = d) \<and> bytes_to_dlc E 8 = 8"

definition synced :: "'w bus \<Rightarrow> bool" where
  "synced n \<longleftrightarrow> taken n = length (tx (dev n))"

lemma note_activity_id [simp]: "\<not> boot_wait E \<Longrightarrow> can_fw_note_activity E s = s"
  by (simp add: can_fw_note_activity_def)

lemma bus_send:
  "len \<le> 8 \<Longrightarrow> host_can_send (bus_sock E) i data len n = Some (0, n\<lparr>dev := can_fw_rx_frame E
     \<lparr>fr_id = i, fr_dlc = of_nat len, fr_data = pad8 (take len data)\<rparr> (dev n)\<rparr>)"
  by (simp add: host_can_send_def can_write_loop.simps bus_sock_def to_dev_frame_def)

lemma bus_reply:
  assumes "link_ok E" "taken n = length fs" "tx (dev n) = fs @ [reply_frame E c a]"
  shows "can_wait_reply (bus_sock E) t n = Some (Ok (fw_code_val c, a), n\<lparr>taken := Suc (taken n)\<rparr>)"
  using assms
  by (simp add: can_wait_reply_def can_recv.simps bus_sock_def to_host_frame_def reply_frame_def
      CAN_SFF_OK_def can_id_defs link_ok_def)

section \<open>The key hash arrives\<close>

lemma blit_prefix:
  assumes "take a buf = take a k" "length buf = length k" "a + c \<le> length k"
  shows "take (a + c) (blit a (take c (drop a k)) buf) = take (a + c) k"
  using assms by (simp add: blit_def min_def take_add)

lemma take_min_len:
  "take (min c n) b = take (min c n) k \<Longrightarrow> length b = c \<Longrightarrow> length k = c \<Longrightarrow> take n b = take n k"
  by (cases "n \<le> c") (simp_all add: min.absorb1 min.absorb2)

definition key_frame :: "bytes \<Rightarrow> nat \<Rightarrow> can_frame" where
  "key_frame mem i = \<lparr>fr_id = 0x104, fr_dlc = 8, fr_data = pad8 (take 8 (of_nat i # take 7 (drop (i * 7) mem)))\<rparr>"

lemma key_chunk_pad:
  "length x = 7 \<Longrightarrow>
     drop 1 (fr_data \<lparr>fr_id = a, fr_dlc = b, fr_data = pad8 (take 8 (c # x))\<rparr>) = x"
  by (simp add: pad8_def)

lemma key_chunk_data:
  assumes "length k = 32" "3 \<le> length beyond" "i < 5"
  shows "fr_data (key_frame (k @ beyond) i) ! 0 = of_nat i"
    "take (min 7 (32 - 7 * i)) (drop 1 (fr_data (key_frame (k @ beyond) i))) =
     take (min 7 (32 - 7 * i)) (drop (i * 7) k)"
proof -
  have len: "length (take 7 (drop (i * 7) (k @ beyond))) = 7" using assms by simp
  show "fr_data (key_frame (k @ beyond) i) ! 0 = of_nat i"
    by (simp add: key_frame_def pad8_def)
  have "drop 1 (fr_data (key_frame (k @ beyond) i)) = take 7 (drop (i * 7) (k @ beyond))"
    using len unfolding key_frame_def by (rule key_chunk_pad)
  then show "take (min 7 (32 - 7 * i)) (drop 1 (fr_data (key_frame (k @ beyond) i))) =
     take (min 7 (32 - 7 * i)) (drop (i * 7) k)"
    using assms by (auto simp: min_def)
qed

text \<open>\<open>keys_upto k i s\<close>: the first \<open>i\<close> chunks are in place and marked.\<close>

definition keys_upto :: "bytes \<Rightarrow> nat \<Rightarrow> 'w can_st \<Rightarrow> bool" where
  "keys_upto k i s \<longleftrightarrow> length (rx_keybuf s) = 32 \<and> take (7 * i) (rx_keybuf s) = take (7 * i) k \<and>
     (\<forall>j < i. bit (key_chunk_mask s) j)"

lemma key_frame_step:
  assumes ok: "link_ok E" "fw_keyhash E \<noteq> None" and k: "length k = 32" "3 \<le> length beyond" "i < 5"
    and s: "keys_upto k i s"
  shows "\<exists>b m. can_fw_rx_frame E (key_frame (k @ beyond) i) s = s\<lparr>rx_keybuf := b, key_chunk_mask := m\<rparr> \<and>
    keys_upto k (Suc i) (s\<lparr>rx_keybuf := b, key_chunk_mask := m\<rparr>)"
proof -
  let ?f = "key_frame (k @ beyond) i" and ?c = "min 7 (32 - 7 * i)"
  let ?b = "blit (7 * i) (take ?c (drop (7 * i) k)) (rx_keybuf s)"
  let ?m = "key_chunk_mask s OR push_bit i 1"
  have i: "unat (of_nat i :: u8) = i" using k(3) by (simp add: unat_of_nat take_bit_nat_eq_self)
  note d = key_chunk_data [OF k]
  have c: "unat (min (32 - (of_nat i :: u8) * 7) 7) = ?c"
    using keyhash_chunk_size [of "of_nat i"] k(3) by (simp add: i mult.commute)
  have "dlc_to_bytes E (fr_dlc ?f) = 8" using ok(1) by (simp add: link_ok_def key_frame_def)
  then have eq: "can_fw_rx_frame E ?f s = s\<lparr>rx_keybuf := ?b, key_chunk_mask := ?m\<rparr>"
    using ok k(3) d
    by (simp add: can_fw_rx_frame_def key_frame_def can_id_defs link_ok_def handle_keyhash_frame_def
        Let_def keyhash_consts CAN_FW_KEYHASH_CHUNK_BYTES_def c i mult.commute)
  have a: "7 * i + ?c = min 32 (7 * Suc i)" using k(3) by (auto simp: min_def)
  have p: "take (7 * i + ?c) ?b = take (7 * i + ?c) k"
    using s k by (intro blit_prefix) (auto simp: keys_upto_def min_def)
  have l: "length ?b = 32" using s k by (auto simp: keys_upto_def min_def)
  have "take (7 * Suc i) ?b = take (7 * Suc i) k"
    by (rule take_min_len [OF p [unfolded a] l k(1)])
  moreover have "\<forall>j < Suc i. bit ?m j" using s k(3) by (auto simp: keys_upto_def bit_simps less_Suc_eq)
  ultimately show ?thesis using eq l by (auto simp: keys_upto_def)
qed

lemma keys_all:
  assumes "keys_upto k 5 s" "length k = 32"
  shows "rx_keybuf s = k" "key_complete s"
proof -
  have l: "length (rx_keybuf s) = 32" and t: "take (7 * 5) (rx_keybuf s) = take (7 * 5) k"
    using assms by (simp_all only: keys_upto_def)
  show "rx_keybuf s = k" using t l assms(2) by (simp only: take_all)
  have "bit (key_chunk_mask s AND 31) j = bit (31::u8) j" for j
  proof (cases "j < 5")
    case True
    then have "bit (key_chunk_mask s) j" using assms(1) by (simp add: keys_upto_def)
    then show ?thesis by (simp only: bit_and_iff simp_thms)
  next
    case False
    then have "\<not> bit (31::u8) j"
      using bit_mask_iff [of 5 j, where 'a = "8 word"] by (simp add: mask_eq_exp_minus_1)
    then show ?thesis by (simp only: bit_and_iff simp_thms)
  qed
  then have "key_chunk_mask s AND 31 = 31" by (intro bit_word_eqI)
  then show "key_complete s" by (simp add: key_complete_def keyhash_consts)
qed

end
