(* ===== verification/CanUpgrade.thy ===== *)
theory CanUpgrade imports HostCan begin

text \<open>
  The host tool and the device together: the CAN session of \<open>HostCan\<close> run against the receive
  thread of \<open>CanFw\<close> over a bus that delivers every frame.  Each phase of the session is one lemma
  about the device state it leaves; the property at the end composes them.
\<close>

section \<open>One data frame\<close>

text \<open>\<open>sess\<close>: a transfer of \<open>data\<close> is open and its first \<open>off\<close> bytes are in the image.\<close>

definition sess :: "('w \<Rightarrow> bytes) \<Rightarrow> bytes \<Rightarrow> nat list \<Rightarrow> nat \<Rightarrow> 'w bus \<Rightarrow> bool" where
  "sess img data hs off n \<longleftrightarrow> synced n \<and> fw_img_initialized (dev n) \<and>
     fw_written (dev n) = of_nat off \<and> fw_total_size (dev n) = of_nat (length data) \<and>
     img (world (dev n)) = take off data \<and> pre_reboot_hooks (dev n) = hs"

lemma payload_chunk:
  assumes "link_ok E" "m \<le> 8" "length d = m"
  shows "payload E \<lparr>fr_id = 0x103, fr_dlc = of_nat m, fr_data = pad8 d\<rparr> = d"
    "dlc_to_bytes E (of_nat m) = of_nat m"
proof -
  have le: "(of_nat m :: u8) \<le> 8" using assms(2) by (simp add: word_le_nat_alt unat_of_nat)
  then show d: "dlc_to_bytes E (of_nat m) = of_nat m" using assms(1) by (simp add: link_ok_def)
  have "unat (of_nat m :: u8) = m" using assms(2) by (simp add: unat_of_nat)
  then show "payload E \<lparr>fr_id = 0x103, fr_dlc = of_nat m, fr_data = pad8 d\<rparr> = d"
    using d assms(3) by (simp add: payload_def pad8_def)
qed

text \<open>The state after one data frame, before any reply is read.\<close>

definition sent :: "'w can_env \<Rightarrow> bytes \<Rightarrow> nat \<Rightarrow> 'w \<Rightarrow> 'w bus \<Rightarrow> 'w bus" where
  "sent E data off w n = n\<lparr>dev := (dev n)\<lparr>world := w, fw_written := of_nat off,
     tx := tx (dev n) @ data_reply E (of_nat off) (of_nat (length data))\<rparr>\<rparr>"

lemma data_frame_sent:
  assumes link: "link_ok E" and laws: "flash_img_laws (can_flash E) img"
    and nf: "flash_no_fault (can_flash E) img cap" and cap: "length data \<le> cap"
    and s: "sess img data hs off n" and m: "m \<le> 8" "off + m \<le> length data"
  shows "\<exists>w. img w = take (off + m) data \<and>
    host_can_send (bus_sock E) 0x103 (drop off data) m n = Some (0, sent E data (off + m) w n)"
proof -
  let ?d = "take m (drop off data)"
  have len: "length ?d = m" using m by simp
  have "length (img (world (dev n))) + length ?d \<le> cap"
    using s m cap by (simp add: sess_def)
  then obtain w where w: "img_write (can_flash E) ?d False (world (dev n)) = (0, w)"
    "img w = img (world (dev n)) @ ?d"
    using no_fault_write [OF nf laws, of "world (dev n)" ?d False] by blast
  let ?f = "\<lparr>fr_id = 0x103, fr_dlc = of_nat m, fr_data = pad8 ?d\<rparr>"
  note pc = payload_chunk [OF link m(1) len]
  have u: "(ucast (of_nat m :: u8) :: u32) = of_nat m"
    using m(1) by (simp add: unsigned_of_nat take_bit_nat_eq_self)
  have "can_fw_rx_frame E ?f (dev n) = handle_fw_data E ?f (dev n)"
    using link by (simp add: can_fw_rx_frame_def can_id_defs link_ok_def)
  also have "\<dots> = (dev n)\<lparr>world := w, fw_written := of_nat (off + m),
     tx := tx (dev n) @ data_reply E (of_nat (off + m)) (of_nat (length data))\<rparr>"
    using handle_fw_data_accepted [of "dev n" E ?f w] s w(1)
    by (simp add: pc u sess_def Let_def)
  finally have "host_can_send (bus_sock E) 0x103 (drop off data) m n = Some (0, sent E data (off + m) w n)"
    using m(1) by (simp add: bus_send sent_def)
  moreover have "img w = take (off + m) data"
    using w(2) s by (simp add: sess_def take_add)
  ultimately show ?thesis by blast
qed

lemma sent_sess:
  assumes "sess img data hs off n" "img w = take off' data"
  shows "data_reply E (of_nat off') (of_nat (length data)) = [] \<Longrightarrow> sess img data hs off' (sent E data off' w n)"
    "data_reply E (of_nat off') (of_nat (length data)) = [f] \<Longrightarrow>
       sess img data hs off' ((sent E data off' w n)\<lparr>taken := Suc (taken (sent E data off' w n))\<rparr>)"
  using assms by (simp_all add: sess_def sent_def synced_def)

lemma sent_reply:
  assumes "link_ok E" "sess img data hs off n"
    "data_reply E (of_nat off') (of_nat (length data)) = [reply_frame E c a]"
  shows "can_wait_reply (bus_sock E) t (sent E data off' w n) =
    Some (Ok (fw_code_val c, a), (sent E data off' w n)\<lparr>taken := Suc (taken (sent E data off' w n))\<rparr>)"
  using assms by (intro bus_reply) (simp_all add: sent_def sess_def synced_def)

text \<open>The replies at byte counts, over naturals.\<close>

lemma data_reply_nat:
  assumes "length data < 2 ^ 32" "off \<le> length data"
  shows "data_reply E (of_nat off) (of_nat (length data)) =
    (if off = length data then [reply_frame E FW_CODE_UPDATE_SUCCESS (of_nat (length data))]
     else if off mod 64 = 0 then [reply_frame E FW_CODE_OFFSET (of_nat off)] else [])"
  using assms by (simp add: data_reply_def of_nat_u32_inj of_nat_mod64_u32)

section \<open>The data phase\<close>

lemma send_tail_ok:
  assumes link: "link_ok E" and laws: "flash_img_laws (can_flash E) img"
    and nf: "flash_no_fault (can_flash E) img cap" and cap: "length data \<le> cap" "length data < 2 ^ 32"
    and s: "sess img data hs off n" and off: "off < length data" "length data < off + 8"
  shows "\<exists>n'. can_send_tail (bus_sock E) data off n = Some (0, n') \<and> sess img data hs (length data) n'"
proof -
  let ?m = "length data - off"
  from data_frame_sent [OF link laws nf cap(1) s, of ?m] off obtain w where w: "img w = take (length data) data"
    "host_can_send (bus_sock E) 0x103 (drop off data) ?m n = Some (0, sent E data (length data) w n)"
    by auto
  have r: "data_reply E (of_nat (length data)) (of_nat (length data)) =
     [reply_frame E FW_CODE_UPDATE_SUCCESS (of_nat (length data))]"
    by (simp add: data_reply_def)
  show ?thesis
    using sent_reply [OF link s r, of 5000 w] sent_sess(2) [OF s w(1) r] off
    by (simp add: can_send_tail_def w(2))
qed

lemma send_data_ok:
  assumes link: "link_ok E" and laws: "flash_img_laws (can_flash E) img"
    and nf: "flash_no_fault (can_flash E) img cap" and cap: "length data \<le> cap" "length data < 2 ^ 32"
  shows "sess img data hs (8 * i) n \<Longrightarrow> 8 * i < length data \<Longrightarrow> sq = i mod 8 \<Longrightarrow>
    \<exists>n'. can_send_data (bus_sock E) data (8 * i) sq n = Some (0, n') \<and> sess img data hs (length data) n'"
proof (induction "length data - 8 * i" arbitrary: i sq n rule: less_induct)
  case less
  show ?case
  proof (cases "8 * i + 8 \<le> length data")
    case False
    then have "can_send_data (bus_sock E) data (8 * i) sq n = can_send_tail (bus_sock E) data (8 * i) n"
      by (subst can_send_data.simps) simp
    then show ?thesis using send_tail_ok [OF link laws nf cap less.prems(1,2)] False by simp
  next
    case True
    let ?off = "8 * Suc i"
    from data_frame_sent [OF link laws nf cap(1) less.prems(1), of 8] True
    obtain w where w: "img w = take ?off data"
      "host_can_send (bus_sock E) 0x103 (drop (8 * i) data) 8 n = Some (0, sent E data ?off w n)"
      by (auto simp: add.commute)
    have e: "8 * i + 8 = 8 * Suc i" by simp
    let ?n1 = "sent E data ?off w n"
    let ?n2 = "?n1\<lparr>taken := Suc (taken ?n1)\<rparr>"
    note rep = data_reply_nat [OF cap(2), of ?off E]
    note ih = less.hyps [of "Suc i"]
    show ?thesis
    proof (cases "?off = length data")
      case full: True
      then have r: "data_reply E (of_nat ?off) (of_nat (length data)) =
          [reply_frame E FW_CODE_UPDATE_SUCCESS (of_nat (length data))]" using rep by simp
      have "can_send_data (bus_sock E) data (8 * i) sq n = Some (0, ?n2)"
        using full w(2) sent_reply [OF link less.prems(1) r, of 5000 w]
        by (subst can_send_data.simps) simp
      then show ?thesis using sent_sess(2) [OF less.prems(1) w(1) r] full by simp
    next
      case more: False
      then have more': "8 * Suc i < length data" using True by simp
      show ?thesis
      proof (cases "sq = 7")
        case True
        then have "?off mod 64 = 0" using less.prems(3) by presburger
        then have r: "data_reply E (of_nat ?off) (of_nat (length data)) =
            [reply_frame E FW_CODE_OFFSET (of_nat ?off)]" using rep more more' by simp
        have "can_send_data (bus_sock E) data (8 * i) sq n = can_send_data (bus_sock E) data (8 * Suc i) 0 ?n2"
          using True more' w(2) sent_reply [OF link less.prems(1) r, of 5000 w]
          by (subst can_send_data.simps) (simp add: e)
        moreover have "0 = Suc i mod 8" using True less.prems(3) by presburger
        ultimately show ?thesis
          using ih [of ?n2 0] sent_sess(2) [OF less.prems(1) w(1) r] more' less.prems(2) by simp
      next
        case False
        then have "?off mod 64 \<noteq> 0" using less.prems(3) by presburger
        then have r: "data_reply E (of_nat ?off) (of_nat (length data)) = []" using rep more more' by simp
        have "sq < 8" using less.prems(3) by simp
        then have "can_send_data (bus_sock E) data (8 * i) sq n = can_send_data (bus_sock E) data (8 * Suc i) (sq + 1) ?n1"
          using False more' w(2) by (subst can_send_data.simps) (simp add: e)
        moreover have "sq + 1 = Suc i mod 8" using False less.prems(3) by presburger
        ultimately show ?thesis
          using ih [of ?n1 "sq + 1"] sent_sess(1) [OF less.prems(1) w(1) r] more' less.prems(2) by simp
      qed
    qed
  qed
qed

section \<open>The command phases\<close>

lemma cmd_frame_sent:
  "can_send_fw_cmd (bus_sock E) c a n = Some (0, n\<lparr>dev := can_fw_rx_frame E
     \<lparr>fr_id = CAN_FW_PLATFORM_RX, fr_dlc = 8, fr_data = put_le32 c @ put_le32 a\<rparr> (dev n)\<rparr>)"
  by (simp add: can_send_fw_cmd_def bus_send wr_le_put pad8_def can_id_defs)

lemma start_frame_ok:
  fixes s :: "'w can_st" and sz :: u32
  assumes link: "link_ok E" and laws: "flash_img_laws (can_flash E) img"
    and nf: "flash_no_fault (can_flash E) img cap"
    and key: "\<not> key_mismatch E s" and hook: "fst (call_start_hook E s)"
  defines "t \<equiv> can_fw_rx_frame E \<lparr>fr_id = CAN_FW_PLATFORM_RX, fr_dlc = 8, fr_data = put_le32 0 @ put_le32 sz\<rparr> s"
  shows "fw_img_initialized t \<and> fw_written t = 0 \<and> fw_total_size t = sz \<and> img (world t) = [] \<and>
    tx t = tx s @ [reply_frame E FW_CODE_OFFSET 0] \<and> pre_reboot_hooks t = pre_reboot_hooks s"
proof -
  let ?f = "\<lparr>fr_id = CAN_FW_PLATFORM_RX, fr_dlc = 8, fr_data = put_le32 0 @ put_le32 sz\<rparr>"
  let ?s = "s\<lparr>rx_busy := True\<rparr>" and ?c = "snd (call_start_hook E (start_checked E (s\<lparr>rx_busy := True\<rparr>)))"
  have bw: "\<not> boot_wait E" "dlc_to_bytes E 8 = 8" using link by (simp_all add: link_ok_def)
  have "\<not> key_mismatch E ?s" using key by (simp add: key_mismatch_def key_complete_def)
  moreover have "fst (call_start_hook E (start_checked E ?s))"
    using hook by (simp add: call_start_hook_def start_checked_simps split: option.splits prod.splits)
  moreover obtain w where w: "img_init (can_flash E) (fw_target E) (erased_world E sz ?c) = (0, w)" "img w = []"
    using no_fault_init [OF nf laws] by blast
  ultimately have "handle_start E ?f ?s = fw_can_reply E FW_CODE_OFFSET 0 (?c\<lparr>fw_total_size := sz,
      world := w, fw_img_initialized := True, fw_written := 0, rx_msgq := []\<rparr>)"
    using bw start_flash_ok [OF no_fault_open [OF nf] w(1)] by (simp add: handle_start_alt)
  moreover have "t = (handle_start E ?f ?s)\<lparr>rx_busy := False\<rparr>"
    using bw by (simp add: t_def can_fw_rx_frame_def handle_platform_rx_def)
  moreover have "tx (start_checked E ?s) = tx s"
    using bw by (simp add: start_checked_def start_traced_def)
  ultimately show ?thesis using w(2) by (simp add: frame_simps)
qed

lemma start_update_ok:
  assumes link: "link_ok E" and laws: "flash_img_laws (can_flash E) img"
    and nf: "flash_no_fault (can_flash E) img cap" and sy: "synced n"
    and key: "\<not> key_mismatch E (dev n)" and hook: "fst (call_start_hook E (dev n))"
  shows "\<exists>n'. can_start_update (bus_sock E) (of_nat (length data)) n = Some (0, n') \<and>
    sess img data (pre_reboot_hooks (dev n)) 0 n'"
proof -
  let ?n1 = "n\<lparr>dev := can_fw_rx_frame E \<lparr>fr_id = CAN_FW_PLATFORM_RX, fr_dlc = 8,
     fr_data = put_le32 0 @ put_le32 (of_nat (length data))\<rparr> (dev n)\<rparr>"
  note f = start_frame_ok [OF link laws nf key hook, of "of_nat (length data)"]
  have "can_wait_reply (bus_sock E) 10000 ?n1 = Some (Ok (fw_code_val FW_CODE_OFFSET, 0), ?n1\<lparr>taken := Suc (taken ?n1)\<rparr>)"
    using f sy by (intro bus_reply [OF link]) (simp_all add: synced_def)
  then show ?thesis
    using f sy by (simp add: can_start_update_def cmd_frame_sent sess_def synced_def)
qed

lemma confirm_ok:
  assumes link: "link_ok E" and laws: "flash_img_laws (can_flash E) img"
    and nf: "flash_no_fault (can_flash E) img cap" "length data \<le> cap"
    and s: "sess img data hs (length data) n"
  shows "\<exists>n' wf. can_confirm (bus_sock E) perm n = Some (0, n') \<and> img wf = data \<and>
    world (dev n') = snd (boot_request (can_flash E) (if perm then 1 else 0) wf) \<and>
    pre_reboot_hooks (dev n') = hs"
proof -
  let ?a = "if perm then 1 else 0 :: u32"
  let ?f = "\<lparr>fr_id = CAN_FW_PLATFORM_RX, fr_dlc = 8, fr_data = put_le32 1 @ put_le32 ?a\<rparr>"
  have bw: "\<not> boot_wait E" using link by (simp add: link_ok_def)
  from s nf(2) have "length (img (world (dev n))) + length ([] :: bytes) \<le> cap" by (simp add: sess_def)
  from no_fault_write [OF nf(1) laws this, of True] s
  obtain wf where wf: "img_write (can_flash E) [] True (world (dev n)) = (0, wf)" "img wf = data"
    by (auto simp: sess_def)
  let ?t = "can_fw_rx_frame E ?f (dev n)"
  have t: "world ?t = snd (boot_request (can_flash E) ?a wf)" "pre_reboot_hooks ?t = hs"
    "tx ?t = tx (dev n) @ [reply_frame E FW_CODE_CONFIRM 0x55AA55AA]"
    using s bw wf(1) no_fault_boot [OF nf(1), of ?a wf]
    by (simp_all add: can_fw_rx_frame_def handle_platform_rx_def handle_confirm_def sess_def frame_simps
        Let_def case_prod_beta)
  let ?n1 = "n\<lparr>dev := ?t\<rparr>"
  have "can_wait_reply (bus_sock E) 5000 ?n1 = Some (Ok (fw_code_val FW_CODE_CONFIRM, 0x55AA55AA), ?n1\<lparr>taken := Suc (taken ?n1)\<rparr>)"
    using t(3) s by (intro bus_reply [OF link]) (simp_all add: sess_def synced_def)
  then have "can_confirm (bus_sock E) perm n = Some (0, ?n1\<lparr>taken := Suc (taken ?n1)\<rparr>)"
    by (simp add: can_confirm_def cmd_frame_sent)
  then show ?thesis using t wf(2) by auto
qed

section \<open>The key-hash phase\<close>

lemma keyhash_from_ok:
  assumes ok: "link_ok E" "fw_keyhash E \<noteq> None" and k: "length k = 32" "3 \<le> length beyond"
  shows "i \<le> 5 \<Longrightarrow> keys_upto k i (dev n) \<Longrightarrow>
    \<exists>b m. can_send_keyhash_from (bus_sock E) (k @ beyond) [i..<5] n =
        Some (0, n\<lparr>dev := (dev n)\<lparr>rx_keybuf := b, key_chunk_mask := m\<rparr>\<rparr>) \<and>
      keys_upto k 5 ((dev n)\<lparr>rx_keybuf := b, key_chunk_mask := m\<rparr>)"
proof (induction "5 - i" arbitrary: i n)
  case 0
  then have "i = 5" by simp
  then show ?case using 0
    by (intro exI [of _ "rx_keybuf (dev n)"] exI [of _ "key_chunk_mask (dev n)"]) simp
next
  case (Suc x)
  then have i: "i < 5" and up: "[i..<5] = i # [Suc i..<5]" by (simp_all add: upt_conv_Cons)
  from key_frame_step [OF ok k i Suc.prems(2)] obtain b m where
    st: "can_fw_rx_frame E (key_frame (k @ beyond) i) (dev n) = (dev n)\<lparr>rx_keybuf := b, key_chunk_mask := m\<rparr>"
      "keys_upto k (Suc i) ((dev n)\<lparr>rx_keybuf := b, key_chunk_mask := m\<rparr>)" by blast
  let ?n = "n\<lparr>dev := (dev n)\<lparr>rx_keybuf := b, key_chunk_mask := m\<rparr>\<rparr>"
  have "host_can_send (bus_sock E) 0x104 (of_nat i # take 7 (drop (i * 7) (k @ beyond))) 8 n = Some (0, ?n)"
    using st(1) by (simp add: bus_send key_frame_def del: take_append drop_append)
  then have "can_send_keyhash_from (bus_sock E) (k @ beyond) [i..<5] n =
      can_send_keyhash_from (bus_sock E) (k @ beyond) [Suc i..<5] ?n"
    by (simp add: up del: take_append drop_append upt_Suc)
  moreover have "x = 5 - Suc i" using Suc.hyps(2) by simp
  ultimately show ?case using Suc.hyps(1) [of "Suc i" ?n] i st(2) by simp
qed

lemma keyhash_phase:
  assumes ok: "link_ok E" "fw_keyhash E \<noteq> None" and k: "length k = 32" "3 \<le> length beyond"
    and buf: "length (rx_keybuf (dev n)) = 32"
  shows "\<exists>m. can_send_keyhash (bus_sock E) k beyond n =
      Some (0, n\<lparr>dev := (dev n)\<lparr>rx_keybuf := k, key_chunk_mask := m\<rparr>\<rparr>) \<and>
    key_complete ((dev n)\<lparr>rx_keybuf := k, key_chunk_mask := m\<rparr>)"
proof -
  have "keys_upto k 0 (dev n)" using buf by (simp add: keys_upto_def)
  from keyhash_from_ok [OF ok k _ this] obtain b m where
    bm: "can_send_keyhash_from (bus_sock E) (k @ beyond) [0..<5] n =
        Some (0, n\<lparr>dev := (dev n)\<lparr>rx_keybuf := b, key_chunk_mask := m\<rparr>\<rparr>)"
      "keys_upto k 5 ((dev n)\<lparr>rx_keybuf := b, key_chunk_mask := m\<rparr>)" by blast
  have l: "[0, 1, 2, 3, 4] = [0..<5]" by (simp add: upt_rec)
  show ?thesis using keys_all [OF bm(2) k(1)] bm(1) unfolding can_send_keyhash_def l
    by (auto simp del: can_send_keyhash_from.simps)
qed

lemma call_start_hook_world:
  "world s = world t \<Longrightarrow> pre_start_hook s = pre_start_hook t \<Longrightarrow>
   fst (call_start_hook E s) = fst (call_start_hook E t)"
  by (simp add: call_start_hook_def split: option.splits prod.splits)

section \<open>The hub's device as an instance\<close>

lemma flash_img_laws_alt: "flash_img_laws F img \<longleftrightarrow>
    (\<forall>p w. fst (img_init F p w) = 0 \<longrightarrow> img (snd (img_init F p w)) = []) \<and>
    (\<forall>d fl w. fst (img_write F d fl w) = 0 \<longrightarrow> img (snd (img_write F d fl w)) = img w @ d) \<and>
    (\<forall>v w. img (snd (boot_request F v w)) = img w)"
  unfolding flash_img_laws_def by (intro conj_cong; metis prod.collapse fst_conv snd_conv)

lemma lift_flash_laws: "flash_img_laws F img \<Longrightarrow> flash_img_laws (lift_flash F) (\<lambda>w. img (fst w))"
  by (simp add: flash_img_laws_alt lift_flash_def case_prod_beta)

lemma lift_flash_no_fault: "flash_no_fault F img cap \<Longrightarrow> flash_no_fault (lift_flash F) (\<lambda>w. img (fst w)) cap"
  by (auto simp: flash_no_fault_def lift_flash_def split: prod.splits)

definition demo_bus :: "(ram_world \<times> lock_st) bus" where
  "demo_bus = \<lparr>dev = demo_hub_st, taken = 0\<rparr>"

definition demo_image :: "bytes \<Rightarrow> fw_image" where
  "demo_image k = \<lparr>img_data = [1, 2, 3], img_keyhash = k, has_keyhash = True\<rparr>"

lemma demo_link: "link_ok (hub_can_env demo_can)"
  by (simp add: link_ok_def hub_can_env_def)

lemma demo_bus_fields: "synced demo_bus" "length (rx_keybuf (dev demo_bus)) = 32"
  "fst (call_start_hook (hub_can_env demo_can) (dev demo_bus))"
  "fw_keyhash (hub_can_env demo_can) = Some demo_key" "length demo_key = 32"
  by (simp_all add: synced_def demo_bus_def demo_hub_st_def demo_hub_def fw_upgrade_state_init_def can_st_init_def
      can_fw_add_pre_start_hook_def FW_KEYHASH_KEY_LEN_def call_start_hook_def hub_can_env_def
      fw_pre_start_hook_def fw_upgrade_try_lock_def lock_init_def demo_key_def)

section \<open>Properties\<close>

text \<open>
  C3. A complete CAN upgrade, host tool against device over a bus that delivers: the tool
  reports success, and the device has the image file in its slot byte for byte, has requested the
  boot of that image (test or permanent as asked) and then run its reboot hooks and rebooted; for
  every image up to the slot size, whatever key chunks an earlier session left behind, and
  whatever three bytes follow the key hash in the tool's memory.
\<close>
theorem can_upgrade_complete:
  assumes "link_ok E" and "flash_img_laws (can_flash E) img"
    and "flash_no_fault (can_flash E) img cap"
    and "length (img_data im) \<le> cap" and "length (img_data im) < 2 ^ 32" and "img_data im \<noteq> []"
    and "has_keyhash im" and "length (img_keyhash im) = 32" and "3 \<le> length beyond"
    and "fw_keyhash E = Some (img_keyhash im)"
    and "synced n" and "length (rx_keybuf (dev n)) = 32" and "fst (call_start_hook E (dev n))"
  shows "\<exists>n' wf. upgrade_can (bus_sock E) im beyond test_mode False n = Some (EXIT_OK, n') \<and>
    img wf = img_data im \<and> rebooted (dev n') \<and>
    world (dev n') = fold (run_reboot_hook E) (pre_reboot_hooks (dev n))
      (snd (boot_request (can_flash E) (if test_mode then 0 else 1) wf))"
proof -
  let ?hs = "pre_reboot_hooks (dev n)"
  obtain m where k: "can_send_keyhash (bus_sock E) (img_keyhash im) beyond n =
      Some (0, n\<lparr>dev := (dev n)\<lparr>rx_keybuf := img_keyhash im, key_chunk_mask := m\<rparr>\<rparr>)"
    using keyhash_phase [OF assms(1) _ assms(8,9,12)] assms(10) by auto
  let ?n1 = "n\<lparr>dev := (dev n)\<lparr>rx_keybuf := img_keyhash im, key_chunk_mask := m\<rparr>\<rparr>"
  have "synced ?n1" "\<not> key_mismatch E (dev ?n1)"
    using assms(10,11) by (simp_all add: synced_def key_mismatch_def)
  moreover have "fst (call_start_hook E (dev ?n1))"
    using assms(13) call_start_hook_world [of "dev ?n1" "dev n" E] by simp
  ultimately obtain n2 where s: "can_start_update (bus_sock E) (of_nat (length (img_data im))) ?n1 = Some (0, n2)"
    "sess img (img_data im) ?hs 0 n2"
    using start_update_ok [OF assms(1,2,3), of ?n1 "img_data im"] by auto
  then obtain n3 where d: "can_send_data (bus_sock E) (img_data im) 0 0 n2 = Some (0, n3)"
    "sess img (img_data im) ?hs (length (img_data im)) n3"
    using send_data_ok [OF assms(1,2,3,4,5), of ?hs 0 n2 0] assms(6) by auto
  from confirm_ok [OF assms(1,2,3,4) d(2), of "\<not> test_mode"] obtain n4 wf where
    c: "can_confirm (bus_sock E) (\<not> test_mode) n3 = Some (0, n4)" "img wf = img_data im"
      "world (dev n4) = snd (boot_request (can_flash E) (if test_mode then 0 else 1) wf)"
      "pre_reboot_hooks (dev n4) = ?hs"
    by (auto split: if_splits)
  let ?r = "can_fw_rx_frame E \<lparr>fr_id = CAN_FW_PLATFORM_RX, fr_dlc = 8, fr_data = put_le32 3 @ put_le32 0\<rparr> (dev n4)"
  have r: "rebooted ?r" "world ?r = fold (run_reboot_hook E) ?hs (world (dev n4))"
    using assms(1) c(4) by (simp_all add: can_fw_rx_frame_def handle_platform_rx_def handle_reboot_def link_ok_def)
  have "upgrade_can (bus_sock E) im beyond test_mode False n = Some (EXIT_OK, n4\<lparr>dev := ?r\<rparr>)"
    using assms(7) by (simp add: upgrade_can_def k s(1) d(1) c(1) cmd_frame_sent)
  then show ?thesis using r c(2,3) by (intro exI [of _ "n4\<lparr>dev := ?r\<rparr>"] exI [of _ wf]) simp
qed

theorem can_upgrade_complete_witness:
  "\<exists>n' (wf :: ram_world \<times> lock_st). upgrade_can (bus_sock (hub_can_env demo_can)) (demo_image demo_key) [9, 9, 9] True False demo_bus =
      Some (EXIT_OK, n') \<and> ram_img (fst wf) = [1, 2, 3] \<and> rebooted (dev n')"
proof -
  have c: "flash_img_laws (can_flash (hub_can_env demo_can)) (\<lambda>w. ram_img (fst w))"
    "flash_no_fault (can_flash (hub_can_env demo_can)) (\<lambda>w. ram_img (fst w)) 100"
    using lift_flash_laws [OF ram_flash_laws] lift_flash_no_fault [OF ram_flash_no_fault, of 100] by simp_all
  from can_upgrade_complete [OF demo_link c, of "demo_image demo_key" "[9, 9, 9]" demo_bus True]
  show ?thesis using demo_bus_fields by (auto simp: demo_image_def)
qed

text \<open>
  C4. The wrong image is refused end to end: when the key hash of the image differs from the one
  the device was built with, the tool exits with the rejection status, and the device has neither
  touched its flash nor called the application.
\<close>
theorem can_upgrade_rejects_wrong_key:
  assumes "link_ok E" and "has_keyhash im" and "length (img_keyhash im) = 32" and "3 \<le> length beyond"
    and "fw_keyhash E = Some k" and "k \<noteq> img_keyhash im"
    and "synced n" and "length (rx_keybuf (dev n)) = 32"
  shows "\<exists>n'. upgrade_can (bus_sock E) im beyond test_mode False n = Some (EXIT_DEVICE_REJECT, n') \<and>
    world (dev n') = world (dev n) \<and> fw_img_initialized (dev n') = fw_img_initialized (dev n)"
proof -
  obtain m where kh: "can_send_keyhash (bus_sock E) (img_keyhash im) beyond n =
      Some (0, n\<lparr>dev := (dev n)\<lparr>rx_keybuf := img_keyhash im, key_chunk_mask := m\<rparr>\<rparr>)"
    and full: "key_complete ((dev n)\<lparr>rx_keybuf := img_keyhash im, key_chunk_mask := m\<rparr>)"
    using keyhash_phase [OF assms(1) _ assms(3,4,8)] assms(5) by auto
  let ?s = "(dev n)\<lparr>rx_keybuf := img_keyhash im, key_chunk_mask := m\<rparr>"
  let ?f = "\<lparr>fr_id = CAN_FW_PLATFORM_RX, fr_dlc = 8,
     fr_data = put_le32 0 @ put_le32 (of_nat (length (img_data im)))\<rparr>"
  have bw: "\<not> boot_wait E" "dlc_to_bytes E 8 = 8" using assms(1) by (simp_all add: link_ok_def)
  have "key_mismatch E (?s\<lparr>rx_busy := True\<rparr>)"
    using full assms(5,6) by (simp add: key_mismatch_def key_complete_def)
  then have t: "tx (can_fw_rx_frame E ?f ?s) = tx (dev n) @ [reply_frame E FW_CODE_KEYHASH_ERROR 0]"
      "world (can_fw_rx_frame E ?f ?s) = world (dev n)"
      "fw_img_initialized (can_fw_rx_frame E ?f ?s) = fw_img_initialized (dev n)"
    using bw by (simp_all add: can_fw_rx_frame_def handle_platform_rx_def handle_start_alt frame_simps)
      (simp_all add: start_checked_def start_traced_def)
  let ?n1 = "n\<lparr>dev := can_fw_rx_frame E ?f ?s\<rparr>"
  have "can_wait_reply (bus_sock E) 10000 ?n1 = Some (Ok (fw_code_val FW_CODE_KEYHASH_ERROR, 0), ?n1\<lparr>taken := Suc (taken ?n1)\<rparr>)"
    using t(1) assms(7) by (intro bus_reply [OF assms(1)]) (simp_all add: synced_def)
  then have "upgrade_can (bus_sock E) im beyond test_mode False n =
      Some (EXIT_DEVICE_REJECT, ?n1\<lparr>taken := Suc (taken ?n1)\<rparr>)"
    using assms(2) by (simp add: upgrade_can_def kh can_start_update_def cmd_frame_sent EACCES_def)
  then show ?thesis using t(2,3) by simp
qed

theorem can_upgrade_rejects_wrong_key_witness:
  "\<exists>n'. upgrade_can (bus_sock (hub_can_env demo_can)) (demo_image (replicate 32 0)) [9, 9, 9] True False demo_bus =
      Some (EXIT_DEVICE_REJECT, n') \<and> world (dev n') = (ram_empty, lock_init)"
proof -
  have ne: "demo_key \<noteq> replicate 32 0" by (simp add: demo_key_def upt_rec numeral_eq_Suc)
  have w: "world (dev demo_bus) = (ram_empty, lock_init)"
    by (simp add: demo_bus_def demo_hub_st_def demo_hub_def fw_upgrade_state_init_def can_st_init_def can_fw_add_pre_start_hook_def)
  show ?thesis
    using can_upgrade_rejects_wrong_key [OF demo_link, of "demo_image (replicate 32 0)" "[9, 9, 9]" demo_key demo_bus True]
      demo_bus_fields ne by (auto simp: demo_image_def w)
qed

end
