(* ===== verification/UdpFwProps.thy ===== *)
theory UdpFwProps imports UdpFw UpgradeLock begin

text \<open>
  The UDP upgrade library: its reply buffer and tables, the cross-subnet gate, the contract of the
  offset-checked data frames (locale \<open>offset_receiver\<close>, interpreted on \<open>fw_cmd_data_v2\<close>), the
  conditions of a successful FW_END and the upgrade lock as the hub wires it up.
\<close>

section \<open>Frame lemmas\<close>

lemma udp_fw_reply_simps [frame_simps]:
  "fw_started (udp_fw_reply E c d s) = fw_started s" "fw_size (udp_fw_reply E c d s) = fw_size s"
  "fw_received (udp_fw_reply E c d s) = fw_received s" "u_world (udp_fw_reply E c d s) = u_world s"
  "u_fail_hook (udp_fw_reply E c d s) = u_fail_hook s" "u_start_hook (udp_fw_reply E c d s) = u_start_hook s"
  "u_handlers (udp_fw_reply E c d s) = u_handlers s" "bcast_allowed (udp_fw_reply E c d s) = bcast_allowed s"
  "u_reboot_hooks (udp_fw_reply E c d s) = u_reboot_hooks s" "config_sock (udp_fw_reply E c d s) = config_sock s"
  "remote_addr (udp_fw_reply E c d s) = remote_addr s" "u_rebooted (udp_fw_reply E c d s) = u_rebooted s"
  by (simp_all add: udp_fw_reply_def Let_def)

lemma start_reply_simps [frame_simps]:
  "fw_started (start_reply E c s) = fw_started s" "fw_size (start_reply E c s) = fw_size s"
  "fw_received (start_reply E c s) = fw_received s" "u_world (start_reply E c s) = u_world s"
  "u_fail_hook (start_reply E c s) = u_fail_hook s" "u_start_hook (start_reply E c s) = u_start_hook s"
  "u_handlers (start_reply E c s) = u_handlers s" "bcast_allowed (start_reply E c s) = bcast_allowed s"
  "u_reboot_hooks (start_reply E c s) = u_reboot_hooks s" "config_sock (start_reply E c s) = config_sock s"
  by (simp_all add: start_reply_def frame_simps)

lemma fw_session_fail_simps [frame_simps]:
  "fw_started (fw_session_fail E s) = False" "fw_received (fw_session_fail E s) = fw_received s"
  "u_fail_hook (fw_session_fail E s) = u_fail_hook s" "u_tx (fw_session_fail E s) = u_tx s"
  "u_start_hook (fw_session_fail E s) = u_start_hook s" "fw_size (fw_session_fail E s) = fw_size s"
  "u_handlers (fw_session_fail E s) = u_handlers s" "bcast_allowed (fw_session_fail E s) = bcast_allowed s"
  "u_reboot_hooks (fw_session_fail E s) = u_reboot_hooks s" "config_sock (fw_session_fail E s) = config_sock s"
  "remote_addr (fw_session_fail E s) = remote_addr s"
  by (simp_all add: fw_session_fail_def Let_def split: option.splits)

section \<open>The contract of the data frames\<close>

text \<open>
  A receiver that stores a frame exactly when its offset is the number of bytes stored so far.
  \<open>live\<close> is an open session; \<open>content\<close> the bytes stored.
\<close>

locale offset_receiver =
  fixes recv :: "u32 \<Rightarrow> bytes \<Rightarrow> 's \<Rightarrow> 's"
    and live :: "'s \<Rightarrow> bool"
    and content :: "'s \<Rightarrow> bytes"
  assumes hit: "live s \<Longrightarrow> off = of_nat (length (content s)) \<Longrightarrow> d \<noteq> [] \<Longrightarrow> live (recv off d s) \<Longrightarrow>
      content (recv off d s) = content s @ d"
    and miss: "live s \<Longrightarrow> off \<noteq> of_nat (length (content s)) \<Longrightarrow>
      live (recv off d s) \<and> content (recv off d s) = content s"
    and stays_closed: "\<not> live s \<Longrightarrow> \<not> live (recv off d s)"
begin

text \<open>A frame that is a slice of \<open>data\<close> at the offset it carries.\<close>

definition slice :: "bytes \<Rightarrow> u32 \<times> bytes \<Rightarrow> bool" where
  "slice data fr \<longleftrightarrow> (\<exists>o' n. o' < length data \<and> 0 < n \<and> fst fr = of_nat o' \<and> snd fr = take n (drop o' data))"

definition holds :: "bytes \<Rightarrow> nat \<Rightarrow> 's \<Rightarrow> bool" where
  "holds data k s \<longleftrightarrow> live s \<and> k \<le> length data \<and> content s = take k data"

lemma slice_kept:
  assumes "length data < 2 ^ 32" "holds data k s" "slice data fr" "live (recv (fst fr) (snd fr) s)"
  shows "\<exists>k' \<ge> k. holds data k' (recv (fst fr) (snd fr) s)"
proof -
  from assms(3) obtain o' n where fr: "o' < length data" "0 < n" "fst fr = of_nat o'"
    "snd fr = take n (drop o' data)" by (auto simp: slice_def)
  have c: "length (content s) = k" "k \<le> length data" "content s = take k data" "live s"
    using assms(2) by (auto simp: holds_def)
  show ?thesis
  proof (cases "o' = k")
    case True
    then have "content (recv (fst fr) (snd fr) s) = take k data @ take n (drop k data)"
      using hit [OF c(4), of "fst fr" "snd fr"] assms(4) fr c by auto
    then have "holds data (min (k + n) (length data)) (recv (fst fr) (snd fr) s)"
      using assms(4) by (simp add: holds_def take_add [symmetric] min_def)
    then show ?thesis using c(2) by (intro exI [of _ "min (k + n) (length data)"]) simp
  next
    case False
    then have "fst fr \<noteq> of_nat (length (content s))"
      using c fr(1,3) assms(1) by (simp add: of_nat_u32_inj)
    then have "holds data k (recv (fst fr) (snd fr) s)"
      using miss [OF c(4)] c by (simp add: holds_def)
    then show ?thesis by blast
  qed
qed

lemma slices_kept:
  assumes "length data < 2 ^ 32"
  shows "holds data k s \<Longrightarrow> \<forall>fr \<in> set frs. slice data fr \<Longrightarrow>
    live (fold (\<lambda>fr. recv (fst fr) (snd fr)) frs s) \<Longrightarrow>
    \<exists>k' \<ge> k. holds data k' (fold (\<lambda>fr. recv (fst fr) (snd fr)) frs s)"
proof (induction frs arbitrary: k s)
  case (Cons fr frs)
  have "live (recv (fst fr) (snd fr) s)"
  proof (rule ccontr)
    assume dead: "\<not> live (recv (fst fr) (snd fr) s)"
    have "\<not> live t \<Longrightarrow> \<not> live (fold (\<lambda>fr. recv (fst fr) (snd fr)) frs t)" for t
      by (induction frs arbitrary: t) (auto simp: stays_closed)
    from this [OF dead] show False using Cons.prems(3) by simp
  qed
  from slice_kept [OF assms Cons.prems(1) _ this] obtain k1 where
    "k \<le> k1" "holds data k1 (recv (fst fr) (snd fr) s)" using Cons.prems(2) by auto
  from Cons.IH [OF this(2)] this(1) Cons.prems(2,3) show ?case by (auto intro: le_trans)
qed auto

lemma next_chunk:
  assumes "holds data k s" "k < length data" "0 < n" "live (recv (of_nat k) (take n (drop k data)) s)"
  shows "holds data (min (k + n) (length data)) (recv (of_nat k) (take n (drop k data)) s)"
proof -
  have "length (content s) = k" "content s = take k data" "live s" using assms(1) by (auto simp: holds_def)
  then have "content (recv (of_nat k) (take n (drop k data)) s) = take k data @ take n (drop k data)"
    using hit [of s "of_nat k" "take n (drop k data)"] assms by auto
  then show ?thesis using assms(4) by (simp add: holds_def take_add [symmetric] min_def)
qed

end

section \<open>The device meets it\<close>

definition v2_recv :: "'w udp_env \<Rightarrow> u32 \<Rightarrow> bytes \<Rightarrow> 'w udp_st \<Rightarrow> 'w udp_st" where
  "v2_recv E off d s = fw_cmd_data_v2 E (put_le32 off @ d) s"

definition v2_live :: "'w udp_env \<Rightarrow> ('w \<Rightarrow> bytes) \<Rightarrow> 'w udp_st \<Rightarrow> bool" where
  "v2_live E img s \<longleftrightarrow> flash_img_laws (udp_flash E) img \<and> fw_started s \<and>
     fw_received s = of_nat (length (img (u_world s)))"

lemma v2_recv_miss:
  "get_le32 dat \<noteq> fw_received s \<or> length dat \<le> 4 \<Longrightarrow>
   \<exists>r. fw_cmd_data_v2 E dat s = udp_fw_reply E 6 r s"
  by (auto simp: fw_cmd_data_v2_def Let_def)

lemma v2_recv_closed:
  "\<not> fw_started s \<Longrightarrow> fw_cmd_data_v2 E dat s = udp_fw_reply E 6 (put_le32 0) s"
  by (simp add: fw_cmd_data_v2_def)

lemma v2_recv_hit:
  assumes "fw_started s" "img_write (udp_flash E) d False (u_world s) = (0, w)" "d \<noteq> []"
  shows "v2_recv E (fw_received s) d s = (let n = fw_received s + of_nat (length d) in
     udp_fw_reply E 6 (put_le32 n) (s\<lparr>u_world := w, fw_received := n\<rparr>))"
  using assms by (simp add: v2_recv_def fw_cmd_data_v2_def Let_def)

lemma v2_recv_write_fails:
  assumes "fw_started s" "img_write (udp_flash E) d False (u_world s) = (rc, w)" "rc \<noteq> 0" "d \<noteq> []"
  shows "v2_recv E (fw_received s) d s =
     udp_fw_reply E 6 (put_le32 (fw_received s)) (fw_session_fail E (s\<lparr>u_world := w\<rparr>))"
  using assms by (simp add: v2_recv_def fw_cmd_data_v2_def Let_def frame_simps)

interpretation v2: offset_receiver "v2_recv E" "v2_live E img" "\<lambda>s. img (u_world s)"
  for E :: "'w udp_env" and img
proof
  fix s :: "'w udp_st" and off :: u32 and d :: bytes
  assume l: "v2_live E img s" "off = of_nat (length (img (u_world s)))" "d \<noteq> []" "v2_live E img (v2_recv E off d s)"
  then have off: "off = fw_received s" "fw_started s" "flash_img_laws (udp_flash E) img"
    by (simp_all add: v2_live_def)
  obtain rc w where w: "img_write (udp_flash E) d False (u_world s) = (rc, w)" by fastforce
  have "rc = 0"
  proof (rule ccontr)
    assume "rc \<noteq> 0"
    from v2_recv_write_fails [OF off(2) w this l(3)] l(4) off(1) show False
      by (simp add: v2_live_def frame_simps)
  qed
  with w v2_recv_hit [OF off(2), of E d w] l(3) off
  show "img (u_world (v2_recv E off d s)) = img (u_world s) @ d"
    by (simp add: Let_def frame_simps img_write_ok)
next
  fix s :: "'w udp_st" and off :: u32 and d :: bytes
  assume "v2_live E img s" "off \<noteq> of_nat (length (img (u_world s)))"
  then show "v2_live E img (v2_recv E off d s) \<and> img (u_world (v2_recv E off d s)) = img (u_world s)"
    using v2_recv_miss [of "put_le32 off @ d" s E] by (auto simp: v2_recv_def v2_live_def frame_simps)
next
  fix s :: "'w udp_st" and off :: u32 and d :: bytes
  assume n: "\<not> v2_live E img s"
  show "\<not> v2_live E img (v2_recv E off d s)"
  proof (cases "fw_started s")
    case False
    then show ?thesis by (simp add: v2_recv_def v2_recv_closed v2_live_def frame_simps)
  next
    case True
    show ?thesis
    proof (cases "off = fw_received s \<and> d \<noteq> []")
      case False
      then obtain r where "v2_recv E off d s = udp_fw_reply E 6 r s"
        using v2_recv_miss [of "put_le32 off @ d" s E] by (auto simp: v2_recv_def)
      then show ?thesis using n by (simp add: v2_live_def frame_simps)
    next
      case hit: True
      obtain rc w where w: "img_write (udp_flash E) d False (u_world s) = (rc, w)" by fastforce
      show ?thesis
      proof (cases "rc = 0")
        case False
        with v2_recv_write_fails [OF True w] hit show ?thesis by (simp add: v2_live_def frame_simps)
      next
        case True
        with v2_recv_hit [OF \<open>fw_started s\<close>, of E d w] w hit n show ?thesis
          by (auto simp: v2_live_def Let_def frame_simps img_write_ok)
      qed
    qed
  qed
qed

section \<open>Bounds\<close>

definition udp_inv :: "'w udp_env \<Rightarrow> 'w udp_st \<Rightarrow> bool" where
  "udp_inv E s \<longleftrightarrow> length (u_handlers s) = udp_max_handlers E \<and> length (u_reboot_hooks s) \<le> 4 \<and>
     length (bcast_allowed s) \<le> max_bcast_cmds E \<and>
     list_all (\<lambda>m. 1 \<le> length (snd m) \<and> length (snd m) \<le> 64) (u_tx s)"

lemma udp_inv_reply [simp]: "udp_inv E s \<Longrightarrow> udp_inv E (udp_fw_reply E c d s)"
  by (simp add: udp_inv_def frame_simps) (simp add: udp_fw_reply_def Let_def)

lemma udp_inv_start_reply [simp]: "udp_inv E s \<Longrightarrow> udp_inv E (start_reply E c s)"
  by (simp add: start_reply_def)

lemma udp_inv_fail [simp]: "udp_inv E s \<Longrightarrow> udp_inv E (fw_session_fail E s)"
  by (simp add: udp_inv_def frame_simps)

lemma udp_inv_fields [simp]:
  "udp_inv E (s\<lparr>u_world := w\<rparr>) = udp_inv E s" "udp_inv E (s\<lparr>fw_started := b\<rparr>) = udp_inv E s"
  "udp_inv E (s\<lparr>fw_received := n\<rparr>) = udp_inv E s" "udp_inv E (s\<lparr>fw_size := n\<rparr>) = udp_inv E s"
  "udp_inv E (s\<lparr>remote_addr := a\<rparr>) = udp_inv E s" "udp_inv E (s\<lparr>u_rebooted := b\<rparr>) = udp_inv E s"
  "udp_inv E (s\<lparr>config_sock := i\<rparr>) = udp_inv E s" "udp_inv E (s\<lparr>fw_listening := b\<rparr>) = udp_inv E s"
  "udp_inv E (s\<lparr>rx_running := b\<rparr>) = udp_inv E s" "udp_inv E (s\<lparr>wait_if_up := b\<rparr>) = udp_inv E s"
  "udp_inv E (s\<lparr>u_start_hook := h\<rparr>) = udp_inv E s" "udp_inv E (s\<lparr>u_fail_hook := h\<rparr>) = udp_inv E s"
  by (simp_all add: udp_inv_def)

lemma udp_inv_open: "udp_inv E s \<Longrightarrow> udp_inv E (udp_open_session E s)"
  by (simp add: udp_open_session_def Let_def split: prod.splits)

lemma udp_inv_cmds:
  assumes "udp_inv E s"
  shows "udp_inv E (fw_cmd_start E dat s)" "udp_inv E (fw_cmd_data E dat s)"
    "udp_inv E (fw_cmd_data_v2 E dat s)" "udp_inv E (fw_cmd_end E dat s)"
    "udp_inv E (fw_cmd_get_version E s)" "udp_inv E (fw_cmd_reboot E s)"
  using assms
  by (auto simp: fw_cmd_start_def fw_cmd_data_def fw_cmd_data_v2_def fw_cmd_end_def udp_inv_open
      fw_cmd_get_version_def fw_cmd_reboot_def Let_def split: prod.splits option.splits)

lemma udp_inv_handle: "udp_inv E s \<Longrightarrow> handle_fw_cmd E cmd dat s = Some t \<Longrightarrow> udp_inv E t"
  by (auto simp: handle_fw_cmd_def udp_inv_cmds split: if_splits)

lemma udp_inv_replies: "udp_inv E s \<Longrightarrow> udp_inv E (fold (\<lambda>(c, d). udp_fw_reply E c d) outs s)"
  by (induction outs arbitrary: s) (auto split: prod.splits)

lemma udp_inv_handlers: "udp_inv E s \<Longrightarrow> udp_inv E (snd (run_cmd_handlers E cmd dat hs b s))"
  by (induction E cmd dat hs b s rule: run_cmd_handlers.induct)
     (auto simp: udp_inv_replies split: prod.splits)

lemma udp_inv_rx: "udp_inv E s \<Longrightarrow> udp_inv E (udp_fw_rx E src pkt s)"
  by (auto simp: udp_fw_rx_def Let_def udp_inv_handlers split: list.splits option.splits
      dest: udp_inv_handle [rotated])

lemma udp_inv_setup:
  assumes "udp_inv E s"
  shows "udp_inv E (udp_fw_start E s)" "udp_inv E (if_up_handler E b s)" "udp_inv E (snd (udp_fw_init E s))"
    "udp_inv E (udp_fw_add_pre_reboot_hook hook s)" "udp_inv E (udp_fw_add_pre_start_hook hook s)"
    "udp_inv E (udp_fw_add_fail_hook hook s)" "udp_inv E (udp_fw_set_app_handler cb ud s)"
    "udp_inv E (snd (udp_fw_remove_handler cb s))" "udp_inv E (udp_fw_allow_broadcast_cmd E cmd s)"
  using assms
  by (auto simp: udp_fw_init_def udp_fw_start_def if_up_handler_def Let_def udp_inv_def
      udp_fw_add_pre_reboot_hook_def udp_fw_add_pre_start_hook_def udp_fw_add_fail_hook_def
      udp_fw_set_app_handler_def udp_fw_remove_handler_def udp_fw_allow_broadcast_cmd_def
      UDP_FW_MAX_PRE_REBOOT_HOOKS_def split: option.splits)

lemma udp_step_inv: "udp_step E s t \<Longrightarrow> udp_inv E s \<Longrightarrow> udp_inv E t"
  by (induction rule: udp_step.induct) (auto intro: udp_inv_rx udp_inv_setup)

lemma udp_reach_inv: "udp_reach E w s \<Longrightarrow> udp_inv E s"
proof (induction rule: udp_reach.induct)
  case start
  then show ?case by (simp add: udp_st_init_def udp_inv_def)
qed (rule udp_step_inv)

section \<open>The byte counter and the image\<close>

text \<open>Application callbacks that leave the image writer alone.\<close>

definition udp_app_ok :: "'w udp_env \<Rightarrow> ('w \<Rightarrow> bytes) \<Rightarrow> bool" where
  "udp_app_ok E img \<longleftrightarrow> (\<forall>cb ud c d w. img (snd (snd (run_cmd_handler E cb ud c d w))) = img w) \<and>
     (\<forall>h w. img (run_udp_fail E h w) = img w) \<and> (\<forall>h w. img (run_udp_reboot E h w) = img w)"

definition counter_ok :: "('w \<Rightarrow> bytes) \<Rightarrow> 'w udp_st \<Rightarrow> bool" where
  "counter_ok img s \<longleftrightarrow> (fw_started s \<longrightarrow> fw_received s = of_nat (length (img (u_world s))))"

lemma counter_reply [simp]: "counter_ok img (udp_fw_reply E c d s) = counter_ok img s"
  "counter_ok img (start_reply E st s) = counter_ok img s"
  "counter_ok img (fw_session_fail E s)"
  by (simp_all add: counter_ok_def frame_simps)

lemma counter_open:
  assumes "flash_img_laws (udp_flash E) img"
  shows "counter_ok img (udp_open_session E s)"
  using img_init_ok [OF assms]
  by (auto simp: udp_open_session_def Let_def split: prod.splits) (auto simp: counter_ok_def)

lemma counter_start:
  assumes "flash_img_laws (udp_flash E) img" "counter_ok img s"
  shows "counter_ok img (fw_cmd_start E dat s)"
  using assms counter_open [OF assms(1)]
  by (auto simp: fw_cmd_start_def Let_def split: prod.splits option.splits) (auto simp: counter_ok_def)

lemma counter_data:
  assumes "flash_img_laws (udp_flash E) img" "counter_ok img s"
  shows "counter_ok img (fw_cmd_data E dat s)"
  using assms by (auto simp: fw_cmd_data_def Let_def split: prod.splits)
     (auto simp: counter_ok_def dest: img_write_ok [OF assms(1)])

lemma counter_data_v2:
  assumes "flash_img_laws (udp_flash E) img" "counter_ok img s"
  shows "counter_ok img (fw_cmd_data_v2 E dat s)"
  using assms by (auto simp: fw_cmd_data_v2_def Let_def split: prod.splits)
     (auto simp: counter_ok_def dest: img_write_ok [OF assms(1)])

lemma counter_end:
  assumes "flash_img_laws (udp_flash E) img" "counter_ok img s"
  shows "counter_ok img (fw_cmd_end E dat s)"
  using assms by (auto simp: fw_cmd_end_def Let_def split: prod.splits) (auto simp: counter_ok_def)

lemma counter_handle:
  assumes "flash_img_laws (udp_flash E) img" "udp_app_ok E img" "counter_ok img s"
    "handle_fw_cmd E cmd dat s = Some t"
  shows "counter_ok img t"
proof -
  have "counter_ok img (fw_cmd_reboot E s)"
  proof -
    have "img (fold (run_udp_reboot E) hs w) = img w" for hs w
      using assms(2) by (induction hs arbitrary: w) (auto simp: udp_app_ok_def)
    then show ?thesis using assms(3) by (simp add: fw_cmd_reboot_def Let_def counter_ok_def frame_simps)
  qed
  then show ?thesis
    using assms counter_start counter_data counter_data_v2 counter_end
    by (auto simp: handle_fw_cmd_def fw_cmd_get_version_def split: if_splits)
qed

lemma counter_replies: "counter_ok img (fold (\<lambda>(c, d). udp_fw_reply E c d) outs s) = counter_ok img s"
  by (induction outs arbitrary: s) (auto split: prod.splits)

lemma counter_handlers:
  "udp_app_ok E img \<Longrightarrow> counter_ok img s \<Longrightarrow> counter_ok img (snd (run_cmd_handlers E cmd dat hs b s))"
proof (induction E cmd dat hs b s rule: run_cmd_handlers.induct)
  case (3 E cmd dat cb ud hs b s)
  obtain r outs w where o: "run_cmd_handler E cb ud cmd dat (u_world s) = (r, outs, w)"
    by (metis prod.collapse)
  then have "img w = img (u_world s)" using 3(2) unfolding udp_app_ok_def by (metis snd_conv)
  with 3(3) have "counter_ok img (s\<lparr>u_world := w\<rparr>)" by (simp add: counter_ok_def)
  then show ?case using 3(1) [OF o [symmetric] refl refl 3(2)] o by (simp add: counter_replies)
qed auto

lemma counter_rx:
  assumes "flash_img_laws (udp_flash E) img" "udp_app_ok E img" "counter_ok img s"
  shows "counter_ok img (udp_fw_rx E src pkt s)"
proof -
  have "counter_ok img (s\<lparr>remote_addr := src\<rparr>)" using assms(3) by (simp add: counter_ok_def)
  then show ?thesis
    using assms(3) counter_handle [OF assms(1,2)] counter_handlers [OF assms(2)]
    by (auto simp: udp_fw_rx_def Let_def split: list.splits option.splits)
qed

lemma counter_step:
  assumes "flash_img_laws (udp_flash E) img" "udp_app_ok E img"
  shows "udp_step E s t \<Longrightarrow> counter_ok img s \<Longrightarrow> counter_ok img t"
proof (induction rule: udp_step.induct)
  case (rx s src pkt)
  then show ?case by (intro counter_rx assms)
qed (auto simp: udp_fw_init_def udp_fw_start_def if_up_handler_def Let_def counter_ok_def
      udp_fw_add_pre_reboot_hook_def udp_fw_add_pre_start_hook_def udp_fw_add_fail_hook_def
      udp_fw_set_app_handler_def udp_fw_remove_handler_def udp_fw_allow_broadcast_cmd_def
      split: option.splits)

lemma counter_reach:
  assumes "flash_img_laws (udp_flash E) img" "udp_app_ok E img"
  shows "udp_reach E w s \<Longrightarrow> counter_ok img s"
proof (induction rule: udp_reach.induct)
  case start
  then show ?case by (simp add: udp_st_init_def counter_ok_def)
next
  case (step s t)
  then show ?case using counter_step [OF assms] by blast
qed

text \<open>So an open session is always one of the receiver's live states.\<close>

lemma v2_step_live:
  assumes "flash_img_laws (udp_flash E) img" "v2_live E img r \<or> \<not> fw_started r"
  shows "v2_live E img (v2_recv E a d r) \<or> \<not> fw_started (v2_recv E a d r)"
proof (cases "fw_started r")
  case False
  then show ?thesis by (simp add: v2_recv_def v2_recv_closed frame_simps)
next
  case True
  then have "counter_ok img r" using assms(2) by (simp add: v2_live_def counter_ok_def)
  from counter_data_v2 [OF assms(1) this, of "put_le32 a @ d"] show ?thesis
    using assms(1) by (auto simp: v2_live_def counter_ok_def v2_recv_def)
qed

lemma v2_run_live:
  assumes "flash_img_laws (udp_flash E) img"
  shows "v2_live E img r \<Longrightarrow> v2_live E img (fold (\<lambda>fr. v2_recv E (fst fr) (snd fr)) fs r) \<or>
    \<not> fw_started (fold (\<lambda>fr. v2_recv E (fst fr) (snd fr)) fs r)"
proof -
  have "v2_live E img r \<or> \<not> fw_started r \<Longrightarrow>
      v2_live E img (fold (\<lambda>fr. v2_recv E (fst fr) (snd fr)) fs r) \<or>
      \<not> fw_started (fold (\<lambda>fr. v2_recv E (fst fr) (snd fr)) fs r)"
  proof (induction fs arbitrary: r)
    case (Cons f fs)
    then show ?case using v2_step_live [OF assms Cons.prems] by simp
  qed simp
  then show "v2_live E img r \<Longrightarrow> ?thesis" by blast
qed

section \<open>Reading the image back\<close>

text \<open>The documented function of Zephyr's \<open>crc16_ccitt\<close>: the reflected CCITT polynomial, a running seed.\<close>

definition crc_law :: "'w udp_env \<Rightarrow> bool" where
  "crc_law E \<longleftrightarrow> (\<forall>c d. z_crc16 E c d = foldl crc_ref_step c d)"

lemma crc_loop_image:
  assumes law: "\<And>c d. crc c d = foldl crc_ref_step c d" and len: "length im < 2 ^ 32"
    and rd: "\<And>off n. unat off + n \<le> length im \<Longrightarrow>
      fa_read F Slot1 off n w = (0, take n (drop (unat off) im))"
  shows "off \<le> length im \<Longrightarrow> crc_loop F crc w (length im) off c = Some (foldl crc_ref_step c (drop off im))"
proof (induction "length im - off" arbitrary: off c rule: less_induct)
  case less
  show ?case
  proof (cases "off < length im")
    case True
    define m where "m = (if length im - off < FW_CRC_CHUNK then length im - off else FW_CRC_CHUNK)"
    have u: "unat (of_nat off :: u32) = off" using len True by (intro unat_of_nat_u32) simp
    have m: "0 < m" "off + m \<le> length im" "m \<le> FW_CRC_CHUNK"
      "off + FW_CRC_CHUNK \<le> length im \<Longrightarrow> m = FW_CRC_CHUNK"
      using True by (auto simp: m_def FW_CRC_CHUNK_def)
    have "fa_read F Slot1 (of_nat off) m w = (0, take m (drop off im))"
      using rd [of "of_nat off" m] m(2) by (simp add: u)
    then have st: "crc_loop F crc w (length im) off c =
        crc_loop F crc w (length im) (off + FW_CRC_CHUNK) (foldl crc_ref_step c (take m (drop off im)))"
      using True by (subst crc_loop.simps) (simp add: m_def [symmetric] law)
    show ?thesis
    proof (cases "off + FW_CRC_CHUNK \<le> length im")
      case le: True
      have "length im - (off + FW_CRC_CHUNK) < length im - off"
        using True by (simp add: FW_CRC_CHUNK_def)
      note ih = less.hyps [OF this le, of "foldl crc_ref_step c (take m (drop off im))"]
      have "drop off im = take m (drop off im) @ drop (off + FW_CRC_CHUNK) im"
        using append_take_drop_id [of m "drop off im"] m(4) [OF le] by (simp add: add.commute)
      then have "foldl crc_ref_step c (drop off im) =
          foldl crc_ref_step (foldl crc_ref_step c (take m (drop off im))) (drop (off + FW_CRC_CHUNK) im)"
        by (metis foldl_append)
      then show ?thesis using ih st by simp
    next
      case False
      then have "m = length im - off" using True by (simp add: m_def FW_CRC_CHUNK_def)
      then show ?thesis using st False by (subst (asm) (2) crc_loop.simps) simp
    qed
  next
    case False
    then show ?thesis using less.prems by (subst crc_loop.simps) simp
  qed
qed

lemma fw_verify_crc_image:
  assumes "flash_img_laws (udp_flash E) img" "flash_readback_laws (udp_flash E) img Slot1" "crc_law E"
    "img_write (udp_flash E) [] True w0 = (0, w)" "length (img w) < 2 ^ 32"
    "fa_open (udp_flash E) Slot1 w = 0"
  shows "fw_verify_crc E c w \<longleftrightarrow> crc_ref (img w0) = c"
proof -
  have rb: "img_bytes_written (udp_flash E) w = of_nat (length (img w))"
    "\<And>off n. unat off + n \<le> length (img w) \<Longrightarrow>
        fa_read (udp_flash E) Slot1 off n w = (0, take n (drop (unat off) (img w)))"
    using assms(2,4) unfolding flash_readback_laws_def by blast+
  have "img w = img w0" using img_write_ok [OF assms(1,4)] by simp
  then show ?thesis
    using crc_loop_image [of "z_crc16 E", OF _ assms(5) rb(2), of 0 0] assms(3,5,6)
    by (simp add: fw_verify_crc_def rb(1) unat_of_nat_u32 crc_ref_def crc_law_def)
qed

lemma reply_sent:
  "0 \<le> config_sock s \<Longrightarrow> d \<noteq> [] \<Longrightarrow> length d \<le> 63 \<Longrightarrow>
   u_tx (udp_fw_reply E c d s) = u_tx s @ [((if is_same_subnet E (sin_addr (remote_addr s)) s
      then remote_addr s else \<lparr>sin_addr = INADDR_BROADCAST, sin_port = config_port E + 1\<rparr>), c # d)]"
  by (simp add: udp_fw_reply_def Let_def)

section \<open>The lock\<close>

abbreviation hub_lock_of :: "('f \<times> lock_st) udp_st \<Rightarrow> lock_st" where
  "hub_lock_of s \<equiv> snd (u_world s)"

definition hub_hooked :: "('f \<times> lock_st) udp_st \<Rightarrow> bool" where
  "hub_hooked s \<longleftrightarrow> u_start_hook s = Some 0 \<and> u_fail_hook s = Some 0"

definition session_locked :: "('f \<times> lock_st) udp_st \<Rightarrow> bool" where
  "session_locked s \<longleftrightarrow> hub_hooked s \<and> (fw_started s \<longrightarrow> hub_lock.held CHANNEL_UDP (hub_lock_of s))"

lemma session_locked_reply [simp]:
  "session_locked (udp_fw_reply E c d s) = session_locked s"
  "session_locked (start_reply E st s) = session_locked s"
  "session_locked (s\<lparr>fw_received := n\<rparr>) = session_locked s"
  "session_locked (s\<lparr>fw_size := n\<rparr>) = session_locked s"
  "session_locked (s\<lparr>remote_addr := a\<rparr>) = session_locked s"
  "session_locked (s\<lparr>u_rebooted := b\<rparr>) = session_locked s"
  by (simp_all add: session_locked_def hub_hooked_def frame_simps)

lemma session_locked_fail [simp]: "session_locked (fw_session_fail E s) = hub_hooked s"
  by (simp add: session_locked_def hub_hooked_def frame_simps)

lemma session_locked_close [simp]: "session_locked s \<Longrightarrow> session_locked (s\<lparr>fw_started := False\<rparr>)"
  by (simp add: session_locked_def hub_hooked_def)

lemma session_locked_world [simp]:
  "session_locked (s\<lparr>u_world := w\<rparr>) \<longleftrightarrow>
     hub_hooked s \<and> (fw_started s \<longrightarrow> hub_lock.held CHANNEL_UDP (snd w))"
  "session_locked (s\<lparr>u_world := w, fw_started := b\<rparr>) \<longleftrightarrow> hub_hooked s \<and> (b \<longrightarrow> hub_lock.held CHANNEL_UDP (snd w))"
  "session_locked (s\<lparr>u_world := w, fw_started := b, fw_received := n\<rparr>) \<longleftrightarrow> hub_hooked s \<and> (b \<longrightarrow> hub_lock.held CHANNEL_UDP (snd w))"
  "session_locked (s\<lparr>u_world := w, fw_received := n\<rparr>) \<longleftrightarrow>
     hub_hooked s \<and> (fw_started s \<longrightarrow> hub_lock.held CHANNEL_UDP (snd w))"
  by (simp_all add: session_locked_def hub_hooked_def)

lemma hub_hooked_fields [simp]: "hub_hooked (s\<lparr>u_world := w\<rparr>) = hub_hooked s"
  "hub_hooked (s\<lparr>fw_size := n\<rparr>) = hub_hooked s" "hub_hooked (s\<lparr>fw_received := n\<rparr>) = hub_hooked s"
  "hub_hooked (s\<lparr>fw_started := b\<rparr>) = hub_hooked s"
  by (simp_all add: hub_hooked_def)

lemma hub_udp_simps [simp]:
  "udp_flash (hub_udp_env B) = lift_flash (udp_flash B)"
  "run_udp_start (hub_udp_env B) h w = (fst (fw_pre_start_hook (snd w)), (fst w, snd (fw_pre_start_hook (snd w))))"
  "run_udp_fail (hub_udp_env B) h w = (fst w, fw_fail_hook (snd w))"
  by (simp_all add: hub_udp_env_def split: prod.splits)

lemma locked_open:
  assumes "hub_hooked s" "hub_lock.held CHANNEL_UDP (hub_lock_of s)"
  shows "session_locked (udp_open_session (hub_udp_env B) s)"
  using assms by (simp add: udp_open_session_def Let_def case_prod_beta)

lemma locked_start:
  assumes "session_locked s"
  shows "session_locked (fw_cmd_start (hub_udp_env B) dat s)"
proof (cases "fw_started s \<or> length dat < 4")
  case True
  then show ?thesis using assms by (simp add: fw_cmd_start_def)
next
  case False
  let ?s = "s\<lparr>fw_size := get_le32 dat\<rparr>"
  let ?t = "?s\<lparr>u_world := (fst (u_world s), snd (fw_pre_start_hook (hub_lock_of s)))\<rparr>"
  have h: "hub_hooked ?t" "u_start_hook s = Some 0" using assms by (auto simp: session_locked_def hub_hooked_def)
  have "fst (fw_pre_start_hook (hub_lock_of s)) \<Longrightarrow> hub_lock.held CHANNEL_UDP (hub_lock_of ?t)"
    using hub_lock.try_gives_held by (simp add: fw_pre_start_hook_def)
  then have "fst (fw_pre_start_hook (hub_lock_of s)) \<Longrightarrow> session_locked (udp_open_session (hub_udp_env B) ?t)"
    by (rule locked_open [OF h(1)])
  moreover have "session_locked ?t"
    using False h(1) by (simp add: session_locked_def)
  ultimately show ?thesis using False assms h(2)
    by (simp add: fw_cmd_start_def Let_def)
qed

lemma locked_cmds:
  assumes "session_locked s"
  shows "session_locked (fw_cmd_data (hub_udp_env B) dat s)" "session_locked (fw_cmd_data_v2 (hub_udp_env B) dat s)"
    "session_locked (fw_cmd_end (hub_udp_env B) dat s)" "session_locked (fw_cmd_get_version (hub_udp_env B) s)"
  using assms by (simp_all add: fw_cmd_data_def fw_cmd_data_v2_def fw_cmd_end_def fw_cmd_get_version_def
      Let_def case_prod_beta) (simp_all add: session_locked_def)

lemma hub_reboot_world: "snd (fold (run_udp_reboot (hub_udp_env B)) hs w) = snd w"
  by (induction hs arbitrary: w) (auto simp: hub_udp_env_def split: prod.splits)

lemma locked_reboot: "session_locked s \<Longrightarrow> session_locked (fw_cmd_reboot (hub_udp_env B) s)"
  by (simp add: fw_cmd_reboot_def Let_def hub_reboot_world frame_simps)
     (simp add: session_locked_def hub_hooked_def frame_simps)

lemma locked_handle: "session_locked s \<Longrightarrow> handle_fw_cmd (hub_udp_env B) cmd dat s = Some t \<Longrightarrow> session_locked t"
  by (auto simp: handle_fw_cmd_def locked_start locked_cmds locked_reboot split: if_splits)

text \<open>Callbacks of the application touch neither the lock nor the session.\<close>

definition same_session :: "('f \<times> lock_st) udp_st \<Rightarrow> ('f \<times> lock_st) udp_st \<Rightarrow> bool" where
  "same_session s t \<longleftrightarrow> fw_started t = fw_started s \<and> hub_lock_of t = hub_lock_of s \<and> hub_hooked t = hub_hooked s"

lemma same_session_replies: "same_session s (fold (\<lambda>(c, d). udp_fw_reply E c d) outs s)"
proof (induction outs arbitrary: s)
  case (Cons x outs)
  obtain c d where x: "x = (c, d)" by fastforce
  show ?case using Cons [of "udp_fw_reply E c d s"]
    by (simp add: x same_session_def hub_hooked_def frame_simps)
qed (simp add: same_session_def)

lemma same_session_handlers: "same_session s (snd (run_cmd_handlers (hub_udp_env B) cmd dat hs b s))"
proof (induction "hub_udp_env B" cmd dat hs b s rule: run_cmd_handlers.induct)
  case (3 cmd dat cb ud hs b s)
  obtain r outs w where o: "run_cmd_handler (hub_udp_env B) cb ud cmd dat (u_world s) = (r, outs, w)"
    by (metis prod.collapse)
  then have w: "snd w = hub_lock_of s"
    by (cases "u_world s") (auto simp: hub_udp_env_def Let_def split: prod.splits)
  let ?t = "fold (\<lambda>(c, d). udp_fw_reply (hub_udp_env B) c d) outs (s\<lparr>u_world := w\<rparr>)"
  have "same_session (s\<lparr>u_world := w\<rparr>) ?t" by (rule same_session_replies)
  then have "same_session s ?t" using w by (simp add: same_session_def)
  with 3 [OF o [symmetric] refl refl] o show ?case by (auto simp: same_session_def)
qed (auto simp: same_session_def)

lemma locked_rx:
  assumes "session_locked s"
  shows "session_locked (udp_fw_rx (hub_udp_env B) src pkt s)"
proof (cases "take (rx_buf_len (hub_udp_env B)) pkt")
  case Nil
  show ?thesis using assms unfolding udp_fw_rx_def Nil by simp
next
  case (Cons cmd dat)
  let ?s = "s\<lparr>remote_addr := src\<rparr>"
  have s: "session_locked ?s" using assms by simp
  have h: "session_locked (snd (run_cmd_handlers (hub_udp_env B) cmd dat (u_handlers ?s) False ?s))"
    using same_session_handlers [of ?s B cmd dat "u_handlers ?s" False] s
    by (simp add: same_session_def session_locked_def)
  show ?thesis using Cons s h
    by (auto simp: udp_fw_rx_def Let_def locked_handle [OF s] split: option.splits)
qed

lemma fail_frees:
  assumes "hub_hooked s" "hub_lock.held CHANNEL_UDP (hub_lock_of s)"
  shows "\<not> upgrade_active (hub_lock_of (fw_session_fail (hub_udp_env B) s))"
  using assms by (simp add: fw_session_fail_def hub_hooked_def Let_def fw_fail_hook_def hub_lock.held_def
      fw_upgrade_unlock_def)

section \<open>The hub with its other channels\<close>

datatype hub_event = Datagram sockaddr bytes | Other "fw_upgrade_channel lock_op"

fun hub_event_step :: "'f udp_env \<Rightarrow> hub_event \<Rightarrow> ('f \<times> lock_st) udp_st \<Rightarrow> ('f \<times> lock_st) udp_st" where
  "hub_event_step B (Datagram src pkt) s = udp_fw_rx (hub_udp_env B) src pkt s"
| "hub_event_step B (Other x) s = s\<lparr>u_world := (fst (u_world s), hub_lock.run_op x (hub_lock_of s))\<rparr>"

lemma locked_event:
  assumes "session_locked s" "e \<noteq> Other (Unlock CHANNEL_UDP)"
  shows "session_locked (hub_event_step B e s)"
proof (cases e)
  case (Datagram src pkt)
  then show ?thesis using assms by (simp add: locked_rx)
next
  case (Other x)
  then show ?thesis using assms hub_lock.held_step [of CHANNEL_UDP "hub_lock_of s" x]
    by (auto simp: session_locked_def hub_hooked_def)
qed

lemma locked_events:
  "session_locked s \<Longrightarrow> Other (Unlock CHANNEL_UDP) \<notin> set es \<Longrightarrow> session_locked (fold (hub_event_step B) es s)"
  by (induction es arbitrary: s) (auto simp: locked_event)

text \<open>What closes an open session: a failure, which frees the lock, or an accepted FW_END.\<close>

definition ends_well :: "('f \<times> lock_st) udp_env \<Rightarrow> u8 \<Rightarrow> bytes \<Rightarrow> ('f \<times> lock_st) udp_st \<Rightarrow> bool" where
  "ends_well E cmd dat s \<longleftrightarrow> cmd = udp_cmd_val U_END \<and> 3 \<le> length dat \<and>
     (let w = snd (img_write (udp_flash E) [] True (u_world s)) in
      fw_verify_crc E (get_le16 (drop 1 dat)) w \<and>
      fst (boot_request (udp_flash E) (if dat ! 0 \<noteq> 0 then 0 else 1) w) = 0)"

lemma close_cases:
  assumes l: "session_locked s" and st: "fw_started s"
    and h: "handle_fw_cmd (hub_udp_env B) cmd dat s = Some t" "\<not> fw_started t"
  shows "\<not> upgrade_active (hub_lock_of t) \<or> ends_well (hub_udp_env B) cmd dat s"
proof -
  have hk: "hub_hooked s" "hub_lock.held CHANNEL_UDP (hub_lock_of s)"
    using l st by (simp_all add: session_locked_def)
  have f: "\<not> upgrade_active (hub_lock_of (fw_session_fail (hub_udp_env B)
        (s\<lparr>u_world := snd (img_write (lift_flash F) d fl (u_world s))\<rparr>)))"
    "\<not> upgrade_active (hub_lock_of (fw_session_fail (hub_udp_env B)
        (s\<lparr>u_world := snd (boot_request (lift_flash F) v (snd (img_write (lift_flash F) d fl (u_world s))))\<rparr>)))"
    for F d fl v
    using hk by (intro fail_frees; simp)+
  show ?thesis
    using h st f by (auto simp: handle_fw_cmd_def fw_cmd_start_def fw_cmd_data_def fw_cmd_data_v2_def
      fw_cmd_end_def fw_cmd_get_version_def fw_cmd_reboot_def Let_def case_prod_beta frame_simps
      ends_well_def split: if_splits)
qed

end
