(* ===== verification/UdpFwTheorems.thy ===== *)
theory UdpFwTheorems imports UdpFwProps begin

text \<open>
  The properties of the UDP upgrade library, on its own and as the hub wires it to the upgrade
  lock, each met by \<open>demo_udp\<close>, an in-memory flash on a 10.0.0.0/24 network.
\<close>

section \<open>A concrete session\<close>

definition demo_host :: sockaddr where
  "demo_host = \<lparr>sin_addr = 0x0500000A, sin_port = 40000\<rparr>"

definition demo_udp_st :: "ram_world udp_st" where
  "demo_udp_st = (snd (udp_fw_init demo_udp (udp_st_init demo_udp ram_empty)))\<lparr>remote_addr := demo_host\<rparr>"

lemma demo_udp_simps [simp]:
  "udp_flash demo_udp = ram_flash" "v2_chunk demo_udp = 512" "udp_keyhash demo_udp = Some demo_key"
  "bcast_restrict demo_udp" "local_addr demo_udp w = Some (0x0100000A, 0x00FFFFFF)"
  "run_cmd_handler demo_udp a b c d w = (False, [], w)" "run_udp_fail demo_udp h w = w"
  "run_udp_reboot demo_udp h w = w" "iface_up demo_udp" "sys_socket demo_udp = 3" "sys_bind demo_udp = 0"
  by (simp_all add: demo_udp_def)

lemma demo_udp_st_alt: "demo_udp_st = (udp_st_init demo_udp ram_empty)\<lparr>config_sock := 3, fw_listening := True,
    rx_running := True, remote_addr := demo_host\<rparr>"
  by (simp add: demo_udp_st_def udp_fw_init_def udp_fw_start_def udp_st_init_def Let_def)

lemma demo_app_ok: "udp_app_ok demo_udp ram_img" "crc_law demo_udp"
  by (simp_all add: udp_app_ok_def crc_law_def demo_udp_def)

definition v2_pkt :: "u32 \<Rightarrow> bytes \<Rightarrow> bytes" where
  "v2_pkt off d = 6 # put_le32 off @ d"

definition start_pkt :: "u32 \<Rightarrow> bytes" where
  "start_pkt n = 1 # put_le32 n"

section \<open>Properties\<close>

text \<open>
  C7. In every state the UDP library can reach, for any datagrams, commands and registrations, no
  table overflows and every reply it sends has between 1 and 64 bytes, the size of its buffer.
\<close>
theorem udp_reachable_bounds:
  assumes "udp_reach E w s"
  shows "length (u_handlers s) = udp_max_handlers E \<and> length (u_reboot_hooks s) \<le> 4 \<and>
    length (bcast_allowed s) \<le> max_bcast_cmds E \<and>
    list_all (\<lambda>m. 1 \<le> length (snd m) \<and> length (snd m) \<le> 64) (u_tx s)"
  using udp_reach_inv [OF assms] by (simp add: udp_inv_def)

lemma demo_reach: "udp_reach demo_udp ram_empty (udp_fw_rx demo_udp demo_host (start_pkt 100)
    (snd (udp_fw_init demo_udp (udp_st_init demo_udp ram_empty))))"
proof -
  let ?s = "snd (udp_fw_init demo_udp (udp_st_init demo_udp ram_empty))"
  have "udp_reach demo_udp ram_empty ?s" by (rule udp_reach.step [OF udp_reach.start udp_step.boot])
  moreover have "rx_running ?s" by (simp add: udp_fw_init_def udp_fw_start_def udp_st_init_def Let_def)
  ultimately show ?thesis by (intro udp_reach.step [OF _ udp_step.rx])
qed

theorem udp_reachable_bounds_witness:
  "length (u_handlers (udp_fw_rx demo_udp demo_host (start_pkt 100)
     (snd (udp_fw_init demo_udp (udp_st_init demo_udp ram_empty))))) = 4"
  using udp_reachable_bounds [OF demo_reach] by (simp add: demo_udp_def)

text \<open>
  The offset the device reports to the host is truthful in every reachable state: while a
  session is open, \<open>fw_received\<close> is the number of bytes the image writer has accepted since the
  session was started (modulo the width of the counter), whatever was lost, repeated or refused.
\<close>
theorem udp_counter_is_image_length:
  assumes "flash_img_laws (udp_flash E) img" and "udp_app_ok E img" and "udp_reach E w s" and "fw_started s"
  shows "fw_received s = of_nat (length (img (u_world s)))"
  using counter_reach [OF assms(1-3)] assms(4) by (simp add: counter_ok_def)

theorem udp_counter_is_image_length_witness:
  "fw_received (udp_fw_rx demo_udp demo_host (start_pkt 100)
     (snd (udp_fw_init demo_udp (udp_st_init demo_udp ram_empty)))) = 0"
proof -
  have l: "flash_img_laws (udp_flash demo_udp) ram_img" by (simp add: ram_flash_laws)
  let ?s = "udp_fw_rx demo_udp demo_host (start_pkt 100) (snd (udp_fw_init demo_udp (udp_st_init demo_udp ram_empty)))"
  have s: "fw_started ?s \<and> ram_img (u_world ?s) = []"
    by (simp add: udp_fw_init_def udp_fw_start_def udp_st_init_def Let_def udp_fw_rx_def start_pkt_def
        rx_buf_len_def put_le32_def is_same_subnet_def demo_host_def handle_fw_cmd_def fw_cmd_start_def
        udp_open_session_def frame_simps)
  show ?thesis using udp_counter_is_image_length [OF l demo_app_ok(1) demo_reach] s by simp
qed

text \<open>
  Offset-checked transfer: after START, whatever sequence of data frames arrives - lost,
  repeated, reordered slices of one image - as long as the session is still open the device holds
  a prefix of that image and its counter is the prefix length; so a counter equal to the image
  size means the whole image is there.
\<close>
theorem v2_transfer_is_prefix:
  assumes "flash_img_laws (udp_flash E) img" and "fw_started s" and "fw_received s = 0"
    and "img (u_world s) = []" and "length data < 2 ^ 32"
    and "list_all (\<lambda>(o', n). o' < length data \<and> 0 < n) frs"
    and "fw_started (fold (\<lambda>(o', n). fw_cmd_data_v2 E (put_le32 (of_nat o') @ take n (drop o' data))) frs s)"
  shows "\<exists>k \<le> length data. let t = fold (\<lambda>(o', n). fw_cmd_data_v2 E (put_le32 (of_nat o') @ take n (drop o' data))) frs s in
    img (u_world t) = take k data \<and> fw_received t = of_nat k \<and>
    (fw_received t = of_nat (length data) \<longleftrightarrow> img (u_world t) = data)"
proof -
  let ?fr = "map (\<lambda>(o', n). (of_nat o' :: u32, take n (drop o' data))) frs"
  let ?t = "fold (\<lambda>(o', n). fw_cmd_data_v2 E (put_le32 (of_nat o') @ take n (drop o' data))) frs s"
  have t: "?t = fold (\<lambda>fr. v2_recv E (fst fr) (snd fr)) ?fr s"
  proof -
    have "(\<lambda>(o', n). fw_cmd_data_v2 E (put_le32 (of_nat o') @ take n (drop o' data))) =
        (\<lambda>fr. v2_recv E (fst fr) (snd fr)) \<circ> (\<lambda>(o', n). (of_nat o' :: u32, take n (drop o' data)))"
      by (intro ext) (simp add: v2_recv_def case_prod_beta)
    then show ?thesis by (simp only: fold_map)
  qed
  have sl: "\<forall>fr \<in> set ?fr. v2.slice data fr"
  proof
    fix f assume "f \<in> set ?fr"
    then obtain a b where f: "(a, b) \<in> set frs" "f = (of_nat a, take b (drop a data))" by auto
    then have "a < length data" "0 < b" using assms(6) by (auto simp: list_all_iff)
    then show "v2.slice data f" unfolding v2.slice_def f(2) by (intro exI [of _ a] exI [of _ b]) simp
  qed
  have h: "v2.holds E img data 0 s" using assms(1-4) by (simp add: v2.holds_def v2_live_def)
  have "v2_live E img s" using assms(1-4) by (simp add: v2_live_def)
  then have "v2_live E img ?t" using v2_run_live [OF assms(1), of s ?fr] assms(7) t by auto
  from v2.slices_kept [OF assms(5) h sl this [unfolded t]] obtain k where "v2.holds E img data k ?t"
    unfolding t by blast
  then show ?thesis using assms(5)
    by (auto simp: v2.holds_def v2_live_def Let_def of_nat_u32_inj intro!: exI [of _ k])
qed

lemma demo_v2_started: "fw_started (fw_cmd_data_v2 demo_udp dat s) = fw_started s"
  by (simp add: fw_cmd_data_v2_def Let_def frame_simps)

theorem v2_transfer_is_prefix_witness:
  "\<exists>k \<le> length [7, 8, 9 :: u8]. let t = fold (\<lambda>(o', n). fw_cmd_data_v2 demo_udp (put_le32 (of_nat o') @ take n (drop o' [7, 8, 9])))
      [(2, 5), (0, 2), (0, 2)] (demo_udp_st\<lparr>fw_started := True\<rparr>) in
    ram_img (u_world t) = take k [7, 8, 9] \<and> fw_received t = of_nat k \<and>
    (fw_received t = of_nat (length [7, 8, 9 :: u8]) \<longleftrightarrow> ram_img (u_world t) = [7, 8, 9])"
proof -
  have l: "flash_img_laws (udp_flash demo_udp) ram_img" by (simp add: ram_flash_laws)
  let ?s = "demo_udp_st\<lparr>fw_started := True\<rparr>"
  have s: "fw_started ?s" "fw_received ?s = 0" "ram_img (u_world ?s) = []" "length [7, 8, 9 :: u8] < 2 ^ 32"
    "list_all (\<lambda>(o', n). o' < length [7, 8, 9 :: u8] \<and> 0 < n) [(2, 5), (0, 2), (0, 2 :: nat)]"
    by (simp_all add: demo_udp_st_alt udp_st_init_def ram_empty_def)
  have f: "fw_started (fold (\<lambda>(o', n). fw_cmd_data_v2 demo_udp (put_le32 (of_nat o') @ take n (drop o' [7, 8, 9])))
      [(2, 5), (0, 2), (0, 2)] ?s)"
    by (simp add: demo_v2_started)
  show ?thesis by (rule v2_transfer_is_prefix [OF l s f])
qed

text \<open>
  FW_END accepts exactly when the CRC of the image read back from the slot is the one the host
  computed (the bit-serial CCITT reference over the whole image) and the boot request succeeds; it
  closes the session either way and answers with one byte.
\<close>
theorem fw_end_accepted_iff:
  assumes "flash_img_laws (udp_flash E) img" and "flash_readback_laws (udp_flash E) img Slot1"
    and "crc_law E" and "img_write (udp_flash E) [] True (u_world s) = (0, w)"
    and "length (img w) < 2 ^ 32" and "fa_open (udp_flash E) Slot1 w = 0"
    and "fw_started s" and "3 \<le> length dat" and "0 \<le> config_sock s"
  shows "snd (last (u_tx (fw_cmd_end E dat s))) =
      [3, if get_le16 (drop 1 dat) = crc_ref (img (u_world s)) \<and>
             fst (boot_request (udp_flash E) (if dat ! 0 \<noteq> 0 then 0 else 1) w) = 0 then 1 else 0] \<and>
    \<not> fw_started (fw_cmd_end E dat s)"
  using fw_verify_crc_image [OF assms(1-6)] assms(4,7-9)
  by (auto simp: fw_cmd_end_def Let_def reply_sent frame_simps split: prod.splits)

theorem fw_end_accepted_iff_witness:
  "snd (last (u_tx (fw_cmd_end demo_udp (0 # put_le16 (crc_ref [1, 2, 3]))
     (demo_udp_st\<lparr>fw_started := True, u_world := ram_empty\<lparr>ram_img := [1, 2, 3]\<rparr>\<rparr>)))) = [3, 1]"
proof -
  have l: "flash_img_laws (udp_flash demo_udp) ram_img" "flash_readback_laws (udp_flash demo_udp) ram_img Slot1"
    by (simp_all add: ram_flash_laws ram_flash_readback)
  let ?s = "demo_udp_st\<lparr>fw_started := True, u_world := ram_empty\<lparr>ram_img := [1, 2, 3]\<rparr>\<rparr>"
  show ?thesis
    using fw_end_accepted_iff [OF l demo_app_ok(2), of ?s "ram_empty\<lparr>ram_img := [1, 2, 3]\<rparr>" "0 # put_le16 (crc_ref [1, 2, 3])"]
    by (simp add: demo_udp_st_alt udp_st_init_def)
qed

text \<open>
  In the hub an open UDP session always owns the upgrade lock: whatever datagrams arrive and
  whatever the CAN and WebSocket paths do (any requests, and releases of their own), while a
  session is open the lock is taken in its name, so no other channel can start writing the slot.
\<close>
theorem hub_session_holds_lock:
  assumes "hub_hooked s" and "\<not> fw_started s" and "Other (Unlock CHANNEL_UDP) \<notin> set es"
    and "fw_started (fold (hub_event_step B) es s)"
  shows "fw_upgrade_is_active (hub_lock_of (fold (hub_event_step B) es s)) \<and>
    \<not> fst (fw_upgrade_try_lock c (hub_lock_of (fold (hub_event_step B) es s)))"
proof -
  have "session_locked s" using assms(1,2) by (simp add: session_locked_def)
  from locked_events [OF this assms(3)] assms(4)
  have "hub_lock.held CHANNEL_UDP (hub_lock_of (fold (hub_event_step B) es s))"
    by (simp add: session_locked_def)
  then show ?thesis
    using hub_lock.held_excludes [of CHANNEL_UDP _ "[]" c] by (simp add: hub_lock.held_def)
qed

definition demo_hub_udp :: "(ram_world \<times> lock_st) udp_st" where
  "demo_hub_udp = snd (udp_fw_init (hub_udp_env demo_udp) (fst demo_hub))"

lemma demo_hub_udp_started: "fw_started (udp_fw_rx (hub_udp_env demo_udp) demo_host (start_pkt 100) demo_hub_udp)"
  "hub_hooked demo_hub_udp" "\<not> fw_started demo_hub_udp"
  by (simp_all add: demo_hub_udp_def demo_hub_def fw_upgrade_state_init_def udp_st_init_def udp_fw_init_def
      udp_fw_start_def Let_def hub_udp_env_def udp_fw_add_fail_hook_def udp_fw_add_pre_start_hook_def
      udp_fw_rx_def rx_buf_len_def start_pkt_def put_le32_def is_same_subnet_def demo_host_def
      handle_fw_cmd_def fw_cmd_start_def udp_open_session_def fw_pre_start_hook_def
      fw_upgrade_try_lock_def lock_init_def lift_flash_def frame_simps hub_hooked_def)

lemma demo_hub_udp_img: "u_world (udp_fw_rx (hub_udp_env demo_udp) demo_host (start_pkt 100) demo_hub_udp) =
    (ram_empty, \<lparr>current_channel = CHANNEL_UDP, upgrade_active = True\<rparr>)"
  by (simp add: demo_hub_udp_def demo_hub_def fw_upgrade_state_init_def udp_st_init_def udp_fw_init_def
      udp_fw_start_def Let_def hub_udp_env_def udp_fw_add_fail_hook_def udp_fw_add_pre_start_hook_def
      udp_fw_rx_def rx_buf_len_def start_pkt_def put_le32_def is_same_subnet_def demo_host_def
      handle_fw_cmd_def fw_cmd_start_def udp_open_session_def fw_pre_start_hook_def
      fw_upgrade_try_lock_def lock_init_def lift_flash_def frame_simps hub_hooked_def ram_empty_def)

theorem hub_session_holds_lock_witness:
  "\<not> fst (fw_upgrade_try_lock CHANNEL_CAN (hub_lock_of (fold (hub_event_step demo_udp)
     [Datagram demo_host (start_pkt 100)] demo_hub_udp)))"
  using hub_session_holds_lock [OF demo_hub_udp_started(2,3), of "[Datagram demo_host (start_pkt 100)]" demo_udp CHANNEL_CAN]
    demo_hub_udp_started(1) by simp

text \<open>
  A UDP session never ends with the lock stuck: a command that closes an open session either
  releases the lock or is the FW_END that verified the image and got its boot request accepted
  (then the lock is kept until the reboot on purpose).
\<close>
theorem hub_failure_releases_lock:
  assumes "session_locked s" and "fw_started s"
    and "handle_fw_cmd (hub_udp_env B) cmd dat s = Some t" and "\<not> fw_started t"
  shows "\<not> fw_upgrade_is_active (hub_lock_of t) \<or> ends_well (hub_udp_env B) cmd dat s"
  using close_cases [OF assms] by (simp add: fw_upgrade_is_active_def)

theorem hub_failure_releases_lock_witness:
  "\<not> fw_upgrade_is_active (hub_lock_of (the (handle_fw_cmd (hub_udp_env demo_udp) 3 [0, 1, 0]
     (udp_fw_rx (hub_udp_env demo_udp) demo_host (start_pkt 100) demo_hub_udp))))"
proof -
  let ?s = "udp_fw_rx (hub_udp_env demo_udp) demo_host (start_pkt 100) demo_hub_udp"
  have "session_locked demo_hub_udp" using demo_hub_udp_started(2,3) by (simp add: session_locked_def)
  then have l: "session_locked ?s" by (rule locked_rx)
  let ?t = "fw_cmd_end (hub_udp_env demo_udp) [0, 1, 0] ?s"
  have h: "handle_fw_cmd (hub_udp_env demo_udp) 3 [0, 1, 0] ?s = Some ?t" by (simp add: handle_fw_cmd_def)
  have bad: "\<not> fw_verify_crc (hub_udp_env demo_udp) (get_le16 [1, 0])
      (snd (img_write (lift_flash ram_flash) [] True (u_world ?s)))"
  proof -
    have "crc_loop F z w 0 0 0 = Some 0" for F :: "(ram_world \<times> lock_st) flash_api" and z w by (subst crc_loop.simps) simp
    then show ?thesis
      by (simp add: demo_hub_udp_img fw_verify_crc_def lift_flash_def get_le16_def le16_def ram_flash_def ram_empty_def)
  qed
  have cl: "\<not> fw_started ?t"
    using demo_hub_udp_started(1) by (simp add: fw_cmd_end_def Let_def frame_simps case_prod_beta)
  show ?thesis
    using hub_failure_releases_lock [OF l demo_hub_udp_started(1) h cl] bad h by (simp add: ends_well_def Let_def)
qed

end
