(* ===== verification/HostUdp.thy ===== *)
theory HostUdp imports HostCan UdpFwTheorems begin

text \<open>
  The UDP side of the host tool, \<open>tools/firmware_upgrade/firmware_upgrade.c\<close>: request and reply,
  the windowed go-back-N transfer and the upgrade session.  The socket and the clock are a record
  of functions over a network state \<open>'n\<close>; the two loops that wait for the network are
  \<open>partial_function\<close>s, \<open>None\<close> meaning that they do not return.
\<close>

section \<open>The socket\<close>

record 'n udp_sock =
  us_send :: "bytes \<Rightarrow> 'n \<Rightarrow> unit io \<times> 'n"
  us_settimeo :: "int \<Rightarrow> 'n \<Rightarrow> unit io \<times> 'n"
  us_recv :: "int \<Rightarrow> 'n \<Rightarrow> bytes io \<times> 'n"
  us_now :: "'n \<Rightarrow> int"

definition EINTR :: int where "EINTR = 4"
definition UDP_TIMEOUT_MS :: int where "UDP_TIMEOUT_MS = 2000"
definition UDP_FW_START_TIMEOUT_MS :: int where "UDP_FW_START_TIMEOUT_MS = 5000"
definition UDP_FW_END_TIMEOUT_MS :: int where "UDP_FW_END_TIMEOUT_MS = 10000"
definition UDP_CHUNK_SIZE :: nat where "UDP_CHUNK_SIZE = 511"
definition UDP_CHUNK_SIZE_V2_MAX :: nat where "UDP_CHUNK_SIZE_V2_MAX = 1400"
definition UDP_FW_WINDOW :: nat where "UDP_FW_WINDOW = 8"
definition UDP_FW_V2_ACK_TIMEOUT_MS :: int where "UDP_FW_V2_ACK_TIMEOUT_MS = 1000"
definition UDP_FW_V2_MAX_RETRIES :: nat where "UDP_FW_V2_MAX_RETRIES = 8"

section \<open>Request and reply\<close>

definition udp_send_recv :: "'n udp_sock \<Rightarrow> u8 \<Rightarrow> bytes \<Rightarrow> nat \<Rightarrow> int \<Rightarrow> 'n \<Rightarrow> bytes io \<times> 'n" where
  "udp_send_recv K cmd pl max_reply tmo n =
     (if length pl > 512 then (Errno EINVAL, n)
      else case us_settimeo K tmo n of (Errno e, n) \<Rightarrow> (Errno e, n)
      | (Ok _, n) \<Rightarrow>
          case us_send K (cmd # pl) n of (Errno e, n) \<Rightarrow> (Errno e, n)
          | (Ok _, n) \<Rightarrow>
              case us_recv K tmo n of (Errno e, n) \<Rightarrow> (Errno e, n)
              | (Ok r, n) \<Rightarrow>
                  (let reply = take max_reply r in
                   if reply = [] \<or> hd reply \<noteq> cmd then (Errno EIO, n) else (Ok reply, n)))"

section \<open>The windowed transfer\<close>

text \<open>Sending the window \<open>[w, win_end)\<close>; a chunk size of 0 would never finish.\<close>

definition v2_frame :: "nat \<Rightarrow> bytes \<Rightarrow> bytes" where
  "v2_frame w d = 6 # wr_le32 (of_nat w) @ d"

partial_function (option) send_window ::
  "'n udp_sock \<Rightarrow> bytes \<Rightarrow> nat \<Rightarrow> nat \<Rightarrow> nat \<Rightarrow> 'n \<Rightarrow> (int \<times> 'n) option" where
  "send_window K data chunk win_end w n =
     (if w < win_end then
        let m = (if win_end - w > chunk then chunk else win_end - w) in
        case us_send K (v2_frame w (take m (drop w data))) n of
          (Errno e, n) \<Rightarrow> Some (- e, n)
        | (Ok _, n) \<Rightarrow> send_window K data chunk win_end (w + m) n
      else Some (0, n))"

text \<open>Collecting acknowledgements: the confirmed offset and the stall counter, or an error.\<close>

partial_function (option) ack_loop ::
  "'n udp_sock \<Rightarrow> nat \<Rightarrow> nat \<Rightarrow> int \<Rightarrow> nat \<Rightarrow> nat \<Rightarrow> 'n \<Rightarrow> ((int + nat \<times> nat) \<times> 'n) option" where
  "ack_loop K img_size win_end deadline confirmed retries n =
     (if confirmed < win_end then
        let remain = deadline - us_now K n in
        if remain \<le> 0 then Some (Inr (confirmed, retries), n)
        else case us_settimeo K remain n of (Errno e, n) \<Rightarrow> Some (Inl (- e), n)
        | (Ok _, n) \<Rightarrow>
            case us_recv K remain n of
              (Errno e, n) \<Rightarrow>
                if e = EAGAIN \<or> e = EINTR then Some (Inr (confirmed, retries), n) else Some (Inl (- e), n)
            | (Ok r, n) \<Rightarrow>
                (let r = take 64 r; roff = unat (get_le32 (drop 1 r)) in
                 if 5 \<le> length r \<and> hd r = 6 \<and> roff > confirmed
                 then ack_loop K img_size win_end deadline (if roff > img_size then img_size else roff) 0 n
                 else ack_loop K img_size win_end deadline confirmed retries n)
      else Some (Inr (confirmed, retries), n))"

partial_function (option) udp_fw_data_v2_stream ::
  "'n udp_sock \<Rightarrow> bytes \<Rightarrow> nat \<Rightarrow> nat \<Rightarrow> nat \<Rightarrow> 'n \<Rightarrow> (int \<times> 'n) option" where
  "udp_fw_data_v2_stream K data chunk off retries n =
     (if off < length data then
        let win_end = (if off + UDP_FW_WINDOW * chunk > length data then length data
                       else off + UDP_FW_WINDOW * chunk) in
        Option.bind (send_window K data chunk win_end off n) (\<lambda>(rc, n).
          if rc < 0 then Some (rc, n)
          else
            Option.bind (ack_loop K (length data) win_end (us_now K n + UDP_FW_V2_ACK_TIMEOUT_MS) off retries n)
              (\<lambda>(r, n). case r of Inl rc \<Rightarrow> Some (rc, n)
                | Inr (confirmed, retries) \<Rightarrow>
                    if confirmed \<ge> win_end then udp_fw_data_v2_stream K data chunk confirmed retries n
                    else if retries + 1 > UDP_FW_V2_MAX_RETRIES then Some (- ETIMEDOUT, n)
                    else udp_fw_data_v2_stream K data chunk confirmed (retries + 1) n))
      else Some (0, n))"

section \<open>The session\<close>

text \<open>The stop-and-wait transfer for devices that do not announce a chunk size.\<close>

function udp_stop_and_wait :: "'n udp_sock \<Rightarrow> bytes \<Rightarrow> nat \<Rightarrow> 'n \<Rightarrow> bool \<times> 'n" where
  "udp_stop_and_wait K data off n =
     (if off < length data then
        let chunk = (if length data - off > UDP_CHUNK_SIZE then UDP_CHUNK_SIZE else length data - off) in
        case udp_send_recv K 2 (take chunk (drop off data)) 64 UDP_TIMEOUT_MS n of
          (Errno e, n) \<Rightarrow> (False, n)
        | (Ok reply, n) \<Rightarrow>
            if length reply < 5 then (False, n) else udp_stop_and_wait K data (off + chunk) n
      else (True, n))"
  by pat_completeness auto
termination
  by (relation "measure (\<lambda>(K, data, off, n). length data - off)") (auto simp: UDP_CHUNK_SIZE_def)

declare udp_stop_and_wait.simps [simp del]

definition udp_get_version :: "'n udp_sock \<Rightarrow> nat \<Rightarrow> 'n \<Rightarrow> (int + bytes) \<times> 'n" where
  "udp_get_version K out_cap n =
     (case udp_send_recv K 4 [] 128 UDP_TIMEOUT_MS n of
        (Errno e, n) \<Rightarrow> (Inl EXIT_COMM_ERR, n)
      | (Ok reply, n) \<Rightarrow>
          if length reply < 2 then (Inl EXIT_COMM_ERR, n)
          else (Inr (take (min (length reply - 1) (out_cap - 1)) (drop 1 reply)), n))"

text \<open>What the START reply announces: the size of a data frame, 0 from an old device.\<close>

definition announced_chunk :: "bytes \<Rightarrow> nat" where
  "announced_chunk reply =
     (let c = (if 4 \<le> length reply then unat (le16 (reply ! 2) (reply ! 3)) else 0) in
      if c > UDP_CHUNK_SIZE_V2_MAX then UDP_CHUNK_SIZE_V2_MAX else c)"

definition udp_finish :: "'n udp_sock \<Rightarrow> bytes \<Rightarrow> bool \<Rightarrow> 'n \<Rightarrow> int \<times> 'n" where
  "udp_finish K data test_mode n =
     (case udp_send_recv K 3 ((if test_mode then 1 else 0) # wr_le16 (crc16_ccitt data)) 64 UDP_FW_END_TIMEOUT_MS n of
        (Errno e, n) \<Rightarrow> (EXIT_COMM_ERR, n)
      | (Ok reply, n) \<Rightarrow>
          if length reply < 2 \<or> reply ! 1 \<noteq> 1 then (EXIT_DEVICE_REJECT, n)
          else (EXIT_OK, snd (udp_send_recv K 5 [] 64 UDP_TIMEOUT_MS n)))"

definition upgrade_udp :: "'n udp_sock \<Rightarrow> fw_image \<Rightarrow> bool \<Rightarrow> bool \<Rightarrow> 'n \<Rightarrow> (int \<times> 'n) option" where
  "upgrade_udp K im test_mode no_keyhash n =
     (let pl = wr_le32 (of_nat (length (img_data im))) @
               (if \<not> no_keyhash \<and> has_keyhash im then img_keyhash im else []) in
      case udp_send_recv K 1 pl 64 UDP_FW_START_TIMEOUT_MS n of
        (Errno e, n) \<Rightarrow> Some (EXIT_COMM_ERR, n)
      | (Ok reply, n) \<Rightarrow>
          if length reply < 2 then Some (EXIT_COMM_ERR, n)
          else if reply ! 1 \<noteq> 1 then Some (EXIT_DEVICE_REJECT, n)
          else if announced_chunk reply \<ge> 512 then
            Option.bind (udp_fw_data_v2_stream K (img_data im) (announced_chunk reply) 0 0 n) (\<lambda>(rc, n).
              if rc < 0 then Some (EXIT_COMM_ERR, n) else Some (udp_finish K (img_data im) test_mode n))
          else
            (case udp_stop_and_wait K (img_data im) 0 n of
               (False, n) \<Rightarrow> Some (EXIT_COMM_ERR, n)
             | (True, n) \<Rightarrow> Some (udp_finish K (img_data im) test_mode n)))"

section \<open>A network that may do anything to datagrams\<close>

text \<open>
  The network holds every datagram the host has sent and a script.  At each receive call the
  script delivers any of them to the device - none, some, in any order, again - and hands the host
  any reply the device has sent since the socket was opened, or lets the call time out.
\<close>

record 'w net =
  ndev :: "'w udp_st"
  nsent :: "bytes list"
  nbase :: nat
  ntime :: int
  nscript :: "(nat list \<times> nat option) list"

definition net_deliver :: "'w udp_env \<Rightarrow> sockaddr \<Rightarrow> bytes list \<Rightarrow> nat list \<Rightarrow> 'w udp_st \<Rightarrow> 'w udp_st" where
  "net_deliver E host sent is d =
     fold (\<lambda>i. if i < length sent then udp_fw_rx E host (sent ! i) else (\<lambda>d. d)) is d"

definition net_recv :: "'w udp_env \<Rightarrow> sockaddr \<Rightarrow> int \<Rightarrow> 'w net \<Rightarrow> bytes io \<times> 'w net" where
  "net_recv E host tmo n =
     (case nscript n of
        [] \<Rightarrow> (Errno EAGAIN, n\<lparr>ntime := ntime n + tmo\<rparr>)
      | (is, r) # sc \<Rightarrow>
          let d = net_deliver E host (nsent n) is (ndev n);
              n = n\<lparr>ndev := d, nscript := sc, ntime := ntime n + 1\<rparr> in
          case r of None \<Rightarrow> (Errno EAGAIN, n)
          | Some j \<Rightarrow> if nbase n + j < length (u_tx d) then (Ok (snd (u_tx d ! (nbase n + j))), n)
                    else (Errno EAGAIN, n))"

definition net_sock :: "'w udp_env \<Rightarrow> sockaddr \<Rightarrow> 'w net udp_sock" where
  "net_sock E host = \<lparr> us_send = (\<lambda>f n. (Ok (), n\<lparr>nsent := nsent n @ [f]\<rparr>)),
     us_settimeo = (\<lambda>_ n. (Ok (), n)), us_recv = net_recv E host, us_now = ntime \<rparr>"

end
