(* ===== verification/UdpStream.thy ===== *)
theory UdpStream imports HostUdp begin

text \<open>
  The windowed UDP transfer against the device over a network that may lose, repeat, delay and
  reorder datagrams in both directions: it always ends, and when it reports success the device has
  the whole image.
\<close>

section \<open>One datagram at the device\<close>

definition good_frame :: "bytes \<Rightarrow> nat \<Rightarrow> bytes \<Rightarrow> bool" where
  "good_frame data chunk f \<longleftrightarrow>
     (\<exists>o' m. o' < length data \<and> 0 < m \<and> m \<le> chunk \<and> f = v2_frame o' (take m (drop o' data)))"

text \<open>Every data reply of the device since the socket was opened carries an offset of at most \<open>k\<close>.\<close>

definition acks_le :: "nat \<Rightarrow> nat \<Rightarrow> 'w udp_st \<Rightarrow> bool" where
  "acks_le base k d \<longleftrightarrow> (\<forall>m \<in> set (drop base (u_tx d)).
     5 \<le> length (snd m) \<and> hd (snd m) = 6 \<longrightarrow> unat (get_le32 (drop 1 (snd m))) \<le> k)"

text \<open>\<open>conf\<close> bytes are safely at the device: it holds \<open>k \<ge> conf\<close> of them, or has given up short of the end.\<close>

definition dev_ok :: "'w udp_env \<Rightarrow> ('w \<Rightarrow> bytes) \<Rightarrow> bytes \<Rightarrow> nat \<Rightarrow> nat \<Rightarrow> 'w udp_st \<Rightarrow> bool" where
  "dev_ok E img data base conf d \<longleftrightarrow> base \<le> length (u_tx d) \<and>
     (\<exists>k. conf \<le> k \<and> acks_le base k d \<and>
       (v2.holds E img data k d \<or> \<not> fw_started d \<and> k < length data))"

lemma acks_mono: "acks_le base k d \<Longrightarrow> k \<le> k' \<Longrightarrow> acks_le base k' d"
  unfolding acks_le_def by (meson le_trans)

lemma acks_reply:
  assumes "acks_le base k d" "base \<le> length (u_tx d)" "unat r \<le> k"
  shows "acks_le base k (udp_fw_reply E 6 (put_le32 r) d)"
    "base \<le> length (u_tx (udp_fw_reply E 6 (put_le32 r) d))"
  using assms by (auto simp: acks_le_def udp_fw_reply_def Let_def)

lemma acks_other: "u_tx d' = u_tx d \<Longrightarrow> acks_le base k d' = acks_le base k d"
  by (simp add: acks_le_def)

lemma recv_closed:
  assumes "acks_le base k d" "base \<le> length (u_tx d)" "\<not> fw_started d"
  shows "acks_le base k (v2_recv E off b d) \<and> base \<le> length (u_tx (v2_recv E off b d)) \<and>
    \<not> fw_started (v2_recv E off b d)"
  using acks_reply [OF assms(1,2), of 0 E] assms(3) by (simp add: v2_recv_def v2_recv_closed frame_simps)

lemma recv_open:
  assumes laws: "flash_img_laws (udp_flash E) img" and len: "length data < 2 ^ 32"
    and h: "v2.holds E img data k d" and a: "acks_le base k d" "base \<le> length (u_tx d)"
    and fr: "o' < length data" "0 < m"
  defines "d' \<equiv> v2_recv E (of_nat o') (take m (drop o' data)) d"
  shows "base \<le> length (u_tx d') \<and> (\<exists>k' \<ge> k. acks_le base k' d' \<and>
    (v2.holds E img data k' d' \<or> \<not> fw_started d' \<and> k' < length data))"
proof -
  have k: "k \<le> length data" "fw_started d" "fw_received d = of_nat k" "length (img (u_world d)) = k"
    using h by (auto simp: v2.holds_def v2_live_def)
  have uk: "unat (of_nat k :: u32) = k" using k(1) len by (intro unat_of_nat_u32) simp
  let ?b = "take m (drop o' data)"
  have ne: "?b \<noteq> []" using fr by simp
  show ?thesis
  proof (cases "o' = k")
    case False
    then have off: "(of_nat o' :: u32) \<noteq> fw_received d"
      using k fr(1) len by (simp add: of_nat_u32_inj)
    then have d': "d' = udp_fw_reply E 6 (put_le32 (fw_received d)) d"
      using k(2) ne by (simp add: d'_def v2_recv_def fw_cmd_data_v2_def Let_def)
    have "v2.holds E img data k d'"
      using h by (simp add: d' v2.holds_def v2_live_def frame_simps)
    then show ?thesis using acks_reply [OF a, of "fw_received d" E] uk k(3) d' by auto
  next
    case hit: True
    obtain rc w where w: "img_write (udp_flash E) ?b False (u_world d) = (rc, w)" by fastforce
    show ?thesis
    proof (cases "rc = 0")
      case False
      then have d': "d' = udp_fw_reply E 6 (put_le32 (fw_received d)) (fw_session_fail E (d\<lparr>u_world := w\<rparr>))"
        using v2_recv_write_fails [OF k(2) w False ne] hit k(3) by (simp add: d'_def)
      have "acks_le base k (fw_session_fail E (d\<lparr>u_world := w\<rparr>))"
        using a(1) by (subst acks_other [of _ d]) (simp_all add: frame_simps)
      then show ?thesis using acks_reply [of base k "fw_session_fail E (d\<lparr>u_world := w\<rparr>)" "fw_received d" E]
          a(2) uk k(3) hit fr(1) by (auto simp: d' frame_simps)
    next
      case True
      let ?k = "min (k + m) (length data)"
      have live: "v2_live E img d'" using v2_step_live [OF laws, of d "of_nat o'" ?b] h
        v2_recv_hit [OF k(2), of E ?b w] w True ne hit k(2,3)
        by (auto simp: d'_def v2.holds_def Let_def frame_simps)
      then have h': "v2.holds E img data ?k d'"
        using v2.next_chunk [OF h, of m] fr hit by (simp add: d'_def)
      then have r: "fw_received d' = of_nat ?k" by (auto simp: v2.holds_def v2_live_def)
      have d': "d' = udp_fw_reply E 6 (put_le32 (fw_received d')) (d\<lparr>u_world := w, fw_received := fw_received d'\<rparr>)"
        using v2_recv_hit [OF k(2), of E ?b w] w True ne hit k(3)
        by (simp add: d'_def Let_def frame_simps)
      have u: "unat (of_nat ?k :: u32) = ?k" using len by (intro unat_of_nat_u32) simp
      have "acks_le base ?k (d\<lparr>u_world := w, fw_received := fw_received d'\<rparr>)"
        using acks_mono [OF a(1), of ?k] k(1) by (subst acks_other [of _ d]) simp_all
      from acks_reply [OF this, of "fw_received d'" E] a(2) u r
      have "acks_le base ?k d'" "base \<le> length (u_tx d')" by (subst d', simp)+
      then show ?thesis using h' k(1) by (intro conjI exI [of _ ?k]) simp_all
    qed
  qed
qed

lemma dev_ok_rx:
  assumes laws: "flash_img_laws (udp_flash E) img" and len: "length data < 2 ^ 32"
    and ok: "dev_ok E img data base c d" and f: "good_frame data chunk f" "chunk \<le> unat (v2_chunk E)"
  shows "dev_ok E img data base c (udp_fw_rx E host f d)"
proof -
  from f(1) obtain o' m where fr: "o' < length data" "0 < m" "m \<le> chunk" "f = v2_frame o' (take m (drop o' data))"
    by (auto simp: good_frame_def)
  let ?d = "d\<lparr>remote_addr := host\<rparr>"
  have ok': "dev_ok E img data base c ?d"
    using ok by (simp add: dev_ok_def acks_le_def v2.holds_def v2_live_def)
  have "length f \<le> rx_buf_len E" using fr f(2) by (simp add: v2_frame_def rx_buf_len_def wr_le_put)
  then have t: "take (rx_buf_len E) f = 6 # put_le32 (of_nat o') @ take m (drop o' data)"
    using fr(4) by (simp add: v2_frame_def wr_le_put)
  have rx: "udp_fw_rx E host f d = (if bcast_restrict E \<and> \<not> is_same_subnet E (sin_addr host) ?d \<and>
      \<not> bcast_cmd_allowed 6 ?d then ?d else v2_recv E (of_nat o') (take m (drop o' data)) ?d)"
    by (simp add: udp_fw_rx_def t Let_def handle_fw_cmd_def v2_recv_def)
  have "dev_ok E img data base c (v2_recv E (of_nat o') (take m (drop o' data)) ?d)"
  proof -
    from ok' obtain k where k: "c \<le> k" "acks_le base k ?d" "base \<le> length (u_tx ?d)"
      "v2.holds E img data k ?d \<or> \<not> fw_started ?d \<and> k < length data" by (auto simp: dev_ok_def)
    from k(4) show ?thesis
    proof
      assume "v2.holds E img data k ?d"
      from recv_open [OF laws len this k(2,3) fr(1,2)] k(1) show ?thesis
        unfolding dev_ok_def by (meson le_trans)
    next
      assume "\<not> fw_started ?d \<and> k < length data"
      with recv_closed [OF k(2,3)] k(1) show ?thesis unfolding dev_ok_def by blast
    qed
  qed
  then show ?thesis using ok' rx by simp
qed

section \<open>The network\<close>

definition net_ok :: "'w udp_env \<Rightarrow> ('w \<Rightarrow> bytes) \<Rightarrow> bytes \<Rightarrow> nat \<Rightarrow> nat \<Rightarrow> 'w net \<Rightarrow> bool" where
  "net_ok E img data chunk conf n \<longleftrightarrow> dev_ok E img data (nbase n) conf (ndev n) \<and>
     (\<forall>f \<in> set (nsent n). good_frame data chunk f)"

lemma deliver_ok:
  assumes "flash_img_laws (udp_flash E) img" "length data < 2 ^ 32" "chunk \<le> unat (v2_chunk E)"
    "\<forall>f \<in> set sent. good_frame data chunk f"
  shows "dev_ok E img data base c d \<Longrightarrow> dev_ok E img data base c (net_deliver E host sent is d)"
proof (induction "is" arbitrary: d)
  case (Cons i "is")
  have "dev_ok E img data base c (if i < length sent then udp_fw_rx E host (sent ! i) d else d)"
    using dev_ok_rx [OF assms(1,2) Cons.prems _ assms(3), of "sent ! i" host] assms(4) Cons.prems by simp
  from Cons.IH [OF this] show ?case by (simp add: net_deliver_def split: if_splits)
qed (simp add: net_deliver_def)

lemma net_recv_ok:
  assumes "flash_img_laws (udp_flash E) img" "length data < 2 ^ 32" "chunk \<le> unat (v2_chunk E)"
    "net_ok E img data chunk c n" "net_recv E host tmo n = (r, n')"
  shows "net_ok E img data chunk c n' \<and> nbase n' = nbase n \<and> nsent n' = nsent n \<and>
    (case r of Errno e \<Rightarrow> e = EAGAIN | Ok m \<Rightarrow> length (nscript n') < length (nscript n) \<and>
       (\<exists>a. (a, m) \<in> set (drop (nbase n) (u_tx (ndev n')))))"
proof (cases "nscript n")
  case Nil
  then show ?thesis using assms(4,5) by (auto simp: net_recv_def net_ok_def)
next
  case (Cons e sc)
  obtain "is" j where e: "e = (is, j)" by fastforce
  let ?d = "net_deliver E host (nsent n) is (ndev n)"
  have d: "dev_ok E img data (nbase n) c ?d"
    using deliver_ok [OF assms(1-3)] assms(4) by (simp add: net_ok_def)
  show ?thesis
  proof (cases "\<exists>i. j = Some i \<and> nbase n + i < length (u_tx ?d)")
    case True
    then obtain i where i: "j = Some i" "nbase n + i < length (u_tx ?d)" by blast
    then have "u_tx ?d ! (nbase n + i) \<in> set (drop (nbase n) (u_tx ?d))"
      by (auto simp: in_set_conv_nth intro!: exI [of _ i])
    then have "\<exists>a. (a, snd (u_tx ?d ! (nbase n + i))) \<in> set (drop (nbase n) (u_tx ?d))"
      by (metis prod.collapse)
    then show ?thesis using Cons e i d assms(4,5) by (auto simp: net_recv_def net_ok_def Let_def)
  next
    case False
    then have "r = Errno EAGAIN \<and> n' = n\<lparr>ndev := ?d, nscript := sc, ntime := ntime n + 1\<rparr>"
      using Cons e assms(5) by (auto simp: net_recv_def Let_def split: option.splits)
    then show ?thesis using d assms(4) by (simp add: net_ok_def)
  qed
qed

text \<open>A data reply that came back confirms what the device holds.\<close>

lemma confirmed_by_reply:
  assumes "dev_ok E img data base c d" "(a, m) \<in> set (drop base (u_tx d))" "5 \<le> length (take 64 m)"
    "hd (take 64 m) = 6" "length data < 2 ^ 32"
  defines "roff \<equiv> unat (get_le32 (drop 1 (take 64 m)))"
  shows "roff \<le> length data \<and> dev_ok E img data base (max c roff) d"
proof -
  from assms(1) obtain k where k: "c \<le> k" "acks_le base k d" "base \<le> length (u_tx d)"
    "v2.holds E img data k d \<or> \<not> fw_started d \<and> k < length data" by (auto simp: dev_ok_def)
  have m: "5 \<le> length m" "hd m = 6" "drop 1 (take 64 m) = take 63 (drop 1 m)"
    using assms(3,4) by (auto simp: drop_take hd_take)
  then have "unat (get_le32 (drop 1 m)) \<le> k"
    using k(2) assms(2) by (force simp: acks_le_def)
  moreover have "get_le32 (take 63 (drop 1 m)) = get_le32 (drop 1 m)"
    by (simp add: get_le32_def)
  ultimately have r: "roff \<le> k" unfolding roff_def m(3) by simp
  moreover have "k \<le> length data" using k(4) by (auto simp: v2.holds_def)
  moreover have "max c roff \<le> k" using k(1) r by simp
  ultimately show ?thesis using k by (auto simp: dev_ok_def)
qed

section \<open>The loops of the host\<close>

lemma send_window_ok:
  assumes "0 < chunk" "win_end \<le> length data"
  shows "net_ok E img data chunk c n \<Longrightarrow> w \<le> win_end \<Longrightarrow>
    \<exists>n'. send_window (net_sock E host) data chunk win_end w n = Some (0, n') \<and>
      net_ok E img data chunk c n' \<and> nbase n' = nbase n \<and> nscript n' = nscript n"
proof (induction "win_end - w" arbitrary: w n rule: less_induct)
  case less
  show ?case
  proof (cases "w < win_end")
    case False
    then show ?thesis using less.prems by (subst send_window.simps) simp
  next
    case True
    define m where "m = (if win_end - w > chunk then chunk else win_end - w)"
    have m: "0 < m" "m \<le> chunk" "w + m \<le> win_end" using assms(1) True by (auto simp: m_def)
    let ?f = "v2_frame w (take m (drop w data))" and ?n = "n\<lparr>nsent := nsent n @ [v2_frame w (take m (drop w data))]\<rparr>"
    have "good_frame data chunk ?f" using m assms(2) True unfolding good_frame_def by (intro exI [where x = w] exI [where x = m]) simp
    then have n: "net_ok E img data chunk c ?n" using less.prems(1) by (simp add: net_ok_def)
    have "send_window (net_sock E host) data chunk win_end w n = send_window (net_sock E host) data chunk win_end (w + m) ?n"
      using True by (subst send_window.simps) (simp add: net_sock_def m_def [symmetric] Let_def)
    moreover have "win_end - (w + m) < win_end - w" using m True by simp
    ultimately show ?thesis using less.hyps [of "w + m" ?n] n m by simp
  qed
qed

lemma ack_loop_ok:
  assumes a: "flash_img_laws (udp_flash E) img" "length data < 2 ^ 32" "chunk \<le> unat (v2_chunk E)"
  shows "net_ok E img data chunk c n \<Longrightarrow> c \<le> length data \<Longrightarrow>
    \<exists>c' r' n'. ack_loop (net_sock E host) (length data) win_end dl c r n = Some (Inr (c', r'), n') \<and>
      c \<le> c' \<and> c' \<le> length data \<and> (c' = c \<longrightarrow> r' = r) \<and> (r' = r \<or> r' = 0) \<and>
      net_ok E img data chunk c' n' \<and> nbase n' = nbase n"
proof (induction "length (nscript n)" arbitrary: n c r rule: less_induct)
  case less
  obtain res n1 where rv: "net_recv E host (dl - ntime n) n = (res, n1)" by fastforce
  note ok = net_recv_ok [OF a less.prems(1) rv]
  let ?L = "ack_loop (net_sock E host) (length data) win_end dl"
  have un: "?L c r n = (if c < win_end then if dl - ntime n \<le> 0 then Some (Inr (c, r), n)
      else (case (res, n1) of (Errno e, n) \<Rightarrow> if e = EAGAIN \<or> e = EINTR then Some (Inr (c, r), n) else Some (Inl (- e), n)
        | (Ok m, n) \<Rightarrow> (let m = take 64 m; roff = unat (get_le32 (drop 1 m)) in
            if 5 \<le> length m \<and> hd m = 6 \<and> roff > c
            then ?L (if roff > length data then length data else roff) 0 n else ?L c r n))
      else Some (Inr (c, r), n))"
    by (subst ack_loop.simps) (simp add: net_sock_def rv Let_def)
  show ?case
  proof (cases "c < win_end \<and> \<not> dl - ntime n \<le> 0 \<and> (\<exists>m. res = Ok m)")
    case False
    then consider "?L c r n = Some (Inr (c, r), n)" | "?L c r n = Some (Inr (c, r), n1)"
      using un ok by (cases res) (auto split: if_splits)
    then show ?thesis using less.prems ok by cases auto
  next
    case True
    then obtain m where m: "res = Ok m" by blast
    with ok obtain a where s: "length (nscript n1) < length (nscript n)" "net_ok E img data chunk c n1"
      "nbase n1 = nbase n" "(a, m) \<in> set (drop (nbase n) (u_tx (ndev n1)))" by auto
    let ?m = "take 64 m" and ?r = "unat (get_le32 (drop 1 (take 64 m)))"
    show ?thesis
    proof (cases "5 \<le> length ?m \<and> hd ?m = 6 \<and> ?r > c")
      case False
      then have "?L c r n = ?L c r n1" using un True m by (auto simp: Let_def)
      with less.hyps [OF s(1,2) less.prems(2), of r] s(3) show ?thesis by simp
    next
      case hit: True
      have "dev_ok E img data (nbase n) c (ndev n1)" using s(2,3) by (simp add: net_ok_def)
      from confirmed_by_reply [OF this s(4) _ _ a(2)] hit
      have r: "?r \<le> length data" "dev_ok E img data (nbase n) (max c ?r) (ndev n1)" by auto
      have e: "?L c r n = ?L ?r 0 n1" using un True m hit r(1) by (simp add: Let_def)
      have "net_ok E img data chunk ?r n1" using r(2) s(2,3) hit by (simp add: net_ok_def max_def)
      from less.hyps [OF s(1) this r(1), of 0] obtain c' r' n' where
        "?L ?r 0 n1 = Some (Inr (c', r'), n')" "?r \<le> c'" "c' \<le> length data" "r' = 0"
        "net_ok E img data chunk c' n'" "nbase n' = nbase n1" by blast
      then show ?thesis using e hit s(3) by (intro exI [of _ c'] exI [of _ r'] exI [of _ n']) simp
    qed
  qed
qed

lemma stream_ok:
  assumes a: "flash_img_laws (udp_flash E) img" "length data < 2 ^ 32" "chunk \<le> unat (v2_chunk E)" "0 < chunk"
  shows "net_ok E img data chunk off n \<Longrightarrow> off \<le> length data \<Longrightarrow> r \<le> 8 \<Longrightarrow>
    \<exists>rc n'. udp_fw_data_v2_stream (net_sock E host) data chunk off r n = Some (rc, n') \<and>
      (rc = 0 \<and> net_ok E img data chunk (length data) n' \<or> rc = - ETIMEDOUT)"
proof (induction "(length data - off) * 10 + (9 - r)" arbitrary: off r n rule: less_induct)
  case less
  let ?S = "udp_fw_data_v2_stream (net_sock E host) data chunk"
  show ?case
  proof (cases "off < length data")
    case False
    then have "off = length data" using less.prems(2) by simp
    then show ?thesis using less.prems(1) by (subst udp_fw_data_v2_stream.simps) simp
  next
    case True
    define we where "we = (if off + UDP_FW_WINDOW * chunk > length data then length data else off + UDP_FW_WINDOW * chunk)"
    have we: "off < we" "we \<le> length data" using True a(4) by (auto simp: we_def UDP_FW_WINDOW_def)
    from send_window_ok [OF a(4) we(2) less.prems(1), of off host] we(1) obtain n1 where
      sw: "send_window (net_sock E host) data chunk we off n = Some (0, n1)" "net_ok E img data chunk off n1"
      by auto
    from ack_loop_ok [OF a(1-3) sw(2) less.prems(2), of host we "ntime n1 + UDP_FW_V2_ACK_TIMEOUT_MS" r]
    obtain c r' n2 where al: "ack_loop (net_sock E host) (length data) we (ntime n1 + UDP_FW_V2_ACK_TIMEOUT_MS) off r n1 = Some (Inr (c, r'), n2)"
      "off \<le> c" "c \<le> length data" "c = off \<longrightarrow> r' = r" "r' = r \<or> r' = 0" "net_ok E img data chunk c n2" by blast
    have un: "?S off r n = (if c \<ge> we then ?S c r' n2 else if r' + 1 > UDP_FW_V2_MAX_RETRIES then Some (- ETIMEDOUT, n2)
        else ?S c (r' + 1) n2)"
      using True sw(1) al(1) by (subst udp_fw_data_v2_stream.simps)
        (simp add: we_def [symmetric] Let_def net_sock_def [of E host])
    have r8: "r' \<le> 8" using al(5) less.prems(3) by auto
    show ?thesis
    proof (cases "c \<ge> we")
      case adv: True
      then have "(length data - c) * 10 + (9 - r') < (length data - off) * 10 + (9 - r)"
        using we al(3) less.prems(3) r8 by linarith
      from less.hyps [OF this al(6,3) r8] show ?thesis using un adv by simp
    next
      case stall: False
      show ?thesis
      proof (cases "r' + 1 > UDP_FW_V2_MAX_RETRIES")
        case True
        then show ?thesis using un stall by simp
      next
        case False
        then have r9: "r' + 1 \<le> 8" by (simp add: UDP_FW_V2_MAX_RETRIES_def)
        have "(length data - c) * 10 + (9 - (r' + 1)) < (length data - off) * 10 + (9 - r)"
          using True al(2-4) less.prems(3) r9 by (cases "c = off") (simp, linarith)
        from less.hyps [OF this al(6,3) r9] show ?thesis using un stall False by simp
      qed
    qed
  qed
qed

section \<open>Properties\<close>

text \<open>
  C6. The windowed transfer over a hostile network: for every schedule of losses, duplicates,
  delays and reorderings of the datagrams in both directions, and even if the flash fails on the
  way, the host's transfer returns - with success or with the stall error - and when it returns
  success the device holds exactly the image, with its session still open.
\<close>
theorem v2_stream_correct:
  assumes "flash_img_laws (udp_flash E) img" and "length data < 2 ^ 32" and "0 < chunk"
    and "chunk \<le> unat (v2_chunk E)" and "fw_started (ndev n)" and "fw_received (ndev n) = 0"
    and "img (u_world (ndev n)) = []" and "nsent n = []" and "nbase n = length (u_tx (ndev n))"
  shows "\<exists>rc n'. udp_fw_data_v2_stream (net_sock E host) data chunk 0 0 n = Some (rc, n') \<and>
    (rc = 0 \<or> rc = - ETIMEDOUT) \<and>
    (if rc = 0 then img (u_world (ndev n')) = data \<and> fw_started (ndev n') else True)"
proof -
  have "v2.holds E img data 0 (ndev n)" using assms(1,5-7) by (simp add: v2.holds_def v2_live_def)
  then have "net_ok E img data chunk 0 n"
    using assms(8,9) by (auto simp: net_ok_def dev_ok_def acks_le_def)
  from stream_ok [OF assms(1,2,4,3) this, of 0 host] obtain rc n' where
    r: "udp_fw_data_v2_stream (net_sock E host) data chunk 0 0 n = Some (rc, n')"
    "rc = 0 \<and> net_ok E img data chunk (length data) n' \<or> rc = - ETIMEDOUT" by auto
  have "net_ok E img data chunk (length data) n' \<Longrightarrow> img (u_world (ndev n')) = data \<and> fw_started (ndev n')"
    by (auto simp: net_ok_def dev_ok_def v2.holds_def v2_live_def)
  then show ?thesis using r by (auto simp: ETIMEDOUT_def)
qed

definition demo_net :: "(nat list \<times> nat option) list \<Rightarrow> ram_world net" where
  "demo_net sc = \<lparr>ndev = demo_udp_st\<lparr>fw_started := True\<rparr>, nsent = [], nbase = 0, ntime = 0, nscript = sc\<rparr>"

theorem v2_stream_correct_witness:
  "\<exists>rc n'. udp_fw_data_v2_stream (net_sock demo_udp demo_host) [7, 8, 9] 2 0 0 (demo_net [([1], Some 0), ([1, 0], Some 2), ([2, 3, 1], Some 4)]) =
     Some (rc, n') \<and> (if rc = 0 then ram_img (u_world (ndev n')) = [7, 8, 9] else True)"
proof -
  have l: "flash_img_laws (udp_flash demo_udp) ram_img" by (simp add: ram_flash_laws)
  let ?n = "demo_net [([1], Some 0), ([1, 0], Some 2), ([2, 3, 1], Some 4)]"
  have n: "fw_started (ndev ?n)" "fw_received (ndev ?n) = 0" "ram_img (u_world (ndev ?n)) = []"
    "nsent ?n = []" "nbase ?n = length (u_tx (ndev ?n))"
    by (simp_all add: demo_net_def demo_udp_st_alt udp_st_init_def ram_empty_def)
  have c: "length [7, 8, 9 :: u8] < 2 ^ 32" "0 < (2 :: nat)" "2 \<le> unat (v2_chunk demo_udp)" by simp_all
  from v2_stream_correct [OF l c n, of demo_host] show ?thesis by meson
qed

end
