(* ===== verification/UdpUpgrade.thy ===== *)
theory UdpUpgrade imports UdpStream begin

text \<open>
  The whole UDP upgrade, host tool against device on a link that delivers: START with the key
  hash, the windowed transfer, FW_END with the CRC, the reboot.
\<close>

section \<open>The link\<close>

record 'w wire =
  wdev :: "'w udp_st"
  wtaken :: nat

definition wire_sock :: "'w udp_env \<Rightarrow> sockaddr \<Rightarrow> 'w wire udp_sock" where
  "wire_sock E host = \<lparr> us_send = (\<lambda>f n. (Ok (), n\<lparr>wdev := udp_fw_rx E host f (wdev n)\<rparr>)),
     us_settimeo = (\<lambda>_ n. (Ok (), n)),
     us_recv = (\<lambda>_ n. if wtaken n < length (u_tx (wdev n))
        then (Ok (snd (u_tx (wdev n) ! wtaken n)), n\<lparr>wtaken := Suc (wtaken n)\<rparr>) else (Errno EAGAIN, n)),
     us_now = (\<lambda>_. 0) \<rparr>"

text \<open>The host is in the device's subnet, the announced chunk is in its configured range.\<close>

definition wire_ok :: "'w udp_env \<Rightarrow> sockaddr \<Rightarrow> bool" where
  "wire_ok E host \<longleftrightarrow> (\<forall>w. case local_addr E w of None \<Rightarrow> True
      | Some (ip, nm) \<Rightarrow> (sin_addr host AND nm) = (ip AND nm)) \<and>
     512 \<le> unat (v2_chunk E) \<and> unat (v2_chunk E) \<le> 1400"

lemma wire_subnet: "wire_ok E host \<Longrightarrow> is_same_subnet E (sin_addr host) s"
  by (simp add: wire_ok_def is_same_subnet_def)

definition wsynced :: "'w wire \<Rightarrow> bool" where
  "wsynced n \<longleftrightarrow> wtaken n = length (u_tx (wdev n)) \<and> 0 \<le> config_sock (wdev n)"

lemma wire_rx:
  assumes "wire_ok E host" "length dat \<le> 4 + unat (v2_chunk E)" "handle_fw_cmd E c dat (s\<lparr>remote_addr := host\<rparr>) = Some t"
  shows "udp_fw_rx E host (c # dat) s = t"
  using assms by (simp add: udp_fw_rx_def rx_buf_len_def Let_def wire_subnet)

lemma wire_reply:
  assumes "wire_ok E host" "0 \<le> config_sock s" "remote_addr s = host" "d \<noteq> []" "length d \<le> 63"
  shows "u_tx (udp_fw_reply E c d s) = u_tx s @ [(host, c # d)]"
  using assms by (simp add: reply_sent wire_subnet)

text \<open>A request whose answer is one reply.\<close>

lemma wire_request:
  assumes link: "wire_ok E host" and len: "length dat \<le> 36" and sy: "wsynced n"
    and h: "handle_fw_cmd E c dat ((wdev n)\<lparr>remote_addr := host\<rparr>) = Some t"
    and r: "u_tx t = u_tx (wdev n) @ [(host, c # d)]" "length d \<le> 63"
  shows "udp_send_recv (wire_sock E host) c dat 64 tmo n =
    (Ok (c # d), n\<lparr>wdev := t, wtaken := Suc (wtaken n)\<rparr>)"
proof -
  have "length dat \<le> 4 + unat (v2_chunk E)" using len link by (simp add: wire_ok_def)
  from wire_rx [OF link this h] show ?thesis
    using len sy r by (simp add: udp_send_recv_def wire_sock_def wsynced_def Let_def)
qed

section \<open>The windowed transfer on a link that delivers\<close>

definition wsess :: "'w udp_env \<Rightarrow> ('w \<Rightarrow> bytes) \<Rightarrow> bytes \<Rightarrow> nat \<Rightarrow> nat list \<Rightarrow> 'w udp_st \<Rightarrow> bool" where
  "wsess E img data k hs d \<longleftrightarrow> v2.holds E img data k d \<and> 0 \<le> config_sock d \<and> u_reboot_hooks d = hs"

abbreviation ack_msg :: "sockaddr \<Rightarrow> nat \<Rightarrow> sockaddr \<times> bytes" where
  "ack_msg host k \<equiv> (host, 6 # put_le32 (of_nat k))"

lemma wire_frame:
  assumes link: "wire_ok E host" and laws: "flash_img_laws (udp_flash E) img"
    and nf: "flash_no_fault (udp_flash E) img cap" "length data \<le> cap"
    and s: "wsess E img data k hs d" and m: "0 < m" "k + m \<le> length data" "m \<le> unat (v2_chunk E)"
  defines "d' \<equiv> udp_fw_rx E host (v2_frame k (take m (drop k data))) d"
  shows "wsess E img data (k + m) hs d' \<and> u_tx d' = u_tx d @ [ack_msg host (k + m)]"
proof -
  let ?b = "take m (drop k data)" and ?d = "d\<lparr>remote_addr := host\<rparr>"
  have k: "fw_started ?d" "fw_received ?d = of_nat k" "img (u_world ?d) = take k data" "flash_img_laws (udp_flash E) img"
    using s by (auto simp: wsess_def v2.holds_def v2_live_def)
  have "length (img (u_world ?d)) + length ?b \<le> cap" using k(3) m nf(2) by simp
  from no_fault_write [OF nf(1) laws this, of False] obtain w where
    w: "img_write (udp_flash E) ?b False (u_world ?d) = (0, w)" "img w = take (k + m) data"
    using k(3) by (auto simp: take_add)
  have ne: "?b \<noteq> []" and lb: "length ?b = m" using m by simp_all
  have "handle_fw_cmd E 6 (put_le32 (of_nat k) @ ?b) ?d = Some (v2_recv E (of_nat k) ?b ?d)"
    by (simp add: handle_fw_cmd_def v2_recv_def)
  from wire_rx [OF link _ this] have d': "d' = v2_recv E (of_nat k) ?b ?d"
    using m by (simp add: d'_def v2_frame_def wr_le_put)
  also have "\<dots> = udp_fw_reply E 6 (put_le32 (of_nat (k + m))) (?d\<lparr>u_world := w, fw_received := of_nat (k + m)\<rparr>)"
    using v2_recv_hit [OF k(1), of E ?b w] w(1) ne k(2) lb by (simp add: Let_def)
  finally have d'': "d' = udp_fw_reply E 6 (put_le32 (of_nat (k + m))) (?d\<lparr>u_world := w, fw_received := of_nat (k + m)\<rparr>)" .
  have "u_tx d' = u_tx d @ [ack_msg host (k + m)]"
    using s unfolding d'' by (subst wire_reply [OF link]) (simp_all add: wsess_def put_le32_def)
  moreover have "wsess E img data (k + m) hs d'"
    using s m w(2) k by (simp add: d'' wsess_def v2.holds_def v2_live_def frame_simps)
  ultimately show ?thesis by blast
qed

lemma wire_window:
  assumes link: "wire_ok E host" and laws: "flash_img_laws (udp_flash E) img"
    and nf: "flash_no_fault (udp_flash E) img cap" "length data \<le> cap"
    and c: "0 < chunk" "chunk \<le> unat (v2_chunk E)" "we \<le> length data"
  shows "wsess E img data k hs (wdev n) \<Longrightarrow> k \<le> we \<Longrightarrow>
    \<exists>n' ks. send_window (wire_sock E host) data chunk we k n = Some (0, n') \<and>
      wsess E img data we hs (wdev n') \<and> wtaken n' = wtaken n \<and>
      u_tx (wdev n') = u_tx (wdev n) @ map (ack_msg host) ks \<and>
      sorted_wrt (<) (k # ks) \<and> last (k # ks) = we \<and> (\<forall>x \<in> set ks. x \<le> we)"
proof (induction "we - k" arbitrary: k n rule: less_induct)
  case less
  show ?case
  proof (cases "k < we")
    case False
    then have "k = we" using less.prems(2) by simp
    then show ?thesis using less.prems
      by (intro exI [of _ n] exI [of _ "[]"]) (simp add: send_window.simps)
  next
    case True
    define m where "m = (if we - k > chunk then chunk else we - k)"
    have m: "0 < m" "m \<le> chunk" "k + m \<le> we" using c(1) True by (auto simp: m_def)
    let ?f = "v2_frame k (take m (drop k data))"
    let ?n = "n\<lparr>wdev := udp_fw_rx E host ?f (wdev n)\<rparr>"
    have f: "wsess E img data (k + m) hs (wdev ?n)" "u_tx (wdev ?n) = u_tx (wdev n) @ [ack_msg host (k + m)]"
      using wire_frame [OF link laws nf less.prems(1) m(1)] m c by simp_all
    have st: "send_window (wire_sock E host) data chunk we k n = send_window (wire_sock E host) data chunk we (k + m) ?n"
      using True by (subst send_window.simps) (simp add: wire_sock_def m_def [symmetric] Let_def)
    have "we - (k + m) < we - k" using m by simp
    from less.hyps [OF this f(1) m(3)] obtain n' ks where
      ih: "send_window (wire_sock E host) data chunk we (k + m) ?n = Some (0, n')"
        "wsess E img data we hs (wdev n')" "wtaken n' = wtaken ?n"
        "u_tx (wdev n') = u_tx (wdev ?n) @ map (ack_msg host) ks"
        "sorted_wrt (<) ((k + m) # ks)" "last ((k + m) # ks) = we" "\<forall>x \<in> set ks. x \<le> we" by blast
    have "sorted_wrt (<) (k # (k + m) # ks)" using ih(5) m(1) by auto
    then show ?thesis using ih st f(2) m(3)
      by (intro exI [of _ n'] exI [of _ "(k + m) # ks"]) simp
  qed
qed

lemma wire_acks:
  assumes "we \<le> len" "len < 2 ^ 32"
  shows "sorted_wrt (<) (k # ks) \<Longrightarrow> last (k # ks) = we \<Longrightarrow> \<forall>x \<in> set ks. x \<le> we \<Longrightarrow>
    u_tx (wdev n) = pre @ map (ack_msg host) ks \<Longrightarrow> wtaken n = length pre \<Longrightarrow>
    \<exists>r'. ack_loop (wire_sock E host) len we 1000 k r n = Some (Inr (we, r'), n\<lparr>wtaken := length (u_tx (wdev n))\<rparr>)"
proof (induction ks arbitrary: k pre n r)
  case Nil
  then show ?case by (subst ack_loop.simps) simp
next
  case (Cons x ks)
  have x: "k < x" "x \<le> we" "k < we" using Cons.prems(1,3) by auto
  have ux: "unat (of_nat x :: u32) = x" using x assms by (intro unat_of_nat_u32) simp
  let ?n = "n\<lparr>wtaken := Suc (wtaken n)\<rparr>"
  have st: "ack_loop (wire_sock E host) len we 1000 k r n = ack_loop (wire_sock E host) len we 1000 x 0 ?n"
  proof -
    have "u_tx (wdev n) ! wtaken n = ack_msg host x" "wtaken n < length (u_tx (wdev n))"
      using Cons.prems(4,5) by (simp_all add: nth_append)
    then show ?thesis using x assms(1) ux
      by (subst ack_loop.simps) (simp add: wire_sock_def Let_def)
  qed
  have "\<exists>r'. ack_loop (wire_sock E host) len we 1000 x 0 ?n = Some (Inr (we, r'), ?n\<lparr>wtaken := length (u_tx (wdev ?n))\<rparr>)"
  proof (rule Cons.IH [of x ?n "pre @ [ack_msg host x]" 0])
    show "sorted_wrt (<) (x # ks)" "\<forall>y \<in> set ks. y \<le> we" using Cons.prems(1,3) by auto
    show "last (x # ks) = we" using Cons.prems(2) by simp
  qed (use Cons.prems(4,5) in simp_all)
  then show ?case using st by simp
qed

lemma wire_stream:
  assumes link: "wire_ok E host" and laws: "flash_img_laws (udp_flash E) img"
    and nf: "flash_no_fault (udp_flash E) img cap" "length data \<le> cap"
    and c: "0 < chunk" "chunk \<le> unat (v2_chunk E)" "length data < 2 ^ 32"
  shows "wsess E img data k hs (wdev n) \<Longrightarrow> wsynced n \<Longrightarrow> k \<le> length data \<Longrightarrow>
    \<exists>n'. udp_fw_data_v2_stream (wire_sock E host) data chunk k r n = Some (0, n') \<and>
      wsess E img data (length data) hs (wdev n') \<and> wsynced n'"
proof (induction "length data - k" arbitrary: k r n rule: less_induct)
  case less
  show ?case
  proof (cases "k < length data")
    case False
    then have "k = length data" using less.prems(3) by simp
    then show ?thesis using less.prems by (subst udp_fw_data_v2_stream.simps) simp
  next
    case True
    define we where "we = (if k + UDP_FW_WINDOW * chunk > length data then length data else k + UDP_FW_WINDOW * chunk)"
    have we: "k < we" "we \<le> length data" using True c(1) by (auto simp: we_def UDP_FW_WINDOW_def)
    from wire_window [OF link laws nf c(1,2) we(2) less.prems(1)] we(1) obtain n1 ks where
      w: "send_window (wire_sock E host) data chunk we k n = Some (0, n1)" "wsess E img data we hs (wdev n1)"
        "wtaken n1 = wtaken n" "u_tx (wdev n1) = u_tx (wdev n) @ map (ack_msg host) ks"
        "sorted_wrt (<) (k # ks)" "last (k # ks) = we" "\<forall>x \<in> set ks. x \<le> we" by auto
    have "wtaken n1 = length (u_tx (wdev n))" using w(3) less.prems(2) by (simp add: wsynced_def)
    from wire_acks [OF we(2) c(3) w(5-7,4) this, of E r] obtain r' where
      al: "ack_loop (wire_sock E host) (length data) we 1000 k r n1 = Some (Inr (we, r'), n1\<lparr>wtaken := length (u_tx (wdev n1))\<rparr>)"
      by blast
    let ?n2 = "n1\<lparr>wtaken := length (u_tx (wdev n1))\<rparr>"
    have st: "udp_fw_data_v2_stream (wire_sock E host) data chunk k r n = udp_fw_data_v2_stream (wire_sock E host) data chunk we r' ?n2"
      using True w(1) al by (subst udp_fw_data_v2_stream.simps)
        (simp add: we_def [symmetric] Let_def wire_sock_def [of E host] UDP_FW_V2_ACK_TIMEOUT_MS_def)
    have s2: "wsess E img data we hs (wdev ?n2)" "wsynced ?n2" using w(2) by (simp_all add: wsynced_def wsess_def)
    have "length data - we < length data - k" using we by simp
    from less.hyps [OF this s2 we(2)] show ?thesis using st by simp
  qed
qed

section \<open>START, FW_END and REBOOT\<close>

definition start_accepted :: "'w udp_env \<Rightarrow> 'w udp_st \<Rightarrow> bool" where
  "start_accepted E d \<longleftrightarrow>
     (case u_start_hook d of None \<Rightarrow> True | Some h \<Rightarrow> fst (run_udp_start E h (u_world d)))"

lemma wire_start:
  assumes link: "wire_ok E host" and laws: "flash_img_laws (udp_flash E) img"
    and nf: "flash_no_fault (udp_flash E) img cap" and sy: "wsynced n" "\<not> fw_started (wdev n)"
    and hook: "start_accepted E (wdev n)" and key: "udp_keyhash E = None \<or> length k \<noteq> 32 \<or> udp_keyhash E = Some k"
      "length k \<le> 32"
  shows "\<exists>n'. udp_send_recv (wire_sock E host) 1 (put_le32 sz @ k) 64 tmo n =
      (Ok (1 # 1 # put_le16 (v2_chunk E)), n') \<and> wsess E img data 0 (u_reboot_hooks (wdev n)) (wdev n') \<and> wsynced n'"
proof -
  let ?d = "(wdev n)\<lparr>remote_addr := host, fw_size := sz\<rparr>"
  define w1 where "w1 = (case u_start_hook (wdev n) of None \<Rightarrow> u_world (wdev n)
      | Some h \<Rightarrow> snd (run_udp_start E h (u_world (wdev n))))"
  let ?t = "fw_cmd_start E (put_le32 sz @ k) ((wdev n)\<lparr>remote_addr := host\<rparr>)"
  have "?t = udp_open_session E (?d\<lparr>u_world := w1\<rparr>)"
    using sy(2) hook key by (auto simp: fw_cmd_start_def start_accepted_def w1_def Let_def
      split: option.splits prod.splits)
  moreover obtain w where w: "img_init (udp_flash E) Slot1
      (snd (fa_erase (udp_flash E) Slot1 0 (round_up32 sz 4096) w1)) = (0, w)" "img w = []"
    using no_fault_init [OF nf laws] by blast
  ultimately have t: "?t = start_reply E FW_START_OK (?d\<lparr>u_world := w, fw_started := True, fw_received := 0\<rparr>)"
    using no_fault_open [OF nf] by (simp add: udp_open_session_def Let_def)
  have tx: "u_tx ?t = u_tx (wdev n) @ [(host, 1 # 1 # put_le16 (v2_chunk E))]"
    using sy(1) unfolding t start_reply_def by (subst wire_reply [OF link]) (simp_all add: wsynced_def)
  have "udp_send_recv (wire_sock E host) 1 (put_le32 sz @ k) 64 tmo n =
      (Ok (1 # 1 # put_le16 (v2_chunk E)), n\<lparr>wdev := ?t, wtaken := Suc (wtaken n)\<rparr>)"
    using key(2) by (intro wire_request [OF link _ sy(1) _ tx]) (simp_all add: handle_fw_cmd_def)
  moreover have "wsess E img data 0 (u_reboot_hooks (wdev n)) ?t"
    using sy(1) laws w(2) by (simp add: t wsess_def v2.holds_def v2_live_def frame_simps wsynced_def)
  moreover have "wsynced (n\<lparr>wdev := ?t, wtaken := Suc (wtaken n)\<rparr>)"
    using sy(1) tx by (simp add: wsynced_def t frame_simps)
  ultimately show ?thesis by auto
qed

lemma reboot_reply:
  "wire_ok E host \<Longrightarrow> 0 \<le> config_sock d \<Longrightarrow> remote_addr d = host \<Longrightarrow>
   u_tx (fw_cmd_reboot E d) = u_tx d @ [(host, [5, 1])]"
  by (simp add: fw_cmd_reboot_def Let_def wire_reply)

lemma wire_finish:
  assumes link: "wire_ok E host" and laws: "flash_img_laws (udp_flash E) img"
    and nf: "flash_no_fault (udp_flash E) img cap" "length data \<le> cap"
    and rb: "flash_readback_laws (udp_flash E) img Slot1" "crc_law E" "length data < 2 ^ 32"
    and s: "wsess E img data (length data) hs (wdev n)" "wsynced n"
  shows "\<exists>n' wf. udp_finish (wire_sock E host) data test_mode n = (EXIT_OK, n') \<and> img wf = data \<and>
    u_rebooted (wdev n') \<and> u_world (wdev n') = fold (run_udp_reboot E) hs
      (snd (boot_request (udp_flash E) (if test_mode then 0 else 1) wf))"
proof -
  let ?d = "(wdev n)\<lparr>remote_addr := host\<rparr>"
  define tm :: u8 where "tm = (if test_mode then 1 else 0)"
  let ?b = "boot_request (udp_flash E) (if test_mode then 0 else 1)"
  have d: "fw_started ?d" "img (u_world ?d) = data" "u_reboot_hooks ?d = hs" "0 \<le> config_sock ?d"
    using s(1) by (auto simp: wsess_def v2.holds_def v2_live_def)
  have "length (img (u_world ?d)) + length ([] :: bytes) \<le> cap" using d(2) nf(2) by simp
  from no_fault_write [OF nf(1) laws this, of True] obtain wf where
    wf: "img_write (udp_flash E) [] True (u_world ?d) = (0, wf)" "img wf = data" using d(2) by auto
  have crc: "fw_verify_crc E (crc16_ccitt data) wf"
    using fw_verify_crc_image [OF laws rb(1,2) wf(1) _ no_fault_open [OF nf(1)], of "crc16_ccitt data"] rb(3) wf(2) d(2)
    by (simp add: crc16_ccitt_def crc_ref_def crc_step_eq_ref [abs_def])
  let ?p = "tm # put_le16 (crc16_ccitt data)"
  have t: "fw_cmd_end E ?p ?d = udp_fw_reply E 3 [1] (?d\<lparr>u_world := snd (?b wf), fw_started := False\<rparr>)"
    using d(1) wf(1) crc no_fault_boot [OF nf(1), of 0 wf] no_fault_boot [OF nf(1), of 1 wf]
    by (simp add: fw_cmd_end_def Let_def case_prod_beta tm_def)
  have tx: "u_tx (fw_cmd_end E ?p ?d) = u_tx (wdev n) @ [(host, [3, 1])]"
    using d(4) unfolding t by (subst wire_reply [OF link]) simp_all
  let ?n1 = "n\<lparr>wdev := fw_cmd_end E ?p ?d, wtaken := Suc (wtaken n)\<rparr>"
  have r1: "udp_send_recv (wire_sock E host) 3 ?p 64 UDP_FW_END_TIMEOUT_MS n = (Ok [3, 1], ?n1)"
    by (intro wire_request [OF link _ s(2) _ tx]) (simp_all add: handle_fw_cmd_def)
  have sy: "wsynced ?n1" using s(2) tx d(4) by (simp add: wsynced_def t frame_simps)
  let ?d1 = "(wdev ?n1)\<lparr>remote_addr := host\<rparr>"
  have tx2: "u_tx (fw_cmd_reboot E ?d1) = u_tx (wdev ?n1) @ [(host, [5, 1])]"
    using sy by (subst reboot_reply [OF link]) (simp_all add: wsynced_def)
  have r2: "udp_send_recv (wire_sock E host) 5 [] 64 UDP_TIMEOUT_MS ?n1 =
      (Ok [5, 1], ?n1\<lparr>wdev := fw_cmd_reboot E ?d1, wtaken := Suc (wtaken ?n1)\<rparr>)"
    by (rule wire_request [OF link _ sy _ tx2]) (simp_all add: handle_fw_cmd_def)
  have fin: "u_rebooted (fw_cmd_reboot E ?d1)" "u_world (fw_cmd_reboot E ?d1) = fold (run_udp_reboot E) hs (snd (?b wf))"
    using d(3) by (simp_all add: fw_cmd_reboot_def Let_def t frame_simps)
  have "udp_finish (wire_sock E host) data test_mode n =
      (EXIT_OK, ?n1\<lparr>wdev := fw_cmd_reboot E ?d1, wtaken := Suc (wtaken ?n1)\<rparr>)"
    using r1 r2 by (simp add: udp_finish_def wr_le_put tm_def [symmetric])
  then show ?thesis using fin wf(2) by auto
qed

section \<open>Properties\<close>

text \<open>
  C5. A complete UDP upgrade on a link that delivers: the tool reports success and the device has
  the image file in its slot byte for byte, verified its CRC, requested the boot (test or
  permanent as asked), ran its reboot hooks and rebooted; for every image up to the slot size and
  every chunk size the device may announce.
\<close>
theorem udp_upgrade_complete:
  assumes "wire_ok E host" and "flash_img_laws (udp_flash E) img" and "flash_no_fault (udp_flash E) img cap"
    and "flash_readback_laws (udp_flash E) img Slot1" and "crc_law E"
    and "length (img_data im) \<le> cap" and "length (img_data im) < 2 ^ 32"
    and "has_keyhash im" and "length (img_keyhash im) = 32" and "udp_keyhash E = Some (img_keyhash im)"
    and "wsynced n" and "\<not> fw_started (wdev n)" and "start_accepted E (wdev n)"
  shows "\<exists>n' wf. upgrade_udp (wire_sock E host) im test_mode False n = Some (EXIT_OK, n') \<and>
    img wf = img_data im \<and> u_rebooted (wdev n') \<and>
    u_world (wdev n') = fold (run_udp_reboot E) (u_reboot_hooks (wdev n))
      (snd (boot_request (udp_flash E) (if test_mode then 0 else 1) wf))"
proof -
  let ?hs = "u_reboot_hooks (wdev n)" and ?c = "unat (v2_chunk E)"
  obtain n1 where s: "udp_send_recv (wire_sock E host) 1 (put_le32 (of_nat (length (img_data im))) @ img_keyhash im) 64
      UDP_FW_START_TIMEOUT_MS n = (Ok (1 # 1 # put_le16 (v2_chunk E)), n1)"
    "wsess E img (img_data im) 0 ?hs (wdev n1)" "wsynced n1"
    using wire_start [OF assms(1-3,11-13)] assms(9,10) by (metis order_refl)
  have c: "512 \<le> ?c" "?c \<le> 1400" using assms(1) by (simp_all add: wire_ok_def)
  have ch: "announced_chunk (1 # 1 # put_le16 (v2_chunk E)) = ?c"
    using c(2) by (simp add: announced_chunk_def put_le16_def le16_put UDP_CHUNK_SIZE_V2_MAX_def)
  obtain n2 where d: "udp_fw_data_v2_stream (wire_sock E host) (img_data im) ?c 0 0 n1 = Some (0, n2)"
    "wsess E img (img_data im) (length (img_data im)) ?hs (wdev n2)" "wsynced n2"
    using wire_stream [OF assms(1-3,6) _ _ assms(7) s(2,3), of ?c] c(1) by auto
  obtain n3 wf where f: "udp_finish (wire_sock E host) (img_data im) test_mode n2 = (EXIT_OK, n3)" "img wf = img_data im"
    "u_rebooted (wdev n3)" "u_world (wdev n3) = fold (run_udp_reboot E) ?hs
      (snd (boot_request (udp_flash E) (if test_mode then 0 else 1) wf))"
    using wire_finish [OF assms(1-3,6,4,5,7) d(2,3), of test_mode] by blast
  have "upgrade_udp (wire_sock E host) im test_mode False n = Some (EXIT_OK, n3)"
    using s(1) ch c(1) d(1) f(1) assms(8) by (simp add: upgrade_udp_def Let_def wr_le_put)
  then show ?thesis using f by blast
qed

definition demo_wire :: "ram_world wire" where
  "demo_wire = \<lparr>wdev = demo_udp_st, wtaken = 0\<rparr>"

theorem udp_upgrade_complete_witness:
  "\<exists>n' (wf :: ram_world). upgrade_udp (wire_sock demo_udp demo_host)
      \<lparr>img_data = [1, 2, 3], img_keyhash = demo_key, has_keyhash = True\<rparr> True False demo_wire = Some (EXIT_OK, n') \<and>
    ram_img wf = [1, 2, 3] \<and> u_rebooted (wdev n')"
proof -
  have link: "wire_ok demo_udp demo_host" by (simp add: wire_ok_def demo_host_def)
  have F: "flash_img_laws (udp_flash demo_udp) ram_img" "flash_no_fault (udp_flash demo_udp) ram_img 100"
    "flash_readback_laws (udp_flash demo_udp) ram_img Slot1"
    by (simp_all add: ram_flash_laws ram_flash_no_fault ram_flash_readback)
  have n: "wsynced demo_wire" "\<not> fw_started (wdev demo_wire)" "start_accepted demo_udp (wdev demo_wire)"
    "length demo_key = 32"
    by (simp_all add: demo_wire_def wsynced_def start_accepted_def demo_udp_st_alt udp_st_init_def demo_key_def)
  from udp_upgrade_complete [OF link F demo_app_ok(2), of "\<lparr>img_data = [1, 2, 3], img_keyhash = demo_key, has_keyhash = True\<rparr>"
      demo_wire True] show ?thesis using n by auto
qed

end
