(* ===== verification/HubState.thy ===== *)
theory HubState imports Prelude begin

text \<open>
  The state of the io-edge-hub application (\<open>applications/io-edge-hub/src\<close>): the register arrays
  of \<open>modbus/function.c\<close>, the output pins, the clock, the history writer, the flags of \<open>main.c\<close>,
  and the register accessors every other part goes through.  The build's constants (device tree,
  Kconfig, version) and the return values of the drivers are the environment \<open>hub_env\<close>; the file
  system of the history is a separate record (\<open>History\<close>).
\<close>

section \<open>Constants of init.h\<close>

definition DI_NUM :: nat where "DI_NUM = 16"
definition DO_NUM :: nat where "DO_NUM = 8"
definition AI_NUM :: nat where "AI_NUM = 4"

datatype input_reg_idx = INPUT_VER | INPUT_AI0 | INPUT_AI1 | INPUT_AI2 | INPUT_AI3 | INPUT_DI

fun input_idx :: "input_reg_idx \<Rightarrow> u16" where
  "input_idx INPUT_VER = 0"
| "input_idx INPUT_AI0 = 1"
| "input_idx INPUT_AI1 = 2"
| "input_idx INPUT_AI2 = 3"
| "input_idx INPUT_AI3 = 4"
| "input_idx INPUT_DI = 5"

datatype holding_reg_idx = HOLDING_DO | HOLDING_DI_ENABLE | HOLDING_AI_ENABLE | HOLDING_DI_SAMPLE_MS
  | HOLDING_AI_SAMPLE_MS | HOLDING_HISTORY_ENABLE | HOLDING_CAN_ID | HOLDING_CAN_BAUDRATE
  | HOLDING_RS485_BAUDRATE | HOLDING_SLAVE_ID | HOLDING_IP_OCTET1 | HOLDING_IP_OCTET2
  | HOLDING_IP_OCTET3 | HOLDING_IP_OCTET4 | HOLDING_TIMESTAMP_HI | HOLDING_TIMESTAMP_LO
  | HOLDING_CONFIG_SAVE | HOLDING_REBOOT

fun holding_idx :: "holding_reg_idx \<Rightarrow> u16" where
  "holding_idx HOLDING_DO = 0"
| "holding_idx HOLDING_DI_ENABLE = 1"
| "holding_idx HOLDING_AI_ENABLE = 2"
| "holding_idx HOLDING_DI_SAMPLE_MS = 3"
| "holding_idx HOLDING_AI_SAMPLE_MS = 4"
| "holding_idx HOLDING_HISTORY_ENABLE = 5"
| "holding_idx HOLDING_CAN_ID = 6"
| "holding_idx HOLDING_CAN_BAUDRATE = 7"
| "holding_idx HOLDING_RS485_BAUDRATE = 8"
| "holding_idx HOLDING_SLAVE_ID = 9"
| "holding_idx HOLDING_IP_OCTET1 = 10"
| "holding_idx HOLDING_IP_OCTET2 = 11"
| "holding_idx HOLDING_IP_OCTET3 = 12"
| "holding_idx HOLDING_IP_OCTET4 = 13"
| "holding_idx HOLDING_TIMESTAMP_HI = 14"
| "holding_idx HOLDING_TIMESTAMP_LO = 15"
| "holding_idx HOLDING_CONFIG_SAVE = 16"
| "holding_idx HOLDING_REBOOT = 17"

lemma holding_idx_bound: "unat (holding_idx r) < 18"
  by (cases r) simp_all

lemma holding_idx_inject [simp]: "holding_idx a = holding_idx b \<longleftrightarrow> a = b"
  by (cases a; cases b) simp_all

section \<open>Records of the history\<close>

datatype his_data =
    DI_record u32 u16 u16
  | AI_record u32 u16 "u16 list"

text \<open>
  The packed structure as it is written: type and time stamp, then the DI or the AI member of the
  union.  The file gets 10 bytes of a DI record and 16 of an AI record.
\<close>

fun his_bytes :: "his_data \<Rightarrow> bytes" where
  "his_bytes (DI_record ts en v) = put_le16 1 @ put_le32 ts @ put_le16 en @ put_le16 v"
| "his_bytes (AI_record ts en vs) = put_le16 2 @ put_le32 ts @ put_le16 en @ concat (map put_le16 vs)"

fun his_len :: "his_data \<Rightarrow> nat" where
  "his_len (DI_record _ _ _) = 10"
| "his_len (AI_record _ _ _) = 16"

section \<open>The state\<close>

record hub_env =
  n_holding :: nat
  n_input :: nat
  hub_version :: "u16 \<times> u16 \<times> u16"
  n_do_gpios :: nat
  n_led_gpios :: nat
  n_di_gpios :: nat
  n_adc_specs :: nat
  ai_coeff :: "u32 list"
  gmtime_ok :: "int \<Rightarrow> bool"
  rtc_set_rc :: "int \<Rightarrow> int"

record hub_st =
  holding_reg :: "u16 list"
  input_reg :: "u16 list"
  do_pins :: "bool list"
  led_pins :: "bool list"
  sys_clock :: int
  rtc_dev_set :: bool
  rtc_clock :: int
  settings_store :: "(string \<times> bytes) list"
  history_enabled :: bool
  his_msgq :: "his_data list"
  his_work_pending :: bool
  reboot_pending :: bool
  net_link_up :: bool
  can_bitrate_inject :: "u32 option"

definition reg_defaults :: "(holding_reg_idx \<times> u16) list" where
  "reg_defaults = [(HOLDING_DI_ENABLE, 0xFFFF), (HOLDING_AI_ENABLE, 0x000F), (HOLDING_DI_SAMPLE_MS, 200),
     (HOLDING_AI_SAMPLE_MS, 200), (HOLDING_CAN_ID, 0x0111), (HOLDING_CAN_BAUDRATE, 250),
     (HOLDING_RS485_BAUDRATE, 9600), (HOLDING_SLAVE_ID, 1), (HOLDING_IP_OCTET1, 192),
     (HOLDING_IP_OCTET2, 168), (HOLDING_IP_OCTET3, 12), (HOLDING_IP_OCTET4, 101)]"

definition holding_init :: "hub_env \<Rightarrow> u16 list" where
  "holding_init E = foldl (\<lambda>hs (r, v). hs[unat (holding_idx r) := v]) (replicate (n_holding E) 0) reg_defaults"

definition input_init :: "hub_env \<Rightarrow> u16 list" where
  "input_init E = (case hub_version E of (ma, mi, pa) \<Rightarrow>
     (replicate (n_input E) 0)[unat (input_idx INPUT_VER) := push_bit 12 ma OR push_bit 8 mi OR pa])"

section \<open>Register access\<close>

definition get_holding_reg :: "u16 \<Rightarrow> hub_st \<Rightarrow> u16" where
  "get_holding_reg addr s = (if unat addr \<ge> length (holding_reg s) then 0 else holding_reg s ! unat addr)"

definition io_read_holding :: "u16 \<Rightarrow> hub_st \<Rightarrow> u16" where
  "io_read_holding addr s =
     (if addr = holding_idx HOLDING_TIMESTAMP_HI then ucast (drop_bit 16 (of_int (sys_clock s) :: u32))
      else if addr = holding_idx HOLDING_TIMESTAMP_LO then ucast (of_int (sys_clock s) :: u32)
      else get_holding_reg addr s)"

definition update_holding_reg :: "u16 \<Rightarrow> u16 \<Rightarrow> hub_st \<Rightarrow> int \<times> hub_st" where
  "update_holding_reg addr reg s =
     (if unat addr \<ge> length (holding_reg s) then (- ENOTSUP, s)
      else (0, s\<lparr>holding_reg := (holding_reg s)[unat addr := reg]\<rparr>))"

definition get_input_reg :: "u16 \<Rightarrow> hub_st \<Rightarrow> u16" where
  "get_input_reg addr s = (if unat addr \<ge> length (input_reg s) then 0 else input_reg s ! unat addr)"

definition update_input_reg :: "u16 \<Rightarrow> u16 \<Rightarrow> hub_st \<Rightarrow> int \<times> hub_st" where
  "update_input_reg addr reg s =
     (if unat addr \<ge> length (input_reg s) then (- ENOTSUP, s)
      else (0, s\<lparr>input_reg := (input_reg s)[unat addr := reg]\<rparr>))"

text \<open>Writing one register of the enumeration and reading another.\<close>

lemma get_update_holding:
  "length (holding_reg s) = 18 \<Longrightarrow>
   get_holding_reg (holding_idx a) (snd (update_holding_reg (holding_idx b) v s)) =
     (if a = b then v else get_holding_reg (holding_idx a) s)"
  using holding_idx_bound [of a] holding_idx_bound [of b] word_unat_eq_iff [of "holding_idx a" "holding_idx b"]
  by (auto simp: get_holding_reg_def update_holding_reg_def nth_list_update)

lemma update_holding_length [simp]:
  "length (holding_reg (snd (update_holding_reg a v s))) = length (holding_reg s)"
  by (simp add: update_holding_reg_def)

section \<open>Outputs\<close>

text \<open>
  \<open>mb_set_do\<close>: each output pin of the board follows its bit, and the LED next to it when there is one.
\<close>

definition do_count :: "hub_env \<Rightarrow> nat" where
  "do_count E = min DO_NUM (n_do_gpios E)"

fun set_do_loop :: "hub_env \<Rightarrow> u16 \<Rightarrow> nat list \<Rightarrow> hub_st \<Rightarrow> hub_st" where
  "set_do_loop E val [] s = s"
| "set_do_loop E val (i # is) s =
     (let on = bit val i;
          s = s\<lparr>do_pins := (do_pins s)[i := on]\<rparr> in
      set_do_loop E val is (if i < n_led_gpios E then s\<lparr>led_pins := (led_pins s)[i := on]\<rparr> else s))"

definition mb_set_do :: "hub_env \<Rightarrow> u16 \<Rightarrow> hub_st \<Rightarrow> hub_st" where
  "mb_set_do E val s = set_do_loop E val [0..<do_count E] s"

section \<open>Time\<close>

definition TS_MIN :: int where "TS_MIN = 946684800"
definition TS_MAX :: int where "TS_MAX = 4102444800"

definition set_timestamp :: "hub_env \<Rightarrow> int \<Rightarrow> hub_st \<Rightarrow> bool \<times> hub_st" where
  "set_timestamp E t s =
     (if \<not> rtc_dev_set s \<or> t < TS_MIN \<or> t \<ge> TS_MAX then (False, s)
      else if \<not> gmtime_ok E t then (False, s)
      else if rtc_set_rc E t \<noteq> 0 then (False, s)
      else (True, s\<lparr>rtc_clock := t, sys_clock := t\<rparr>))"

text \<open>Restoring the clock at boot; \<open>rtc\<close> is the time the device reads, \<open>None\<close> when the read fails.\<close>

definition clock_init :: "bool \<Rightarrow> int option \<Rightarrow> hub_st \<Rightarrow> int \<times> hub_st" where
  "clock_init ready rtc s =
     (let s = s\<lparr>rtc_dev_set := True\<rparr> in
      if \<not> ready then (- ENODEV, s)
      else (0, case rtc of None \<Rightarrow> s | Some t \<Rightarrow> s\<lparr>sys_clock := t\<rparr>))"

section \<open>Flags of main.c\<close>

definition net_link_is_up :: "hub_st \<Rightarrow> bool" where "net_link_is_up s = net_link_up s"

definition set_reboot_status :: "bool \<Rightarrow> hub_st \<Rightarrow> hub_st" where
  "set_reboot_status en s = s\<lparr>reboot_pending := en\<rparr>"

definition get_reboot_status :: "hub_st \<Rightarrow> bool" where "get_reboot_status s = reboot_pending s"

section \<open>The history switch\<close>

text \<open>Disabling only schedules the work item; the writing is done by \<open>his_work_handler\<close>.\<close>

definition history_enable_write :: "bool \<Rightarrow> hub_st \<Rightarrow> hub_st" where
  "history_enable_write en s =
     (let s = s\<lparr>history_enabled := en\<rparr> in if \<not> en then s\<lparr>his_work_pending := True\<rparr> else s)"

definition HIS_MSGQ_DEPTH :: nat where "HIS_MSGQ_DEPTH = 16"

definition send_history_data :: "bool \<Rightarrow> his_data \<Rightarrow> hub_st \<Rightarrow> hub_st" where
  "send_history_data lfs_ready d s =
     (if \<not> history_enabled s \<or> \<not> lfs_ready then s
      else if length (his_msgq s) < HIS_MSGQ_DEPTH
      then s\<lparr>his_msgq := his_msgq s @ [d], his_work_pending := True\<rparr>
      else s)"

end
