(* ===== verification/SettingsApi.thy ===== *)
theory SettingsApi imports Prelude "HOL-Library.AList" begin

text \<open>
  What the applications use of the settings library: splitting a name at its separator, with the documented
  law and an implementation that meets it, and a store of named values.
\<close>

text \<open>
  \<open>settings_name_next\<close> gives the length of the first segment of a name and the rest after the separator.
\<close>

type_synonym name_next = "string \<Rightarrow> nat \<times> string option"

definition name_next_std :: name_next where
  "name_next_std n = (let l = length (takeWhile (\<lambda>c. c \<noteq> CHR ''/'' \<and> c \<noteq> CHR ''='') n) in
     (l, if l < length n \<and> n ! l = CHR ''/'' then Some (drop (l + 1) n) else None))"

text \<open>What the settings library documents of \<open>settings_name_next\<close>, on names without \<open>=\<close>.\<close>

definition name_next_law :: "name_next \<Rightarrow> bool" where
  "name_next_law nn \<longleftrightarrow> (\<forall>n. CHR ''='' \<notin> set n \<longrightarrow>
     (snd (nn n) = None \<longleftrightarrow> CHR ''/'' \<notin> set n) \<and> (CHR ''/'' \<notin> set n \<longrightarrow> fst (nn n) = length n))"

lemma name_next_std_law: "name_next_law name_next_std"
proof (unfold name_next_law_def, intro allI impI)
  fix n :: string assume e: "CHR ''='' \<notin> set n"
  let ?w = "takeWhile (\<lambda>c. c \<noteq> CHR ''/'' \<and> c \<noteq> CHR ''='') n"
  have w: "?w = takeWhile (\<lambda>c. c \<noteq> CHR ''/'') n"
    using e by (induction n) auto
  show "(snd (name_next_std n) = None \<longleftrightarrow> CHR ''/'' \<notin> set n) \<and> (CHR ''/'' \<notin> set n \<longrightarrow> fst (name_next_std n) = length n)"
  proof (cases "CHR ''/'' \<in> set n")
    case True
    have "length ?w < length n" unfolding w using True
      by (induction n) auto
    then show ?thesis using True nth_length_takeWhile [of "\<lambda>c. c \<noteq> CHR ''/''" n]
      by (simp add: name_next_std_def Let_def w)
  next
    case False
    then have tw: "takeWhile (\<lambda>c. c \<noteq> CHR ''/'') n = n" by (auto simp: takeWhile_eq_all_conv)
    show ?thesis using False by (simp add: name_next_std_def Let_def w tw)
  qed
qed

text \<open>A name matches a key the way \<open>strncmp(name, key, name_len)\<close> tests it: the key may be longer.\<close>

definition NAME_STARTS :: "string \<Rightarrow> nat \<Rightarrow> string \<Rightarrow> bool" where
  "NAME_STARTS n l k \<longleftrightarrow> take l n = take l k"

text \<open>A store keeps one value per name; loading hands every stored pair below a prefix to the handler.\<close>

type_synonym store = "(string \<times> bytes) list"

definition store_put :: "(string \<times> bytes) list \<Rightarrow> store \<Rightarrow> store" where
  "store_put kvs st = fold (\<lambda>(k, v). AList.update k v) kvs st"

definition under :: "string \<Rightarrow> string \<Rightarrow> string option" where
  "under p k = (if take (length p) k = p then Some (drop (length p) k) else None)"

definition store_load :: "string \<Rightarrow> (string \<Rightarrow> bytes \<Rightarrow> 's \<Rightarrow> 's) \<Rightarrow> store \<Rightarrow> 's \<Rightarrow> 's" where
  "store_load p h st s = fold (\<lambda>e s. case under p (fst e) of None \<Rightarrow> s | Some n \<Rightarrow> h n (snd e) s) st s"

lemma under_append [simp]: "under p (p @ k) = Some k"
  by (simp add: under_def)

lemma under_Some: "under p k = Some n \<longleftrightarrow> k = p @ n"
  by (auto simp: under_def) (metis append_take_drop_id)

lemma store_put_distinct: "distinct (map fst st) \<Longrightarrow> distinct (map fst (store_put kvs st))"
  by (induction kvs arbitrary: st) (simp_all add: store_put_def case_prod_beta distinct_update)

lemma store_put_get: "map_of (store_put kvs st) = map_of st ++ map_of (rev kvs)"
proof (induction kvs arbitrary: st)
  case (Cons e kvs)
  have "store_put (e # kvs) st = store_put kvs (AList.update (fst e) (snd e) st)"
    by (simp add: store_put_def case_prod_beta)
  moreover have "(map_of st)(fst e \<mapsto> snd e) ++ map_of (rev kvs) = map_of st ++ ([fst e \<mapsto> snd e] ++ map_of (rev kvs))"
    by (rule ext) (auto simp: map_add_def split: option.split)
  ultimately show ?case using Cons by (simp add: update_conv' fun_upd_def)
qed (simp add: store_put_def)

text \<open>Loading gives a field the stored value of its key, when the entries of other keys leave the field alone.\<close>

lemma store_load_get:
  assumes "distinct (map fst st)" "map_of st (p @ k) = Some v"
    and "\<And>n v s. p @ n \<in> fst ` set st \<Longrightarrow> n \<noteq> k \<Longrightarrow> get (h n v s) = get s" and "\<And>s. get (h k v s) = x"
  shows "get (store_load p h st s) = x"
proof -
  let ?step = "\<lambda>e s. case under p (fst e) of None \<Rightarrow> s | Some n \<Rightarrow> h n (snd e) s"
  have other: "get (fold ?step es s) = get s" if "p @ k \<notin> fst ` set es" "set es \<subseteq> set st" for es s
    using that
  proof (induction es arbitrary: s)
    case (Cons e es)
    have "get (?step e s) = get s"
    proof (cases "under p (fst e)")
      case (Some n)
      then have "p @ n \<in> fst ` set st" "n \<noteq> k" using Cons.prems imageI [of e "set st" fst] by (auto simp: under_Some)
      then show ?thesis using assms(3) by (simp add: Some)
    qed simp
    then show ?case using Cons by simp
  qed simp
  have "get (fold ?step es s) = x" if "distinct (map fst es)" "map_of es (p @ k) = Some v" "set es \<subseteq> set st" for es s
    using that
  proof (induction es arbitrary: s)
    case (Cons e es)
    show ?case
    proof (cases "fst e = p @ k")
      case True
      then show ?thesis using Cons.prems other [of es "h k v s"] assms(4) by (simp add: split_beta)
    next
      case False
      then show ?thesis using Cons by (simp add: split_beta)
    qed
  qed simp
  then show ?thesis using assms(1,2) unfolding store_load_def by blast
qed

text \<open>The same for a field whose handler may refuse the stored value, or whose key may be absent.\<close>

lemma store_load_field:
  assumes "distinct (map fst st)" "\<And>n v s. p @ n \<in> fst ` set st \<Longrightarrow> n \<noteq> k \<Longrightarrow> get (h n v s) = get s"
    and "\<And>v s. get (h k v s) = (if ok v then rd v else get s)"
  shows "get (store_load p h st s) = (case map_of st (p @ k) of Some v \<Rightarrow> if ok v then rd v else get s | None \<Rightarrow> get s)"
proof (cases "\<exists>v. map_of st (p @ k) = Some v \<and> ok v")
  case True
  then obtain v where v: "map_of st (p @ k) = Some v" "ok v" by blast
  show ?thesis using store_load_get [OF assms(1) v(1), of get h "rd v" s] assms(2,3) v by simp
next
  case False
  have "get (fold (\<lambda>e s. case under p (fst e) of None \<Rightarrow> s | Some n \<Rightarrow> h n (snd e) s) es s) = get s" if "set es \<subseteq> set st" for es s
    using that
  proof (induction es arbitrary: s)
    case (Cons e es)
    have "get (case under p (fst e) of None \<Rightarrow> s | Some n \<Rightarrow> h n (snd e) s) = get s"
    proof (cases "under p (fst e)")
      case (Some n)
      then have e: "fst e = p @ n" by (simp add: under_Some)
      show ?thesis
      proof (cases "n = k")
        case True
        then have "map_of st (p @ k) = Some (snd e)" using Cons.prems e assms(1) by (cases e) auto
        then show ?thesis using False assms(3) by (simp add: Some True)
      next
        case False
        then show ?thesis using assms(2) [of n "snd e" s] Cons.prems e imageI [of e "set st" fst] by (simp add: Some)
      qed
    qed simp
    then show ?case using Cons by simp
  qed simp
  then show ?thesis using False by (auto simp: store_load_def split: option.split)
qed

end
