(* ===== verification/Regs.thy ===== *)
theory Regs imports HubState SettingsApi "HOL-Library.Signed_Division" begin

text \<open>
  The register map of the hub: the writes with side effects and the Modbus callbacks of
  \<open>modbus/function.c\<close>, its settings handler (export, load, factory reset), the start-up of
  \<open>settings/init.c\<close>, one round of the sampling threads of \<open>io/dio.c\<close> and \<open>io/adc.c\<close>, and the link
  events of \<open>main.c\<close>.  The last section splits the writes into their atomic actions.
\<close>

section \<open>The settings handler\<close>

text \<open>A stored value is a byte string and whether reading it back succeeds.\<close>

definition NAME_IS :: "string \<Rightarrow> nat \<Rightarrow> string \<Rightarrow> bool" where
  "NAME_IS n l k \<longleftrightarrow> l = length k \<and> take l n = k"

definition mb_set_one :: "bytes \<Rightarrow> bool \<Rightarrow> holding_reg_idx \<Rightarrow> hub_st \<Rightarrow> int \<times> hub_st" where
  "mb_set_one v rd r s =
     (if length v = 2 \<and> rd
      then (0, s\<lparr>holding_reg := (holding_reg s)[unat (holding_idx r) := get_le16 v]\<rparr>) else (0, s))"

definition set_ip_regs :: "bytes \<Rightarrow> hub_st \<Rightarrow> hub_st" where
  "set_ip_regs v s = s\<lparr>holding_reg := (holding_reg s)[10 := get_le16 v, 11 := get_le16 (drop 2 v),
     12 := get_le16 (drop 4 v), 13 := get_le16 (drop 6 v)]\<rparr>"

definition single_keys :: "(string \<times> holding_reg_idx) list" where
  "single_keys = [(''di_en'', HOLDING_DI_ENABLE), (''ai_en'', HOLDING_AI_ENABLE),
     (''di_si'', HOLDING_DI_SAMPLE_MS), (''ai_si'', HOLDING_AI_SAMPLE_MS),
     (''his'', HOLDING_HISTORY_ENABLE), (''can_id'', HOLDING_CAN_ID),
     (''can_bps'', HOLDING_CAN_BAUDRATE), (''rs485_bps'', HOLDING_RS485_BAUDRATE),
     (''slave_id'', HOLDING_SLAVE_ID)]"

fun set_by_name :: "(string \<times> holding_reg_idx) list \<Rightarrow> string \<Rightarrow> nat \<Rightarrow> bytes \<Rightarrow> bool \<Rightarrow> hub_st \<Rightarrow> int \<times> hub_st" where
  "set_by_name [] n l v rd s = (- ENOENT, s)"
| "set_by_name ((k, r) # ks) n l v rd s =
     (if NAME_IS n l k then mb_set_one v rd r s else set_by_name ks n l v rd s)"

definition mb_handle_set :: "name_next \<Rightarrow> string \<Rightarrow> bytes \<Rightarrow> bool \<Rightarrow> hub_st \<Rightarrow> int \<times> hub_st" where
  "mb_handle_set nn n v rd s =
     (let (l, rest) = nn n in
      if rest = None \<and> NAME_IS n l ''ip''
      then (0, if length v = 8 \<and> rd then set_ip_regs v s else s)
      else if rest \<noteq> None then (- ENOENT, s)
      else set_by_name single_keys n l v rd s)"

definition ip_addr_valid :: "u8 \<Rightarrow> u8 \<Rightarrow> u8 \<Rightarrow> u8 \<Rightarrow> bool" where
  "ip_addr_valid a b c d =
     (if d = 0 \<or> d = 0xFF then False else if a = 0 \<or> a = 127 \<or> a \<ge> 224 then False else True)"

definition ip_is_valid_for_export :: "hub_st \<Rightarrow> bool" where
  "ip_is_valid_for_export s = ip_addr_valid (ucast (holding_reg s ! 10)) (ucast (holding_reg s ! 11))
     (ucast (holding_reg s ! 12)) (ucast (holding_reg s ! 13))"

definition reg_bytes :: "holding_reg_idx \<Rightarrow> hub_st \<Rightarrow> bytes" where
  "reg_bytes r s = put_le16 (holding_reg s ! unat (holding_idx r))"

text \<open>The pairs \<open>mb_handle_export\<close> passes to the backend, in order.\<close>

definition mb_handle_export :: "hub_st \<Rightarrow> (string \<times> bytes) list" where
  "mb_handle_export s =
     map (\<lambda>(k, r). (''modbus/'' @ k, reg_bytes r s)) single_keys @
     (if ip_is_valid_for_export s
      then [(''modbus/ip'', concat (map (\<lambda>r. reg_bytes r s)
              [HOLDING_IP_OCTET1, HOLDING_IP_OCTET2, HOLDING_IP_OCTET3, HOLDING_IP_OCTET4]))] else [])"

text \<open>Saving stores each exported pair under its name; loading hands each stored pair to the handler.\<close>

definition settings_save :: "hub_st \<Rightarrow> hub_st" where
  "settings_save s = s\<lparr>settings_store := fold (\<lambda>(k, v). AList.update k v) (mb_handle_export s) (settings_store s)\<rparr>"

definition holding_reg_save :: "hub_st \<Rightarrow> hub_st" where
  "holding_reg_save s = settings_save s"

definition strip_modbus :: "string \<Rightarrow> string option" where
  "strip_modbus k = (if take 7 k = ''modbus/'' then Some (drop 7 k) else None)"

definition load_entry :: "name_next \<Rightarrow> string \<times> bytes \<Rightarrow> hub_st \<Rightarrow> hub_st" where
  "load_entry nn e s = (case strip_modbus (fst e) of None \<Rightarrow> s
     | Some n \<Rightarrow> snd (mb_handle_set nn n (snd e) True s))"

definition settings_load :: "name_next \<Rightarrow> hub_st \<Rightarrow> hub_st" where
  "settings_load nn s = fold (load_entry nn) (settings_store s) s"

text \<open>Erasing the storage partition; \<open>open_rc\<close> and \<open>erase_rc\<close> are the driver's results.\<close>

definition settings_factory_reset :: "int \<Rightarrow> int \<Rightarrow> hub_st \<Rightarrow> int \<times> hub_st" where
  "settings_factory_reset open_rc erase_rc s =
     (if open_rc \<noteq> 0 then (open_rc, s)
      else if erase_rc \<noteq> 0 then (erase_rc, s) else (0, s\<lparr>settings_store := []\<rparr>))"

section \<open>Writes with side effects\<close>

definition combined_time :: "hub_st \<Rightarrow> u16 \<Rightarrow> int" where
  "combined_time s lo = uint (push_bit 16 (ucast (get_holding_reg (holding_idx HOLDING_TIMESTAMP_HI) s) :: u32) OR ucast lo)"

text \<open>\<open>io_write_effect\<close>: the switch of \<open>io_write_holding\<close>, after the register has its new value.\<close>

definition io_write_effect :: "hub_env \<Rightarrow> u16 \<Rightarrow> u16 \<Rightarrow> hub_st \<Rightarrow> hub_st" where
  "io_write_effect E addr reg s =
     (if addr = holding_idx HOLDING_DO then mb_set_do E (reg AND 0xFF) s
      else if addr = holding_idx HOLDING_HISTORY_ENABLE then history_enable_write (reg \<noteq> 0) s
      else if addr = holding_idx HOLDING_TIMESTAMP_LO then snd (set_timestamp E (combined_time s reg) s)
      else if addr = holding_idx HOLDING_CONFIG_SAVE
      then settings_save (s\<lparr>holding_reg := (holding_reg s)[unat addr := 0]\<rparr>)
      else if addr = holding_idx HOLDING_REBOOT
      then (let s = s\<lparr>holding_reg := (holding_reg s)[unat addr := 0]\<rparr> in
            if reg \<noteq> 0 then set_reboot_status True s else s)
      else s)"

definition io_write_holding :: "hub_env \<Rightarrow> u16 \<Rightarrow> u16 \<Rightarrow> hub_st \<Rightarrow> int \<times> hub_st" where
  "io_write_holding E addr reg s =
     (if unat addr \<ge> length (holding_reg s) then (- ENOTSUP, s)
      else if holding_reg s ! unat addr = reg then (0, s)
      else (0, io_write_effect E addr reg (s\<lparr>holding_reg := (holding_reg s)[unat addr := reg]\<rparr>)))"

definition io_write_do_bit :: "hub_env \<Rightarrow> u16 \<Rightarrow> bool \<Rightarrow> hub_st \<Rightarrow> int \<times> hub_st" where
  "io_write_do_bit E b st s =
     (if unat b \<ge> DO_NUM then (- ENOTSUP, s)
      else
        let v = holding_reg s ! 0;
            v = (if st then v OR push_bit (unat b) 1 else v AND NOT (push_bit (unat b) 1));
            s = mb_set_do E (v AND 0xFF) s in
        (0, s\<lparr>holding_reg := (holding_reg s)[0 := v AND 0xFF]\<rparr>))"

section \<open>Modbus callbacks\<close>

definition holding_reg_rd_cb :: "u16 \<Rightarrow> hub_st \<Rightarrow> int + u16" where
  "holding_reg_rd_cb addr s =
     (if unat addr \<ge> length (holding_reg s) then Inl (- ENOTSUP)
      else if addr = holding_idx HOLDING_TIMESTAMP_HI then Inr (ucast (drop_bit 16 (of_int (sys_clock s) :: u32)))
      else if addr = holding_idx HOLDING_TIMESTAMP_LO then Inr (ucast (of_int (sys_clock s) :: u32))
      else Inr (holding_reg s ! unat addr))"

definition holding_reg_wr_cb :: "hub_env \<Rightarrow> u16 \<Rightarrow> u16 \<Rightarrow> hub_st \<Rightarrow> int \<times> hub_st" where
  "holding_reg_wr_cb E addr reg s = io_write_holding E addr reg s"

definition input_reg_rd_cb :: "u16 \<Rightarrow> hub_st \<Rightarrow> int + u16" where
  "input_reg_rd_cb addr s =
     (if unat addr \<ge> length (input_reg s) then Inl (- ENOTSUP) else Inr (input_reg s ! unat addr))"

definition coil_rd_cb :: "u16 \<Rightarrow> hub_st \<Rightarrow> int + bool" where
  "coil_rd_cb addr s = (if unat addr \<ge> DO_NUM then Inl (- ENOTSUP) else Inr (bit (holding_reg s ! 0) (unat addr)))"

definition coil_wr_cb :: "hub_env \<Rightarrow> u16 \<Rightarrow> bool \<Rightarrow> hub_st \<Rightarrow> int \<times> hub_st" where
  "coil_wr_cb E addr st s = io_write_do_bit E addr st s"

definition discrete_input_rd_cb :: "u16 \<Rightarrow> hub_st \<Rightarrow> int + bool" where
  "discrete_input_rd_cb addr s =
     (if unat addr \<ge> DI_NUM then Inl (- ENOTSUP) else Inr (bit (input_reg s ! 5) (unat addr)))"

section \<open>Start-up\<close>

definition can_bitrates :: "u16 list" where
  "can_bitrates = [50, 100, 125, 250, 500, 800, 1000]"

text \<open>
  \<open>modbus_settings_init\<close>; its two registrations of \<open>history_sync\<close> as a pre-reboot hook are calls of
  \<open>udp_fw_add_pre_reboot_hook\<close> and \<open>can_fw_add_pre_reboot_hook\<close> on the libraries' own states.
\<close>

definition modbus_settings_init :: "name_next \<Rightarrow> int \<Rightarrow> int \<Rightarrow> hub_st \<Rightarrow> int \<times> hub_st" where
  "modbus_settings_init nn init_rc load_rc s =
     (if init_rc \<noteq> 0 then (init_rc, s)
      else
        let s = settings_load nn s in
        if load_rc \<noteq> 0 then (load_rc, s)
        else
          let now = (of_int (sys_clock s) :: u32);
              s = snd (update_holding_reg (holding_idx HOLDING_TIMESTAMP_HI) (ucast (drop_bit 16 now)) s);
              s = snd (update_holding_reg (holding_idx HOLDING_TIMESTAMP_LO) (ucast now) s);
              s = history_enable_write (get_holding_reg (holding_idx HOLDING_HISTORY_ENABLE) s \<noteq> 0) s;
              k = get_holding_reg (holding_idx HOLDING_CAN_BAUDRATE) s in
          (0, if k \<in> set can_bitrates then s\<lparr>can_bitrate_inject := Some (ucast k * 1000)\<rparr> else s))"

section \<open>Sampling\<close>

definition SAMPLE_INTERVAL_MAX :: u32 where "SAMPLE_INTERVAL_MAX = 5000"

definition sample_interval :: "u16 \<Rightarrow> u32" where
  "sample_interval v = (let si = ucast v in
     if si < 10 then 10 else if si > SAMPLE_INTERVAL_MAX then SAMPLE_INTERVAL_MAX else si)"

text \<open>One round of the DI thread; \<open>pin\<close> is what the inputs read, the result also the time it sleeps.\<close>

definition di_sample_value :: "hub_env \<Rightarrow> u16 \<Rightarrow> (nat \<Rightarrow> bool) \<Rightarrow> u16" where
  "di_sample_value E en pin =
     fold (\<lambda>i v. if bit en i \<and> pin i then v OR push_bit i 1 else v) [0..<min DI_NUM (n_di_gpios E)] 0"

definition di_thread :: "hub_env \<Rightarrow> bool \<Rightarrow> (nat \<Rightarrow> bool) \<Rightarrow> hub_st \<Rightarrow> u32 \<times> hub_st" where
  "di_thread E lfs_ready pin s =
     (let si = sample_interval (get_holding_reg (holding_idx HOLDING_DI_SAMPLE_MS) s);
          en = get_holding_reg (holding_idx HOLDING_DI_ENABLE) s;
          v = di_sample_value E en pin;
          s = snd (update_input_reg (input_idx INPUT_DI) v s) in
      (si, if en \<noteq> 0 then send_history_data lfs_ready (DI_record (of_int (sys_clock s)) en v) s else s))"

text \<open>
  A 12-bit sample in engineering units.  The C code computes the voltage in a 32-bit int (no
  16-bit sample overflows it), converts it to unsigned and keeps the low 16 bits of the quotient.
\<close>

definition ai_convert :: "hub_env \<Rightarrow> nat \<Rightarrow> int \<Rightarrow> u16" where
  "ai_convert E ch raw =
     (let voltage_mv = (of_int ((raw * 3300) sdiv 4096) :: u32);
          val = (of_nat ((unat (ai_coeff E ! ch) * unat voltage_mv) div 10000) :: u32) in
      ucast val)"

definition adc_thread :: "hub_env \<Rightarrow> bool \<Rightarrow> (nat \<Rightarrow> int option) \<Rightarrow> hub_st \<Rightarrow> u32 \<times> hub_st" where
  "adc_thread E lfs_ready adc s =
     (let si = sample_interval (get_holding_reg (holding_idx HOLDING_AI_SAMPLE_MS) s);
          en = get_holding_reg (holding_idx HOLDING_AI_ENABLE) s;
          s = fold (\<lambda>i s. if bit en i then (case adc i of None \<Rightarrow> s
                     | Some raw \<Rightarrow> snd (update_input_reg (input_idx INPUT_AI0 + of_nat i) (ai_convert E i raw) s)) else s)
                [0..<min (n_adc_specs E) AI_NUM] s in
      (si, if en AND 0x000F \<noteq> 0
           then send_history_data lfs_ready (AI_record (of_int (sys_clock s)) (en AND 0x000F)
                  (map (\<lambda>i. get_input_reg (input_idx INPUT_AI0 + of_nat i) s) [0..<AI_NUM])) s
           else s))"

text \<open>Configuring the pins and channels; the readiness of the devices is the argument.\<close>

definition dio_init :: "hub_env \<Rightarrow> (nat \<Rightarrow> bool) \<Rightarrow> hub_st \<Rightarrow> int \<times> hub_st" where
  "dio_init E ready s =
     (if \<exists>i \<in> set [0..<n_di_gpios E]. \<not> ready i then (- ENODEV, s)
      else (0, s\<lparr>do_pins := replicate (n_do_gpios E) False, led_pins := replicate (n_led_gpios E) False\<rparr>))"

fun adc_setup_loop :: "(nat \<Rightarrow> bool) \<Rightarrow> (nat \<Rightarrow> int) \<Rightarrow> nat list \<Rightarrow> int" where
  "adc_setup_loop ready setup [] = 0"
| "adc_setup_loop ready setup (i # is) =
     (if \<not> ready i then - ENODEV else if setup i \<noteq> 0 then - EIO else adc_setup_loop ready setup is)"

definition adc_init :: "hub_env \<Rightarrow> (nat \<Rightarrow> bool) \<Rightarrow> (nat \<Rightarrow> int) \<Rightarrow> int" where
  "adc_init E ready setup =
     (if n_adc_specs E \<noteq> AI_NUM then - EINVAL else adc_setup_loop ready setup [0..<n_adc_specs E])"

section \<open>Link events\<close>

definition net_if_acts :: "hub_env \<Rightarrow> bool option \<Rightarrow> (hub_st \<Rightarrow> hub_st) list" where
  "net_if_acts E up =
     (case up of None \<Rightarrow> []
      | Some True \<Rightarrow> [\<lambda>s. s\<lparr>net_link_up := True\<rparr>]
      | Some False \<Rightarrow> [\<lambda>s. s\<lparr>net_link_up := False\<rparr>,
          \<lambda>s. snd (update_holding_reg (holding_idx HOLDING_DO) 0 s), mb_set_do E 0])"

definition net_if_event_handler :: "hub_env \<Rightarrow> bool option \<Rightarrow> hub_st \<Rightarrow> hub_st" where
  "net_if_event_handler E up s = fold (\<lambda>f. f) (net_if_acts E up) s"

section \<open>The operations as sequences of atomic actions\<close>

text \<open>
  The operations above run in several threads (the Modbus servers, the web server, the network
  management thread) that can interrupt one another.  What an operation does after its checks, as
  the list of the assignments and calls another thread can come in between: \<open>io_write_acts\<close> and
  \<open>io_do_bit_acts\<close> depend on the state the checks read, \<open>net_if_acts\<close> is the event handler.
\<close>

definition io_write_acts :: "hub_env \<Rightarrow> u16 \<Rightarrow> u16 \<Rightarrow> hub_st \<Rightarrow> (hub_st \<Rightarrow> hub_st) list" where
  "io_write_acts E addr reg s =
     (if unat addr \<ge> length (holding_reg s) then []
      else if holding_reg s ! unat addr = reg then []
      else [\<lambda>s. s\<lparr>holding_reg := (holding_reg s)[unat addr := reg]\<rparr>, io_write_effect E addr reg])"

definition io_do_bit_acts :: "hub_env \<Rightarrow> u16 \<Rightarrow> bool \<Rightarrow> hub_st \<Rightarrow> (hub_st \<Rightarrow> hub_st) list" where
  "io_do_bit_acts E b st s =
     (if unat b \<ge> DO_NUM then []
      else
        let v = holding_reg s ! 0;
            v = (if st then v OR push_bit (unat b) 1 else v AND NOT (push_bit (unat b) 1)) in
        [mb_set_do E (v AND 0xFF), \<lambda>s. s\<lparr>holding_reg := (holding_reg s)[0 := v AND 0xFF]\<rparr>])"

end
