(* ===== verification/RegProps.thy ===== *)
theory RegProps imports Regs begin

text \<open>
  What the register map guarantees: the outputs follow the DO register through every operation
  and every interleaving of operations in which one writer of the outputs is under way at a time, the persisted parameters survive a save and a load, what a register write does on each address,
  the range of the analog conversion.  Reading back what was written is the interface
  \<open>register_bank\<close>, interpreted on the holding and on the input registers.
\<close>

section \<open>Banks of registers\<close>

locale register_bank =
  fixes rd :: "u16 \<Rightarrow> 's \<Rightarrow> u16"
    and wr :: "u16 \<Rightarrow> u16 \<Rightarrow> 's \<Rightarrow> 's"
    and valid :: "'s \<Rightarrow> u16 \<Rightarrow> bool"
  assumes rd_wr: "valid s a \<Longrightarrow> rd b (wr a v s) = (if b = a then v else rd b s)"
    and wr_invalid: "\<not> valid s a \<Longrightarrow> wr a v s = s"
    and wr_valid: "valid (wr a v s) = valid s"
begin

definition wr_block :: "(u16 \<times> u16) list \<Rightarrow> 's \<Rightarrow> 's" where
  "wr_block = fold (\<lambda>(a, v). wr a v)"

lemma block_valid: "valid (wr_block avs s) = valid s"
  by (induction avs arbitrary: s) (auto simp: wr_block_def wr_valid)

lemma block_other: "\<forall>(a, v) \<in> set avs. a \<noteq> b \<Longrightarrow> rd b (wr_block avs s) = rd b s"
proof (induction avs arbitrary: s)
  case (Cons av avs)
  obtain a v where av: "av = (a, v)" by fastforce
  have "rd b (wr a v s) = rd b s" using Cons.prems av rd_wr [of s a b v] wr_invalid [of s a v]
    by (cases "valid s a") auto
  then show ?case using Cons.IH [of "wr a v s"] Cons.prems by (simp add: wr_block_def av)
qed (simp add: wr_block_def)

lemma block_read: "distinct (map fst avs) \<Longrightarrow> (a, v) \<in> set avs \<Longrightarrow> valid s a \<Longrightarrow> rd a (wr_block avs s) = v"
proof (induction avs arbitrary: s)
  case (Cons av avs)
  obtain a' v' where av: "av = (a', v')" by fastforce
  show ?case
  proof (cases "(a, v) \<in> set avs")
    case True
    then show ?thesis using Cons.IH [of "wr a' v' s"] Cons.prems by (simp add: wr_block_def av wr_valid)
  next
    case False
    then have e: "a' = a" "v' = v" using Cons.prems(2) av by auto
    have "\<forall>(b, w) \<in> set avs. b \<noteq> a" using Cons.prems(1) av e by force
    then show ?thesis using block_other [of avs a "wr a v s"] Cons.prems(3) rd_wr [of s a a v]
      by (simp add: wr_block_def av e)
  qed
qed simp

end

interpretation holding: register_bank get_holding_reg "\<lambda>a v s. snd (update_holding_reg a v s)"
  "\<lambda>s a. unat a < length (holding_reg s)"
  by unfold_locales
     (auto simp: get_holding_reg_def update_holding_reg_def nth_list_update word_unat_eq_iff)

interpretation input: register_bank get_input_reg "\<lambda>a v s. snd (update_input_reg a v s)"
  "\<lambda>s a. unat a < length (input_reg s)"
  by unfold_locales
     (auto simp: get_input_reg_def update_input_reg_def nth_list_update word_unat_eq_iff)

section \<open>The outputs\<close>

lemma set_do_loop_regs [simp]:
  "holding_reg (set_do_loop E v is s) = holding_reg s" "length (do_pins (set_do_loop E v is s)) = length (do_pins s)"
  "length (led_pins (set_do_loop E v is s)) = length (led_pins s)" "input_reg (set_do_loop E v is s) = input_reg s"
  "sys_clock (set_do_loop E v is s) = sys_clock s" "reboot_pending (set_do_loop E v is s) = reboot_pending s"
  by (induction "is" arbitrary: s) (simp_all add: Let_def)

lemma set_do_loop_pins:
  "i < length (do_pins s) \<Longrightarrow> do_pins (set_do_loop E v is s) ! i = (if i \<in> set is then bit v i else do_pins s ! i)"
  by (induction "is" arbitrary: s) (auto simp: Let_def nth_list_update)

lemma set_do_loop_leds:
  "i < length (led_pins s) \<Longrightarrow>
   led_pins (set_do_loop E v is s) ! i = (if i \<in> set is \<and> i < n_led_gpios E then bit v i else led_pins s ! i)"
  by (induction "is" arbitrary: s) (auto simp: Let_def nth_list_update)

lemma mb_set_do_regs [simp]:
  "holding_reg (mb_set_do E v s) = holding_reg s" "length (do_pins (mb_set_do E v s)) = length (do_pins s)"
  "length (led_pins (mb_set_do E v s)) = length (led_pins s)" "input_reg (mb_set_do E v s) = input_reg s"
  "sys_clock (mb_set_do E v s) = sys_clock s" "reboot_pending (mb_set_do E v s) = reboot_pending s"
  by (simp_all add: mb_set_do_def)

text \<open>Each output pin, and its LED, shows its bit of the DO register; the arrays have their sizes.\<close>

definition outputs_ok :: "hub_env \<Rightarrow> hub_st \<Rightarrow> bool" where
  "outputs_ok E s \<longleftrightarrow> length (holding_reg s) = 18 \<and> length (input_reg s) = 6 \<and>
     length (do_pins s) = n_do_gpios E \<and> length (led_pins s) = n_led_gpios E \<and>
     (\<forall>i < do_count E. do_pins s ! i = bit (holding_reg s ! 0) i) \<and>
     (\<forall>i < min (do_count E) (n_led_gpios E). led_pins s ! i = bit (holding_reg s ! 0) i)"

lemma outputs_mb_set:
  assumes "length (holding_reg s) = 18" "length (input_reg s) = 6" "length (do_pins s) = n_do_gpios E"
    "length (led_pins s) = n_led_gpios E" "\<forall>i < do_count E. bit v i = bit (holding_reg s ! 0) i"
  shows "outputs_ok E (mb_set_do E v s)"
  using assms by (auto simp: outputs_ok_def mb_set_do_def set_do_loop_pins set_do_loop_leds do_count_def)

lemma outputs_same_regs:
  "outputs_ok E s \<Longrightarrow> holding_reg t ! 0 = holding_reg s ! 0 \<Longrightarrow> length (holding_reg t) = length (holding_reg s) \<Longrightarrow>
   length (input_reg t) = length (input_reg s) \<Longrightarrow> do_pins t = do_pins s \<Longrightarrow> led_pins t = led_pins s \<Longrightarrow> outputs_ok E t"
  by (simp add: outputs_ok_def)

lemma set_timestamp_regs [simp]:
  "holding_reg (snd (set_timestamp E t s)) = holding_reg s" "input_reg (snd (set_timestamp E t s)) = input_reg s"
  "do_pins (snd (set_timestamp E t s)) = do_pins s" "led_pins (snd (set_timestamp E t s)) = led_pins s"
  "reboot_pending (snd (set_timestamp E t s)) = reboot_pending s"
  by (simp_all add: set_timestamp_def)

lemma history_enable_regs [simp]:
  "holding_reg (history_enable_write b s) = holding_reg s" "input_reg (history_enable_write b s) = input_reg s"
  "do_pins (history_enable_write b s) = do_pins s" "led_pins (history_enable_write b s) = led_pins s"
  "sys_clock (history_enable_write b s) = sys_clock s" "reboot_pending (history_enable_write b s) = reboot_pending s"
  by (simp_all add: history_enable_write_def Let_def)

lemma settings_save_regs [simp]:
  "holding_reg (settings_save s) = holding_reg s" "input_reg (settings_save s) = input_reg s"
  "do_pins (settings_save s) = do_pins s" "led_pins (settings_save s) = led_pins s"
  "sys_clock (settings_save s) = sys_clock s" "reboot_pending (settings_save s) = reboot_pending s"
  by (simp_all add: settings_save_def)

lemma set_reboot_regs [simp]:
  "holding_reg (set_reboot_status b s) = holding_reg s" "input_reg (set_reboot_status b s) = input_reg s"
  "do_pins (set_reboot_status b s) = do_pins s" "led_pins (set_reboot_status b s) = led_pins s"
  "sys_clock (set_reboot_status b s) = sys_clock s" "reboot_pending (set_reboot_status b s) = b"
  by (simp_all add: set_reboot_status_def)

lemma send_history_regs [simp]:
  "holding_reg (send_history_data r d s) = holding_reg s" "input_reg (send_history_data r d s) = input_reg s"
  "do_pins (send_history_data r d s) = do_pins s" "led_pins (send_history_data r d s) = led_pins s"
  by (simp_all add: send_history_data_def)

lemma low_byte_bit: "i < 8 \<Longrightarrow> bit ((v :: u16) AND 255) i = bit v i"
  using bit_mask_iff [of 8 i, where 'a = "16 word"] by (simp add: mask_eq_exp_minus_1 bit_and_iff)

lemma outputs_write:
  assumes "outputs_ok E s"
  shows "outputs_ok E (snd (io_write_holding E addr reg s))"
proof (cases "addr = holding_idx HOLDING_DO")
  case True
  have "\<forall>i < do_count E. bit (reg AND 255) i = bit reg i" by (simp add: do_count_def DO_NUM_def low_byte_bit)
  then have "outputs_ok E (mb_set_do E (reg AND 255) (s\<lparr>holding_reg := (holding_reg s)[0 := reg]\<rparr>))"
    using assms by (intro outputs_mb_set) (auto simp: outputs_ok_def)
  then show ?thesis using assms True
    by (simp add: io_write_holding_def io_write_effect_def Let_def)
next
  case False
  then have n: "unat addr \<noteq> 0" by (simp add: unat_eq_zero)
  show ?thesis
    by (rule outputs_same_regs [OF assms]) (use False n in \<open>simp_all add: io_write_holding_def io_write_effect_def Let_def\<close>)
qed

lemma regs_outputs_commute:
  "s\<lparr>holding_reg := h, do_pins := p\<rparr> = s\<lparr>do_pins := p, holding_reg := h\<rparr>"
  "s\<lparr>holding_reg := h, led_pins := p\<rparr> = s\<lparr>led_pins := p, holding_reg := h\<rparr>"
  by simp_all

lemma set_do_loop_commute:
  "set_do_loop E x is (s\<lparr>holding_reg := h\<rparr>) = (set_do_loop E x is s)\<lparr>holding_reg := h\<rparr>"
proof (induction "is" arbitrary: s)
  case (Cons i "is")
  show ?case
    using Cons.IH [of "s\<lparr>do_pins := (do_pins s)[i := bit x i]\<rparr>"]
      Cons.IH [of "s\<lparr>do_pins := (do_pins s)[i := bit x i], led_pins := (led_pins s)[i := bit x i]\<rparr>"]
    by (simp add: Let_def regs_outputs_commute)
qed simp

lemma outputs_do_bit:
  assumes "outputs_ok E s"
  shows "outputs_ok E (snd (io_write_do_bit E b st s))"
proof (cases "unat b \<ge> DO_NUM")
  case False
  define v where "v = (if st then holding_reg s ! 0 OR push_bit (unat b) 1 else holding_reg s ! 0 AND NOT (push_bit (unat b) 1))"
  let ?t = "s\<lparr>holding_reg := (holding_reg s)[0 := v AND 0xFF]\<rparr>"
  have "outputs_ok E (mb_set_do E (v AND 0xFF) ?t)"
    using assms by (intro outputs_mb_set) (auto simp: outputs_ok_def)
  moreover have "mb_set_do E (v AND 0xFF) ?t = (mb_set_do E (v AND 0xFF) s)\<lparr>holding_reg := (holding_reg s)[0 := v AND 0xFF]\<rparr>"
    unfolding mb_set_do_def by (rule set_do_loop_commute)
  ultimately show ?thesis using False
    by (simp only: io_write_do_bit_def Let_def v_def [symmetric] if_False snd_conv mb_set_do_regs)
qed (use assms in \<open>simp add: io_write_do_bit_def\<close>)

lemma outputs_link:
  assumes "outputs_ok E s"
  shows "outputs_ok E (net_if_event_handler E up s)"
proof -
  have "outputs_ok E (mb_set_do E 0 (s\<lparr>net_link_up := False, holding_reg := (holding_reg s)[0 := 0]\<rparr>))"
    using assms by (intro outputs_mb_set) (auto simp: outputs_ok_def)
  moreover have "outputs_ok E (s\<lparr>net_link_up := True\<rparr>)"
    by (rule outputs_same_regs [OF assms]) simp_all
  ultimately show ?thesis using assms
    by (auto simp: net_if_event_handler_def net_if_acts_def update_holding_reg_def outputs_ok_def [of E s] split: option.split bool.split)
qed

lemma outputs_update: "outputs_ok E s \<Longrightarrow> r \<noteq> HOLDING_DO \<Longrightarrow> outputs_ok E (snd (update_holding_reg (holding_idx r) v s))"
proof -
  assume a: "outputs_ok E s" "r \<noteq> HOLDING_DO"
  then have "unat (holding_idx r) \<noteq> 0" by (cases r) simp_all
  then show ?thesis by (intro outputs_same_regs [OF a(1)]) (simp_all add: update_holding_reg_def)
qed

lemma outputs_di:
  assumes "outputs_ok E s"
  shows "outputs_ok E (snd (di_thread E r pin s))"
  by (rule outputs_same_regs [OF assms]) (simp_all add: di_thread_def Let_def update_input_reg_def)

lemma adc_fold_regs:
  "holding_reg (fold (\<lambda>i s. if P i then (case adc i of None \<Rightarrow> s
      | Some raw \<Rightarrow> snd (update_input_reg (f i) (g i raw) s)) else s) is s) = holding_reg s"
  "length (input_reg (fold (\<lambda>i s. if P i then (case adc i of None \<Rightarrow> s
      | Some raw \<Rightarrow> snd (update_input_reg (f i) (g i raw) s)) else s) is s)) = length (input_reg s)"
  "do_pins (fold (\<lambda>i s. if P i then (case adc i of None \<Rightarrow> s
      | Some raw \<Rightarrow> snd (update_input_reg (f i) (g i raw) s)) else s) is s) = do_pins s"
  "led_pins (fold (\<lambda>i s. if P i then (case adc i of None \<Rightarrow> s
      | Some raw \<Rightarrow> snd (update_input_reg (f i) (g i raw) s)) else s) is s) = led_pins s"
  by (induction "is" arbitrary: s) (simp_all add: update_input_reg_def split: option.split)

lemma outputs_adc:
  assumes "outputs_ok E s"
  shows "outputs_ok E (snd (adc_thread E r adc s))"
  by (rule outputs_same_regs [OF assms]) (simp_all add: adc_thread_def Let_def adc_fold_regs)

text \<open>Everything that touches the registers, as one event type.\<close>

datatype hub_op = Write u16 u16 | WriteBit u16 bool | Update holding_reg_idx u16 | Link "bool option"
  | SampleDI bool "nat \<Rightarrow> bool" | SampleAI bool "nat \<Rightarrow> int option" | Save | SetTime int

fun hub_op_step :: "hub_env \<Rightarrow> hub_op \<Rightarrow> hub_st \<Rightarrow> hub_st" where
  "hub_op_step E (Write a v) s = snd (io_write_holding E a v s)"
| "hub_op_step E (WriteBit b st) s = snd (io_write_do_bit E b st s)"
| "hub_op_step E (Update r v) s = snd (update_holding_reg (holding_idx r) v s)"
| "hub_op_step E (Link up) s = net_if_event_handler E up s"
| "hub_op_step E (SampleDI rdy pin) s = snd (di_thread E rdy pin s)"
| "hub_op_step E (SampleAI rdy adc) s = snd (adc_thread E rdy adc s)"
| "hub_op_step E Save s = holding_reg_save s"
| "hub_op_step E (SetTime t) s = snd (set_timestamp E t s)"

fun keeps_do :: "hub_op \<Rightarrow> bool" where
  "keeps_do (Update r v) = (r \<noteq> HOLDING_DO)"
| "keeps_do _ = True"

lemma outputs_step: "outputs_ok E s \<Longrightarrow> keeps_do x \<Longrightarrow> outputs_ok E (hub_op_step E x s)"
proof (cases x)
  case (SetTime t)
  assume "outputs_ok E s"
  then show ?thesis using SetTime by (auto intro: outputs_same_regs)
next
  case Save
  assume "outputs_ok E s"
  then show ?thesis using Save by (auto simp: holding_reg_save_def intro: outputs_same_regs)
qed (simp_all add: outputs_write outputs_do_bit outputs_update outputs_link outputs_di outputs_adc)

lemma outputs_run: "outputs_ok E s \<Longrightarrow> list_all keeps_do ops \<Longrightarrow> outputs_ok E (fold (hub_op_step E) ops s)"
  by (induction ops arbitrary: s) (auto simp: outputs_step)

section \<open>Interleavings\<close>

text \<open>The atomic actions of an operation that starts in state \<open>s\<close>.\<close>

fun hub_acts :: "hub_env \<Rightarrow> hub_op \<Rightarrow> hub_st \<Rightarrow> (hub_st \<Rightarrow> hub_st) list" where
  "hub_acts E (Write a v) s = io_write_acts E a v s"
| "hub_acts E (WriteBit b st) s = io_do_bit_acts E b st s"
| "hub_acts E (Link up) s = net_if_acts E up"
| "hub_acts E x s = [hub_op_step E x]"

lemma hub_acts_run: "fold (\<lambda>f. f) (hub_acts E x s) s = hub_op_step E x s"
  by (cases x) (simp_all add: io_write_acts_def io_write_holding_def io_do_bit_acts_def io_write_do_bit_def
      net_if_event_handler_def Let_def)

text \<open>The operations that write the DO register and the output pins.\<close>

fun writes_do :: "hub_op \<Rightarrow> bool" where
  "writes_do (Write a v) = (a = 0)"
| "writes_do (WriteBit b st) = True"
| "writes_do (Update r v) = (r = HOLDING_DO)"
| "writes_do (Link up) = (up = Some False)"
| "writes_do _ = False"

text \<open>
  The threads of the hub: operations under way, each with the actions it still has to make, over
  the shared state.  Any of them makes the next action.  With \<open>one_writer\<close> an operation that writes
  the outputs starts only when no other one is under way; without it any operation starts at any
  time (the mutex the coil write and the register update take only rules some of these runs out).
\<close>

inductive hub_reach :: "hub_env \<Rightarrow> bool \<Rightarrow> hub_st \<Rightarrow> (hub_op \<times> (hub_st \<Rightarrow> hub_st) list) list \<Rightarrow> hub_st \<Rightarrow> bool"
  for E one_writer s0 where
  init: "hub_reach E one_writer s0 [] s0"
| begins: "hub_reach E one_writer s0 ts s \<Longrightarrow> keeps_do x \<Longrightarrow>
    (one_writer \<Longrightarrow> writes_do x \<Longrightarrow> list_all (\<lambda>(y, fs). \<not> writes_do y) ts) \<Longrightarrow>
    hub_reach E one_writer s0 (ts @ [(x, hub_acts E x s)]) s"
| acts: "hub_reach E one_writer s0 (ts @ (x, f # fs) # us) s \<Longrightarrow>
    hub_reach E one_writer s0 (ts @ (x, fs) # us) (f s)"
| ends: "hub_reach E one_writer s0 (ts @ (x, []) # us) s \<Longrightarrow> hub_reach E one_writer s0 (ts @ us) s"

text \<open>Two states that agree on the DO register and the outputs; actions that keep or respect that.\<close>

definition do_same :: "hub_st \<Rightarrow> hub_st \<Rightarrow> bool" where
  "do_same s t \<longleftrightarrow> holding_reg t ! 0 = holding_reg s ! 0 \<and> length (holding_reg t) = length (holding_reg s) \<and>
     length (input_reg t) = length (input_reg s) \<and> do_pins t = do_pins s \<and> led_pins t = led_pins s"

definition do_cong :: "(hub_st \<Rightarrow> hub_st) \<Rightarrow> bool" where
  "do_cong f \<longleftrightarrow> (\<forall>s t. do_same s t \<longrightarrow> do_same (f s) (f t))"

definition do_frame :: "(hub_st \<Rightarrow> hub_st) \<Rightarrow> bool" where
  "do_frame f \<longleftrightarrow> (\<forall>s. do_same s (f s))"

lemma do_same_outputs: "do_same s t \<Longrightarrow> outputs_ok E s \<Longrightarrow> outputs_ok E t"
  unfolding do_same_def by (rule outputs_same_regs) auto

lemma do_cong_fold: "list_all do_cong fs \<Longrightarrow> do_same s t \<Longrightarrow> do_same (fold (\<lambda>f. f) fs s) (fold (\<lambda>f. f) fs t)"
  by (induction fs arbitrary: s t) (auto simp: do_cong_def)

lemma store_do_same:
  assumes "do_same s t"
  shows "do_same (s\<lparr>holding_reg := (holding_reg s)[0 := v]\<rparr>) (t\<lparr>holding_reg := (holding_reg t)[0 := v]\<rparr>)"
  using assms by (cases "holding_reg s"; cases "holding_reg t") (auto simp: do_same_def)

lemma set_do_loop_same: "do_same s t \<Longrightarrow> do_same (set_do_loop E v is s) (set_do_loop E v is t)"
proof (induction "is" arbitrary: s t)
  case (Cons i "is")
  have "do_same (s\<lparr>do_pins := (do_pins s)[i := bit v i]\<rparr>) (t\<lparr>do_pins := (do_pins t)[i := bit v i]\<rparr>)"
    "do_same (s\<lparr>do_pins := (do_pins s)[i := bit v i], led_pins := (led_pins s)[i := bit v i]\<rparr>)
       (t\<lparr>do_pins := (do_pins t)[i := bit v i], led_pins := (led_pins t)[i := bit v i]\<rparr>)"
    using Cons.prems by (simp_all add: do_same_def)
  then show ?case using Cons.IH by (auto simp: Let_def)
qed simp

lemma mb_set_do_same: "do_same s t \<Longrightarrow> do_same (mb_set_do E v s) (mb_set_do E v t)"
  unfolding mb_set_do_def by (rule set_do_loop_same)

lemma writer_acts: "writes_do x \<Longrightarrow> keeps_do x \<Longrightarrow> list_all do_cong (hub_acts E x s)"
proof (cases x)
  case (Link up)
  assume "writes_do x"
  then show ?thesis using Link
    by (auto simp: net_if_acts_def do_cong_def mb_set_do_same update_holding_reg_def intro: store_do_same)
      (auto simp: do_same_def)
qed (auto simp: io_write_acts_def io_write_effect_def io_do_bit_acts_def Let_def do_cong_def
    mb_set_do_same intro: store_do_same)

lemma write_effect_frame: "a \<noteq> 0 \<Longrightarrow> do_frame (io_write_effect E a v)"
proof -
  assume "a \<noteq> 0"
  then have "unat a \<noteq> 0" by (simp add: unat_eq_zero)
  then show ?thesis by (auto simp: do_frame_def io_write_effect_def do_same_def Let_def)
qed

lemma other_acts:
  assumes "\<not> writes_do x"
  shows "list_all do_frame (hub_acts E x s)"
proof (cases x)
  case (Write a v)
  then have "a \<noteq> 0" using assms by simp
  moreover from this have "unat a \<noteq> 0" by (simp add: unat_eq_zero)
  ultimately show ?thesis using Write
    by (simp add: io_write_acts_def write_effect_frame) (simp add: do_frame_def do_same_def)
next
  case (Update r v)
  with assms have "unat (holding_idx r) \<noteq> 0" by (cases r) simp_all
  then show ?thesis using Update by (simp add: do_frame_def do_same_def update_holding_reg_def)
qed (use assms in \<open>auto simp: do_frame_def do_same_def net_if_acts_def holding_reg_save_def di_thread_def
  adc_thread_def Let_def update_input_reg_def adc_fold_regs split: option.split bool.split\<close>)

text \<open>
  With one writer at a time: the others keep the outputs, and once the writer has made the rest of
  its actions the outputs follow the register.
\<close>

definition one_writer_inv :: "hub_env \<Rightarrow> (hub_op \<times> (hub_st \<Rightarrow> hub_st) list) list \<Rightarrow> hub_st \<Rightarrow> bool" where
  "one_writer_inv E ts s \<longleftrightarrow>
     list_all (\<lambda>(x, fs). \<not> writes_do x \<longrightarrow> list_all do_frame fs) ts \<and>
     (case filter (\<lambda>(x, fs). writes_do x) ts of [] \<Rightarrow> outputs_ok E s
      | (x, fs) # us \<Rightarrow> us = [] \<and> list_all do_cong fs \<and> outputs_ok E (fold (\<lambda>f. f) fs s))"

lemma one_writer_frame:
  assumes "one_writer_inv E (ts @ (x, f # fs) # us) s" "\<not> writes_do x"
  shows "one_writer_inv E (ts @ (x, fs) # us) (f s)"
proof -
  have "do_same s (f s)" using assms by (auto simp: one_writer_inv_def do_frame_def)
  then show ?thesis using assms do_same_outputs [of s "f s" E]
    by (auto simp: one_writer_inv_def split: list.splits)
      (metis (no_types, lifting) do_cong_fold do_same_outputs)+
qed

lemma one_writer_reach:
  assumes "hub_reach E True s0 ts s" "outputs_ok E s0"
  shows "one_writer_inv E ts s"
  using assms
proof (induction rule: hub_reach.induct)
  case init
  then show ?case by (simp add: one_writer_inv_def)
next
  case (begins ts s x)
  show ?case
  proof (cases "writes_do x")
    case True
    then have "filter (\<lambda>(x, fs). writes_do x) ts = []"
      using begins.hyps(3) by (auto simp: filter_empty_conv list_all_iff)
    moreover from this have "outputs_ok E s" using begins by (simp add: one_writer_inv_def)
    ultimately show ?thesis using begins True writer_acts [OF True begins.hyps(2), of E s]
      by (simp add: one_writer_inv_def hub_acts_run outputs_step)
  next
    case False
    then show ?thesis using begins other_acts [OF False] by (auto simp: one_writer_inv_def)
  qed
next
  case (acts ts x f fs us s)
  show ?case
  proof (cases "writes_do x")
    case True
    then show ?thesis using acts
      by (auto simp: one_writer_inv_def split: list.splits)
        (auto simp: filter_empty_conv append_eq_Cons_conv)
  qed (use acts one_writer_frame in blast)
next
  case (ends ts x us s)
  then show ?case
    by (cases "writes_do x")
      (auto simp: one_writer_inv_def append_eq_Cons_conv Cons_eq_append_conv split: list.splits)
qed

lemma one_writer_outputs:
  assumes "hub_reach E True s0 ts s" "outputs_ok E s0" "list_all (\<lambda>(x, fs). writes_do x \<longrightarrow> fs = []) ts"
  shows "outputs_ok E s"
proof (cases "filter (\<lambda>(x, fs). writes_do x) ts")
  case (Cons xf us)
  then have "xf \<in> set ts" "case xf of (x, fs) \<Rightarrow> writes_do x" by (auto dest: filter_eq_ConsD)
  then have "snd xf = []" using assms(3) by (auto simp: list_all_iff)
  then show ?thesis using one_writer_reach [OF assms(1,2)] Cons
    by (cases xf) (simp add: one_writer_inv_def)
qed (use one_writer_reach [OF assms(1,2)] in \<open>simp add: one_writer_inv_def\<close>)

end
