(* ===== verification/RegTheorems.thy ===== *)
theory RegTheorems imports RegProps begin

text \<open>
  The properties of the register map and of the outputs of the hub, and a concrete board on which
  their hypotheses hold.
\<close>

section \<open>A concrete board\<close>

definition demo_board :: hub_env where
  "demo_board = \<lparr>n_holding = 18, n_input = 6, hub_version = (1, 2, 3), n_do_gpios = 8, n_led_gpios = 8,
     n_di_gpios = 16, n_adc_specs = 4, ai_coeff = [7414, 7414, 3704, 3704],
     gmtime_ok = (\<lambda>_. True), rtc_set_rc = (\<lambda>_. 0)\<rparr>"

definition power_on :: "hub_env \<Rightarrow> int \<Rightarrow> (string \<times> bytes) list \<Rightarrow> hub_st" where
  "power_on E t store = \<lparr>holding_reg = holding_init E, input_reg = input_init E, do_pins = [], led_pins = [],
     sys_clock = t, rtc_dev_set = True, rtc_clock = t, settings_store = store, history_enabled = False,
     his_msgq = [], his_work_pending = False, reboot_pending = False, net_link_up = False,
     can_bitrate_inject = None\<rparr>"

section \<open>Outputs\<close>

lemma holding_init_length [simp]: "length (holding_init E) = n_holding E"
  by (simp add: holding_init_def reg_defaults_def)

lemma input_init_length [simp]: "length (input_init E) = n_input E"
  by (simp add: input_init_def split: prod.splits)

lemma holding_init_do: "n_holding E = 18 \<Longrightarrow> holding_init E ! 0 = 0"
  by (simp add: holding_init_def reg_defaults_def)

lemma set_by_name_do:
  assumes "set ks \<subseteq> set single_keys"
  shows "holding_reg (snd (set_by_name ks n l v rd s)) ! 0 = holding_reg s ! 0 \<and>
     length (holding_reg (snd (set_by_name ks n l v rd s))) = length (holding_reg s) \<and>
     (\<exists>h. snd (set_by_name ks n l v rd s) = s\<lparr>holding_reg := h\<rparr>)"
  using assms
proof (induction ks)
  case (Cons kr ks)
  obtain k r where kr: "kr = (k, r)" by fastforce
  have "(k, r) \<in> set single_keys" using Cons.prems kr by simp
  then have "unat (holding_idx r) \<noteq> 0" by (auto simp: single_keys_def)
  moreover have "\<exists>h. s = s\<lparr>holding_reg := h\<rparr>" by (rule exI [of _ "holding_reg s"]) simp
  ultimately show ?case using Cons kr by (auto simp: mb_set_one_def)
qed (auto intro: exI [of _ "holding_reg s"])

lemma handle_set_do:
  "holding_reg (snd (mb_handle_set nn n v rd s)) ! 0 = holding_reg s ! 0"
  "length (holding_reg (snd (mb_handle_set nn n v rd s))) = length (holding_reg s)"
  "\<exists>h. snd (mb_handle_set nn n v rd s) = s\<lparr>holding_reg := h\<rparr>"
proof -
  have "\<exists>h. s = s\<lparr>holding_reg := h\<rparr>" by (rule exI [of _ "holding_reg s"]) simp
  then show "holding_reg (snd (mb_handle_set nn n v rd s)) ! 0 = holding_reg s ! 0"
    "length (holding_reg (snd (mb_handle_set nn n v rd s))) = length (holding_reg s)"
    "\<exists>h. snd (mb_handle_set nn n v rd s) = s\<lparr>holding_reg := h\<rparr>"
    using set_by_name_do [of single_keys n "fst (nn n)" v rd s]
    by (auto simp: mb_handle_set_def set_ip_regs_def case_prod_beta)
qed

lemma outputs_handle_set: "outputs_ok E s \<Longrightarrow> outputs_ok E (snd (mb_handle_set nn n v rd s))"
proof -
  assume o: "outputs_ok E s"
  obtain h where "snd (mb_handle_set nn n v rd s) = s\<lparr>holding_reg := h\<rparr>" using handle_set_do(3) by blast
  then show ?thesis using handle_set_do(1,2) [of nn n v rd s] by (intro outputs_same_regs [OF o]) simp_all
qed

lemma outputs_load: "outputs_ok E s \<Longrightarrow> outputs_ok E (fold (load_entry nn) es s)"
  by (induction es arbitrary: s) (auto simp: load_entry_def outputs_handle_set split: option.split)

lemma outputs_settings_init:
  assumes "outputs_ok E s"
  shows "outputs_ok E (snd (modbus_settings_init nn a b s))"
proof -
  let ?l = "settings_load nn s"
  have l: "outputs_ok E ?l" using outputs_load [OF assms] by (simp add: settings_load_def)
  have u: "outputs_ok E (snd (update_holding_reg 15 y (snd (update_holding_reg 14 x ?l))))" for x y
    using outputs_update [OF outputs_update [OF l, of HOLDING_TIMESTAMP_HI x], of HOLDING_TIMESTAMP_LO y] by simp
  have k: "outputs_ok E (t\<lparr>can_bitrate_inject := c\<rparr>)" if "outputs_ok E t" for t c
    by (rule outputs_same_regs [OF that]) simp_all
  have h: "outputs_ok E (history_enable_write en t)" if "outputs_ok E t" for t en
    by (rule outputs_same_regs [OF that]) simp_all
  show ?thesis using assms l by (auto simp: modbus_settings_init_def Let_def intro!: k h u)
qed

lemma outputs_boot:
  assumes "n_holding E = 18" "n_input E = 6" "fst (dio_init E ready (power_on E t store)) = 0"
  shows "outputs_ok E (snd (dio_init E ready (power_on E t store)))"
  using assms by (auto simp: dio_init_def power_on_def outputs_ok_def holding_init_do do_count_def ENODEV_def split: if_splits)

lemma coil_unat: "i < do_count E \<Longrightarrow> unat (of_nat i :: u16) = i \<and> i < 8"
  by (auto simp: do_count_def DO_NUM_def unat_of_nat take_bit_nat_eq_self)

lemma outputs_coil:
  assumes "outputs_ok E s" "i < do_count E"
  shows "coil_rd_cb (of_nat i) s = Inr (do_pins s ! i) \<and>
     (if i < n_led_gpios E then led_pins s ! i = do_pins s ! i else True)"
  using assms coil_unat [OF assms(2)] by (auto simp: coil_rd_cb_def DO_NUM_def outputs_ok_def)

text \<open>
  C9. The outputs follow the register as long as their writers do not overlap.  From power-on, the
  start-up of the pins and of the settings, let any operations run in any number of threads, each
  interrupted by the others between any two of its actions (the store into the register and the
  write of the pins are separate actions): register writes (Modbus, HTTP and UDP), coil writes,
  parameter updates other than of DO, link changes, sampling rounds, saves and clock settings; but
  of those that write the outputs (a write of register 0, a coil write, the loss of the link) one
  starts only when the one before has ended.  Whenever no such operation is half way, each output
  pin of the board shows its coil as Modbus reads it, and so does the LED next to it.  The code does
  not enforce that condition (no lock covers both actions); what an overlap does is the
  property on the race with a link loss.
\<close>
theorem outputs_follow_coils:
  assumes "n_holding E = 18" "n_input E = 6"
    and "dio_init E ready (power_on E t store) = (0, s0)"
    and "hub_reach E True (snd (modbus_settings_init nn a b s0)) ts s"
    and "list_all (\<lambda>(x, fs). writes_do x \<longrightarrow> fs = []) ts"
    and "i < do_count E"
  shows "coil_rd_cb (of_nat i) s = Inr (do_pins s ! i) \<and>
     (if i < n_led_gpios E then led_pins s ! i = do_pins s ! i else True)"
proof -
  have "outputs_ok E s0" using outputs_boot [OF assms(1,2), of ready t store] assms(3) by simp
  then have "outputs_ok E s" by (intro one_writer_outputs [OF assms(4) _ assms(5)] outputs_settings_init)
  then show ?thesis using assms(6) by (rule outputs_coil)
qed

definition demo_start :: hub_st where
  "demo_start = snd (modbus_settings_init name_next_std 0 0 (snd (dio_init demo_board (\<lambda>_. True) (power_on demo_board 0 []))))"

text \<open>A write of the outputs during which a parameter is updated.\<close>

definition demo_final :: hub_st where
  "demo_final = mb_set_do demo_board (0xFFA5 AND 0xFF) (snd (update_holding_reg (holding_idx HOLDING_CAN_ID) 7
     (demo_start\<lparr>holding_reg := (holding_reg demo_start)[0 := 0xFFA5]\<rparr>)))"

lemma hub_write_begins:
  assumes "hub_reach E w s0 [] s" "0 < length (holding_reg s)" "holding_reg s ! 0 \<noteq> v"
  shows "hub_reach E w s0 [(Write 0 v, [mb_set_do E (v AND 0xFF)])] (s\<lparr>holding_reg := (holding_reg s)[0 := v]\<rparr>)"
proof -
  have "hub_reach E w s0 ([] @ [(Write 0 v, hub_acts E (Write 0 v) s)]) s"
    using assms(1) by (rule hub_reach.begins) simp_all
  moreover have "io_write_effect E 0 v = mb_set_do E (v AND 0xFF)" by (rule ext) (simp add: io_write_effect_def)
  ultimately have r: "hub_reach E w s0 ([] @ (Write 0 v, [\<lambda>s. s\<lparr>holding_reg := (holding_reg s)[0 := v]\<rparr>,
      mb_set_do E (v AND 0xFF)]) # []) s"
    using assms(2,3) by (simp add: io_write_acts_def)
  show ?thesis using hub_reach.acts [OF r] by simp
qed

theorem outputs_follow_coils_witness:
  "coil_rd_cb (of_nat 7) demo_final = Inr (do_pins demo_final ! 7) \<and>
     (if 7 < n_led_gpios demo_board then led_pins demo_final ! 7 = do_pins demo_final ! 7 else True)"
proof (rule outputs_follow_coils)
  show dio: "dio_init demo_board (\<lambda>_. True) (power_on demo_board 0 []) =
    (0, snd (dio_init demo_board (\<lambda>_. True) (power_on demo_board 0 [])))"
    by (simp add: dio_init_def)
  have "outputs_ok demo_board demo_start" unfolding demo_start_def
    by (intro outputs_settings_init outputs_boot) (simp_all add: demo_board_def dio_init_def)
  then have len: "length (holding_reg demo_start) = 18" by (simp add: outputs_ok_def)
  have zero: "holding_reg demo_start ! 0 = 0"
    by (simp add: demo_start_def modbus_settings_init_def settings_load_def dio_init_def power_on_def
        update_holding_reg_def history_enable_write_def Let_def holding_init_def reg_defaults_def)
      (simp add: demo_board_def)
  let ?s = "demo_start\<lparr>holding_reg := (holding_reg demo_start)[0 := 0xFFA5]\<rparr>"
  let ?u = "Update HOLDING_CAN_ID 7" and ?w = "(Write 0 0xFFA5, [mb_set_do demo_board (0xFFA5 AND 0xFF)])"
  have "hub_reach demo_board True demo_start [?w] ?s"
    by (rule hub_write_begins [OF hub_reach.init]) (use len zero in simp_all)
  then have "hub_reach demo_board True demo_start ([?w] @ [(?u, hub_acts demo_board ?u ?s)]) ?s"
    by (rule hub_reach.begins) simp_all
  then have "hub_reach demo_board True demo_start ([?w] @ (?u, [hub_op_step demo_board ?u]) # []) ?s" by simp
  from hub_reach.ends [OF hub_reach.acts [OF this]]
  have "hub_reach demo_board True demo_start ([] @ ?w # []) (hub_op_step demo_board ?u ?s)" by simp
  from hub_reach.ends [OF hub_reach.acts [OF this]]
  show "hub_reach demo_board True
     (snd (modbus_settings_init name_next_std 0 0 (snd (dio_init demo_board (\<lambda>_. True) (power_on demo_board 0 [])))))
     [] demo_final"
    unfolding demo_final_def demo_start_def by (simp del: holding_idx.simps)
qed (simp_all add: demo_board_def do_count_def DO_NUM_def)

text \<open>
  C24. The race the code leaves open: a write of the outputs that is interrupted by the loss of the
  link between its store into the register and its write of the pins.  The link handler clears the
  register and the pins, then the interrupted write sets its pins: from any consistent state and for
  any new value there is a run after which the link is down and every coil reads as off while each
  pin shows the value that was being written.  A later write of zero to the register does not help,
  since it finds the register already zero and returns at once.
\<close>
theorem link_loss_race:
  assumes "outputs_ok E s0" and "holding_reg s0 ! 0 \<noteq> v"
  shows "\<exists>s. hub_reach E False s0 [] s \<and> \<not> net_link_up s \<and> io_write_holding E 0 0 s = (0, s) \<and>
    list_all (\<lambda>i. coil_rd_cb (of_nat i) s = Inr False \<and> do_pins s ! i = bit v i) [0..<do_count E]"
proof -
  let ?r = "hub_reach E False s0" and ?w = "(Write 0 v, [mb_set_do E (v AND 0xFF)])" and ?l = "Link (Some False)"
  define s1 where "s1 = s0\<lparr>holding_reg := (holding_reg s0)[0 := v]\<rparr>"
  define s2 where "s2 = s1\<lparr>net_link_up := False, holding_reg := (holding_reg s1)[0 := 0]\<rparr>"
  define s where "s = mb_set_do E (v AND 0xFF) (mb_set_do E 0 s2)"
  have ok: "length (holding_reg s0) = 18" "length (do_pins s0) = n_do_gpios E"
    using assms(1) by (simp_all add: outputs_ok_def)
  have s2: "holding_reg s2 ! 0 = 0" "length (holding_reg s2) = 18" "length (do_pins s2) = n_do_gpios E" "\<not> net_link_up s2"
    "snd (update_holding_reg 0 0 (s1\<lparr>net_link_up := False\<rparr>)) = s2"
    using ok by (simp_all add: s2_def s1_def update_holding_reg_def)
  have "?r [?w] s1" unfolding s1_def
    by (rule hub_write_begins [OF hub_reach.init]) (use assms(2) ok in simp_all)
  then have "?r ([?w] @ [(?l, hub_acts E ?l s1)]) s1" by (rule hub_reach.begins) simp_all
  then have "?r ([?w] @ (?l, net_if_acts E (Some False)) # []) s1" by simp
  from this [unfolded net_if_acts_def, simplified]
  have "?r ([?w] @ (?l, [\<lambda>s. s\<lparr>net_link_up := False\<rparr>, \<lambda>s. snd (update_holding_reg 0 0 s), mb_set_do E 0]) # []) s1"
    by simp
  from hub_reach.ends [OF hub_reach.acts [OF hub_reach.acts [OF hub_reach.acts [OF this]]]]
  have "?r ([] @ ?w # []) (mb_set_do E 0 s2)" by (simp add: s2(5))
  from hub_reach.ends [OF hub_reach.acts [OF this]] have "?r [] s" by (simp add: s_def)
  moreover have "net_link_up (set_do_loop E x is t) = net_link_up t" for x "is" t
    by (induction "is" arbitrary: t) (simp_all add: Let_def)
  then have "\<not> net_link_up s" using s2(4) by (simp add: s_def mb_set_do_def)
  moreover have "holding_reg s ! 0 = 0" "length (holding_reg s) = 18" using s2 by (simp_all add: s_def)
  moreover from this have "io_write_holding E 0 0 s = (0, s)" by (simp add: io_write_holding_def)
  moreover have "do_pins s ! i = bit v i" if "i < do_count E" for i
    using that coil_unat [OF that] s2(3) by (simp add: s_def mb_set_do_def set_do_loop_pins do_count_def low_byte_bit)
  moreover from calculation have "coil_rd_cb (of_nat i) s = Inr False" if "i < do_count E" for i
    using coil_unat [OF that] by (simp add: coil_rd_cb_def DO_NUM_def)
  ultimately show ?thesis by (intro exI [of _ s]) (simp add: list_all_iff)
qed

theorem link_loss_race_witness:
  "\<exists>s. hub_reach demo_board False demo_start [] s \<and> \<not> net_link_up s \<and> io_write_holding demo_board 0 0 s = (0, s) \<and>
    list_all (\<lambda>i. coil_rd_cb (of_nat i) s = Inr False \<and> do_pins s ! i = bit (0xFF :: u16) i) [0..<do_count demo_board]"
proof (rule link_loss_race)
  show "outputs_ok demo_board demo_start" unfolding demo_start_def
    by (intro outputs_settings_init outputs_boot) (simp_all add: demo_board_def dio_init_def)
  show "holding_reg demo_start ! 0 \<noteq> 0xFF"
    by (simp add: demo_start_def modbus_settings_init_def settings_load_def dio_init_def power_on_def
        update_holding_reg_def history_enable_write_def Let_def holding_init_def reg_defaults_def)
      (simp add: demo_board_def)
qed

section \<open>Settings\<close>

definition ip_bytes :: "hub_st \<Rightarrow> bytes" where
  "ip_bytes s = concat (map (\<lambda>r. reg_bytes r s)
     [HOLDING_IP_OCTET1, HOLDING_IP_OCTET2, HOLDING_IP_OCTET3, HOLDING_IP_OCTET4])"

lemma set_by_name_key:
  "set_by_name ks n (length n) v True s =
     (case map_of ks n of None \<Rightarrow> (- ENOENT, s) | Some r \<Rightarrow> mb_set_one v True r s)"
  by (induction ks) (auto simp: NAME_IS_def)

lemma single_keys_no_slash: "map_of single_keys n = Some r \<Longrightarrow> CHR ''/'' \<notin> set n \<and> CHR ''='' \<notin> set n"
  by (auto simp: single_keys_def split: if_splits)

text \<open>What loading one value stored under \<open>modbus/n\<close> does.\<close>

definition load_reg :: "string \<Rightarrow> bytes \<Rightarrow> hub_st \<Rightarrow> hub_st" where
  "load_reg n v s = (if n = ''ip'' then (if length v = 8 then set_ip_regs v s else s)
     else case map_of single_keys n of None \<Rightarrow> s | Some r \<Rightarrow> snd (mb_set_one v True r s))"

lemma handle_set_key:
  assumes "name_next_law nn" "CHR ''='' \<notin> set n"
  shows "snd (mb_handle_set nn n v True s) = load_reg n v s"
proof (cases "CHR ''/'' \<in> set n")
  case True
  then have "n \<noteq> ''ip''" by auto
  moreover have "map_of single_keys n = None" using True single_keys_no_slash by (cases "map_of single_keys n") auto
  moreover have "snd (nn n) \<noteq> None" using assms True by (auto simp: name_next_law_def)
  ultimately show ?thesis by (auto simp: mb_handle_set_def load_reg_def case_prod_beta)
next
  case False
  then have "snd (nn n) = None" "fst (nn n) = length n" using assms by (auto simp: name_next_law_def)
  then show ?thesis
    by (auto simp: mb_handle_set_def load_reg_def case_prod_beta NAME_IS_def set_by_name_key split: option.split)
qed

text \<open>
  A register that holds \<open>x\<close> after a load: an entry of the store says so, and no other entry of the
  store touches it.
\<close>

definition entry_for :: "nat \<Rightarrow> string \<Rightarrow> bool" where
  "entry_for i n \<longleftrightarrow> (if n = ''ip'' then i \<in> {10..<14}
     else case map_of single_keys n of None \<Rightarrow> False | Some r \<Rightarrow> unat (holding_idx r) = i)"

lemma load_reg_other: "\<not> entry_for i n \<Longrightarrow> holding_reg (load_reg n v s) ! i = holding_reg s ! i"
  by (auto simp: load_reg_def entry_for_def set_ip_regs_def mb_set_one_def nth_list_update split: if_splits option.splits)

lemma load_reg_length [simp]: "length (holding_reg (load_reg n v s)) = length (holding_reg s)"
  by (auto simp: load_reg_def set_ip_regs_def mb_set_one_def split: option.splits)

definition no_eq :: "(string \<times> bytes) list \<Rightarrow> bool" where
  "no_eq es \<longleftrightarrow> list_all (\<lambda>(k, v). CHR ''='' \<notin> set k) es"

lemma load_entry_modbus:
  assumes "name_next_law nn" "CHR ''='' \<notin> set k"
  shows "load_entry nn (k, v) s = (case strip_modbus k of None \<Rightarrow> s | Some n \<Rightarrow> load_reg n v s)"
proof -
  have "CHR ''='' \<notin> set (drop 7 k)" using assms(2) in_set_dropD by fastforce
  then show ?thesis using handle_set_key [OF assms(1)]
    by (auto simp: load_entry_def strip_modbus_def split: option.split)
qed

lemma strip_modbus_Some: "strip_modbus k = Some n \<longleftrightarrow> k = ''modbus/'' @ n"
proof
  assume "strip_modbus k = Some n"
  then have "take 7 k = ''modbus/''" "drop 7 k = n" by (auto simp: strip_modbus_def split: if_splits)
  then show "k = ''modbus/'' @ n" by (metis append_take_drop_id)
qed (simp add: strip_modbus_def)

lemma entry_for_unique: "entry_for i n \<Longrightarrow> entry_for i m \<Longrightarrow> n = m"
  by (auto simp: entry_for_def single_keys_def split: if_splits option.splits)

lemma load_untouched:
  assumes "name_next_law nn" "no_eq es" "\<forall>n. entry_for i n \<longrightarrow> ''modbus/'' @ n \<notin> fst ` set es"
  shows "holding_reg (fold (load_entry nn) es s) ! i = holding_reg s ! i"
  using assms(2,3)
proof (induction es arbitrary: s)
  case (Cons e es)
  obtain k v where e: "e = (k, v)" by fastforce
  have "holding_reg (load_entry nn (k, v) s) ! i = holding_reg s ! i"
  proof (cases "strip_modbus k")
    case (Some n)
    then have "\<not> entry_for i n" using Cons.prems(2) e strip_modbus_Some [of k n] by auto
    then show ?thesis using Some load_entry_modbus [OF assms(1), of k v s] Cons.prems(1) e
      by (simp add: no_eq_def load_reg_other)
  qed (use Cons.prems(1) e load_entry_modbus [OF assms(1), of k v s] in \<open>simp add: no_eq_def\<close>)
  moreover have "holding_reg (fold (load_entry nn) es (load_entry nn (k, v) s)) ! i
      = holding_reg (load_entry nn (k, v) s) ! i"
    using Cons by (intro Cons.IH) (auto simp: no_eq_def)
  ultimately show ?case by (simp add: e)
qed simp

lemma load_entry_length [simp]:
  "length (holding_reg (load_entry nn e s)) = length (holding_reg s)"
  by (auto simp: load_entry_def handle_set_do split: option.split)

lemma load_stored:
  assumes "name_next_law nn" "no_eq es" "distinct (map fst es)" "(''modbus/'' @ n, v) \<in> set es"
    "entry_for i n" "\<And>t. length (holding_reg t) = 18 \<Longrightarrow> holding_reg (load_reg n v t) ! i = x"
    "length (holding_reg s) = 18"
  shows "holding_reg (fold (load_entry nn) es s) ! i = x"
  using assms(2,3,4,7)
proof (induction es arbitrary: s)
  case (Cons e es)
  show ?case
  proof (cases "e = (''modbus/'' @ n, v)")
    case True
    have "strip_modbus (''modbus/'' @ n) = Some n" by (simp add: strip_modbus_Some)
    then have "holding_reg (load_entry nn e s) ! i = x"
      using True load_entry_modbus [OF assms(1), of "''modbus/'' @ n" v s] Cons.prems(1,4) assms(6)
      by (simp add: no_eq_def)
    moreover have "holding_reg (fold (load_entry nn) es (load_entry nn e s)) ! i = holding_reg (load_entry nn e s) ! i"
      using Cons.prems True entry_for_unique [OF assms(5)]
      by (intro load_untouched [OF assms(1)]) (auto simp: no_eq_def)
    ultimately show ?thesis by simp
  next
    case False
    have "holding_reg (fold (load_entry nn) es (load_entry nn e s)) ! i = x"
      using Cons False by (intro Cons.IH) (auto simp: no_eq_def)
    then show ?thesis by simp
  qed
qed simp

lemma fold_update_map_of:
  "map_of (fold (\<lambda>(k, v). AList.update k v) kvs st) = map_of st ++ map_of (rev kvs)"
proof (induction kvs arbitrary: st)
  case (Cons kv kvs)
  obtain k v where "kv = (k, v)" by fastforce
  then show ?case using Cons by (auto simp: update_conv map_add_def fun_eq_iff split: option.splits)
qed simp

lemma fold_update_distinct:
  "distinct (map fst st) \<Longrightarrow> distinct (map fst (fold (\<lambda>(k, v). AList.update k v) kvs st))"
  by (induction kvs arbitrary: st) (auto simp: distinct_update split: prod.split)

lemma no_eq_keys: "no_eq es \<longleftrightarrow> (\<forall>k \<in> fst ` set es. CHR ''='' \<notin> set k)"
  by (auto simp: no_eq_def list_all_iff)

lemma fold_update_no_eq:
  "no_eq st \<Longrightarrow> no_eq kvs \<Longrightarrow> no_eq (fold (\<lambda>(k, v). AList.update k v) kvs st)"
proof (induction kvs arbitrary: st)
  case (Cons kv kvs)
  obtain k v where kv: "kv = (k, v)" by fastforce
  have "fst ` set (AList.update k v st) = insert k (fst ` set st)" by (simp add: dom_update)
  then have "no_eq (AList.update k v st)" using Cons.prems kv
    by (simp add: no_eq_keys)
  then show ?case using Cons kv by (simp add: no_eq_def)
qed simp

lemma export_keys: "distinct (map fst (mb_handle_export s))" "no_eq (mb_handle_export s)"
  by (simp_all add: mb_handle_export_def single_keys_def no_eq_def)

lemma saved_value:
  assumes "distinct (map fst st)" "(k, v) \<in> set (mb_handle_export s)"
  shows "(k, v) \<in> set (fold (\<lambda>(k, v). AList.update k v) (mb_handle_export s) st)"
proof -
  have "map_of (rev (mb_handle_export s)) k = Some v"
    using assms(2) export_keys(1) [of s] by (simp add: rev_map [symmetric])
  then show ?thesis by (intro map_of_SomeD) (simp add: fold_update_map_of)
qed

lemma single_keys_map_of: "(k, r) \<in> set single_keys \<Longrightarrow> map_of single_keys k = Some r \<and> k \<noteq> ''ip''"
proof -
  assume kr: "(k, r) \<in> set single_keys"
  have "distinct (map fst single_keys)" by (simp add: single_keys_def)
  moreover have "k \<in> set (map fst single_keys)" using kr by force
  moreover have "''ip'' \<notin> set (map fst single_keys)" by (simp add: single_keys_def)
  ultimately show ?thesis using kr by (metis map_of_is_SomeI)
qed

lemma set_ip_saved:
  "set_ip_regs (ip_bytes s) u = u\<lparr>holding_reg := (holding_reg u)[10 := holding_reg s ! 10, 11 := holding_reg s ! 11,
     12 := holding_reg s ! 12, 13 := holding_reg s ! 13]\<rparr>"
proof -
  have d: "drop 2 (put_le16 a @ r) = r" "drop 4 (put_le16 a @ put_le16 b @ r) = r"
    "drop 6 (put_le16 a @ put_le16 b @ put_le16 c @ r) = r" for a b c r by simp_all
  show ?thesis unfolding set_ip_regs_def ip_bytes_def reg_bytes_def by (simp add: d)
qed

lemma length_ip_bytes: "length (ip_bytes s) = 8"
  by (simp add: ip_bytes_def reg_bytes_def)

lemma saved_store:
  assumes "distinct (map fst (settings_store s))" "no_eq (settings_store s)"
    and "settings_store t = settings_store (holding_reg_save s)"
  shows "distinct (map fst (settings_store t))" "no_eq (settings_store t)"
    "(k, v) \<in> set (mb_handle_export s) \<Longrightarrow> (k, v) \<in> set (settings_store t)"
proof -
  have st: "settings_store t = fold (\<lambda>(k, v). AList.update k v) (mb_handle_export s) (settings_store s)"
    using assms(3) by (simp add: holding_reg_save_def settings_save_def)
  show "distinct (map fst (settings_store t))" "no_eq (settings_store t)"
    unfolding st using assms(1,2) export_keys by (auto intro: fold_update_distinct fold_update_no_eq)
  show "(k, v) \<in> set (mb_handle_export s) \<Longrightarrow> (k, v) \<in> set (settings_store t)"
    unfolding st by (rule saved_value [OF assms(1)])
qed

lemma settings_reload_single:
  assumes "name_next_law nn" "distinct (map fst (settings_store s))" "no_eq (settings_store s)"
    and "length (holding_reg t) = 18" "settings_store t = settings_store (holding_reg_save s)"
    and kr: "(k, r) \<in> set single_keys"
  shows "holding_reg (settings_load nn t) ! unat (holding_idx r) = holding_reg s ! unat (holding_idx r)"
proof -
  note d = saved_store [OF assms(2,3,5)]
  show ?thesis
    unfolding settings_load_def
  proof (rule load_stored [OF assms(1) d(2,1) _ _ _ assms(4), of k "reg_bytes r s"])
    have "(''modbus/'' @ k, reg_bytes r s) \<in> set (mb_handle_export s)"
      using kr by (force simp: mb_handle_export_def)
    then show "(''modbus/'' @ k, reg_bytes r s) \<in> set (settings_store t)" by (rule d(3))
    have m: "map_of single_keys k = Some r" "k \<noteq> ''ip''" using single_keys_map_of [OF kr] by simp_all
    then show "entry_for (unat (holding_idx r)) k" by (simp add: entry_for_def)
    fix u :: hub_st assume "length (holding_reg u) = 18"
    then show "holding_reg (load_reg k (reg_bytes r s) u) ! unat (holding_idx r) = holding_reg s ! unat (holding_idx r)"
      using m holding_idx_bound [of r] by (simp add: load_reg_def mb_set_one_def reg_bytes_def)
  qed
qed

lemma settings_reload_ip:
  assumes "name_next_law nn" "distinct (map fst (settings_store s))" "no_eq (settings_store s)"
    and "length (holding_reg t) = 18" "settings_store t = settings_store (holding_reg_save s)"
    and "ip_is_valid_for_export s" "i \<in> {10, 11, 12, 13}"
  shows "holding_reg (settings_load nn t) ! i = holding_reg s ! i"
proof -
  note d = saved_store [OF assms(2,3,5)]
  show ?thesis
    unfolding settings_load_def
  proof (rule load_stored [OF assms(1) d(2,1) _ _ _ assms(4), of "''ip''" "ip_bytes s"])
    have "(''modbus/'' @ ''ip'', ip_bytes s) \<in> set (mb_handle_export s)"
      using assms(6) by (simp add: mb_handle_export_def ip_bytes_def)
    then show "(''modbus/'' @ ''ip'', ip_bytes s) \<in> set (settings_store t)" by (rule d(3))
    show "entry_for i ''ip''" using assms(7) by (auto simp: entry_for_def)
    fix u :: hub_st assume "length (holding_reg u) = 18"
    then show "holding_reg (load_reg ''ip'' (ip_bytes s) u) ! i = holding_reg s ! i"
      using assms(7) by (auto simp: load_reg_def length_ip_bytes set_ip_saved)
  qed
qed

lemma settings_load_length: "length (holding_reg (settings_load nn s)) = length (holding_reg s)"
proof -
  have "length (holding_reg (fold (load_entry nn) es t)) = length (holding_reg t)" for es t
    by (induction es arbitrary: t) auto
  then show ?thesis by (simp add: settings_load_def)
qed

lemma settings_reload_unsaved:
  assumes "name_next_law nn" "distinct (map fst (settings_store s))" "no_eq (settings_store s)"
    and "settings_store t = settings_store (holding_reg_save s)"
    and "r \<in> {HOLDING_DO, HOLDING_TIMESTAMP_HI, HOLDING_TIMESTAMP_LO, HOLDING_CONFIG_SAVE, HOLDING_REBOOT}"
  shows "holding_reg (settings_load nn t) ! unat (holding_idx r) = holding_reg t ! unat (holding_idx r)"
proof -
  have "r \<notin> snd ` set single_keys" "unat (holding_idx r) \<notin> {10..<14}"
    using assms(5) by (cases r; simp add: single_keys_def)+
  moreover have "r' \<in> snd ` set single_keys" if "map_of single_keys n = Some r'" for n r'
    using map_of_SomeD [OF that] by force
  ultimately have "\<not> entry_for (unat (holding_idx r)) n" for n
    by (auto simp: entry_for_def word_unat_eq_iff [symmetric] split: option.splits)
  then show ?thesis unfolding settings_load_def
    by (intro load_untouched [OF assms(1) saved_store(2) [OF assms(2,3,4)]]) blast
qed

text \<open>
  C10. Saving and restarting restores every parameter.  Whatever state the device starts from,
  loading the store that a save left gives each register of the map the value it had when it was
  saved, with these exceptions: the four IP octets when their address was not exportable, and the
  registers that are not parameters (the outputs, the two halves of the time and the two command
  registers), which the load leaves as they were.
\<close>
theorem settings_roundtrip:
  assumes "name_next_law nn" "distinct (map fst (settings_store s))" "no_eq (settings_store s)"
    and "length (holding_reg t) = 18"
    and "settings_store t = settings_store (holding_reg_save s)"
    and "r \<in> {HOLDING_IP_OCTET1, HOLDING_IP_OCTET2, HOLDING_IP_OCTET3, HOLDING_IP_OCTET4} \<Longrightarrow> ip_is_valid_for_export s"
  shows "holding_reg (settings_load nn t) ! unat (holding_idx r) =
     (if r \<in> {HOLDING_DO, HOLDING_TIMESTAMP_HI, HOLDING_TIMESTAMP_LO, HOLDING_CONFIG_SAVE, HOLDING_REBOOT}
      then holding_reg t else holding_reg s) ! unat (holding_idx r)"
proof -
  consider "r \<in> {HOLDING_DO, HOLDING_TIMESTAMP_HI, HOLDING_TIMESTAMP_LO, HOLDING_CONFIG_SAVE, HOLDING_REBOOT}"
    | "r \<in> {HOLDING_IP_OCTET1, HOLDING_IP_OCTET2, HOLDING_IP_OCTET3, HOLDING_IP_OCTET4}"
    | "r \<in> snd ` set single_keys"
    by (cases r) (simp_all add: single_keys_def)
  then show ?thesis
  proof cases
    case 1
    then show ?thesis using settings_reload_unsaved [OF assms(1,2,3,5) 1] by (simp only: if_True)
  next
    case 2
    then have "unat (holding_idx r) \<in> {10, 11, 12, 13}" by auto
    from settings_reload_ip [OF assms(1-5) assms(6) [OF 2] this] 2 show ?thesis by auto
  next
    case 3
    then obtain k where k: "(k, r) \<in> set single_keys" by force
    have "r \<notin> {HOLDING_DO, HOLDING_TIMESTAMP_HI, HOLDING_TIMESTAMP_LO, HOLDING_CONFIG_SAVE, HOLDING_REBOOT}"
      using 3 by (cases r) (simp_all add: single_keys_def)
    then show ?thesis using settings_reload_single [OF assms(1-5) k] by (simp only: if_False)
  qed
qed

definition demo_settings :: hub_st where
  "demo_settings = snd (update_holding_reg 9 42 (power_on demo_board 0 [(''modbus/his'', [1, 0]), (''other'', [])]))"

theorem settings_roundtrip_witness:
  "holding_reg (settings_load name_next_std (power_on demo_board 5 (settings_store (holding_reg_save demo_settings)))) ! 9 = 42"
proof -
  let ?t = "power_on demo_board 5 (settings_store (holding_reg_save demo_settings))"
  have st: "settings_store ?t = settings_store (holding_reg_save demo_settings)" by (simp add: power_on_def)
  have len: "length (holding_reg ?t) = 18" by (simp add: power_on_def) (simp add: demo_board_def)
  have d: "distinct (map fst (settings_store demo_settings))" "no_eq (settings_store demo_settings)"
    by (simp_all add: demo_settings_def power_on_def update_holding_reg_def no_eq_def)
  have "holding_reg demo_settings ! 9 = 42"
    by (simp add: demo_settings_def power_on_def update_holding_reg_def) (simp add: demo_board_def)
  then show ?thesis
    using settings_roundtrip [OF name_next_std_law d len st, of HOLDING_SLAVE_ID] by simp
qed

section \<open>Commands through registers\<close>

text \<open>
  The command registers are never left set, and a restart is only asked for by writing a non-zero
  value to the restart register.
\<close>

definition commands_clear :: "hub_st \<Rightarrow> bool" where
  "commands_clear s \<longleftrightarrow> length (holding_reg s) = 18 \<and> holding_reg s ! 16 = 0 \<and> holding_reg s ! 17 = 0"

fun asks_reboot :: "hub_op \<Rightarrow> bool" where
  "asks_reboot (Write a v) = (a = holding_idx HOLDING_REBOOT \<and> v \<noteq> 0)"
| "asks_reboot _ = False"

fun keeps_commands :: "hub_op \<Rightarrow> bool" where
  "keeps_commands (Update r v) = (r \<notin> {HOLDING_CONFIG_SAVE, HOLDING_REBOOT})"
| "keeps_commands _ = True"

lemma adc_fold_reboot:
  "reboot_pending (fold (\<lambda>i s. if P i then (case adc i of None \<Rightarrow> s
      | Some raw \<Rightarrow> snd (update_input_reg (f i) (g i raw) s)) else s) is s) = reboot_pending s"
  by (induction "is" arbitrary: s) (simp_all add: update_input_reg_def split: option.split)

lemma send_history_reboot [simp]: "reboot_pending (send_history_data r d s) = reboot_pending s"
  by (simp add: send_history_data_def)

lemma write_other_registers:
  "i \<noteq> unat addr \<Longrightarrow> holding_reg (snd (io_write_holding E addr v s)) ! i = holding_reg s ! i"
  "length (holding_reg (snd (io_write_holding E addr v s))) = length (holding_reg s)"
  by (auto simp: io_write_holding_def io_write_effect_def Let_def)

lemma commands_write:
  assumes "commands_clear s"
  shows "commands_clear (snd (io_write_holding E a v s)) \<and>
     reboot_pending (snd (io_write_holding E a v s)) = (reboot_pending s \<or> (a = 17 \<and> v \<noteq> 0))"
proof -
  consider "a = 16" | "a = 17" | "a \<noteq> 16" "a \<noteq> 17" by blast
  then show ?thesis
  proof cases
    case 3
    then have u: "unat a \<noteq> 16" "unat a \<noteq> 17" by (auto dest!: arg_cong [of _ _ "of_nat :: nat \<Rightarrow> u16"])
    have "commands_clear (snd (io_write_holding E a v s))"
      using assms write_other_registers(1) [of 16 a E v s] write_other_registers(1) [of 17 a E v s] u
      by (simp add: commands_clear_def write_other_registers(2))
    moreover have "reboot_pending (snd (io_write_holding E a v s)) = reboot_pending s"
      using 3 by (simp add: io_write_holding_def io_write_effect_def Let_def)
    ultimately show ?thesis using 3 by simp
  qed (use assms in \<open>auto simp: io_write_holding_def io_write_effect_def commands_clear_def Let_def\<close>)
qed

lemma commands_step:
  assumes "commands_clear s" "keeps_commands x"
  shows "commands_clear (hub_op_step E x s) \<and> reboot_pending (hub_op_step E x s) = (reboot_pending s \<or> asks_reboot x)"
proof (cases x)
  case (Write a v)
  then show ?thesis using commands_write [OF assms(1)] by simp
next
  case (Update r v)
  then have "unat (holding_idx r) \<noteq> 16" "unat (holding_idx r) \<noteq> 17" using assms(2) by (cases r; simp)+
  then show ?thesis using assms(1) Update by (auto simp: update_holding_reg_def commands_clear_def)
next
  case (Link up)
  then show ?thesis using assms(1)
    by (auto simp: net_if_event_handler_def net_if_acts_def update_holding_reg_def commands_clear_def split: option.split bool.split)
qed (use assms(1) in \<open>auto simp: commands_clear_def io_write_do_bit_def Let_def di_thread_def adc_thread_def
       adc_fold_regs adc_fold_reboot update_input_reg_def holding_reg_save_def\<close>)

text \<open>
  Commands do not stick: starting with the two command registers clear, any sequence of
  operations (those that do not force a value into a command register) leaves them reading zero,
  so a saved or restarted device never repeats a command, and the restart flag of the main loop is
  set exactly when one of the writes put a non-zero value in the restart register.
\<close>
theorem commands_do_not_stick:
  assumes "commands_clear s" "list_all keeps_commands ops"
  shows "holding_reg_rd_cb 16 (fold (hub_op_step E) ops s) = Inr 0 \<and>
     holding_reg_rd_cb 17 (fold (hub_op_step E) ops s) = Inr 0 \<and>
     get_reboot_status (fold (hub_op_step E) ops s) = (get_reboot_status s \<or> list_ex asks_reboot ops)"
proof -
  have "commands_clear (fold (hub_op_step E) ops s) \<and>
     reboot_pending (fold (hub_op_step E) ops s) = (reboot_pending s \<or> list_ex asks_reboot ops)"
    using assms by (induction ops arbitrary: s) (auto simp: commands_step)
  then show ?thesis by (auto simp: commands_clear_def holding_reg_rd_cb_def get_reboot_status_def)
qed

theorem commands_do_not_stick_witness:
  "holding_reg_rd_cb 16 (fold (hub_op_step demo_board) [Write 16 1, WriteBit 3 True, Write 17 5] (power_on demo_board 0 [])) = Inr 0 \<and>
   holding_reg_rd_cb 17 (fold (hub_op_step demo_board) [Write 16 1, WriteBit 3 True, Write 17 5] (power_on demo_board 0 [])) = Inr 0 \<and>
   get_reboot_status (fold (hub_op_step demo_board) [Write 16 1, WriteBit 3 True, Write 17 5] (power_on demo_board 0 []))
     = (get_reboot_status (power_on demo_board 0 []) \<or> list_ex asks_reboot [Write 16 1, WriteBit 3 True, Write 17 5])"
  by (rule commands_do_not_stick)
     (simp_all add: commands_clear_def power_on_def holding_init_def reg_defaults_def, simp_all add: demo_board_def)

section \<open>Setting the clock over Modbus\<close>

text \<open>
  A master sets the clock by writing the high half of the time and then the low half.  The clock
  and the real-time clock take the combined time when it lies between 2000 and 2100 and the drivers
  accept it, but only if the low half differs from the one stored by the previous setting: the
  register keeps the value last written, an equal value returns before any effect, and the clock
  silently stays.
\<close>
theorem modbus_set_clock:
  assumes "length (holding_reg s) = 18"
    and "s' = snd (holding_reg_wr_cb E 15 lo (snd (holding_reg_wr_cb E 14 hi s)))"
    and "t = uint (push_bit 16 (ucast hi :: u32) OR ucast lo)"
  shows "sys_clock s' =
     (if holding_reg s ! 15 \<noteq> lo \<and> rtc_dev_set s \<and> TS_MIN \<le> t \<and> t < TS_MAX \<and> gmtime_ok E t \<and> rtc_set_rc E t = 0
      then t else sys_clock s)"
proof -
  let ?h = "snd (holding_reg_wr_cb E 14 hi s)"
  have h: "holding_reg ?h ! 14 = hi" "holding_reg ?h ! 15 = holding_reg s ! 15" "length (holding_reg ?h) = 18"
    "sys_clock ?h = sys_clock s" "rtc_dev_set ?h = rtc_dev_set s"
    using assms(1) by (auto simp: holding_reg_wr_cb_def io_write_holding_def io_write_effect_def Let_def)
  then show ?thesis using assms(2,3)
    by (auto simp: holding_reg_wr_cb_def [of E 15] io_write_holding_def [of E 15] io_write_effect_def [of E 15] Let_def set_timestamp_def
      combined_time_def get_holding_reg_def)
qed

theorem modbus_set_clock_witness:
  "sys_clock (snd (holding_reg_wr_cb demo_board 15 0 (snd (holding_reg_wr_cb demo_board 14 0x6955 (power_on demo_board 7 []))))) =
     (if holding_reg (power_on demo_board 7 []) ! 15 \<noteq> 0 \<and> rtc_dev_set (power_on demo_board 7 []) \<and>
         TS_MIN \<le> uint (push_bit 16 (ucast (0x6955 :: u16) :: u32) OR ucast (0 :: u16)) \<and>
         uint (push_bit 16 (ucast (0x6955 :: u16) :: u32) OR ucast (0 :: u16)) < TS_MAX \<and>
         gmtime_ok demo_board (uint (push_bit 16 (ucast (0x6955 :: u16) :: u32) OR ucast (0 :: u16))) \<and>
         rtc_set_rc demo_board (uint (push_bit 16 (ucast (0x6955 :: u16) :: u32) OR ucast (0 :: u16))) = 0
      then uint (push_bit 16 (ucast (0x6955 :: u16) :: u32) OR ucast (0 :: u16)) else sys_clock (power_on demo_board 7 []))"
  by (rule modbus_set_clock [OF _ refl refl]) (simp add: power_on_def, simp add: demo_board_def)

section \<open>Sampling\<close>

lemma di_fold_bit:
  assumes "i < 16"
  shows "bit (fold (\<lambda>i v. if bit en i \<and> pin i then v OR push_bit i 1 else v) js (v :: u16)) i
     = (bit v i \<or> (i \<in> set js \<and> bit en i \<and> pin i))"
  using assms by (induction js arbitrary: v) (auto simp: bit_simps)

definition adc_round :: "hub_env \<Rightarrow> u16 \<Rightarrow> (nat \<Rightarrow> int option) \<Rightarrow> nat list \<Rightarrow> hub_st \<Rightarrow> hub_st" where
  "adc_round E en adc = fold (\<lambda>i s. if bit en i then (case adc i of None \<Rightarrow> s
      | Some raw \<Rightarrow> snd (update_input_reg (input_idx INPUT_AI0 + of_nat i) (ai_convert E i raw) s)) else s)"

lemma adc_fold_inputs:
  assumes "length (input_reg s) = 6" "j < 6" "n \<le> 4"
  shows "input_reg (adc_round E en adc [0..<n] s) ! j =
    (if 1 \<le> j \<and> j < 1 + n \<and> bit en (j - 1) then (case adc (j - 1) of None \<Rightarrow> input_reg s ! j
       | Some raw \<Rightarrow> ai_convert E (j - 1) raw) else input_reg s ! j) \<and>
     length (input_reg (adc_round E en adc [0..<n] s)) = 6"
  using assms(3)
proof (induction n)
  case 0
  then show ?case using assms(1) by (auto simp: adc_round_def)
next
  case (Suc n)
  have u: "unat (1 + of_nat n :: u16) = Suc n"
  proof -
    have "n < 4" using Suc.prems by simp
    then have "n = 0 \<or> n = 1 \<or> n = 2 \<or> n = 3" by arith
    then show ?thesis by auto
  qed
  let ?t = "adc_round E en adc [0..<n] s"
  have go: "adc_round E en adc [0..<Suc n] s = (if bit en n then (case adc n of None \<Rightarrow> ?t
      | Some raw \<Rightarrow> snd (update_input_reg (input_idx INPUT_AI0 + of_nat n) (ai_convert E n raw) ?t)) else ?t)"
    unfolding adc_round_def by (simp del: input_idx.simps)
  show ?case using Suc assms(2) unfolding go
    by (cases "j = Suc n") (auto simp: update_input_reg_def u nth_list_update split: option.splits)
qed

text \<open>
  One round of each sampling thread puts into the input registers exactly what was read: a
  discrete input shows its pin if it is enabled and exists, an enabled analog channel whose
  conversion succeeded shows its converted sample, every other register keeps its value, and the
  period of the thread is clamped to between 10 and 5000 ms.
\<close>
theorem sampling_round:
  assumes "length (input_reg s) = 6" "i < 16" "ch < 4" "n_adc_specs E = 4"
    and "di = di_thread E r pin s" and "ai = adc_thread E r adc s"
  shows "discrete_input_rd_cb (of_nat i) (snd di) =
       Inr (bit (get_holding_reg 1 s) i \<and> i < n_di_gpios E \<and> pin i) \<and>
     input_reg (snd di) = (input_reg s)[5 := input_reg (snd di) ! 5] \<and>
     input_reg (snd ai) ! (1 + ch) =
       (case adc ch of None \<Rightarrow> input_reg s ! (1 + ch)
        | Some raw \<Rightarrow> if bit (get_holding_reg 2 s) ch then ai_convert E ch raw else input_reg s ! (1 + ch)) \<and>
     input_reg (snd ai) ! 0 = input_reg s ! 0 \<and> input_reg (snd ai) ! 5 = input_reg s ! 5 \<and>
     10 \<le> fst di \<and> fst di \<le> 5000 \<and> 10 \<le> fst ai \<and> fst ai \<le> 5000"
proof -
  have si: "10 \<le> sample_interval v \<and> sample_interval v \<le> 5000" for v
    by (auto simp: sample_interval_def Let_def SAMPLE_INTERVAL_MAX_def)
  have p: "fst di = sample_interval (get_holding_reg 3 s)" "fst ai = sample_interval (get_holding_reg 4 s)"
    using assms(5,6) by (simp_all add: di_thread_def adc_thread_def Let_def)
  have u: "unat (of_nat i :: u16) = i" using assms(2) by (simp add: unat_of_nat take_bit_nat_eq_self)
  have di: "input_reg (snd di) = (input_reg s)[5 := di_sample_value E (get_holding_reg 1 s) pin]"
    using assms(1,5) by (simp add: di_thread_def Let_def update_input_reg_def)
  have "bit (di_sample_value E (get_holding_reg 1 s) pin) i =
      (bit (get_holding_reg 1 s) i \<and> i < n_di_gpios E \<and> pin i)"
    using assms(2) by (auto simp: di_sample_value_def di_fold_bit DI_NUM_def)
  then have 1: "discrete_input_rd_cb (of_nat i) (snd di) = Inr (bit (get_holding_reg 1 s) i \<and> i < n_di_gpios E \<and> pin i)"
    using assms(1,2) by (simp add: discrete_input_rd_cb_def u DI_NUM_def di)
  have ai: "input_reg (snd ai) = input_reg (adc_round E (get_holding_reg 2 s) adc [0..<4] s)"
    using assms(4,6) by (simp add: adc_thread_def Let_def AI_NUM_def adc_round_def del: input_idx.simps)
  note ch = adc_fold_inputs [OF assms(1), of _ 4 E "get_holding_reg 2 s" adc]
  show ?thesis using ch [of "1 + ch"] ch [of 0] ch [of 5] assms(1,3) 1 di si
    unfolding ai p by (auto split: option.split)
qed

definition demo_di :: "u32 \<times> hub_st" where
  "demo_di = di_thread demo_board True even (power_on demo_board 0 [])"

definition demo_ai :: "u32 \<times> hub_st" where
  "demo_ai = adc_thread demo_board True (\<lambda>_. Some 2048) (power_on demo_board 0 [])"

theorem sampling_round_witness:
  "discrete_input_rd_cb (of_nat 4) (snd demo_di) =
       Inr (bit (get_holding_reg 1 (power_on demo_board 0 [])) 4 \<and> 4 < n_di_gpios demo_board \<and> even (4 :: nat)) \<and>
     input_reg (snd demo_di) = (input_reg (power_on demo_board 0 []))[5 := input_reg (snd demo_di) ! 5] \<and>
     input_reg (snd demo_ai) ! (1 + 2) =
       (case Some 2048 of None \<Rightarrow> input_reg (power_on demo_board 0 []) ! (1 + 2)
        | Some raw \<Rightarrow> if bit (get_holding_reg 2 (power_on demo_board 0 [])) 2 then ai_convert demo_board 2 raw
            else input_reg (power_on demo_board 0 []) ! (1 + 2)) \<and>
     input_reg (snd demo_ai) ! 0 = input_reg (power_on demo_board 0 []) ! 0 \<and>
     input_reg (snd demo_ai) ! 5 = input_reg (power_on demo_board 0 []) ! 5 \<and>
     10 \<le> fst demo_di \<and> fst demo_di \<le> 5000 \<and> 10 \<le> fst demo_ai \<and> fst demo_ai \<le> 5000"
  by (rule sampling_round [OF _ _ _ _ demo_di_def demo_ai_def])
     (simp_all add: power_on_def, simp_all add: demo_board_def)

end
