(* ===== verification/ModbusTcp.thy ===== *)
theory ModbusTcp imports HubState begin

text \<open>
  The Modbus TCP server of the hub (\<open>modbus/tcp.c\<close>): reading a frame from the stream, checking it,
  handing it to the Modbus server of the RTOS and waiting for its response, the list of clients and
  one round of the select loop.  A connection is what its \<open>recv\<close> calls will meet: a list of
  segments, where an empty one is the peer's close and the end of the list a timeout; the segmentation
  is arbitrary.  The header codec and the server of the RTOS are the parameter \<open>mb_env\<close>; the answers
  of the server, which runs in another thread, are a schedule of what each wait on the semaphore meets.
\<close>

definition ENOTCONN :: int where "ENOTCONN = 128"
definition MB_TCP_SESSION_TIMEOUT :: int where "MB_TCP_SESSION_TIMEOUT = 60000"

record adu =
  trans_id :: u16
  proto_id :: u16
  adu_length :: nat
  unit_id :: u8
  adu_fc :: u8
  adu_data :: bytes

record mb_env =
  raw_get_header :: "bytes \<Rightarrow> adu"
  raw_put_header :: "adu \<Rightarrow> bytes"
  raw_server_failure :: "adu \<Rightarrow> adu"
  raw_submit :: "adu \<Rightarrow> int"
  mb_bufsize :: nat

text \<open>
  What a \<open>send\<close> on the connection meets: nothing in the way (it takes the whole frame), an error, or a
  full buffer that takes only the first bytes.
\<close>

datatype send_fault = Send_errno int | Send_part nat

record mb_conn =
  conn_rx :: "bytes list"
  conn_tx :: "bytes list"
  conn_errno :: "send_fault option"

record mb_st =
  server_iface :: int
  srv_unit_id :: u8
  g_resp :: adu
  submitted :: "adu list"

section \<open>The server behind the raw interface\<close>

definition server_raw_cb :: "adu \<Rightarrow> mb_st \<Rightarrow> mb_st" where
  "server_raw_cb a s = s\<lparr>g_resp := a\<rparr>"

text \<open>\<open>iface\<close> and \<open>rc\<close> are what the lookup of the interface and the start of the server return.\<close>

definition init_modbus_server :: "int \<Rightarrow> int \<Rightarrow> hub_st \<Rightarrow> mb_st \<Rightarrow> int \<times> mb_st" where
  "init_modbus_server iface rc h s =
     (let s = s\<lparr>server_iface := iface\<rparr> in
      if iface < 0 then (- ENODEV, s)
      else (rc, s\<lparr>srv_unit_id := ucast (get_holding_reg (holding_idx HOLDING_SLAVE_ID) h)\<rparr>))"

section \<open>Stream input and output\<close>

fun tcp_recv :: "nat \<Rightarrow> bytes list \<Rightarrow> (int \<times> bytes) \<times> bytes list" where
  "tcp_recv n [] = ((-1, []), [])"
| "tcp_recv n (c # rx) = ((int (length (take n c)), take n c), if length c \<le> n then rx else drop n c # rx)"

function recv_full :: "nat \<Rightarrow> bytes \<Rightarrow> bytes list \<Rightarrow> int \<times> bytes \<times> bytes list" where
  "recv_full want acc rx =
     (if want \<le> length acc then (0, acc, rx)
      else let ((rc, d), rx') = tcp_recv (want - length acc) rx in
        if rc \<le> 0 then (if rc = 0 then - ENOTCONN else - EIO, acc, rx')
        else recv_full want (acc @ d) rx')"
  by pat_completeness auto

lemma tcp_recv_pos: "fst (fst (tcp_recv n rx)) = int (length (snd (fst (tcp_recv n rx)))) \<or> fst (fst (tcp_recv n rx)) = -1"
  by (cases rx) auto

lemma tcp_recv_some:
  assumes "tcp_recv n rx = ((rc, d), rx')" "rc > 0"
  shows "d \<noteq> []"
  using tcp_recv_pos [of n rx] assms by auto

lemma recv_progress: "\<not> want \<le> length acc \<Longrightarrow> d \<noteq> [] \<Longrightarrow> want - (length acc + length d) < want - length acc"
  by (cases d) auto

termination recv_full
  by (relation "measure (\<lambda>(want, acc, rx). want - length acc)")
     (auto dest!: sym [of _ "tcp_recv _ _"] tcp_recv_some intro: recv_progress)

declare recv_full.simps [simp del]

text \<open>One \<open>send\<close> for header and data; a short one counts as a success.\<close>

definition reply_adu :: "mb_env \<Rightarrow> adu \<Rightarrow> mb_conn \<Rightarrow> int \<times> mb_conn" where
  "reply_adu E a c =
     (let buf = raw_put_header E a @ take (adu_length a) (adu_data a) in
      case conn_errno c of
        Some (Send_errno e) \<Rightarrow> (- e, c)
      | Some (Send_part n) \<Rightarrow> (0, c\<lparr>conn_tx := conn_tx c @ [take n buf]\<rparr>)
      | None \<Rightarrow> (0, c\<lparr>conn_tx := conn_tx c @ [buf]\<rparr>))"

section \<open>One request\<close>

definition fc_supported :: "u8 \<Rightarrow> bool" where
  "fc_supported fc \<longleftrightarrow> fc \<in> {1, 2, 3, 4, 5, 6, 8, 15, 16}"

text \<open>Each wait meets a response the server filled in, or times out.\<close>

fun wait_response :: "u16 \<Rightarrow> adu option list \<Rightarrow> adu \<Rightarrow> adu" where
  "wait_response tid (Some a # evs) g = (if trans_id a = tid then a else wait_response tid evs a)"
| "wait_response tid _ g = g"

definition exchange :: "mb_env \<Rightarrow> adu option list \<Rightarrow> u8 \<Rightarrow> adu \<Rightarrow> mb_st \<Rightarrow> mb_conn \<Rightarrow> int \<times> mb_st \<times> mb_conn" where
  "exchange E evs orig req s c =
     (if raw_submit E req \<noteq> 0 then (- EIO, s, c)
      else
        let s = s\<lparr>submitted := submitted s @ [req]\<rparr> in
        if orig = 0 then (0, s, c)
        else
          let s = s\<lparr>g_resp := wait_response (trans_id req) evs (g_resp s)\<rparr> in
          if trans_id (g_resp s) \<noteq> trans_id req
          then (let (rc, c) = reply_adu E ((raw_server_failure E req)\<lparr>unit_id := orig\<rparr>) c in (rc, s, c))
          else
            let s = s\<lparr>g_resp := (g_resp s)\<lparr>unit_id := orig\<rparr>\<rparr>;
                (rc, c) = reply_adu E (g_resp s) c in (rc, s, c))"

definition handle_request :: "mb_env \<Rightarrow> adu option list \<Rightarrow> adu \<Rightarrow> mb_st \<Rightarrow> mb_conn \<Rightarrow> int \<times> mb_st \<times> mb_conn" where
  "handle_request E evs req s c =
     (let orig = unit_id req;
          req = (if orig \<noteq> 0 then req\<lparr>unit_id := srv_unit_id s\<rparr> else req) in
      if \<not> fc_supported (adu_fc req)
      then (let (rc, c) = reply_adu E (req\<lparr>unit_id := orig, adu_fc := adu_fc req OR 0x80, adu_data := [1], adu_length := 1\<rparr>) c
            in (rc, s, c))
      else if adu_length req < 2 then (0, s, c)
      else exchange E evs orig req s c)"

definition handle_client :: "mb_env \<Rightarrow> adu option list \<Rightarrow> mb_st \<Rightarrow> mb_conn \<Rightarrow> int \<times> mb_st \<times> mb_conn" where
  "handle_client E evs s c =
     (let (rc, header, rx) = recv_full 8 [] (conn_rx c); c = c\<lparr>conn_rx := rx\<rparr> in
      if rc < 0 then (rc, s, c)
      else
        let req = raw_get_header E header in
        if proto_id req \<noteq> 0 \<or> adu_length req > mb_bufsize E
        then (let (rc, c) = reply_adu E (raw_server_failure E req) c in (rc, s, c))
        else
          let (rc, d, rx) = recv_full (adu_length req) [] (conn_rx c); c = c\<lparr>conn_rx := rx\<rparr> in
          if rc < 0 then (rc, s, c)
          else handle_request E evs (req\<lparr>adu_data := d\<rparr>) s c)"

section \<open>Clients\<close>

record mb_client =
  fd :: int
  last_act :: int

record tcp_srv =
  client_list :: "mb_client list"
  client_count :: int
  closed_fds :: "int list"
  conns :: "int \<Rightarrow> mb_conn"
  mb :: mb_st

definition client_remove :: "int \<Rightarrow> tcp_srv \<Rightarrow> tcp_srv" where
  "client_remove f s =
     (if \<exists>c \<in> set (client_list s). fd c = f
      then s\<lparr>client_list := takeWhile (\<lambda>c. fd c \<noteq> f) (client_list s) @ tl (dropWhile (\<lambda>c. fd c \<noteq> f) (client_list s)),
             closed_fds := f # closed_fds s, client_count := client_count s - 1\<rparr>
      else s)"

text \<open>\<open>malloc_ok\<close> is whether the allocation succeeds, \<open>now\<close> the uptime.\<close>

definition client_add :: "bool \<Rightarrow> int \<Rightarrow> int \<Rightarrow> tcp_srv \<Rightarrow> tcp_srv" where
  "client_add malloc_ok now f s =
     (if \<not> malloc_ok then s\<lparr>closed_fds := f # closed_fds s\<rparr>
      else s\<lparr>client_list := \<lparr>fd = f, last_act = now\<rparr> # client_list s, client_count := client_count s + 1\<rparr>)"

definition set_act :: "int \<Rightarrow> int \<Rightarrow> mb_client list \<Rightarrow> mb_client list" where
  "set_act f now = map (\<lambda>c. if fd c = f then c\<lparr>last_act := now\<rparr> else c)"

text \<open>
  What one round of the loop meets: the descriptors \<open>select\<close> reports, whether the listening socket
  is one of them, the link, the descriptor \<open>accept\<close> returns, the responses that arrive while nobody waits, the answers of the server to each
  client's request, and the uptime.
\<close>

record round_in =
  sel_rc :: int
  sel_ready :: "int list"
  serv_ready :: bool
  link_up :: bool
  accept_fd :: int
  accept_mem :: bool
  late_responses :: "adu list"
  answers :: "int \<Rightarrow> adu option list"
  uptime :: int

definition serve_client :: "mb_env \<Rightarrow> round_in \<Rightarrow> int \<Rightarrow> tcp_srv \<Rightarrow> tcp_srv" where
  "serve_client E i f s =
     (let (rc, m, c) = handle_client E (answers i f) (mb s) (conns s f);
          s = s\<lparr>mb := m, conns := (conns s)(f := c)\<rparr> in
      if rc = 0 then s\<lparr>client_list := set_act f (uptime i) (client_list s)\<rparr> else client_remove f s)"

definition accept_client :: "round_in \<Rightarrow> tcp_srv \<Rightarrow> tcp_srv" where
  "accept_client i s =
     (if serv_ready i \<and> link_up i \<and> accept_fd i \<ge> 0 then client_add (accept_mem i) (uptime i) (accept_fd i) s else s)"

definition expire_clients :: "int \<Rightarrow> tcp_srv \<Rightarrow> tcp_srv" where
  "expire_clients now s =
     fold (\<lambda>c s. if now - last_act c > MB_TCP_SESSION_TIMEOUT then client_remove (fd c) s else s) (client_list s) s"

definition mb_tcp_round :: "mb_env \<Rightarrow> bool \<Rightarrow> round_in \<Rightarrow> tcp_srv \<Rightarrow> tcp_srv" where
  "mb_tcp_round E session_timeout i s =
     (let watched = map fd (client_list s);
          s = s\<lparr>mb := fold server_raw_cb (late_responses i) (mb s)\<rparr>;
          s = (if sel_rc i > 0
               then (let s = accept_client i s in
                     fold (\<lambda>c s. if fd c \<in> set watched \<and> fd c \<in> set (sel_ready i) then serve_client E i (fd c) s else s)
                       (client_list s) s)
               else s) in
      if session_timeout then expire_clients (uptime i) s else s)"

text \<open>Start of the thread: whether it reaches its loop, and the sockets it leaves open.\<close>

definition mb_tcp_start :: "int \<Rightarrow> int \<Rightarrow> int \<Rightarrow> int \<Rightarrow> int \<Rightarrow> hub_st \<Rightarrow> mb_st \<Rightarrow> (bool \<times> int list) \<times> mb_st" where
  "mb_tcp_start iface rc serv bind_rc listen_rc h s =
     (let (rc, s) = init_modbus_server iface rc h s in
      (if rc \<noteq> 0 then (False, []) else if serv < 0 then (False, [])
       else if bind_rc < 0 then (False, []) else if listen_rc < 0 then (False, []) else (True, [serv]), s))"

end
