(* ===== verification/ModbusTcpTheorems.thy ===== *)
theory ModbusTcpTheorems imports ModbusTcp "HOL-Library.Multiset" begin

text \<open>
  Exact reading under any segmentation and the bookkeeping of replies, clients and their descriptors.
  The properties of the Modbus TCP server, with a codec of the RTOS on which their hypotheses hold.
\<close>

section \<open>Reading from a segmented stream\<close>

definition avail :: "bytes list \<Rightarrow> bytes" where
  "avail rx = concat (takeWhile (\<lambda>c. c \<noteq> []) rx)"

lemma avail_simps [simp]: "avail [] = []" "avail ([] # rx) = []" "c \<noteq> [] \<Longrightarrow> avail (c # rx) = c @ avail rx"
  by (simp_all add: avail_def)

lemma recv_full_ok:
  "want \<le> length acc + length (avail rx) \<Longrightarrow>
   \<exists>rx'. recv_full want acc rx = (0, acc @ take (want - length acc) (avail rx), rx') \<and>
     avail rx' = drop (want - length acc) (avail rx)"
proof (induction want acc rx rule: recv_full.induct)
  case (1 want acc rx)
  show ?case
  proof (cases "want \<le> length acc")
    case True
    then show ?thesis by (simp add: recv_full.simps [of want acc rx])
  next
    case False
    let ?n = "want - length acc"
    have "avail rx \<noteq> []" using 1(2) False by auto
    then obtain c r where rx: "rx = c # r" "c \<noteq> []" by (cases rx) (auto simp: avail_def split: if_splits)
    let ?rx' = "if length c \<le> ?n then r else drop ?n c # r"
    have t: "tcp_recv ?n rx = ((int (length (take ?n c)), take ?n c), ?rx')" using rx by simp
    have p: "0 < int (length (take ?n c))" using False rx by simp
    have a: "avail ?rx' = drop (length (take ?n c)) (avail rx)" using rx by auto
    have "\<exists>rx''. recv_full want (acc @ take ?n c) ?rx' =
        (0, (acc @ take ?n c) @ take (want - length (acc @ take ?n c)) (avail ?rx'), rx'') \<and>
        avail rx'' = drop (want - length (acc @ take ?n c)) (avail ?rx')"
      by (rule "1.IH" [OF False t [symmetric] refl refl]) (use p a 1(2) False rx in \<open>auto simp: min_def\<close>)
    moreover have "recv_full want acc rx = recv_full want (acc @ take ?n c) ?rx'"
      using False p by (subst recv_full.simps) (simp add: t)
    ultimately show ?thesis using rx a by (auto simp: min_def add.commute)
  qed
qed

lemma recv_full_short: "length acc + length (avail rx) < want \<Longrightarrow> fst (recv_full want acc rx) < 0"
proof (induction want acc rx rule: recv_full.induct)
  case (1 want acc rx)
  let ?n = "want - length acc"
  consider "rx = []" | r where "rx = [] # r" | c r where "rx = c # r" "c \<noteq> []" by (cases rx) auto
  then show ?case
  proof cases
    case 3
    then have l: "length c \<le> ?n" using 1(2) by simp
    then have t: "tcp_recv ?n rx = ((int (length c), c), r)" using 3 by simp
    have "fst (recv_full want (acc @ c) r) < 0"
      by (rule "1.IH" [OF _ t [symmetric] refl refl]) (use 1(2) 3 in auto)
    then show ?thesis using 3 1(2) l by (subst recv_full.simps) (simp add: t)
  qed (use 1(2) in \<open>(subst recv_full.simps, simp add: ENOTCONN_def EIO_def)+\<close>)
qed

section \<open>The codec of the RTOS\<close>

definition raw_laws :: "mb_env \<Rightarrow> bool" where
  "raw_laws E \<longleftrightarrow>
     (\<forall>a. length (raw_put_header E a) = 8 \<and>
        trans_id (raw_get_header E (raw_put_header E a)) = trans_id a \<and>
        unit_id (raw_get_header E (raw_put_header E a)) = unit_id a \<and>
        proto_id (raw_get_header E (raw_put_header E a)) = proto_id a \<and>
        adu_fc (raw_get_header E (raw_put_header E a)) = adu_fc a \<and>
        (adu_length a \<le> mb_bufsize E \<longrightarrow> adu_length (raw_get_header E (raw_put_header E a)) = adu_length a)) \<and>
     (\<forall>a. trans_id (raw_server_failure E a) = trans_id a \<and> unit_id (raw_server_failure E a) = unit_id a)"

definition frame :: "mb_env \<Rightarrow> adu \<Rightarrow> bytes" where
  "frame E a = raw_put_header E a @ take (adu_length a) (adu_data a)"

lemma raw_put_length: "raw_laws E \<Longrightarrow> length (raw_put_header E a) = 8"
  by (simp add: raw_laws_def)

text \<open>At most one more frame was sent, possibly cut short, and its identifiers are those of the request.\<close>

definition answers_req :: "mb_env \<Rightarrow> adu \<Rightarrow> bytes list \<Rightarrow> bytes list \<Rightarrow> bool" where
  "answers_req E req old new \<longleftrightarrow> new = old \<or> (\<exists>a n. new = old @ [take n (frame E a)] \<and>
     trans_id a = trans_id req \<and> unit_id a = unit_id req)"

lemma reply_tx:
  "conn_tx (snd (reply_adu E a c)) = conn_tx c \<or> (\<exists>n. conn_tx (snd (reply_adu E a c)) = conn_tx c @ [take n (frame E a)])"
proof (cases "conn_errno c")
  case None
  then show ?thesis
    by (intro disjI2 exI [of _ "length (frame E a)"]) (simp add: reply_adu_def frame_def Let_def del: take_append)
next
  case (Some f)
  then show ?thesis by (cases f) (auto simp: reply_adu_def frame_def Let_def simp del: take_append)
qed

lemma answers_reply:
  assumes "trans_id a = trans_id req" "unit_id a = unit_id req"
  shows "answers_req E req (conn_tx c) (conn_tx (snd (reply_adu E a c)))"
  using reply_tx [of E a c] assms by (auto simp: answers_req_def)

lemma exchange_answers:
  assumes "raw_laws E" "trans_id req = trans_id req0" "orig = unit_id req0"
  shows "answers_req E req0 (conn_tx c) (conn_tx (snd (snd (exchange E evs orig req s c))))"
  using assms answers_reply [of _ req0 E c]
  by (auto simp: exchange_def Let_def case_prod_beta answers_req_def [of E req0 "conn_tx c" "conn_tx c"] raw_laws_def)

lemma exchange_broadcast: "conn_tx (snd (snd (exchange E evs 0 req s c))) = conn_tx c"
  by (simp add: exchange_def Let_def)

section \<open>A concrete codec\<close>

definition be16 :: "u16 \<Rightarrow> bytes" where
  "be16 v = [ucast (drop_bit 8 v), ucast v]"

definition get_be16 :: "bytes \<Rightarrow> u16" where
  "get_be16 bs = le16 (bs ! 1) (bs ! 0)"

text \<open>The length on the wire counts the unit identifier and the function code too.\<close>

definition demo_codec :: mb_env where
  "demo_codec = \<lparr> raw_get_header = (\<lambda>h. \<lparr> trans_id = get_be16 h, proto_id = get_be16 (drop 2 h),
       adu_length = unat (get_be16 (drop 4 h) - 2), unit_id = h ! 6, adu_fc = h ! 7, adu_data = [] \<rparr>),
     raw_put_header = (\<lambda>a. be16 (trans_id a) @ be16 (proto_id a) @ be16 (of_nat (adu_length a) + 2) @ [unit_id a, adu_fc a]),
     raw_server_failure = (\<lambda>a. a\<lparr>adu_fc := adu_fc a OR 0x80, adu_data := [4], adu_length := 1\<rparr>),
     raw_submit = (\<lambda>_. 0), mb_bufsize = 256 \<rparr>"

lemma get_be16_be16 [simp]: "get_be16 (be16 v @ r) = v"
  by (simp add: get_be16_def be16_def le16_put)

lemma length_be16 [simp]: "length (be16 v) = 2"
  by (simp add: be16_def)

lemma demo_codec_laws: "raw_laws demo_codec"
proof -
  have d: "drop 2 (be16 x @ r) = r" "drop 4 (be16 x @ be16 y @ r) = r" "(be16 x @ be16 y @ be16 z @ [u, f]) ! 6 = u"
    "(be16 x @ be16 y @ be16 z @ [u, f]) ! 7 = f" for x y z r u f
    by (simp_all add: be16_def)
  show ?thesis
    by (auto simp: raw_laws_def demo_codec_def d unat_of_nat take_bit_nat_eq_self)
qed

section \<open>At most one reply, and for this request\<close>

lemma handle_request_answers:
  assumes "raw_laws E" "trans_id req = trans_id req0" "unit_id req = unit_id req0"
  shows "answers_req E req0 (conn_tx c) (conn_tx (snd (snd (handle_request E evs req s c))))"
proof -
  let ?req = "if unit_id req \<noteq> 0 then req\<lparr>unit_id := srv_unit_id s\<rparr> else req"
  have "answers_req E req0 (conn_tx c) (conn_tx (snd (snd (exchange E evs (unit_id req) ?req s c))))"
    using assms by (intro exchange_answers) auto
  moreover have "answers_req E req0 (conn_tx c) (conn_tx (snd (reply_adu E
      (?req\<lparr>unit_id := unit_id req, adu_fc := adu_fc ?req OR 0x80, adu_data := [1], adu_length := 1\<rparr>) c)))"
    using assms by (intro answers_reply) auto
  moreover have "answers_req E req0 (conn_tx c) (conn_tx c)" by (simp add: answers_req_def)
  ultimately show ?thesis by (auto simp: handle_request_def Let_def case_prod_beta)
qed

text \<open>
  C21. A readable connection gets at most one frame for each request, and with the identifiers of that
  request: whatever arrives on the connection and however it is segmented, whatever the server
  behind answers or does not answer and whatever is left from earlier exchanges, handling the
  connection sends at most one frame (or, on a short send, the beginning of one), only after a whole
  header was read, and the transaction and unit identifiers of the frame are those of that header.  A
  well-formed broadcast with a known function code is never answered.  The identifiers are all
  that is compared: an old response with the same transaction identifier passes for the answer, as
  the lemma on stale responses shows.
\<close>
theorem modbus_one_reply:
  assumes "raw_laws E"
    and "req = raw_get_header E (take 8 (avail (conn_rx c)))"
    and "(rc, s', c') = handle_client E evs s c"
  shows "answers_req E req (conn_tx c) (conn_tx c') \<and>
     (if length (avail (conn_rx c)) < 8 then rc < 0 \<and> conn_tx c' = conn_tx c else True) \<and>
     (if unit_id req = 0 \<and> proto_id req = 0 \<and> adu_length req \<le> mb_bufsize E \<and> fc_supported (adu_fc req)
      then conn_tx c' = conn_tx c else True)"
proof (cases "length (avail (conn_rx c)) < 8")
  case True
  then have "fst (recv_full 8 [] (conn_rx c)) < 0" using recv_full_short [of "[]" "conn_rx c" 8] by simp
  then show ?thesis using True assms(3) by (simp add: handle_client_def Let_def case_prod_beta answers_req_def)
next
  case False
  then obtain rx where h: "recv_full 8 [] (conn_rx c) = (0, take 8 (avail (conn_rx c)), rx)"
    using recv_full_ok [of 8 "[]" "conn_rx c"] by auto
  let ?c = "c\<lparr>conn_rx := rx\<rparr>"
  obtain rc2 d rx2 where b: "recv_full (adu_length req) [] rx = (rc2, d, rx2)" using prod_cases3 by blast
  let ?c2 = "c\<lparr>conn_rx := rx2\<rparr>"
  have c': "c' = (if proto_id req \<noteq> 0 \<or> adu_length req > mb_bufsize E then snd (reply_adu E (raw_server_failure E req) ?c)
      else if rc2 < 0 then ?c2 else snd (snd (handle_request E evs (req\<lparr>adu_data := d\<rparr>) s ?c2)))"
    using assms(2,3) h b by (auto simp: handle_client_def Let_def case_prod_beta split: if_splits) (metis snd_conv)+
  have f: "answers_req E req (conn_tx c) (conn_tx (snd (reply_adu E (raw_server_failure E req) ?c)))"
    using answers_reply [of "raw_server_failure E req" req E ?c] assms(1) by (simp add: raw_laws_def)
  have r: "answers_req E req (conn_tx c) (conn_tx (snd (snd (handle_request E evs (req\<lparr>adu_data := d\<rparr>) s ?c2))))"
    using handle_request_answers [OF assms(1), of "req\<lparr>adu_data := d\<rparr>" req ?c2] by simp
  have "conn_tx (snd (snd (handle_request E evs (req\<lparr>adu_data := d\<rparr>) s ?c2))) = conn_tx c"
    if "unit_id req = 0" "fc_supported (adu_fc req)"
    using that exchange_broadcast [of E evs] by (simp add: handle_request_def Let_def)
  then show ?thesis using f r False unfolding c' by (auto simp: answers_req_def)
qed

definition demo_adu :: "u16 \<Rightarrow> u8 \<Rightarrow> bytes \<Rightarrow> adu" where
  "demo_adu t u d = \<lparr>trans_id = t, proto_id = 0, adu_length = length d, unit_id = u, adu_fc = 3, adu_data = d\<rparr>"

definition demo_mb :: mb_st where
  "demo_mb = \<lparr>server_iface = 0, srv_unit_id = 1, g_resp = demo_adu 0 0 [], submitted = []\<rparr>"

text \<open>A read of two registers cut into three segments.\<close>

definition demo_rx :: "bytes list" where
  "demo_rx = [[0, 7, 0], [0, 0, 6, 17, 3, 0, 0], [0, 2]]"

definition demo_conn :: mb_conn where
  "demo_conn = \<lparr>conn_rx = demo_rx, conn_tx = [], conn_errno = None\<rparr>"

definition demo_out :: "int \<times> mb_st \<times> mb_conn" where
  "demo_out = handle_client demo_codec [Some (demo_adu 3 1 [9]), Some (demo_adu 7 1 [4, 0, 1, 0, 2])] demo_mb demo_conn"

definition demo_req :: adu where
  "demo_req = raw_get_header demo_codec (take 8 (avail (conn_rx demo_conn)))"

theorem modbus_one_reply_witness:
  "answers_req demo_codec demo_req (conn_tx demo_conn) (conn_tx (snd (snd demo_out))) \<and>
   (if length (avail (conn_rx demo_conn)) < 8 then fst demo_out < 0 \<and> conn_tx (snd (snd demo_out)) = conn_tx demo_conn else True) \<and>
   (if unit_id demo_req = 0 \<and> proto_id demo_req = 0 \<and> adu_length demo_req \<le> mb_bufsize demo_codec \<and> fc_supported (adu_fc demo_req)
    then conn_tx (snd (snd demo_out)) = conn_tx demo_conn else True)"
  by (rule modbus_one_reply [OF demo_codec_laws demo_req_def, of _ "fst (snd demo_out)" _
      "[Some (demo_adu 3 1 [9]), Some (demo_adu 7 1 [4, 0, 1, 0, 2])]" demo_mb])
     (simp add: demo_out_def)

section \<open>Requests in order\<close>

definition good_req :: "mb_env \<Rightarrow> adu \<Rightarrow> bool" where
  "good_req E r \<longleftrightarrow> proto_id r = 0 \<and> adu_length r = length (adu_data r) \<and> 2 \<le> adu_length r \<and>
     adu_length r \<le> mb_bufsize E \<and> fc_supported (adu_fc r) \<and> unit_id r \<noteq> 0"

lemma header_roundtrip:
  assumes "raw_laws E" "adu_length r \<le> mb_bufsize E"
  shows "(raw_get_header E (raw_put_header E r))\<lparr>adu_data := adu_data r\<rparr> = r"
  using assms by (intro adu.equality) (simp_all add: raw_laws_def)

lemma handle_good_frame:
  assumes "raw_laws E" "good_req E r" "avail (conn_rx c) = frame E r @ rest"
  shows "\<exists>rx. avail rx = rest \<and> handle_client E evs s c =
     exchange E evs (unit_id r) (r\<lparr>unit_id := srv_unit_id s\<rparr>) s (c\<lparr>conn_rx := rx\<rparr>)"
proof -
  let ?h = "raw_get_header E (raw_put_header E r)"
  have l: "length (raw_put_header E r) = 8" using assms(1) by (rule raw_put_length)
  have av: "avail (conn_rx c) = raw_put_header E r @ adu_data r @ rest"
    using assms(2,3) by (simp add: frame_def good_req_def)
  obtain rx where h: "recv_full 8 [] (conn_rx c) = (0, raw_put_header E r, rx)" "avail rx = adu_data r @ rest"
    using recv_full_ok [of 8 "[]" "conn_rx c"] by (auto simp: av l)
  have f: "proto_id ?h = 0" "adu_length ?h = length (adu_data r)" "adu_length ?h \<le> mb_bufsize E"
    using assms(1,2) by (auto simp: raw_laws_def good_req_def)
  obtain rx2 where d: "recv_full (adu_length ?h) [] rx = (0, adu_data r, rx2)" "avail rx2 = rest"
    using recv_full_ok [of "adu_length ?h" "[]" rx] by (auto simp: h f)
  have "handle_client E evs s c = handle_request E evs (?h\<lparr>adu_data := adu_data r\<rparr>) s (c\<lparr>conn_rx := rx2\<rparr>)"
    using f by (simp add: handle_client_def h d [unfolded f] Let_def)
  also have "\<dots> = handle_request E evs r s (c\<lparr>conn_rx := rx2\<rparr>)"
    using assms(1,2) by (simp add: header_roundtrip good_req_def)
  also have "\<dots> = exchange E evs (unit_id r) (r\<lparr>unit_id := srv_unit_id s\<rparr>) s (c\<lparr>conn_rx := rx2\<rparr>)"
    using assms(2) by (simp add: handle_request_def Let_def good_req_def)
  finally show ?thesis using d(2) by blast
qed

lemma wait_response_found:
  "list_all (\<lambda>b. trans_id b \<noteq> tid) st \<Longrightarrow> trans_id a = tid \<Longrightarrow> wait_response tid (map Some st @ Some a # evs) g = a"
  by (induction st arbitrary: g) auto

text \<open>The select loop serving one connection as long as it is kept.\<close>

fun serve_all :: "mb_env \<Rightarrow> adu option list list \<Rightarrow> mb_st \<Rightarrow> mb_conn \<Rightarrow> mb_st \<times> mb_conn" where
  "serve_all E [] s c = (s, c)"
| "serve_all E (ev # evs) s c =
     (let (rc, s, c) = handle_client E ev s c in if rc < 0 then (s, c) else serve_all E evs s c)"

text \<open>A request, late responses to earlier requests that arrive first, and the response.\<close>

type_synonym mb_exchange = "adu \<times> adu list \<times> adu"

definition good_exchange :: "mb_env \<Rightarrow> u8 \<Rightarrow> mb_exchange \<Rightarrow> bool" where
  "good_exchange E u = (\<lambda>(r, st, a). good_req E r \<and> list_all (\<lambda>b. trans_id b \<noteq> trans_id r) st \<and>
     trans_id a = trans_id r \<and> raw_submit E (r\<lparr>unit_id := u\<rparr>) = 0)"

text \<open>
  C22. Pipelined requests are answered in order: when a connection carries well-formed requests back
  to back, cut into segments anywhere, and the server answers each one, possibly after responses to
  older requests, then the replies sent are the server's responses in the order of the requests,
  with the unit identifiers the client used; the server saw every request once with its own
  identifier, and what follows on the stream is left untouched.
\<close>
theorem modbus_session_in_order:
  assumes "raw_laws E" "list_all (good_exchange E (srv_unit_id s)) xs"
    and "avail (conn_rx c) = concat (map (\<lambda>x. frame E (fst x)) xs) @ rest"
    and "conn_errno c = None"
    and "serve_all E (map (\<lambda>(_, st, a). map Some st @ [Some a]) xs) s c = (s', c')"
  shows "conn_tx c' = conn_tx c @ map (\<lambda>(r, _, a). frame E (a\<lparr>unit_id := unit_id r\<rparr>)) xs \<and>
     submitted s' = submitted s @ map (\<lambda>x. (fst x)\<lparr>unit_id := srv_unit_id s\<rparr>) xs \<and>
     avail (conn_rx c') = rest"
  using assms(2-5)
proof (induction xs arbitrary: s c)
  case (Cons x xs)
  obtain r st a where x: "x = (r, st, a)" by (cases x)
  let ?evs = "map Some st @ [Some a]" and ?r = "r\<lparr>unit_id := srv_unit_id s\<rparr>"
  have g: "good_req E r" "list_all (\<lambda>b. trans_id b \<noteq> trans_id r) st" "trans_id a = trans_id r" "raw_submit E ?r = 0"
    using Cons.prems(1) by (auto simp: x good_exchange_def)
  obtain rx where rx: "avail rx = concat (map (\<lambda>x. frame E (fst x)) xs) @ rest"
    "handle_client E ?evs s c = exchange E ?evs (unit_id r) ?r s (c\<lparr>conn_rx := rx\<rparr>)"
    using handle_good_frame [OF assms(1) g(1), of c "concat (map (\<lambda>x. frame E (fst x)) xs) @ rest" ?evs s] Cons.prems(2)
    by (auto simp: x)
  have w: "wait_response (trans_id r) ?evs g = a" for g using wait_response_found g(2,3) by blast
  let ?s1 = "s\<lparr>submitted := submitted s @ [?r], g_resp := a\<lparr>unit_id := unit_id r\<rparr>\<rparr>"
  let ?c1 = "c\<lparr>conn_rx := rx, conn_tx := conn_tx c @ [frame E (a\<lparr>unit_id := unit_id r\<rparr>)]\<rparr>"
  have "handle_client E ?evs s c = (0, ?s1, ?c1)"
    using g Cons.prems(3) unfolding rx(2) exchange_def
    by (simp add: Let_def w reply_adu_def frame_def good_req_def)
  then have "serve_all E (map (\<lambda>(_, st, a). map Some st @ [Some a]) xs) ?s1 ?c1 = (s', c')"
    using Cons.prems(4) by (simp add: x)
  then show ?case
    using Cons.IH [of ?s1 ?c1] Cons.prems(1,3) rx(1) by (simp add: x good_exchange_def)
qed simp

definition demo_exchanges :: "mb_exchange list" where
  "demo_exchanges = [(demo_adu 7 17 [0, 0, 0, 2], [demo_adu 3 1 [9]], demo_adu 7 1 [4, 0, 1, 0, 2]),
     (demo_adu 8 255 [0, 1, 0, 1], [], demo_adu 8 1 [2, 0, 5])]"

definition demo_pipe :: mb_conn where
  "demo_pipe = \<lparr>conn_rx = [take 5 (frame demo_codec (demo_adu 7 17 [0, 0, 0, 2])),
       drop 5 (frame demo_codec (demo_adu 7 17 [0, 0, 0, 2])) @ frame demo_codec (demo_adu 8 255 [0, 1, 0, 1]) @ [1, 2], []],
     conn_tx = [], conn_errno = None\<rparr>"

definition demo_run :: "mb_st \<times> mb_conn" where
  "demo_run = serve_all demo_codec (map (\<lambda>(_, st, a). map Some st @ [Some a]) demo_exchanges) demo_mb demo_pipe"

lemma demo_pipe_stream:
  "avail (conn_rx demo_pipe) = concat (map (\<lambda>x. frame demo_codec (fst x)) demo_exchanges) @ [1, 2]"
  by (simp add: demo_pipe_def demo_exchanges_def frame_def demo_codec_def be16_def demo_adu_def)

theorem modbus_session_in_order_witness:
  "conn_tx (snd demo_run) = conn_tx demo_pipe @ map (\<lambda>(r, _, a). frame demo_codec (a\<lparr>unit_id := unit_id r\<rparr>)) demo_exchanges \<and>
     submitted (fst demo_run) = submitted demo_mb @ map (\<lambda>x. (fst x)\<lparr>unit_id := srv_unit_id demo_mb\<rparr>) demo_exchanges \<and>
     avail (conn_rx (snd demo_run)) = [1, 2]"
proof (rule modbus_session_in_order [OF demo_codec_laws _ demo_pipe_stream])
  show "list_all (good_exchange demo_codec (srv_unit_id demo_mb)) demo_exchanges"
    by (simp add: demo_exchanges_def good_exchange_def good_req_def demo_adu_def fc_supported_def, simp add: demo_codec_def)
  show "serve_all demo_codec (map (\<lambda>(_, st, a). map Some st @ [Some a]) demo_exchanges) demo_mb demo_pipe
    = (fst demo_run, snd demo_run)" by (simp add: demo_run_def)
qed (simp add: demo_pipe_def)

text \<open>
  A response that timed out is not forgotten: when no response to a request arrives in time and
  the last response the server ever produced carries the same transaction identifier, that old
  response is sent as the answer, instead of the server failure the code means to send.
\<close>
theorem modbus_stale_response:
  assumes "raw_laws E" "good_req E r" "avail (conn_rx c) = frame E r @ rest"
    and "conn_errno c = None" "raw_submit E (r\<lparr>unit_id := srv_unit_id s\<rparr>) = 0"
    and "trans_id (g_resp s) = trans_id r"
  shows "conn_tx (snd (snd (handle_client E [None] s c))) = conn_tx c @ [frame E ((g_resp s)\<lparr>unit_id := unit_id r\<rparr>)]"
proof -
  obtain rx where "handle_client E [None] s c =
      exchange E [None] (unit_id r) (r\<lparr>unit_id := srv_unit_id s\<rparr>) s (c\<lparr>conn_rx := rx\<rparr>)"
    using handle_good_frame [OF assms(1-3)] by blast
  then show ?thesis using assms(2,4-6) by (simp add: exchange_def Let_def reply_adu_def frame_def good_req_def)
qed

theorem modbus_stale_response_witness:
  "conn_tx (snd (snd (handle_client demo_codec [None] (demo_mb\<lparr>g_resp := demo_adu 7 1 [2, 0, 5]\<rparr>) demo_pipe)))
     = conn_tx demo_pipe @ [frame demo_codec ((g_resp (demo_mb\<lparr>g_resp := demo_adu 7 1 [2, 0, 5]\<rparr>))\<lparr>unit_id := unit_id (demo_adu 7 17 [0, 0, 0, 2])\<rparr>)]"
  by (rule modbus_stale_response [OF demo_codec_laws, of "demo_adu 7 17 [0, 0, 0, 2]" _ "frame demo_codec (demo_adu 8 255 [0, 1, 0, 1]) @ [1, 2]"])
     (simp_all add: demo_pipe_stream demo_exchanges_def good_req_def fc_supported_def demo_adu_def, simp_all add: demo_codec_def demo_pipe_def)

end
