(* ===== verification/TcpClients.thy ===== *)
theory TcpClients imports ModbusTcpTheorems begin

text \<open>
  The clients of the Modbus TCP server over every sequence of rounds of its loop: reachability as an
  inductive relation that also collects the descriptors accepted so far, and the accounting of
  those descriptors.
\<close>

section \<open>Accounting\<close>

definition accounted :: "int multiset \<Rightarrow> tcp_srv \<Rightarrow> bool" where
  "accounted A s \<longleftrightarrow> distinct (map fd (client_list s)) \<and> client_count s = int (length (client_list s)) \<and>
     mset (map fd (client_list s)) + mset (closed_fds s) = A"

lemma remove_first:
  assumes "distinct (map fd L)" "\<exists>c \<in> set L. fd c = f"
  shows "takeWhile (\<lambda>c. fd c \<noteq> f) L @ tl (dropWhile (\<lambda>c. fd c \<noteq> f) L) = filter (\<lambda>c. fd c \<noteq> f) L \<and>
    mset (map fd L) = add_mset f (mset (map fd (filter (\<lambda>c. fd c \<noteq> f) L))) \<and>
    length L = Suc (length (filter (\<lambda>c. fd c \<noteq> f) L))"
  using assms
proof (induction L)
  case (Cons a L)
  have o: "filter (\<lambda>c. fd c \<noteq> f) L = L" if "fd a = f"
    unfolding filter_id_conv using Cons.prems(1) that by (simp, metis image_eqI)
  show ?case using Cons o by auto
qed simp

lemma client_remove_list:
  "distinct (map fd (client_list s)) \<Longrightarrow> client_list (client_remove f s) = filter (\<lambda>c. fd c \<noteq> f) (client_list s)"
  by (auto simp: client_remove_def remove_first filter_id_conv)

lemma accounted_remove:
  assumes "accounted A s"
  shows "accounted A (client_remove f s)"
proof (cases "\<exists>c \<in> set (client_list s). fd c = f")
  case True
  have d: "distinct (map fd (client_list s))" using assms by (simp add: accounted_def)
  show ?thesis using assms True remove_first [OF d True]
    by (auto simp: accounted_def client_remove_def distinct_map_filter)
qed (use assms in \<open>simp add: client_remove_def\<close>)

lemma accounted_add:
  "accounted A s \<Longrightarrow> f \<notin> fd ` set (client_list s) \<Longrightarrow> accounted (add_mset f A) (client_add m t f s)"
  by (auto simp: accounted_def client_add_def)

lemma set_act_fds [simp]: "map fd (set_act f t L) = map fd L" "length (set_act f t L) = length L"
  by (simp_all add: set_act_def)

lemma accounted_serve: "accounted A s \<Longrightarrow> accounted A (serve_client E i f s)"
proof -
  assume a: "accounted A s"
  have "accounted A (s\<lparr>mb := m, conns := k, client_list := set_act f t (client_list s)\<rparr>)" for m k t
    using a unfolding accounted_def by (simp flip: map_map)
  moreover have "accounted A (s\<lparr>mb := m, conns := k\<rparr>)" for m k
    using a by (simp add: accounted_def)
  ultimately show ?thesis by (simp add: serve_client_def Let_def case_prod_beta accounted_remove)
qed

lemma accounted_fold:
  assumes "accounted A s" "\<And>c s. accounted A s \<Longrightarrow> accounted A (g c s)"
  shows "accounted A (fold g cs s)"
  using assms(1) by (induction cs arbitrary: s) (auto intro: assms(2))

definition accepts :: "round_in \<Rightarrow> bool" where
  "accepts i \<longleftrightarrow> sel_rc i > 0 \<and> serv_ready i \<and> link_up i \<and> accept_fd i \<ge> 0"

lemma accounted_round:
  assumes "accounted A s" "accepts i \<Longrightarrow> accept_fd i \<notin> fd ` set (client_list s)"
  shows "accounted (if accepts i then add_mset (accept_fd i) A else A) (mb_tcp_round E st i s)"
proof -
  let ?s = "s\<lparr>mb := fold server_raw_cb (late_responses i) (mb s)\<rparr>"
  have s: "accounted A ?s" "client_list ?s = client_list s" using assms(1) by (simp_all add: accounted_def)
  have "accounted (if accepts i then add_mset (accept_fd i) A else A) (if sel_rc i > 0 then accept_client i ?s else ?s)"
    using s assms(2) by (auto simp: accept_client_def accepts_def accounted_add)
  then show ?thesis
    by (auto simp: mb_tcp_round_def expire_clients_def Let_def intro!: accounted_fold accounted_serve accounted_remove)
qed

text \<open>
  The states the server reaches, with the descriptors it accepted on the way.  The operating system
  never returns a descriptor that is still open.
\<close>

inductive tcp_reach :: "mb_env \<Rightarrow> bool \<Rightarrow> int multiset \<Rightarrow> tcp_srv \<Rightarrow> bool" for E st where
  start: "client_list s = [] \<Longrightarrow> client_count s = 0 \<Longrightarrow> closed_fds s = [] \<Longrightarrow> tcp_reach E st {#} s"
| round: "tcp_reach E st A s \<Longrightarrow> (accepts i \<Longrightarrow> accept_fd i \<notin> fd ` set (client_list s)) \<Longrightarrow>
    tcp_reach E st (if accepts i then add_mset (accept_fd i) A else A) (mb_tcp_round E st i s)"

lemma reach_accounted: "tcp_reach E st A s \<Longrightarrow> accounted A s"
  by (induction rule: tcp_reach.induct) (simp_all add: accounted_def [of "{#}"] accounted_round)

section \<open>Idle clients\<close>

lemma expire_list:
  assumes "distinct (map fd (client_list s))"
  shows "client_list (fold (\<lambda>c s. if now - last_act c > T then client_remove (fd c) s else s) cs s) =
     filter (\<lambda>c. \<forall>d \<in> set cs. now - last_act d > T \<longrightarrow> fd d \<noteq> fd c) (client_list s)"
  using assms
proof (induction cs arbitrary: s)
  case (Cons d cs)
  let ?s = "if now - last_act d > T then client_remove (fd d) s else s"
  have l: "client_list ?s = filter (\<lambda>c. now - last_act d > T \<longrightarrow> fd d \<noteq> fd c) (client_list s)"
    using client_remove_list [OF Cons.prems] by (auto simp: eq_commute [of "fd d"])
  have "distinct (map fd (client_list ?s))" unfolding l using Cons.prems by (rule distinct_map_filter)
  then show ?case using Cons.IH [of ?s] l by (auto intro: filter_cong)
qed simp

lemma round_split:
  assumes "accounted A s" "accepts i \<Longrightarrow> accept_fd i \<notin> fd ` set (client_list s)"
  obtains t where "mb_tcp_round E True i s = expire_clients (uptime i) t" "distinct (map fd (client_list t))"
proof -
  have "mb_tcp_round E True i s = expire_clients (uptime i) (mb_tcp_round E False i s)"
    by (simp add: mb_tcp_round_def Let_def)
  moreover have "distinct (map fd (client_list (mb_tcp_round E False i s)))"
    using accounted_round [OF assms, of E False] by (simp add: accounted_def)
  ultimately show ?thesis using that by blast
qed

text \<open>
  No descriptor leaks and none is closed twice: in every state the server reaches, each descriptor
  it ever accepted (counted as often as it was accepted) is either exactly one client of the list
  or was closed, the clients are distinct and counted correctly; with the session timeout enabled
  no client that was idle longer than the timeout survives a round.
\<close>
theorem tcp_clients_accounted:
  assumes "tcp_reach E st A s" "accepts i \<Longrightarrow> accept_fd i \<notin> fd ` set (client_list s)"
  shows "mset (map fd (client_list s)) + mset (closed_fds s) = A \<and> distinct (map fd (client_list s)) \<and>
     client_count s = int (length (client_list s)) \<and>
     (if st then list_all (\<lambda>c. uptime i - last_act c \<le> MB_TCP_SESSION_TIMEOUT) (client_list (mb_tcp_round E st i s)) else True)"
proof -
  have a: "accounted A s" using assms(1) by (rule reach_accounted)
  have "list_all (\<lambda>c. uptime i - last_act c \<le> MB_TCP_SESSION_TIMEOUT) (client_list (mb_tcp_round E True i s))"
  proof -
    obtain t where "mb_tcp_round E True i s = expire_clients (uptime i) t" "distinct (map fd (client_list t))"
      using round_split [OF a assms(2)] by metis
    then show ?thesis by (auto simp: expire_clients_def expire_list list_all_iff not_less)
  qed
  then show ?thesis using a by (auto simp: accounted_def)
qed

definition demo_srv :: tcp_srv where
  "demo_srv = \<lparr>client_list = [], client_count = 0, closed_fds = [], conns = (\<lambda>_. demo_conn), mb = demo_mb\<rparr>"

definition demo_round :: round_in where
  "demo_round = \<lparr>sel_rc = 1, sel_ready = [], serv_ready = True, link_up = True, accept_fd = 5, accept_mem = True,
     late_responses = [], answers = (\<lambda>_. []), uptime = 100\<rparr>"

definition demo_srv1 :: tcp_srv where
  "demo_srv1 = mb_tcp_round demo_codec True demo_round demo_srv"

lemma demo_srv1_reach: "tcp_reach demo_codec True {#5#} demo_srv1"
proof -
  have "tcp_reach demo_codec True {#} demo_srv" by (rule tcp_reach.start) (simp_all add: demo_srv_def)
  from tcp_reach.round [OF this, of demo_round] show ?thesis
    by (simp add: demo_srv1_def accepts_def demo_round_def demo_srv_def)
qed

theorem tcp_clients_accounted_witness:
  "mset (map fd (client_list demo_srv1)) + mset (closed_fds demo_srv1) = {#5#} \<and> distinct (map fd (client_list demo_srv1)) \<and>
     client_count demo_srv1 = int (length (client_list demo_srv1)) \<and>
     (if True then list_all (\<lambda>c. uptime (demo_round\<lparr>accept_fd := -1, uptime := 70000\<rparr>) - last_act c \<le> MB_TCP_SESSION_TIMEOUT)
        (client_list (mb_tcp_round demo_codec True (demo_round\<lparr>accept_fd := -1, uptime := 70000\<rparr>) demo_srv1)) else True)"
  by (rule tcp_clients_accounted [OF demo_srv1_reach]) (simp add: accepts_def)

end
