(* ===== verification/History.thy ===== *)
theory History imports HubState "HOL-Library.List_Lexorder" "HOL-Library.Char_ord" begin

text \<open>
  The history writer of the hub (\<open>history/history.c\<close>): choosing, opening and rotating the record
  files, removing old ones, draining the queue, the work item and the synchronisation before a
  restart.  The file system of the RTOS is the parameter \<open>his_fs\<close> over an unspecified world; strings
  are compared as \<open>strcmp\<close> does, byte by byte.
\<close>

definition HIST_MAX_FILES :: nat where "HIST_MAX_FILES = 10"
definition HIST_FILE_MAX :: u32 where "HIST_FILE_MAX = 1024 * 1024"

text \<open>
  A directory is listed by whether it opens and the entries read before the end or an error, each
  with whether it is a file.  Opening tells the path and whether to create.
\<close>

record 'w his_fs =
  fs_open :: "string \<Rightarrow> bool \<Rightarrow> 'w \<Rightarrow> int \<times> 'w"
  fs_seek_end :: "'w \<Rightarrow> int"
  fs_tell :: "'w \<Rightarrow> int"
  fs_write :: "bytes \<Rightarrow> 'w \<Rightarrow> int \<times> 'w"
  fs_close :: "'w \<Rightarrow> 'w"
  fs_sync :: "'w \<Rightarrow> 'w"
  fs_unlink :: "string \<Rightarrow> 'w \<Rightarrow> 'w"
  fs_entries :: "'w \<Rightarrow> (bool \<times> string) list option"
  gm_time :: "int \<Rightarrow> (int \<times> int \<times> int \<times> int \<times> int) option"

record 'w his_st =
  his_hub :: hub_st
  his_w :: 'w
  his_fp_open :: bool
  his_cur_size :: u32
  his_cur_name :: string
  his_sync_req :: bool
  lfs_mounted :: bool

definition hist_path :: "string \<Rightarrow> string" where
  "hist_path n = ''/lfs1/'' @ n"

section \<open>Removing the oldest files\<close>

definition is_hist_file :: "bool \<times> string \<Rightarrow> bool" where
  "is_hist_file e \<longleftrightarrow> fst e \<and> take 5 (snd e) = ''data_''"

definition collect_names :: "(bool \<times> string) list \<Rightarrow> string list" where
  "collect_names es = map (\<lambda>e. take 23 (snd e)) (take (HIST_MAX_FILES + 2) (filter is_hist_file es))"

definition min_index :: "string list \<Rightarrow> nat" where
  "min_index ns = fold (\<lambda>i m. if ns ! i < ns ! m then i else m) [1..<length ns] 0"

function cleanup_loop :: "'w his_fs \<Rightarrow> string list \<Rightarrow> 'w \<Rightarrow> 'w" where
  "cleanup_loop F ns w =
     (if length ns \<le> HIST_MAX_FILES then w
      else let m = min_index ns;
               w = fs_unlink F (hist_path (ns ! m)) w;
               ns = (if m \<noteq> length ns - 1 then ns[m := ns ! (length ns - 1)] else ns) in
           cleanup_loop F (butlast ns) w)"
  by pat_completeness auto
termination by (relation "measure (\<lambda>(F, ns, w). length ns)") (auto simp: HIST_MAX_FILES_def)

declare cleanup_loop.simps [simp del]

definition cleanup_old_files :: "'w his_fs \<Rightarrow> 'w \<Rightarrow> 'w" where
  "cleanup_old_files F w = (case fs_entries F w of None \<Rightarrow> w | Some es \<Rightarrow> cleanup_loop F (collect_names es) w)"

section \<open>File names\<close>

definition two_digits :: "int \<Rightarrow> string" where
  "two_digits n = [char_of (48 + nat n div 10), char_of (48 + nat n mod 10)]"

definition clamp :: "int \<Rightarrow> int \<Rightarrow> int \<Rightarrow> int" where
  "clamp v lo hi = (if v \<le> lo then lo else if v \<ge> hi then hi else v)"

definition make_hist_name :: "'w his_fs \<Rightarrow> int \<Rightarrow> string" where
  "make_hist_name F now =
     (case gm_time F (now + 8 * 3600) of None \<Rightarrow> ''data_0101_000000.raw''
      | Some (mon, mday, hour, minute, sec) \<Rightarrow>
          ''data_'' @ two_digits (clamp (mon + 1) 1 12) @ two_digits (clamp mday 1 31) @ ''_'' @
          two_digits (clamp hour 0 23) @ two_digits (clamp minute 0 59) @ two_digits (clamp sec 0 59) @ ''.raw'')"

section \<open>The current file\<close>

definition open_append :: "'w his_fs \<Rightarrow> string \<Rightarrow> bool \<Rightarrow> 'w his_st \<Rightarrow> int \<times> 'w his_st" where
  "open_append F path create s =
     (let (rc, w) = fs_open F path create (his_w s) in
      if rc \<noteq> 0 then (- EIO, s\<lparr>his_w := w\<rparr>)
      else if fs_seek_end F w \<noteq> 0 then (- EIO, s\<lparr>his_w := fs_close F w\<rparr>)
      else if fs_tell F w < 0 then (- EIO, s\<lparr>his_w := fs_close F w\<rparr>)
      else (0, s\<lparr>his_w := w, his_cur_size := of_int (fs_tell F w), his_fp_open := True\<rparr>))"

definition close_cur_file :: "'w his_fs \<Rightarrow> 'w his_st \<Rightarrow> 'w his_st" where
  "close_cur_file F s = (if his_fp_open s then s\<lparr>his_w := fs_close F (his_w s), his_fp_open := False\<rparr> else s)"

definition scan_latest :: "(bool \<times> string) list \<Rightarrow> string" where
  "scan_latest es = fold (\<lambda>e latest. if is_hist_file e \<and> latest < snd e then take 23 (snd e) else latest) es []"

text \<open>The three steps of \<open>ensure_file\<close>: the last file, the newest of the directory, a new one.\<close>

definition reopen_last :: "'w his_fs \<Rightarrow> 'w his_st \<Rightarrow> bool \<times> 'w his_st" where
  "reopen_last F s =
     (if his_cur_name s \<noteq> [] \<and> his_cur_size s < HIST_FILE_MAX
      then let (rc, s) = open_append F (hist_path (his_cur_name s)) False s in
        if rc = 0 \<and> his_cur_size s < HIST_FILE_MAX then (True, s)
        else (False, (close_cur_file F s)\<lparr>his_cur_name := []\<rparr>)
      else (False, s))"

definition reuse_latest :: "'w his_fs \<Rightarrow> 'w his_st \<Rightarrow> bool \<times> 'w his_st" where
  "reuse_latest F s =
     (if his_cur_name s \<noteq> [] then (False, s)
      else let latest = (case fs_entries F (his_w s) of None \<Rightarrow> [] | Some es \<Rightarrow> scan_latest es) in
        if latest = [] then (False, s)
        else let (rc, s) = open_append F (hist_path latest) False s in
          if rc = 0 \<and> his_cur_size s < HIST_FILE_MAX then (True, s\<lparr>his_cur_name := latest\<rparr>)
          else (False, close_cur_file F s))"

definition new_file :: "'w his_fs \<Rightarrow> 'w his_st \<Rightarrow> int \<times> 'w his_st" where
  "new_file F s =
     (let name = make_hist_name F (sys_clock (his_hub s));
          (rc, s) = open_append F (hist_path name) True s in
      if rc \<noteq> 0 then (- EIO, s)
      else let s = s\<lparr>his_cur_name := name\<rparr> in
        (0, if his_cur_size s = 0 then s\<lparr>his_w := cleanup_old_files F (his_w s)\<rparr> else s))"

definition ensure_file :: "'w his_fs \<Rightarrow> 'w his_st \<Rightarrow> int \<times> 'w his_st" where
  "ensure_file F s =
     (if his_fp_open s \<and> his_cur_size s < HIST_FILE_MAX then (0, s)
      else let (ok, s) = reopen_last F (close_cur_file F s) in
        if ok then (0, s)
        else let (ok, s) = reuse_latest F s in
          if ok then (0, s) else new_file F s)"

section \<open>Writing the queue\<close>

fun flush_loop :: "'w his_fs \<Rightarrow> his_data list \<Rightarrow> 'w his_st \<Rightarrow> his_data list \<times> 'w his_st" where
  "flush_loop F [] s = ([], s)"
| "flush_loop F (d # q) s =
     (let (rc, s) = ensure_file F s in
      if rc \<noteq> 0 then (q, s)
      else let (wr, w) = fs_write F (his_bytes d) (his_w s); s = s\<lparr>his_w := w\<rparr> in
        if wr = int (his_len d) then flush_loop F q (s\<lparr>his_cur_size := his_cur_size s + of_nat (his_len d)\<rparr>)
        else (q, s\<lparr>his_cur_size := HIST_FILE_MAX\<rparr>))"

definition his_flush :: "'w his_fs \<Rightarrow> bool \<Rightarrow> 'w his_st \<Rightarrow> 'w his_st" where
  "his_flush F close_after s =
     (if \<not> lfs_mounted s then s
      else
        let (q, s) = flush_loop F (his_msgq (his_hub s)) s;
            s = s\<lparr>his_hub := (his_hub s)\<lparr>his_msgq := q\<rparr>\<rparr>;
            s = (if close_after then close_cur_file F s else s);
            req = his_sync_req s;
            s = s\<lparr>his_sync_req := False\<rparr> in
        if req \<and> his_fp_open s then s\<lparr>his_w := fs_sync F (his_w s)\<rparr> else s)"

definition his_work_handler :: "'w his_fs \<Rightarrow> 'w his_st \<Rightarrow> 'w his_st" where
  "his_work_handler F s =
     his_flush F (\<not> history_enabled (his_hub s)) (s\<lparr>his_hub := (his_hub s)\<lparr>his_work_pending := False\<rparr>\<rparr>)"

text \<open>
  \<open>history_sync\<close>: ask for a flush and run the work item until the request is gone.  A handler that
  was already past its check when the request was made leaves it standing; \<open>missed\<close> tells for each
  round whether that happened.
\<close>

definition sync_round :: "'w his_fs \<Rightarrow> bool \<Rightarrow> 'w his_st \<Rightarrow> 'w his_st" where
  "sync_round F missed s =
     (let t = his_work_handler F s in if missed then t\<lparr>his_sync_req := his_sync_req s\<rparr> else t)"

partial_function (option) sync_loop :: "'w his_fs \<Rightarrow> (nat \<Rightarrow> bool) \<Rightarrow> nat \<Rightarrow> 'w his_st \<Rightarrow> 'w his_st option" where
  "sync_loop F missed k s =
     (let s = sync_round F (missed k) s in
      if his_sync_req s then sync_loop F missed (k + 1) s else Some s)"

definition history_sync :: "'w his_fs \<Rightarrow> (nat \<Rightarrow> bool) \<Rightarrow> 'w his_st \<Rightarrow> 'w his_st option" where
  "history_sync F missed s =
     (if \<not> lfs_mounted s then Some s else sync_loop F missed 0 (s\<lparr>his_sync_req := True\<rparr>))"

section \<open>Mounting\<close>

text \<open>
  \<open>mount1\<close>, \<open>mkfs\<close> and \<open>mount2\<close> are what the first mount, the formatting and the second mount return;
  the second component tells whether the partition was formatted.
\<close>

definition littlefs_init :: "int \<Rightarrow> int \<Rightarrow> int \<Rightarrow> 'w his_st \<Rightarrow> (int \<times> bool) \<times> 'w his_st" where
  "littlefs_init mount1 mkfs mount2 s =
     (let rc = (if mount1 \<noteq> 0 then (if mkfs = 0 then mount2 else mkfs) else mount1) in
      ((rc, mount1 \<noteq> 0), if rc \<noteq> 0 then s else s\<lparr>lfs_mounted := True\<rparr>))"

end
