(* ===== verification/HubApp.thy ===== *)
theory HubApp imports Regs History UdpFw begin

text \<open>
  The application around the registers: the UDP commands of \<open>udp.c\<close> with the two-step factory reset,
  the CAN glue of \<open>can.c\<close>, the network set-up and the main loop of \<open>main.c\<close>, the Modbus RTU start-up of
  \<open>modbus/rtu.c\<close> and the watchdog of \<open>sys/watchdog.c\<close>.  The state is the history writer's (which holds
  the registers) with the variables of these files.
\<close>

section \<open>State\<close>

record 'w app_st =
  app_his :: "'w his_st"
  factory_reset_pending_ms :: int
  factory_reset_confirmed :: bool
  app_rebooted :: bool

definition app_hub :: "'w app_st \<Rightarrow> hub_st" where
  "app_hub a = his_hub (app_his a)"

definition set_hub :: "hub_st \<Rightarrow> 'w app_st \<Rightarrow> 'w app_st" where
  "set_hub h a = a\<lparr>app_his := (app_his a)\<lparr>his_hub := h\<rparr>\<rparr>"

lemma app_hub_set [simp]: "app_hub (set_hub h a) = h"
  by (simp add: app_hub_def set_hub_def)

text \<open>The history is synchronised; the call returns by \<open>history_sync_returns\<close>.\<close>

definition app_sync :: "'w his_fs \<Rightarrow> 'w app_st \<Rightarrow> 'w app_st" where
  "app_sync F a = (case history_sync F (\<lambda>_. False) (app_his a) of None \<Rightarrow> a | Some h \<Rightarrow> a\<lparr>app_his := h\<rparr>)"

section \<open>UDP commands\<close>

datatype udp_app_cmd = UDP_CMD_SET_IP | UDP_CMD_GET_IP | UDP_CMD_SET_MODBUS | UDP_CMD_GET_MODBUS
  | UDP_CMD_SET_TIME | UDP_CMD_FACTORY_RESET

fun udp_app_cmd_val :: "udp_app_cmd \<Rightarrow> u8" where
  "udp_app_cmd_val UDP_CMD_SET_IP = 0x10"
| "udp_app_cmd_val UDP_CMD_GET_IP = 0x11"
| "udp_app_cmd_val UDP_CMD_SET_MODBUS = 0x12"
| "udp_app_cmd_val UDP_CMD_GET_MODBUS = 0x13"
| "udp_app_cmd_val UDP_CMD_SET_TIME = 0x14"
| "udp_app_cmd_val UDP_CMD_FACTORY_RESET = 0x19"

definition set_reg :: "holding_reg_idx \<Rightarrow> u16 \<Rightarrow> hub_st \<Rightarrow> hub_st" where
  "set_reg r v h = snd (update_holding_reg (holding_idx r) v h)"

definition get_reg8 :: "holding_reg_idx \<Rightarrow> hub_st \<Rightarrow> u8" where
  "get_reg8 r h = ucast (get_holding_reg (holding_idx r) h)"

definition cmd_set_ip :: "bytes \<Rightarrow> hub_st \<Rightarrow> u8 \<times> hub_st" where
  "cmd_set_ip d h =
     (if 4 \<le> length d \<and> ip_addr_valid (d ! 0) (d ! 1) (d ! 2) (d ! 3)
      then (1, holding_reg_save (set_reg HOLDING_IP_OCTET4 (ucast (d ! 3)) (set_reg HOLDING_IP_OCTET3 (ucast (d ! 2))
             (set_reg HOLDING_IP_OCTET2 (ucast (d ! 1)) (set_reg HOLDING_IP_OCTET1 (ucast (d ! 0)) h)))))
      else (0, h))"

definition cmd_get_ip :: "hub_st \<Rightarrow> bytes" where
  "cmd_get_ip h = [get_reg8 HOLDING_IP_OCTET1 h, get_reg8 HOLDING_IP_OCTET2 h, get_reg8 HOLDING_IP_OCTET3 h,
     get_reg8 HOLDING_IP_OCTET4 h]"

definition cmd_set_modbus :: "bytes \<Rightarrow> hub_st \<Rightarrow> u8 \<times> hub_st" where
  "cmd_set_modbus d h =
     (if 3 \<le> length d
      then (1, holding_reg_save (set_reg HOLDING_RS485_BAUDRATE (be16_at (drop 1 d)) (set_reg HOLDING_SLAVE_ID (ucast (d ! 0)) h)))
      else (0, h))"

definition cmd_get_modbus :: "hub_st \<Rightarrow> bytes" where
  "cmd_get_modbus h = get_reg8 HOLDING_SLAVE_ID h # put_be16 (get_holding_reg (holding_idx HOLDING_RS485_BAUDRATE) h)"

definition cmd_set_time :: "hub_env \<Rightarrow> bytes \<Rightarrow> hub_st \<Rightarrow> u8 \<times> hub_st" where
  "cmd_set_time E d h =
     (if 4 \<le> length d then (let (ok, h) = set_timestamp E (uint (be32_at d)) h in (if ok then 1 else 0, h)) else (0, h))"

text \<open>
  The factory reset at uptime \<open>now\<close>; \<open>open_rc\<close> and \<open>erase_rc\<close> are the flash driver's results.  The replies
  carry 0 for the first of the two commands.
\<close>

definition cmd_factory_reset :: "'w his_fs \<Rightarrow> int \<Rightarrow> int \<Rightarrow> int \<Rightarrow> 'w app_st \<Rightarrow> u8 list \<times> 'w app_st" where
  "cmd_factory_reset F open_rc erase_rc now a =
     (let first = \<not> factory_reset_confirmed a \<and> now - factory_reset_pending_ms a > 5000;
          a = (if first then a\<lparr>factory_reset_pending_ms := now, factory_reset_confirmed := False\<rparr>
               else a\<lparr>factory_reset_confirmed := True\<rparr>);
          outs = (if first then [0] else []) in
      if \<not> factory_reset_confirmed a then (outs, a)
      else
        let (rc, h) = settings_factory_reset open_rc erase_rc (app_hub a);
            a = set_hub h a;
            a = (if rc = 0 then (app_sync F a)\<lparr>app_rebooted := True\<rparr> else a) in
        (outs @ [if rc = 0 then 1 else 0], a\<lparr>factory_reset_confirmed := False\<rparr>))"

definition app_cmd_handler ::
  "hub_env \<Rightarrow> 'w his_fs \<Rightarrow> int \<Rightarrow> int \<Rightarrow> int \<Rightarrow> u8 \<Rightarrow> bytes \<Rightarrow> 'w app_st \<Rightarrow> bool \<times> (u8 \<times> bytes) list \<times> 'w app_st" where
  "app_cmd_handler E F open_rc erase_rc now cmd d a =
     (let h = app_hub a in
      if cmd = udp_app_cmd_val UDP_CMD_SET_IP then (let (ok, h) = cmd_set_ip d h in (True, [(cmd, [ok])], set_hub h a))
      else if cmd = udp_app_cmd_val UDP_CMD_GET_IP then (True, [(cmd, cmd_get_ip h)], a)
      else if cmd = udp_app_cmd_val UDP_CMD_SET_MODBUS then (let (ok, h) = cmd_set_modbus d h in (True, [(cmd, [ok])], set_hub h a))
      else if cmd = udp_app_cmd_val UDP_CMD_GET_MODBUS then (True, [(cmd, cmd_get_modbus h)], a)
      else if cmd = udp_app_cmd_val UDP_CMD_SET_TIME then (let (ok, h) = cmd_set_time E d h in (True, [(cmd, [ok])], set_hub h a))
      else if cmd = udp_app_cmd_val UDP_CMD_FACTORY_RESET
      then (let (outs, a) = cmd_factory_reset F open_rc erase_rc now a in (True, map (\<lambda>b. (cmd, [b])) outs, a))
      else (False, [], a))"

text \<open>Registration with the library, under function number 1.\<close>

definition udp_app_init :: "'v udp_env \<Rightarrow> 'v udp_st \<Rightarrow> int \<times> 'v udp_st" where
  "udp_app_init E s = (0, udp_fw_allow_broadcast_cmd E (udp_app_cmd_val UDP_CMD_GET_IP) (udp_fw_set_app_handler (Some 1) 0 s))"

section \<open>CAN\<close>

text \<open>\<open>send_rc\<close> is the driver's answer to the frame.\<close>

definition mod_can_send :: "bool \<Rightarrow> (u8 \<Rightarrow> u8) \<Rightarrow> (can_frame \<Rightarrow> int) \<Rightarrow> u32 \<Rightarrow> bytes \<Rightarrow> u8 \<Rightarrow> int" where
  "mod_can_send can_dev to_dlc send_rc i d len =
     (if \<not> can_dev \<or> len > 8 then - EINVAL
      else send_rc \<lparr>fr_id = i, fr_dlc = to_dlc len, fr_data = take (unat len) d @ replicate (8 - unat len) 0\<rparr>)"

definition mod_can_app_rx :: "can_frame \<Rightarrow> hub_st \<Rightarrow> bool" where
  "mod_can_app_rx fr h \<longleftrightarrow> fr_id fr = ucast (get_holding_reg (holding_idx HOLDING_CAN_ID) h)"

definition can_app_init :: "nat option \<Rightarrow> int" where
  "can_app_init dev = (if dev = None then - ENODEV else 0)"

section \<open>Network\<close>

text \<open>\<open>uid\<close> is what the hardware identifier call returns: its result and the bytes.\<close>

definition derive_mac_from_uid :: "int \<times> bytes \<Rightarrow> bytes" where
  "derive_mac_from_uid uid =
     [0x00, 0x08, 0xDC] @
     (if fst uid \<ge> 12
      then map (\<lambda>i. snd uid ! i XOR snd uid ! (i + 3) XOR snd uid ! (i + 6) XOR snd uid ! (i + 9)) [0, 1, 2]
      else [0x01, 0x02, 0x03])"

record net_cfg =
  net_mac :: "bytes option"
  net_addr :: bytes
  net_mask :: bytes
  net_gw :: bytes

definition net_init :: "bool \<Rightarrow> int \<times> bytes \<Rightarrow> int \<Rightarrow> hub_st \<Rightarrow> int + net_cfg" where
  "net_init iface uid mac_rc h =
     (if \<not> iface then Inl (- ENODEV)
      else Inr \<lparr>net_mac = (if mac_rc \<noteq> 0 then None else Some (derive_mac_from_uid uid)),
             net_addr = cmd_get_ip h, net_mask = [255, 255, 255, 0], net_gw = take 3 (cmd_get_ip h) @ [1]\<rparr>)"

section \<open>Watchdog and main loop\<close>

definition WDG_TIMEOUT_MS :: int where "WDG_TIMEOUT_MS = 30000"

text \<open>The channel stays 0 when the device is not ready: \<open>wdt_channel\<close> is zero-initialised.\<close>

definition watchdog_init :: "bool \<Rightarrow> int \<Rightarrow> int \<Rightarrow> int \<times> int" where
  "watchdog_init ready install_rc setup_rc =
     (if \<not> ready then (- ENODEV, 0)
      else if install_rc < 0 then (install_rc, install_rc)
      else if setup_rc \<noteq> 0 then (setup_rc, install_rc) else (0, install_rc))"

definition watchdog_feed :: "int \<Rightarrow> int \<Rightarrow> int list \<Rightarrow> int list" where
  "watchdog_feed wdt_channel now feeds = (if wdt_channel \<ge> 0 then feeds @ [now] else feeds)"

record main_st =
  m_now :: int
  m_feeds :: "int list"

text \<open>
  How long the calls of the loop take: a sleep of so many milliseconds, writing out the history queue
  (flash) and draining the log before a restart.
\<close>

record loop_ms =
  sleep_ms :: "int \<Rightarrow> int"
  sync_ms :: int
  drain_ms :: int

text \<open>One round of the loop at the end of \<open>main\<close>; the state LED decides how long it sleeps.\<close>

definition main_round :: "'w his_fs \<Rightarrow> int \<Rightarrow> bool \<Rightarrow> loop_ms \<Rightarrow> main_st \<times> 'w app_st \<Rightarrow> main_st \<times> 'w app_st" where
  "main_round F wdt_channel led_ready T ma =
     (case ma of (m, a) \<Rightarrow>
        let m = m\<lparr>m_feeds := watchdog_feed wdt_channel (m_now m) (m_feeds m)\<rparr>;
            m = m\<lparr>m_now := m_now m + (if led_ready then sleep_ms T 300 + sleep_ms T 2700 else sleep_ms T 1000)\<rparr> in
        if get_reboot_status (app_hub a)
        then (m\<lparr>m_now := m_now m + sync_ms T + drain_ms T + sleep_ms T 1000\<rparr>, (app_sync F a)\<lparr>app_rebooted := True\<rparr>)
        else (m, a))"

text \<open>Fatal errors: only a stack overflow restarts, the rest halts (and the watchdog resets).\<close>

definition k_sys_fatal_error_handler :: "bool \<Rightarrow> bool" where
  "k_sys_fatal_error_handler stack_check_failed = stack_check_failed"

section \<open>Modbus RTU\<close>

record rtu_param =
  rtu_unit_id :: u8
  rtu_baud :: u16

definition rtu_init :: "int \<Rightarrow> (rtu_param \<Rightarrow> int) \<Rightarrow> hub_st \<Rightarrow> int" where
  "rtu_init iface server_rc h =
     (if iface < 0 then - ENODEV
      else server_rc \<lparr>rtu_unit_id = get_reg8 HOLDING_SLAVE_ID h, rtu_baud = get_holding_reg (holding_idx HOLDING_RS485_BAUDRATE) h\<rparr>)"

end
