(* ===== verification/HistoryProps.thy ===== *)
theory HistoryProps imports History "HOL-Library.Multiset" "HOL-Library.Sublist" begin

text \<open>
  Facts about the history writer over any file system that keeps the contract \<open>his_fs_laws\<close>: what each
  operation does to the contents of the files, how far a file can grow, which files are removed.
\<close>

section \<open>The contract of the file system\<close>

text \<open>
  \<open>fdata\<close> is the content of every file and \<open>fcur\<close> the path of the handle.  A write appends a prefix of
  its data to the file of the handle (nothing when the file was removed under it); closing and
  synchronising change no content; removing a file may fail.
\<close>

definition his_fs_laws :: "'w his_fs \<Rightarrow> ('w \<Rightarrow> string \<Rightarrow> bytes option) \<Rightarrow> ('w \<Rightarrow> string) \<Rightarrow> bool" where
  "his_fs_laws F fdata fcur \<longleftrightarrow>
     (\<forall>p c w rc w'. fs_open F p c w = (rc, w') \<longrightarrow>
        (if rc = 0 then fcur w' = p \<and> fdata w' p \<noteq> None \<and> (c \<or> fdata w p \<noteq> None) \<and>
            fdata w' = (if fdata w p = None then (fdata w)(p := Some []) else fdata w)
         else fdata w' = fdata w)) \<and>
     (\<forall>w d. fs_tell F w \<ge> 0 \<longrightarrow> fdata w (fcur w) = Some d \<longrightarrow> fs_tell F w = int (length d) \<and> length d < 2 ^ 31) \<and>
     (\<forall>d w n w'. fs_write F d w = (n, w') \<longrightarrow> fcur w' = fcur w \<and> n \<le> int (length d) \<and>
        fdata w' = (case fdata w (fcur w) of None \<Rightarrow> fdata w | Some old \<Rightarrow> (fdata w)(fcur w := Some (old @ take (nat n) d)))) \<and>
     (\<forall>w. fdata (fs_close F w) = fdata w) \<and>
     (\<forall>w. fdata (fs_sync F w) = fdata w \<and> fcur (fs_sync F w) = fcur w) \<and>
     (\<forall>p w. fcur (fs_unlink F p w) = fcur w \<and> (fdata (fs_unlink F p w) = fdata w \<or> fdata (fs_unlink F p w) = (fdata w)(p := None)))"

definition flen :: "('w \<Rightarrow> string \<Rightarrow> bytes option) \<Rightarrow> 'w \<Rightarrow> string \<Rightarrow> nat" where
  "flen fdata w p = (case fdata w p of None \<Rightarrow> 0 | Some d \<Rightarrow> length d)"

lemma fs_open_flen:
  assumes "his_fs_laws F fdata fcur" "fs_open F p c w = (rc, w')"
  shows "flen fdata w' q = flen fdata w q"
    "rc = 0 \<Longrightarrow> fcur w' = p \<and> (\<exists>d. fdata w' p = Some d)"
proof -
  have "if rc = 0 then fcur w' = p \<and> fdata w' p \<noteq> None \<and> (c \<or> fdata w p \<noteq> None) \<and>
            fdata w' = (if fdata w p = None then (fdata w)(p := Some []) else fdata w)
         else fdata w' = fdata w"
    using assms unfolding his_fs_laws_def by blast
  then show "flen fdata w' q = flen fdata w q" "rc = 0 \<Longrightarrow> fcur w' = p \<and> (\<exists>d. fdata w' p = Some d)"
    by (auto simp: flen_def split: if_splits option.splits)
qed

lemma fs_tell_length:
  assumes "his_fs_laws F fdata fcur" "fs_tell F w \<ge> 0" "fdata w (fcur w) = Some d"
  shows "fs_tell F w = int (length d)" "length d < 2 ^ 31"
  using assms unfolding his_fs_laws_def by blast+

lemma fs_write_data:
  assumes "his_fs_laws F fdata fcur" "fs_write F d w = (n, w')"
  shows "fcur w' = fcur w" "n \<le> int (length d)"
    "fdata w' = (case fdata w (fcur w) of None \<Rightarrow> fdata w | Some old \<Rightarrow> (fdata w)(fcur w := Some (old @ take (nat n) d)))"
  using assms unfolding his_fs_laws_def by blast+

lemma fs_close_data: "his_fs_laws F fdata fcur \<Longrightarrow> fdata (fs_close F w) = fdata w"
  unfolding his_fs_laws_def by blast

lemma fs_sync_data: "his_fs_laws F fdata fcur \<Longrightarrow> fdata (fs_sync F w) = fdata w \<and> fcur (fs_sync F w) = fcur w"
  unfolding his_fs_laws_def by blast

lemma fs_unlink_data:
  assumes "his_fs_laws F fdata fcur"
  shows "fcur (fs_unlink F p w) = fcur w"
    "fdata (fs_unlink F p w) q = fdata w q \<or> fdata (fs_unlink F p w) q = None"
proof -
  have "fcur (fs_unlink F p w) = fcur w \<and> (fdata (fs_unlink F p w) = fdata w \<or> fdata (fs_unlink F p w) = (fdata w)(p := None))"
    using assms unfolding his_fs_laws_def by blast
  then show "fcur (fs_unlink F p w) = fcur w" "fdata (fs_unlink F p w) q = fdata w q \<or> fdata (fs_unlink F p w) q = None"
    by (metis fun_upd_apply)+
qed

section \<open>Removing old files\<close>

lemma min_index_spec:
  assumes "ns \<noteq> []"
  shows "min_index ns < length ns \<and> (\<forall>n \<in> set ns. ns ! min_index ns \<le> n)"
proof -
  let ?go = "\<lambda>k. fold (\<lambda>i m. if ns ! i < ns ! m then i else m) [1..<k] 0"
  have "?go k < k \<and> (\<forall>i < k. ns ! ?go k \<le> ns ! i)" if "1 \<le> k" for k
    using that
  proof (induction k rule: dec_induct)
    case (step k)
    have "fold (\<lambda>i m. if ns ! i < ns ! m then i else m) [1..<Suc k] 0 =
        (if ns ! k < ns ! ?go k then k else ?go k)" using step.hyps by simp
    then show ?case using step.IH by (auto simp: less_Suc_eq intro: order.trans less_imp_le)
  qed simp
  from this [of "length ns"] assms show ?thesis
    by (auto simp: min_index_def in_set_conv_nth Suc_le_eq)
qed

lemma butlast_mset: "xs \<noteq> [] \<Longrightarrow> mset (butlast xs) = mset xs - {#last xs#}"
  by (induction xs) auto

text \<open>Taking the entry at the index out by moving the last one into its place.\<close>

lemma take_out_mset:
  assumes "m < length ns"
  shows "mset (butlast (if m \<noteq> length ns - 1 then ns[m := ns ! (length ns - 1)] else ns)) = mset ns - {#ns ! m#}"
proof -
  have n: "ns \<noteq> []" using assms by auto
  show ?thesis
  proof (cases "m = length ns - 1")
    case True
    then show ?thesis using n by (simp add: butlast_mset last_conv_nth)
  next
    case False
    let ?x = "ns ! (length ns - 1)"
    have "last (ns[m := ?x]) = ?x" using False n assms by (simp add: last_conv_nth)
    moreover have "ns[m := ?x] \<noteq> []" using n by simp
    ultimately show ?thesis using False assms by (simp add: butlast_mset mset_update)
  qed
qed

lemma cleanup_loop_sorted:
  "cleanup_loop F ns w = fold (\<lambda>n. fs_unlink F (hist_path n)) (take (length ns - HIST_MAX_FILES) (sort ns)) w"
proof (induction F ns w rule: cleanup_loop.induct)
  case (1 F ns w)
  show ?case
  proof (cases "length ns \<le> HIST_MAX_FILES")
    case True
    then show ?thesis by (subst cleanup_loop.simps) simp
  next
    case False
    let ?m = "min_index ns"
    let ?ns = "butlast (if ?m \<noteq> length ns - 1 then ns[?m := ns ! (length ns - 1)] else ns)"
    have n: "ns \<noteq> []" using False by auto
    have l: "length ?ns = length ns - 1" by simp
    have ms: "mset ?ns = mset ns - {#ns ! ?m#}" using min_index_spec [OF n] by (intro take_out_mset) simp
    have "sort ns = ns ! ?m # sort ?ns"
    proof (rule properties_for_sort)
      show "mset (ns ! ?m # sort ?ns) = mset ns" using ms min_index_spec [OF n] by simp
      have "set ?ns \<subseteq> set ns" using ms by (metis diff_subset_eq_self mset_subset_eqD set_mset_mset subsetI)
      then show "sorted (ns ! ?m # sort ?ns)" using min_index_spec [OF n] by auto
    qed
    then have t: "take (length ns - HIST_MAX_FILES) (sort ns) = ns ! ?m # take (length ?ns - HIST_MAX_FILES) (sort ?ns)"
    proof -
      have "length ns - HIST_MAX_FILES = Suc (length ?ns - HIST_MAX_FILES)" using False l by simp
      then show ?thesis using \<open>sort ns = _\<close> by simp
    qed
    have "cleanup_loop F ns w = cleanup_loop F ?ns (fs_unlink F (hist_path (ns ! ?m)) w)"
      using False by (subst cleanup_loop.simps) (simp add: Let_def)
    also have "\<dots> = fold (\<lambda>n. fs_unlink F (hist_path n)) (take (length ?ns - HIST_MAX_FILES) (sort ?ns))
        (fs_unlink F (hist_path (ns ! ?m)) w)"
      by (rule "1.IH" [OF False refl refl refl])
    finally show ?thesis by (simp add: t)
  qed
qed

lemma fold_unlink_data:
  assumes "his_fs_laws F fdata fcur"
  shows "fcur (fold (\<lambda>n. fs_unlink F (hist_path n)) ns w) = fcur w \<and>
    (fdata (fold (\<lambda>n. fs_unlink F (hist_path n)) ns w) q = fdata w q \<or>
     fdata (fold (\<lambda>n. fs_unlink F (hist_path n)) ns w) q = None)"
proof (induction ns arbitrary: w)
  case (Cons n ns)
  show ?case using Cons [of "fs_unlink F (hist_path n) w"] fs_unlink_data(1) [OF assms, of "hist_path n" w]
      fs_unlink_data(2) [OF assms, of "hist_path n" w q] by auto
qed simp

lemma cleanup_data:
  assumes "his_fs_laws F fdata fcur"
  shows "fcur (cleanup_old_files F w) = fcur w"
    "fdata (cleanup_old_files F w) q = fdata w q \<or> fdata (cleanup_old_files F w) q = None"
  using fold_unlink_data [OF assms]
  by (auto simp: cleanup_old_files_def cleanup_loop_sorted split: option.splits)

section \<open>Opening the file to write\<close>

text \<open>What every operation keeps: the application's state and that no file gets longer.\<close>

definition shrinks :: "('w \<Rightarrow> string \<Rightarrow> bytes option) \<Rightarrow> 'w his_st \<Rightarrow> 'w his_st \<Rightarrow> bool" where
  "shrinks fdata s t \<longleftrightarrow> his_hub t = his_hub s \<and> lfs_mounted t = lfs_mounted s \<and> his_sync_req t = his_sync_req s \<and>
     (\<forall>p. flen fdata (his_w t) p \<le> flen fdata (his_w s) p)"

lemma shrinks_refl [simp]: "shrinks fdata s s"
  by (simp add: shrinks_def)

lemma shrinks_trans: "shrinks fdata s t \<Longrightarrow> shrinks fdata t u \<Longrightarrow> shrinks fdata s u"
  by (auto simp: shrinks_def intro: order.trans)

text \<open>The size the writer believes is the length of the file it appends to.\<close>

definition exact_size :: "('w \<Rightarrow> string \<Rightarrow> bytes option) \<Rightarrow> ('w \<Rightarrow> string) \<Rightarrow> 'w his_st \<Rightarrow> bool" where
  "exact_size fdata fcur s \<longleftrightarrow> (\<forall>d. fdata (his_w s) (fcur (his_w s)) = Some d \<longrightarrow>
     length d = unat (his_cur_size s) \<and> length d < 2 ^ 31)"

definition his_inv :: "('w \<Rightarrow> string \<Rightarrow> bytes option) \<Rightarrow> ('w \<Rightarrow> string) \<Rightarrow> 'w his_st \<Rightarrow> bool" where
  "his_inv fdata fcur s \<longleftrightarrow> (if his_fp_open s \<and> his_cur_size s < HIST_FILE_MAX then exact_size fdata fcur s else True)"

lemma open_append_spec:
  assumes "his_fs_laws F fdata fcur" "open_append F p c s = (rc, t)" "\<not> his_fp_open s"
  shows "shrinks fdata s t" "rc = 0 \<Longrightarrow> his_fp_open t \<and> exact_size fdata fcur t \<and> fcur (his_w t) = p"
    "rc \<noteq> 0 \<Longrightarrow> \<not> his_fp_open t" "his_cur_name t = his_cur_name s"
proof -
  obtain r w where o: "fs_open F p c (his_w s) = (r, w)" by fastforce
  note fo = fs_open_flen [OF assms(1) o] and cl = fs_close_data [OF assms(1)]
  have fl: "flen fdata (fs_close F w) q = flen fdata w q" for q by (simp add: flen_def cl)
  show "shrinks fdata s t" using assms(2) fo fl
    by (auto simp: open_append_def o Let_def shrinks_def split: if_splits)
  show "rc \<noteq> 0 \<Longrightarrow> \<not> his_fp_open t" "his_cur_name t = his_cur_name s" using assms(2,3)
    by (auto simp: open_append_def o Let_def split: if_splits)
  assume "rc = 0"
  then have r: "r = 0" "fs_tell F w \<ge> 0" "t = s\<lparr>his_w := w, his_cur_size := of_int (fs_tell F w), his_fp_open := True\<rparr>"
    using assms(2) by (auto simp: open_append_def o Let_def EIO_def split: if_splits)
  have e: "length d = unat (of_int (fs_tell F w) :: u32) \<and> length d < 2 ^ 31" if "fdata w (fcur w) = Some d" for d
  proof -
    have l: "fs_tell F w = int (length d)" "length d < 2 ^ 31" using fs_tell_length [OF assms(1) r(2) that] by auto
    then have "unat (of_nat (length d) :: u32) = length d" by (intro unat_of_nat_u32) simp
    then show ?thesis using l by simp
  qed
  then show "his_fp_open t \<and> exact_size fdata fcur t \<and> fcur (his_w t) = p"
    using fo(2) [OF r(1)] unfolding r(3) exact_size_def by (auto dest!: e simp del: of_int_of_nat_eq)
qed

lemma close_cur_spec:
  assumes "his_fs_laws F fdata fcur"
  shows "shrinks fdata s (close_cur_file F s)" "\<not> his_fp_open (close_cur_file F s)"
    "his_cur_name (close_cur_file F s) = his_cur_name s" "his_cur_size (close_cur_file F s) = his_cur_size s"
  using fs_close_data [OF assms] by (auto simp: close_cur_file_def shrinks_def flen_def)

lemma reopen_last_spec:
  assumes "his_fs_laws F fdata fcur" "reopen_last F s = (ok, t)" "\<not> his_fp_open s"
  shows "shrinks fdata s t" "ok \<Longrightarrow> his_fp_open t \<and> exact_size fdata fcur t \<and> his_cur_size t < HIST_FILE_MAX"
    "\<not> ok \<Longrightarrow> \<not> his_fp_open t"
proof -
  obtain rc u where o: "open_append F (hist_path (his_cur_name s)) False s = (rc, u)" by fastforce
  note os = open_append_spec [OF assms(1) o assms(3)] and cs = close_cur_spec [OF assms(1), of u]
  have n: "shrinks fdata (close_cur_file F u) ((close_cur_file F u)\<lparr>his_cur_name := []\<rparr>)" by (simp add: shrinks_def)
  have "shrinks fdata s ((close_cur_file F u)\<lparr>his_cur_name := []\<rparr>)"
    using os(1) cs(1) n shrinks_trans by blast
  then show "shrinks fdata s t" "ok \<Longrightarrow> his_fp_open t \<and> exact_size fdata fcur t \<and> his_cur_size t < HIST_FILE_MAX"
    "\<not> ok \<Longrightarrow> \<not> his_fp_open t"
    using assms(2,3) os cs by (auto simp: reopen_last_def o split: if_splits)
qed

lemma reuse_latest_spec:
  assumes "his_fs_laws F fdata fcur" "reuse_latest F s = (ok, t)" "\<not> his_fp_open s"
  shows "shrinks fdata s t" "ok \<Longrightarrow> his_fp_open t \<and> exact_size fdata fcur t \<and> his_cur_size t < HIST_FILE_MAX"
    "\<not> ok \<Longrightarrow> \<not> his_fp_open t"
proof -
  let ?l = "case fs_entries F (his_w s) of None \<Rightarrow> [] | Some es \<Rightarrow> scan_latest es"
  obtain rc u where o: "open_append F (hist_path ?l) False s = (rc, u)" by fastforce
  note os = open_append_spec [OF assms(1) o assms(3)] and cs = close_cur_spec [OF assms(1), of u]
  have c: "shrinks fdata s (close_cur_file F u)" using os(1) cs(1) shrinks_trans by blast
  have u: "shrinks fdata s (u\<lparr>his_cur_name := ?l\<rparr>)" using os(1) by (simp add: shrinks_def)
  have "(ok, t) = (if his_cur_name s \<noteq> [] then (False, s) else if ?l = [] then (False, s)
      else if rc = 0 \<and> his_cur_size u < HIST_FILE_MAX then (True, u\<lparr>his_cur_name := ?l\<rparr>) else (False, close_cur_file F u))"
    unfolding assms(2) [symmetric] by (simp add: reuse_latest_def o Let_def)
  then show "shrinks fdata s t" "ok \<Longrightarrow> his_fp_open t \<and> exact_size fdata fcur t \<and> his_cur_size t < HIST_FILE_MAX"
    "\<not> ok \<Longrightarrow> \<not> his_fp_open t"
    using c u assms(3) os cs by (auto simp: exact_size_def split: if_splits)
qed

definition clock_path :: "'w his_fs \<Rightarrow> 'w his_st \<Rightarrow> string" where
  "clock_path F s = hist_path (make_hist_name F (sys_clock (his_hub s)))"

lemma new_file_spec:
  assumes "his_fs_laws F fdata fcur" "new_file F s = (rc, t)" "\<not> his_fp_open s"
  shows "shrinks fdata s t" "rc = 0 \<Longrightarrow> his_fp_open t \<and> exact_size fdata fcur t \<and> fcur (his_w t) = clock_path F s"
    "rc \<noteq> 0 \<Longrightarrow> \<not> his_fp_open t"
proof -
  let ?n = "make_hist_name F (sys_clock (his_hub s))"
  obtain r u where o: "open_append F (hist_path ?n) True s = (r, u)" by fastforce
  note os = open_append_spec [OF assms(1) o assms(3)]
  let ?u = "u\<lparr>his_cur_name := ?n\<rparr>" and ?v = "u\<lparr>his_cur_name := ?n, his_w := cleanup_old_files F (his_w u)\<rparr>"
  have t: "(rc, t) = (if r \<noteq> 0 then (- EIO, u) else (0, if his_cur_size u = 0 then ?v else ?u))"
    unfolding assms(2) [symmetric] by (simp add: new_file_def o Let_def)
  have c: "flen fdata (cleanup_old_files F (his_w u)) q \<le> flen fdata (his_w u) q" for q
    using cleanup_data(2) [OF assms(1), of "his_w u" q] by (auto simp: flen_def split: option.split)
  have "shrinks fdata s ?u" using os(1) by (simp add: shrinks_def)
  moreover have "shrinks fdata ?u ?v" using c by (simp add: shrinks_def)
  ultimately show "shrinks fdata s t" using t os(1) shrinks_trans by (auto split: if_splits)
  show "rc \<noteq> 0 \<Longrightarrow> \<not> his_fp_open t" using t os(3) by (auto simp: EIO_def split: if_splits)
  assume "rc = 0"
  then have r: "r = 0" using t by (auto simp: EIO_def split: if_splits)
  note e = os(2) [OF r]
  have "exact_size fdata fcur ?v" "fcur (his_w ?v) = hist_path ?n"
    using e cleanup_data(1) [OF assms(1), of "his_w u"] cleanup_data(2) [OF assms(1), of "his_w u" "fcur (his_w u)"]
    by (auto simp: exact_size_def)
  then show "his_fp_open t \<and> exact_size fdata fcur t \<and> fcur (his_w t) = clock_path F s"
    using t r e by (auto simp: clock_path_def exact_size_def split: if_splits)
qed

lemma ensure_file_spec:
  assumes "his_fs_laws F fdata fcur" "his_inv fdata fcur s" "ensure_file F s = (rc, t)"
  shows "shrinks fdata s t"
    "rc = 0 \<Longrightarrow> his_fp_open t \<and> exact_size fdata fcur t \<and> (his_cur_size t < HIST_FILE_MAX \<or> fcur (his_w t) = clock_path F s)"
    "rc \<noteq> 0 \<Longrightarrow> \<not> his_fp_open t"
proof -
  let ?P = "shrinks fdata s t \<and> (if rc = 0 then his_fp_open t \<and> exact_size fdata fcur t \<and>
      (his_cur_size t < HIST_FILE_MAX \<or> fcur (his_w t) = clock_path F s) else \<not> his_fp_open t)"
  have ?P
  proof (cases "his_fp_open s \<and> his_cur_size s < HIST_FILE_MAX")
    case True
    then show ?thesis using assms(2,3) by (auto simp: ensure_file_def his_inv_def)
  next
    case False
    let ?c = "close_cur_file F s"
    note c = close_cur_spec [OF assms(1), of s]
    obtain ok1 u where r: "reopen_last F ?c = (ok1, u)" by fastforce
    note rs = reopen_last_spec [OF assms(1) r c(2)]
    have su: "shrinks fdata s u" using c(1) rs(1) shrinks_trans by blast
    obtain ok2 v where l: "reuse_latest F u = (ok2, v)" by fastforce
    show ?thesis
    proof (cases ok1)
      case True
      then have "rc = 0" "t = u" using assms(3) False r by (auto simp: ensure_file_def)
      then show ?thesis using rs True su by simp
    next
      case nok1: False
      note ls = reuse_latest_spec [OF assms(1) l rs(3) [OF nok1]]
      have sv: "shrinks fdata s v" using su ls(1) shrinks_trans by blast
      show ?thesis
      proof (cases ok2)
        case True
        then have "rc = 0" "t = v" using assms(3) False nok1 r l by (auto simp: ensure_file_def)
        then show ?thesis using ls True sv by simp
      next
        case nok2: False
        then have n: "new_file F v = (rc, t)" using assms(3) False nok1 r l by (auto simp: ensure_file_def)
        note ns = new_file_spec [OF assms(1) n ls(3) [OF nok2]]
        have "clock_path F v = clock_path F s" using sv by (simp add: clock_path_def shrinks_def)
        then show ?thesis using ns sv shrinks_trans by auto
      qed
    qed
  qed
  then show "shrinks fdata s t"
    "rc = 0 \<Longrightarrow> his_fp_open t \<and> exact_size fdata fcur t \<and> (his_cur_size t < HIST_FILE_MAX \<or> fcur (his_w t) = clock_path F s)"
    "rc \<noteq> 0 \<Longrightarrow> \<not> his_fp_open t" by (auto split: if_splits)
qed

section \<open>Draining the queue\<close>

fun rec_ok :: "his_data \<Rightarrow> bool" where
  "rec_ok (DI_record _ _ _) = True"
| "rec_ok (AI_record _ _ vs) = (length vs = 4)"

lemma rec_bytes: "rec_ok d \<Longrightarrow> length (his_bytes d) = his_len d" "his_len d \<le> 16"
proof -
  have "length (concat (map put_le16 vs)) = 2 * length vs" for vs by (induction vs) auto
  then show "rec_ok d \<Longrightarrow> length (his_bytes d) = his_len d" by (cases d) auto
  show "his_len d \<le> 16" by (cases d) auto
qed

lemma fs_write_flen:
  assumes "his_fs_laws F fdata fcur" "fs_write F d w = (n, w')"
  shows "flen fdata w' p \<le> flen fdata w p + (if p = fcur w then length d else 0)"
  using fs_write_data [OF assms] by (auto simp: flen_def split: option.splits)

lemma write_exact:
  assumes "his_fs_laws F fdata fcur" "exact_size fdata fcur u" "rec_ok d"
    "fs_write F (his_bytes d) (his_w u) = (int (his_len d), w)"
  shows "his_inv fdata fcur (u\<lparr>his_w := w, his_cur_size := his_cur_size u + of_nat (his_len d)\<rparr>)"
proof -
  have "length x = unat (his_cur_size u + of_nat (his_len d))" "length x < 2 ^ 32" if x: "fdata w (fcur w) = Some x" for x
  proof -
    note fw = fs_write_data [OF assms(1,4)]
    have "fdata (his_w u) (fcur (his_w u)) \<noteq> None" using x fw(1,3) by (auto split: option.splits)
    then obtain old where old: "fdata (his_w u) (fcur (his_w u)) = Some old" "x = old @ his_bytes d"
      using x fw(1,3) rec_bytes(1) [OF assms(3)] by (auto split: option.splits)
    have l: "length old = unat (his_cur_size u)" "length old < 2 ^ 31" using assms(2) old(1) by (auto simp: exact_size_def)
    then have "unat (his_cur_size u + of_nat (his_len d)) = unat (his_cur_size u) + his_len d"
      using rec_bytes(2) [of d] by (intro unat_add_no_wrap) simp
    then show "length x = unat (his_cur_size u + of_nat (his_len d))" "length x < 2 ^ 32"
      using l old(2) rec_bytes [of d] assms(3) by auto
  qed
  then show ?thesis
    by (auto simp: his_inv_def exact_size_def HIST_FILE_MAX_def word_less_nat_alt)
qed

lemma flush_loop_spec:
  assumes "his_fs_laws F fdata fcur" "his_inv fdata fcur s" "list_all rec_ok q" "flush_loop F q s = (q', t)"
  shows "his_inv fdata fcur t \<and> suffix q' q \<and> his_hub t = his_hub s \<and> lfs_mounted t = lfs_mounted s \<and>
    his_sync_req t = his_sync_req s \<and>
    (\<forall>p. flen fdata (his_w t) p \<le> flen fdata (his_w s) p + 16 * length q) \<and>
    (\<forall>p. p \<noteq> clock_path F s \<longrightarrow> flen fdata (his_w t) p \<le> max (flen fdata (his_w s) p) (2 ^ 20 + 15))"
  using assms(2-4)
proof (induction q arbitrary: s)
  case (Cons d q)
  obtain rc u where e: "ensure_file F s = (rc, u)" by fastforce
  note es = ensure_file_spec [OF assms(1) Cons.prems(1) e]
  have su: "his_hub u = his_hub s" "lfs_mounted u = lfs_mounted s" "his_sync_req u = his_sync_req s"
    "flen fdata (his_w u) p \<le> flen fdata (his_w s) p" for p using es(1) by (simp_all add: shrinks_def)
  have q: "suffix q (d # q)" by (simp add: suffix_Cons)
  show ?case
  proof (cases "rc = 0")
    case False
    then show ?thesis using Cons.prems(3) e es(3) su q by (auto simp: his_inv_def intro: le_SucI trans_le_add1 max.coboundedI1)
  next
    case True
    note o = es(2) [OF True]
    obtain n w where w: "fs_write F (his_bytes d) (his_w u) = (n, w)" by fastforce
    have d: "rec_ok d" "list_all rec_ok q" using Cons.prems(2) by auto
    have fl: "flen fdata w p \<le> flen fdata (his_w s) p + 16" for p
      using fs_write_flen [OF assms(1) w, of p] su(4) [of p] rec_bytes [of d] d by (auto split: if_splits)
    have fc: "flen fdata w p \<le> max (flen fdata (his_w s) p) (2 ^ 20 + 15)" if "p \<noteq> clock_path F s" for p
    proof (cases "p = fcur (his_w u) \<and> fdata (his_w u) p \<noteq> None")
      case True
      then have "his_cur_size u < HIST_FILE_MAX" using o that by auto
      then have "flen fdata (his_w u) p < 2 ^ 20" using o True
        by (auto simp: exact_size_def flen_def HIST_FILE_MAX_def word_less_nat_alt)
      then show ?thesis using fs_write_flen [OF assms(1) w, of p] rec_bytes [of d] d by (auto split: if_splits)
    next
      case False
      then have "flen fdata w p = flen fdata (his_w u) p"
        using fs_write_data(3) [OF assms(1) w] by (auto simp: flen_def split: option.splits)
      then show ?thesis using su(4) [of p] by simp
    qed
    show ?thesis
    proof (cases "n = int (his_len d)")
      case nf: False
      then have "q' = q" "t = u\<lparr>his_w := w, his_cur_size := HIST_FILE_MAX\<rparr>"
        using Cons.prems(3) e True w by (auto simp: Let_def)
      then show ?thesis using su fl fc q by (auto simp: his_inv_def intro: order.trans [OF fl])
    next
      case n: True
      let ?v = "u\<lparr>his_w := w, his_cur_size := his_cur_size u + of_nat (his_len d)\<rparr>"
      have "flush_loop F q ?v = (q', t)" using Cons.prems(3) e True w n by (simp add: Let_def)
      moreover have "his_inv fdata fcur ?v" using o by (intro write_exact [OF assms(1) _ d(1) w [unfolded n]]) simp
      moreover have "clock_path F ?v = clock_path F s" using su(1) by (simp add: clock_path_def)
      ultimately have i: "his_inv fdata fcur t \<and> suffix q' q \<and> his_hub t = his_hub u \<and> lfs_mounted t = lfs_mounted u \<and>
          his_sync_req t = his_sync_req u \<and>
          (\<forall>p. flen fdata (his_w t) p \<le> flen fdata w p + 16 * length q) \<and>
          (\<forall>p. p \<noteq> clock_path F s \<longrightarrow> flen fdata (his_w t) p \<le> max (flen fdata w p) (2 ^ 20 + 15))"
        using Cons.IH [of ?v] d(2) by simp
      have "flen fdata (his_w t) p \<le> flen fdata (his_w s) p + 16 * length (d # q)" for p
        using i fl [of p] by (auto dest: spec [of _ p])
      moreover have "flen fdata (his_w t) p \<le> max (flen fdata (his_w s) p) (2 ^ 20 + 15)" if "p \<noteq> clock_path F s" for p
        using i fc [OF that] that by (auto dest: spec [of _ p])
      ultimately show ?thesis using i su q by (auto simp: suffix_Cons)
    qed
  qed
qed simp

lemma his_flush_spec:
  assumes "his_fs_laws F fdata fcur" "his_inv fdata fcur s" "list_all rec_ok (his_msgq (his_hub s))"
  shows "his_inv fdata fcur (his_flush F b s)" "suffix (his_msgq (his_hub (his_flush F b s))) (his_msgq (his_hub s))"
    "flen fdata (his_w (his_flush F b s)) p \<le> flen fdata (his_w s) p + 16 * length (his_msgq (his_hub s))"
    "p \<noteq> clock_path F s \<Longrightarrow> flen fdata (his_w (his_flush F b s)) p \<le> max (flen fdata (his_w s) p) (2 ^ 20 + 15)"
    "lfs_mounted (his_flush F b s) = lfs_mounted s"
    "sys_clock (his_hub (his_flush F b s)) = sys_clock (his_hub s)"
proof -
  obtain q t where f: "flush_loop F (his_msgq (his_hub s)) s = (q, t)" by fastforce
  note fs = flush_loop_spec [OF assms f]
  let ?t = "t\<lparr>his_hub := (his_hub t)\<lparr>his_msgq := q\<rparr>\<rparr>"
  let ?u = "(if b then close_cur_file F ?t else ?t)\<lparr>his_sync_req := False\<rparr>"
  let ?v = "if his_sync_req t \<and> his_fp_open ?u then ?u\<lparr>his_w := fs_sync F (his_w ?u)\<rparr> else ?u"
  note c = close_cur_spec [OF assms(1), of ?t]
  have v: "his_flush F b s = (if lfs_mounted s then ?v else s)"
    using c(1) by (auto simp: his_flush_def f Let_def shrinks_def close_cur_file_def)
  have h: "his_hub ?v = (his_hub s)\<lparr>his_msgq := q\<rparr>" "lfs_mounted ?v = lfs_mounted s"
    using fs c(1) by (auto simp: shrinks_def)
  have w: "fdata (his_w ?v) = fdata (his_w t)"
    using fs_close_data [OF assms(1)] fs_sync_data [OF assms(1)] by (auto simp: close_cur_file_def)
  have "his_inv fdata fcur ?v"
    using fs fs_sync_data [OF assms(1)] by (auto simp: his_inv_def exact_size_def close_cur_file_def)
  then show "his_inv fdata fcur (his_flush F b s)" using assms(2) by (simp add: v)
  show "suffix (his_msgq (his_hub (his_flush F b s))) (his_msgq (his_hub s))" using h fs by (simp add: v)
  show "lfs_mounted (his_flush F b s) = lfs_mounted s" "sys_clock (his_hub (his_flush F b s)) = sys_clock (his_hub s)"
    using h by (simp_all add: v)
  have fl: "flen fdata (his_w ?v) p = flen fdata (his_w t) p" unfolding flen_def w ..
  show "flen fdata (his_w (his_flush F b s)) p \<le> flen fdata (his_w s) p + 16 * length (his_msgq (his_hub s))"
    using fs fl by (simp add: v)
  show "p \<noteq> clock_path F s \<Longrightarrow> flen fdata (his_w (his_flush F b s)) p \<le> max (flen fdata (his_w s) p) (2 ^ 20 + 15)"
    using fs fl by (simp add: v)
qed

end
