(* ===== verification/HistoryTheorems.thy ===== *)
theory HistoryTheorems imports HistoryProps begin

text \<open>
  The properties of the history writer, with a file system in memory that meets the contract.
\<close>

section \<open>A file system in memory\<close>

record mem_fs =
  mem_files :: "(string \<times> bytes) list"
  mem_cur :: string

definition mem_his_fs :: "mem_fs his_fs" where
  "mem_his_fs = \<lparr>
     fs_open = (\<lambda>p c w. case map_of (mem_files w) p of Some d \<Rightarrow> (0, w\<lparr>mem_cur := p\<rparr>)
        | None \<Rightarrow> if c then (0, w\<lparr>mem_files := mem_files w @ [(p, [])], mem_cur := p\<rparr>) else (- ENOENT, w)),
     fs_seek_end = (\<lambda>w. 0),
     fs_tell = (\<lambda>w. case map_of (mem_files w) (mem_cur w) of None \<Rightarrow> 0
        | Some d \<Rightarrow> if int (length d) < 2147483648 then int (length d) else -1),
     fs_write = (\<lambda>d w. (int (length d), w\<lparr>mem_files := map (\<lambda>(p, x). if p = mem_cur w then (p, x @ d) else (p, x)) (mem_files w)\<rparr>)),
     fs_close = (\<lambda>w. w), fs_sync = (\<lambda>w. w),
     fs_unlink = (\<lambda>p w. w\<lparr>mem_files := filter (\<lambda>e. fst e \<noteq> p) (mem_files w)\<rparr>),
     fs_entries = (\<lambda>w. Some (map (\<lambda>e. (True, drop 6 (fst e))) (mem_files w))),
     gm_time = (\<lambda>t. if t < 9 * 3600 then Some (0, 1, 0, 0, 1) else Some (11, 31, 23, 59, 59)) \<rparr>"

definition mem_data :: "mem_fs \<Rightarrow> string \<Rightarrow> bytes option" where
  "mem_data w = map_of (mem_files w)"

lemma map_of_append_update:
  "map_of (map (\<lambda>(p, x). if p = c then (p, x @ d) else (p, x)) fs) =
     (case map_of fs c of None \<Rightarrow> map_of fs | Some old \<Rightarrow> (map_of fs)(c := Some (old @ d)))"
  by (induction fs) (auto simp: fun_eq_iff split: option.splits)

lemma map_of_filter_key: "map_of (filter (\<lambda>e. fst e \<noteq> p) fs) = (map_of fs)(p := None)"
  by (induction fs) (auto simp: fun_eq_iff)

lemma mem_his_laws: "his_fs_laws mem_his_fs mem_data mem_cur"
  unfolding his_fs_laws_def
proof (intro conjI allI impI)
  fix p c w rc w' assume "fs_open mem_his_fs p c w = (rc, w')"
  then show "if rc = 0 then mem_cur w' = p \<and> mem_data w' p \<noteq> None \<and> (c \<or> mem_data w p \<noteq> None) \<and>
            mem_data w' = (if mem_data w p = None then (mem_data w)(p := Some []) else mem_data w)
         else mem_data w' = mem_data w"
    by (auto simp: mem_his_fs_def mem_data_def map_add_def fun_eq_iff ENOENT_def split: option.splits if_splits)
next
  fix d w n w' assume "fs_write mem_his_fs d w = (n, w')"
  then show "mem_data w' = (case mem_data w (mem_cur w) of None \<Rightarrow> mem_data w
      | Some old \<Rightarrow> (mem_data w)(mem_cur w := Some (old @ take (nat n) d)))"
    by (auto simp: mem_his_fs_def mem_data_def map_of_append_update split: option.split)
next
  fix p w show "mem_data (fs_unlink mem_his_fs p w) = mem_data w \<or>
      mem_data (fs_unlink mem_his_fs p w) = (mem_data w)(p := None)"
    by (simp add: mem_his_fs_def mem_data_def map_of_filter_key)
qed (auto simp: mem_his_fs_def mem_data_def split: option.splits if_splits)

definition demo_his :: "(string \<times> bytes) list \<Rightarrow> his_data list \<Rightarrow> int \<Rightarrow> mem_fs his_st" where
  "demo_his fs q t = \<lparr>his_hub = \<lparr>holding_reg = [], input_reg = [], do_pins = [], led_pins = [], sys_clock = t,
       rtc_dev_set = True, rtc_clock = t, settings_store = [], history_enabled = True, his_msgq = q,
       his_work_pending = True, reboot_pending = False, net_link_up = False, can_bitrate_inject = None\<rparr>,
     his_w = \<lparr>mem_files = fs, mem_cur = []\<rparr>, his_fp_open = False, his_cur_size = 0, his_cur_name = [],
     his_sync_req = False, lfs_mounted = True\<rparr>"

section \<open>Bounded files\<close>

text \<open>What happens to the history: samples, the switch, the work item, time passing.\<close>

datatype his_op = Sample his_data | Switch bool | RunWork | Clock int

fun his_step :: "'w his_fs \<Rightarrow> his_op \<Rightarrow> 'w his_st \<Rightarrow> 'w his_st" where
  "his_step F (Sample d) s = s\<lparr>his_hub := send_history_data (lfs_mounted s) d (his_hub s)\<rparr>"
| "his_step F (Switch en) s = s\<lparr>his_hub := history_enable_write en (his_hub s)\<rparr>"
| "his_step F RunWork s = his_work_handler F s"
| "his_step F (Clock t) s = s\<lparr>his_hub := (his_hub s)\<lparr>sys_clock := t\<rparr>\<rparr>"

fun op_ok :: "his_op \<Rightarrow> bool" where
  "op_ok (Sample d) = rec_ok d"
| "op_ok _ = True"

text \<open>The file named after the current time, if there is one, is far from full.\<close>

definition fresh_name :: "'w his_fs \<Rightarrow> ('w \<Rightarrow> string \<Rightarrow> bytes option) \<Rightarrow> 'w his_st \<Rightarrow> bool" where
  "fresh_name F fdata s \<longleftrightarrow> flen fdata (his_w s) (clock_path F s) + 16 * HIS_MSGQ_DEPTH \<le> 2 ^ 20"

inductive his_reach :: "'w his_fs \<Rightarrow> ('w \<Rightarrow> string \<Rightarrow> bytes option) \<Rightarrow> 'w his_st \<Rightarrow> 'w his_st \<Rightarrow> bool" for F fdata s where
  here: "his_reach F fdata s s"
| step: "his_reach F fdata s t \<Longrightarrow> op_ok x \<Longrightarrow> (x = RunWork \<Longrightarrow> fresh_name F fdata t) \<Longrightarrow> his_reach F fdata s (his_step F x t)"

definition his_ok :: "('w \<Rightarrow> string \<Rightarrow> bytes option) \<Rightarrow> ('w \<Rightarrow> string) \<Rightarrow> 'w his_st \<Rightarrow> bool" where
  "his_ok fdata fcur s \<longleftrightarrow> his_inv fdata fcur s \<and> list_all rec_ok (his_msgq (his_hub s)) \<and>
     length (his_msgq (his_hub s)) \<le> HIS_MSGQ_DEPTH \<and> (\<forall>p. flen fdata (his_w s) p \<le> 2 ^ 20 + 15)"

lemma his_ok_step:
  assumes "his_fs_laws F fdata fcur" "his_ok fdata fcur s" "op_ok x" "x = RunWork \<Longrightarrow> fresh_name F fdata s"
  shows "his_ok fdata fcur (his_step F x s)"
proof (cases x)
  case RunWork
  let ?s = "s\<lparr>his_hub := (his_hub s)\<lparr>his_work_pending := False\<rparr>\<rparr>"
  have s: "his_inv fdata fcur ?s" "list_all rec_ok (his_msgq (his_hub ?s))" "clock_path F ?s = clock_path F s"
    using assms(2) by (auto simp: his_ok_def his_inv_def exact_size_def clock_path_def split: if_splits)
  let ?t = "his_flush F (\<not> history_enabled (his_hub s)) ?s"
  note fs = his_flush_spec [OF assms(1) s(1,2), where b = "\<not> history_enabled (his_hub s)"]
  have q: "suffix (his_msgq (his_hub ?t)) (his_msgq (his_hub s))" using fs(2) by simp
  then have l: "length (his_msgq (his_hub ?t)) \<le> HIS_MSGQ_DEPTH" "list_all rec_ok (his_msgq (his_hub ?t))"
    using assms(2) suffix_length_le [OF q] set_mono_suffix [OF q] by (auto simp: his_ok_def list_all_iff)
  have "flen fdata (his_w ?t) p \<le> 2 ^ 20 + 15" for p
  proof (cases "p = clock_path F s")
    case True
    have "flen fdata (his_w s) p + 16 * length (his_msgq (his_hub s)) \<le> 2 ^ 20"
      using assms(2) assms(4) [OF RunWork] True by (simp add: fresh_name_def his_ok_def)
    then show ?thesis using fs(3) [of p] by simp
  next
    case False
    have "flen fdata (his_w s) p \<le> 2 ^ 20 + 15" using assms(2) by (simp add: his_ok_def)
    then show ?thesis using fs(4) [of p] False s(3) by simp
  qed
  then show ?thesis using fs(1) l RunWork by (simp add: his_ok_def his_work_handler_def)
qed (use assms(2,3) in \<open>auto simp: his_ok_def his_inv_def exact_size_def send_history_data_def history_enable_write_def Let_def HIS_MSGQ_DEPTH_def\<close>)

lemma his_reach_ok:
  "his_reach F fdata s t \<Longrightarrow> his_fs_laws F fdata fcur \<Longrightarrow> his_ok fdata fcur s \<Longrightarrow> his_ok fdata fcur t"
  by (induction rule: his_reach.induct) (auto intro: his_ok_step)

text \<open>
  C25. History files stay bounded: through any interleaving of samples, switching the history on and
  off, work items and time, on any file system that keeps the contract but may fail any call or
  write short, no file ever exceeds the limit of 1 MB by more than the 15 bytes of a record
  that started below it, and at most 16 records wait in the queue.  The rotation relies on its new name
  being new: whenever the work item runs, the file named after the current time has room
  for the whole queue.
\<close>
theorem history_files_bounded:
  assumes "his_fs_laws F fdata fcur" "his_ok fdata fcur s" "his_reach F fdata s t" "fdata (his_w t) p = Some d"
  shows "length d \<le> 1024 * 1024 + 15 \<and> length (his_msgq (his_hub t)) \<le> 16"
proof -
  have "his_ok fdata fcur t" using his_reach_ok assms(1-3) by blast
  then have "flen fdata (his_w t) p \<le> 2 ^ 20 + 15" "length (his_msgq (his_hub t)) \<le> 16"
    by (simp_all add: his_ok_def HIS_MSGQ_DEPTH_def)
  then show ?thesis using assms(4) by (simp add: flen_def)
qed

theorem history_files_bounded_witness:
  "length [1, 0, 0, 0, 0, 0, 1, 0, 1, (0 :: u8)] \<le> 1024 * 1024 + 15 \<and>
   length (his_msgq (his_hub (his_step mem_his_fs RunWork (demo_his [] [DI_record 0 1 1] 0)))) \<le> 16"
proof (rule history_files_bounded [OF mem_his_laws])
  let ?s = "demo_his [] [DI_record 0 1 1] 0"
  show "his_ok mem_data mem_cur ?s"
    by (simp add: his_ok_def his_inv_def demo_his_def HIS_MSGQ_DEPTH_def flen_def mem_data_def)
  show "his_reach mem_his_fs mem_data ?s (his_step mem_his_fs RunWork ?s)"
    by (rule his_reach.step [OF his_reach.here])
       (simp_all add: fresh_name_def flen_def mem_data_def demo_his_def HIS_MSGQ_DEPTH_def)
  show "mem_data (his_w (his_step mem_his_fs RunWork ?s)) ''/lfs1/data_0101_000001.raw'' = Some [1, 0, 0, 0, 0, 0, 1, 0, 1, 0]"
    by (code_simp)
qed

section \<open>Which files are removed\<close>

text \<open>
  Cleaning up removes the files with the smallest names: when the directory lists at most twelve
  history files with names of at most 23 characters, exactly the names beyond ten are removed, the
  smallest first, in the order of their names (which carry month and day but no year).
\<close>
theorem cleanup_removes_smallest:
  assumes "fs_entries F w = Some es" "length (filter is_hist_file es) \<le> 12"
    and "list_all (\<lambda>e. length (snd e) \<le> 23) es"
  shows "cleanup_old_files F w = fold (\<lambda>n. fs_unlink F (''/lfs1/'' @ n))
     (take (length (filter is_hist_file es) - 10) (sort (map snd (filter is_hist_file es)))) w"
proof -
  have "collect_names es = map snd (filter is_hist_file es)"
    using assms(2,3) by (auto simp: collect_names_def HIST_MAX_FILES_def list_all_iff)
  then show ?thesis using assms(1)
    by (simp add: cleanup_old_files_def cleanup_loop_sorted HIST_MAX_FILES_def hist_path_def [abs_def])
qed

text \<open>Ten files of a December and the one a rotation has just created on the first of January.\<close>

definition new_year :: mem_fs where
  "new_year = \<lparr>mem_files = map (\<lambda>n. (''/lfs1/data_12'' @ n @ ''_120000.raw'', [0]))
       [''21'', ''22'', ''23'', ''24'', ''25'', ''26'', ''27'', ''28'', ''29'', ''30''] @
     [(''/lfs1/data_0101_000001.raw'', [])], mem_cur = ''/lfs1/data_0101_000001.raw''\<rparr>"

theorem cleanup_removes_smallest_witness:
  "cleanup_old_files mem_his_fs new_year = fold (\<lambda>n. fs_unlink mem_his_fs (''/lfs1/'' @ n)) [''data_0101_000001.raw''] new_year"
proof -
  let ?es = "map (\<lambda>e. (True, drop 6 (fst e))) (mem_files new_year)"
  have e: "fs_entries mem_his_fs new_year = Some ?es" by (simp add: mem_his_fs_def)
  have "length (filter is_hist_file ?es) \<le> 12" "list_all (\<lambda>e. length (snd e) \<le> 23) ?es"
    by (simp_all add: new_year_def is_hist_file_def)
  note c = cleanup_removes_smallest [OF e this]
  have "take (length (filter is_hist_file ?es) - 10) (sort (map snd (filter is_hist_file ?es))) = [''data_0101_000001.raw'']"
    by code_simp
  then show ?thesis using c by simp
qed

section \<open>Synchronising before a restart\<close>

lemma his_flush_sync: "lfs_mounted s \<Longrightarrow> \<not> his_sync_req (his_flush F b s)"
  by (simp add: his_flush_def Let_def case_prod_beta)

lemma open_append_mounted: "lfs_mounted (snd (open_append F p c s)) = lfs_mounted s"
  by (simp add: open_append_def Let_def case_prod_beta)

lemma close_cur_mounted [simp]: "lfs_mounted (close_cur_file F s) = lfs_mounted s"
  by (simp add: close_cur_file_def)

lemma ensure_steps_mounted:
  "lfs_mounted (snd (reopen_last F s)) = lfs_mounted s" "lfs_mounted (snd (reuse_latest F s)) = lfs_mounted s"
  "lfs_mounted (snd (new_file F s)) = lfs_mounted s"
  by (simp_all add: reopen_last_def reuse_latest_def new_file_def Let_def case_prod_beta open_append_mounted)

lemma ensure_file_mounted: "lfs_mounted (snd (ensure_file F s)) = lfs_mounted s"
  by (simp add: ensure_file_def Let_def case_prod_beta ensure_steps_mounted)

lemma flush_loop_mounted: "lfs_mounted (snd (flush_loop F q s)) = lfs_mounted s"
proof (induction q arbitrary: s)
  case (Cons d q)
  then show ?case using ensure_file_mounted [of F s] by (simp add: Let_def case_prod_beta)
qed simp

lemma his_flush_mounted: "lfs_mounted (his_flush F b s) = lfs_mounted s"
  by (simp add: his_flush_def Let_def case_prod_beta flush_loop_mounted)

lemma sync_round_spec:
  "lfs_mounted s \<Longrightarrow> lfs_mounted (sync_round F m s) \<and> (\<not> m \<longrightarrow> \<not> his_sync_req (sync_round F m s))"
  by (simp add: sync_round_def Let_def his_work_handler_def his_flush_mounted his_flush_sync)

lemma sync_loop_returns:
  assumes "\<not> missed k" "j \<le> k" "lfs_mounted s"
  shows "\<exists>t. sync_loop F missed j s = Some t \<and> \<not> his_sync_req t"
  using assms(2,3)
proof (induction "k - j" arbitrary: j s)
  case 0
  then have "j = k" by simp
  then show ?case using sync_round_spec [OF 0(3), of F "missed j"] assms(1) by (subst sync_loop.simps) simp
next
  case (Suc n)
  let ?s = "sync_round F (missed j) s"
  have m: "lfs_mounted ?s" using sync_round_spec [OF Suc.prems(2)] by blast
  show ?case
  proof (cases "his_sync_req ?s")
    case True
    have "\<exists>t. sync_loop F missed (j + 1) ?s = Some t \<and> \<not> his_sync_req t"
      using Suc.hyps(2) m by (intro Suc.hyps(1)) auto
    then show ?thesis using True by (subst sync_loop.simps) (simp add: Let_def)
  qed (subst sync_loop.simps, simp add: Let_def)
qed

text \<open>
  Synchronising before a restart comes back: whatever the file system does, and even when some runs
  of the work item had already passed their check, \<open>history_sync\<close> returns as soon as one run sees the
  request (or at once when no file system is mounted), and the request is gone.
\<close>
theorem history_sync_returns:
  assumes "\<not> missed k" "\<not> his_sync_req s"
  shows "\<exists>t. history_sync F missed s = Some t \<and> \<not> his_sync_req t"
  using sync_loop_returns [of missed k 0 "s\<lparr>his_sync_req := True\<rparr>" F] assms
  by (cases "lfs_mounted s") (simp_all add: history_sync_def)

theorem history_sync_returns_witness:
  "\<exists>t. history_sync mem_his_fs (\<lambda>k. k < 1) (demo_his [] [DI_record 0 1 1] 0) = Some t \<and> \<not> his_sync_req t"
  by (rule history_sync_returns [of "\<lambda>k. k < 1" 1]) (simp_all add: demo_his_def)

section \<open>Order of the records\<close>

lemma flush_appends:
  assumes "his_fs_laws F fdata fcur" "\<And>d w. fst (fs_write F d w) = int (length d)"
    and "list_all rec_ok q" "his_fp_open s" "unat (his_cur_size s) + 16 * length q \<le> 2 ^ 20"
    and "fdata (his_w s) (fcur (his_w s)) = Some old"
  shows "\<exists>t. flush_loop F q s = ([], t) \<and> fcur (his_w t) = fcur (his_w s) \<and> his_hub t = his_hub s \<and>
    fdata (his_w t) = (fdata (his_w s))(fcur (his_w s) := Some (old @ concat (map his_bytes q)))"
  using assms(3-6)
proof (induction q arbitrary: s old)
  case Nil
  then show ?case by (auto simp: fun_eq_iff)
next
  case (Cons d q)
  have d: "rec_ok d" "list_all rec_ok q" using Cons.prems(1) by auto
  note l = rec_bytes(1) [OF d(1)] rec_bytes(2) [of d]
  have e: "ensure_file F s = (0, s)" using Cons.prems(2,3) d
    by (simp add: ensure_file_def HIST_FILE_MAX_def word_less_nat_alt)
  obtain w where w: "fs_write F (his_bytes d) (his_w s) = (int (his_len d), w)"
    using assms(2) [of "his_bytes d" "his_w s"] l(1) by (cases "fs_write F (his_bytes d) (his_w s)") auto
  note fw = fs_write_data [OF assms(1) w]
  let ?s = "s\<lparr>his_w := w, his_cur_size := his_cur_size s + of_nat (his_len d)\<rparr>"
  have u: "unat (his_cur_size s + of_nat (his_len d)) = unat (his_cur_size s) + his_len d"
    using Cons.prems(3) l(2) by (intro unat_add_no_wrap) simp
  have f: "fdata w = (fdata (his_w s))(fcur (his_w s) := Some (old @ his_bytes d))"
    using fw(3) Cons.prems(4) l(1) by simp
  have "\<exists>t. flush_loop F q ?s = ([], t) \<and> fcur (his_w t) = fcur (his_w ?s) \<and> his_hub t = his_hub ?s \<and>
    fdata (his_w t) = (fdata (his_w ?s))(fcur (his_w ?s) := Some ((old @ his_bytes d) @ concat (map his_bytes q)))"
    using d(2) Cons.prems(2,3) l(2) u f fw(1) by (intro Cons.IH) auto
  moreover have "(fdata (his_w ?s))(fcur (his_w ?s) := x) = (fdata (his_w s))(fcur (his_w s) := x)" for x
    using f fw(1) by (auto simp: fun_eq_iff)
  ultimately show ?case using e w fw(1) by (simp add: Let_def fun_upd_def cong: if_cong)
qed

text \<open>
  Nothing is lost or reordered while the disk works: when the current file is open with room for the
  queue and writes succeed, one run of the work item empties the queue and appends to the file the
  encodings of its records, in the order they were sampled, and touches no other file.
\<close>
theorem history_appends_in_order:
  assumes "his_fs_laws F fdata fcur" "\<And>d w. fst (fs_write F d w) = int (length d)"
    and "lfs_mounted s" "his_fp_open s" "list_all rec_ok (his_msgq (his_hub s))"
    and "unat (his_cur_size s) + 16 * length (his_msgq (his_hub s)) \<le> 2 ^ 20"
    and "fdata (his_w s) (fcur (his_w s)) = Some old"
  shows "his_msgq (his_hub (his_work_handler F s)) = [] \<and>
     fdata (his_w (his_work_handler F s)) =
       (fdata (his_w s))(fcur (his_w s) := Some (old @ concat (map his_bytes (his_msgq (his_hub s)))))"
proof -
  let ?s = "s\<lparr>his_hub := (his_hub s)\<lparr>his_work_pending := False\<rparr>\<rparr>"
  obtain t where t: "flush_loop F (his_msgq (his_hub s)) ?s = ([], t)"
    "fdata (his_w t) = (fdata (his_w s))(fcur (his_w s) := Some (old @ concat (map his_bytes (his_msgq (his_hub s)))))"
    using flush_appends [OF assms(1,2), of "his_msgq (his_hub s)" ?s old] assms(4-7) by auto
  show ?thesis using assms(3) t fs_close_data [OF assms(1)] fs_sync_data [OF assms(1)]
    by (simp add: his_work_handler_def his_flush_def Let_def close_cur_file_def)
qed

definition demo_open :: "mem_fs his_st" where
  "demo_open = (demo_his [(''/lfs1/data_a'', [7])] [DI_record 1 2 3, AI_record 4 5 [6, 7, 8, 9]] 0)
     \<lparr>his_w := \<lparr>mem_files = [(''/lfs1/data_a'', [7])], mem_cur = ''/lfs1/data_a''\<rparr>, his_fp_open := True, his_cur_size := 1\<rparr>"

theorem history_appends_in_order_witness:
  "his_msgq (his_hub (his_work_handler mem_his_fs demo_open)) = [] \<and>
     mem_data (his_w (his_work_handler mem_his_fs demo_open)) =
       (mem_data (his_w demo_open))(mem_cur (his_w demo_open) := Some ([7] @ concat (map his_bytes (his_msgq (his_hub demo_open)))))"
  by (rule history_appends_in_order [OF mem_his_laws])
     (simp_all add: mem_his_fs_def demo_open_def demo_his_def mem_data_def)

end
