(* ===== verification/HubTheorems.thy ===== *)
theory HubTheorems imports HubApp RegTheorems HistoryTheorems begin

text \<open>
  Properties of the application glue of the hub: the two-step factory reset over every sequence of
  UDP commands, the parameter commands up to a restart, and the restart through the main loop.
\<close>

section \<open>Factory reset\<close>

text \<open>A command with the uptime it arrives at and the flash driver's results if it erases.\<close>

record udp_event =
  ev_now :: int
  ev_cmd :: u8
  ev_data :: bytes
  ev_open :: int
  ev_erase :: int

definition app_event :: "hub_env \<Rightarrow> 'w his_fs \<Rightarrow> udp_event \<Rightarrow> 'w app_st \<Rightarrow> 'w app_st" where
  "app_event E F e a = snd (snd (app_cmd_handler E F (ev_open e) (ev_erase e) (ev_now e) (ev_cmd e) (ev_data e) a))"

definition is_reset :: "udp_event \<Rightarrow> bool" where
  "is_reset e \<longleftrightarrow> ev_cmd e = udp_app_cmd_val UDP_CMD_FACTORY_RESET"

lemma app_sync_fields [simp]:
  "factory_reset_pending_ms (app_sync F a) = factory_reset_pending_ms a"
  "factory_reset_confirmed (app_sync F a) = factory_reset_confirmed a" "app_rebooted (app_sync F a) = app_rebooted a"
  by (simp_all add: app_sync_def split: option.split)

lemma set_hub_fields [simp]:
  "factory_reset_pending_ms (set_hub h a) = factory_reset_pending_ms a"
  "factory_reset_confirmed (set_hub h a) = factory_reset_confirmed a" "app_rebooted (set_hub h a) = app_rebooted a"
  by (simp_all add: set_hub_def)

lemma app_event_other:
  assumes "\<not> is_reset e"
  shows "factory_reset_pending_ms (app_event E F e a) = factory_reset_pending_ms a"
    "factory_reset_confirmed (app_event E F e a) = factory_reset_confirmed a"
    "app_rebooted (app_event E F e a) = app_rebooted a"
  using assms by (simp_all add: app_event_def app_cmd_handler_def is_reset_def Let_def case_prod_beta)

lemma app_event_reset:
  assumes "is_reset e" "\<not> factory_reset_confirmed a"
  shows "\<not> factory_reset_confirmed (app_event E F e a)"
    "ev_now e - factory_reset_pending_ms a > 5000 \<Longrightarrow>
       factory_reset_pending_ms (app_event E F e a) = ev_now e \<and> app_rebooted (app_event E F e a) = app_rebooted a"
    "ev_now e - factory_reset_pending_ms a \<le> 5000 \<Longrightarrow>
       factory_reset_pending_ms (app_event E F e a) = factory_reset_pending_ms a"
  using assms by (simp_all add: app_event_def app_cmd_handler_def is_reset_def cmd_factory_reset_def Let_def case_prod_beta)

text \<open>Two reset commands of a list at most five seconds apart, the second after the first.\<close>

definition reset_pair :: "udp_event list \<Rightarrow> bool" where
  "reset_pair es \<longleftrightarrow> (\<exists>i j. i < j \<and> j < length es \<and> is_reset (es ! i) \<and> is_reset (es ! j) \<and> ev_now (es ! j) - ev_now (es ! i) \<le> 5000)"

lemma reset_pair_snoc: "reset_pair es \<Longrightarrow> reset_pair (es @ [e])"
proof -
  assume "reset_pair es"
  then obtain i j where "i < j" "j < length es" "is_reset (es ! i)" "is_reset (es ! j)" "ev_now (es ! j) - ev_now (es ! i) \<le> 5000"
    unfolding reset_pair_def by blast
  then show ?thesis unfolding reset_pair_def by (intro exI [of _ i] exI [of _ j]) (simp add: nth_append)
qed

lemma reset_pair_new:
  assumes "x \<in> set es" "is_reset x" "is_reset e" "ev_now e - ev_now x \<le> 5000"
  shows "reset_pair (es @ [e])"
proof -
  obtain i where "i < length es" "es ! i = x" using assms(1) by (auto simp: in_set_conv_nth)
  then show ?thesis unfolding reset_pair_def using assms(2-4)
    by (intro exI [of _ i] exI [of _ "length es"]) (simp add: nth_append)
qed

text \<open>
  C23. A factory reset takes two commands: once the device has been up for more than five seconds, over every
  sequence of UDP commands the device only erases its parameters and restarts if two of the commands
  are factory resets at most five seconds apart.  (In the first five seconds a single command is
  enough, since the time of the last request starts at zero.)
\<close>
theorem factory_reset_two_step:
  assumes "factory_reset_pending_ms a = 0" "\<not> factory_reset_confirmed a" "\<not> app_rebooted a"
    and "list_all (\<lambda>e. ev_now e > 5000) es"
    and "app_rebooted (fold (app_event E F) es a)"
  shows "reset_pair es"
proof -
  let ?st = "\<lambda>es. fold (app_event E F) es a"
  have "list_all (\<lambda>e. ev_now e > 5000) es \<Longrightarrow>
     \<not> factory_reset_confirmed (?st es) \<and> (app_rebooted (?st es) \<longrightarrow> reset_pair es) \<and>
     (factory_reset_pending_ms (?st es) = 0 \<or> (\<exists>x \<in> set es. is_reset x \<and> ev_now x = factory_reset_pending_ms (?st es)))"
  proof (induction es rule: rev_induct)
    case (snoc e es)
    then have IH: "\<not> factory_reset_confirmed (?st es)" "app_rebooted (?st es) \<longrightarrow> reset_pair es"
      "factory_reset_pending_ms (?st es) = 0 \<or> (\<exists>x \<in> set es. is_reset x \<and> ev_now x = factory_reset_pending_ms (?st es))"
      and t: "ev_now e > 5000" by auto
    show ?case
    proof (cases "is_reset e")
      case False
      then show ?thesis using app_event_other [OF False, of E F "?st es"] IH reset_pair_snoc by auto
    next
      case True
      note r = app_event_reset [OF True IH(1), of E F]
      show ?thesis
      proof (cases "ev_now e - factory_reset_pending_ms (?st es) > 5000")
        case gap: True
        then show ?thesis using r(1) r(2) [OF gap] IH(2) True reset_pair_snoc by auto
      next
        case False
        then have "factory_reset_pending_ms (?st es) \<noteq> 0" using t by auto
        then obtain x where "x \<in> set es" "is_reset x" "ev_now x = factory_reset_pending_ms (?st es)" using IH(3) by blast
        then have "reset_pair (es @ [e])" using reset_pair_new [of x es e] True False by simp
        then show ?thesis using r(1,3) False IH(3) by auto
      qed
    qed
  qed (use assms(1-3) in simp)
  then show ?thesis using assms(4,5) by blast
qed

definition demo_app :: "mem_fs app_st" where
  "demo_app = \<lparr>app_his = (demo_his [] [] 0)\<lparr>his_hub := power_on demo_board 0 []\<rparr>, factory_reset_pending_ms = 0,
     factory_reset_confirmed = False, app_rebooted = False\<rparr>"

definition demo_resets :: "udp_event list" where
  "demo_resets = [\<lparr>ev_now = 6000, ev_cmd = 0x19, ev_data = [], ev_open = 0, ev_erase = 0\<rparr>,
     \<lparr>ev_now = 7000, ev_cmd = 0x11, ev_data = [], ev_open = 0, ev_erase = 0\<rparr>,
     \<lparr>ev_now = 9000, ev_cmd = 0x19, ev_data = [], ev_open = 0, ev_erase = 0\<rparr>]"

theorem factory_reset_two_step_witness: "reset_pair demo_resets"
proof (rule factory_reset_two_step)
  show "app_rebooted (fold (app_event demo_board mem_his_fs) demo_resets demo_app)"
    by (simp add: demo_resets_def app_event_def app_cmd_handler_def cmd_factory_reset_def settings_factory_reset_def
        Let_def demo_app_def)
qed (simp_all add: demo_app_def demo_resets_def)

section \<open>Parameters over UDP\<close>

lemma set_reg_length [simp]: "length (holding_reg (set_reg r v h)) = length (holding_reg h)"
  by (simp add: set_reg_def)

lemma get_set_reg:
  "length (holding_reg h) = 18 \<Longrightarrow>
   get_holding_reg (holding_idx a) (set_reg b v h) = (if a = b then v else get_holding_reg (holding_idx a) h)"
  by (simp add: set_reg_def get_update_holding)

lemma save_regs [simp]: "holding_reg (holding_reg_save h) = holding_reg h"
  by (simp add: holding_reg_save_def)

lemma get_reg_save [simp]: "get_holding_reg x (holding_reg_save h) = get_holding_reg x h"
  by (simp add: get_holding_reg_def)

lemma be16_roundtrip: "put_be16 (be16_at (drop 1 [a, b, c])) = [b, c]"
proof -
  have z: "\<not> bit (w :: u8) (8 + n)" for w n using bit_imp_le_length [of w "8 + n"] by auto
  show ?thesis by (simp add: put_be16_def be16_at_def le16_def) (auto intro!: bit_word_eqI simp: bit_simps z)
qed

text \<open>
  Parameters set over UDP are the ones read back, and they survive a restart: an accepted SET_IP
  answers 1 and the next GET_IP returns the same four octets, from the registers and from any state
  that starts with the saved store; a refused one answers 0 and changes nothing.  SET_MODBUS and
  GET_MODBUS give back the same three bytes.
\<close>
theorem udp_parameters_roundtrip:
  assumes "name_next_law nn" "distinct (map fst (settings_store h))" "no_eq (settings_store h)"
    and "length (holding_reg h) = 18" "length (holding_reg t) = 18"
    and "cmd_set_ip [a, b, c, d] h = (ok, h')" "settings_store t = settings_store h'"
    and "cmd_set_modbus [x, y, z] h = (ok2, h2)"
  shows "ok = (if ip_addr_valid a b c d then 1 else 0) \<and>
     (if ok = 1 then cmd_get_ip h' = [a, b, c, d] \<and> cmd_get_ip (settings_load nn t) = [a, b, c, d] else h' = h) \<and>
     ok2 = 1 \<and> cmd_get_modbus h2 = [x, y, z]"
proof -
  have u: "ucast (ucast v :: u16) = v" for v :: u8 by (rule bit_word_eqI) (auto simp: bit_simps)
  have m: "ok2 = 1 \<and> cmd_get_modbus h2 = [x, y, z]"
  proof -
    let ?g = "set_reg HOLDING_RS485_BAUDRATE (be16_at (drop 1 [x, y, z])) (set_reg HOLDING_SLAVE_ID (ucast x) h)"
    have "ok2 = 1" "h2 = holding_reg_save ?g" using assms(8) by (simp_all add: cmd_set_modbus_def)
    moreover have "get_holding_reg (holding_idx HOLDING_SLAVE_ID) ?g = ucast x"
      "get_holding_reg (holding_idx HOLDING_RS485_BAUDRATE) ?g = be16_at (drop 1 [x, y, z])"
      using assms(4) by (simp_all only: get_set_reg set_reg_length) simp_all
    ultimately show ?thesis using be16_roundtrip [of x y z] by (simp add: cmd_get_modbus_def get_reg8_def u del: holding_idx.simps)
  qed
  show ?thesis
  proof (cases "ip_addr_valid a b c d")
    case False
    then show ?thesis using assms(6) m by (simp add: cmd_set_ip_def)
  next
    case True
    let ?g = "set_reg HOLDING_IP_OCTET4 (ucast d) (set_reg HOLDING_IP_OCTET3 (ucast c)
        (set_reg HOLDING_IP_OCTET2 (ucast b) (set_reg HOLDING_IP_OCTET1 (ucast a) h)))"
    have h': "ok = 1" "h' = holding_reg_save ?g" using assms(6) True by (simp_all add: cmd_set_ip_def)
    have g: "get_holding_reg (holding_idx HOLDING_IP_OCTET1) ?g = ucast a" "get_holding_reg (holding_idx HOLDING_IP_OCTET2) ?g = ucast b"
      "get_holding_reg (holding_idx HOLDING_IP_OCTET3) ?g = ucast c" "get_holding_reg (holding_idx HOLDING_IP_OCTET4) ?g = ucast d"
      using assms(4) by (simp_all only: get_set_reg set_reg_length) simp_all
    have l: "length (holding_reg ?g) = 18" using assms(4) by simp
    then have n: "holding_reg ?g ! 10 = ucast a" "holding_reg ?g ! 11 = ucast b" "holding_reg ?g ! 12 = ucast c" "holding_reg ?g ! 13 = ucast d"
      using g by (simp_all add: get_holding_reg_def)
    have v: "ip_is_valid_for_export ?g" using True by (simp add: ip_is_valid_for_export_def n u)
    have st: "settings_store ?g = settings_store h" by (simp add: set_reg_def update_holding_reg_def)
    have ip: "list_all (\<lambda>i. holding_reg (settings_load nn t) ! i = holding_reg ?g ! i) [10, 11, 12, 13]"
      using settings_reload_ip [OF assms(1), of ?g t] assms(2,3,5,7) v st h' by simp
    have "length (holding_reg (settings_load nn t)) = 18"
      using assms(5) by (simp add: settings_load_length)
    then have "cmd_get_ip (settings_load nn t) = [a, b, c, d]"
      using ip n by (simp add: cmd_get_ip_def get_reg8_def get_holding_reg_def u)
    moreover have "cmd_get_ip h' = [a, b, c, d]" using g h' by (simp add: cmd_get_ip_def get_reg8_def u del: holding_idx.simps)
    ultimately show ?thesis using h' True m by simp
  qed
qed

definition demo_ip :: "u8 \<times> hub_st" where
  "demo_ip = cmd_set_ip [10, 0, 0, 7] (power_on demo_board 0 [(''modbus/his'', [1, 0])])"

definition demo_modbus :: "u8 \<times> hub_st" where
  "demo_modbus = cmd_set_modbus [5, 0x4B, 0] (power_on demo_board 0 [(''modbus/his'', [1, 0])])"

theorem udp_parameters_roundtrip_witness:
  "fst demo_ip = (if ip_addr_valid 10 0 0 7 then 1 else 0) \<and>
     (if fst demo_ip = 1 then cmd_get_ip (snd demo_ip) = [10, 0, 0, 7] \<and>
        cmd_get_ip (settings_load name_next_std (power_on demo_board 9 (settings_store (snd demo_ip)))) = [10, 0, 0, 7]
      else snd demo_ip = power_on demo_board 0 [(''modbus/his'', [1, 0])]) \<and>
     fst demo_modbus = 1 \<and> cmd_get_modbus (snd demo_modbus) = [5, 0x4B, 0]"
  by (rule udp_parameters_roundtrip [OF name_next_std_law])
     (simp_all add: demo_ip_def demo_modbus_def power_on_def no_eq_def, simp_all add: demo_board_def)

section \<open>Restart through the main loop\<close>

text \<open>
  A requested restart happens: if a non-zero value was written to the restart register since the last
  round, the round ends with the restart.  Every round feeds the watchdog once, at its start; until
  the restart nothing feeds it again, so the device restarts this way, and not by the watchdog, exactly
  when the sleeps, the history flush and the log drain together stay below the window.
\<close>
lemma main_loop_live:
  assumes "wdt_channel \<ge> 0" "length (holding_reg (app_hub a)) = 18" "holding_reg (app_hub a) ! 17 = 0" "v \<noteq> 0"
    and "(m', a') = main_round F wdt_channel True T (m, set_hub (snd (holding_reg_wr_cb E 17 v (app_hub a))) a)"
  shows "m_feeds m' = m_feeds m @ [m_now m] \<and> app_rebooted a' \<and>
     (m_now m' - last (m_feeds m') < WDG_TIMEOUT_MS \<longleftrightarrow>
      sleep_ms T 300 + sleep_ms T 2700 + sync_ms T + drain_ms T + sleep_ms T 1000 < WDG_TIMEOUT_MS)"
proof -
  have "get_reboot_status (snd (holding_reg_wr_cb E 17 v (app_hub a)))"
    using assms(2,3,4) by (simp add: holding_reg_wr_cb_def io_write_holding_def io_write_effect_def get_reboot_status_def Let_def)
  then show ?thesis using assms(1,5) by (auto simp: main_round_def Let_def watchdog_feed_def WDG_TIMEOUT_MS_def)
qed

end
