(* ===== verification/FtpPath.thy ===== *)
theory FtpPath imports Prelude begin

text \<open>
  The pure parts of the FTP server (\<open>ftp_server/ftpd.c\<close>): path normalisation and its abstract
  specification on lists of components, the line-end conversions of ASCII transfers and the scanning
  of numbers.  C strings are lists of characters without the terminator; file data are bytes.
\<close>

section \<open>Paths\<close>

definition FTP_ROOT :: string where "FTP_ROOT = ''/lfs1''"
definition FTP_BUF_SIZE :: nat where "FTP_BUF_SIZE = 512"

abbreviation slash :: char where "slash \<equiv> CHR ''/''"

text \<open>One component goes on the stack of at most 16 parts of at most 47 characters.\<close>

definition norm_push :: "string list \<Rightarrow> string \<Rightarrow> string list" where
  "norm_push parts c =
     (if length c = 1 \<and> c ! 0 = CHR ''.'' then parts
      else if length c = 2 \<and> c ! 0 = CHR ''.'' \<and> c ! 1 = CHR ''.'' then (if length parts > 0 then butlast parts else parts)
      else if length parts < 16 then parts @ [take 47 c]
      else parts)"

lemma dropWhile_shorter: "q \<noteq> [] \<Longrightarrow> P (hd q) \<Longrightarrow> length (dropWhile P q) < length q"
  by (cases q) (auto simp: less_Suc_eq_le length_dropWhile_le)

function norm_loop :: "string \<Rightarrow> string list \<Rightarrow> string list" where
  "norm_loop p parts =
     (let q = dropWhile (\<lambda>c. c = slash) p in
      if q = [] then parts
      else norm_loop (dropWhile (\<lambda>c. c \<noteq> slash) q) (norm_push parts (takeWhile (\<lambda>c. c \<noteq> slash) q)))"
  by pat_completeness auto
termination
proof (relation "measure (\<lambda>(p, parts). length p)", goal_cases)
  case (2 p parts q)
  then have "length (dropWhile (\<lambda>c. c \<noteq> slash) q) < length q"
    using hd_dropWhile [of "\<lambda>c. c = slash" p] by (intro dropWhile_shorter) auto
  also have "length q \<le> length p" using 2 by (simp add: length_dropWhile_le)
  finally show ?case by simp
qed simp

declare norm_loop.simps [simp del]

fun norm_emit :: "nat \<Rightarrow> string list \<Rightarrow> string \<Rightarrow> string" where
  "norm_emit outlen [] out = out"
| "norm_emit outlen (p # ps) out =
     (if \<not> length out < outlen - 1 \<or> outlen \<le> length out + length p + 1 then out
      else norm_emit outlen ps (out @ p @ [slash]))"

definition norm_path :: "nat \<Rightarrow> string \<Rightarrow> string \<Rightarrow> string" where
  "norm_path outlen cwd input =
     (let base = (if input \<noteq> [] \<and> input ! 0 = slash then [] else cwd);
          tmp = take 159 (base @ [slash] @ input);
          parts = norm_loop tmp [];
          out = norm_emit outlen parts (if 0 < outlen - 1 then [slash] else []) in
      if 1 < length out \<and> last out = slash then butlast out else out)"

definition fs_path :: "nat \<Rightarrow> string \<Rightarrow> string \<Rightarrow> string" where
  "fs_path outlen cwd client_path = take (outlen - 1) (FTP_ROOT @ norm_path 128 cwd client_path)"

section \<open>The specification of paths\<close>

text \<open>
  An absolute path is the list of its components; a client path is resolved against a directory one
  component at a time.
\<close>

fun split_slash :: "string \<Rightarrow> string list" where
  "split_slash [] = [[]]"
| "split_slash (c # s) = (if c = slash then [] # split_slash s
     else (case split_slash s of [] \<Rightarrow> [[c]] | w # ws \<Rightarrow> (c # w) # ws))"

definition components :: "string \<Rightarrow> string list" where
  "components s = filter (\<lambda>w. w \<noteq> []) (split_slash s)"

definition resolve1 :: "string list \<Rightarrow> string \<Rightarrow> string list" where
  "resolve1 dir c = (if c = ''.'' then dir else if c = ''..'' then butlast dir else dir @ [c])"

definition resolve :: "string list \<Rightarrow> string \<Rightarrow> string list" where
  "resolve dir input = foldl resolve1 (if take 1 input = ''/'' then [] else dir) (components input)"

definition render :: "string list \<Rightarrow> string" where
  "render cs = (if cs = [] then ''/'' else concat (map (\<lambda>c. slash # c) cs))"

definition good_component :: "string \<Rightarrow> bool" where
  "good_component c \<longleftrightarrow> c \<noteq> [] \<and> c \<noteq> ''.'' \<and> c \<noteq> ''..'' \<and> slash \<notin> set c \<and> length c \<le> 47"

section \<open>ASCII transfers\<close>

abbreviation byte_cr :: u8 where "byte_cr \<equiv> 13"
abbreviation byte_lf :: u8 where "byte_lf \<equiv> 10"

fun ascii_crlf :: "bytes \<Rightarrow> bytes" where
  "ascii_crlf [] = []"
| "ascii_crlf (b # bs) = (if b = byte_lf then [byte_cr, b] else [b]) @ ascii_crlf bs"

text \<open>The loop of \<open>ascii_strip_cr\<close>: a CR that is followed by LF in the same block is left out.\<close>

fun strip_loop :: "bytes \<Rightarrow> bytes" where
  "strip_loop [] = []"
| "strip_loop (b # bs) = (if b = byte_cr \<and> bs \<noteq> [] \<and> hd bs = byte_lf then strip_loop bs else b # strip_loop bs)"

definition ascii_strip_cr :: "bytes \<Rightarrow> bool \<Rightarrow> bytes \<times> bool" where
  "ascii_strip_cr buf pending =
     (let start = (if pending \<and> 0 < length buf \<and> buf ! 0 = byte_lf then 1 else 0);
          out = strip_loop (drop start buf) in
      if start < length buf \<and> buf ! (length buf - 1) = byte_cr then (butlast out, True) else (out, False))"

section \<open>Printing and scanning numbers\<close>

definition dec_text :: "nat \<Rightarrow> string" where
  "dec_text n = map (\<lambda>b. char_of (unat b)) (dec n)"

definition is_space :: "char \<Rightarrow> bool" where
  "is_space c \<longleftrightarrow> c = CHR '' '' \<or> c = CHR 0x09 \<or> c = CHR 0x0A \<or> c = CHR 0x0B \<or> c = CHR 0x0C \<or> c = CHR 0x0D"

definition is_digit :: "char \<Rightarrow> bool" where
  "is_digit c \<longleftrightarrow> 48 \<le> (of_char c :: nat) \<and> (of_char c :: nat) \<le> 57"

definition digit_val :: "char \<Rightarrow> nat" where
  "digit_val c = (of_char c :: nat) - 48"

definition digits_val :: "string \<Rightarrow> nat" where
  "digits_val ds = foldl (\<lambda>v c. 10 * v + digit_val c) 0 ds"

text \<open>
  \<open>%u\<close> with at most \<open>width\<close> characters: white space, an optional sign, digits.  What a value beyond
  32 bits converts to is left open by C: \<open>over\<close>.
\<close>

definition scan_u :: "(nat \<Rightarrow> u32) \<Rightarrow> nat \<Rightarrow> string \<Rightarrow> (u32 \<times> string) option" where
  "scan_u over width s =
     (let t = dropWhile is_space s;
          sign = (if t \<noteq> [] \<and> 0 < width \<and> (hd t = CHR ''-'' \<or> hd t = CHR ''+'') then 1 else 0);
          ds = takeWhile is_digit (take (width - sign) (drop sign t));
          v = digits_val ds;
          u = (if v < 2 ^ 32 then of_nat v else over v) in
      if ds = [] then None
      else Some (if sign = 1 \<and> hd t = CHR ''-'' then - u else u, drop (sign + length ds) t))"

definition scan_lit :: "char \<Rightarrow> string \<Rightarrow> string option" where
  "scan_lit c s = (case s of [] \<Rightarrow> None | d # r \<Rightarrow> if d = c then Some r else None)"

end
