(* ===== verification/FtpProps.thy ===== *)
theory FtpProps imports FtpPath begin

text \<open>
  Lemmas about paths and line ends of the FTP server: the scanning loop of \<open>norm_path\<close> is a fold over
  the components, what it emits is the rendering of a list of good components, and the CR/LF
  conversions distribute over blocks.
\<close>

section \<open>Components\<close>

lemma split_slash_neq_Nil [simp]: "split_slash s \<noteq> []"
  by (cases s) (auto split: list.splits)

lemma split_slash_word: "slash \<notin> set w \<Longrightarrow> split_slash w = [w]"
  by (induction w) auto

lemma split_slash_append: "slash \<notin> set w \<Longrightarrow> split_slash (w @ slash # r) = w # split_slash r"
  by (induction w) auto

lemma components_simps [simp]: "components [] = []" "components (slash # s) = components s"
  by (simp_all add: components_def)

lemma components_word: "slash \<notin> set w \<Longrightarrow> w \<noteq> [] \<Longrightarrow> components w = [w]"
  by (simp add: components_def split_slash_word)

lemma components_append: "slash \<notin> set w \<Longrightarrow> w \<noteq> [] \<Longrightarrow> components (w @ slash # r) = w # components r"
  by (simp add: components_def split_slash_append)

lemma components_dropWhile: "components (dropWhile (\<lambda>c. c = slash) p) = components p"
  by (induction p) auto

lemma components_step:
  assumes "q \<noteq> []" "hd q \<noteq> slash"
  shows "components q = takeWhile (\<lambda>c. c \<noteq> slash) q # components (dropWhile (\<lambda>c. c \<noteq> slash) q)"
proof -
  let ?w = "takeWhile (\<lambda>c. c \<noteq> slash) q" and ?r = "dropWhile (\<lambda>c. c \<noteq> slash) q"
  have q: "?w @ ?r = q" and w: "slash \<notin> set ?w" using set_takeWhileD by fastforce+
  have ne: "?w \<noteq> []" using assms by (cases q) auto
  show ?thesis
  proof (cases ?r)
    case Nil
    with q have e: "?w = q" by (metis append_Nil2)
    show ?thesis unfolding Nil using components_word [OF w ne] unfolding e by simp
  next
    case (Cons c r)
    then have "c = slash" using hd_dropWhile [of "\<lambda>c. c \<noteq> slash" q] by auto
    then show ?thesis using q components_append [OF w ne, of r] Cons by simp
  qed
qed

lemma norm_loop_components: "norm_loop p parts = foldl norm_push parts (components p)"
proof (induction p parts rule: norm_loop.induct)
  case (1 p parts)
  let ?q = "dropWhile (\<lambda>c. c = slash) p"
  show ?case
  proof (cases "?q = []")
    case True
    then have "components p = []" using components_dropWhile [of p] components_simps(1) by metis
    with True show ?thesis by (subst norm_loop.simps) (simp add: Let_def del: dropWhile_eq_Nil_conv)
  next
    case False
    then have "hd ?q \<noteq> slash" using hd_dropWhile by blast
    with False components_step [OF False] components_dropWhile [of p]
    have c: "components p = takeWhile (\<lambda>c. c \<noteq> slash) ?q # components (dropWhile (\<lambda>c. c \<noteq> slash) ?q)" by metis
    show ?thesis using 1 [OF refl False] False unfolding c
      by (subst norm_loop.simps) (simp add: Let_def del: dropWhile_eq_Nil_conv)
  qed
qed

lemma components_no_slash: "c \<in> set (components s) \<Longrightarrow> c \<noteq> [] \<and> slash \<notin> set c"
proof -
  have "slash \<notin> set c" if "c \<in> set (split_slash s)" for c
    using that by (induction s arbitrary: c) (auto split: if_splits list.splits)
  then show "c \<in> set (components s) \<Longrightarrow> c \<noteq> [] \<and> slash \<notin> set c" by (auto simp: components_def)
qed

lemma components_concat: "components (xs @ slash # ys) = components xs @ components ys"
proof (induction "length xs" arbitrary: xs rule: less_induct)
  case less
  show ?case
  proof (cases "xs = [] \<or> hd xs = slash")
    case True
    then show ?thesis using less [of "tl xs"] by (cases xs) auto
  next
    case False
    then have ne: "xs \<noteq> []" and h: "hd xs \<noteq> slash" by auto
    let ?P = "\<lambda>c. c \<noteq> slash"
    have sh: "length (dropWhile ?P xs) < length xs" using ne h by (intro dropWhile_shorter)
    have t: "takeWhile ?P (xs @ slash # ys) = takeWhile ?P xs" by (induction xs) auto
    have d: "dropWhile ?P (xs @ slash # ys) = dropWhile ?P xs @ slash # ys"
      by (induction xs) auto
    have "components (xs @ slash # ys) = takeWhile ?P xs # components (dropWhile ?P xs @ slash # ys)"
      using components_step [of "xs @ slash # ys"] ne h t d by simp
    also have "\<dots> = components xs @ components ys"
      using less [OF sh] components_step [OF ne h] by simp
    finally show ?thesis .
  qed
qed

section \<open>Good components\<close>

lemma dot_names:
  "length c = 1 \<and> c ! 0 = CHR ''.'' \<longleftrightarrow> c = ''.''"
  "length c = 2 \<and> c ! 0 = CHR ''.'' \<and> c ! 1 = CHR ''.'' \<longleftrightarrow> c = ''..''"
proof -
  show "length c = 1 \<and> c ! 0 = CHR ''.'' \<longleftrightarrow> c = ''.''"
    by (cases c) auto
  show "length c = 2 \<and> c ! 0 = CHR ''.'' \<and> c ! 1 = CHR ''.'' \<longleftrightarrow> c = ''..''"
  proof (cases c)
    case (Cons a t)
    then show ?thesis by (cases t) auto
  qed simp
qed

lemma norm_push_alt:
  "norm_push parts c = (if c = ''.'' then parts else if c = ''..'' then butlast parts
     else if length parts < 16 then parts @ [take 47 c] else parts)"
  unfolding norm_push_def dot_names by simp

lemma norm_push_keeps:
  assumes "list_all good_component parts" "length parts \<le> 16" "c \<noteq> []" "slash \<notin> set c"
  shows "list_all good_component (norm_push parts c) \<and> length (norm_push parts c) \<le> 16"
proof -
  have t: "c = d" if "take 47 c = d" "length d < 47" for d
  proof -
    have "length c < 47" using that by (metis length_take min_less_iff_conj nat_neq_iff)
    then show "c = d" using that by simp
  qed
  have n: "slash \<notin> set (take 47 c)" using assms(4) in_set_takeD by fast
  have p: "list_all good_component (butlast parts)" using assms(1) by (auto simp: list_all_iff dest: in_set_butlastD)
  have "good_component (take 47 c)" if "c \<noteq> ''.''" "c \<noteq> ''..''"
    using t [of "''.''"] t [of "''..''"] n that assms(3) unfolding good_component_def by auto
  then show ?thesis using assms(1,2) p by (auto simp: norm_push_alt)
qed

lemma norm_fold_keeps:
  assumes "list_all good_component parts" "length parts \<le> 16"
  shows "list_all good_component (foldl norm_push parts (components s)) \<and> length (foldl norm_push parts (components s)) \<le> 16"
proof -
  have "list_all good_component (foldl norm_push parts cs) \<and> length (foldl norm_push parts cs) \<le> 16"
    if "\<And>c. c \<in> set cs \<Longrightarrow> c \<noteq> [] \<and> slash \<notin> set c" for cs
    using that assms
  proof (induction cs arbitrary: parts)
    case (Cons c cs)
    then show ?case using norm_push_keeps [of parts c] by simp
  qed simp
  then show ?thesis using components_no_slash by blast
qed

section \<open>Emitting a path\<close>

definition slashed :: "string list \<Rightarrow> string" where
  "slashed cs = slash # concat (map (\<lambda>c. c @ [slash]) cs)"

lemma slashed_snoc: "slashed (cs @ [c]) = slashed cs @ c @ [slash]"
  by (simp add: slashed_def)

lemma slashed_render: "slashed cs = (if cs = [] then ''/'' else render cs @ [slash])"
proof (induction cs rule: rev_induct)
  case (snoc c cs)
  then show ?case by (cases "cs = []") (simp_all add: slashed_snoc, simp_all add: slashed_def render_def)
qed (simp add: slashed_def)

lemma norm_emit_prefix:
  assumes "length (slashed pre) < outlen"
  shows "\<exists>k. norm_emit outlen ps (slashed pre) = slashed (pre @ take k ps) \<and> length (slashed (pre @ take k ps)) < outlen"
  using assms
proof (induction ps arbitrary: pre)
  case Nil
  then show ?case by (auto intro: exI [of _ 0])
next
  case (Cons p ps)
  show ?case
  proof (cases "\<not> length (slashed pre) < outlen - 1 \<or> outlen \<le> length (slashed pre) + length p + 1")
    case True
    then have "norm_emit outlen (p # ps) (slashed pre) = slashed pre" by simp
    then show ?thesis using Cons.prems by (intro exI [of _ 0]) simp
  next
    case False
    then have "length (slashed (pre @ [p])) < outlen" by (simp add: slashed_snoc)
    from Cons.IH [OF this] obtain k where
      "norm_emit outlen ps (slashed (pre @ [p])) = slashed ((pre @ [p]) @ take k ps)"
      "length (slashed ((pre @ [p]) @ take k ps)) < outlen" by blast
    moreover have "norm_emit outlen (p # ps) (slashed pre) = norm_emit outlen ps (slashed (pre @ [p]))"
      using False by (simp add: slashed_snoc)
    ultimately show ?thesis by (intro exI [of _ "Suc k"]) simp
  qed
qed

lemma norm_emit_all:
  "length (slashed (pre @ ps)) < outlen \<Longrightarrow> norm_emit outlen ps (slashed pre) = slashed (pre @ ps)"
proof (induction ps arbitrary: pre)
  case (Cons p ps)
  have "length (slashed (pre @ [p])) \<le> length (slashed (pre @ p # ps))"
    by (simp add: slashed_def)
  with Cons.prems have l: "length (slashed pre) + length p + 1 < outlen" by (simp add: slashed_snoc)
  have "length (slashed pre) < outlen - 1" using l by linarith
  then show ?case using l Cons.IH [of "pre @ [p]"] Cons.prems by (simp add: slashed_snoc)
qed simp

definition norm_input :: "string \<Rightarrow> string \<Rightarrow> string" where
  "norm_input cwd input = (if take 1 input = ''/'' then [] else cwd) @ [slash] @ input"

lemma render_last: "cs \<noteq> [] \<Longrightarrow> list_all good_component cs \<Longrightarrow> last (render cs) \<noteq> slash"
proof (induction cs rule: rev_induct)
  case (snoc c cs)
  then have "c \<noteq> []" "slash \<notin> set c" by (auto simp: good_component_def)
  then show ?case using last_in_set [of c] by (cases "last c = slash") (simp_all add: render_def)
qed simp

lemma strip_slashed:
  assumes "list_all good_component cs"
  shows "(if 1 < length (slashed cs) \<and> last (slashed cs) = slash then butlast (slashed cs) else slashed cs) = render cs"
proof (cases "cs = []")
  case True
  then show ?thesis by (simp add: slashed_def render_def)
next
  case False
  then have "slashed cs = render cs @ [slash]" "render cs \<noteq> []"
    by (auto simp: slashed_render render_def)
  then show ?thesis by auto
qed

lemma norm_path_alt:
  "2 \<le> outlen \<Longrightarrow> norm_path outlen cwd input =
     (let out = norm_emit outlen (foldl norm_push [] (components (take 159 (norm_input cwd input)))) (slashed []) in
      if 1 < length out \<and> last out = slash then butlast out else out)"
proof -
  have "(input \<noteq> [] \<and> input ! 0 = slash) = (take 1 input = ''/'')" by (cases input) auto
  then show "2 \<le> outlen \<Longrightarrow> ?thesis"
    by (simp add: norm_path_def norm_input_def norm_loop_components slashed_def Let_def)
qed

lemma list_all_take: "list_all P xs \<Longrightarrow> list_all P (take k xs)"
  by (meson in_set_takeD list_all_iff)

lemma norm_path_render:
  assumes "2 \<le> outlen"
  obtains cs where "norm_path outlen cwd input = render cs" "list_all good_component cs" "length cs \<le> 16"
    "length (render cs) < outlen"
proof -
  let ?parts = "foldl norm_push [] (components (take 159 (norm_input cwd input)))"
  have g: "list_all good_component ?parts" "length ?parts \<le> 16"
    using norm_fold_keeps [of "[]"] by simp_all
  have "length (slashed []) < outlen" using assms by (simp add: slashed_def)
  from norm_emit_prefix [OF this, of ?parts] obtain k where
    k: "norm_emit outlen ?parts (slashed []) = slashed (take k ?parts)" "length (slashed (take k ?parts)) < outlen" by auto
  have gk: "list_all good_component (take k ?parts)" using g(1) by (rule list_all_take)
  show ?thesis
  proof (rule that)
    show "norm_path outlen cwd input = render (take k ?parts)"
      unfolding norm_path_alt [OF assms] k(1) Let_def by (rule strip_slashed [OF gk])
    show "length (render (take k ?parts)) < outlen"
      using k(2) assms by (cases "take k ?parts = []") (simp_all add: slashed_render, simp_all add: render_def)
  qed (use gk g(2) in auto)
qed

lemma components_render: "list_all good_component cs \<Longrightarrow> components (render cs) = cs"
proof -
  have c: "components (concat (map (\<lambda>c. slash # c) cs)) = cs" if "list_all good_component cs" for cs
    using that
  proof (induction cs)
    case (Cons c cs)
    then have g: "c \<noteq> []" "slash \<notin> set c" by (auto simp: good_component_def)
    show ?case
    proof (cases cs)
      case Nil
      then show ?thesis using components_word [OF g(2,1)] by simp
    next
      case (Cons d ds)
      then have "components (concat (map (\<lambda>c. slash # c) cs)) = components (d @ concat (map (\<lambda>c. slash # c) ds))" by simp
      then show ?thesis using Cons.IH Cons.prems components_append [OF g(2,1)] Cons by simp
    qed
  qed simp
  show "list_all good_component cs \<Longrightarrow> ?thesis" by (cases "cs = []") (simp_all add: render_def c)
qed

section \<open>Resolution\<close>

lemma foldl_push_good:
  "list_all good_component cs \<Longrightarrow> length parts + length cs \<le> 16 \<Longrightarrow> foldl norm_push parts cs = parts @ cs"
proof (induction cs arbitrary: parts)
  case (Cons c cs)
  then have "norm_push parts c = parts @ [c]" by (simp add: norm_push_alt good_component_def)
  then show ?case using Cons by simp
qed simp

lemma foldl_push_resolve:
  "list_all (\<lambda>c. length c \<le> 47) cs \<Longrightarrow> length parts + length cs \<le> 16 \<Longrightarrow>
   foldl norm_push parts cs = foldl resolve1 parts cs"
proof (induction cs arbitrary: parts)
  case (Cons c cs)
  then have "norm_push parts c = resolve1 parts c" by (simp add: norm_push_alt resolve1_def)
  moreover have "length (resolve1 parts c) \<le> Suc (length parts)" by (auto simp: resolve1_def)
  ultimately show ?case using Cons by simp
qed simp

lemma components_norm_input:
  "components (norm_input cwd input) = (if take 1 input = ''/'' then [] else components cwd) @ components input"
  using components_concat [of "[]" input] components_concat [of cwd input] by (simp add: norm_input_def)

section \<open>Line ends\<close>

lemma crlf_eq_Nil [simp]: "ascii_crlf c = [] \<longleftrightarrow> c = []"
  by (cases c) auto

lemma hd_crlf: "c \<noteq> [] \<Longrightarrow> hd (ascii_crlf c) \<noteq> byte_lf"
  by (cases c) auto

lemma crlf_append: "ascii_crlf (a @ b) = ascii_crlf a @ ascii_crlf b"
  by (induction a) auto

lemma crlf_concat: "concat (map ascii_crlf bs) = ascii_crlf (concat bs)"
  by (induction bs) (auto simp: crlf_append)

lemma strip_crlf [simp]: "strip_loop (ascii_crlf c) = c"
proof (induction c)
  case (Cons b c)
  then show ?case using hd_crlf [of c] by (cases "c = []") auto
qed simp

lemma strip_append:
  "a = [] \<or> last a \<noteq> byte_cr \<Longrightarrow> strip_loop (a @ b) = strip_loop a @ strip_loop b"
proof (induction a)
  case (Cons x a)
  then show ?case by (cases "a = []") auto
qed simp

lemma strip_whole_block:
  "b \<noteq> [] \<Longrightarrow> last b \<noteq> byte_cr \<Longrightarrow> ascii_strip_cr b False = (strip_loop b, False)"
  by (simp add: ascii_strip_cr_def last_conv_nth)

end
