(* ===== verification/FtpServer.thy ===== *)
theory FtpServer imports FtpPath History begin

text \<open>
  The sessions and commands of the FTP server (\<open>ftp_server/ftpd.c\<close>): data connections, listings,
  transfers, the command interpreter and the loop of its thread.  The files are those of the history
  writer's file system, with the further calls the server makes; sockets are the parameter's, over an
  unspecified network state.  A transfer loop that never ends is \<open>None\<close>.
\<close>

section \<open>The services used\<close>

record dirent =
  de_file :: bool
  de_size :: u32
  de_name :: string

record open_flags =
  o_create :: bool
  o_write :: bool
  o_trunc :: bool
  o_append :: bool

datatype rx = Rx bytes | RxAgain | RxError

text \<open>
  A listing is the entries read before an error or the empty name, and \<open>None\<close> if the directory does
  not open.  \<open>after_buf\<close> is the memory behind a session's buffer.
\<close>

record ('w, 'h, 'n) ftp_env =
  hist_fs :: "'w his_fs"
  ff_open :: "string \<Rightarrow> open_flags \<Rightarrow> 'w \<Rightarrow> (int \<times> 'h) \<times> 'w"
  ff_seek :: "'h \<Rightarrow> u32 \<Rightarrow> 'w \<Rightarrow> int \<times> 'h"
  ff_seek_end :: "'h \<Rightarrow> 'w \<Rightarrow> int \<times> 'h"
  ff_read :: "'h \<Rightarrow> nat \<Rightarrow> 'w \<Rightarrow> bytes option \<times> 'h"
  ff_write :: "'h \<Rightarrow> bytes \<Rightarrow> 'w \<Rightarrow> (int \<times> 'h) \<times> 'w"
  ff_close :: "'h \<Rightarrow> 'w \<Rightarrow> 'w"
  ff_stat :: "string \<Rightarrow> 'w \<Rightarrow> dirent option"
  ff_entries :: "string \<Rightarrow> 'w \<Rightarrow> dirent list option"
  ff_unlink :: "string \<Rightarrow> 'w \<Rightarrow> int \<times> 'w"
  ff_mkdir :: "string \<Rightarrow> 'w \<Rightarrow> int \<times> 'w"
  ff_rename :: "string \<Rightarrow> string \<Rightarrow> 'w \<Rightarrow> int \<times> 'w"
  n_socket :: "'n \<Rightarrow> int \<times> 'n"
  n_bind :: "int \<Rightarrow> u16 \<Rightarrow> 'n \<Rightarrow> int \<times> 'n"
  n_listen :: "int \<Rightarrow> int \<Rightarrow> 'n \<Rightarrow> int \<times> 'n"
  n_port :: "int \<Rightarrow> 'n \<Rightarrow> u16"
  n_connect :: "int \<Rightarrow> (u8 \<times> u8 \<times> u8 \<times> u8) \<times> u16 \<Rightarrow> 'n \<Rightarrow> int \<times> 'n"
  n_wait :: "int \<Rightarrow> int \<Rightarrow> 'n \<Rightarrow> bool \<times> 'n"
  n_accept :: "int \<Rightarrow> 'n \<Rightarrow> int \<times> 'n"
  n_send :: "int \<Rightarrow> bytes \<Rightarrow> 'n \<Rightarrow> int \<times> 'n"
  n_recv :: "int \<Rightarrow> nat \<Rightarrow> 'n \<Rightarrow> rx \<times> 'n"
  n_close :: "int \<Rightarrow> 'n \<Rightarrow> 'n"
  n_timeout :: "int \<Rightarrow> int \<Rightarrow> 'n \<Rightarrow> 'n"
  n_local_ip :: "'n \<Rightarrow> (u8 \<times> u8 \<times> u8 \<times> u8) option"
  n_uptime :: "'n \<Rightarrow> int"
  inet_pton :: "string \<Rightarrow> (u8 \<times> u8 \<times> u8 \<times> u8) option"
  scan_over :: "nat \<Rightarrow> u32"
  after_buf :: bytes

record ('w, 'n) ftp_w =
  ftp_his :: "'w his_st"
  ftp_net :: 'n

record ftp_session =
  ctrl :: int
  authed :: bool
  anon :: bool
  data_listen :: int
  data_is_port :: bool
  port_addr :: "(u8 \<times> u8 \<times> u8 \<times> u8) \<times> u16"
  cwd :: string
  type_ascii :: bool
  rest_off :: u32
  rename_from :: string
  rename_pending :: bool
  pending_cr :: bool
  last_activity :: int

definition on_net :: "('n \<Rightarrow> 'a \<times> 'n) \<Rightarrow> ('w, 'n) ftp_w \<Rightarrow> 'a \<times> ('w, 'n) ftp_w" where
  "on_net f W = (fst (f (ftp_net W)), W\<lparr>ftp_net := snd (f (ftp_net W))\<rparr>)"

abbreviation disk :: "('w, 'n) ftp_w \<Rightarrow> 'w" where
  "disk W \<equiv> his_w (ftp_his W)"

definition set_disk :: "'w \<Rightarrow> ('w, 'n) ftp_w \<Rightarrow> ('w, 'n) ftp_w" where
  "set_disk w W = W\<lparr>ftp_his := (ftp_his W)\<lparr>his_w := w\<rparr>\<rparr>"

definition on_disk :: "('w \<Rightarrow> 'a \<times> 'w) \<Rightarrow> ('w, 'n) ftp_w \<Rightarrow> 'a \<times> ('w, 'n) ftp_w" where
  "on_disk f W = (fst (f (disk W)), set_disk (snd (f (disk W))) W)"

definition net_close :: "('w, 'h, 'n) ftp_env \<Rightarrow> int \<Rightarrow> ('w, 'n) ftp_w \<Rightarrow> ('w, 'n) ftp_w" where
  "net_close E d W = W\<lparr>ftp_net := n_close E d (ftp_net W)\<rparr>"

section \<open>Sending\<close>

function send_all :: "('w, 'h, 'n) ftp_env \<Rightarrow> int \<Rightarrow> bytes \<Rightarrow> 'n \<Rightarrow> int \<times> 'n" where
  "send_all E s p n =
     (if p = [] then (0, n)
      else let (k, n) = n_send E s p n in
        if k \<le> 0 then (-1, n) else send_all E s (drop (nat k) p) n)"
  by pat_completeness auto
termination by (relation "measure (\<lambda>(E, s, p, n). length p)") auto

declare send_all.simps [simp del]

definition text_bytes :: "string \<Rightarrow> bytes" where
  "text_bytes t = map of_char t"

definition crlf :: string where "crlf = [CHR 0x0D, CHR 0x0A]"

definition ftp_send :: "('w, 'h, 'n) ftp_env \<Rightarrow> int \<Rightarrow> string \<Rightarrow> ('w, 'n) ftp_w \<Rightarrow> ('w, 'n) ftp_w" where
  "ftp_send E s msg W = snd (on_net (n_send E s (text_bytes (msg @ crlf))) W)"

text \<open>\<open>ftp_sendf\<close> of the formatted text: cut to 509 characters when the line does not fit the buffer.\<close>

definition ftp_sendf :: "('w, 'h, 'n) ftp_env \<Rightarrow> int \<Rightarrow> string \<Rightarrow> ('w, 'n) ftp_w \<Rightarrow> ('w, 'n) ftp_w" where
  "ftp_sendf E s txt W =
     (let len = (if length txt + 2 \<ge> FTP_BUF_SIZE then FTP_BUF_SIZE - 3 else length txt) in
      snd (on_net (n_send E s (text_bytes (take len txt @ crlf))) W))"

definition FTP_CTRL_TIMEOUT_MS :: int where "FTP_CTRL_TIMEOUT_MS = 10000"
definition FTP_DATA_TIMEOUT_MS :: int where "FTP_DATA_TIMEOUT_MS = 15000"

definition set_data_sock_timeout :: "('w, 'h, 'n) ftp_env \<Rightarrow> int \<Rightarrow> ('w, 'n) ftp_w \<Rightarrow> ('w, 'n) ftp_w" where
  "set_data_sock_timeout E d W = W\<lparr>ftp_net := n_timeout E d FTP_DATA_TIMEOUT_MS (ftp_net W)\<rparr>"

definition get_local_ip :: "('w, 'h, 'n) ftp_env \<Rightarrow> ('w, 'n) ftp_w \<Rightarrow> u8 \<times> u8 \<times> u8 \<times> u8" where
  "get_local_ip E W = (case n_local_ip E (ftp_net W) of None \<Rightarrow> (0, 0, 0, 0) | Some a \<Rightarrow> a)"

section \<open>Text\<close>

definition pad_left :: "nat \<Rightarrow> string \<Rightarrow> string" where
  "pad_left n t = replicate (n - length t) CHR '' '' @ t"

definition ftp_months :: "string list" where
  "ftp_months = [''Jan'', ''Feb'', ''Mar'', ''Apr'', ''May'', ''Jun'', ''Jul'', ''Aug'', ''Sep'', ''Oct'', ''Nov'', ''Dec'']"

definition parse_hist_time :: "string \<Rightarrow> (nat \<times> nat \<times> nat \<times> nat) option" where
  "parse_hist_time name =
     (if take 5 name \<noteq> ''data_'' then None
      else case scan_u (\<lambda>_. 0) 2 (drop 5 name) of None \<Rightarrow> None | Some (mo, s1) \<Rightarrow>
        case scan_u (\<lambda>_. 0) 2 s1 of None \<Rightarrow> None | Some (d, s2) \<Rightarrow>
        case scan_lit CHR ''_'' s2 of None \<Rightarrow> None | Some s3 \<Rightarrow>
        case scan_u (\<lambda>_. 0) 2 s3 of None \<Rightarrow> None | Some (h, s4) \<Rightarrow>
        case scan_u (\<lambda>_. 0) 2 s4 of None \<Rightarrow> None | Some (mi, s5) \<Rightarrow>
          if mo < 1 \<or> mo > 12 \<or> d < 1 \<or> d > 31 \<or> h > 23 \<or> mi > 59 then None
          else Some (unat mo, unat d, unat h, unat mi))"

definition ls_time :: "nat \<Rightarrow> int \<Rightarrow> int \<Rightarrow> int \<Rightarrow> string" where
  "ls_time mon day hour minute =
     take 23 (ftp_months ! mon @ '' '' @ pad_left 2 (dec_text (nat day)) @ '' '' @ two_digits hour @ '':'' @ two_digits minute)"

definition format_ls_time :: "('w, 'h, 'n) ftp_env \<Rightarrow> ('w, 'n) ftp_w \<Rightarrow> string \<Rightarrow> string" where
  "format_ls_time E W name =
     (case parse_hist_time name of
        Some (mon, day, hour, minute) \<Rightarrow> ls_time (mon - 1) (int day) (int hour) (int minute)
      | None \<Rightarrow> (case gm_time (hist_fs E) (sys_clock (his_hub (ftp_his W))) of
          None \<Rightarrow> ls_time 0 1 0 0
        | Some (mon, mday, hour, minute, sec) \<Rightarrow> ls_time (nat mon) mday hour minute))"

section \<open>Data connections\<close>

text \<open>What several commands do when they give up: close the passive listener.\<close>

definition close_listen :: "('w, 'h, 'n) ftp_env \<Rightarrow> ftp_session \<times> ('w, 'n) ftp_w \<Rightarrow> ftp_session \<times> ('w, 'n) ftp_w" where
  "close_listen E = (\<lambda>(s, W).
     if data_listen s \<ge> 0 then (s\<lparr>data_listen := -1\<rparr>, net_close E (data_listen s) W) else (s, W))"

definition drop_data :: "('w, 'h, 'n) ftp_env \<Rightarrow> ftp_session \<times> ('w, 'n) ftp_w \<Rightarrow> ftp_session \<times> ('w, 'n) ftp_w" where
  "drop_data E sW = (let (s, W) = close_listen E sW in (s\<lparr>data_is_port := False\<rparr>, W))"

text \<open>The part \<open>cmd_pasv\<close> and \<open>cmd_epsv\<close> share: a new listener on any port, or the reply why not.\<close>

definition passive_listen ::
  "('w, 'h, 'n) ftp_env \<Rightarrow> ftp_session \<Rightarrow> ('w, 'n) ftp_w \<Rightarrow> bool \<times> ftp_session \<times> ('w, 'n) ftp_w" where
  "passive_listen E s W =
     (let W = (if data_listen s \<ge> 0 then net_close E (data_listen s) W else W);
          (fd, W) = on_net (n_socket E) W;
          s = s\<lparr>data_is_port := False, data_listen := fd\<rparr> in
      if fd < 0 then (False, s, ftp_send E (ctrl s) ''425 Cannot open passive connection'' W)
      else let (b, W) = on_net (n_bind E fd 0) W;
               (l, W) = (if b < 0 then (b, W) else on_net (n_listen E fd 1) W) in
        if l < 0 then (False, s\<lparr>data_listen := -1\<rparr>, ftp_send E (ctrl s) ''425 Passive bind failed'' (net_close E fd W))
        else (True, s, W))"

definition dec8 :: "u8 \<Rightarrow> string" where "dec8 b = dec_text (unat b)"

definition cmd_pasv :: "('w, 'h, 'n) ftp_env \<Rightarrow> ftp_session \<Rightarrow> ('w, 'n) ftp_w \<Rightarrow> ftp_session \<times> ('w, 'n) ftp_w" where
  "cmd_pasv E s W =
     (let (ok, s, W) = passive_listen E s W in
      if \<not> ok then (s, W)
      else let port = n_port E (data_listen s) (ftp_net W); (a, b, c, d) = get_local_ip E W in
        (s, ftp_sendf E (ctrl s) (''227 Entering Passive Mode ('' @ dec8 a @ '','' @ dec8 b @ '','' @ dec8 c @ '','' @
              dec8 d @ '','' @ dec_text (unat (drop_bit 8 port)) @ '','' @ dec_text (unat (port AND 0xFF)) @ '')'') W))"

definition cmd_epsv :: "('w, 'h, 'n) ftp_env \<Rightarrow> ftp_session \<Rightarrow> ('w, 'n) ftp_w \<Rightarrow> ftp_session \<times> ('w, 'n) ftp_w" where
  "cmd_epsv E s W =
     (let (ok, s, W) = passive_listen E s W in
      if \<not> ok then (s, W)
      else (s, ftp_sendf E (ctrl s) (''229 Entering Extended Passive Mode (|||'' @
              dec_text (unat (n_port E (data_listen s) (ftp_net W))) @ ''|)'') W))"

text \<open>Numbers separated by commas: \<open>sscanf\<close> stops at the first that does not match.\<close>

fun scan_fields :: "(nat \<Rightarrow> u32) \<Rightarrow> nat \<Rightarrow> string \<Rightarrow> u32 list option" where
  "scan_fields over 0 s = Some []"
| "scan_fields over (Suc k) s =
     (case scan_u over (length s) s of None \<Rightarrow> None
      | Some (v, t) \<Rightarrow>
          if k = 0 then Some [v]
          else case scan_lit CHR '','' t of None \<Rightarrow> None
            | Some t \<Rightarrow> map_option (\<lambda>vs. v # vs) (scan_fields over k t))"

definition cmd_port :: "('w, 'h, 'n) ftp_env \<Rightarrow> string \<Rightarrow> ftp_session \<Rightarrow> ('w, 'n) ftp_w \<Rightarrow> ftp_session \<times> ('w, 'n) ftp_w" where
  "cmd_port E arg s W =
     (case scan_fields (scan_over E) 6 arg of
        None \<Rightarrow> (s, ftp_send E (ctrl s) ''501 Syntax error in parameters'' W)
      | Some v \<Rightarrow>
          let (s, W) = close_listen E (s, W) in
          (s\<lparr>port_addr := ((ucast (v ! 0), ucast (v ! 1), ucast (v ! 2), ucast (v ! 3)),
               ucast ((push_bit 8 (v ! 4)) OR v ! 5)), data_is_port := True\<rparr>,
           ftp_send E (ctrl s) ''200 PORT command successful'' W))"

text \<open>\<open>"|%u|%63[^|]|%u|"\<close>: three conversions suffice, the bar after the last one is not required.\<close>

definition scan_eprt :: "(nat \<Rightarrow> u32) \<Rightarrow> string \<Rightarrow> (u32 \<times> string \<times> u32) option" where
  "scan_eprt over arg =
     (case scan_lit CHR ''|'' arg of None \<Rightarrow> None | Some t0 \<Rightarrow>
      case scan_u over (length t0) t0 of None \<Rightarrow> None | Some (proto, t1) \<Rightarrow>
      case scan_lit CHR ''|'' t1 of None \<Rightarrow> None | Some t2 \<Rightarrow>
        let addr = takeWhile (\<lambda>c. c \<noteq> CHR ''|'') (take 63 t2); t3 = drop (length addr) t2 in
        if addr = [] then None
        else case scan_lit CHR ''|'' t3 of None \<Rightarrow> None | Some t4 \<Rightarrow>
          case scan_u over (length t4) t4 of None \<Rightarrow> None | Some (port, t5) \<Rightarrow> Some (proto, addr, port))"

definition cmd_eprt :: "('w, 'h, 'n) ftp_env \<Rightarrow> string \<Rightarrow> ftp_session \<Rightarrow> ('w, 'n) ftp_w \<Rightarrow> ftp_session \<times> ('w, 'n) ftp_w" where
  "cmd_eprt E arg s W =
     (case scan_eprt (scan_over E) arg of
        None \<Rightarrow> (s, ftp_send E (ctrl s) ''522 Network protocol not supported, use (1)'' W)
      | Some (proto, addr, port) \<Rightarrow>
          if proto \<noteq> 1 then (s, ftp_send E (ctrl s) ''522 Network protocol not supported, use (1)'' W)
          else let (s, W) = close_listen E (s, W) in
            case inet_pton E addr of
              None \<Rightarrow> (s\<lparr>port_addr := ((0, 0, 0, 0), ucast port)\<rparr>, ftp_send E (ctrl s) ''501 Bad address'' W)
            | Some ip \<Rightarrow> (s\<lparr>port_addr := (ip, ucast port), data_is_port := True\<rparr>,
                ftp_send E (ctrl s) ''200 EPRT command successful'' W))"

definition open_data :: "('w, 'h, 'n) ftp_env \<Rightarrow> ftp_session \<Rightarrow> ('w, 'n) ftp_w \<Rightarrow> int \<times> ftp_session \<times> ('w, 'n) ftp_w" where
  "open_data E s W =
     (if data_is_port s
      then let s = s\<lparr>data_is_port := False\<rparr>; (d, W) = on_net (n_socket E) W in
        if d < 0 then (-1, s, W)
        else let (rc, W) = on_net (n_connect E d (port_addr s)) W in
          if rc < 0 then (-1, s, net_close E d W)
          else (d, s, set_data_sock_timeout E d W)
      else if data_listen s < 0 then (-1, s, W)
      else let (ready, W) = on_net (n_wait E (data_listen s) FTP_DATA_TIMEOUT_MS) W in
        if \<not> ready then (-1, s\<lparr>data_listen := -1\<rparr>, net_close E (data_listen s) W)
        else let (d, W) = on_net (n_accept E (data_listen s)) W;
                 W = net_close E (data_listen s) W;
                 s = s\<lparr>data_listen := -1\<rparr> in
          (d, s, if d \<ge> 0 then set_data_sock_timeout E d W else W))"

end
