(* ===== verification/FtpCmds.thy ===== *)
theory FtpCmds imports FtpServer begin

text \<open>
  The commands of the FTP server that move data or change files, the command interpreter
  \<open>handle_command\<close> with every branch, reading a line, and the rounds of the server's thread
  (\<open>ftp_server/ftpd.c\<close>).
\<close>

section \<open>Listings\<close>

text \<open>
  A line is printed to the session buffer and sent with the length \<open>snprintf\<close> returned, which is the
  length of the full line: what does not fit comes from the memory behind the buffer.
\<close>

definition line_bytes :: "('w, 'h, 'n) ftp_env \<Rightarrow> string \<Rightarrow> bytes" where
  "line_bytes E t = take (length t) (text_bytes (take (FTP_BUF_SIZE - 1) t) @ [0] @ after_buf E)"

definition send_data :: "('w, 'h, 'n) ftp_env \<Rightarrow> int \<Rightarrow> bytes \<Rightarrow> ('w, 'n) ftp_w \<Rightarrow> ('w, 'n) ftp_w" where
  "send_data E d p W = snd (on_net (send_all E d p) W)"

definition list_line :: "('w, 'h, 'n) ftp_env \<Rightarrow> ('w, 'n) ftp_w \<Rightarrow> bool \<Rightarrow> dirent \<Rightarrow> string \<Rightarrow> string" where
  "list_line E W long_fmt de name =
     (if long_fmt
      then (if de_file de then ''-rw-r--r--'' else ''drwxr-xr-x'') @ '' 1 owner group '' @
        pad_left 10 (dec_text (unat (de_size de))) @ '' '' @ format_ls_time E W name @ '' '' @ name @ crlf
      else name @ crlf)"

definition base_name :: "string \<Rightarrow> string" where
  "base_name path = rev (takeWhile (\<lambda>c. c \<noteq> slash) (rev path))"

definition cmd_list :: "('w, 'h, 'n) ftp_env \<Rightarrow> string \<Rightarrow> bool \<Rightarrow> ftp_session \<Rightarrow> ('w, 'n) ftp_w \<Rightarrow> ftp_session \<times> ('w, 'n) ftp_w" where
  "cmd_list E path long_fmt s W =
     (let fspath = fs_path FTP_BUF_SIZE (cwd s) path in
      case ff_stat E fspath (disk W) of
        None \<Rightarrow> close_listen E (s, ftp_send E (ctrl s) ''550 No such file or directory'' W)
      | Some de \<Rightarrow>
          let (data, s, W) = open_data E s W in
          if data < 0 then (s, ftp_send E (ctrl s) ''425 No data connection'' W)
          else if de_file de
          then let W = ftp_send E (ctrl s) ''150 Here comes the file listing'' W;
                   W = send_data E data (line_bytes E (list_line E W long_fmt de (base_name path))) W in
            (s, ftp_send E (ctrl s) ''226 Transfer complete'' (net_close E data W))
          else let W = ftp_send E (ctrl s) ''150 Here comes the directory listing'' W;
                   W = (case ff_entries E fspath (disk W) of None \<Rightarrow> W
                     | Some es \<Rightarrow> fold (\<lambda>de W. send_data E data (line_bytes E (list_line E W long_fmt de (de_name de))) W) es W) in
            (s, ftp_send E (ctrl s) ''226 Directory send OK'' (net_close E data W)))"

section \<open>Transfers\<close>

definition rd_flags :: open_flags where
  "rd_flags = \<lparr>o_create = False, o_write = False, o_trunc = False, o_append = False\<rparr>"

text \<open>The loop of \<open>RETR\<close> reads blocks of half a buffer until the end of the file or an error.\<close>

partial_function (option) retr_loop ::
  "('w, 'h, 'n) ftp_env \<Rightarrow> bool \<Rightarrow> int \<Rightarrow> 'w \<Rightarrow> 'h \<Rightarrow> 'n \<Rightarrow> ('h \<times> 'n) option" where
  "retr_loop E ascii data w h n =
     (case ff_read E h (FTP_BUF_SIZE div 2) w of
        (None, h) \<Rightarrow> Some (h, n)
      | (Some b, h) \<Rightarrow>
          if b = [] then Some (h, n)
          else retr_loop E ascii data w h (snd (send_all E data (if ascii then ascii_crlf b else b) n)))"

definition clear_rest :: "ftp_session \<times> 'a \<Rightarrow> ftp_session \<times> 'a" where
  "clear_rest = (\<lambda>(s, W). (s\<lparr>rest_off := 0\<rparr>, W))"

definition close_file :: "('w, 'h, 'n) ftp_env \<Rightarrow> 'h \<Rightarrow> ('w, 'n) ftp_w \<Rightarrow> ('w, 'n) ftp_w" where
  "close_file E h W = set_disk (ff_close E h (disk W)) W"

definition cmd_retr :: "('w, 'h, 'n) ftp_env \<Rightarrow> string \<Rightarrow> ftp_session \<Rightarrow> ('w, 'n) ftp_w \<Rightarrow> (ftp_session \<times> ('w, 'n) ftp_w) option" where
  "cmd_retr E path s W =
     (if \<not> authed s then Some (drop_data E (s, ftp_send E (ctrl s) ''530 Not logged in'' W))
      else
        let ((rc, h), W) = on_disk (ff_open E (fs_path FTP_BUF_SIZE (cwd s) path) rd_flags) W in
        if rc \<noteq> 0 then Some (drop_data E (s, ftp_send E (ctrl s) ''550 Failed to open file'' W))
        else
          let (k, h) = (if rest_off s > 0 then ff_seek E h (rest_off s) (disk W) else (0, h)) in
          if k \<noteq> 0
          then Some (drop_data E (s\<lparr>rest_off := 0\<rparr>, ftp_send E (ctrl s) ''550 Seek failed'' (close_file E h W)))
          else
            let W = ftp_send E (ctrl s) ''150 Opening data connection'' W;
                (data, s, W) = open_data E s W in
            if data < 0
            then Some (clear_rest (s, ftp_send E (ctrl s) ''425 No data connection'' (close_file E h W)))
            else map_option (\<lambda>(h, n).
                clear_rest (s, ftp_send E (ctrl s) ''226 Transfer complete''
                  (net_close E data (close_file E h (W\<lparr>ftp_net := n\<rparr>)))))
              (retr_loop E (type_ascii s) data (disk W) h (ftp_net W)))"

text \<open>The loop of \<open>STOR\<close> and \<open>APPE\<close>, with the pending carriage return of the session.\<close>

partial_function (option) stor_loop ::
  "('w, 'h, 'n) ftp_env \<Rightarrow> bool \<Rightarrow> int \<Rightarrow> bool \<Rightarrow> 'h \<Rightarrow> 'w \<Rightarrow> 'n \<Rightarrow> (bool \<times> 'h \<times> 'w \<times> 'n) option" where
  "stor_loop E ascii data pend h w n =
     (case n_recv E data FTP_BUF_SIZE n of
        (RxAgain, n) \<Rightarrow> Some (pend, h, w, n)
      | (RxError, n) \<Rightarrow> Some (pend, h, w, n)
      | (Rx b, n) \<Rightarrow>
          if b = [] then Some (pend, h, w, n)
          else let (p, pend) = (if ascii then ascii_strip_cr b pend else (b, pend)) in
            if p = [] then stor_loop E ascii data pend h w n
            else let ((wr, h), w) = ff_write E h p w in
              if wr \<noteq> int (length p) then Some (pend, h, w, n) else stor_loop E ascii data pend h w n)"

definition wr_flags :: "bool \<Rightarrow> u32 \<Rightarrow> open_flags" where
  "wr_flags is_appe rest =
     \<lparr>o_create = True, o_write = True, o_trunc = (\<not> is_appe \<and> rest = 0), o_append = is_appe\<rparr>"

definition cmd_stor :: "('w, 'h, 'n) ftp_env \<Rightarrow> string \<Rightarrow> bool \<Rightarrow> ftp_session \<Rightarrow> ('w, 'n) ftp_w \<Rightarrow> (ftp_session \<times> ('w, 'n) ftp_w) option" where
  "cmd_stor E path is_appe s W =
     (if \<not> authed s \<or> anon s then Some (drop_data E (s, ftp_send E (ctrl s) ''530 Permission denied'' W))
      else
        let rest = rest_off s;
            ((rc, h), W) = on_disk (ff_open E (fs_path FTP_BUF_SIZE (cwd s) path) (wr_flags is_appe rest)) W in
        if rc \<noteq> 0 then Some (drop_data E (s, ftp_send E (ctrl s) ''550 Failed to open file'' W))
        else
          let h = (if is_appe then snd (ff_seek_end E h (disk W))
                   else if rest > 0 then snd (ff_seek E h rest (disk W)) else h);
              W = ftp_send E (ctrl s) ''150 Ok to send data'' W;
              (data, s, W) = open_data E s W in
          if data < 0
          then Some (clear_rest (s, ftp_send E (ctrl s) ''425 No data connection'' (close_file E h W)))
          else map_option (\<lambda>(pend, h, w, n).
              clear_rest (s\<lparr>pending_cr := pend\<rparr>, ftp_send E (ctrl s) ''226 Transfer complete''
                (net_close E data (close_file E h ((set_disk w W)\<lparr>ftp_net := n\<rparr>)))))
            (stor_loop E (type_ascii s) data False h (disk W) (ftp_net W)))"

section \<open>The command interpreter\<close>

definition upcase :: "char \<Rightarrow> char" where
  "upcase c = (let v = (of_char c :: nat) in if 97 \<le> v \<and> v \<le> 122 then char_of (v - 32) else c)"

definition cmd_word :: "string \<Rightarrow> string" where
  "cmd_word line = map upcase (take 7 (takeWhile (\<lambda>c. c \<noteq> CHR '' '') line))"

definition cmd_arg :: "string \<Rightarrow> string" where
  "cmd_arg line = drop 1 (dropWhile (\<lambda>c. c \<noteq> CHR '' '') line)"

definition ftp_sync :: "('w, 'h, 'n) ftp_env \<Rightarrow> ('w, 'n) ftp_w \<Rightarrow> ('w, 'n) ftp_w" where
  "ftp_sync E W = (case history_sync (hist_fs E) (\<lambda>_. False) (ftp_his W) of None \<Rightarrow> W | Some h \<Rightarrow> W\<lparr>ftp_his := h\<rparr>)"

definition may_write :: "ftp_session \<Rightarrow> bool" where
  "may_write s \<longleftrightarrow> authed s \<and> \<not> anon s"

text \<open>A guarded change of the file system: -1 without the right to write.\<close>

definition guarded :: "ftp_session \<Rightarrow> ('w \<Rightarrow> int \<times> 'w) \<Rightarrow> ('w, 'n) ftp_w \<Rightarrow> int \<times> ('w, 'n) ftp_w" where
  "guarded s f W = (if \<not> authed s \<or> anon s then (-1, W) else on_disk f W)"

definition FTP_PASS :: string where "FTP_PASS = ''admin''"

definition feat_text :: string where
  "feat_text = ''211-Features:'' @ crlf @ '' SIZE'' @ crlf @ '' PASV'' @ crlf @ '' EPSV'' @ crlf @ '' PORT'' @ crlf @
     '' EPRT'' @ crlf @ '' REST STREAM'' @ crlf @ '' TYPE A;I'' @ crlf @ '' NLST'' @ crlf @ '' MKD'' @ crlf @
     '' RMD'' @ crlf @ ''211 END''"

definition cmd_user :: "string \<Rightarrow> ftp_session \<Rightarrow> ftp_session" where
  "cmd_user arg s = s\<lparr>anon := (arg = ''anonymous'' \<or> arg = ''ftp''), rename_pending := False\<rparr>"

definition cmd_pass :: "string \<Rightarrow> ftp_session \<Rightarrow> string \<times> ftp_session" where
  "cmd_pass arg s =
     (if anon s \<or> arg = FTP_PASS then (''230 Login successful'', s\<lparr>authed := True\<rparr>)
      else (''530 Login incorrect'', s\<lparr>authed := False\<rparr>))"

definition cmd_size :: "('w, 'h, 'n) ftp_env \<Rightarrow> string \<Rightarrow> ftp_session \<Rightarrow> ('w, 'n) ftp_w \<Rightarrow> ftp_session \<times> ('w, 'n) ftp_w" where
  "cmd_size E arg s W =
     (case ff_stat E (fs_path FTP_BUF_SIZE (cwd s) arg) (disk W) of
        None \<Rightarrow> (s, ftp_send E (ctrl s) ''550 Not found'' W)
      | Some ent \<Rightarrow>
          if de_file ent then (s, ftp_sendf E (ctrl s) (''213 '' @ dec_text (unat (de_size ent))) W)
          else (s, ftp_send E (ctrl s) ''550 Not found'' W))"

definition cmd_rest :: "('w, 'h, 'n) ftp_env \<Rightarrow> string \<Rightarrow> ftp_session \<Rightarrow> ('w, 'n) ftp_w \<Rightarrow> ftp_session \<times> ('w, 'n) ftp_w" where
  "cmd_rest E arg s W =
     (let off = (case scan_u (scan_over E) (length arg) arg of None \<Rightarrow> 0 | Some (v, t) \<Rightarrow> v) in
      (s\<lparr>rest_off := off\<rparr>,
       ftp_sendf E (ctrl s) (''350 Restart position accepted ('' @ dec_text (unat off) @ '')'') W))"

definition cmd_rnfr :: "('w, 'h, 'n) ftp_env \<Rightarrow> string \<Rightarrow> ftp_session \<Rightarrow> ('w, 'n) ftp_w \<Rightarrow> ftp_session \<times> ('w, 'n) ftp_w" where
  "cmd_rnfr E arg s W =
     (let fspath = fs_path FTP_BUF_SIZE (cwd s) arg in
      if \<not> authed s \<or> anon s \<or> ff_stat E fspath (disk W) = None
      then (s, ftp_send E (ctrl s) ''550 No such file'' W)
      else (s\<lparr>rename_from := take 127 fspath, rename_pending := True\<rparr>, ftp_send E (ctrl s) ''350 Ready for RNTO'' W))"

definition cmd_rnto :: "('w, 'h, 'n) ftp_env \<Rightarrow> string \<Rightarrow> ftp_session \<Rightarrow> ('w, 'n) ftp_w \<Rightarrow> ftp_session \<times> ('w, 'n) ftp_w" where
  "cmd_rnto E arg s W =
     (let fspath = fs_path FTP_BUF_SIZE (cwd s) arg;
          (rc, W) = (if \<not> rename_pending s \<or> \<not> authed s \<or> anon s then (-1, W)
            else on_disk (ff_rename E (rename_from s) fspath) W) in
      (s\<lparr>rename_pending := False\<rparr>,
       ftp_send E (ctrl s) (if rc = 0 then ''250 Rename successful'' else ''550 Rename failed'') W))"

end
