(* ===== verification/FtpThread.thy ===== *)
theory FtpThread imports FtpCmds begin

text \<open>
  The command interpreter of the FTP server, the reading of a command line and the rounds of its
  thread over the three session slots (\<open>handle_command\<close>, \<open>recv_line\<close>, \<open>close_session\<close> and
  \<open>ftp_thread\<close> of \<open>ftp_server/ftpd.c\<close>).
\<close>

section \<open>One command\<close>

definition reply :: "('w, 'h, 'n) ftp_env \<Rightarrow> ftp_session \<Rightarrow> string \<Rightarrow> ('w, 'n) ftp_w \<Rightarrow> (ftp_session \<times> ('w, 'n) ftp_w) option" where
  "reply E s msg W = Some (s, ftp_send E (ctrl s) msg W)"

definition handle_command :: "('w, 'h, 'n) ftp_env \<Rightarrow> string \<Rightarrow> ftp_session \<Rightarrow> ('w, 'n) ftp_w \<Rightarrow> (ftp_session \<times> ('w, 'n) ftp_w) option" where
  "handle_command E line s W =
     (let cmd = cmd_word line; arg = cmd_arg line;
          s = s\<lparr>last_activity := n_uptime E (ftp_net W)\<rparr> in
      if cmd = ''USER'' then reply E (cmd_user arg s) ''331 Please specify the password'' W
      else if cmd = ''PASS'' then reply E (snd (cmd_pass arg s)) (fst (cmd_pass arg s)) W
      else if cmd = ''SYST'' then reply E s ''215 UNIX Type: L8'' W
      else if cmd = ''FEAT'' then reply E s feat_text W
      else if cmd = ''TYPE'' then reply E (s\<lparr>type_ascii := (take 1 arg = ''A'' \<or> take 1 arg = ''a'')\<rparr>) ''200 Type set'' W
      else if cmd = ''PWD'' then Some (s, ftp_sendf E (ctrl s) (''257 '' @ [CHR 0x22] @ cwd s @ [CHR 0x22] @ '' is the current directory'') W)
      else if cmd = ''CWD'' then reply E (s\<lparr>cwd := norm_path 64 (cwd s) arg\<rparr>) ''250 Directory successfully changed'' W
      else if cmd = ''CDUP'' then reply E (s\<lparr>cwd := norm_path 64 (cwd s) ''..''\<rparr>) ''250 Directory successfully changed'' W
      else if cmd = ''PASV'' then Some (cmd_pasv E s W)
      else if cmd = ''EPSV'' then Some (cmd_epsv E s W)
      else if cmd = ''PORT'' then Some (cmd_port E arg s W)
      else if cmd = ''EPRT'' then Some (cmd_eprt E arg s W)
      else if cmd = ''LIST'' \<or> cmd = ''NLST'' then Some (cmd_list E arg (cmd = ''LIST'') s (ftp_sync E W))
      else if cmd = ''RETR'' then cmd_retr E arg s (ftp_sync E W)
      else if cmd = ''STOR'' \<or> cmd = ''APPE'' then cmd_stor E arg (cmd = ''APPE'') s W
      else if cmd = ''DELE'' then
        let (rc, W) = guarded s (ff_unlink E (fs_path FTP_BUF_SIZE (cwd s) arg)) W in
        reply E s (if rc = 0 then ''250 Delete OK'' else ''550 Delete failed'') W
      else if cmd = ''MKD'' \<or> cmd = ''XMKD'' then
        let (rc, W) = guarded s (ff_mkdir E (fs_path FTP_BUF_SIZE (cwd s) arg)) W in
        if rc = 0 then Some (s, ftp_sendf E (ctrl s) (''257 '' @ [CHR 0x22] @ arg @ [CHR 0x22] @ '' created'') W)
        else reply E s ''550 Cannot create directory'' W
      else if cmd = ''RMD'' \<or> cmd = ''XRMD'' then
        let (rc, W) = guarded s (ff_unlink E (fs_path FTP_BUF_SIZE (cwd s) arg)) W in
        reply E s (if rc = 0 then ''250 Remove OK'' else ''550 Cannot remove directory'') W
      else if cmd = ''SIZE'' then Some (cmd_size E arg s W)
      else if cmd = ''REST'' then Some (cmd_rest E arg s W)
      else if cmd = ''RNFR'' then Some (cmd_rnfr E arg s W)
      else if cmd = ''RNTO'' then Some (cmd_rnto E arg s W)
      else if cmd = ''QUIT'' then
        let W = ftp_send E (ctrl s) ''221 Goodbye'' W in Some (s\<lparr>ctrl := -1\<rparr>, net_close E (ctrl s) W)
      else if cmd = ''NOOP'' \<or> cmd = ''ALLO'' then reply E s ''200 OK'' W
      else reply E s ''502 Command not implemented'' W)"

section \<open>Reading a line\<close>

text \<open>The result is the line read, \<open>Inl True\<close> for a timeout (-1) and \<open>Inl False\<close> for a closed connection.\<close>

function recv_chars :: "('w, 'h, 'n) ftp_env \<Rightarrow> int \<Rightarrow> nat \<Rightarrow> string \<Rightarrow> 'n \<Rightarrow> (bool + string) \<times> 'n" where
  "recv_chars E fd maxlen buf n =
     (if length buf < maxlen - 1
      then (case n_recv E fd 1 n of
          (RxAgain, n) \<Rightarrow> (Inl True, n)
        | (RxError, n) \<Rightarrow> (Inl False, n)
        | (Rx b, n) \<Rightarrow>
            if b = [] then (Inl False, n)
            else if hd b = byte_lf then (Inr buf, n)
            else recv_chars E fd maxlen (buf @ [char_of (unat (hd b))]) n)
      else (Inr buf, n))"
  by pat_completeness auto
termination by (relation "measure (\<lambda>(E, fd, maxlen, buf, n). maxlen - length buf)") auto

declare recv_chars.simps [simp del]

definition strip_eol :: "string \<Rightarrow> string" where
  "strip_eol t = rev (dropWhile (\<lambda>c. c = CHR 0x0D \<or> c = CHR 0x0A) (rev t))"

definition recv_line :: "('w, 'h, 'n) ftp_env \<Rightarrow> int \<Rightarrow> nat \<Rightarrow> 'n \<Rightarrow> (bool + string) \<times> 'n" where
  "recv_line E fd maxlen n = (let (r, n) = recv_chars E fd maxlen [] n in (map_sum id strip_eol r, n))"

text \<open>What \<open>handle_command\<close> sees of the line is the C string in the buffer.\<close>

definition c_string :: "string \<Rightarrow> string" where
  "c_string t = takeWhile (\<lambda>c. c \<noteq> CHR 0x00) t"

section \<open>The thread\<close>

definition FTP_MAX_CLIENTS :: nat where "FTP_MAX_CLIENTS = 3"
definition FTP_SESSION_TIMEOUT_SEC :: int where "FTP_SESSION_TIMEOUT_SEC = 120"

record ('w, 'n) ftp_st =
  sessions :: "ftp_session list"
  world :: "('w, 'n) ftp_w"

definition zero_session :: ftp_session where
  "zero_session = \<lparr>ctrl = 0, authed = False, anon = False, data_listen = 0, data_is_port = False,
     port_addr = ((0, 0, 0, 0), 0), cwd = [], type_ascii = False, rest_off = 0, rename_from = [],
     rename_pending = False, pending_cr = False, last_activity = 0\<rparr>"

definition closed_session :: ftp_session where
  "closed_session = zero_session\<lparr>ctrl := -1, data_listen := -1, cwd := ''/''\<rparr>"

definition close_session :: "('w, 'h, 'n) ftp_env \<Rightarrow> ftp_session \<Rightarrow> ('w, 'n) ftp_w \<Rightarrow> ftp_session \<times> ('w, 'n) ftp_w" where
  "close_session E s W =
     (let W = (if ctrl s \<ge> 0 then net_close E (ctrl s) W else W);
          W = (if data_listen s \<ge> 0 then net_close E (data_listen s) W else W) in
      (closed_session, W))"

text \<open>Before the loop: the slots are made free; the server socket is opened, or the thread ends.\<close>

definition ftp_start :: "('w, 'h, 'n) ftp_env \<Rightarrow> ('w, 'n) ftp_w \<Rightarrow> int option \<times> ('w, 'n) ftp_st" where
  "ftp_start E W =
     (let ss = replicate FTP_MAX_CLIENTS closed_session;
          (serv, W) = on_net (n_socket E) W in
      if serv < 0 then (None, \<lparr>sessions = ss, world = W\<rparr>)
      else let (b, W) = on_net (n_bind E serv 21) W;
               (l, W) = (if b < 0 then (b, W) else on_net (n_listen E serv (int FTP_MAX_CLIENTS)) W) in
        (if l < 0 then None else Some serv, \<lparr>sessions = ss, world = W\<rparr>))"

definition free_slot :: "ftp_session list \<Rightarrow> nat option" where
  "free_slot ss = (case filter (\<lambda>i. ctrl (ss ! i) < 0) [0..<length ss] of [] \<Rightarrow> None | i # js \<Rightarrow> Some i)"

definition ftp_accept :: "('w, 'h, 'n) ftp_env \<Rightarrow> int \<Rightarrow> ('w, 'n) ftp_st \<Rightarrow> ('w, 'n) ftp_st" where
  "ftp_accept E serv st =
     (let (c, W) = on_net (n_accept E serv) (world st) in
      if c < 0 then st\<lparr>world := W\<rparr>
      else case free_slot (sessions st) of
          None \<Rightarrow> st\<lparr>world := net_close E c (snd (on_net (n_send E c (text_bytes (''421 Too many users'' @ crlf))) W))\<rparr>
        | Some i \<Rightarrow>
            let s = zero_session\<lparr>ctrl := c, data_listen := -1, last_activity := n_uptime E (ftp_net W), cwd := ''/''\<rparr>;
                W = W\<lparr>ftp_net := n_timeout E c FTP_CTRL_TIMEOUT_MS (ftp_net W)\<rparr> in
            \<lparr>sessions = (sessions st)[i := s], world = ftp_send E c ''220 io-edge-hub FTP service ready'' W\<rparr>)"

text \<open>One readable session: a line is read and handled, a closed connection ends the session.\<close>

definition serve_session :: "('w, 'h, 'n) ftp_env \<Rightarrow> nat \<Rightarrow> ('w, 'n) ftp_st \<Rightarrow> ('w, 'n) ftp_st option" where
  "serve_session E i st =
     (let s = sessions st ! i;
          (r, W) = on_net (recv_line E (ctrl s) FTP_BUF_SIZE) (world st);
          put = (\<lambda>(s, W). \<lparr>sessions = (sessions st)[i := s], world = W\<rparr>) in
      case r of
        Inl True \<Rightarrow> Some (st\<lparr>world := W\<rparr>)
      | Inl False \<Rightarrow> Some (put (close_session E s W))
      | Inr line \<Rightarrow>
          if line = [] then Some (put (close_session E s W))
          else map_option put (handle_command E (c_string line) s W))"

fun serve_all :: "('w, 'h, 'n) ftp_env \<Rightarrow> (int \<Rightarrow> bool) \<Rightarrow> nat list \<Rightarrow> ('w, 'n) ftp_st \<Rightarrow> ('w, 'n) ftp_st option" where
  "serve_all E ready [] st = Some st"
| "serve_all E ready (i # js) st =
     (if ctrl (sessions st ! i) \<ge> 0 \<and> ready (ctrl (sessions st ! i))
      then (case serve_session E i st of None \<Rightarrow> None | Some st \<Rightarrow> serve_all E ready js st)
      else serve_all E ready js st)"

definition idle_check :: "('w, 'h, 'n) ftp_env \<Rightarrow> int \<Rightarrow> nat \<Rightarrow> ('w, 'n) ftp_st \<Rightarrow> ('w, 'n) ftp_st" where
  "idle_check E now i st =
     (let s = sessions st ! i in
      if ctrl s \<ge> 0 \<and> now - last_activity s > FTP_SESSION_TIMEOUT_SEC * 1000
      then let (s, W) = close_session E s (world st) in \<lparr>sessions = (sessions st)[i := s], world = W\<rparr>
      else st)"

text \<open>
  A round of the loop: \<open>select\<close> returned \<open>n\<close> and the set \<open>ready\<close>, which the descriptors of sessions
  accepted in this round are not in unless the number was in the set.
\<close>

definition ftp_round :: "('w, 'h, 'n) ftp_env \<Rightarrow> int \<Rightarrow> int \<Rightarrow> (int \<Rightarrow> bool) \<Rightarrow> ('w, 'n) ftp_st \<Rightarrow> ('w, 'n) ftp_st option" where
  "ftp_round E serv n ready st =
     (case (if n > 0 then serve_all E ready [0..<FTP_MAX_CLIENTS] (if ready serv then ftp_accept E serv st else st)
            else Some st) of
        None \<Rightarrow> None
      | Some st \<Rightarrow>
          let now = n_uptime E (ftp_net (world st)) in
          Some (fold (idle_check E now) [0..<FTP_MAX_CLIENTS] st))"

text \<open>
  The states the thread can be in when its loop starts a round.  The network and the file system may
  change between rounds; the sessions change only in them.
\<close>

inductive ftp_reach :: "('w, 'h, 'n) ftp_env \<Rightarrow> ('w, 'n) ftp_st \<Rightarrow> bool" for E where
  start: "ftp_start E W = (Some serv, st) \<Longrightarrow> ftp_reach E st"
| other: "ftp_reach E st \<Longrightarrow> ftp_reach E (st\<lparr>world := W\<rparr>)"
| round: "ftp_reach E st \<Longrightarrow> ftp_round E serv n ready st = Some st' \<Longrightarrow> ftp_reach E st'"

end
