(* ===== verification/FtpFrames.thy ===== *)
theory FtpFrames imports FtpProps FtpThread begin

text \<open>
  What each helper and command of the FTP server leaves alone: the files, for everything that only
  talks to the network, and the login of a session, for everything but \<open>USER\<close> and \<open>PASS\<close>.
\<close>

section \<open>The files\<close>

lemma his_on_net [simp]: "ftp_his (snd (on_net f W)) = ftp_his W"
  by (simp add: on_net_def)

lemma his_net_close [simp]: "ftp_his (net_close E d W) = ftp_his W"
  by (simp add: net_close_def)

lemma his_sends [simp]:
  "ftp_his (ftp_send E s m W) = ftp_his W" "ftp_his (ftp_sendf E s m W) = ftp_his W"
  "ftp_his (send_data E d p W) = ftp_his W" "ftp_his (set_data_sock_timeout E d W) = ftp_his W"
  by (simp_all add: ftp_send_def ftp_sendf_def send_data_def set_data_sock_timeout_def Let_def)

lemma his_close_listen [simp]: "ftp_his (snd (close_listen E sW)) = ftp_his (snd sW)"
  by (simp add: close_listen_def case_prod_beta)

lemma his_drop_data [simp]: "ftp_his (snd (drop_data E sW)) = ftp_his (snd sW)"
  by (simp add: drop_data_def case_prod_beta Let_def)

lemma his_passive_listen [simp]: "ftp_his (snd (snd (passive_listen E s W))) = ftp_his W"
  by (simp add: passive_listen_def case_prod_beta Let_def)

lemma his_open_data [simp]: "ftp_his (snd (snd (open_data E s W))) = ftp_his W"
  by (simp add: open_data_def case_prod_beta Let_def)

lemma his_data_cmds [simp]:
  "ftp_his (snd (cmd_pasv E s W)) = ftp_his W" "ftp_his (snd (cmd_epsv E s W)) = ftp_his W"
  by (simp_all add: cmd_pasv_def cmd_epsv_def case_prod_beta Let_def)

lemma his_cmd_port [simp]: "ftp_his (snd (cmd_port E arg s W)) = ftp_his W"
  by (simp add: cmd_port_def case_prod_beta Let_def split: option.split)

lemma his_cmd_eprt [simp]: "ftp_his (snd (cmd_eprt E arg s W)) = ftp_his W"
  by (simp add: cmd_eprt_def case_prod_beta Let_def split: option.split)

lemma his_fold_send: "ftp_his (fold (\<lambda>de W. send_data E d (g de W) W) es W) = ftp_his W"
  by (induction es arbitrary: W) simp_all

lemma his_cmd_list [simp]: "ftp_his (snd (cmd_list E arg l s W)) = ftp_his W"
  by (simp add: cmd_list_def case_prod_beta Let_def his_fold_send split: option.split)

lemma his_cmd_size [simp]: "ftp_his (snd (cmd_size E arg s W)) = ftp_his W"
  by (simp add: cmd_size_def split: option.split)

lemma his_cmd_rest [simp]: "ftp_his (snd (cmd_rest E arg s W)) = ftp_his W"
  by (simp add: cmd_rest_def Let_def)

lemma his_cmd_rnfr [simp]: "ftp_his (snd (cmd_rnfr E arg s W)) = ftp_his W"
  by (simp add: cmd_rnfr_def Let_def)

lemma his_cmd_rnto [simp]: "\<not> may_write s \<Longrightarrow> ftp_his (snd (cmd_rnto E arg s W)) = ftp_his W"
  by (auto simp: cmd_rnto_def Let_def may_write_def)

lemma guarded_refused [simp]: "\<not> may_write s \<Longrightarrow> guarded s f W = (-1, W)"
  by (auto simp: guarded_def may_write_def)

lemma his_cmd_stor: "\<not> may_write s \<Longrightarrow> cmd_stor E arg a s W = Some r \<Longrightarrow> ftp_his (snd r) = ftp_his W"
  by (auto simp: cmd_stor_def may_write_def)

text \<open>A file opened for reading: opening, seeking, reading and closing it change no file.\<close>

definition read_law :: "('w, 'h, 'n) ftp_env \<Rightarrow> ('h \<Rightarrow> bool) \<Rightarrow> bool" where
  "read_law E rh \<longleftrightarrow>
     (\<forall>p w. snd (ff_open E p rd_flags w) = w \<and> rh (snd (fst (ff_open E p rd_flags w)))) \<and>
     (\<forall>h k w. rh h \<longrightarrow> rh (snd (ff_seek E h k w))) \<and> (\<forall>h k w. rh h \<longrightarrow> rh (snd (ff_read E h k w))) \<and>
     (\<forall>h w. rh h \<longrightarrow> ff_close E h w = w)"

lemma retr_loop_handle:
  "retr_loop E ascii d w h n = Some r \<Longrightarrow> read_law E rh \<Longrightarrow> rh h \<Longrightarrow> rh (fst r)"
proof -
  have "read_law E rh \<longrightarrow> rh h \<longrightarrow> rh (fst r)" if "retr_loop E ascii d w h n = Some r"
  proof (rule retr_loop.raw_induct [OF _ that, where P = "\<lambda>E ascii d w h n r. read_law E rh \<longrightarrow> rh h \<longrightarrow> rh (fst r)"])
    fix f E' a d' w' h n r
    assume IH: "\<And>E ascii d w h n r. f E ascii d w h n = Some r \<Longrightarrow> read_law E rh \<longrightarrow> rh h \<longrightarrow> rh (fst r)"
      and eq: "(case ff_read E' h (FTP_BUF_SIZE div 2) w' of
        (None, h) \<Rightarrow> Some (h, n)
      | (Some b, h) \<Rightarrow>
          if b = [] then Some (h, n)
          else f E' a d' w' h (snd (send_all E' d' (if a then ascii_crlf b else b) n))) = Some r"
    show "read_law E' rh \<longrightarrow> rh h \<longrightarrow> rh (fst r)"
    proof (intro impI)
      assume l: "read_law E' rh" "rh h"
      obtain b h' where r: "ff_read E' h (FTP_BUF_SIZE div 2) w' = (b, h')" by fastforce
      have "rh h'" using l r unfolding read_law_def by (metis snd_conv)
      then show "rh (fst r)" using eq r l IH by (auto split: option.splits if_splits)
    qed
  qed
  then show "retr_loop E ascii d w h n = Some r \<Longrightarrow> read_law E rh \<Longrightarrow> rh h \<Longrightarrow> rh (fst r)" by blast
qed

lemma set_disk_same [simp]: "set_disk (disk W) W = W"
  by (simp add: set_disk_def)

lemma his_set_disk: "ftp_his (set_disk w W) = (ftp_his W)\<lparr>his_w := w\<rparr>"
  by (simp add: set_disk_def)

lemma his_cmd_retr:
  assumes "read_law E rh" "cmd_retr E arg s W = Some r"
  shows "ftp_his (snd r) = ftp_his W"
proof -
  let ?o = "ff_open E (fs_path FTP_BUF_SIZE (cwd s) arg) rd_flags (disk W)"
  have o: "snd ?o = disk W" "rh (snd (fst ?o))" using assms(1) by (auto simp: read_law_def)
  have seek: "rh (snd (if k > 0 then ff_seek E (snd (fst ?o)) k (disk W) else (0, snd (fst ?o))))" for k
    using assms(1) o(2) by (simp add: read_law_def)
  have close: "rh h \<Longrightarrow> ff_close E h w = w" for h w using assms(1) by (simp add: read_law_def)
  show ?thesis using assms(2) retr_loop_handle [OF _ assms(1)] o seek [of "rest_off s"]
    by (auto simp: cmd_retr_def on_disk_def case_prod_beta Let_def clear_rest_def close_file_def close his_set_disk
        split: if_splits)
qed

section \<open>The login and the names of a session\<close>

definition core :: "ftp_session \<Rightarrow> (bool \<times> bool) \<times> string \<times> string \<times> bool" where
  "core s = ((authed s, anon s), cwd s, rename_from s, rename_pending s)"

abbreviation login :: "ftp_session \<Rightarrow> bool \<times> bool" where
  "login s \<equiv> fst (core s)"

lemma may_write_login: "may_write s \<longleftrightarrow> login s = (True, False)"
  by (simp add: may_write_def core_def)

lemma core_close_listen [simp]: "core (fst (close_listen E sW)) = core (fst sW)"
  by (simp add: close_listen_def core_def case_prod_beta)

lemma core_drop_data [simp]: "core (fst (drop_data E sW)) = core (fst sW)"
  using core_close_listen [of E sW] by (simp add: drop_data_def core_def case_prod_beta Let_def)

lemma core_passive_listen [simp]: "core (fst (snd (passive_listen E s W))) = core s"
  by (simp add: passive_listen_def core_def case_prod_beta Let_def)

lemma core_open_data [simp]: "core (fst (snd (open_data E s W))) = core s"
  by (simp add: open_data_def core_def case_prod_beta Let_def)

lemma core_data_cmds [simp]:
  "core (fst (cmd_pasv E s W)) = core s" "core (fst (cmd_epsv E s W)) = core s"
  by (simp_all add: cmd_pasv_def cmd_epsv_def case_prod_beta Let_def)

lemma core_update [simp]:
  "core (s\<lparr>ctrl := c\<rparr>) = core s" "core (s\<lparr>data_listen := c\<rparr>) = core s"
  "core (s\<lparr>data_is_port := b\<rparr>) = core s" "core (s\<lparr>port_addr := a\<rparr>) = core s"
  "core (s\<lparr>type_ascii := b\<rparr>) = core s" "core (s\<lparr>rest_off := k\<rparr>) = core s"
  "core (s\<lparr>pending_cr := b\<rparr>) = core s" "core (s\<lparr>last_activity := t\<rparr>) = core s"
  by (simp_all add: core_def)

lemma core_cmd_port [simp]: "core (fst (cmd_port E arg s W)) = core s"
  using core_close_listen [of E "(s, W)"] by (simp add: cmd_port_def case_prod_beta Let_def split: option.split)

lemma core_cmd_eprt [simp]: "core (fst (cmd_eprt E arg s W)) = core s"
  using core_close_listen [of E "(s, W)"] by (simp add: cmd_eprt_def case_prod_beta Let_def split: option.split)

lemma core_cmd_list [simp]: "core (fst (cmd_list E arg l s W)) = core s"
  by (simp add: cmd_list_def case_prod_beta Let_def split: option.split)

lemma core_cmd_misc [simp]:
  "core (fst (cmd_size E arg s W)) = core s" "core (fst (cmd_rest E arg s W)) = core s"
  by (simp_all add: cmd_size_def cmd_rest_def Let_def split: option.split)

lemma core_cmd_retr: "cmd_retr E arg s W = Some r \<Longrightarrow> core (fst r) = core s"
  by (auto simp: cmd_retr_def case_prod_beta Let_def clear_rest_def split: if_splits)

lemma core_cmd_stor: "cmd_stor E arg a s W = Some r \<Longrightarrow> core (fst r) = core s"
  by (auto simp: cmd_stor_def case_prod_beta Let_def clear_rest_def split: if_splits)

text \<open>What one command does to the login and the names.\<close>

lemma handle_core:
  assumes "handle_command E line s W = Some r"
  shows "core (fst r) =
    (let cmd = cmd_word line; arg = cmd_arg line in
     if cmd = ''USER'' then ((authed s, arg = ''anonymous'' \<or> arg = ''ftp''), cwd s, rename_from s, False)
     else if cmd = ''PASS'' then ((anon s \<or> arg = ''admin'', anon s), cwd s, rename_from s, rename_pending s)
     else if cmd = ''CWD'' then (login s, norm_path 64 (cwd s) arg, rename_from s, rename_pending s)
     else if cmd = ''CDUP'' then (login s, norm_path 64 (cwd s) ''..'', rename_from s, rename_pending s)
     else if cmd = ''RNFR'' \<and> may_write s \<and> ff_stat E (fs_path FTP_BUF_SIZE (cwd s) arg) (disk W) \<noteq> None
       then (login s, cwd s, take 127 (fs_path FTP_BUF_SIZE (cwd s) arg), True)
     else if cmd = ''RNTO'' then (login s, cwd s, rename_from s, False)
     else core s)"
proof -
  define s' where "s' = s\<lparr>last_activity := n_uptime E (ftp_net W)\<rparr>"
  have e: "authed s' = authed s" "anon s' = anon s" "cwd s' = cwd s" "rename_from s' = rename_from s"
    "rename_pending s' = rename_pending s" by (simp_all add: s'_def)
  have c: "core s = core s'" by (simp add: s'_def)
  note eq = assms [unfolded handle_command_def Let_def, folded s'_def]
  show ?thesis
  proof (cases "cmd_word line \<in> {''USER'', ''PASS'', ''CWD'', ''CDUP'', ''RNFR'', ''RNTO''}")
    case True
    then consider "cmd_word line = ''USER''" | "cmd_word line = ''PASS''" | "cmd_word line = ''CWD''"
      | "cmd_word line = ''CDUP''" | "cmd_word line = ''RNFR''" | "cmd_word line = ''RNTO''" by blast
    then show ?thesis
    proof cases
      case 2
      then have "fst r = snd (cmd_pass (cmd_arg line) s')" using eq by (auto simp: reply_def)
      then show ?thesis using 2 by (simp add: cmd_pass_def core_def e FTP_PASS_def)
    next
      case 5
      then have "fst r = fst (cmd_rnfr E (cmd_arg line) s' W)" using eq by simp
      then show ?thesis using 5 by (simp add: cmd_rnfr_def core_def e may_write_def Let_def)
    next
      case 6
      then have "fst r = fst (cmd_rnto E (cmd_arg line) s' W)" using eq by simp
      then show ?thesis using 6 by (simp add: cmd_rnto_def core_def e case_prod_beta Let_def)
    qed (use eq in \<open>auto simp: reply_def cmd_user_def core_def e Let_def\<close>)
  next
    case False
    then have "core (fst r) = core s'" using eq
      by (auto simp: reply_def case_prod_beta dest!: core_cmd_retr core_cmd_stor split: if_splits)
    then show ?thesis using False c by auto
  qed
qed

end
