(* ===== verification/FtpDemo.thy ===== *)
theory FtpDemo imports FtpFrames HistoryTheorems begin

text \<open>
  An in-memory file system and network for the FTP server, on which the properties are evaluated: a
  file handle carries its path, what is left to read, its position and whether it was opened to append; a
  network state what was sent and what will be received on each descriptor; sends accept at most 100
  bytes at a time.
\<close>

record mem_net =
  net_out :: "int \<Rightarrow> bytes"
  net_in :: "int \<Rightarrow> bytes list"
  net_next :: int

definition mem_content :: "string \<Rightarrow> mem_fs \<Rightarrow> bytes" where
  "mem_content p w = (case mem_data w p of None \<Rightarrow> [] | Some d \<Rightarrow> d)"

definition mem_put :: "string \<Rightarrow> bytes \<Rightarrow> mem_fs \<Rightarrow> mem_fs" where
  "mem_put p d w = w\<lparr>mem_files := (p, d) # filter (\<lambda>e. fst e \<noteq> p) (mem_files w)\<rparr>"

lemma mem_content_put [simp]: "mem_content p (mem_put p d w) = d"
  by (simp add: mem_content_def mem_data_def mem_put_def)

text \<open>
  Writing \<open>d\<close> into a file at a position: it replaces what is there and extends the file, and what lies
  behind stays.
\<close>

definition write_at :: "bytes \<Rightarrow> nat \<Rightarrow> bytes \<Rightarrow> bytes" where
  "write_at c k d = take k c @ d @ drop (k + length d) c"

type_synonym mem_handle = "string \<times> bytes \<times> nat \<times> bool"

definition handle_pos :: "mem_handle \<Rightarrow> mem_fs \<Rightarrow> nat" where
  "handle_pos = (\<lambda>(p, c, k, a) w. if a then length (mem_content p w) else k)"

definition demo_ftp :: "(mem_fs, mem_handle, mem_net) ftp_env" where
  "demo_ftp = \<lparr>hist_fs = mem_his_fs,
     ff_open = (\<lambda>p f w. if o_create f
       then ((0, (p, [], 0, o_append f)), mem_put p (if o_trunc f then [] else mem_content p w) w)
       else if mem_data w p = None then ((- ENOENT, (p, [], 0, o_append f)), w)
       else ((0, (p, mem_content p w, 0, o_append f)), w)),
     ff_seek = (\<lambda>(p, c, j, a) k w. (0, (p, drop (unat k) (mem_content p w), unat k, a))),
     ff_seek_end = (\<lambda>(p, c, j, a) w. (0, (p, [], length (mem_content p w), a))),
     ff_read = (\<lambda>(p, c, j, a) k w. (Some (take k c), (p, drop k c, j + min k (length c), a))),
     ff_write = (\<lambda>h d w. case h of (p, c, j, a) \<Rightarrow>
       ((int (length d), (p, drop (length d) c, handle_pos h w + length d, a)),
        mem_put p (write_at (mem_content p w) (handle_pos h w) d) w)),
     ff_close = (\<lambda>h w. w),
     ff_stat = (\<lambda>p w. map_option (\<lambda>d. \<lparr>de_file = True, de_size = of_nat (length d), de_name = drop 6 p\<rparr>) (mem_data w p)),
     ff_entries = (\<lambda>p w. Some (map (\<lambda>e. \<lparr>de_file = True, de_size = of_nat (length (snd e)), de_name = drop 6 (fst e)\<rparr>) (mem_files w))),
     ff_unlink = (\<lambda>p w. if mem_data w p = None then (- ENOENT, w) else (0, w\<lparr>mem_files := filter (\<lambda>e. fst e \<noteq> p) (mem_files w)\<rparr>)),
     ff_mkdir = (\<lambda>p w. (0, w)),
     ff_rename = (\<lambda>p q w. (0, mem_put q (mem_content p w) (w\<lparr>mem_files := filter (\<lambda>e. fst e \<noteq> p) (mem_files w)\<rparr>))),
     n_socket = (\<lambda>n. (net_next n, n\<lparr>net_next := net_next n + 1\<rparr>)),
     n_bind = (\<lambda>d p n. (0, n)), n_listen = (\<lambda>d k n. (0, n)), n_port = (\<lambda>d n. 50000),
     n_connect = (\<lambda>d a n. (0, n)), n_wait = (\<lambda>d t n. (True, n)),
     n_accept = (\<lambda>d n. (net_next n, n\<lparr>net_next := net_next n + 1\<rparr>)),
     n_send = (\<lambda>d p n. (int (min 100 (length p)), n\<lparr>net_out := (net_out n)(d := net_out n d @ take (min 100 (length p)) p)\<rparr>)),
     n_recv = (\<lambda>d k n. case net_in n d of [] \<Rightarrow> (Rx [], n) | b # bs \<Rightarrow> (Rx b, n\<lparr>net_in := (net_in n)(d := bs)\<rparr>)),
     n_close = (\<lambda>d n. n), n_timeout = (\<lambda>d t n. n), n_local_ip = (\<lambda>n. Some (192, 168, 12, 101)), n_uptime = (\<lambda>n. 1000),
     inet_pton = (\<lambda>a. None), scan_over = (\<lambda>v. 0), after_buf = []\<rparr>"

definition demo_world :: "(string \<times> bytes) list \<Rightarrow> (int \<Rightarrow> bytes list) \<Rightarrow> (mem_fs, mem_net) ftp_w" where
  "demo_world fs ins = \<lparr>ftp_his = (demo_his fs [] 0)\<lparr>lfs_mounted := False\<rparr>,
     ftp_net = \<lparr>net_out = (\<lambda>_. []), net_in = ins, net_next = 6\<rparr>\<rparr>"

text \<open>A session on descriptor 4 with the passive listener 5 open.\<close>

definition demo_session :: "bool \<Rightarrow> ftp_session" where
  "demo_session ascii = closed_session\<lparr>ctrl := 4, data_listen := 5, authed := True, type_ascii := ascii\<rparr>"

lemma demo_read_law: "read_law demo_ftp (\<lambda>_. True)"
  by (simp add: read_law_def demo_ftp_def rd_flags_def)

end
