(* ===== verification/FtpTheorems.thy ===== *)
theory FtpTheorems imports FtpDemo begin

text \<open>
  Properties of the FTP server: paths stay below the root and resolve as specified, a session without
  the right to write changes no file, transfers carry the file, and the sessions stay well formed.
\<close>

section \<open>Paths\<close>

text \<open>
  C11. A client cannot leave the FTP root: whatever working directory and argument it sends (dots,
  slashes, over-long or deeply nested names), the path handed to the file system is the root followed by
  at most 127 characters of ordinary components - none empty, `.`, `..` or longer than 47 characters -
  and the working directory it can set is such a path that fits its 64-byte field.
\<close>
theorem ftp_paths_stay_inside:
  "(let p = fs_path FTP_BUF_SIZE dir arg; q = drop 5 p; d = norm_path 64 dir arg in
     take 5 p = FTP_ROOT \<and> length q < 128 \<and> q = render (components q) \<and> list_all good_component (components q) \<and>
     length d < 64 \<and> d = render (components d) \<and> list_all good_component (components d))"
proof -
  obtain cs where c: "norm_path 128 dir arg = render cs" "list_all good_component cs" "length (render cs) < 128"
    using norm_path_render [of 128 dir arg] by auto
  obtain ds where d: "norm_path 64 dir arg = render ds" "list_all good_component ds" "length (render ds) < 64"
    using norm_path_render [of 64 dir arg] by auto
  have "fs_path FTP_BUF_SIZE dir arg = FTP_ROOT @ render cs"
    using c by (simp add: fs_path_def FTP_BUF_SIZE_def FTP_ROOT_def)
  then show ?thesis using c d components_render [OF c(2)] components_render [OF d(2)]
    by (simp add: FTP_ROOT_def)
qed

text \<open>
  C13. Path resolution refines its specification: for a client path that fits the limits (the joined text
  in 159 characters, components of at most 47, at most 16 deep, the result within the buffer), the
  normalised path denotes exactly the directory obtained by walking the components one by one from the
  working directory, or from the root for an absolute path.
\<close>
theorem ftp_path_resolution:
  assumes "list_all good_component dir" "2 \<le> outlen"
    and "length (norm_input (render dir) arg) \<le> 159"
    and "list_all (\<lambda>c. length c \<le> 47) (components arg)" "length dir + length (components arg) \<le> 16"
    and "length (render (resolve dir arg)) + 1 < outlen"
  shows "components (norm_path outlen (render dir) arg) = resolve dir arg \<and>
    norm_path outlen (render dir) arg = render (resolve dir arg)"
proof -
  let ?base = "if take 1 arg = ''/'' then [] else dir"
  have b: "length ?base \<le> length dir" "list_all good_component ?base" using assms(1) by simp_all
  have l: "length dir + length (components arg) \<le> 16" "length ?base \<le> 16" using assms(5) b by linarith+
  have "components (take 159 (norm_input (render dir) arg)) = ?base @ components arg"
    using assms(3) by (simp add: components_norm_input components_render [OF assms(1)])
  then have parts: "foldl norm_push [] (components (take 159 (norm_input (render dir) arg))) = resolve dir arg"
    using foldl_push_good [OF b(2), of "[]"] foldl_push_resolve [OF assms(4), of ?base] b(1) l
    by (simp add: resolve_def)
  have good: "list_all good_component (resolve dir arg)"
    using norm_fold_keeps [of "[]" "take 159 (norm_input (render dir) arg)"] parts by simp
  have "length (slashed (resolve dir arg)) < outlen"
    using assms(6) by (cases "resolve dir arg = []") (simp_all add: slashed_render)
  from norm_emit_all [of "[]" "resolve dir arg" outlen] this
  have "norm_emit outlen (resolve dir arg) (slashed []) = slashed (resolve dir arg)" by simp
  then have "norm_path outlen (render dir) arg = render (resolve dir arg)"
    unfolding norm_path_alt [OF assms(2)] parts Let_def by (simp only: strip_slashed [OF good])
  then show ?thesis using components_render [OF good] by simp
qed

theorem ftp_path_resolution_witness:
  "components (norm_path 64 (render [''hist'', ''old'']) ''../new/./a.raw'') = [''hist'', ''new'', ''a.raw''] \<and>
   norm_path 64 (render [''hist'', ''old'']) ''../new/./a.raw'' = ''/hist/new/a.raw''"
proof -
  have r: "resolve [''hist'', ''old''] ''../new/./a.raw'' = [''hist'', ''new'', ''a.raw'']"
    by (simp add: resolve_def resolve1_def components_def)
  show ?thesis
    using ftp_path_resolution [of "[''hist'', ''old'']" 64 "''../new/./a.raw''"]
    by (simp add: r good_component_def norm_input_def render_def) (simp add: components_def)
qed

section \<open>The right to write\<close>

lemma handle_login:
  assumes "handle_command E line s W = Some r"
  shows "login (fst r) =
    (if cmd_word line = ''USER'' then (authed s, cmd_arg line = ''anonymous'' \<or> cmd_arg line = ''ftp'')
     else if cmd_word line = ''PASS'' then (anon s \<or> cmd_arg line = ''admin'', anon s)
     else login s)"
  by (simp add: handle_core [OF assms] Let_def)

lemma handle_files:
  assumes "read_law E rh" "\<not> may_write s" "handle_command E line s W = Some r"
  shows "ftp_his (snd r) =
    (if cmd_word line = ''LIST'' \<or> cmd_word line = ''NLST'' \<or> cmd_word line = ''RETR'' then ftp_his (ftp_sync E W) else ftp_his W)"
proof -
  define s' where "s' = s\<lparr>last_activity := n_uptime E (ftp_net W)\<rparr>"
  have l: "\<not> may_write s'" using assms(2) by (simp add: s'_def may_write_login)
  show ?thesis using assms(3) l unfolding handle_command_def s'_def [symmetric] Let_def
    by (auto simp: reply_def case_prod_beta dest!: his_cmd_retr [OF assms(1)] his_cmd_stor [OF l] split: if_splits)
qed

text \<open>
  C12. A client that has not logged in with the password changes no file: whatever command line it sends,
  the file system is left as it was, except that LIST, NLST and RETR first flush the pending history
  records as they do for everyone.  It gets the right to write only by `PASS` with the password - or,
  and this is not intended, by a `USER` command once it is logged in as anonymous.
\<close>
theorem ftp_no_write_without_login:
  assumes "read_law E rh" "\<not> may_write s" "handle_command E line s W = Some (s', W')"
  shows "ftp_his W' = (if cmd_word line \<in> {''LIST'', ''NLST'', ''RETR''} then ftp_his (ftp_sync E W) else ftp_his W) \<and>
    (may_write s' \<longleftrightarrow> cmd_word line = ''PASS'' \<and> \<not> anon s \<and> cmd_arg line = FTP_PASS \<or>
       cmd_word line = ''USER'' \<and> authed s \<and> cmd_arg line \<notin> {''anonymous'', ''ftp''})"
  using handle_files [OF assms] handle_login [OF assms(3)] assms(2)
  by (auto simp: may_write_login core_def FTP_PASS_def)

theorem ftp_no_write_without_login_witness:
  "(let s = (demo_session False)\<lparr>authed := False\<rparr>; W = demo_world [(''/lfs1/a'', [1])] (\<lambda>_. []);
       r = handle_command demo_ftp ''DELE a'' s W in
     r \<noteq> None \<and> ftp_his (snd (the r)) = ftp_his W \<and> \<not> may_write (fst (the r)))"
proof -
  let ?s = "(demo_session False)\<lparr>authed := False\<rparr>" and ?W = "demo_world [(''/lfs1/a'', [1])] (\<lambda>_. [])"
  have w: "cmd_word ''DELE a'' = ''DELE''" by code_simp
  have n: "\<not> may_write ?s" by (simp add: may_write_def)
  obtain s' W' where h: "handle_command demo_ftp ''DELE a'' ?s ?W = Some (s', W')"
    by (simp add: handle_command_def w Let_def reply_def case_prod_beta)
  show ?thesis using ftp_no_write_without_login [OF demo_read_law n h] by (simp add: h w)
qed

text \<open>The commands of one session, one after the other.\<close>

fun ftp_script :: "('w, 'h, 'n) ftp_env \<Rightarrow> string list \<Rightarrow> ftp_session \<times> ('w, 'n) ftp_w \<Rightarrow> (ftp_session \<times> ('w, 'n) ftp_w) option" where
  "ftp_script E [] sW = Some sW"
| "ftp_script E (l # ls) sW = (case handle_command E l (fst sW) (snd sW) of None \<Rightarrow> None | Some sW \<Rightarrow> ftp_script E ls sW)"

text \<open>
  The password can be bypassed: on any session whatsoever, `USER anonymous`, `PASS` with any word
  and `USER` with any other name leave it with the right to write, and the next `DELE` removes the file.
\<close>
theorem ftp_password_bypass:
  "(case ftp_script E [''USER anonymous'', ''PASS guest'', ''USER guest''] (s, W) of
      None \<Rightarrow> False
    | Some (s', W') \<Rightarrow> may_write s' \<and> ftp_his W' = ftp_his W \<and>
        map_option (\<lambda>sW. disk (snd sW)) (handle_command E ''DELE log.raw'' s' W') =
          Some (snd (ff_unlink E (fs_path FTP_BUF_SIZE (cwd s) ''log.raw'') (disk W))))"
proof -
  have w: "cmd_word ''USER anonymous'' = ''USER''" "cmd_arg ''USER anonymous'' = ''anonymous''"
    "cmd_word ''PASS guest'' = ''PASS''" "cmd_arg ''PASS guest'' = ''guest''"
    "cmd_word ''USER guest'' = ''USER''" "cmd_arg ''USER guest'' = ''guest''"
    "cmd_word ''DELE log.raw'' = ''DELE''" "cmd_arg ''DELE log.raw'' = ''log.raw''"
    by code_simp+
  show ?thesis
    by (simp add: handle_command_def w Let_def reply_def cmd_user_def cmd_pass_def may_write_def guarded_def
        case_prod_beta) (simp add: on_disk_def set_disk_def)
qed

section \<open>The sessions\<close>

definition session_ok :: "ftp_session \<Rightarrow> bool" where
  "session_ok s \<longleftrightarrow> cwd s = render (components (cwd s)) \<and> list_all good_component (components (cwd s)) \<and>
     length (cwd s) < 64 \<and> length (rename_from s) < 128 \<and> (rename_pending s \<longrightarrow> take 5 (rename_from s) = FTP_ROOT)"

lemma session_ok_core: "core s = core t \<Longrightarrow> session_ok s = session_ok t"
  by (simp add: session_ok_def core_def)

lemma session_ok_closed [simp]: "session_ok closed_session"
  by (simp add: session_ok_def closed_session_def zero_session_def render_def)

lemma norm_path_cwd:
  "norm_path 64 d arg = render (components (norm_path 64 d arg)) \<and>
   list_all good_component (components (norm_path 64 d arg)) \<and> length (norm_path 64 d arg) < 64"
proof -
  obtain cs where c: "norm_path 64 d arg = render cs" "list_all good_component cs" "length (render cs) < 64"
    using norm_path_render [of 64 d arg] by auto
  then show ?thesis by (simp add: components_render [OF c(2)])
qed

lemma fs_path_root: "take 5 (take 127 (fs_path FTP_BUF_SIZE d arg)) = FTP_ROOT"
  by (simp add: fs_path_def FTP_BUF_SIZE_def FTP_ROOT_def min_def)

lemma handle_session_ok:
  assumes "handle_command E line s W = Some r" "session_ok s"
  shows "session_ok (fst r)"
proof -
  let ?s = "fst r"
  note c = handle_core [OF assms(1)]
  have "cwd ?s = cwd s \<or> (\<exists>arg. cwd ?s = norm_path 64 (cwd s) arg)"
    using c by (auto simp: core_def Let_def split: if_splits)
  moreover have "rename_from ?s = rename_from s \<and> (rename_pending ?s \<longrightarrow> rename_pending s) \<or>
      (\<exists>arg. rename_from ?s = take 127 (fs_path FTP_BUF_SIZE (cwd s) arg))"
    using c by (auto simp: core_def Let_def split: if_splits)
  ultimately show ?thesis using assms(2) norm_path_cwd [of "cwd s"] fs_path_root [of "cwd s"]
    unfolding session_ok_def by (elim disjE exE conjE) auto
qed

definition sessions_ok :: "('w, 'n) ftp_st \<Rightarrow> bool" where
  "sessions_ok st \<longleftrightarrow> length (sessions st) = FTP_MAX_CLIENTS \<and> list_all session_ok (sessions st)"

lemma sessions_ok_put:
  "sessions_ok st \<Longrightarrow> session_ok s \<Longrightarrow> sessions_ok \<lparr>sessions = (sessions st)[i := s], world = W\<rparr>"
  by (auto simp: sessions_ok_def list_all_iff dest!: subsetD [OF set_update_subset_insert])

lemma sessions_ok_world [simp]: "sessions_ok (st\<lparr>world := W\<rparr>) = sessions_ok st"
  by (simp add: sessions_ok_def)

lemma sessions_ok_accept: "sessions_ok st \<Longrightarrow> sessions_ok (ftp_accept E serv st)"
  by (auto simp: ftp_accept_def case_prod_beta Let_def intro!: sessions_ok_put split: option.split)
    (simp add: session_ok_def zero_session_def render_def)

lemma sessions_ok_serve:
  assumes "sessions_ok st" "i < FTP_MAX_CLIENTS" "serve_session E i st = Some st'"
  shows "sessions_ok st'"
proof -
  have s: "session_ok (sessions st ! i)" using assms(1,2) by (simp add: sessions_ok_def list_all_length)
  have c: "session_ok (fst (close_session E s W))" for s W by (simp add: close_session_def Let_def)
  show ?thesis using assms(3) c handle_session_ok [OF _ s]
    by (auto simp: serve_session_def case_prod_beta Let_def intro!: sessions_ok_put [OF assms(1)]
        split: sum.splits bool.splits if_splits) (use assms(1) in simp)
qed

lemma sessions_ok_serve_all:
  "sessions_ok st \<Longrightarrow> list_all (\<lambda>i. i < FTP_MAX_CLIENTS) js \<Longrightarrow> serve_all E ready js st = Some st' \<Longrightarrow> sessions_ok st'"
  by (induction js arbitrary: st) (auto dest: sessions_ok_serve split: if_splits option.splits)

lemma sessions_ok_idle: "sessions_ok st \<Longrightarrow> sessions_ok (fold (idle_check E now) js st)"
proof (induction js arbitrary: st)
  case (Cons i js)
  have "sessions_ok (idle_check E now i st)" using Cons.prems
    by (auto simp: idle_check_def close_session_def Let_def intro!: sessions_ok_put)
  then show ?case using Cons.IH by simp
qed simp

text \<open>
  C16. The sessions are well typed in every state the server reaches, whatever clients send and however
  the network and the disk behave: there are exactly three slots, each with a normalised working
  directory that fits its field, a rename source that fits its field, and a pending rename only of a
  name below the FTP root.
\<close>
theorem ftp_sessions_well_formed:
  assumes "ftp_reach E st"
  shows "length (sessions st) = 3 \<and> list_all session_ok (sessions st)"
proof -
  have "sessions_ok st" using assms
  proof induction
    case (start W serv st)
    then show ?case
      by (auto simp: ftp_start_def Let_def case_prod_beta sessions_ok_def list_all_iff split: if_splits)
  next
    case (round st serv n ready st')
    then obtain st1 where "(if n > 0 then serve_all E ready [0..<FTP_MAX_CLIENTS] (if ready serv then ftp_accept E serv st else st)
        else Some st) = Some st1" and st': "st' = fold (idle_check E (n_uptime E (ftp_net (world st1)))) [0..<FTP_MAX_CLIENTS] st1"
      by (auto simp: ftp_round_def Let_def split: option.splits)
    moreover have j: "list_all (\<lambda>i. i < FTP_MAX_CLIENTS) [0..<FTP_MAX_CLIENTS]" by (simp add: list_all_iff)
    moreover have "sessions_ok (if ready serv then ftp_accept E serv st else st)"
      using round.IH by (simp add: sessions_ok_accept)
    ultimately have "sessions_ok st1" using round.IH sessions_ok_serve_all [OF _ j] by (metis option.inject)
    then show ?case unfolding st' by (rule sessions_ok_idle)
  qed simp
  then show ?thesis by (simp add: sessions_ok_def FTP_MAX_CLIENTS_def)
qed

theorem ftp_sessions_well_formed_witness:
  "(let st = the (ftp_round demo_ftp 6 1 (\<lambda>d. d = 6) (snd (ftp_start demo_ftp (demo_world [] (\<lambda>_. []))))) in
     map ctrl (sessions st) = [7, -1, -1] \<and> length (sessions st) = 3 \<and> list_all session_ok (sessions st))"
proof -
  let ?W = "demo_world [] (\<lambda>_. []) :: (mem_fs, mem_net) ftp_w"
  let ?st0 = "snd (ftp_start demo_ftp ?W)"
  have s: "ftp_start demo_ftp ?W = (Some 6, ?st0)"
    by (simp add: ftp_start_def on_net_def demo_ftp_def demo_world_def)
  have "map_option (\<lambda>st. map ctrl (sessions st)) (ftp_round demo_ftp 6 1 (\<lambda>d. d = 6) ?st0) = Some [7, -1, -1]"
    by (simp add: ftp_start_def ftp_round_def ftp_accept_def on_net_def demo_ftp_def demo_world_def FTP_MAX_CLIENTS_def
        free_slot_def upt_rec closed_session_def zero_session_def ftp_send_def idle_check_def FTP_SESSION_TIMEOUT_SEC_def
        Let_def numeral_3_eq_3)
  then obtain st where r: "ftp_round demo_ftp 6 1 (\<lambda>d. d = 6) ?st0 = Some st" and c: "map ctrl (sessions st) = [7, -1, -1]"
    by auto
  show ?thesis using ftp_sessions_well_formed [OF ftp_reach.round [OF ftp_reach.start [OF s] r]] r c by simp
qed

end
