(* ===== verification/FtpTransfer.thy ===== *)
theory FtpTransfer imports FtpTheorems begin

text \<open>
  Transfers of the FTP server end to end: what a download puts on the data connection and what an
  upload leaves in the file, for a file system and a network that keep the contracts \<open>reader_law\<close>,
  \<open>writer_law\<close>, \<open>sink_law\<close> and \<open>source_law\<close>, and an in-memory system that keeps them all.
\<close>

section \<open>The contracts\<close>

text \<open>
  \<open>left h\<close> is what reading the handle still yields; reads may be short.  \<open>out d n\<close> is what was sent on
  connection \<open>d\<close>; sends may be partial.  \<open>inp d n\<close> are the blocks that will be received.

  For the writing side, \<open>path_of h\<close> is the file a handle was opened on, \<open>pos h\<close> its position and \<open>app h\<close>
  whether it was opened to append; \<open>cont q w\<close> is the content of the file \<open>q\<close>.  Opening truncates when it
  is asked to and starts at position zero, seeking inside the file moves the position, and a write that
  succeeds puts its bytes at the position (at the end of the file for a handle opened to append) and
  moves the position behind them.
\<close>

definition reader_law :: "('w, 'h, 'n) ftp_env \<Rightarrow> ('h \<Rightarrow> bytes) \<Rightarrow> bool" where
  "reader_law E left \<longleftrightarrow> (\<forall>h k w. 0 < k \<longrightarrow>
     (case ff_read E h k w of (None, h') \<Rightarrow> False
      | (Some b, h') \<Rightarrow> left h = b @ left h' \<and> (b = [] \<longrightarrow> left h = [])))"

definition sink_law :: "('w, 'h, 'n) ftp_env \<Rightarrow> (int \<Rightarrow> 'n \<Rightarrow> bytes) \<Rightarrow> bool" where
  "sink_law E out \<longleftrightarrow>
     (\<forall>d p n. p \<noteq> [] \<longrightarrow> (let (k, n') = n_send E d p n in
        0 < k \<and> k \<le> int (length p) \<and> out d n' = out d n @ take (nat k) p)) \<and>
     (\<forall>d d' p n. d' \<noteq> d \<longrightarrow> out d (snd (n_send E d' p n)) = out d n) \<and>
     (\<forall>d d' n. out d (n_close E d' n) = out d n)"

definition source_law :: "('w, 'h, 'n) ftp_env \<Rightarrow> (int \<Rightarrow> 'n \<Rightarrow> bytes list) \<Rightarrow> bool" where
  "source_law E inp \<longleftrightarrow>
     (\<forall>d n. (case inp d n of [] \<Rightarrow> fst (n_recv E d FTP_BUF_SIZE n) = Rx []
        | b # bs \<Rightarrow> fst (n_recv E d FTP_BUF_SIZE n) = Rx b \<and> inp d (snd (n_recv E d FTP_BUF_SIZE n)) = bs))"

definition write_pos :: "('h \<Rightarrow> string) \<Rightarrow> ('h \<Rightarrow> bool) \<Rightarrow> ('h \<Rightarrow> nat) \<Rightarrow> (string \<Rightarrow> 'w \<Rightarrow> bytes) \<Rightarrow> 'h \<Rightarrow> 'w \<Rightarrow> nat" where
  "write_pos path_of app pos cont h w = (if app h then length (cont (path_of h) w) else pos h)"

definition writer_law :: "('w, 'h, 'n) ftp_env \<Rightarrow> ('h \<Rightarrow> string) \<Rightarrow> ('h \<Rightarrow> bool) \<Rightarrow> ('h \<Rightarrow> nat) \<Rightarrow> (string \<Rightarrow> 'w \<Rightarrow> bytes) \<Rightarrow> bool" where
  "writer_law E path_of app pos cont \<longleftrightarrow>
     (\<forall>p fl w h w'. ff_open E p fl w = ((0, h), w') \<longrightarrow>
        path_of h = p \<and> app h = o_append fl \<and> pos h = 0 \<and> (o_create fl \<longrightarrow> cont p w' = (if o_trunc fl then [] else cont p w))) \<and>
     (\<forall>h k w h'. unat k \<le> length (cont (path_of h) w) \<longrightarrow> ff_seek E h k w = (0, h') \<longrightarrow>
        path_of h' = path_of h \<and> app h' = app h \<and> pos h' = unat k) \<and>
     (\<forall>h w h'. ff_seek_end E h w = (0, h') \<longrightarrow> path_of h' = path_of h \<and> app h' = app h) \<and>
     (\<forall>h p w. let k = write_pos path_of app pos cont h w; ((r, h'), w') = ff_write E h p w in
        k \<le> length (cont (path_of h) w) \<longrightarrow>
        r = int (length p) \<and> path_of h' = path_of h \<and> app h' = app h \<and> pos h' = k + length p \<and>
        cont (path_of h) w' = write_at (cont (path_of h) w) k p) \<and>
     (\<forall>q h w. cont q (ff_close E h w) = cont q w)"

lemma write_at_nil [simp]: "write_at c k [] = c"
  by (simp add: write_at_def)

lemma write_at_end [simp]: "write_at c (length c) d = c @ d"
  by (simp add: write_at_def)

lemma write_at_length: "k \<le> length c \<Longrightarrow> k + length d \<le> length (write_at c k d)"
  by (simp add: write_at_def)

lemma write_at_twice: "k \<le> length c \<Longrightarrow> write_at (write_at c k d) (k + length d) e = write_at c k (d @ e)"
  by (simp add: write_at_def) (simp add: add.commute add.left_commute)

section \<open>The loops\<close>

lemma send_all_sink:
  assumes "sink_law E out"
  shows "fst (send_all E d p n) = 0 \<and> out d (snd (send_all E d p n)) = out d n @ p"
proof (induction "length p" arbitrary: p n rule: less_induct)
  case less
  show ?case
  proof (cases "p = []")
    case False
    obtain k n' where s: "n_send E d p n = (k, n')" by fastforce
    have k: "0 < k" "k \<le> int (length p)" "out d n' = out d n @ take (nat k) p"
      using assms [unfolded sink_law_def, THEN conjunct1, rule_format, OF False, of d n] by (simp_all add: s)
    have "length (drop (nat k) p) < length p" using k(1) False by simp
    note IH = less [OF this, of n']
    have "send_all E d p n = send_all E d (drop (nat k) p) n'"
      by (subst send_all.simps) (use False s k(1) in simp)
    with IH show ?thesis by (simp add: k(3))
  qed (simp add: send_all.simps)
qed

lemma retr_loop_sends:
  assumes "reader_law E left" "sink_law E out"
  shows "\<exists>h' n'. retr_loop E ascii d w h n = Some (h', n') \<and>
    out d n' = out d n @ (if ascii then ascii_crlf (left h) else left h)"
proof (induction "length (left h)" arbitrary: h n rule: less_induct)
  case less
  have "0 < FTP_BUF_SIZE div 2" by (simp add: FTP_BUF_SIZE_def)
  then obtain b h' where r: "ff_read E h (FTP_BUF_SIZE div 2) w = (Some b, h')"
    and b: "left h = b @ left h'" "b = [] \<longrightarrow> left h = []"
    using assms(1) [unfolded reader_law_def, rule_format, of "FTP_BUF_SIZE div 2" h w]
    by (cases "ff_read E h (FTP_BUF_SIZE div 2) w") (auto split: option.splits)
  show ?case
  proof (cases "b = []")
    case True
    then show ?thesis using b r by (subst retr_loop.simps) simp
  next
    case False
    let ?n = "snd (send_all E d (if ascii then ascii_crlf b else b) n)"
    have "length (left h') < length (left h)" using b(1) False by simp
    note IH = less [OF this, of ?n]
    have "retr_loop E ascii d w h n = retr_loop E ascii d w h' ?n"
      by (subst retr_loop.simps) (simp add: r False)
    moreover have "out d ?n = out d n @ (if ascii then ascii_crlf b else b)"
      using send_all_sink [OF assms(2), of d _ n] by simp
    ultimately show ?thesis using IH b(1) by (auto simp: crlf_append)
  qed
qed

text \<open>What an upload writes, block by block.\<close>

fun stored :: "bool \<Rightarrow> bool \<Rightarrow> bytes list \<Rightarrow> bytes" where
  "stored ascii pend [] = []"
| "stored ascii pend (b # bs) =
     (if ascii then fst (ascii_strip_cr b pend) @ stored ascii (snd (ascii_strip_cr b pend)) bs
      else b @ stored ascii pend bs)"

lemma stor_loop_stores:
  assumes "source_law E inp" "writer_law E path_of app pos cont"
  shows "[] \<notin> set (inp d n) \<Longrightarrow> write_pos path_of app pos cont h w \<le> length (cont (path_of h) w) \<Longrightarrow>
    \<exists>pend' h' w' n'. stor_loop E ascii d pend h w n = Some (pend', h', w', n') \<and>
    cont (path_of h) w' = write_at (cont (path_of h) w) (write_pos path_of app pos cont h w) (stored ascii pend (inp d n))"
proof (induction "inp d n" arbitrary: pend h w n)
  case Nil
  then have "inp d n = []" by simp
  then have "fst (n_recv E d FTP_BUF_SIZE n) = Rx []"
    using assms(1) [unfolded source_law_def, rule_format, of d n] by simp
  then obtain n' where "n_recv E d FTP_BUF_SIZE n = (Rx [], n')" by (metis prod.collapse)
  then show ?case using Nil by (subst stor_loop.simps) simp
next
  case (Cons b bs)
  from Cons(2) have i: "inp d n = b # bs" by simp
  obtain r n' where rn: "n_recv E d FTP_BUF_SIZE n = (r, n')" by fastforce
  have "r = Rx b \<and> inp d n' = bs"
    using assms(1) [unfolded source_law_def, rule_format, of d n] by (simp add: i rn)
  then have r: "n_recv E d FTP_BUF_SIZE n = (Rx b, n')" and n': "bs = inp d n'" using rn by auto
  have b: "b \<noteq> []" "[] \<notin> set (inp d n')" using Cons.prems i n' by auto
  let ?p = "if ascii then fst (ascii_strip_cr b pend) else b"
  let ?q = "if ascii then snd (ascii_strip_cr b pend) else pend"
  have st: "stored ascii pend (inp d n) = ?p @ stored ascii ?q (inp d n')" by (simp add: i n')
  show ?case
  proof (cases "?p = []")
    case True
    have "stor_loop E ascii d pend h w n = stor_loop E ascii d ?q h w n'"
      using b(1) True by (subst stor_loop.simps) (cases ascii, simp_all add: r case_prod_beta)
    then show ?thesis using Cons.hyps(1) [OF n' b(2) Cons.prems(2), of ?q] st True by simp
  next
    case False
    obtain wr h' w' where wr: "ff_write E h ?p w = ((wr, h'), w')" by (metis prod.collapse)
    let ?k = "write_pos path_of app pos cont h w" and ?c = "cont (path_of h) w"
    have c: "wr = int (length ?p)" "path_of h' = path_of h" "app h' = app h" "pos h' = ?k + length ?p"
      "cont (path_of h) w' = write_at ?c ?k ?p"
      using assms(2) [unfolded writer_law_def, THEN conjunct2, THEN conjunct2, THEN conjunct2, THEN conjunct1,
        rule_format, of h w ?p] Cons.prems(2) by (simp_all add: wr Let_def)
    have k': "write_pos path_of app pos cont h' w' = ?k + length ?p"
      using c Cons.prems(2) by (auto simp: write_pos_def write_at_def)
    have "stor_loop E ascii d pend h w n = stor_loop E ascii d ?q h' w' n'"
      using b(1) False wr c(1) by (subst stor_loop.simps) (cases ascii, simp_all add: r case_prod_beta)
    moreover have "?k + length ?p \<le> length (write_at ?c ?k ?p)" by (rule write_at_length [OF Cons.prems(2)])
    ultimately show ?thesis using Cons.hyps(1) [OF n' b(2), of h' w' ?q] st write_at_twice [OF Cons.prems(2)]
      by (simp add: k' c(2,5))
  qed
qed

lemma stored_binary: "stored False pend bs = concat bs"
  by (induction bs) auto

lemma stored_ascii:
  "list_all (\<lambda>b. b \<noteq> [] \<and> last b \<noteq> byte_cr) bs \<Longrightarrow> stored True False bs = strip_loop (concat bs)"
  by (induction bs) (simp_all add: strip_whole_block strip_append)

lemma demo_laws:
  "reader_law demo_ftp (fst \<circ> snd)" "sink_law demo_ftp (\<lambda>d n. net_out n d)" "source_law demo_ftp (\<lambda>d n. net_in n d)"
  "writer_law demo_ftp fst (snd \<circ> snd \<circ> snd) (fst \<circ> snd \<circ> snd) mem_content"
  by (auto simp: reader_law_def demo_ftp_def)
    (auto simp: sink_law_def source_law_def writer_law_def demo_ftp_def Let_def min_def handle_pos_def write_pos_def
       split: list.split if_splits)

section \<open>Downloads and uploads\<close>

text \<open>
  The connection is described by the call that opens it: after the 150 reply \<open>open_data\<close> returned
  descriptor \<open>d\<close>, on which nothing had been sent.
\<close>

text \<open>
  C14. A download delivers the file: when the file opens and a data connection comes up, RETR (without
  REST) returns, however short the reads and however partial the sends are, and the data connection has
  carried exactly the content: for TYPE I every byte of it in order, for TYPE A the content with a CR put
  before each LF, from which a client that drops the CR before each LF gets the content back, whatever
  bytes it has.
\<close>
theorem ftp_download_complete:
  assumes "reader_law E left" "sink_law E out" "authed s" "rest_off s = 0"
    and "ff_open E (fs_path FTP_BUF_SIZE (cwd s) path) rd_flags (disk W) = ((0, h), w)"
    and "open_data E s (ftp_send E (ctrl s) ''150 Opening data connection'' (set_disk w W)) = (d, s1, W1)"
    and "0 \<le> d" "out d (ftp_net W1) = []" "ctrl s1 \<noteq> d"
  shows "(case cmd_retr E path s W of None \<Rightarrow> False
    | Some (s', W') \<Rightarrow> out d (ftp_net W') = (if type_ascii s1 then ascii_crlf (left h) else left h) \<and>
        (if type_ascii s1 then strip_loop (out d (ftp_net W')) = left h else True))"
proof -
  obtain h' n' where r: "retr_loop E (type_ascii s1) d (disk W1) h (ftp_net W1) = Some (h', n')"
    and o: "out d n' = out d (ftp_net W1) @ (if type_ascii s1 then ascii_crlf (left h) else left h)"
    using retr_loop_sends [OF assms(1,2)] by metis
  have k: "out d (snd (n_send E (ctrl s1) p n)) = out d n" "out d (n_close E d n) = out d n" for p n
    using assms(2,9) by (simp_all add: sink_law_def)
  have od: "on_disk (ff_open E (fs_path FTP_BUF_SIZE (cwd s) path) rd_flags) W = ((0, h), set_disk w W)"
    by (simp add: on_disk_def assms(5))
  have "cmd_retr E path s W = Some (clear_rest (s1, ftp_send E (ctrl s1) ''226 Transfer complete''
      (net_close E d (close_file E h' (W1\<lparr>ftp_net := n'\<rparr>)))))"
    using assms(3,4,6,7) by (simp add: cmd_retr_def od r)
  then show ?thesis using o assms(8)
    by (simp add: clear_rest_def ftp_send_def on_net_def k net_close_def close_file_def set_disk_def)
qed

theorem ftp_download_complete_witness:
  "(let W = demo_world [(''/lfs1/log.txt'', [97, 10, 98, 13, 10])] (\<lambda>_. []) in
     case cmd_retr demo_ftp ''log.txt'' (demo_session True) W of None \<Rightarrow> False
     | Some (s', W') \<Rightarrow> net_out (ftp_net W') 6 = [97, 13, 10, 98, 13, 13, 10])"
proof -
  let ?s = "demo_session True" and ?W = "demo_world [(''/lfs1/log.txt'', [97, 10, 98, 13, 10])] (\<lambda>_. [])"
  have p: "fs_path FTP_BUF_SIZE (cwd ?s) ''log.txt'' = ''/lfs1/log.txt''" by code_simp
  define s1 where "s1 = ?s\<lparr>data_listen := -1\<rparr>"
  define W1 where "W1 = snd (snd (open_data demo_ftp ?s (ftp_send demo_ftp (ctrl ?s) ''150 Opening data connection'' (set_disk (disk ?W) ?W))))"
  have o: "ff_open demo_ftp (fs_path FTP_BUF_SIZE (cwd ?s) ''log.txt'') rd_flags (disk ?W) =
      ((0, (''/lfs1/log.txt'', [97, 10, 98, 13, 10], 0, False)), disk ?W)"
    unfolding p by (simp add: demo_ftp_def rd_flags_def mem_data_def mem_content_def demo_world_def demo_his_def)
  have d: "open_data demo_ftp ?s (ftp_send demo_ftp (ctrl ?s) ''150 Opening data connection'' (set_disk (disk ?W) ?W)) = (6, s1, W1)"
    "net_out (ftp_net W1) 6 = []"
    by (simp_all add: W1_def s1_def open_data_def demo_session_def closed_session_def zero_session_def demo_ftp_def
        on_net_def ftp_send_def demo_world_def net_close_def set_data_sock_timeout_def set_disk_def Let_def)
  have t: "type_ascii s1" "authed ?s" "rest_off ?s = 0" "ctrl s1 \<noteq> 6"
    by (simp_all add: s1_def demo_session_def closed_session_def zero_session_def)
  have "case cmd_retr demo_ftp ''log.txt'' ?s ?W of None \<Rightarrow> False
    | Some (s', W') \<Rightarrow> net_out (ftp_net W') 6 = [97, 13, 10, 98, 13, 13, 10]"
    using ftp_download_complete [OF demo_laws(1,2) t(2,3) o d(1) _ d(2) t(4)] t(1) by (auto split: option.splits)
  then show ?thesis by simp
qed

text \<open>
  C15. An upload stores what was sent: when the file opens, its seek succeeds and a data connection
  comes up that delivers these blocks and then ends, and no write fails, then STOR and APPE return and
  the file holds: for STOR the text and nothing else (the old content is truncated); for STOR after REST,
  at an offset inside the file, the old content with the text written over it from the offset on (what
  lies behind the text stays); for APPE the old content followed by the text.  The text is the
  received bytes for TYPE I, and the text whose CR LF form the client sent for TYPE A - the latter
  provided that no block ends in a CR.
\<close>
theorem ftp_upload_complete:
  assumes "source_law E inp" "writer_law E path_of app pos cont" "may_write s"
    and "ff_open E (fs_path FTP_BUF_SIZE (cwd s) path) (wr_flags is_appe (rest_off s)) (disk W) = ((0, h), w)"
    and "is_appe \<Longrightarrow> fst (ff_seek_end E h w) = 0"
    and "\<not> is_appe \<Longrightarrow> 0 < rest_off s \<Longrightarrow> fst (ff_seek E h (rest_off s) w) = 0 \<and>
      unat (rest_off s) \<le> length (cont (fs_path FTP_BUF_SIZE (cwd s) path) (disk W))"
    and "open_data E s (ftp_send E (ctrl s) ''150 Ok to send data'' (set_disk w W)) = (d, s1, W1)"
    and "0 \<le> d" "inp d (ftp_net W1) = blocks" "[] \<notin> set blocks"
    and "type_ascii s1 \<Longrightarrow> list_all (\<lambda>b. last b \<noteq> byte_cr) blocks \<and> concat blocks = ascii_crlf txt"
    and "type_ascii s1 \<or> txt = concat blocks"
  shows "(case cmd_stor E path is_appe s W of None \<Rightarrow> False
    | Some (s', W') \<Rightarrow> cont (fs_path FTP_BUF_SIZE (cwd s) path) (disk W') =
        (let old = cont (fs_path FTP_BUF_SIZE (cwd s) path) (disk W); k = unat (rest_off s) in
         if is_appe then old @ txt
         else if k = 0 then txt
         else take k old @ txt @ drop (k + length txt) old))"
proof -
  let ?q = "fs_path FTP_BUF_SIZE (cwd s) path"
  let ?old = "cont ?q (disk W)" and ?k = "unat (rest_off s)"
  let ?h = "if is_appe then snd (ff_seek_end E h w) else if rest_off s > 0 then snd (ff_seek E h (rest_off s) w) else h"
  note law = assms(2) [unfolded writer_law_def]
  have h: "path_of h = ?q" "app h = is_appe" "pos h = 0"
    "cont ?q w = (if \<not> is_appe \<and> rest_off s = 0 then [] else ?old)"
    using law [THEN conjunct1, rule_format, OF assms(4)] by (simp_all add: wr_flags_def)
  have seek: "path_of h' = ?q \<and> app h' = is_appe \<and> pos h' = ?k"
    if "ff_seek E h (rest_off s) w = (0, h')" "?k \<le> length (cont ?q w)" for h'
    using law [THEN conjunct2, THEN conjunct1, rule_format, of "rest_off s" h w h'] that h by simp
  have seek_end: "path_of h' = ?q \<and> app h' = is_appe" if "ff_seek_end E h w = (0, h')" for h'
    using law [THEN conjunct2, THEN conjunct2, THEN conjunct1, rule_format, OF that] h by simp
  define g where "g = ?h"
  have p: "path_of g = ?q \<and> app g = is_appe \<and> (is_appe \<or> pos g = ?k)"
  proof (cases is_appe)
    case True
    then have "ff_seek_end E h w = (0, g)" using assms(5) by (simp add: g_def prod_eq_iff)
    then show ?thesis using seek_end True by blast
  next
    case False
    show ?thesis
    proof (cases "rest_off s = 0")
      case False
      then have pos: "0 < rest_off s" by (simp add: word_gt_0)
      with \<open>\<not> is_appe\<close> assms(6) have "ff_seek E h (rest_off s) w = (0, g)" by (simp add: g_def prod_eq_iff)
      then show ?thesis using seek assms(6) [OF \<open>\<not> is_appe\<close> pos] h(4) False \<open>\<not> is_appe\<close> by simp
    qed (use False h in \<open>simp add: g_def\<close>)
  qed
  then have k: "write_pos path_of app pos cont g w = (if is_appe then length ?old else ?k)"
    using h(4) by (cases is_appe) (simp_all add: write_pos_def)
  have le: "write_pos path_of app pos cont g w \<le> length (cont (path_of g) w)"
    unfolding k using assms(6) h(4) p by (auto simp: word_gt_0)
  have "ftp_his W1 = ftp_his (set_disk w W)"
    using his_open_data [of E s "ftp_send E (ctrl s) ''150 Ok to send data'' (set_disk w W)"]
    unfolding assms(7) by simp
  then have w: "disk W1 = w" by (simp add: set_disk_def)
  obtain pend' h' w' n' where r: "stor_loop E (type_ascii s1) d False g w (ftp_net W1) = Some (pend', h', w', n')"
    and c: "cont ?q w' = write_at (cont ?q w) (if is_appe then length ?old else ?k) (stored (type_ascii s1) False blocks)"
    using stor_loop_stores [OF assms(1,2) _ le, where ascii = "type_ascii s1" and pend = False and d = d
        and n = "ftp_net W1"] assms(9,10) conjunct1 [OF p] unfolding k by auto
  have "stored (type_ascii s1) False blocks = txt"
  proof (cases "type_ascii s1")
    case True
    then have "list_all (\<lambda>b. b \<noteq> [] \<and> last b \<noteq> byte_cr) blocks" using assms(10,11) by (auto simp: list_all_iff)
    then show ?thesis using True assms(11) by (simp add: stored_ascii)
  next
    case False
    then show ?thesis using assms(12) by (simp add: stored_binary)
  qed
  moreover have "rest_off s = 0 \<longleftrightarrow> ?k = 0" by (simp add: unat_eq_zero)
  ultimately have c': "cont ?q w' = (if is_appe then ?old @ txt else if ?k = 0 then txt
      else take ?k ?old @ txt @ drop (?k + length txt) ?old)"
    using c h(4) by (auto simp: write_at_def)
  have od: "on_disk (ff_open E ?q (wr_flags is_appe (rest_off s))) W = ((0, h), set_disk w W)"
    by (simp add: on_disk_def assms(4))
  have dw: "disk (set_disk w W) = w" by (simp add: set_disk_def)
  have "cmd_stor E path is_appe s W = Some (clear_rest (s1\<lparr>pending_cr := pend'\<rparr>, ftp_send E (ctrl s1) ''226 Transfer complete''
      (net_close E d (close_file E h' ((set_disk w' W1)\<lparr>ftp_net := n'\<rparr>)))))"
    using assms(3,7,8) r by (simp only: cmd_stor_def od w dw may_write_def Let_def g_def [symmetric] prod.case) (simp add: w)
  moreover have "cont q (ff_close E h' w') = cont q w'" for q using law by blast
  ultimately show ?thesis using c'
    by (simp add: clear_rest_def ftp_send_def on_net_def net_close_def close_file_def set_disk_def Let_def)
qed

theorem ftp_upload_complete_witness:
  "(let W = demo_world [(''/lfs1/log.txt'', [1, 2, 3, 4, 5, 6, 7])] (\<lambda>_. [[97, 13, 10], [98, 13, 10]]) in
     case cmd_stor demo_ftp ''log.txt'' False ((demo_session True)\<lparr>rest_off := 2\<rparr>) W of None \<Rightarrow> False
     | Some (s', W') \<Rightarrow> mem_content (fs_path FTP_BUF_SIZE ''/'' ''log.txt'') (disk W') = [1, 2, 97, 10, 98, 10, 7])"
proof -
  let ?s = "(demo_session True)\<lparr>rest_off := 2\<rparr>" and ?W = "demo_world [(''/lfs1/log.txt'', [1, 2, 3, 4, 5, 6, 7])] (\<lambda>_. [[97, 13, 10], [98, 13, 10]])"
  let ?p = "fs_path FTP_BUF_SIZE (cwd ?s) ''log.txt''"
  let ?w = "mem_put ?p (mem_content ?p (disk ?W)) (disk ?W)"
  have p: "?p = ''/lfs1/log.txt''" by code_simp
  have old: "mem_content ?p (disk ?W) = [1, 2, 3, 4, 5, 6, 7]"
    unfolding p by (simp add: mem_content_def mem_data_def demo_world_def demo_his_def)
  define s1 where "s1 = ?s\<lparr>data_listen := -1\<rparr>"
  define W1 where "W1 = snd (snd (open_data demo_ftp ?s (ftp_send demo_ftp (ctrl ?s) ''150 Ok to send data'' (set_disk ?w ?W))))"
  have o: "ff_open demo_ftp ?p (wr_flags False (rest_off ?s)) (disk ?W) = ((0, (?p, [], 0, False)), ?w)"
    by (simp add: demo_ftp_def wr_flags_def)
  have d: "open_data demo_ftp ?s (ftp_send demo_ftp (ctrl ?s) ''150 Ok to send data'' (set_disk ?w ?W)) = (6, s1, W1)"
    "net_in (ftp_net W1) 6 = [[97, 13, 10], [98, 13, 10]]"
    by (simp_all add: W1_def s1_def open_data_def demo_session_def closed_session_def zero_session_def demo_ftp_def
        on_net_def ftp_send_def demo_world_def net_close_def set_data_sock_timeout_def set_disk_def Let_def)
  have t: "type_ascii s1" "may_write ?s" "rest_off ?s = 2" "cwd ?s = ''/''"
    by (simp_all add: s1_def demo_session_def closed_session_def zero_session_def may_write_def)
  have seek: "fst (ff_seek demo_ftp (?p, [], 0, False) (rest_off ?s) ?w) = 0 \<and>
      unat (rest_off ?s) \<le> length (mem_content ?p (disk ?W))" unfolding old t(3) by (simp add: demo_ftp_def)
  have blocks: "list_all (\<lambda>b. last b \<noteq> byte_cr) [[97, 13, 10], [98, 13, 10]] \<and>
      concat [[97, 13, 10], [98, 13, 10 :: u8]] = ascii_crlf [97, 10, 98, 10]" by simp
  have nil: "[] \<notin> set [[97, 13, 10], [98, 13, 10 :: u8]]" by simp
  have "case cmd_stor demo_ftp ''log.txt'' False ?s ?W of None \<Rightarrow> False
    | Some (s', W') \<Rightarrow> mem_content ?p (disk W') = (let old = mem_content ?p (disk ?W); k = unat (rest_off ?s) in
         if False then old @ [97, 10, 98, 10] else if k = 0 then [97, 10, 98, 10]
         else take k old @ [97, 10, 98, 10] @ drop (k + length [97, 10, 98, 10 :: u8]) old)"
    by (rule ftp_upload_complete [OF demo_laws(3,4) t(2) o FalseE seek d(1) _ d(2) nil blocks disjI1 [OF t(1)]]) simp_all
  then show ?thesis unfolding old t(3) unfolding t(4) by (auto simp: Let_def split: option.splits)
qed

text \<open>
  Without that proviso a line end is lost: when a CR LF straddles two blocks, the CR is held back and
  the LF that follows it is skipped.
\<close>

lemma ascii_split_line_end:
  assumes "a = [] \<or> last a \<noteq> byte_cr" "b \<noteq> []" "last b \<noteq> byte_cr"
  shows "stored True False [a @ [byte_cr], byte_lf # b] = strip_loop a @ strip_loop b"
  using assms strip_append [OF assms(1), of "[byte_cr]"]
  by (simp add: ascii_strip_cr_def nth_append last_conv_nth)

end
