(* ===== verification/WebJson.thy ===== *)
theory WebJson imports FtpPath Regs begin

text \<open>
  The web server's JSON and URL scanning (\<open>web/web_json.h\<close>), its command executors and JSON builders
  (\<open>web/httpd.c\<close>, \<open>web/ws_io.c\<close>) over the registers.  A buffer is the characters up to its length; what
  lies behind is the terminating NUL, so a pointer into it is a suffix.
\<close>

section \<open>Scanning\<close>

abbreviation quote :: char where "quote \<equiv> CHR 0x22"

definition skip_blanks :: "string \<Rightarrow> string" where
  "skip_blanks = dropWhile (\<lambda>c. c = CHR '' '' \<or> c = CHR 0x09)"

fun json_find_value :: "string \<Rightarrow> string \<Rightarrow> string option" where
  "json_find_value key [] = None"
| "json_find_value key (c # cs) =
     (if \<not> length key + 2 \<le> length (c # cs) then None
      else if c = quote \<and> take (length key) cs = key \<and> cs ! length key = quote
      then let r = skip_blanks (drop (length key + 1) cs) in
        if r \<noteq> [] \<and> hd r = CHR '':'' then Some (skip_blanks (tl r)) else json_find_value key cs
      else json_find_value key cs)"

text \<open>\<open>strtol\<close> with base 0 and a 32-bit \<open>long\<close>: the value, or \<open>None\<close> when nothing is converted.\<close>

definition hex_val :: "char \<Rightarrow> nat option" where
  "hex_val c = (let v = (of_char c :: nat) in
     if 48 \<le> v \<and> v \<le> 57 then Some (v - 48)
     else if 97 \<le> v \<and> v \<le> 102 then Some (v - 87)
     else if 65 \<le> v \<and> v \<le> 70 then Some (v - 55) else None)"

definition base_digit :: "nat \<Rightarrow> char \<Rightarrow> bool" where
  "base_digit base c = (case hex_val c of None \<Rightarrow> False | Some d \<Rightarrow> d < base)"

definition base_val :: "nat \<Rightarrow> string \<Rightarrow> nat" where
  "base_val base ds = foldl (\<lambda>v c. base * v + the (hex_val c)) 0 ds"

definition long_clamp :: "int \<Rightarrow> int" where
  "long_clamp v = (if v > 2147483647 then 2147483647 else if v < -2147483648 then -2147483648 else v)"

definition strtol0 :: "string \<Rightarrow> int option" where
  "strtol0 s =
     (let t = dropWhile is_space s;
          neg = (t \<noteq> [] \<and> hd t = CHR ''-'');
          t = (if t \<noteq> [] \<and> (hd t = CHR ''-'' \<or> hd t = CHR ''+'') then tl t else t);
          hex = (length t > 2 \<and> t ! 0 = CHR ''0'' \<and> (t ! 1 = CHR ''x'' \<or> t ! 1 = CHR ''X'') \<and> base_digit 16 (t ! 2));
          base = (if hex then 16 else if t \<noteq> [] \<and> hd t = CHR ''0'' then 8 else 10);
          ds = takeWhile (base_digit base) (if hex then drop 2 t else t);
          v = int (base_val base ds) in
      if ds = [] then None else Some (long_clamp (if neg then - v else v)))"

definition json_get_i32 :: "string \<Rightarrow> string \<Rightarrow> int option" where
  "json_get_i32 key buf =
     (case json_find_value key buf of None \<Rightarrow> None
      | Some v \<Rightarrow>
          if v = [] then None
          else if take 4 v = ''true'' then Some 1
          else if take 5 v = ''false'' then Some 0
          else strtol0 v)"

definition json_get_str :: "string \<Rightarrow> nat \<Rightarrow> string \<Rightarrow> string option" where
  "json_get_str key outsz buf =
     (case json_find_value key buf of None \<Rightarrow> None
      | Some v \<Rightarrow>
          if v = [] \<or> hd v \<noteq> quote then None
          else let w = takeWhile (\<lambda>c. c \<noteq> quote \<and> c \<noteq> CHR 0x00) (tl v); r = drop (length w) (tl v) in
            if r = [] \<or> hd r \<noteq> quote then None else Some (take (outsz - 1) w))"

function url_query_get :: "string \<Rightarrow> nat \<Rightarrow> string \<Rightarrow> string option" where
  "url_query_get key outsz p =
     (if p = [] then None
      else
        let q = (if hd p = CHR ''?'' \<or> hd p = CHR ''&'' then tl p else p) in
        if take (length key) q = key \<and> length key < length q \<and> q ! length key = CHR ''=''
        then Some (take (outsz - 1) (takeWhile (\<lambda>c. c \<noteq> CHR ''&'') (drop (length key + 1) q)))
        else url_query_get key outsz (dropWhile (\<lambda>c. c \<noteq> CHR ''&'') q))"
  by pat_completeness auto
termination
proof (relation "measure (\<lambda>(key, outsz, p). length p)", goal_cases)
  case (2 key outsz p q)
  show ?case
  proof (cases "hd p = CHR ''?'' \<or> hd p = CHR ''&''")
    case True
    then have "length (dropWhile (\<lambda>c. c \<noteq> CHR ''&'') q) \<le> length (tl p)"
      using 2 length_dropWhile_le [of "\<lambda>c. c \<noteq> CHR ''&''" "tl p"] by simp
    then show ?thesis using 2(1) by (cases p) auto
  next
    case False
    then show ?thesis using 2 dropWhile_shorter [of p "\<lambda>c. c \<noteq> CHR ''&''"] by simp
  qed
qed simp

declare url_query_get.simps [simp del]

text \<open>File names the web server touches.\<close>

definition name_char :: "char \<Rightarrow> bool" where
  "name_char c \<longleftrightarrow> (let v = (of_char c :: nat) in
     (48 \<le> v \<and> v \<le> 57) \<or> (97 \<le> v \<and> v \<le> 122) \<or> (65 \<le> v \<and> v \<le> 90) \<or> c = CHR ''_'' \<or> c = CHR ''.'' \<or> c = CHR ''-'')"

definition hist_name_valid :: "string \<Rightarrow> bool" where
  "hist_name_valid name \<longleftrightarrow> take 5 name = ''data_'' \<and> list_all name_char name \<and> length name > 5 \<and> length name < 32"

section \<open>Executors\<close>

definition web_cmd_exec_do :: "hub_env \<Rightarrow> int \<Rightarrow> int \<Rightarrow> hub_st \<Rightarrow> int \<times> hub_st" where
  "web_cmd_exec_do E index value h =
     (if index < 0 \<or> index \<ge> int DO_NUM then (- EINVAL, h)
      else io_write_do_bit E (of_int index) (value \<noteq> 0) h)"

definition web_cmd_exec_reg :: "hub_env \<Rightarrow> int \<Rightarrow> int \<Rightarrow> hub_st \<Rightarrow> int \<times> hub_st" where
  "web_cmd_exec_reg E addr value h =
     (if addr < 0 \<or> addr \<ge> int (n_holding E) \<or> value < 0 \<or> value > 0xFFFF then (- EINVAL, h)
      else if addr = uint (holding_idx HOLDING_REBOOT)
      then (0, if value \<noteq> 0 then set_reboot_status True h else h)
      else io_write_holding E (of_int addr) (of_int value) h)"

definition put_reg :: "hub_env \<Rightarrow> holding_reg_idx \<Rightarrow> u16 \<Rightarrow> hub_st \<Rightarrow> hub_st" where
  "put_reg E r v h = snd (io_write_holding E (holding_idx r) v h)"

definition scan_ip :: "(nat \<Rightarrow> u32) \<Rightarrow> string \<Rightarrow> (u32 \<times> u32 \<times> u32 \<times> u32) option" where
  "scan_ip over s =
     (case scan_u over (length s) s of None \<Rightarrow> None | Some (a, s1) \<Rightarrow>
      case scan_lit CHR ''.'' s1 of None \<Rightarrow> None | Some s2 \<Rightarrow>
      case scan_u over (length s2) s2 of None \<Rightarrow> None | Some (b, s3) \<Rightarrow>
      case scan_lit CHR ''.'' s3 of None \<Rightarrow> None | Some s4 \<Rightarrow>
      case scan_u over (length s4) s4 of None \<Rightarrow> None | Some (c, s5) \<Rightarrow>
      case scan_lit CHR ''.'' s5 of None \<Rightarrow> None | Some s6 \<Rightarrow>
      case scan_u over (length s6) s6 of None \<Rightarrow> None | Some (d, s7) \<Rightarrow> Some (a, b, c, d))"

text \<open>The fields of a configuration, in the order they are applied; each reports an error or writes.\<close>

definition cfg_ip :: "(nat \<Rightarrow> u32) \<Rightarrow> hub_env \<Rightarrow> string \<Rightarrow> hub_st \<Rightarrow> string option \<times> hub_st" where
  "cfg_ip over E json h =
     (case json_get_str ''ip'' 16 json of None \<Rightarrow> (None, h)
      | Some ip_str \<Rightarrow>
          (case scan_ip over ip_str of None \<Rightarrow> (Some ''invalid ip'', h)
           | Some (a, b, c, d) \<Rightarrow>
               if a > 255 \<or> b > 255 \<or> c > 255 \<or> d > 255 \<or> \<not> ip_addr_valid (ucast a) (ucast b) (ucast c) (ucast d)
               then (Some ''invalid ip'', h)
               else (None, put_reg E HOLDING_IP_OCTET4 (ucast d) (put_reg E HOLDING_IP_OCTET3 (ucast c)
                 (put_reg E HOLDING_IP_OCTET2 (ucast b) (put_reg E HOLDING_IP_OCTET1 (ucast a) h))))))"

definition cfg_num :: "hub_env \<Rightarrow> string \<Rightarrow> string \<Rightarrow> (int \<Rightarrow> bool) \<Rightarrow> string \<Rightarrow> holding_reg_idx \<Rightarrow> hub_st \<Rightarrow> string option \<times> hub_st" where
  "cfg_num E json key ok err r h =
     (case json_get_i32 key json of None \<Rightarrow> (None, h)
      | Some v \<Rightarrow> if ok v then (None, put_reg E r (of_int v) h) else (Some err, h))"

definition and_then :: "string option \<times> 's \<Rightarrow> ('s \<Rightarrow> string option \<times> 's) \<Rightarrow> string option \<times> 's" where
  "and_then r f = (case fst r of None \<Rightarrow> f (snd r) | Some e \<Rightarrow> r)"

definition web_cmd_exec_cfg :: "(nat \<Rightarrow> u32) \<Rightarrow> hub_env \<Rightarrow> string \<Rightarrow> hub_st \<Rightarrow> string option \<times> hub_st" where
  "web_cmd_exec_cfg over E json h =
     and_then (and_then (and_then (and_then (cfg_ip over E json h)
       (cfg_num E json ''rs485'' (\<lambda>v. 1200 \<le> v \<and> v \<le> 115200) ''invalid rs485 baud'' HOLDING_RS485_BAUDRATE))
       (cfg_num E json ''sid'' (\<lambda>v. 1 \<le> v \<and> v \<le> 247) ''invalid slave id'' HOLDING_SLAVE_ID))
       (cfg_num E json ''can_bps'' (\<lambda>v. v = 50 \<or> v = 100 \<or> v = 125 \<or> v = 250 \<or> v = 500 \<or> v = 800 \<or> v = 1000)
         ''invalid can baud'' HOLDING_CAN_BAUDRATE))
       (cfg_num E json ''can_id'' (\<lambda>v. 1 \<le> v \<and> v \<le> 0x7FF) ''invalid can id'' HOLDING_CAN_ID)"

section \<open>JSON builders\<close>

definition dec_int :: "int \<Rightarrow> string" where
  "dec_int i = (if i < 0 then ''-'' @ dec_text (nat (- i)) else dec_text (nat i))"

definition json_key :: "string \<Rightarrow> string" where
  "json_key k = [quote] @ k @ [quote] @ '':''"

definition json_str :: "string \<Rightarrow> string" where
  "json_str v = [quote] @ v @ [quote]"

text \<open>The loops print a comma before every element but the first.\<close>

definition comma_list :: "nat list \<Rightarrow> string" where
  "comma_list ns = concat (map (\<lambda>i. (if i \<noteq> 0 then '','' else []) @ dec_text (ns ! i)) [0..<length ns])"

definition ws_io_build_status :: "int \<Rightarrow> hub_st \<Rightarrow> string" where
  "ws_io_build_status now h =
     (let di = get_input_reg (input_idx INPUT_DI) h; do_v = get_holding_reg (holding_idx HOLDING_DO) h;
          di_en = get_holding_reg (holding_idx HOLDING_DI_ENABLE) h; ai_en = get_holding_reg (holding_idx HOLDING_AI_ENABLE) h in
      ''{'' @ json_key ''t'' @ json_str ''io'' @ '','' @ json_key ''di'' @ ''['' @
      comma_list (map (\<lambda>i. if bit di i then 1 else 0) [0..<DI_NUM]) @ ''],'' @ json_key ''do'' @ ''['' @
      comma_list (map (\<lambda>i. if bit do_v i then 1 else 0) [0..<DO_NUM]) @ ''],'' @ json_key ''ai'' @ ''['' @
      comma_list (map (\<lambda>i. unat (get_input_reg (input_idx INPUT_AI0 + of_nat i) h)) [0..<AI_NUM]) @ ''],'' @
      json_key ''di_en'' @ dec_text (unat di_en) @ '','' @ json_key ''ai_en'' @ dec_text (unat ai_en) @ '','' @
      json_key ''ms'' @ dec_int now @ ''}'')"

definition web_build_regs_json :: "hub_env \<Rightarrow> hub_st \<Rightarrow> string" where
  "web_build_regs_json E h =
     ''{'' @ json_key ''t'' @ json_str ''regs'' @ '','' @ json_key ''holding'' @ ''['' @
     comma_list (map (\<lambda>i. unat (io_read_holding (of_nat i) h)) [0..<n_holding E]) @ ''],'' @ json_key ''input'' @ ''['' @
     comma_list (map (\<lambda>i. unat (get_input_reg (of_nat i) h)) [0..<n_input E]) @ '']}''"

text \<open>What the device tells about itself: build constants, network and file system state.\<close>

record web_id =
  id_version :: string
  id_build :: string
  id_board :: string
  id_hclk_mhz :: nat
  id_flash_kb :: int
  id_sram_kb :: int
  id_mac :: "bytes option"
  id_lfs :: "(nat \<times> nat) option"

definition hex2 :: "u8 \<Rightarrow> string" where
  "hex2 b = (let d = (\<lambda>n. if n < 10 then char_of (48 + n) else char_of (87 + n)) in
     [d (unat b div 16), d (unat b mod 16)])"

definition mac_str :: "bytes option \<Rightarrow> string" where
  "mac_str ll = (case ll of None \<Rightarrow> ''00:00:00:00:00:00'' | Some a \<Rightarrow>
     if length a = 6 then hex2 (a ! 0) @ '':'' @ hex2 (a ! 1) @ '':'' @ hex2 (a ! 2) @ '':'' @ hex2 (a ! 3) @ '':'' @
       hex2 (a ! 4) @ '':'' @ hex2 (a ! 5)
     else ''00:00:00:00:00:00'')"

definition json_reg :: "string \<Rightarrow> holding_reg_idx \<Rightarrow> hub_st \<Rightarrow> string" where
  "json_reg k r h = json_key k @ dec_text (unat (get_holding_reg (holding_idx r) h))"

definition reg_text :: "holding_reg_idx \<Rightarrow> hub_st \<Rightarrow> string" where
  "reg_text r h = dec_text (unat (get_holding_reg (holding_idx r) h))"

text \<open>The text is cut at the buffer; what is sent then has the buffer's length, its last byte the NUL.\<close>

definition web_build_info_json :: "web_id \<Rightarrow> int \<Rightarrow> nat \<Rightarrow> hub_st \<Rightarrow> string" where
  "web_build_info_json I now bufsz h =
     (let (lfs_free, lfs_total) = (case id_lfs I of None \<Rightarrow> (0, 0) | Some p \<Rightarrow> p);
          t = ''{'' @ json_key ''t'' @ json_str ''info'' @ '','' @
       json_key ''version'' @ json_str (id_version I) @ '','' @ json_key ''build'' @ json_str (id_build I) @ '','' @
       json_key ''board'' @ json_str (id_board I) @ '','' @ json_key ''hclk_mhz'' @ dec_text (id_hclk_mhz I) @ '','' @
       json_key ''flash_kb'' @ dec_int (id_flash_kb I) @ '','' @ json_key ''sram_kb'' @ dec_int (id_sram_kb I) @ '','' @
       json_key ''mac'' @ json_str (mac_str (id_mac I)) @ '','' @
       json_key ''ip'' @ json_str (reg_text HOLDING_IP_OCTET1 h @ ''.'' @ reg_text HOLDING_IP_OCTET2 h @ ''.'' @
         reg_text HOLDING_IP_OCTET3 h @ ''.'' @ reg_text HOLDING_IP_OCTET4 h) @ '','' @
       json_reg ''slave_id'' HOLDING_SLAVE_ID h @ '','' @ json_reg ''rs485_baud'' HOLDING_RS485_BAUDRATE h @ '','' @
       json_reg ''can_id'' HOLDING_CAN_ID h @ '','' @ json_reg ''can_baud'' HOLDING_CAN_BAUDRATE h @ '','' @
       json_key ''uptime_ms'' @ dec_int now @ '','' @ json_key ''time'' @ dec_int (sys_clock h) @ '','' @
       json_key ''hist_en'' @ (if get_holding_reg (holding_idx HOLDING_HISTORY_ENABLE) h \<noteq> 0 then ''1'' else ''0'') @ '','' @
       json_key ''lfs_free'' @ dec_text lfs_free @ '','' @ json_key ''lfs_total'' @ dec_text lfs_total @ '','' @
       json_key ''net_up'' @ (if net_link_is_up h then ''true'' else ''false'') @ '','' @
       json_reg ''di_ms'' HOLDING_DI_SAMPLE_MS h @ '','' @ json_reg ''ai_ms'' HOLDING_AI_SAMPLE_MS h @ ''}'' in
      if length t < bufsz then t else take (bufsz - 1) t @ [CHR 0x00])"

end
