(* ===== verification/WebHttp.thy ===== *)
theory WebHttp imports WebJson FtpServer begin

text \<open>
  The HTTP handlers of the web server (\<open>web/httpd.c\<close>): the shared body buffer, the query and control
  handlers, and the listing, download and removal of history files.  The HTTP server of the RTOS calls
  a handler once per chunk with a transaction status; the file services are those of \<open>ftp_env\<close>.
\<close>

section \<open>Transactions and responses\<close>

datatype http_status = DATA_MORE | DATA_FINAL | ABORTED | COMPLETE

datatype http_code = HTTP_200_OK | HTTP_400_BAD_REQUEST

record http_rsp =
  rsp_code :: "http_code option"
  rsp_body :: bytes
  rsp_name :: "string option"
  rsp_final :: bool

definition no_rsp :: http_rsp where
  "no_rsp = \<lparr>rsp_code = None, rsp_body = [], rsp_name = None, rsp_final = False\<rparr>"

definition JSON_OK :: string where
  "JSON_OK = ''{'' @ json_key ''ok'' @ ''true}''"

definition respond_text :: "string \<Rightarrow> http_rsp" where
  "respond_text t = \<lparr>rsp_code = Some HTTP_200_OK, rsp_body = text_bytes t, rsp_name = None, rsp_final = True\<rparr>"

definition respond_json_ok :: http_rsp where
  "respond_json_ok = respond_text JSON_OK"

definition err_text :: "string \<Rightarrow> string" where
  "err_text err = ''{'' @ json_key ''ok'' @ ''false,'' @ json_key ''err'' @ json_str err @ ''}''"

definition respond_json_err :: "string \<Rightarrow> http_rsp" where
  "respond_json_err err =
     \<lparr>rsp_code = Some HTTP_400_BAD_REQUEST, rsp_body = text_bytes (take 95 (err_text err)), rsp_name = None, rsp_final = True\<rparr>"

section \<open>The body buffer\<close>

definition BODY_MAX :: nat where "BODY_MAX = 128"

text \<open>
  The contents of the buffer with its length; \<open>body_behind\<close> records that the byte behind the buffer
  was written, which happens when the terminating NUL goes to index 128.
\<close>

record http_body =
  body_buf :: string
  body_done :: bool
  body_rejected :: bool
  body_behind :: bool

definition body_zero :: http_body where
  "body_zero = \<lparr>body_buf = [], body_done = False, body_rejected = False, body_behind = False\<rparr>"

definition body_reset :: "http_body \<Rightarrow> http_body" where
  "body_reset b = b\<lparr>body_buf := [], body_done := False, body_rejected := False\<rparr>"

definition body_finalize :: "http_body \<Rightarrow> http_body" where
  "body_finalize b = b\<lparr>body_done := True\<rparr>"

definition body_append :: "string \<Rightarrow> http_body \<Rightarrow> bool \<times> http_body" where
  "body_append d b =
     (let b = (if body_done b then b\<lparr>body_buf := [], body_done := False\<rparr> else b) in
      if body_rejected b \<or> length (body_buf b) + length d > BODY_MAX then (False, b\<lparr>body_rejected := True\<rparr>)
      else let buf = body_buf b @ d in
        (True, b\<lparr>body_buf := buf, body_behind := (body_behind b \<or> length buf \<ge> BODY_MAX)\<rparr>))"

section \<open>Queries\<close>

definition info_handler :: "web_id \<Rightarrow> int \<Rightarrow> http_status \<Rightarrow> hub_st \<Rightarrow> http_rsp" where
  "info_handler I now st h = (if st \<noteq> DATA_FINAL then no_rsp else respond_text (web_build_info_json I now 640 h))"

definition io_handler :: "int \<Rightarrow> http_status \<Rightarrow> hub_st \<Rightarrow> http_rsp" where
  "io_handler now st h = (if st \<noteq> DATA_FINAL then no_rsp else respond_text (ws_io_build_status now h))"

definition regs_handler :: "hub_env \<Rightarrow> http_status \<Rightarrow> hub_st \<Rightarrow> http_rsp" where
  "regs_handler E st h = (if st \<noteq> DATA_FINAL then no_rsp else respond_text (web_build_regs_json E h))"

section \<open>Control commands\<close>

text \<open>What the handlers with a body share; \<open>ex\<close> runs the command on the complete body.\<close>

definition post_handler ::
  "(string \<Rightarrow> 's \<Rightarrow> http_rsp \<times> 's) \<Rightarrow> http_status \<Rightarrow> string \<Rightarrow> http_body \<times> 's \<Rightarrow> http_rsp \<times> http_body \<times> 's" where
  "post_handler ex st d bh = (case bh of (b, h) \<Rightarrow>
     if st = ABORTED \<or> st = COMPLETE then (no_rsp, body_reset b, h)
     else
       let (ok, b) = body_append d b in
       if \<not> ok then (if st = DATA_FINAL then respond_json_err ''body too large'' else no_rsp, b, h)
       else if st \<noteq> DATA_FINAL then (no_rsp, b, h)
       else let (r, h) = ex (body_buf b) h in (r, body_finalize b, h))"

definition run_do :: "hub_env \<Rightarrow> string \<Rightarrow> hub_st \<Rightarrow> http_rsp \<times> hub_st" where
  "run_do E body h =
     (case (json_get_i32 ''index'' body, json_get_i32 ''value'' body) of
        (Some index, Some v) \<Rightarrow>
          let (rc, h) = web_cmd_exec_do E index v h in
          (if rc = 0 then respond_json_ok else respond_json_err ''invalid index/value'', h)
      | _ \<Rightarrow> (respond_json_err ''invalid index/value'', h))"

definition api_do_handler :: "hub_env \<Rightarrow> http_status \<Rightarrow> string \<Rightarrow> http_body \<times> hub_st \<Rightarrow> http_rsp \<times> http_body \<times> hub_st" where
  "api_do_handler E = post_handler (run_do E)"

definition run_reg :: "hub_env \<Rightarrow> string \<Rightarrow> hub_st \<Rightarrow> http_rsp \<times> hub_st" where
  "run_reg E body h =
     (case (json_get_i32 ''addr'' body, json_get_i32 ''value'' body) of
        (Some addr, Some v) \<Rightarrow>
          let (rc, h) = web_cmd_exec_reg E addr v h in
          (if rc = 0 then respond_json_ok else respond_json_err ''invalid addr/value'', h)
      | _ \<Rightarrow> (respond_json_err ''invalid addr/value'', h))"

definition reg_handler :: "hub_env \<Rightarrow> http_status \<Rightarrow> string \<Rightarrow> http_body \<times> hub_st \<Rightarrow> http_rsp \<times> http_body \<times> hub_st" where
  "reg_handler E = post_handler (run_reg E)"

definition run_time :: "hub_env \<Rightarrow> string \<Rightarrow> hub_st \<Rightarrow> http_rsp \<times> hub_st" where
  "run_time E body h =
     (case json_get_i32 ''ts'' body of
        None \<Rightarrow> (respond_json_err ''invalid timestamp'', h)
      | Some ts \<Rightarrow> let (ok, h) = set_timestamp E ts h in
          (if ok then respond_json_ok else respond_json_err ''invalid timestamp'', h))"

definition api_time_handler :: "hub_env \<Rightarrow> http_status \<Rightarrow> string \<Rightarrow> http_body \<times> hub_st \<Rightarrow> http_rsp \<times> http_body \<times> hub_st" where
  "api_time_handler E = post_handler (run_time E)"

definition run_cfg :: "(nat \<Rightarrow> u32) \<Rightarrow> hub_env \<Rightarrow> string \<Rightarrow> hub_st \<Rightarrow> http_rsp \<times> hub_st" where
  "run_cfg over E body h =
     (let (err, h) = web_cmd_exec_cfg over E body h in
      (case err of None \<Rightarrow> respond_json_ok | Some e \<Rightarrow> respond_json_err e, h))"

definition cfg_handler :: "(nat \<Rightarrow> u32) \<Rightarrow> hub_env \<Rightarrow> http_status \<Rightarrow> string \<Rightarrow> http_body \<times> hub_st \<Rightarrow> http_rsp \<times> http_body \<times> hub_st" where
  "cfg_handler over E = post_handler (run_cfg over E)"

definition save_handler :: "http_status \<Rightarrow> http_body \<times> hub_st \<Rightarrow> http_rsp \<times> http_body \<times> hub_st" where
  "save_handler st bh = (case bh of (b, h) \<Rightarrow>
     if st = DATA_FINAL then (respond_json_ok, body_finalize b, holding_reg_save h) else (no_rsp, b, h))"

definition reboot_handler :: "http_status \<Rightarrow> hub_st \<Rightarrow> http_rsp \<times> hub_st" where
  "reboot_handler st h = (if st = DATA_FINAL then (respond_json_ok, set_reboot_status True h) else (no_rsp, h))"

section \<open>History files\<close>

definition HIST_DIR :: string where "HIST_DIR = ''/lfs1''"

definition hist_entry :: "bool \<Rightarrow> dirent \<Rightarrow> string" where
  "hist_entry first ent = (if first then [] else '','') @ ''{'' @ json_key ''name'' @ json_str (de_name ent) @ '','' @
     json_key ''size'' @ dec_text (unat (de_size ent)) @ ''}''"

text \<open>The loop stops 64 characters before the end of the buffer of 640.\<close>

fun hist_list :: "dirent list \<Rightarrow> bool \<Rightarrow> string \<Rightarrow> string" where
  "hist_list [] first t = t"
| "hist_list (e # es) first t =
     (if \<not> de_file e \<or> \<not> hist_name_valid (de_name e) then hist_list es first t
      else let t = t @ hist_entry first e in
        if length t \<ge> 640 - 64 then t else hist_list es False t)"

definition web_sync :: "('w, 'h, 'n) ftp_env \<Rightarrow> 'w his_st \<Rightarrow> 'w his_st" where
  "web_sync F s = (case history_sync (hist_fs F) (\<lambda>_. False) s of None \<Rightarrow> s | Some t \<Rightarrow> t)"

definition history_json :: "('w, 'h, 'n) ftp_env \<Rightarrow> 'w \<Rightarrow> string" where
  "history_json F w =
     (let t = ''{'' @ json_key ''files'' @ ''['' in
      (case ff_entries F HIST_DIR w of None \<Rightarrow> t | Some es \<Rightarrow> hist_list es True t) @ '']}'')"

definition history_handler :: "('w, 'h, 'n) ftp_env \<Rightarrow> http_status \<Rightarrow> 'w his_st \<Rightarrow> http_rsp \<times> 'w his_st" where
  "history_handler F st s =
     (if st \<noteq> DATA_FINAL then (no_rsp, s)
      else let s = web_sync F s in (respond_text (history_json F (his_w s)), s))"

record ('w, 'h) web_dl =
  dl_his :: "'w his_st"
  dl_open :: "'h option"
  dl_started :: bool
  dl_remain :: u32

definition dl_disk :: "('w, 'h) web_dl \<Rightarrow> 'w" where
  "dl_disk s = his_w (dl_his s)"

definition dl_close :: "('w, 'h, 'n) ftp_env \<Rightarrow> ('w, 'h) web_dl \<Rightarrow> ('w, 'h) web_dl" where
  "dl_close F s = (case dl_open s of None \<Rightarrow> s
     | Some h \<Rightarrow> s\<lparr>dl_his := (dl_his s)\<lparr>his_w := ff_close F h (dl_disk s)\<rparr>, dl_open := None\<rparr>)"

text \<open>The first call of a transaction: find and open the file, or the error that ends it.\<close>

definition dl_begin :: "('w, 'h, 'n) ftp_env \<Rightarrow> string \<Rightarrow> ('w, 'h) web_dl \<Rightarrow> (http_rsp + string) \<times> ('w, 'h) web_dl" where
  "dl_begin F query s =
     (let s = s\<lparr>dl_started := True, dl_his := web_sync F (dl_his s)\<rparr> in
      case url_query_get ''name'' 32 query of
        None \<Rightarrow> (Inl (respond_json_err ''invalid file name''), s)
      | Some name \<Rightarrow>
          if \<not> hist_name_valid name then (Inl (respond_json_err ''invalid file name''), s)
          else let path = take 47 (HIST_DIR @ ''/'' @ name) in
            case ff_stat F path (dl_disk s) of
              None \<Rightarrow> (Inl (respond_json_err ''file not found''), s)
            | Some ent \<Rightarrow>
                if \<not> de_file ent then (Inl (respond_json_err ''file not found''), s)
                else let ((rc, h), w) = ff_open F path \<lparr>o_create = False, o_write = False, o_trunc = False, o_append = False\<rparr> (dl_disk s);
                         s = s\<lparr>dl_his := (dl_his s)\<lparr>his_w := w\<rparr>\<rparr> in
                  if rc \<noteq> 0 then (Inl (respond_json_err ''open failed''), s)
                  else (Inr name, s\<lparr>dl_open := Some h, dl_remain := de_size ent\<rparr>))"

definition DL_CHUNK :: nat where "DL_CHUNK = 512"

text \<open>One block of the file.\<close>

definition dl_block :: "('w, 'h, 'n) ftp_env \<Rightarrow> http_rsp \<Rightarrow> ('w, 'h) web_dl \<Rightarrow> http_rsp \<times> ('w, 'h) web_dl" where
  "dl_block F r s =
     (case dl_open s of None \<Rightarrow> (r\<lparr>rsp_final := True\<rparr>, s)
      | Some h \<Rightarrow>
          (case ff_read F h DL_CHUNK (dl_disk s) of
             (None, h) \<Rightarrow> (r\<lparr>rsp_body := [], rsp_final := True\<rparr>, dl_close F (s\<lparr>dl_open := Some h\<rparr>))
           | (Some c, h) \<Rightarrow>
               let s = s\<lparr>dl_open := Some h, dl_remain := dl_remain s - of_nat (length c)\<rparr> in
               if c = [] \<or> dl_remain s = 0
               then (r\<lparr>rsp_body := c, rsp_final := True\<rparr>, dl_close F s)
               else (r\<lparr>rsp_body := c, rsp_final := False\<rparr>, s)))"

definition download_handler :: "('w, 'h, 'n) ftp_env \<Rightarrow> http_status \<Rightarrow> string \<Rightarrow> ('w, 'h) web_dl \<Rightarrow> http_rsp \<times> ('w, 'h) web_dl" where
  "download_handler F st query s =
     (if st = ABORTED \<or> st = COMPLETE then (no_rsp, (dl_close F s)\<lparr>dl_started := False\<rparr>)
      else if dl_started s then dl_block F no_rsp s
      else case dl_begin F query s of
          (Inl r, s) \<Rightarrow> (r, s)
        | (Inr name, s) \<Rightarrow> dl_block F (no_rsp\<lparr>rsp_code := Some HTTP_200_OK, rsp_name := Some name\<rparr>) s)"

definition run_hist_del :: "('w, 'h, 'n) ftp_env \<Rightarrow> string \<Rightarrow> 'w \<Rightarrow> http_rsp \<times> 'w" where
  "run_hist_del F body w =
     (case json_get_str ''name'' 32 body of None \<Rightarrow> (respond_json_err ''delete failed'', w)
      | Some name \<Rightarrow>
          if \<not> hist_name_valid name then (respond_json_err ''delete failed'', w)
          else let (rc, w) = ff_unlink F (take 47 (HIST_DIR @ ''/'' @ name)) w in
            (if rc = 0 then respond_json_ok else respond_json_err ''delete failed'', w))"

definition hist_del_handler :: "('w, 'h, 'n) ftp_env \<Rightarrow> http_status \<Rightarrow> string \<Rightarrow> http_body \<times> 'w \<Rightarrow> http_rsp \<times> http_body \<times> 'w" where
  "hist_del_handler F = post_handler (run_hist_del F)"

end
