(* ===== verification/WsIo.thy ===== *)
theory WsIo imports WebHttp UpgradeLock begin

text \<open>
  The WebSocket of the web server (\<open>web/ws_io.c\<close>): its commands, the firmware upgrade they drive, the
  loop of a connection and the single connection slot.  The mutex of the upgrade state guards fields
  that only this thread writes; each guarded access is a step of its own and none is left out.
\<close>

section \<open>State\<close>

record ('w, 'f) ws_env =
  ws_hub_env :: hub_env
  ws_fs :: "'w his_fs"
  ws_flash :: "'f flash_api"
  ws_crc16 :: "u16 \<Rightarrow> bytes \<Rightarrow> u16"
  ws_keyhash :: bytes
  ws_b64 :: "string \<Rightarrow> bytes option"
  ws_over :: "nat \<Rightarrow> u32"
  ws_reset_rcs :: "int \<times> int"

text \<open>\<open>fw_upg\<close> with the flash behind its image writer, the upgrade lock and the application's state.\<close>

record ('w, 'f) ws_st =
  ws_his :: "'w his_st"
  ws_fic :: 'f
  ws_lock :: lock_st
  upg_active :: bool
  upg_failed :: bool
  upg_total :: u32
  upg_received :: u32
  upg_crc :: u16

abbreviation ws_hub :: "('w, 'f) ws_st \<Rightarrow> hub_st" where
  "ws_hub s \<equiv> his_hub (ws_his s)"

definition set_ws_hub :: "hub_st \<Rightarrow> ('w, 'f) ws_st \<Rightarrow> ('w, 'f) ws_st" where
  "set_ws_hub h s = s\<lparr>ws_his := (ws_his s)\<lparr>his_hub := h\<rparr>\<rparr>"

section \<open>Checking an image\<close>

definition FW_KEYHASH_KEY_LEN :: nat where "FW_KEYHASH_KEY_LEN = 32"
definition WS_IMG_MAGIC :: u32 where "WS_IMG_MAGIC = 0x96F3B83D"
definition WS_TLV_INFO_MAGIC :: u16 where "WS_TLV_INFO_MAGIC = 0x6907"
definition WS_TLV_KEYHASH :: u16 where "WS_TLV_KEYHASH = 0x0001"

definition fw_upg_verify_client_keyhash :: "('w, 'f) ws_env \<Rightarrow> string option \<Rightarrow> bool" where
  "fw_upg_verify_client_keyhash E b64 =
     (case b64 of None \<Rightarrow> True
      | Some t \<Rightarrow>
          if t = [] then True
          else case ws_b64 E t of None \<Rightarrow> False
            | Some k \<Rightarrow> if length k \<noteq> FW_KEYHASH_KEY_LEN then False else k = ws_keyhash E)"

definition fw_upg_reset :: "('w, 'f) ws_st \<Rightarrow> ('w, 'f) ws_st" where
  "fw_upg_reset s = s\<lparr>upg_active := False, upg_failed := False, upg_total := 0, upg_received := 0, upg_crc := 0,
     ws_lock := fw_upgrade_unlock CHANNEL_WS (ws_lock s)\<rparr>"

text \<open>The read-back loop is the one of the UDP library, character by character.\<close>

definition fw_upg_verify_crc :: "('w, 'f) ws_env \<Rightarrow> ('w, 'f) ws_st \<Rightarrow> bool" where
  "fw_upg_verify_crc E s =
     (let F = ws_flash E; w = ws_fic s in
      if fa_open F Slot1 w \<noteq> 0 then False
      else crc_loop F (ws_crc16 E) w (unat (img_bytes_written F w)) 0 0 = Some (upg_crc s))"

text \<open>
  The scan for the key hash: the offsets are 32-bit and wrap, so the loop is one that may not end;
  a result \<open>Some ok\<close> is the value it returns.
\<close>

partial_function (option) keyhash_scan ::
  "'f flash_api \<Rightarrow> 'f \<Rightarrow> u32 \<Rightarrow> bytes \<Rightarrow> u32 \<Rightarrow> bool option" where
  "keyhash_scan F w received key off =
     (if off + 4 \<le> received
      then let (rc, hdr) = fa_read F Slot1 off 4 w in
        if rc \<noteq> 0 then Some False
        else let tp = get_le16 hdr; len = get_le16 (drop 2 hdr) in
          if tp = 0 \<or> len = 0 \<or> off + 4 + ucast len > received then Some False
          else if tp = WS_TLV_KEYHASH \<and> len = of_nat FW_KEYHASH_KEY_LEN
          then let (rc, kh) = fa_read F Slot1 (off + 4) FW_KEYHASH_KEY_LEN w in Some (rc = 0 \<and> kh = key)
          else keyhash_scan F w received key (off + (4 + ucast len))
      else Some False)"

definition fw_upg_verify_keyhash :: "('w, 'f) ws_env \<Rightarrow> ('w, 'f) ws_st \<Rightarrow> bool option" where
  "fw_upg_verify_keyhash E s =
     (let F = ws_flash E; w = ws_fic s; received = upg_received s in
      if fa_open F Slot1 w \<noteq> 0 then Some False
      else let (rc, hdr) = fa_read F Slot1 0 32 w in
        if rc \<noteq> 0 \<or> get_le32 hdr \<noteq> WS_IMG_MAGIC then Some False
        else
          let hdr_size = (ucast (get_le16 (drop 8 hdr)) :: u32);
              img_size = get_le32 (drop 12 hdr);
              tlv_off = hdr_size + img_size in
          if hdr_size < 32 \<or> hdr_size AND 3 \<noteq> 0 \<or> tlv_off mod 4 \<noteq> 0 \<or> tlv_off + 4 > received then Some False
          else let (rc, tlv) = fa_read F Slot1 tlv_off 4 w in
            if rc \<noteq> 0 \<or> get_le16 tlv \<noteq> WS_TLV_INFO_MAGIC then Some False
            else keyhash_scan F w received (ws_keyhash E) (tlv_off + 4))"

section \<open>Commands\<close>

definition ws_ok :: string where "ws_ok = JSON_OK"
definition ws_err :: "string \<Rightarrow> string" where "ws_err e = err_text e"

definition ws_bool :: "bool \<Rightarrow> string" where
  "ws_bool b = ''{'' @ json_key ''ok'' @ (if b then ''true}'' else ''false}'')"

text \<open>\<open>fw_start\<close> after the lock was taken: everything up to the open session, or the error.\<close>

definition ws_open_session :: "('w, 'f) ws_env \<Rightarrow> string \<Rightarrow> int \<Rightarrow> ('w, 'f) ws_st \<Rightarrow> string \<times> ('w, 'f) ws_st" where
  "ws_open_session E cmd announced s =
     (if \<not> fw_upg_verify_client_keyhash E (json_get_str ''keyhash'' 64 cmd) then (ws_err ''keyhash mismatch'', s)
      else let F = ws_flash E in
        if fa_open F Slot1 (ws_fic s) \<noteq> 0 then (ws_err ''flash open'', s)
        else let (rc, w) = fa_erase F Slot1 0 (round_up32 (of_int announced) 4096) (ws_fic s) in
          if rc \<noteq> 0 then (ws_err ''erase/init'', s\<lparr>ws_fic := w\<rparr>)
          else let (rc, w) = img_init F Slot1 w in
            if rc \<noteq> 0 then (ws_err ''erase/init'', s\<lparr>ws_fic := w\<rparr>)
            else (ws_ok, s\<lparr>ws_fic := w, upg_active := True, upg_total := of_int announced\<rparr>))"

definition ws_fw_start :: "('w, 'f) ws_env \<Rightarrow> string \<Rightarrow> ('w, 'f) ws_st \<Rightarrow> string \<times> ('w, 'f) ws_st" where
  "ws_fw_start E cmd s =
     (let announced = (case json_get_i32 ''size'' cmd of None \<Rightarrow> 0 | Some v \<Rightarrow> v) in
      if upg_active s then (ws_err ''already in progress'', s)
      else if announced \<le> 0 then (ws_err ''bad size'', s)
      else let (got, l) = fw_upgrade_try_lock CHANNEL_WS (ws_lock s); s = s\<lparr>ws_lock := l\<rparr> in
        if \<not> got then (ws_err ''upgrade in progress'', s)
        else let (r, s) = ws_open_session E cmd announced s in
          (r, if \<not> upg_active s then s\<lparr>ws_lock := fw_upgrade_unlock CHANNEL_WS (ws_lock s)\<rparr> else s))"

definition ws_sync :: "('w, 'f) ws_env \<Rightarrow> ('w, 'f) ws_st \<Rightarrow> ('w, 'f) ws_st" where
  "ws_sync E s = (case history_sync (ws_fs E) (\<lambda>_. False) (ws_his s) of None \<Rightarrow> s | Some h \<Rightarrow> s\<lparr>ws_his := h\<rparr>)"

text \<open>The verdict on a finished transfer: the error text, or \<open>None\<close> with the boot requested.\<close>

definition ws_fw_verdict :: "('w, 'f) ws_env \<Rightarrow> ('w, 'f) ws_st \<Rightarrow> (string option \<times> ('w, 'f) ws_st) option" where
  "ws_fw_verdict E s =
     (if upg_received s = 0 then Some (Some ''no data'', s)
      else if upg_received s \<noteq> upg_total s then Some (Some ''size mismatch'', s)
      else if \<not> fw_upg_verify_crc E s then Some (Some ''crc mismatch'', s)
      else case fw_upg_verify_keyhash E s of
          None \<Rightarrow> None
        | Some ok \<Rightarrow>
            if \<not> ok then Some (Some ''keyhash mismatch'', s)
            else let (rc, w) = boot_request (ws_flash E) 1 (ws_fic s); s = s\<lparr>ws_fic := w\<rparr> in
              Some (if rc \<noteq> 0 then Some ''boot_request'' else None, s))"

definition ws_fw_end :: "('w, 'f) ws_env \<Rightarrow> ('w, 'f) ws_st \<Rightarrow> (string \<times> ('w, 'f) ws_st) option" where
  "ws_fw_end E s =
     (if \<not> upg_active s then Some (ws_err ''not in progress'', s)
      else
        let s = s\<lparr>ws_fic := snd (img_write (ws_flash E) [] True (ws_fic s))\<rparr> in
        map_option (\<lambda>(err, s). case err of
            Some e \<Rightarrow> (ws_err e, fw_upg_reset s)
          | None \<Rightarrow> let s = ws_sync E s in (ws_ok, set_ws_hub (set_reboot_status True (ws_hub s)) s))
          (ws_fw_verdict E s))"

definition prefix_of :: "string \<Rightarrow> string \<Rightarrow> bool" where
  "prefix_of p t \<longleftrightarrow> take (length p) t = p"

text \<open>
  \<open>ws_handle_cmd\<close>: the text is what follows the \<open>"cmd"\<close> key; the result is the frame sent back.
  \<open>factory_reset\<close> is compared without its closing quote, as the length 14 in the source does.
\<close>

definition ws_handle_cmd :: "('w, 'f) ws_env \<Rightarrow> int \<Rightarrow> string \<Rightarrow> ('w, 'f) ws_st \<Rightarrow> (string \<times> ('w, 'f) ws_st) option" where
  "ws_handle_cmd E now cmd s =
     (let H = ws_hub_env E; h = ws_hub s; i32 = (\<lambda>k. json_get_i32 k cmd) in
      if prefix_of (json_str ''do'') cmd \<and> i32 ''index'' \<noteq> None \<and> i32 ''value'' \<noteq> None
      then let (rc, h) = web_cmd_exec_do H (the (i32 ''index'')) (the (i32 ''value'')) h; s = set_ws_hub h s in
        Some (if rc = 0 then ws_io_build_status now h else ws_err ''bad index'', s)
      else if prefix_of (json_str ''reg'') cmd \<and> i32 ''addr'' \<noteq> None \<and> i32 ''value'' \<noteq> None
      then let (rc, h) = web_cmd_exec_reg H (the (i32 ''addr'')) (the (i32 ''value'')) h in
        Some (ws_bool (rc = 0), set_ws_hub h s)
      else if prefix_of (json_str ''time'') cmd \<and> i32 ''ts'' \<noteq> None
      then let (ok, h) = set_timestamp H (the (i32 ''ts'')) h in Some (ws_bool ok, set_ws_hub h s)
      else if prefix_of (json_str ''cfg'') cmd
      then let (err, h) = web_cmd_exec_cfg (ws_over E) H cmd h in
        Some (case err of None \<Rightarrow> ws_ok | Some e \<Rightarrow> ws_err e, set_ws_hub h s)
      else if prefix_of (json_str ''save'') cmd then Some (ws_ok, set_ws_hub (holding_reg_save h) s)
      else if prefix_of (quote # ''factory_reset'') cmd
      then let (rc, h) = settings_factory_reset (fst (ws_reset_rcs E)) (snd (ws_reset_rcs E)) h in
        Some (if rc = 0 then (ws_ok, set_ws_hub (set_reboot_status True h) s) else (ws_err ''erase failed'', set_ws_hub h s))
      else if prefix_of (json_str ''fw_start'') cmd then Some (ws_fw_start E cmd s)
      else if prefix_of (json_str ''fw_end'') cmd then ws_fw_end E s
      else Some (ws_err ''unknown cmd'', s))"

section \<open>A connection\<close>

text \<open>A binary frame is firmware data.\<close>

definition ws_binary :: "('w, 'f) ws_env \<Rightarrow> bytes \<Rightarrow> ('w, 'f) ws_st \<Rightarrow> ('w, 'f) ws_st" where
  "ws_binary E d s =
     (if \<not> (upg_active s \<and> \<not> upg_failed s) then s
      else let (rc, w) = img_write (ws_flash E) d False (ws_fic s); s = s\<lparr>ws_fic := w\<rparr> in
        if rc = 0 then s\<lparr>upg_crc := ws_crc16 E (upg_crc s) d, upg_received := upg_received s + of_nat (length d)\<rparr>
        else s\<lparr>upg_failed := True\<rparr>)"

datatype ws_frame = WsText string | WsBinary bytes | WsOther | WsTimeout | WsClosed

text \<open>What one received message does: the frames sent and the new state; \<open>WsClosed\<close> is in the loop.\<close>

definition ws_frame_in :: "('w, 'f) ws_env \<Rightarrow> int \<Rightarrow> ws_frame \<Rightarrow> ('w, 'f) ws_st \<Rightarrow> (string list \<times> ('w, 'f) ws_st) option" where
  "ws_frame_in E now fr s =
     (case fr of
        WsText t \<Rightarrow>
          if t = [] then Some ([], s)
          else (case json_find_value ''cmd'' t of None \<Rightarrow> Some ([], s)
            | Some cmd \<Rightarrow> map_option (\<lambda>(r, s). ([r], s)) (ws_handle_cmd E now cmd s))
      | WsBinary d \<Rightarrow> Some ([], if d = [] then s else ws_binary E d s)
      | _ \<Rightarrow> Some ([], s))"

definition WS_PUSH_MS :: int where "WS_PUSH_MS = 1000"
definition WS_INFO_MS :: int where "WS_INFO_MS = 10000"

record ws_timer =
  last_push :: int
  last_info :: int

text \<open>
  One round of the loop: the message, then the frames that are due.  \<open>clk\<close> gives the uptime at the
  successive readings of the clock in the round; \<open>send_ok\<close> tells for each frame pushed whether it could
  be sent; the result says whether the connection stays.
\<close>

definition ws_round ::
  "('w, 'f) ws_env \<Rightarrow> web_id \<Rightarrow> (nat \<Rightarrow> int) \<Rightarrow> (nat \<Rightarrow> bool) \<Rightarrow> ws_frame \<Rightarrow> ws_timer \<Rightarrow> ('w, 'f) ws_st \<Rightarrow>
     (bool \<times> string list \<times> ws_timer \<times> ('w, 'f) ws_st) option" where
  "ws_round E I clk send_ok fr t s =
     (if fr = WsClosed then Some (False, [], t, s)
      else case ws_frame_in E (clk 0) fr s of
          None \<Rightarrow> None
        | Some (out, s) \<Rightarrow>
            let push = clk 1 - last_push t \<ge> WS_PUSH_MS;
                out1 = (if push then [ws_io_build_status (clk 2) (ws_hub s), web_build_regs_json (ws_hub_env E) (ws_hub s)] else []) in
            if push \<and> \<not> send_ok 0 then Some (False, out @ take 1 out1, t, s)
            else if push \<and> \<not> send_ok 1 then Some (False, out @ out1, t, s)
            else
              let t = (if push then t\<lparr>last_push := clk 3\<rparr> else t);
                  info = clk 4 - last_info t \<ge> WS_INFO_MS;
                  out2 = (if info then [web_build_info_json I (clk 5) 640 (ws_hub s)] else []) in
              if info \<and> \<not> send_ok 2 then Some (False, out @ out1 @ out2, t, s)
              else Some (True, out @ out1 @ out2, if info then t\<lparr>last_info := clk 6\<rparr> else t, s))"

section \<open>The slots\<close>

record ws_slot =
  slot_sock :: int
  slot_in_use :: bool

definition ws_slots_init :: "nat \<Rightarrow> ws_slot list" where
  "ws_slots_init n = replicate n \<lparr>slot_sock = -1, slot_in_use = False\<rparr>"

definition ws_get_free_slot :: "ws_slot list \<Rightarrow> nat option" where
  "ws_get_free_slot ss = (case filter (\<lambda>i. \<not> slot_in_use (ss ! i)) [0..<length ss] of [] \<Rightarrow> None | i # js \<Rightarrow> Some i)"

definition ws_io_setup :: "int \<Rightarrow> ws_slot list \<Rightarrow> int \<times> ws_slot list" where
  "ws_io_setup sock ss =
     (case ws_get_free_slot ss of None \<Rightarrow> (- ENOENT, ss)
      | Some i \<Rightarrow> (0, ss[i := \<lparr>slot_sock = sock, slot_in_use = True\<rparr>]))"

definition ws_release :: "nat \<Rightarrow> ws_slot list \<Rightarrow> ws_slot list" where
  "ws_release i ss = ss[i := \<lparr>slot_sock = -1, slot_in_use = False\<rparr>]"

end
