(* ===== verification/WebProps.thy ===== *)
theory WebProps imports WsIo begin

text \<open>
  Lemmas about the web server's scanning: numbers printed in decimal are read back, a key that was
  printed is found where it stands, and the chunks of a body are assembled.
\<close>

section \<open>Numbers\<close>

lemma hex_digit: "d < 10 \<Longrightarrow> hex_val (char_of (unat (ascii_digit d))) = Some d"
proof -
  assume d: "d < 10"
  then have u: "unat (ascii_digit d) = 48 + d"
    by (simp add: ascii_digit_def unat_of_nat take_bit_nat_eq_self del: of_nat_add)
  have "(of_char (char_of (48 + d) :: char) :: nat) = 48 + d"
    using d by (simp add: of_char_of take_bit_nat_eq_self)
  then show ?thesis using d by (simp add: hex_val_def u Let_def)
qed

lemma dec_text_step: "dec_text n = (if n < 10 then [char_of (unat (ascii_digit n))]
    else dec_text (n div 10) @ [char_of (unat (ascii_digit (n mod 10)))])"
  unfolding dec_text_def by (subst dec.simps) simp

lemma dec_text_val: "base_val 10 (dec_text n) = n \<and> list_all (base_digit 10) (dec_text n) \<and> dec_text n \<noteq> []"
proof (induction n rule: less_induct)
  case (less n)
  show ?case
  proof (cases "n < 10")
    case True
    then show ?thesis by (subst (1 2 3) dec_text_step) (simp add: base_val_def base_digit_def hex_digit)
  next
    case False
    have m: "n mod 10 < 10" by simp
    have d: "base_digit 10 (char_of (unat (ascii_digit (n mod 10))))" by (simp add: base_digit_def hex_digit [OF m])
    show ?thesis using False less [of "n div 10"] hex_digit [OF m] d
      by (subst (1 2 3) dec_text_step) (simp add: base_val_def)
  qed
qed

lemma base_digit_not:
  "base_digit b c \<Longrightarrow> \<not> is_space c \<and> c \<noteq> CHR ''-'' \<and> c \<noteq> CHR ''+'' \<and> c \<noteq> quote"
  by (auto simp: base_digit_def hex_val_def is_space_def Let_def)

lemma dec_text_hd_zero: "hd (dec_text n) = CHR ''0'' \<Longrightarrow> n = 0"
proof (induction n rule: less_induct)
  case (less n)
  show ?case
  proof (cases "n < 10")
    case True
    then have "hex_val (hd (dec_text n)) = Some n" using hex_digit by (subst dec_text_step) simp
    then show ?thesis using less.prems by (simp add: hex_val_def)
  next
    case False
    have "dec_text (n div 10) \<noteq> []" using dec_text_val by blast
    then have "hd (dec_text n) = hd (dec_text (n div 10))" using False by (subst dec_text_step) simp
    then have "n div 10 = 0" using less.IH [of "n div 10"] less.prems False by simp
    then show ?thesis using False by simp
  qed
qed

definition no_digit :: "string \<Rightarrow> bool" where
  "no_digit r \<longleftrightarrow> r = [] \<or> hex_val (hd r) = None \<and> hd r \<noteq> CHR ''x'' \<and> hd r \<noteq> CHR ''X''"

lemma strtol0_dec_text:
  assumes "n \<le> 2147483647" "no_digit r"
  shows "strtol0 (dec_text n @ r) = Some (int n)"
proof -
  have v: "base_val 10 (dec_text n) = n" "list_all (base_digit 10) (dec_text n)" "dec_text n \<noteq> []"
    using dec_text_val by auto
  have h: "base_digit 10 (hd (dec_text n))" using v(2,3) by (cases "dec_text n") auto
  note nh = base_digit_not [OF h]
  have sp: "dropWhile is_space (dec_text n @ r) = dec_text n @ r"
    using v(3) nh by (cases "dec_text n") auto
  have tw: "takeWhile (base_digit b) (dec_text n @ r) = dec_text n" if "list_all (base_digit b) (dec_text n)" for b
  proof -
    have "takeWhile (base_digit b) r = []" using assms(2) by (cases r) (auto simp: no_digit_def base_digit_def)
    then show ?thesis using that by (simp add: takeWhile_append2 list_all_iff)
  qed
  show ?thesis
  proof (cases "n = 0")
    case True
    have z: "dec_text 0 = ''0''" by code_simp
    have b: "base_val 8 ''0'' = 0" "list_all (base_digit 8) (dec_text 0)"
      by (simp_all add: z base_val_def base_digit_def hex_val_def)
    show ?thesis
    proof (cases r)
      case Nil
      then show ?thesis using True sp nh tw [of 8] b(2)
        by (simp add: strtol0_def Let_def z b(1) long_clamp_def)
    next
      case (Cons c r')
      then have "c \<noteq> CHR ''x''" "c \<noteq> CHR ''X''" using assms(2) by (auto simp: no_digit_def)
      then show ?thesis using True sp nh tw [of 8] b(2) Cons
        by (simp add: strtol0_def Let_def z b(1) long_clamp_def)
    qed
  next
    case False
    then have nz: "hd (dec_text n) \<noteq> CHR ''0''" using dec_text_hd_zero by blast
    then have nz0: "(dec_text n @ r) ! 0 \<noteq> CHR ''0''" using v(3) by (cases "dec_text n") auto
    show ?thesis using sp nh v nz nz0 tw [of 10] assms(1)
      by (simp add: strtol0_def Let_def long_clamp_def)
  qed
qed

lemma dec_text_no_quote: "quote \<notin> set (dec_text n)"
  using dec_text_val [of n] base_digit_not by (auto simp: list_all_iff)

section \<open>Keys\<close>

lemma json_find_short: "length t < length key + 2 \<Longrightarrow> json_find_value key t = None"
  by (cases t) auto

lemma json_find_other [simp]: "c \<noteq> quote \<Longrightarrow> json_find_value key (c # cs) = json_find_value key cs"
  using json_find_short [of cs key] by (cases "length key + 2 \<le> length (c # cs)") auto

lemma json_find_mismatch: "take (length key) cs \<noteq> key \<Longrightarrow> json_find_value key (quote # cs) = json_find_value key cs"
  using json_find_short [of cs key] by (cases "length key + 2 \<le> length (quote # cs)") auto

lemma json_find_match: "json_find_value key (quote # key @ quote # CHR '':'' # v) = Some (skip_blanks v)"
  by (simp add: skip_blanks_def nth_append)

declare json_find_value.simps [simp del]

lemma json_find_nil [simp]: "json_find_value key [] = None"
  by (simp add: json_find_value.simps)

lemma json_find_none: "quote \<notin> set t \<Longrightarrow> json_find_value key t = None"
  by (induction t) auto

lemma json_find_append: "quote \<notin> set t \<Longrightarrow> json_find_value key (t @ u) = json_find_value key u"
  by (induction t) auto


lemma json_get_i32_match:
  assumes "n \<le> 2147483647" "no_digit r"
  shows "json_get_i32 key (quote # key @ quote # CHR '':'' # dec_text n @ r) = Some (int n)"
proof -
  have d: "dec_text n \<noteq> []" "base_digit 10 (hd (dec_text n))"
    using dec_text_val [of n] by (cases "dec_text n"; auto)+
  have "skip_blanks (dec_text n @ r) = dec_text n @ r"
    using d base_digit_not [OF d(2)] by (cases "dec_text n") (auto simp: skip_blanks_def is_space_def)
  moreover have "take 4 (dec_text n @ r) \<noteq> ''true''" "take 5 (dec_text n @ r) \<noteq> ''false''"
    using d by (cases "dec_text n"; auto simp: base_digit_def hex_val_def)+
  ultimately show ?thesis using d(1) strtol0_dec_text [OF assms]
    by (simp add: json_get_i32_def json_find_match)
qed

lemma json_get_i32_other: "c \<noteq> quote \<Longrightarrow> json_get_i32 key (c # cs) = json_get_i32 key cs"
  by (simp add: json_get_i32_def)

lemma json_get_i32_mismatch: "take (length key) cs \<noteq> key \<Longrightarrow> json_get_i32 key (quote # cs) = json_get_i32 key cs"
  by (simp add: json_get_i32_def json_find_mismatch)

lemma json_get_i32_append: "quote \<notin> set t \<Longrightarrow> json_get_i32 key (t @ u) = json_get_i32 key u"
  by (simp add: json_get_i32_def json_find_append)

end
