(* ===== verification/WebTheorems.thy ===== *)
theory WebTheorems imports WebProps FtpTransfer RegTheorems begin

text \<open>
  Properties of the web server: chunked requests act like whole ones, its commands are the Modbus
  writes, and a download streams the file.
\<close>

section \<open>Requests in chunks\<close>

text \<open>
  How the HTTP server drives a handler: the chunks of the body, the last one marked final, and the
  call that completes the transaction.
\<close>

fun run_post :: "(string \<Rightarrow> 's \<Rightarrow> http_rsp \<times> 's) \<Rightarrow> string list \<Rightarrow> http_body \<times> 's \<Rightarrow> http_rsp \<times> http_body \<times> 's" where
  "run_post ex [] bh = (no_rsp, bh)"
| "run_post ex [d] bh = post_handler ex DATA_FINAL d bh"
| "run_post ex (d # e # ds) bh = run_post ex (e # ds) (snd (post_handler ex DATA_MORE d bh))"

fun run_requests :: "(string \<Rightarrow> 's \<Rightarrow> http_rsp \<times> 's) \<Rightarrow> string list list \<Rightarrow> http_body \<times> 's \<Rightarrow> http_rsp list \<times> http_body \<times> 's" where
  "run_requests ex [] bh = ([], bh)"
| "run_requests ex (ds # rs) bh =
     (let (r, bh) = run_post ex ds bh; (_, bh) = post_handler ex COMPLETE [] bh; (rsps, bh) = run_requests ex rs bh in
      (r # rsps, bh))"

text \<open>The specification: a body is executed as a whole, or refused as a whole when it is too long.\<close>

fun spec_requests :: "(string \<Rightarrow> 's \<Rightarrow> http_rsp \<times> 's) \<Rightarrow> string list \<Rightarrow> 's \<Rightarrow> http_rsp list \<times> 's" where
  "spec_requests ex [] h = ([], h)"
| "spec_requests ex (t # ts) h =
     (let (r, h) = (if length t \<le> BODY_MAX then ex t h else (respond_json_err ''body too large'', h));
          (rs, h) = spec_requests ex ts h in (r # rs, h))"

definition body_now :: "http_body \<Rightarrow> string" where
  "body_now b = (if body_done b then [] else body_buf b)"

lemma body_append_ok:
  assumes "\<not> body_rejected b" "length (body_now b) + length d \<le> BODY_MAX"
  shows "body_append d b = (True, b\<lparr>body_buf := body_now b @ d, body_done := False,
     body_behind := (body_behind b \<or> length (body_now b) + length d \<ge> BODY_MAX)\<rparr>)"
  using assms by (cases b) (auto simp: body_append_def body_now_def Let_def)

lemma body_append_rejected:
  "body_rejected b \<or> \<not> length (body_now b) + length d \<le> BODY_MAX \<Longrightarrow>
   \<exists>b'. body_append d b = (False, b') \<and> body_rejected b' \<and> body_behind b' = body_behind b"
  by (cases b) (auto simp: body_append_def body_now_def Let_def)

lemma run_post_rejected:
  assumes "body_rejected b" "ds \<noteq> []"
  shows "\<exists>b'. run_post ex ds (b, h) = (respond_json_err ''body too large'', b', h) \<and> body_behind b' = body_behind b"
  using assms
proof (induction ex ds "(b, h)" arbitrary: b rule: run_post.induct)
  case (2 ex d)
  then show ?case using body_append_rejected [of b d] by (auto simp: post_handler_def)
next
  case (3 ex d e ds)
  obtain b' where "body_append d b = (False, b')" "body_rejected b'" "body_behind b' = body_behind b"
    using body_append_rejected [of b d] 3(2) by auto
  moreover from this have s: "snd (post_handler ex DATA_MORE d (b, h)) = (b', h)" by (simp add: post_handler_def)
  ultimately show ?case using 3(1) [OF s] by simp
qed simp

lemma run_post_spec:
  assumes "\<not> body_rejected b" "ds \<noteq> []" "length (body_now b) \<le> BODY_MAX"
  shows "\<exists>b'. run_post ex ds (b, h) =
      (let t = body_now b @ concat ds; (r, h') = (if length t \<le> BODY_MAX then ex t h else (respond_json_err ''body too large'', h)) in (r, b', h')) \<and>
    (length (body_now b @ concat ds) < BODY_MAX \<longrightarrow> body_behind b' = body_behind b)"
  using assms
proof (induction ex ds "(b, h)" arbitrary: b rule: run_post.induct)
  case (2 ex d)
  show ?case
  proof (cases "length (body_now b) + length d \<le> BODY_MAX")
    case True
    then show ?thesis using 2 body_append_ok [of b d]
      by (auto simp: post_handler_def case_prod_beta body_finalize_def Let_def)
  next
    case False
    then show ?thesis using 2 body_append_rejected [of b d] by (auto simp: post_handler_def)
  qed
next
  case (3 ex d e ds)
  show ?case
  proof (cases "length (body_now b) + length d \<le> BODY_MAX")
    case True
    define b' where "b' = snd (body_append d b)"
    have ok: "body_append d b = (True, b')" and b': "\<not> body_rejected b'" "body_now b' = body_now b @ d"
      "length (body_now b) + length d < BODY_MAX \<longrightarrow> body_behind b' = body_behind b"
      using body_append_ok [OF 3(2) True] 3(2) by (simp_all add: b'_def body_now_def)
    have s: "snd (post_handler ex DATA_MORE d (b, h)) = (b', h)" by (simp add: post_handler_def ok)
    show ?thesis using 3(1) [OF s b'(1)] True b'(2,3) by (fastforce simp: s)
  next
    case False
    then obtain b' where "body_append d b = (False, b')" and b': "body_rejected b'" "body_behind b' = body_behind b"
      using body_append_rejected [of b d] by blast
    then have s: "snd (post_handler ex DATA_MORE d (b, h)) = (b', h)" by (simp add: post_handler_def)
    show ?thesis using run_post_rejected [OF b'(1), of "e # ds" ex h] False b'(2) by (auto simp: s)
  qed
qed simp

text \<open>
  C19. Requests in chunks refine whole requests: over any sequence of POST requests to a handler, each cut
  into chunks anywhere, the responses and the effect on the device are those of executing each body once
  as a whole, in order - and a body longer than the buffer is refused without any effect.  No request
  sees data of an earlier one.  As long as bodies stay below 128 bytes the buffer is not overrun.
\<close>
theorem http_requests_in_chunks:
  assumes "\<not> body_rejected b" "body_now b = []" "[] \<notin> set rs"
  shows "(case run_requests ex rs (b, h) of (rsps, b', h') \<Rightarrow> (rsps, h') = spec_requests ex (map concat rs) h \<and>
    (if list_all (\<lambda>ds. length (concat ds) < BODY_MAX) rs then body_behind b' = body_behind b else True))"
  using assms
proof (induction rs arbitrary: b h)
  case (Cons ds rs)
  obtain b1 where p: "run_post ex ds (b, h) =
      (let t = concat ds; (r, h') = (if length t \<le> BODY_MAX then ex t h else (respond_json_err ''body too large'', h)) in (r, b1, h'))"
    and k: "length (concat ds) < BODY_MAX \<longrightarrow> body_behind b1 = body_behind b"
    using run_post_spec [OF Cons.prems(1), of ds ex h] Cons.prems(2,3) by auto
  obtain r1 h1 where e: "(if length (concat ds) \<le> BODY_MAX then ex (concat ds) h else (respond_json_err ''body too large'', h)) = (r1, h1)"
    by fastforce
  have p1: "run_post ex ds (b, h) = (r1, b1, h1)" unfolding p Let_def e by simp
  have b1: "\<not> body_rejected (body_reset b1)" "body_now (body_reset b1) = []" "body_behind (body_reset b1) = body_behind b1"
    by (simp_all add: body_reset_def body_now_def)
  have c: "post_handler ex COMPLETE [] (b1, h1) = (no_rsp, body_reset b1, h1)" by (simp add: post_handler_def)
  obtain rsps b2 h2 where rr: "run_requests ex rs (body_reset b1, h1) = (rsps, b2, h2)" by (metis prod.collapse)
  have "[] \<notin> set rs" using Cons.prems(3) by simp
  from Cons.IH [OF b1(1,2) this, of h1]
  have ih: "spec_requests ex (map concat rs) h1 = (rsps, h2)"
    "list_all (\<lambda>ds. length (concat ds) < BODY_MAX) rs \<longrightarrow> body_behind b2 = body_behind (body_reset b1)"
    unfolding rr by (simp_all split: if_splits)
  have "run_requests ex (ds # rs) (b, h) = (r1 # rsps, b2, h2)" by (simp add: p1 c rr)
  moreover have "spec_requests ex (map concat (ds # rs)) h = (r1 # rsps, h2)"
    unfolding list.map spec_requests.simps e by (simp add: ih(1))
  ultimately show ?case using ih(2) k b1(3) by simp
qed simp

text \<open>Witness state: a fresh buffer and the demonstration board after power-on.\<close>

definition demo_hub :: hub_st where
  "demo_hub = power_on demo_board 5 []"

theorem http_requests_in_chunks_witness:
  "(let ex = (\<lambda>t h. (respond_text t, h @ [t])) in
     case run_requests ex [[''{}''], [''{a'', ''}'']] (body_zero, []) of (rsps, b', h') \<Rightarrow>
       h' = [''{}'', ''{a}''] \<and> \<not> body_behind b')"
proof -
  let ?ex = "\<lambda>t h. (respond_text t, h @ [t])" and ?rs = "[[''{}''], [''{a'', ''}'']]"
  have "case run_requests ?ex ?rs (body_zero, []) of (rsps, b', h') \<Rightarrow>
      (rsps, h') = spec_requests ?ex (map concat ?rs) [] \<and>
      (if list_all (\<lambda>ds. length (concat ds) < BODY_MAX) ?rs then body_behind b' = body_behind body_zero else True)"
    by (rule http_requests_in_chunks) (simp_all add: body_zero_def body_now_def)
  moreover have "spec_requests ?ex (map concat ?rs) [] = ([respond_text ''{}'', respond_text ''{a}''], [''{}'', ''{a}''])"
    by (simp add: BODY_MAX_def)
  ultimately show ?thesis unfolding Let_def by (auto simp: BODY_MAX_def body_zero_def split: prod.splits)
qed

section \<open>Commands\<close>

definition do_body :: "nat \<Rightarrow> nat \<Rightarrow> string" where
  "do_body i v = ''{'' @ json_key ''index'' @ dec_text i @ '','' @ json_key ''value'' @ dec_text v @ ''}''"

definition reg_body :: "nat \<Rightarrow> nat \<Rightarrow> string" where
  "reg_body a v = ''{'' @ json_key ''addr'' @ dec_text a @ '','' @ json_key ''value'' @ dec_text v @ ''}''"

lemmas json_scan = json_get_i32_other json_get_i32_mismatch json_get_i32_append [OF dec_text_no_quote]

lemma do_body_fields:
  assumes "i \<le> 2147483647" "v \<le> 2147483647"
  shows "json_get_i32 ''index'' (do_body i v) = Some (int i)" "json_get_i32 ''value'' (do_body i v) = Some (int v)"
  using json_get_i32_match [OF assms(1), of "CHR '','' # quote # ''value'' @ quote # CHR '':'' # dec_text v @ ''}''" "''index''"]
    json_get_i32_match [OF assms(2), of "''}''" "''value''"]
  by (simp_all add: do_body_def json_key_def json_scan no_digit_def hex_val_def)

lemma reg_body_fields:
  assumes "a \<le> 2147483647" "v \<le> 2147483647"
  shows "json_get_i32 ''addr'' (reg_body a v) = Some (int a)" "json_get_i32 ''value'' (reg_body a v) = Some (int v)"
  using json_get_i32_match [OF assms(1), of "CHR '','' # quote # ''value'' @ quote # CHR '':'' # dec_text v @ ''}''" "''addr''"]
    json_get_i32_match [OF assms(2), of "''}''" "''value''"]
  by (simp_all add: reg_body_def json_key_def json_scan no_digit_def hex_val_def)

text \<open>
  C20. The web commands are the Modbus writes: the JSON `{"index":i,"value":v}` drives coil i exactly as a
  Modbus coil write does and `{"addr":a,"value":v}` writes register a exactly as a Modbus register write
  does, with all its side effects - and the numbers printed are the numbers understood.  Out-of-range
  coils, registers and values are refused without effect; a write to the restart register restarts
  later instead.
\<close>
theorem http_commands_are_modbus_writes:
  assumes "i \<le> 2147483647" "a \<le> 2147483647" "v \<le> 2147483647" "length (holding_reg h) = n_holding E" "n_holding E \<le> 65536"
  shows "run_do E (do_body i v) h =
      (if i < DO_NUM then (respond_json_ok, snd (coil_wr_cb E (of_nat i) (v \<noteq> 0) h))
       else (respond_json_err ''invalid index/value'', h)) \<and>
    run_reg E (reg_body a v) h =
      (if \<not> (a < n_holding E \<and> v < 65536) then (respond_json_err ''invalid addr/value'', h)
       else (respond_json_ok, if of_nat a = holding_idx HOLDING_REBOOT then (if v \<noteq> 0 then set_reboot_status True h else h)
         else snd (holding_reg_wr_cb E (of_nat a) (of_nat v) h)))"
proof
  have di: "fst (io_write_do_bit E (of_nat i) (v \<noteq> 0) h) = 0" if "i < DO_NUM"
    using that by (simp add: io_write_do_bit_def DO_NUM_def unat_of_nat take_bit_nat_eq_self Let_def)
  show "run_do E (do_body i v) h =
      (if i < DO_NUM then (respond_json_ok, snd (coil_wr_cb E (of_nat i) (v \<noteq> 0) h))
       else (respond_json_err ''invalid index/value'', h))"
    using di by (simp add: run_do_def do_body_fields [OF assms(1,3)] web_cmd_exec_do_def coil_wr_cb_def case_prod_beta EINVAL_def)
  have ri: "fst (io_write_holding E (of_nat a) (of_nat v) h) = 0" if "a < n_holding E"
    using that assms(4,5) by (simp add: io_write_holding_def io_write_effect_def unat_of_nat take_bit_nat_eq_self Let_def)
  have "int a = 17 \<longleftrightarrow> (of_nat a :: u16) = 17" if "a < n_holding E"
  proof -
    have "unat (of_nat a :: u16) = a" using that assms(5) by (simp add: unat_of_nat take_bit_nat_eq_self)
    moreover have "unat (17 :: u16) = 17" by simp
    ultimately have "(of_nat a :: u16) = 17 \<longleftrightarrow> a = 17" by (metis of_nat_numeral)
    then show ?thesis by linarith
  qed
  then show "run_reg E (reg_body a v) h =
      (if \<not> (a < n_holding E \<and> v < 65536) then (respond_json_err ''invalid addr/value'', h)
       else (respond_json_ok, if of_nat a = holding_idx HOLDING_REBOOT then (if v \<noteq> 0 then set_reboot_status True h else h)
         else snd (holding_reg_wr_cb E (of_nat a) (of_nat v) h)))"
    using ri by (simp add: run_reg_def reg_body_fields [OF assms(2,3)] web_cmd_exec_reg_def holding_reg_wr_cb_def case_prod_beta EINVAL_def)
qed

theorem http_commands_are_modbus_writes_witness:
  "run_do demo_board (do_body 3 1) demo_hub = (respond_json_ok, snd (coil_wr_cb demo_board 3 True demo_hub)) \<and>
   run_reg demo_board (reg_body 9 19200) demo_hub = (respond_json_ok, snd (holding_reg_wr_cb demo_board 9 19200 demo_hub))"
  using http_commands_are_modbus_writes [of 3 9 1 demo_hub demo_board] http_commands_are_modbus_writes [of 3 9 19200 demo_hub demo_board]
  by (simp add: DO_NUM_def demo_hub_def power_on_def demo_board_def holding_init_def reg_defaults_def)

section \<open>Configuration\<close>

text \<open>
  A baud rate above 65535 passes the check and is cut to 16 bits, and a later field that is refused
  leaves the earlier fields written.
\<close>

definition cfg_fast :: string where
  "cfg_fast = ''{'' @ json_key ''rs485'' @ dec_text 115200 @ ''}''"

definition cfg_bad_can :: string where
  "cfg_bad_can = ''{'' @ json_key ''sid'' @ ''5,'' @ json_key ''can_id'' @ ''0}''"

lemma cfg_baud_truncated:
  assumes "length (holding_reg h) = 18"
  shows "fst (web_cmd_exec_cfg over E cfg_fast h) = None \<and>
    get_holding_reg (holding_idx HOLDING_RS485_BAUDRATE) (snd (web_cmd_exec_cfg over E cfg_fast h)) = 49664"
proof -
  have k: "json_get_str ''ip'' 16 cfg_fast = None" "json_get_i32 ''sid'' cfg_fast = None"
    "json_get_i32 ''can_bps'' cfg_fast = None" "json_get_i32 ''can_id'' cfg_fast = None"
    by (simp_all add: cfg_fast_def json_key_def json_get_i32_def json_get_str_def json_find_mismatch
        json_find_append [OF dec_text_no_quote])
  have r: "json_get_i32 ''rs485'' cfg_fast = Some 115200"
    using json_get_i32_match [of 115200 "''}''" "''rs485''"]
    by (simp add: cfg_fast_def json_key_def json_scan no_digit_def hex_val_def)
  have "web_cmd_exec_cfg over E cfg_fast h = (None, put_reg E HOLDING_RS485_BAUDRATE 115200 h)"
    by (simp add: web_cmd_exec_cfg_def cfg_ip_def cfg_num_def and_then_def k r)
  moreover have "(115200 :: u16) = 49664" by simp
  ultimately show ?thesis using assms by (simp add: put_reg_def io_write_holding_def io_write_effect_def get_holding_reg_def Let_def)
qed

lemma cfg_applies_before_error:
  assumes "length (holding_reg h) = 18"
  shows "fst (web_cmd_exec_cfg over E cfg_bad_can h) = Some ''invalid can id'' \<and>
    get_holding_reg (holding_idx HOLDING_SLAVE_ID) (snd (web_cmd_exec_cfg over E cfg_bad_can h)) = 5"
proof -
  have k: "json_get_str ''ip'' 16 cfg_bad_can = None" "json_get_i32 ''rs485'' cfg_bad_can = None" "json_get_i32 ''sid'' cfg_bad_can = Some 5"
    "json_get_i32 ''can_bps'' cfg_bad_can = None" "json_get_i32 ''can_id'' cfg_bad_can = Some 0" by code_simp+
  have "web_cmd_exec_cfg over E cfg_bad_can h = (Some ''invalid can id'', put_reg E HOLDING_SLAVE_ID 5 h)"
    by (simp add: web_cmd_exec_cfg_def cfg_ip_def cfg_num_def and_then_def k)
  then show ?thesis using assms by (simp add: put_reg_def io_write_holding_def io_write_effect_def get_holding_reg_def Let_def)
qed

text \<open>A body of exactly 128 bytes puts its terminating NUL behind the buffer.\<close>

lemma body_overrun: "body_behind (snd (body_append (replicate 128 c) body_zero))"
  by (simp add: body_append_def body_zero_def BODY_MAX_def)

section \<open>Downloads\<close>

text \<open>The HTTP server calls the handler until a chunk is final; the result is the data sent.\<close>

partial_function (option) http_pull ::
  "('w, 'h, 'n) ftp_env \<Rightarrow> string \<Rightarrow> bytes \<Rightarrow> ('w, 'h) web_dl \<Rightarrow> (bytes \<times> ('w, 'h) web_dl) option" where
  "http_pull F q acc s =
     (let r = download_handler F DATA_FINAL q s in
      if rsp_final (fst r) then Some (acc @ rsp_body (fst r), snd r) else http_pull F q (acc @ rsp_body (fst r)) (snd r))"

lemma pull_blocks:
  assumes "reader_law F left"
  shows "dl_open s = Some h \<Longrightarrow> dl_remain s = of_nat (length (left h)) \<Longrightarrow> length (left h) < 2 ^ 32 \<Longrightarrow>
    r = dl_block F r0 s \<Longrightarrow>
    \<exists>s'. (if rsp_final (fst r) then Some (acc @ rsp_body (fst r), snd r)
        else http_pull F q (acc @ rsp_body (fst r)) ((snd r)\<lparr>dl_started := True\<rparr>)) = Some (acc @ left h, s') \<and> dl_open s' = None"
proof (induction "length (left h)" arbitrary: h s acc r r0 rule: less_induct)
  case less
  have "0 < DL_CHUNK" by (simp add: DL_CHUNK_def)
  then obtain b h' where rd: "ff_read F h DL_CHUNK (dl_disk s) = (Some b, h')"
    and b: "left h = b @ left h'" "b = [] \<longrightarrow> left h = []"
    using assms [unfolded reader_law_def, rule_format, of DL_CHUNK h "dl_disk s"]
    by (cases "ff_read F h DL_CHUNK (dl_disk s)") (auto split: option.splits)
  define t where "t = s\<lparr>dl_open := Some h', dl_remain := dl_remain s - of_nat (length b)\<rparr>"
  have rem: "dl_remain t = of_nat (length (left h'))" using less.prems(2) b(1) by (simp add: t_def)
  have small: "length (left h') < 2 ^ 32" using less.prems(3) b(1) by simp
  have z: "dl_remain t = 0 \<longleftrightarrow> left h' = []"
  proof
    assume "dl_remain t = 0"
    then have "(of_nat (length (left h')) :: u32) = 0" using rem by simp
    moreover have "unat (of_nat (length (left h')) :: u32) = length (left h')" using small by (rule unat_of_nat_u32)
    ultimately show "left h' = []" by simp
  qed (simp add: rem)
  have r: "r = (if b = [] \<or> dl_remain t = 0 then (r0\<lparr>rsp_body := b, rsp_final := True\<rparr>, dl_close F t)
      else (r0\<lparr>rsp_body := b, rsp_final := False\<rparr>, t))"
    using less.prems(1,4) rd by (simp add: dl_block_def t_def Let_def)
  show ?case
  proof (cases "b = [] \<or> dl_remain t = 0")
    case True
    then have "left h = b" using b z by auto
    moreover have "dl_open (dl_close F t) = None" by (simp add: dl_close_def t_def)
    ultimately show ?thesis using True by (simp add: r)
  next
    case False
    let ?t = "t\<lparr>dl_started := True\<rparr>"
    have l: "length (left h') < length (left h)" using False b(1) by simp
    have "\<exists>s'. (if rsp_final (fst (dl_block F no_rsp ?t)) then Some ((acc @ b) @ rsp_body (fst (dl_block F no_rsp ?t)), snd (dl_block F no_rsp ?t))
        else http_pull F q ((acc @ b) @ rsp_body (fst (dl_block F no_rsp ?t))) ((snd (dl_block F no_rsp ?t))\<lparr>dl_started := True\<rparr>)) =
        Some ((acc @ b) @ left h', s') \<and> dl_open s' = None"
      using less.hyps [OF l, of ?t "dl_block F no_rsp ?t" no_rsp "acc @ b"] rem small by (simp add: t_def)
    moreover have "download_handler F DATA_FINAL q ?t = dl_block F no_rsp ?t" by (simp add: download_handler_def)
    moreover have "\<not> rsp_final (fst (dl_block F no_rsp ?t)) \<Longrightarrow> (snd (dl_block F no_rsp ?t))\<lparr>dl_started := True\<rparr> = snd (dl_block F no_rsp ?t)"
      by (auto simp: dl_block_def Let_def split: option.splits prod.splits if_splits)
    ultimately have "\<exists>s'. http_pull F q (acc @ b) ?t = Some ((acc @ b) @ left h', s') \<and> dl_open s' = None"
      by (subst http_pull.simps) (auto simp: Let_def split: if_splits)
    then show ?thesis using False b(1) by (simp add: r)
  qed
qed

lemma valid_name_no_slash: "hist_name_valid name \<Longrightarrow> slash \<notin> set name"
  by (auto simp: hist_name_valid_def list_all_iff name_char_def Let_def)

text \<open>
  A download streams the file it names and nothing else: the name accepted from the query has no
  slash, so the path is a history file in the FTP root; when it exists and opens, the calls of the HTTP
  server end, the data they return together are exactly the content, however short the reads, and the
  file is closed.
\<close>
theorem http_download_streams:
  assumes "reader_law F left" "\<not> dl_started s"
    and "url_query_get ''name'' 32 q = Some name" "hist_name_valid name"
    and "w = his_w (web_sync F (dl_his s))"
    and "ff_stat F (HIST_DIR @ ''/'' @ name) w = Some ent" "de_file ent"
    and "ff_open F (HIST_DIR @ ''/'' @ name) rd_flags w = ((0, h), w')"
    and "de_size ent = of_nat (length (left h))" "length (left h) < 2 ^ 32"
  shows "(case http_pull F q [] s of None \<Rightarrow> False
    | Some (d, s') \<Rightarrow> d = left h \<and> dl_open s' = None) \<and> slash \<notin> set name"
proof -
  have p: "take 47 (HIST_DIR @ slash # name) = HIST_DIR @ slash # name"
    using assms(4) by (simp add: hist_name_valid_def HIST_DIR_def)
  define t where "t = s\<lparr>dl_started := True, dl_his := (web_sync F (dl_his s))\<lparr>his_w := w'\<rparr>, dl_open := Some h, dl_remain := de_size ent\<rparr>"
  have "dl_begin F q s = (Inr name, t)"
    using assms(3-8) by (simp add: dl_begin_def p dl_disk_def rd_flags_def t_def Let_def del: take_append)
  then have hd: "download_handler F DATA_FINAL q s = dl_block F (no_rsp\<lparr>rsp_code := Some HTTP_200_OK, rsp_name := Some name\<rparr>) t"
    using assms(2) by (simp add: download_handler_def)
  let ?r = "dl_block F (no_rsp\<lparr>rsp_code := Some HTTP_200_OK, rsp_name := Some name\<rparr>) t"
  have st: "\<not> rsp_final (fst ?r) \<Longrightarrow> (snd ?r)\<lparr>dl_started := True\<rparr> = snd ?r"
    by (auto simp: dl_block_def t_def Let_def split: option.splits prod.splits if_splits)
  obtain s' where "(if rsp_final (fst ?r) then Some ([] @ rsp_body (fst ?r), snd ?r)
        else http_pull F q ([] @ rsp_body (fst ?r)) ((snd ?r)\<lparr>dl_started := True\<rparr>)) = Some ([] @ left h, s')" and o: "dl_open s' = None"
    using pull_blocks [OF assms(1), of t h ?r _ "[]" q] assms(9,10) by (auto simp: t_def)
  then have "http_pull F q [] s = Some (left h, s')"
    using st by (subst http_pull.simps) (auto simp: hd Let_def split: if_splits)
  then show ?thesis using o valid_name_no_slash [OF assms(4)] by simp
qed

definition demo_dl :: "(mem_fs, mem_handle) web_dl" where
  "demo_dl = \<lparr>dl_his = ftp_his (demo_world [(''/lfs1/data_1.raw'', [7, 8, 9])] (\<lambda>_. []) :: (mem_fs, mem_net) ftp_w),
     dl_open = None, dl_started = False, dl_remain = 0\<rparr>"

theorem http_download_streams_witness:
  "map_option fst (http_pull demo_ftp ''?name=data_1.raw'' [] demo_dl) = Some [7, 8, 9]"
proof -
  have q: "url_query_get ''name'' 32 ''?name=data_1.raw'' = Some ''data_1.raw''" by code_simp
  have n: "hist_name_valid ''data_1.raw''" by code_simp
  define w where "w = his_w (web_sync demo_ftp (dl_his demo_dl))"
  have w: "mem_files w = [(''/lfs1/data_1.raw'', [7, 8, 9])]"
    by (simp add: w_def demo_dl_def web_sync_def history_sync_def demo_world_def demo_his_def)
  have "case http_pull demo_ftp ''?name=data_1.raw'' [] demo_dl of None \<Rightarrow> False
      | Some (d, s') \<Rightarrow> d = (fst \<circ> snd) (''/lfs1/data_1.raw'', [7, 8, 9], 0 :: nat, False) \<and> dl_open s' = None"
    by (rule http_download_streams [where ent = "\<lparr>de_file = True, de_size = 3, de_name = ''data_1.raw''\<rparr>" and w' = w,
          OF demo_laws(1) _ q n w_def, THEN conjunct1])
      (simp_all add: demo_dl_def demo_ftp_def HIST_DIR_def mem_data_def mem_content_def w rd_flags_def)
  then show ?thesis by (auto split: option.splits)
qed

section \<open>The replies fit their buffers\<close>

lemma length_dec_text: "n < 10 ^ Suc k \<Longrightarrow> length (dec_text n) \<le> Suc k"
proof (induction k arbitrary: n)
  case 0
  then show ?case by (subst dec_text_step) simp
next
  case (Suc k)
  show ?case
  proof (cases "n < 10")
    case False
    have "n div 10 < 10 ^ Suc k" using Suc.prems by (simp add: less_mult_imp_div_less)
    then show ?thesis using False Suc.IH [of "n div 10"] by (subst dec_text_step) simp
  qed (subst dec_text_step, simp)
qed

lemma length_dec_u16: "length (dec_text (unat (v :: u16))) \<le> 5"
proof -
  have "unat v < 2 ^ 16" using unsigned_less [of v] by simp
  then have "unat v < 10 ^ Suc 4" by simp
  then show ?thesis using length_dec_text by fastforce
qed

lemma length_dec_u32: "length (dec_text (unat (v :: u32))) \<le> 10"
proof -
  have "unat v < 2 ^ 32" using unsigned_less [of v] by simp
  then have "unat v < 10 ^ Suc 9" by simp
  then show ?thesis using length_dec_text by fastforce
qed

lemma length_comma_list:
  assumes "list_all (\<lambda>n. length (dec_text n) \<le> m) ns"
  shows "length (comma_list ns) \<le> length ns * (m + 1)"
proof -
  have "length (concat (map (\<lambda>i. (if i \<noteq> 0 then '','' else []) @ dec_text (ns ! i)) js)) \<le> length js * (m + 1)"
    if "\<And>i. i \<in> set js \<Longrightarrow> i < length ns" for js
    using that
  proof (induction js)
    case (Cons j js)
    have "length (dec_text (ns ! j)) \<le> m" using Cons.prems [of j] assms by (simp add: list_all_length)
    then show ?case using Cons by auto
  qed simp
  from this [of "[0..<length ns]"] show ?thesis by (simp add: comma_list_def)
qed

lemma length_hist_list:
  "length t < 640 - 64 \<Longrightarrow> length (hist_list es first t) < 640 - 2"
proof (induction es first t rule: hist_list.induct)
  case (2 e es first t)
  show ?case
  proof (cases "\<not> de_file e \<or> \<not> hist_name_valid (de_name e)")
    case False
    then have "length (de_name e) < 32" by (simp add: hist_name_valid_def)
    then have "length (hist_entry first e) \<le> 62" using length_dec_u32 [of "de_size e"]
      by (simp add: hist_entry_def json_key_def json_str_def)
    then show ?thesis using 2 False by (auto simp: Let_def)
  qed (use 2 in auto)
qed simp

text \<open>
  No reply overruns its buffer: the status text (256 bytes over HTTP), the register text (256 bytes,
  with the 18 and 6 registers of the build) and the file list (640 bytes), whatever the registers hold
  and however many and long the file names on the disk are, so the lengths `snprintf` returned add up to
  an offset inside the buffer at every step.
\<close>
theorem web_texts_fit:
  assumes "0 \<le> now" "now < 10 ^ 18" "n_holding E \<le> 18" "n_input E \<le> 6"
  shows "length (ws_io_build_status now h) < 256 \<and> length (web_build_regs_json E h) < 256 \<and> length (history_json F w) < 640"
proof (intro conjI)
  have u16s: "list_all (\<lambda>n. length (dec_text n) \<le> 5) (map (\<lambda>i. unat (f i :: u16)) js)" for f and js :: "nat list"
    using length_dec_u16 by (auto simp: list_all_iff)
  have bits: "list_all (\<lambda>n. length (dec_text n) \<le> 1) (map (\<lambda>i. if P i then 1 else 0) js)" for P and js :: "nat list"
    using length_dec_text [of _ 0] by (auto simp: list_all_iff)
  have n: "length (dec_int now) \<le> 18" using assms(1,2) length_dec_text [of "nat now" 17] by (simp add: dec_int_def)
  show "length (ws_io_build_status now h) < 256"
    using length_comma_list [OF bits, of "bit (get_input_reg (input_idx INPUT_DI) h)" "[0..<DI_NUM]"]
      length_comma_list [OF bits, of "bit (get_holding_reg (holding_idx HOLDING_DO) h)" "[0..<DO_NUM]"]
      length_comma_list [OF u16s, of "\<lambda>i. get_input_reg (input_idx INPUT_AI0 + of_nat i) h" "[0..<AI_NUM]"]
      length_dec_u16 [of "get_holding_reg (holding_idx HOLDING_DI_ENABLE) h"]
      length_dec_u16 [of "get_holding_reg (holding_idx HOLDING_AI_ENABLE) h"] n
    by (simp add: ws_io_build_status_def json_key_def json_str_def Let_def DI_NUM_def DO_NUM_def AI_NUM_def)
  show "length (web_build_regs_json E h) < 256"
    using length_comma_list [OF u16s, of "\<lambda>i. io_read_holding (of_nat i) h" "[0..<n_holding E]"]
      length_comma_list [OF u16s, of "\<lambda>i. get_input_reg (of_nat i) h" "[0..<n_input E]"] assms(3,4)
    by (simp add: web_build_regs_json_def json_key_def json_str_def)
  show "length (history_json F w) < 640"
    using length_hist_list [of "''{'' @ json_key ''files'' @ ''[''" _ True]
    by (cases "ff_entries F HIST_DIR w") (simp_all add: history_json_def json_key_def Let_def)
qed

theorem web_texts_fit_witness:
  "length (ws_io_build_status 86400000 demo_hub) < 256 \<and> length (web_build_regs_json demo_board demo_hub) < 256 \<and>
   length (history_json demo_ftp (his_w (dl_his demo_dl))) < 640"
  by (rule web_texts_fit) (simp_all add: demo_board_def)

end
