(* ===== verification/WsProps.thy ===== *)
theory WsProps imports WsIo WebProps UdpFwProps HostImage begin

text \<open>
  The invariant of firmware upgrades over the WebSocket: the session, the upgrade lock, the byte count
  and the running checksum agree in every reachable state.
\<close>

section \<open>The session and the lock\<close>

definition ws_init :: "'w his_st \<Rightarrow> 'f \<Rightarrow> ('w, 'f) ws_st" where
  "ws_init h f = \<lparr>ws_his = h, ws_fic = f, ws_lock = lock_init, upg_active = False, upg_failed = False, upg_total = 0,
     upg_received = 0, upg_crc = 0\<rparr>"

text \<open>
  Frames arrive; between them the other channels take and release the lock, the application's state
  changes, and the flash is written by whoever holds the lock.
\<close>

inductive ws_reach :: "('w, 'f) ws_env \<Rightarrow> ('w, 'f) ws_st \<Rightarrow> bool" for E where
  init: "ws_reach E (ws_init h f)"
| frame: "ws_reach E s \<Longrightarrow> ws_frame_in E now fr s = Some (out, s') \<Longrightarrow> ws_reach E s'"
| lock: "ws_reach E s \<Longrightarrow> c \<noteq> CHANNEL_WS \<Longrightarrow> x = Try c \<or> x = Unlock c \<Longrightarrow> ws_reach E (s\<lparr>ws_lock := hub_lock.run_op x (ws_lock s)\<rparr>)"
| hub: "ws_reach E s \<Longrightarrow> ws_reach E (s\<lparr>ws_his := h\<rparr>)"
| flash: "ws_reach E s \<Longrightarrow> \<not> hub_lock.held CHANNEL_WS (ws_lock s) \<Longrightarrow> ws_reach E (s\<lparr>ws_fic := f\<rparr>)"

definition flush_law :: "'f flash_api \<Rightarrow> ('f \<Rightarrow> bytes) \<Rightarrow> bool" where
  "flush_law F img \<longleftrightarrow> (\<forall>w. img (snd (img_write F [] True w)) = img w)"

definition ws_inv :: "('f \<Rightarrow> bytes) \<Rightarrow> ('w, 'f) ws_st \<Rightarrow> bool" where
  "ws_inv img s \<longleftrightarrow> (upg_active s \<longleftrightarrow> hub_lock.held CHANNEL_WS (ws_lock s)) \<and>
     (\<not> upg_active s \<longrightarrow> \<not> upg_failed s \<and> upg_received s = 0 \<and> upg_crc s = 0) \<and>
     (upg_active s \<and> \<not> upg_failed s \<longrightarrow> upg_received s = of_nat (length (img (ws_fic s))) \<and> upg_crc s = crc_ref (img (ws_fic s)))"

lemma ws_inv_his [simp]: "ws_inv img (s\<lparr>ws_his := h\<rparr>) = ws_inv img s" "ws_inv img (set_ws_hub g s) = ws_inv img s"
  by (simp_all add: ws_inv_def set_ws_hub_def)

lemma ws_inv_sync [simp]: "ws_inv img (ws_sync E s) = ws_inv img s"
  by (simp add: ws_sync_def split: option.split)

lemma not_held_unlock: "\<not> hub_lock.held c (fw_upgrade_unlock c l)"
  by (simp add: hub_lock.held_def fw_upgrade_unlock_def fw_upgrade_is_active_def)

lemma ws_inv_reset: "ws_inv img (fw_upg_reset s)"
  by (simp add: ws_inv_def fw_upg_reset_def not_held_unlock)

lemma ws_open_idle:
  assumes "ws_open_session E cmd n s = (r, s')" "\<not> upg_active s" "flash_img_laws (ws_flash E) img"
  shows "ws_lock s' = ws_lock s \<and> upg_failed s' = upg_failed s \<and> upg_received s' = upg_received s \<and> upg_crc s' = upg_crc s \<and>
    (upg_active s' \<longrightarrow> img (ws_fic s') = [])"
  using assms(1,2) img_init_ok [OF assms(3)]
  by (auto simp: ws_open_session_def Let_def case_prod_beta split: if_splits) (metis prod.collapse)+

lemma ws_inv_start:
  assumes "ws_inv img s" "flash_img_laws (ws_flash E) img"
  shows "ws_inv img (snd (ws_fw_start E cmd s))"
proof (cases "upg_active s \<or> (case json_get_i32 ''size'' cmd of None \<Rightarrow> 0 | Some v \<Rightarrow> v) \<le> 0 \<or> upgrade_active (ws_lock s)")
  case True
  then show ?thesis using assms(1) by (auto simp: ws_fw_start_def fw_upgrade_try_lock_def Let_def)
next
  case False
  define n where "n = (case json_get_i32 ''size'' cmd of None \<Rightarrow> 0 | Some v \<Rightarrow> v)"
  define t where "t = s\<lparr>ws_lock := (ws_lock s)\<lparr>upgrade_active := True, current_channel := CHANNEL_WS\<rparr>\<rparr>"
  obtain r s' where o: "ws_open_session E cmd n t = (r, s')" by fastforce
  have st: "snd (ws_fw_start E cmd s) = (if \<not> upg_active s' then s'\<lparr>ws_lock := fw_upgrade_unlock CHANNEL_WS (ws_lock s')\<rparr> else s')"
    using False o unfolding n_def t_def by (simp add: ws_fw_start_def fw_upgrade_try_lock_def Let_def)
  have "\<not> upg_active t" using False by (simp add: t_def)
  note f = ws_open_idle [OF o this assms(2)]
  have z: "\<not> upg_failed s \<and> upg_received s = 0 \<and> upg_crc s = 0" using assms(1) False by (simp add: ws_inv_def)
  have h: "hub_lock.held CHANNEL_WS (ws_lock t)"
    by (simp add: t_def hub_lock.held_def fw_upgrade_is_active_def)
  show ?thesis using f z h not_held_unlock [of CHANNEL_WS "ws_lock s'"]
    by (auto simp: st ws_inv_def t_def crc_ref_def)
qed

lemma ws_inv_img:
  "ws_inv img s \<Longrightarrow> img w = img (ws_fic s) \<Longrightarrow> ws_inv img (s\<lparr>ws_fic := w\<rparr>)"
  by (simp add: ws_inv_def)

lemma ws_inv_verdict:
  assumes "ws_inv img s" "flash_img_laws (ws_flash E) img" "ws_fw_verdict E s = Some (e, s')"
  shows "ws_inv img s'"
  using assms(3) ws_inv_img [OF assms(1) boot_request_img [OF assms(2)]] assms(1)
  by (auto simp: ws_fw_verdict_def case_prod_beta Let_def split: if_splits option.splits)

lemma ws_inv_end:
  assumes "ws_inv img s" "flash_img_laws (ws_flash E) img" "flush_law (ws_flash E) img" "ws_fw_end E s = Some (r, s')"
  shows "ws_inv img s'"
proof -
  have "ws_inv img (s\<lparr>ws_fic := snd (img_write (ws_flash E) [] True (ws_fic s))\<rparr>)"
    using assms(1,3) by (intro ws_inv_img) (simp_all add: flush_law_def)
  then show ?thesis using assms(1,4) ws_inv_verdict [OF _ assms(2)]
    by (auto simp: ws_fw_end_def Let_def ws_inv_reset split: if_splits option.splits)
qed

lemma ws_inv_binary:
  assumes "ws_inv img s" "flash_img_laws (ws_flash E) img" "\<And>c d. ws_crc16 E c d = foldl crc_ref_step c d"
  shows "ws_inv img (ws_binary E d s)"
proof -
  obtain rc w where w: "img_write (ws_flash E) d False (ws_fic s) = (rc, w)" by fastforce
  show ?thesis
  proof (cases "upg_active s \<and> \<not> upg_failed s \<and> rc = 0")
    case True
    then have "img w = img (ws_fic s) @ d" using img_write_ok [OF assms(2)] w by simp
    then show ?thesis using True assms(1) w by (simp add: ws_binary_def ws_inv_def assms(3) crc_ref_def)
  next
    case False
    then show ?thesis using assms(1) w by (auto simp: ws_binary_def ws_inv_def Let_def)
  qed
qed

lemma ws_inv_cmd:
  assumes "ws_inv img s" "flash_img_laws (ws_flash E) img" "flush_law (ws_flash E) img" "ws_handle_cmd E now cmd s = Some (r, s')"
  shows "ws_inv img s'"
proof -
  have start: "ws_inv img (snd (ws_fw_start E cmd s))" using assms(1,2) by (rule ws_inv_start)
  show ?thesis using assms(1,4) start ws_inv_end [OF assms(1,2,3)]
    unfolding ws_handle_cmd_def Let_def case_prod_beta
    by (auto split: if_splits)
qed

lemma ws_inv_frame:
  assumes "ws_inv img s" "flash_img_laws (ws_flash E) img" "flush_law (ws_flash E) img"
    and "\<And>c d. ws_crc16 E c d = foldl crc_ref_step c d" "ws_frame_in E now fr s = Some (out, s')"
  shows "ws_inv img s'"
  using assms(1,5) ws_inv_cmd [OF assms(1,2,3)] ws_inv_binary [OF assms(1,2,4)]
  by (auto simp: ws_frame_in_def split: ws_frame.splits if_splits option.splits)

lemma ws_inv_lock:
  assumes "ws_inv img s" "c \<noteq> CHANNEL_WS" "x = Try c \<or> x = Unlock c"
  shows "ws_inv img (s\<lparr>ws_lock := hub_lock.run_op x (ws_lock s)\<rparr>)"
proof -
  have "hub_lock.held CHANNEL_WS (hub_lock.run_op x (ws_lock s)) = hub_lock.held CHANNEL_WS (ws_lock s)"
    using assms(2,3)
    by (auto simp: hub_lock.held_def fw_upgrade_try_lock_def fw_upgrade_unlock_def fw_upgrade_is_active_def Let_def
      split: if_splits)
  then show ?thesis using assms(1) by (simp add: ws_inv_def)
qed

lemma ws_reach_inv:
  assumes "ws_reach E s" "flash_img_laws (ws_flash E) img" "flush_law (ws_flash E) img"
    and "\<And>c d. ws_crc16 E c d = foldl crc_ref_step c d"
  shows "ws_inv img s"
  using assms(1)
proof induction
  case (init h f)
  show ?case by (simp add: ws_inv_def ws_init_def hub_lock.held_def lock_init_def fw_upgrade_is_active_def)
next
  case (frame s now fr out s')
  then show ?case using ws_inv_frame [OF _ assms(2-4)] by blast
next
  case (lock s c x)
  then show ?case using ws_inv_lock by blast
next
  case (flash s f)
  then show ?case by (auto simp: ws_inv_def)
qed simp

end
