(* ===== verification/WsKeyhash.thy ===== *)
theory WsKeyhash imports WsIo UdpFwProps HostImage begin

text \<open>
  The check of the key hash in an image received over the WebSocket: reading the slot back, it decides
  what the host tool's parser decides on the bytes of the image.
\<close>

section \<open>The key hash in the image\<close>

lemma u32_le: "m < 2 ^ 32 \<Longrightarrow> n < 2 ^ 32 \<Longrightarrow> (of_nat m :: u32) \<le> of_nat n \<longleftrightarrow> m \<le> n"
  by (simp add: word_le_nat_alt unat_of_nat_u32)

lemma ucast_of_nat_unat: "(ucast (l :: u16) :: u32) = of_nat (unat l)"
  by (rule of_nat_unat [symmetric])

definition reads_image :: "'f flash_api \<Rightarrow> 'f \<Rightarrow> bytes \<Rightarrow> bool" where
  "reads_image F w im \<longleftrightarrow> (\<forall>off n. unat off + n \<le> length im \<longrightarrow> fa_read F Slot1 off n w = (0, take n (drop (unat off) im)))"

lemma reads_at:
  "reads_image F w im \<Longrightarrow> length im < 2 ^ 32 \<Longrightarrow> off + n \<le> length im \<Longrightarrow>
   fa_read F Slot1 (of_nat off) n w = (0, take n (drop off im))"
  unfolding reads_image_def by (simp add: unat_of_nat_u32)

lemma get_le_take [simp]:
  "2 \<le> n \<Longrightarrow> 2 \<le> length d \<Longrightarrow> get_le16 (take n d) = get_le16 d"
  "4 \<le> n \<Longrightarrow> 4 \<le> length d \<Longrightarrow> get_le32 (take n d) = get_le32 d"
  by (simp_all add: get_le16_def get_le32_def)

lemma keyhash_scan_finds:
  assumes "reads_image F w im" "length im + 70000 < 2 ^ 32"
  shows "off \<le> length im \<Longrightarrow>
    keyhash_scan F w (of_nat (length im)) key (of_nat off) = Some (find_keyhash im off = Some (Some key))"
proof (induction "length im - off" arbitrary: off rule: less_induct)
  case less
  let ?n = "of_nat (length im) :: u32"
  have plus: "(of_nat off + 4 :: u32) = of_nat (off + 4)" by simp
  show ?case
  proof (cases "off + 4 \<le> length im")
    case False
    then have "\<not> (of_nat off + 4 :: u32) \<le> ?n" using assms(2) less.prems unfolding plus by (subst u32_le) auto
    then show ?thesis using False by (subst keyhash_scan.simps, subst find_keyhash.simps) simp
  next
    case True
    then have c: "(of_nat off + 4 :: u32) \<le> ?n" using assms(2) unfolding plus by (subst u32_le) auto
    let ?d = "drop off im"
    define tp len where "tp = get_le16 ?d" and "len = get_le16 (drop 2 ?d)"
    have rd: "rd_le16 im off = Some tp" "rd_le16 im (off + 2) = Some len"
      using True by (simp_all add: rd_le16_drop tp_def len_def add.commute)
    have r: "fa_read F Slot1 (of_nat off) 4 w = (0, take 4 ?d)" using assms True by (intro reads_at) auto
    have g: "get_le16 (take 4 ?d) = tp" "get_le16 (drop 2 (take 4 ?d)) = len"
      using True by (simp_all add: tp_def len_def drop_take)
    define l where "l = unat len"
    have u: "(ucast len :: u32) = of_nat l" unfolding l_def by (rule ucast_of_nat_unat)
    have lp: "(of_nat off + 4 + ucast len :: u32) = of_nat (off + 4 + l)"
      "(of_nat off + (4 + ucast len) :: u32) = of_nat (off + 4 + l)" unfolding u by (simp_all add: add.assoc)
    have ul: "l < 65536" using unsigned_less [of len] by (simp add: l_def)
    have le: "(of_nat (off + 4 + l) :: u32) \<le> ?n \<longleftrightarrow> off + 4 + l \<le> length im"
      by (rule u32_le) (use ul True assms(2) in auto)
    have l32: "len = of_nat FW_KEYHASH_KEY_LEN \<longleftrightarrow> l = IMG_KEYHASH_LEN"
      by (auto simp: FW_KEYHASH_KEY_LEN_def IMG_KEYHASH_LEN_def word_unat_eq_iff l_def)
    have un: "unat len = l" by (simp add: l_def)
    note st = keyhash_scan.simps [of F w ?n key "of_nat off"] find_keyhash.simps [of im off]
    show ?thesis
    proof (cases "tp = 0 \<or> len = 0 \<or> \<not> off + 4 + l \<le> length im")
      case True
      then show ?thesis using c rd r g le lp un \<open>off + 4 \<le> length im\<close>
        by (subst st(1), subst st(2)) (auto simp: not_le [symmetric] simp del: of_nat_add)
    next
      case run: False
      show ?thesis
      proof (cases "tp = WS_TLV_KEYHASH \<and> l = IMG_KEYHASH_LEN")
        case hit: True
        then have "fa_read F Slot1 (of_nat (off + 4)) 32 w = (0, take 32 (drop (off + 4) im))"
          using run assms by (intro reads_at) (auto simp: IMG_KEYHASH_LEN_def)
        then show ?thesis using c rd r g le lp un run hit l32 \<open>off + 4 \<le> length im\<close>
          by (subst st(1), subst st(2))
            (auto simp: not_le [symmetric] FW_KEYHASH_KEY_LEN_def IMG_KEYHASH_LEN_def WS_TLV_KEYHASH_def IMG_TLV_KEYHASH_def)
      next
        case miss: False
        have "keyhash_scan F w ?n key (of_nat (off + 4 + l)) =
            Some (find_keyhash im (off + 4 + l) = Some (Some key))"
          using run True by (intro less.hyps) auto
        then show ?thesis using c rd r g le lp un run miss l32 \<open>off + 4 \<le> length im\<close>
          by (subst st(1), subst st(2))
            (auto simp: not_le [symmetric] WS_TLV_KEYHASH_def IMG_TLV_KEYHASH_def simp del: of_nat_add)
      qed
    qed
  qed
qed

definition tlv_start :: "bytes \<Rightarrow> nat" where
  "tlv_start im = unat (get_le16 (drop 8 im)) + unat (get_le32 (drop 12 im))"

lemma unat_ucast_u16: "unat (ucast (h :: u16) :: u32) = unat h"
proof -
  have "unat h < 2 ^ 32" using unsigned_less [of h, where ?'a = nat] by simp
  then show ?thesis unfolding ucast_of_nat_unat by (rule unat_of_nat_u32)
qed

lemma ucast_u16_and3: "(ucast (h :: u16) :: u32) AND 3 = 0 \<longleftrightarrow> h AND 3 = 0"
proof -
  have "(ucast h :: u32) AND 3 = ucast (h AND 3)" by (simp add: unsigned_and_eq)
  moreover have "(ucast (h AND 3) :: u32) = 0 \<longleftrightarrow> h AND 3 = 0"
    by (metis unat_eq_zero unat_ucast_u16)
  ultimately show ?thesis by simp
qed

lemma ucast_u16_less: "(ucast (h :: u16) :: u32) < 32 \<longleftrightarrow> unat h < 32"
  by (simp add: word_less_nat_alt unat_ucast_u16)

text \<open>What the parser of the host tool decides, on an image whose key hash it requires.\<close>

lemma parse_image_key:
  assumes "32 \<le> length im" "length im < 2 ^ 32"
  shows "parse_image (Some im) True = Some (Inr \<lparr>img_data = im, img_keyhash = k, has_keyhash = True\<rparr>) \<longleftrightarrow>
    get_le32 im = IMG_MAGIC \<and> 32 \<le> unat (get_le16 (drop 8 im)) \<and> get_le16 (drop 8 im) AND 3 = 0 \<and>
    tlv_start im + 4 \<le> length im \<and> get_le16 (drop (tlv_start im) im) = IMG_TLV_INFO_MAGIC \<and>
    find_keyhash im (tlv_start im + 4) = Some (Some k)"
proof -
  have rd: "rd_le32 im 0 = Some (get_le32 im)" "rd_le16 im 8 = Some (get_le16 (drop 8 im))"
    "rd_le32 im 12 = Some (get_le32 (drop 12 im))"
    "tlv_start im + 4 \<le> length im \<Longrightarrow> rd_le16 im (tlv_start im) = Some (get_le16 (drop (tlv_start im) im))"
    using assms(1) by (auto simp: rd_le32_drop rd_le16_drop)
  have big: "tlv_start im + 4 \<le> length im \<Longrightarrow> \<not> of_nat (length im) < get_le32 (drop 12 im)"
    using assms(2) by (simp add: word_less_nat_alt unat_of_nat_u32 tlv_start_def)
  have h: "get_le16 (drop 8 im) < 32 \<longleftrightarrow> \<not> 32 \<le> unat (get_le16 (drop 8 im))" by (simp add: word_less_nat_alt not_le)
  have t: "unat (get_le16 (drop 8 im)) + unat (get_le32 (drop 12 im)) = tlv_start im" by (simp add: tlv_start_def)
  show ?thesis
  proof (cases "tlv_start im + 4 \<le> length im")
    case True
    then show ?thesis using assms(1) rd big [OF True]
      by (auto simp: parse_image_def Let_def h t bind_eq_Some_conv split: option.splits)
  next
    case False
    then show ?thesis using assms(1) rd by (auto simp: parse_image_def Let_def h t)
  qed
qed

lemma parse_image_length: "parse_image (Some im) r = Some (Inr x) \<Longrightarrow> 32 \<le> length im"
  by (auto simp: parse_image_def Let_def split: if_splits)

lemma verify_keyhash_host:
  assumes "reads_image F w im" "fa_open F Slot1 w = 0" "32 \<le> length im" "length im + 70000 < 2 ^ 32"
    and E: "ws_flash E = F" "ws_fic s = w" "upg_received s = of_nat (length im)"
    and wrap: "tlv_start im + 4 < 2 ^ 32"
  shows "fw_upg_verify_keyhash E s = Some (tlv_start im mod 4 = 0 \<and>
    parse_image (Some im) True = Some (Inr \<lparr>img_data = im, img_keyhash = ws_keyhash E, has_keyhash = True\<rparr>))"
proof -
  define ts where "ts = tlv_start im"
  have r0: "fa_read F Slot1 0 32 w = (0, take 32 im)" using reads_at [OF assms(1), of 0 32] assms by simp
  have g: "get_le32 (take 32 im) = get_le32 im" "get_le16 (drop 8 (take 32 im)) = get_le16 (drop 8 im)"
    "get_le32 (drop 12 (take 32 im)) = get_le32 (drop 12 im)"
    using assms(3) by (simp_all add: drop_take)
  have off: "(ucast (get_le16 (drop 8 im)) :: u32) + get_le32 (drop 12 im) = of_nat ts"
    unfolding ts_def tlv_start_def by (simp only: of_nat_add ucast_of_nat_unat) (simp add: of_nat_unat)
  have m4: "(of_nat ts :: u32) mod 4 = 0 \<longleftrightarrow> ts mod 4 = 0"
    using wrap by (simp add: ts_def word_arith_nat_mod unat_of_nat_u32 of_nat_u32_inj [of _ 0, simplified])
  have four: "(of_nat ts + 4 :: u32) = of_nat (ts + 4)" by simp
  have "of_nat (ts + 4) \<le> (of_nat (length im) :: u32) \<longleftrightarrow> ts + 4 \<le> length im"
    using wrap assms(4) by (intro u32_le) (auto simp: ts_def)
  then have le: "(of_nat (length im) :: u32) < of_nat ts + 4 \<longleftrightarrow> \<not> ts + 4 \<le> length im"
    unfolding four by (simp only: not_le [symmetric] simp_thms)
  note pk = parse_image_key [OF assms(3), of "ws_keyhash E", folded ts_def]
  show ?thesis
  proof (cases "ts + 4 \<le> length im")
    case True
    then have rt: "fa_read F Slot1 (of_nat ts) 4 w = (0, take 4 (drop ts im))" using assms by (intro reads_at) auto
    have gt: "get_le16 (take 4 (drop ts im)) = get_le16 (drop ts im)" using True by simp
    have sc: "keyhash_scan F w (of_nat (length im)) (ws_keyhash E) (of_nat ts + 4) =
        Some (find_keyhash im (ts + 4) = Some (Some (ws_keyhash E)))"
      unfolding four by (rule keyhash_scan_finds [OF assms(1,4) True])
    show ?thesis using assms(2,4) True r0 rt gt sc m4 le
      by (auto simp: fw_upg_verify_keyhash_def Let_def E g off pk ts_def [symmetric]
        ucast_u16_less ucast_u16_and3 WS_IMG_MAGIC_def IMG_MAGIC_def WS_TLV_INFO_MAGIC_def IMG_TLV_INFO_MAGIC_def)
  next
    case False
    then show ?thesis using assms(2,4) r0 le
      by (auto simp: fw_upg_verify_keyhash_def Let_def E g off pk ts_def [symmetric] not_le [symmetric])
  qed
qed

end
