(* ===== verification/WsTheorems.thy ===== *)
theory WsTheorems imports WsProps WsKeyhash FtpDemo WebTheorems begin

text \<open>
  Properties of firmware upgrades over the WebSocket: the session and the upgrade lock agree, an image is
  accepted exactly when the host tool's parser takes it with the device's key, and an upgrade sent by a
  client completes.
\<close>

section \<open>The verdict\<close>

text \<open>The image a device takes: what the host tool's parser accepts with the device's key, its TLV area aligned.\<close>

definition ws_image_ok :: "bytes \<Rightarrow> bytes \<Rightarrow> bool" where
  "ws_image_ok key im \<longleftrightarrow> tlv_start im mod 4 = 0 \<and>
     parse_image (Some im) True = Some (Inr \<lparr>img_data = im, img_keyhash = key, has_keyhash = True\<rparr>)"

definition ws_flash_ok :: "('w, 'f) ws_env \<Rightarrow> ('f \<Rightarrow> bytes) \<Rightarrow> nat \<Rightarrow> bool" where
  "ws_flash_ok E img cap \<longleftrightarrow> flash_img_laws (ws_flash E) img \<and> flash_no_fault (ws_flash E) img cap \<and>
     flash_readback_laws (ws_flash E) img Slot1 \<and> (\<forall>c d. ws_crc16 E c d = foldl crc_ref_step c d)"

lemma ws_crc_ok:
  assumes "ws_flash_ok E img cap" "img (ws_fic s) = im" "length im < 2 ^ 32"
    and rd: "reads_image (ws_flash E) (ws_fic s) im" "img_bytes_written (ws_flash E) (ws_fic s) = of_nat (length im)"
  shows "fw_upg_verify_crc E s \<longleftrightarrow> upg_crc s = crc_ref im"
proof -
  have "crc_loop (ws_flash E) (ws_crc16 E) (ws_fic s) (length im) 0 0 = Some (foldl crc_ref_step 0 (drop 0 im))"
    using assms(1,3) rd(1) by (intro crc_loop_image) (auto simp: ws_flash_ok_def reads_image_def)
  moreover have "fa_open (ws_flash E) Slot1 (ws_fic s) = 0"
    using assms(1) unfolding ws_flash_ok_def by (metis no_fault_open)
  ultimately show ?thesis
    using assms(3) by (auto simp: fw_upg_verify_crc_def Let_def rd(2) unat_of_nat_u32 crc_ref_def)
qed

lemma ws_flushed:
  assumes "ws_flash_ok E img cap" "length (img w) \<le> cap" "w' = snd (img_write (ws_flash E) [] True w)"
  shows "img w' = img w \<and> reads_image (ws_flash E) w' (img w) \<and>
    img_bytes_written (ws_flash E) w' = of_nat (length (img w))"
proof -
  obtain v where v: "img_write (ws_flash E) [] True w = (0, v)" "img v = img w"
    using assms(1,2) no_fault_write [of "ws_flash E" img cap w "[]" True] unfolding ws_flash_ok_def by auto
  then have "w' = v" using assms(3) by simp
  then show ?thesis
    using v assms(1) unfolding ws_flash_ok_def flash_readback_laws_def reads_image_def by metis
qed

lemma ws_end_verdict:
  assumes F: "ws_flash_ok E img cap" and inv: "ws_inv img s" and s: "upg_active s" "\<not> upg_failed s" "im = img (ws_fic s)"
    and im: "32 \<le> length im" "length im \<le> cap" "length im + 70000 < 2 ^ 32" "tlv_start im + 4 < 2 ^ 32"
  shows "\<exists>r s'. ws_fw_end E s = Some (r, s') \<and> img (ws_fic s') = im \<and>
    (if unat (upg_total s) = length im \<and> ws_image_ok (ws_keyhash E) im
     then r = ws_ok \<and> reboot_pending (ws_hub s') \<and> upg_active s' \<and>
       (\<exists>w. img w = im \<and> ws_fic s' = snd (boot_request (ws_flash E) 1 w))
     else (\<exists>e. r = ws_err e) \<and> s' = fw_upg_reset (s\<lparr>ws_fic := ws_fic s'\<rparr>))"
proof -
  define w where "w = snd (img_write (ws_flash E) [] True (ws_fic s))"
  define t where "t = s\<lparr>ws_fic := w\<rparr>"
  have w: "img w = im \<and> reads_image (ws_flash E) w im \<and> img_bytes_written (ws_flash E) w = of_nat (length im)"
    using ws_flushed [OF F _ w_def] s(3) im(2) by simp
  have l32: "length im < 2 ^ 32" using im(3) by simp
  have acc: "upg_received s = of_nat (length im)" "upg_crc s = crc_ref im" using inv s by (simp_all add: ws_inv_def)
  have nz: "(of_nat (length im) :: u32) \<noteq> 0" using im(1) l32 by (metis unat_of_nat_u32 unat_0 le_zero_eq zero_neq_numeral)
  have tot: "of_nat (length im) \<noteq> upg_total s \<longleftrightarrow> unat (upg_total s) \<noteq> length im"
    using unat_of_nat_u32 [OF l32] by (metis of_nat_unat ucast_id)
  have crc: "fw_upg_verify_crc E t" using ws_crc_ok [OF F, of t im] w l32 acc by (simp add: t_def)
  have op: "fa_open (ws_flash E) Slot1 w = 0" using F unfolding ws_flash_ok_def by (metis no_fault_open)
  have kh: "fw_upg_verify_keyhash E t = Some (ws_image_ok (ws_keyhash E) im)"
    unfolding ws_image_ok_def using w acc im op by (intro verify_keyhash_host [of "ws_flash E" w]) (simp_all add: t_def)
  have br: "fst (boot_request (ws_flash E) 1 w) = 0" "img (snd (boot_request (ws_flash E) 1 w)) = im"
    using F w no_fault_boot [of "ws_flash E" img cap] boot_request_img [of "ws_flash E" img] by (auto simp: ws_flash_ok_def)
  have v: "ws_fw_verdict E t = Some (if unat (upg_total s) \<noteq> length im then (Some ''size mismatch'', t)
      else if \<not> ws_image_ok (ws_keyhash E) im then (Some ''keyhash mismatch'', t)
      else (None, t\<lparr>ws_fic := snd (boot_request (ws_flash E) 1 w)\<rparr>))"
    using crc kh br(1) nz tot acc by (simp add: ws_fw_verdict_def case_prod_beta Let_def t_def)
  have sync: "ws_fic (ws_sync E u) = ws_fic u \<and> upg_active (ws_sync E u) = upg_active u" for u
    by (simp add: ws_sync_def split: option.split)
  show ?thesis using v s(1) br(2) w sync
    by (auto simp: ws_fw_end_def t_def w_def [symmetric] Let_def set_ws_hub_def fw_upg_reset_def)
qed

section \<open>A whole upgrade\<close>

fun ws_frames :: "('w, 'f) ws_env \<Rightarrow> int \<Rightarrow> ws_frame list \<Rightarrow> ('w, 'f) ws_st \<Rightarrow> (string list \<times> ('w, 'f) ws_st) option" where
  "ws_frames E now [] s = Some ([], s)"
| "ws_frames E now (fr # frs) s = (case ws_frame_in E now fr s of None \<Rightarrow> None
     | Some (out, s) \<Rightarrow> map_option (\<lambda>(o2, s). (out @ o2, s)) (ws_frames E now frs s))"

lemma ws_frames_reach: "ws_frames E now frs s = Some (out, s') \<Longrightarrow> ws_reach E s \<Longrightarrow> ws_reach E s'"
  by (induction frs arbitrary: s out) (auto split: option.splits intro: ws_reach.frame)

lemma ws_frames_append: "ws_frames E now (frs @ frs') s = (case ws_frames E now frs s of None \<Rightarrow> None
     | Some (out, s) \<Rightarrow> map_option (\<lambda>(o2, s). (out @ o2, s)) (ws_frames E now frs' s))"
proof (induction frs arbitrary: s)
  case Nil
  then show ?case by (cases "ws_frames E now frs' s") auto
next
  case (Cons fr frs)
  then show ?case by (auto split: option.splits simp: option.map_comp comp_def case_prod_beta)
qed

definition start_cmd :: "nat \<Rightarrow> string" where
  "start_cmd n = ''{'' @ json_key ''cmd'' @ json_str ''fw_start'' @ '','' @ json_key ''size'' @ dec_text n @ ''}''"

definition end_cmd :: string where
  "end_cmd = ''{'' @ json_key ''cmd'' @ json_str ''fw_end'' @ ''}''"

lemma start_cmd_cmd:
  "json_find_value ''cmd'' (start_cmd n) = Some (json_str ''fw_start'' @ '','' @ json_key ''size'' @ dec_text n @ ''}'')"
  by (simp add: start_cmd_def json_key_def json_find_match [of "''cmd''", simplified] json_str_def skip_blanks_def is_space_def)

lemma end_cmd_cmd: "json_find_value ''cmd'' end_cmd = Some (json_str ''fw_end'' @ ''}'')"
  by code_simp

lemma start_size: 
  assumes "n \<le> 2147483647"
  shows "json_get_i32 ''size'' (json_str ''fw_start'' @ '','' @ json_key ''size'' @ dec_text n @ ''}'') = Some (int n)"
  using json_get_i32_match [OF assms, of "''}''" "''size''"]
  by (simp add: json_str_def json_key_def json_scan no_digit_def hex_val_def)

lemma start_no_key:
  "json_get_str ''keyhash'' k (json_str ''fw_start'' @ '','' @ json_key ''size'' @ dec_text n @ ''}'') = None"
  by (simp add: json_get_str_def json_str_def json_key_def json_find_mismatch json_find_append [OF dec_text_no_quote])

lemma ws_start_ok:
  assumes F: "ws_flash_ok E img cap" "\<And>p a n w. fst (fa_erase (ws_flash E) p a n w) = 0"
    and s: "ws_inv img s" "\<not> upg_active s" "\<not> upgrade_active (ws_lock s)" and n: "0 < n" "n \<le> 2147483647"
  shows "\<exists>s'. ws_frame_in E now (WsText (start_cmd n)) s = Some ([ws_ok], s') \<and> ws_inv img s' \<and> upg_active s' \<and>
    \<not> upg_failed s' \<and> upg_total s' = of_nat n \<and> img (ws_fic s') = [] \<and> ws_his s' = ws_his s"
proof -
  let ?cmd = "json_str ''fw_start'' @ '','' @ json_key ''size'' @ dec_text n @ ''}''"
  have "start_cmd n \<noteq> []" by (simp add: start_cmd_def)
  moreover have "ws_handle_cmd E now ?cmd s = Some (ws_fw_start E ?cmd s)"
    by (simp add: ws_handle_cmd_def prefix_of_def json_str_def)
  ultimately have st: "ws_frame_in E now (WsText (start_cmd n)) s = Some (case ws_fw_start E ?cmd s of (r, s') \<Rightarrow> ([r], s'))"
    by (simp add: ws_frame_in_def start_cmd_cmd case_prod_beta)
  have op: "fa_open (ws_flash E) Slot1 w = 0" for w using F(1) unfolding ws_flash_ok_def by (metis no_fault_open)
  have ini: "fst (img_init (ws_flash E) Slot1 w) = 0 \<and> img (snd (img_init (ws_flash E) Slot1 w)) = []" for w
    using F(1) no_fault_init [of "ws_flash E" img cap Slot1 w] unfolding ws_flash_ok_def by auto
  define c where "c = ?cmd"
  have c: "json_get_i32 ''size'' c = Some (int n)" "json_get_str ''keyhash'' 64 c = None"
    unfolding c_def by (rule start_size [OF n(2)], rule start_no_key)
  obtain s' where o: "ws_fw_start E ?cmd s = (ws_ok, s')" "upg_active s'" "upg_failed s' = upg_failed s"
      "upg_total s' = of_nat n" "img (ws_fic s') = []" "ws_his s' = ws_his s"
    unfolding c_def [symmetric] using s(2,3) n(1) op ini F(2)
    by (simp add: ws_fw_start_def c fw_upgrade_try_lock_def Let_def ws_open_session_def
        fw_upg_verify_client_keyhash_def case_prod_beta)
  moreover have "ws_inv img s'" using ws_inv_start [OF s(1), of E ?cmd] F(1) o(1) by (simp add: ws_flash_ok_def)
  moreover have "\<not> upg_failed s" using s(1,2) by (simp add: ws_inv_def)
  ultimately show ?thesis using st by auto
qed

lemma ws_binaries_ok:
  assumes F: "ws_flash_ok E img cap"
  shows "ws_inv img s \<Longrightarrow> upg_active s \<Longrightarrow> \<not> upg_failed s \<Longrightarrow> length (img (ws_fic s)) + length (concat ds) \<le> cap \<Longrightarrow>
    \<exists>s'. ws_frames E now (map WsBinary ds) s = Some ([], s') \<and> ws_inv img s' \<and> upg_active s' \<and> \<not> upg_failed s' \<and>
      upg_total s' = upg_total s \<and> img (ws_fic s') = img (ws_fic s) @ concat ds"
proof (induction ds arbitrary: s)
  case (Cons d ds)
  define s1 where "s1 = (if d = [] then s else ws_binary E d s)"
  obtain w where w: "img_write (ws_flash E) d False (ws_fic s) = (0, w)" "img w = img (ws_fic s) @ d"
    using no_fault_write [of "ws_flash E" img cap "ws_fic s" d False] F Cons.prems(4) by (auto simp: ws_flash_ok_def)
  have s1: "ws_inv img s1 \<and> upg_active s1 \<and> \<not> upg_failed s1 \<and> upg_total s1 = upg_total s \<and> img (ws_fic s1) = img (ws_fic s) @ d"
    using Cons.prems w F ws_inv_binary [OF Cons.prems(1), of E d]
    by (auto simp: s1_def ws_binary_def ws_flash_ok_def)
  then show ?case using Cons.IH [of s1] Cons.prems(4)
    by (auto simp: ws_frame_in_def s1_def [symmetric] simp del: map_map)
qed simp

section \<open>A concrete device\<close>

definition demo_ws_key :: bytes where "demo_ws_key = replicate 32 5"

definition demo_ws_img :: bytes where
  "demo_ws_img = mk_image [0,0,0,0] [0,0] (replicate 16 0) [7,7,7,7] [0,0] (mk_tlv (2, [9]) @ mk_tlv (IMG_TLV_KEYHASH, demo_ws_key))"

definition demo_ws :: "(mem_fs, ram_world) ws_env" where
  "demo_ws = \<lparr>ws_hub_env = demo_board, ws_fs = mem_his_fs, ws_flash = ram_flash, ws_crc16 = foldl crc_ref_step,
     ws_keyhash = demo_ws_key, ws_b64 = (\<lambda>_. None), ws_over = (\<lambda>_. 0), ws_reset_rcs = (0, 0)\<rparr>"

definition demo_ws_st :: "(mem_fs, ram_world) ws_st" where
  "demo_ws_st = ws_init (demo_his [] [] 0) ram_empty"

lemma demo_ws_img_ok: "ws_image_ok demo_ws_key demo_ws_img" "length demo_ws_img = 81" "tlv_start demo_ws_img = 36"
  by code_simp+

lemma demo_ws_flash:
  "ws_flash_ok demo_ws ram_img cap" "flush_law (ws_flash demo_ws) ram_img" "fst (fa_erase (ws_flash demo_ws) p a n w) = 0"
  using ram_flash_laws ram_flash_no_fault ram_flash_readback
  by (auto simp: ws_flash_ok_def flush_law_def demo_ws_def ram_flash_def)

lemma demo_ws_reach: "ws_reach demo_ws demo_ws_st" "\<not> upgrade_active (ws_lock demo_ws_st)"
  unfolding demo_ws_st_def by (rule ws_reach.init) (simp add: ws_init_def lock_init_def)

lemma demo_ws_running:
  "\<exists>s. ws_reach demo_ws s \<and> upg_active s \<and> \<not> upg_failed s \<and> unat (upg_total s) = 81 \<and> ram_img (ws_fic s) = demo_ws_img"
proof -
  have i: "ws_inv ram_img demo_ws_st" "\<not> upg_active demo_ws_st"
    by (simp_all add: demo_ws_st_def ws_init_def ws_inv_def hub_lock.held_def fw_upgrade_is_active_def lock_init_def)
  obtain s1 where s1: "ws_frame_in demo_ws 0 (WsText (start_cmd 81)) demo_ws_st = Some ([ws_ok], s1)" "ws_inv ram_img s1"
      "upg_active s1" "\<not> upg_failed s1" "upg_total s1 = of_nat 81" "ram_img (ws_fic s1) = []"
    using ws_start_ok [OF demo_ws_flash(1,3) i demo_ws_reach(2), of 81 0] by auto
  obtain s2 where s2: "ws_frames demo_ws 0 (map WsBinary [demo_ws_img]) s1 = Some ([], s2)" "upg_active s2" "\<not> upg_failed s2"
      "upg_total s2 = 81" "ram_img (ws_fic s2) = demo_ws_img"
    using ws_binaries_ok [OF demo_ws_flash(1) s1(2,3,4), of "[demo_ws_img]" 81 0] s1(5,6) demo_ws_img_ok(2) by auto
  have "ws_reach demo_ws s2"
    using ws_frames_reach [OF s2(1)] ws_reach.frame [OF demo_ws_reach(1) s1(1)] by blast
  then show ?thesis using s2 by (intro exI [of _ s2]) simp
qed

lemma fw_upg_reset_active: "s' = fw_upg_reset s \<Longrightarrow> \<not> upg_active s'"
  by (simp add: fw_upg_reset_def)

section \<open>Properties\<close>

text \<open>
  C18. An upgrade session of the WebSocket and the upgrade lock agree in every reachable state, for any
  frames clients send and any requests of the other channels in between: the session is open exactly
  while the channel owns the lock, so it can neither leak the lock nor write without it; and while no
  write has failed the byte count and the running checksum are those of the image in the slot.
\<close>
theorem ws_session_accounted:
  assumes "ws_reach E s" "flash_img_laws (ws_flash E) img" "flush_law (ws_flash E) img"
    and "\<And>c d. ws_crc16 E c d = foldl crc_ref_step c d"
  shows "(upg_active s \<longleftrightarrow> hub_lock.held CHANNEL_WS (ws_lock s)) \<and>
    (if upg_active s \<and> \<not> upg_failed s
     then upg_received s = of_nat (length (img (ws_fic s))) \<and> upg_crc s = crc_ref (img (ws_fic s)) else True)"
  using ws_reach_inv [OF assms] by (auto simp: ws_inv_def)

theorem ws_session_accounted_witness:
  "\<exists>s. ws_reach demo_ws s \<and> upg_active s \<and> upg_received s = 81 \<and> hub_lock.held CHANNEL_WS (ws_lock s)"
proof -
  obtain s where s: "ws_reach demo_ws s" "upg_active s" "\<not> upg_failed s" "ram_img (ws_fic s) = demo_ws_img"
    using demo_ws_running by blast
  have "\<And>c d. ws_crc16 demo_ws c d = foldl crc_ref_step c d" by (simp add: demo_ws_def)
  from ws_session_accounted [OF s(1) _ demo_ws_flash(2) this] s demo_ws_img_ok(2) demo_ws_flash(1) [of 0]
  show ?thesis by (intro exI [of _ s]) (simp add: ws_flash_ok_def)
qed

text \<open>
  The verdict on an upgrade over the WebSocket, in every reachable state with a session in which
  no write has failed and at least an image header has arrived: \<open>fw_end\<close> returns, and answers ok exactly
  when as many bytes arrived as were announced and the host tool's parser accepts the bytes with the
  device's key hash (and the TLV area is word-aligned).  Then the swap is requested for exactly these
  bytes, the device restarts and the lock stays taken until it does; otherwise the session is closed,
  the lock released, and nothing else changes.
\<close>
theorem ws_upgrade_verdict:
  assumes "ws_reach E s" "ws_flash_ok E img cap" "flush_law (ws_flash E) img"
    and "upg_active s" "\<not> upg_failed s" "im = img (ws_fic s)"
    and "32 \<le> length im" "length im \<le> cap" "length im + 70000 < 2 ^ 32" "tlv_start im + 4 < 2 ^ 32"
  shows "\<exists>r s'. ws_fw_end E s = Some (r, s') \<and> img (ws_fic s') = im \<and>
    (if unat (upg_total s) = length im \<and> ws_image_ok (ws_keyhash E) im
     then r = ws_ok \<and> reboot_pending (ws_hub s') \<and> upg_active s' \<and>
       (\<exists>w. img w = im \<and> ws_fic s' = snd (boot_request (ws_flash E) 1 w))
     else (\<exists>e. r = ws_err e) \<and> s' = fw_upg_reset (s\<lparr>ws_fic := ws_fic s'\<rparr>))"
proof -
  have "ws_inv img s" using assms(1-3) by (intro ws_reach_inv) (auto simp: ws_flash_ok_def)
  then show ?thesis using ws_end_verdict [OF assms(2) _ assms(4-10)] by blast
qed

theorem ws_upgrade_verdict_witness:
  "\<exists>s s'. ws_reach demo_ws s \<and> ws_fw_end demo_ws s = Some (ws_ok, s') \<and> ram_img (ws_fic s') = demo_ws_img \<and> reboot_pending (ws_hub s')"
proof -
  obtain s where s: "ws_reach demo_ws s" "upg_active s" "\<not> upg_failed s" "unat (upg_total s) = 81" "ram_img (ws_fic s) = demo_ws_img"
    using demo_ws_running by blast
  have k: "ws_keyhash demo_ws = demo_ws_key" by (simp add: demo_ws_def)
  from ws_upgrade_verdict [OF s(1) demo_ws_flash(1,2) s(2,3) s(5) [symmetric], of 81] s(1,4) k
  show ?thesis by (auto simp: demo_ws_img_ok)
qed

text \<open>
  C17. An upgrade over the WebSocket completes: a client that announces the size, sends the image in
  binary frames cut in any way and ends it, when the flash does not fail and no other upgrade is
  running, for an image the host tool's parser accepts with the device's key hash.  If the TLV area of
  the image starts at a multiple of four, both answers are positive, the slot holds the image byte
  for byte, the swap is requested and the device restarts.  An image whose TLV area starts elsewhere,
  which the tool and the other channels accept, is refused when it is ended: the second answer is an
  error and the lock is released.
\<close>
theorem ws_upgrade_complete:
  assumes "ws_flash_ok E img cap" "\<And>p a n w. fst (fa_erase (ws_flash E) p a n w) = 0"
    and "ws_reach E s" "flush_law (ws_flash E) img" "\<not> upgrade_active (ws_lock s)"
    and "concat ds = im" "length im \<le> cap" "length im \<le> 2147483647"
    and "parse_image (Some im) True = Some (Inr \<lparr>img_data = im, img_keyhash = ws_keyhash E, has_keyhash = True\<rparr>)"
  shows "\<exists>r s'. ws_frames E now (WsText (start_cmd (length im)) # map WsBinary ds @ [WsText end_cmd]) s = Some ([ws_ok, r], s') \<and>
    img (ws_fic s') = im \<and>
    (if tlv_start im mod 4 = 0
     then r = ws_ok \<and> reboot_pending (ws_hub s') \<and> hub_lock.held CHANNEL_WS (ws_lock s') \<and>
       (\<exists>w. img w = im \<and> ws_fic s' = snd (boot_request (ws_flash E) 1 w))
     else (\<exists>e. r = ws_err e) \<and> \<not> hub_lock.held CHANNEL_WS (ws_lock s'))"
proof -
  note pi = assms(9)
  have ok: "ws_image_ok (ws_keyhash E) im \<longleftrightarrow> tlv_start im mod 4 = 0" using pi by (simp add: ws_image_ok_def)
  have im: "32 \<le> length im" using parse_image_length [OF pi] by simp
  then have ts: "tlv_start im + 4 < 2 ^ 32"
    using parse_image_key [of im "ws_keyhash E"] pi assms(8) by simp
  have inv: "ws_inv img s" using assms(1,3,4) by (intro ws_reach_inv) (auto simp: ws_flash_ok_def)
  then have idle: "\<not> upg_active s" using assms(5)
    by (auto simp: ws_inv_def hub_lock.held_def fw_upgrade_is_active_def)
  have n0: "0 < length im" using im by linarith
  obtain s1 where s1: "ws_frame_in E now (WsText (start_cmd (length im))) s = Some ([ws_ok], s1)" "ws_inv img s1" "upg_active s1"
      "\<not> upg_failed s1" "upg_total s1 = of_nat (length im)" "img (ws_fic s1) = []"
    using ws_start_ok [OF assms(1,2) inv idle assms(5) n0 assms(8)] by blast
  obtain s2 where s2: "ws_frames E now (map WsBinary ds) s1 = Some ([], s2)" "ws_inv img s2" "upg_active s2" "\<not> upg_failed s2"
      "upg_total s2 = of_nat (length im)" "img (ws_fic s2) = im"
    using ws_binaries_ok [OF assms(1) s1(2,3,4), of ds now] s1(5,6) assms(6,7) by auto
  have tot: "unat (upg_total s2) = length im" using s2(5) assms(8) by (simp add: unat_of_nat_u32)
  have l: "length im + 70000 < 2 ^ 32" using assms(8) by simp
  obtain r s3 where s3: "ws_fw_end E s2 = Some (r, s3)" "img (ws_fic s3) = im"
    "if tlv_start im mod 4 = 0 then r = ws_ok \<and> reboot_pending (ws_hub s3) \<and> upg_active s3 \<and>
       (\<exists>w. img w = im \<and> ws_fic s3 = snd (boot_request (ws_flash E) 1 w))
     else (\<exists>e. r = ws_err e) \<and> s3 = fw_upg_reset (s2\<lparr>ws_fic := ws_fic s3\<rparr>)"
    using ws_end_verdict [OF assms(1) s2(2,3,4) s2(6) [symmetric] im assms(7) l ts] tot ok by auto
  have inv3: "ws_inv img s3" using ws_inv_end [OF s2(2) _ assms(4) s3(1)] assms(1) by (simp add: ws_flash_ok_def)
  have "upg_active s3 \<longleftrightarrow> tlv_start im mod 4 = 0"
    using s3(3) fw_upg_reset_active [of s3 "s2\<lparr>ws_fic := ws_fic s3\<rparr>"] by (cases "tlv_start im mod 4 = 0") auto
  then have held: "hub_lock.held CHANNEL_WS (ws_lock s3) \<longleftrightarrow> tlv_start im mod 4 = 0"
    using inv3 by (simp add: ws_inv_def)
  have "ws_frame_in E now (WsText end_cmd) s2 = Some ([r], s3)"
    by (simp add: ws_frame_in_def end_cmd_cmd, simp add: end_cmd_def ws_handle_cmd_def prefix_of_def json_str_def s3(1))
  then have "ws_frames E now (WsText (start_cmd (length im)) # map WsBinary ds @ [WsText end_cmd]) s = Some ([ws_ok, r], s3)"
    using s1(1) s2(1) by (simp add: ws_frames_append)
  then show ?thesis using s3(2,3) held by (intro exI [of _ r] exI [of _ s3]) (simp split: if_splits)
qed

theorem ws_upgrade_complete_witness:
  "\<exists>s'. ws_frames demo_ws 0 (WsText (start_cmd (length demo_ws_img)) # map WsBinary [take 40 demo_ws_img, drop 40 demo_ws_img] @ [WsText end_cmd])
     demo_ws_st = Some ([ws_ok, ws_ok], s') \<and> ram_img (ws_fic s') = demo_ws_img \<and> reboot_pending (ws_hub s')"
proof -
  have k: "parse_image (Some demo_ws_img) True =
      Some (Inr \<lparr>img_data = demo_ws_img, img_keyhash = ws_keyhash demo_ws, has_keyhash = True\<rparr>)"
    using demo_ws_img_ok(1) by (simp add: demo_ws_def ws_image_ok_def)
  have "concat [take 40 demo_ws_img, drop 40 demo_ws_img] = demo_ws_img" by simp
  from ws_upgrade_complete [OF demo_ws_flash(1,3) demo_ws_reach(1) demo_ws_flash(2) demo_ws_reach(2) this _ _ k, of 81 0]
  show ?thesis by (auto simp: demo_ws_img_ok(2,3) simp del: list.map)
qed

end
