(* ===== verification/RfCrypt.thy ===== *)
theory RfCrypt imports Prelude begin

text \<open>
  Link encryption of the 2.4 GHz radio, \<open>drivers/nrf24l01p/nrf24_crypt.c\<close>: the XXTEA block function,
  the key derived from the radio address, the keystream, and the sealing and opening of a frame with the
  receiver's counter window.  A frame is a list of bytes; moving it by the counter byte inside the buffer
  is adding or dropping the first element.
\<close>

section \<open>The block function\<close>

definition XXTEA_DELTA :: u32 where "XXTEA_DELTA = 0x9E3779B9"

text \<open>One addend: \<open>y\<close> and \<open>z\<close> are the neighbours, \<open>k\<close> the key word chosen for the position.\<close>

definition xxtea_mx :: "u32 \<Rightarrow> u32 \<Rightarrow> u32 \<Rightarrow> u32 \<Rightarrow> u32" where
  "xxtea_mx y z sm k =
     ((drop_bit 5 z XOR push_bit 2 y) + (drop_bit 3 y XOR push_bit 4 z)) XOR ((sm XOR y) + (k XOR z))"

text \<open>
  One round on the two words: \<open>p = 0\<close> with the neighbours \<open>v[1]\<close> and the last \<open>z\<close>, which is \<open>v[1]\<close> too,
  then the last word with the neighbours \<open>v[0]\<close>.
\<close>

definition xxtea_round :: "u32 list \<Rightarrow> u32 \<times> u32 \<times> u32 \<Rightarrow> u32 \<times> u32 \<times> u32" where
  "xxtea_round key st =
     (case st of (sm, v0, v1) \<Rightarrow>
        let sm = sm + XXTEA_DELTA;
            e = drop_bit 2 sm AND 3;
            z = v1; y = v1;
            z = v0 + xxtea_mx y z sm (key ! unat (0 XOR e)); v0 = z;
            y = v0;
            z = v1 + xxtea_mx y z sm (key ! unat (1 XOR e)); v1 = z
        in (sm, v0, v1))"

definition XXTEA_ROUNDS :: nat where "XXTEA_ROUNDS = 6 + 52 div 2"

definition xxtea_encrypt_block :: "u32 list \<Rightarrow> u32 \<times> u32 \<Rightarrow> u32 \<times> u32" where
  "xxtea_encrypt_block key v = snd ((xxtea_round key ^^ XXTEA_ROUNDS) (0, v))"

section \<open>State and key\<close>

record crypt_st =
  crypt_key :: "u32 list"
  tx_counter :: u32
  rx_counter :: u32
  rx_initialized :: bool

definition NRF24_CRYPT_ADDR_LEN :: nat where "NRF24_CRYPT_ADDR_LEN = 5"
definition RX_WINDOW :: u8 where "RX_WINDOW = 32"

definition crypt_init :: crypt_st where
  "crypt_init = \<lparr>crypt_key = [0, 0, 0, 0], tx_counter = 0, rx_counter = 0, rx_initialized = False\<rparr>"

definition derive_key :: "bytes \<Rightarrow> u32 list" where
  "derive_key addr =
     (let kbytes = map (\<lambda>i. addr ! (i mod NRF24_CRYPT_ADDR_LEN)) [0..<16] in
      map (\<lambda>i. be32_at (drop (i * 4) kbytes)) [0..<4])"

definition nrf24_crypt_set_key :: "bytes \<Rightarrow> crypt_st \<Rightarrow> crypt_st" where
  "nrf24_crypt_set_key addr s = s\<lparr>crypt_key := derive_key addr, tx_counter := 0, rx_initialized := False\<rparr>"

definition nrf24_crypt_rx_reset :: "crypt_st \<Rightarrow> crypt_st" where
  "nrf24_crypt_rx_reset s = s\<lparr>rx_initialized := False\<rparr>"

section \<open>The stream\<close>

definition ks_block :: "u32 list \<Rightarrow> u32 \<Rightarrow> bytes" where
  "ks_block key c = (let (b0, b1) = xxtea_encrypt_block key (c, NOT c) in put_be32 b0 @ put_be32 b1)"

fun ctr_xor :: "u32 list \<Rightarrow> u32 \<Rightarrow> bytes \<Rightarrow> bytes" where
  "ctr_xor key c [] = []"
| "ctr_xor key c (b # bs) =
     map2 (XOR) (take 8 (b # bs)) (ks_block key c) @ ctr_xor key (c + 1) (drop 8 (b # bs))"

section \<open>Frames\<close>

text \<open>\<open>None\<close> stands for the length 0 that reports an error; the buffer is then untouched.\<close>

definition nrf24_crypt_seal :: "bytes \<Rightarrow> crypt_st \<Rightarrow> bytes option \<times> crypt_st" where
  "nrf24_crypt_seal pt s =
     (if length pt < 2 \<or> length pt > 31 then (None, s)
      else let ctr = tx_counter s in
        (Some (ucast (ctr AND 0xFF) # ctr_xor (crypt_key s) ctr pt), s\<lparr>tx_counter := ctr + 1\<rparr>))"

text \<open>The full counter of a frame from the byte it carries; \<open>None\<close> outside the window.\<close>

definition rx_infer :: "u8 \<Rightarrow> crypt_st \<Rightarrow> u32 option" where
  "rx_infer ctr_byte s =
     (if \<not> rx_initialized s then Some (ucast ctr_byte)
      else let rx_low = (ucast (rx_counter s AND 0xFF) :: u8); diff = ctr_byte - rx_low in
        if diff = 0 \<or> diff > RX_WINDOW then None
        else if ctr_byte < rx_low then Some ((rx_counter s AND NOT 0xFF) + 256 + ucast ctr_byte)
        else Some ((rx_counter s AND NOT 0xFF) + ucast ctr_byte))"

definition nrf24_crypt_open :: "bytes \<Rightarrow> crypt_st \<Rightarrow> bytes option \<times> crypt_st" where
  "nrf24_crypt_open fr s =
     (if length fr < 3 \<or> length fr > 32 then (None, s)
      else case rx_infer (hd fr) s of None \<Rightarrow> (None, s)
        | Some ctr \<Rightarrow> (Some (ctr_xor (crypt_key s) ctr (tl fr)), s\<lparr>rx_counter := ctr, rx_initialized := True\<rparr>))"

section \<open>The stream is its own inverse\<close>

lemma length_ks_block [simp]: "length (ks_block key c) = 8"
  by (simp add: ks_block_def case_prod_beta)

lemma length_ctr_xor [simp]: "length (ctr_xor key c bs) = length bs"
  by (induction key c bs rule: ctr_xor.induct) (simp_all del: take_Suc_Cons drop_Suc_Cons)

lemma ctr_xor_step: "ctr_xor key c bs = map2 (XOR) (take 8 bs) (ks_block key c) @ ctr_xor key (c + 1) (drop 8 bs)"
  by (cases bs) simp_all

declare ctr_xor.simps(2) [simp del]

text \<open>Byte \<open>i\<close> of the keystream of a frame with counter \<open>c\<close>.\<close>

definition ks_byte :: "u32 list \<Rightarrow> u32 \<Rightarrow> nat \<Rightarrow> u8" where
  "ks_byte key c i = ks_block key (c + of_nat (i div 8)) ! (i mod 8)"

lemma ks_byte_next: "8 \<le> i \<Longrightarrow> ks_byte key c i = ks_byte key (c + 1) (i - 8)"
proof -
  assume "8 \<le> i"
  then obtain j where j: "i = 8 + j" using le_Suc_ex by blast
  have "(8 + j) div 8 = Suc (j div 8)" by simp
  then show ?thesis unfolding j by (simp add: ks_byte_def add.assoc del: div_add_self1)
qed

lemma ctr_xor_nth: "i < length bs \<Longrightarrow> ctr_xor key c bs ! i = bs ! i XOR ks_byte key c i"
proof (induction "length bs" arbitrary: bs c i rule: less_induct)
  case less
  show ?case
  proof (cases "i < 8")
    case True
    then show ?thesis using less.prems by (subst ctr_xor_step) (simp add: nth_append ks_byte_def)
  next
    case False
    have "ctr_xor key (c + 1) (drop 8 bs) ! (i - 8) = drop 8 bs ! (i - 8) XOR ks_byte key (c + 1) (i - 8)"
      using less.prems False by (intro less.hyps) auto
    moreover have "min (length bs) 8 = 8" using less.prems False by simp
    ultimately show ?thesis using less.prems False ks_byte_next [of i key c]
      by (subst ctr_xor_step) (simp add: nth_append)
  qed
qed

lemma ctr_xor_twice [simp]: "ctr_xor key c (ctr_xor key c bs) = bs"
  by (rule nth_equalityI) (simp_all add: ctr_xor_nth xor.assoc)

end
