(* ===== verification/RfCryptTheorems.thy ===== *)
theory RfCryptTheorems imports RfCrypt begin

text \<open>
  The counter window of the encrypted radio link: what the receiver infers, as one equation.
  Properties of the encrypted radio link: what arrives is what was sent, in order and once; which recorded
  frames are accepted again; and where the keystream repeats.
\<close>

section \<open>The inferred counter\<close>

lemma low_byte: "(ucast (w AND 0xFF) :: u8) = ucast (w :: u32)"
proof (rule bit_word_eqI)
  fix n assume "n < LENGTH(8)"
  then have "n < 8" by simp
  have m: "(0xFF :: u32) = mask 8" by (simp add: mask_eq_exp_minus_1)
  show "bit (ucast (w AND 0xFF) :: u8) n = bit (ucast w :: u8) n"
    using \<open>n < 8\<close> unfolding m by (auto simp: bit_simps)
qed

lemma split_low: "(w AND NOT 0xFF) + ucast (ucast w :: u8) = (w :: u32)"
proof -
  have m: "(0xFF :: u32) = mask 8" by (simp add: mask_eq_exp_minus_1)
  have "(w AND NOT 0xFF) + ucast (ucast w :: u8) = (w AND NOT 0xFF) OR ucast (ucast w :: u8)"
    by (rule disjunctive_add) (auto simp: m bit_simps)
  also have "\<dots> = w" by (rule bit_word_eqI) (auto simp: m bit_simps)
  finally show ?thesis .
qed

lemma ucast_u8_of_nat: "(ucast (b :: u8) :: u32) = of_nat (unat b)"
  by (rule of_nat_unat [symmetric])

text \<open>
  The receiver adds the forward distance of the low bytes to its counter, when that distance is between
  1 and the window; the two cases of the code are with and without a carry out of the low byte.
\<close>

lemma rx_infer_distance:
  assumes "rx_initialized s"
  shows "rx_infer b s = (let d = b - ucast (rx_counter s) in
    if d = 0 \<or> d > RX_WINDOW then None else Some (rx_counter s + ucast d))"
proof -
  define l :: u8 where "l = ucast (rx_counter s)"
  define h where "h = rx_counter s AND NOT 0xFF"
  have rx: "rx_counter s = h + ucast l" unfolding h_def l_def by (rule split_low [symmetric])
  have carry: "h + 256 + ucast b = rx_counter s + ucast (b - l)" if "b < l"
  proof -
    have "unat b < unat l" "unat l < 256" using that unsigned_less [of l, where ?'a = nat] by (auto simp: word_less_nat_alt)
    then have "unat l + unat (b - l) = 256 + unat b" by (simp add: unat_sub_if')
    then have "(of_nat (unat l) + of_nat (unat (b - l)) :: u32) = 256 + of_nat (unat b)"
      by (metis of_nat_add of_nat_numeral)
    then show ?thesis by (simp only: rx ucast_u8_of_nat add.assoc)
  qed
  have plain: "h + ucast b = rx_counter s + ucast (b - l)" if "\<not> b < l"
  proof -
    have "unat l \<le> unat b" using that by (auto simp: word_less_nat_alt)
    then have "unat l + unat (b - l) = unat b" by (simp add: unat_sub_if')
    then have "(of_nat (unat l) + of_nat (unat (b - l)) :: u32) = of_nat (unat b)" by (metis of_nat_add)
    then show ?thesis by (simp only: rx ucast_u8_of_nat add.assoc)
  qed
  show ?thesis using assms carry plain
    unfolding rx_infer_def low_byte Let_def h_def [symmetric] l_def [symmetric] by simp
qed

lemma ucast_add_u8: "(ucast (a + b :: u32) :: u8) = ucast a + ucast b"
  by (simp add: word_uint_eq_iff unsigned_ucast_eq uint_word_ariths take_bit_eq_mod mod_mod_cancel mod_add_eq)

lemma ucast_of_nat_u8: "(ucast (of_nat n :: u32) :: u8) = of_nat n"
  by (simp add: word_unat_eq_iff unsigned_ucast_eq unat_of_nat take_bit_eq_mod mod_mod_cancel)

lemma unat_minus_of_nat_u8: "unat (- of_nat k :: u8) = (if k mod 256 = 0 then 0 else 256 - k mod 256)"
proof -
  have "unat (of_nat k :: u8) = k mod 256" by (simp add: unat_of_nat take_bit_eq_mod)
  then show ?thesis using unat_sub_if' [of "0 :: u8" "of_nat k"] by auto
qed

section \<open>Sealing and opening\<close>

lemma seal_Some:
  "nrf24_crypt_seal pt s = (Some f, s') \<Longrightarrow>
   2 \<le> length pt \<and> length pt \<le> 31 \<and> f = ucast (tx_counter s) # ctr_xor (crypt_key s) (tx_counter s) pt \<and>
   s' = s\<lparr>tx_counter := tx_counter s + 1\<rparr>"
  by (auto simp: nrf24_crypt_seal_def Let_def low_byte split: if_splits)

lemma seal_ok:
  "2 \<le> length pt \<Longrightarrow> length pt \<le> 31 \<Longrightarrow> nrf24_crypt_seal pt s =
   (Some (ucast (tx_counter s) # ctr_xor (crypt_key s) (tx_counter s) pt), s\<lparr>tx_counter := tx_counter s + 1\<rparr>)"
  by (simp add: nrf24_crypt_seal_def Let_def low_byte)

text \<open>
  Sender and receiver agree: same key, and the sender is \<open>g\<close> frames past the last one received (or past
  the start, when nothing has been received yet).
\<close>

definition in_sync :: "nat \<Rightarrow> crypt_st \<Rightarrow> crypt_st \<Rightarrow> bool" where
  "in_sync g tx rx \<longleftrightarrow> crypt_key tx = crypt_key rx \<and>
     (if rx_initialized rx then tx_counter tx = rx_counter rx + of_nat (Suc g) else tx_counter tx = of_nat g)"

lemma ucast_u32_of_nat: "n < 256 \<Longrightarrow> (ucast (of_nat n :: u32) :: u8) = of_nat n"
  by (simp add: word_unat_eq_iff unat_of_nat unsigned_ucast_eq take_bit_nat_eq_self)

lemma infer_forward:
  assumes "rx_initialized s" "g \<le> 31"
  shows "rx_infer (ucast (rx_counter s + of_nat (Suc g))) s = Some (rx_counter s + of_nat (Suc g))"
proof -
  define d :: u8 where "d = of_nat (Suc g)"
  have u: "unat d = Suc g" using assms(2) unfolding d_def by (simp add: unat_of_nat take_bit_nat_eq_self del: of_nat_Suc)
  have "(ucast (rx_counter s + of_nat (Suc g)) :: u8) = ucast (rx_counter s) + d"
    using assms(2) by (simp add: ucast_add_u8 ucast_u32_of_nat d_def del: of_nat_Suc)
  moreover have "d \<noteq> 0" using u by auto
  moreover have "\<not> d > RX_WINDOW" using u assms(2) by (simp add: RX_WINDOW_def word_less_nat_alt)
  moreover have "(ucast d :: u32) = of_nat (Suc g)" using u by (simp add: ucast_u8_of_nat del: of_nat_Suc)
  ultimately show ?thesis using assms(1) by (simp add: rx_infer_distance Let_def del: of_nat_Suc)
qed

lemma open_in_sync:
  assumes "in_sync g tx rx" "g \<le> 31" "2 \<le> length pt" "length pt \<le> 31"
  shows "nrf24_crypt_open (ucast (tx_counter tx) # ctr_xor (crypt_key tx) (tx_counter tx) pt) rx =
    (Some pt, rx\<lparr>rx_counter := tx_counter tx, rx_initialized := True\<rparr>)"
proof -
  have "rx_infer (ucast (tx_counter tx)) rx = Some (tx_counter tx)"
  proof (cases "rx_initialized rx")
    case True
    then show ?thesis using infer_forward [OF True assms(2)] assms(1) by (simp add: in_sync_def)
  next
    case False
    then have "tx_counter tx = of_nat g" using assms(1) by (simp add: in_sync_def)
    moreover have "(ucast (of_nat g :: u8) :: u32) = of_nat g"
      using assms(2) by (simp add: ucast_u8_of_nat unat_of_nat take_bit_nat_eq_self)
    ultimately show ?thesis using False assms(2) by (simp add: rx_infer_def ucast_u32_of_nat)
  qed
  then show ?thesis using assms by (simp add: nrf24_crypt_open_def in_sync_def)
qed

section \<open>The link\<close>

text \<open>
  Every message goes out once, sealed, and arrives any number of times: not at all when the frame is lost,
  several times when only the acknowledgement is.
\<close>

fun receive :: "bytes list \<Rightarrow> crypt_st \<Rightarrow> bytes list \<times> crypt_st" where
  "receive [] rx = ([], rx)"
| "receive (f # fs) rx = (let (m, rx) = nrf24_crypt_open f rx; (ms, rx) = receive fs rx in
     (case m of None \<Rightarrow> ms | Some m \<Rightarrow> m # ms, rx))"

fun radio :: "(bytes \<times> nat) list \<Rightarrow> crypt_st \<Rightarrow> crypt_st \<Rightarrow> bytes list \<times> crypt_st \<times> crypt_st" where
  "radio [] tx rx = ([], tx, rx)"
| "radio ((m, n) # ms) tx rx =
     (let (f, tx) = nrf24_crypt_seal m tx;
          (out, rx) = receive (case f of None \<Rightarrow> [] | Some f \<Rightarrow> replicate n f) rx;
          (outs, tx, rx) = radio ms tx rx in (out @ outs, tx, rx))"

text \<open>No more than 31 messages in a row are lost before one that arrives.\<close>

fun gap_ok :: "nat \<Rightarrow> (bytes \<times> nat) list \<Rightarrow> bool" where
  "gap_ok g [] = True"
| "gap_ok g ((m, n) # ms) = (if n = 0 then gap_ok (Suc g) ms else g \<le> 31 \<and> gap_ok 0 ms)"

lemma receive_dup:
  assumes "rx_initialized rx"
  shows "receive (replicate n (ucast (rx_counter rx) # t)) rx = ([], rx)"
  using assms by (induction n) (simp_all add: nrf24_crypt_open_def rx_infer_distance)

lemma radio_in_sync:
  "in_sync g tx rx \<Longrightarrow> gap_ok g ms \<Longrightarrow> list_all (\<lambda>p. 2 \<le> length (fst p) \<and> length (fst p) \<le> 31) ms \<Longrightarrow>
   fst (radio ms tx rx) = map fst (filter (\<lambda>p. 0 < snd p) ms)"
proof (induction ms arbitrary: g tx rx)
  case (Cons mn ms)
  obtain m n where mn: "mn = (m, n)" by fastforce
  have len: "2 \<le> length m" "length m \<le> 31" using Cons.prems(3) by (simp_all add: mn)
  note sl = seal_ok [OF len, of tx]
  define tx' where "tx' = tx\<lparr>tx_counter := tx_counter tx + 1\<rparr>"
  show ?case
  proof (cases n)
    case 0
    have "in_sync (Suc g) tx' rx" using Cons.prems(1) by (simp add: in_sync_def tx'_def)
    then have "fst (radio ms tx' rx) = map fst (filter (\<lambda>p. 0 < snd p) ms)"
      using Cons.IH [of "Suc g" tx' rx] Cons.prems(2,3) by (simp add: mn 0)
    then show ?thesis by (simp add: mn 0 sl tx'_def [symmetric] case_prod_beta)
  next
    case (Suc k)
    define rx' where "rx' = rx\<lparr>rx_counter := tx_counter tx, rx_initialized := True\<rparr>"
    let ?f = "ucast (tx_counter tx) # ctr_xor (crypt_key tx) (tx_counter tx) m"
    have "g \<le> 31" using Cons.prems(2) by (simp add: mn Suc)
    note op = open_in_sync [OF Cons.prems(1) this len, folded rx'_def]
    have dup: "receive (replicate k ?f) rx' = ([], rx')"
      using receive_dup [of rx' k "ctr_xor (crypt_key tx) (tx_counter tx) m"] by (simp add: rx'_def)
    have "in_sync 0 tx' rx'" using Cons.prems(1) by (simp add: in_sync_def tx'_def rx'_def)
    then have "fst (radio ms tx' rx') = map fst (filter (\<lambda>p. 0 < snd p) ms)"
      using Cons.IH [of 0 tx' rx'] Cons.prems(2,3) by (simp add: mn Suc)
    then show ?thesis using op dup by (simp add: mn Suc sl tx'_def [symmetric] case_prod_beta)
  qed
qed simp

text \<open>
  C28. The encrypted link delivers what was sent.  After both ends derived their key from the same radio
  address, or at any later moment at which the sender is fewer than 32 frames ahead, every message that
  arrives at least once is read exactly once, unchanged and in the order of sending, whatever is lost or
  repeated - as long as no more than 31 messages in a row are lost.
\<close>
theorem crypt_link_exact:
  assumes "in_sync g tx rx" "gap_ok g ms" "list_all (\<lambda>p. 2 \<le> length (fst p) \<and> length (fst p) \<le> 31) ms"
  shows "fst (radio ms tx rx) = map fst (filter (\<lambda>p. 0 < snd p) ms) \<and>
    in_sync 0 (nrf24_crypt_set_key a s) (nrf24_crypt_set_key a t)"
  using radio_in_sync [OF assms] by (simp add: in_sync_def nrf24_crypt_set_key_def)

theorem crypt_link_exact_witness:
  "fst (radio [([1, 0xE3, 7], 2), ([3, 0x63, 8, 8], 0), ([7, 0x63, 5], 1)]
     (nrf24_crypt_set_key [1, 2, 3, 4, 5] crypt_init) (nrf24_crypt_set_key [1, 2, 3, 4, 5] crypt_init)) = [[1, 0xE3, 7], [7, 0x63, 5]]"
proof -
  have "in_sync 0 (nrf24_crypt_set_key [1, 2, 3, 4, 5] crypt_init) (nrf24_crypt_set_key [1, 2, 3, 4, 5] crypt_init)"
    by (simp add: in_sync_def nrf24_crypt_set_key_def)
  then show ?thesis by (subst crypt_link_exact [where g = 0, THEN conjunct1]) simp_all
qed

section \<open>Replays\<close>

text \<open>
  C29. Which recorded frames the receiver takes again.  A frame sealed \<open>k\<close> counters before the last one
  received is refused when the remainder of \<open>k\<close> by 256 is below 224; otherwise it is accepted, deciphered
  with a counter that is not its own, and moves the receiver forward - the window looks only at the low
  byte of the counter.
\<close>
theorem crypt_replay_window:
  assumes "rx_initialized rx" "nrf24_crypt_seal pt tx = (Some f, tx')" "crypt_key tx = crypt_key rx"
    and "rx_counter rx = tx_counter tx + of_nat k" "k < 2 ^ 31"
  shows "nrf24_crypt_open f rx =
    (if k mod 256 < 224 then (None, rx)
     else let c = rx_counter rx + of_nat (256 - k mod 256) in
       (Some (ctr_xor (crypt_key rx) c (ctr_xor (crypt_key rx) (tx_counter tx) pt)),
        rx\<lparr>rx_counter := c, rx_initialized := True\<rparr>)) \<and>
    rx_counter rx + of_nat (256 - k mod 256) \<noteq> tx_counter tx"
proof
  note sl = seal_Some [OF assms(2)]
  define d :: u8 where "d = - of_nat k"
  have low: "(ucast (tx_counter tx) :: u8) = ucast (rx_counter rx) + d"
    by (simp add: assms(4) ucast_add_u8 d_def ucast_of_nat_u8)
  have u: "unat d = (if k mod 256 = 0 then 0 else 256 - k mod 256)"
    by (simp add: d_def unat_minus_of_nat_u8)
  have infer: "rx_infer (hd f) rx =
      (if k mod 256 < 224 then None else Some (rx_counter rx + of_nat (256 - k mod 256)))"
  proof -
    have "d = 0 \<longleftrightarrow> k mod 256 = 0" using u by (auto simp: word_unat_eq_iff split: if_splits)
    moreover have "d > RX_WINDOW \<longleftrightarrow> 32 < unat d" by (simp add: RX_WINDOW_def word_less_nat_alt)
    moreover have "(ucast d :: u32) = of_nat (unat d)" by (rule ucast_u8_of_nat)
    ultimately show ?thesis using u assms(1) sl low
      by (auto simp: rx_infer_distance Let_def)
  qed
  show "nrf24_crypt_open f rx =
    (if k mod 256 < 224 then (None, rx)
     else let c = rx_counter rx + of_nat (256 - k mod 256) in
       (Some (ctr_xor (crypt_key rx) c (ctr_xor (crypt_key rx) (tx_counter tx) pt)),
        rx\<lparr>rx_counter := c, rx_initialized := True\<rparr>))"
    using infer sl assms(3) by (simp add: nrf24_crypt_open_def Let_def)
  have "k + (256 - k mod 256) < 2 ^ 32" "0 < k + (256 - k mod 256)"
    using assms(5) by (simp_all add: less_imp_diff_less)
  then have "(of_nat (k + (256 - k mod 256)) :: u32) \<noteq> of_nat 0" by (subst of_nat_u32_inj) auto
  then show "rx_counter rx + of_nat (256 - k mod 256) \<noteq> tx_counter tx"
    unfolding assms(4) of_nat_add add.assoc by simp
qed

text \<open>A frame recorded 230 counters ago is accepted; one recorded ten counters ago is not.\<close>

definition demo_tx :: "u32 \<Rightarrow> crypt_st" where
  "demo_tx c = (nrf24_crypt_set_key [1, 2, 3, 4, 5] crypt_init)\<lparr>tx_counter := c\<rparr>"

definition demo_rx :: "u32 \<Rightarrow> crypt_st" where
  "demo_rx c = (nrf24_crypt_set_key [1, 2, 3, 4, 5] crypt_init)\<lparr>rx_counter := c, rx_initialized := True\<rparr>"

theorem crypt_replay_window_witness:
  "nrf24_crypt_open (the (fst (nrf24_crypt_seal [1, 0xE3, 7] (demo_tx 990)))) (demo_rx 1000) = (None, demo_rx 1000) \<and>
   rx_counter (snd (nrf24_crypt_open (the (fst (nrf24_crypt_seal [1, 0xE3, 7] (demo_tx 770)))) (demo_rx 1000))) = 1026"
proof -
  have k: "rx_initialized (demo_rx c)" "crypt_key (demo_tx d) = crypt_key (demo_rx c)" "rx_counter (demo_rx c) = c" "tx_counter (demo_tx d) = d"
    for c d by (simp_all add: demo_rx_def demo_tx_def nrf24_crypt_set_key_def)
  note sl = seal_ok [of "[1, 0xE3, 7]", simplified]
  show ?thesis
    using crypt_replay_window [OF k(1) sl k(2), of 1000 990 10] crypt_replay_window [OF k(1) sl k(2), of 1000 770 230]
    by (simp add: sl k Let_def)
qed

section \<open>The keystream\<close>

text \<open>
  The keystream repeats.  The counter advances by one per frame but a frame uses one counter value per
  eight bytes, so bytes \<open>8 * k\<close> and up of a frame are enciphered with the same keystream as the first bytes
  of the frame \<open>k\<close> counters later: the exclusive or of the two ciphertexts is that of the two plaintexts.
  With \<open>k = 0\<close> the same holds for the two directions of a link, which share the key and both count from
  zero, and for the frames before and after a restart.
\<close>
theorem crypt_keystream_repeats:
  assumes "nrf24_crypt_seal p s = (Some f, s')" "nrf24_crypt_seal q t = (Some g, t')"
    and "crypt_key s = crypt_key t" "tx_counter t = tx_counter s + of_nat k"
    and "8 * k \<le> i" "i < length p" "i - 8 * k < length q"
  shows "f ! (i + 1) XOR g ! (i - 8 * k + 1) = p ! i XOR q ! (i - 8 * k)"
proof -
  obtain j where j: "i = 8 * k + j" using assms(5) le_Suc_ex by blast
  have "(8 * k + j) div 8 = k + j div 8" "(8 * k + j) mod 8 = j mod 8" by simp_all
  then have ks: "ks_byte (crypt_key s) (tx_counter s) i = ks_byte (crypt_key t) (tx_counter t) j"
    unfolding ks_byte_def j by (simp add: assms(3,4) add.assoc)
  have "f ! (i + 1) = p ! i XOR ks_byte (crypt_key s) (tx_counter s) i"
    using seal_Some [OF assms(1)] assms(6) by (simp add: ctr_xor_nth)
  moreover have "g ! (j + 1) = q ! j XOR ks_byte (crypt_key t) (tx_counter t) j"
    using seal_Some [OF assms(2)] assms(7) by (simp add: ctr_xor_nth j)
  ultimately show ?thesis unfolding ks by (simp add: j ac_simps flip: xor.assoc)
qed

text \<open>
  A state frame of the handler ends in two bytes that are always 0xFF: they reveal the first two bytes, the
  identifier, of the frame that follows.
\<close>

theorem crypt_keystream_repeats_witness:
  "(let f = the (fst (nrf24_crypt_seal [1, 0xE3, 0, 90, 0, 30, 1, 0xFF, 0xFF, 0xFF] (demo_tx 5)));
        g = the (fst (nrf24_crypt_seal [7, 0x63, 5] (demo_tx 6))) in
    0xFF XOR f ! 9 XOR g ! 1 = 7 \<and> 0xFF XOR f ! 10 XOR g ! 2 = 0x63)"
proof -
  let ?p = "[1, 0xE3, 0, 90, 0, 30, 1, 0xFF, 0xFF, 0xFF] :: bytes" and ?q = "[7, 0x63, 5] :: bytes"
  have k: "crypt_key (demo_tx c) = crypt_key (demo_tx d)" "tx_counter (demo_tx 6) = tx_counter (demo_tx 5) + of_nat 1"
    for c d by (simp_all add: demo_tx_def)
  note sl = seal_ok [of ?p, simplified] seal_ok [of ?q, simplified]
  show ?thesis
    using crypt_keystream_repeats [OF sl k, of 8] crypt_keystream_repeats [OF sl k, of 9]
    by (simp add: sl Let_def xor.assoc)
qed

end
