(* ===== verification/Nrf24.thy ===== *)
theory Nrf24 imports Prelude begin

text \<open>
  The driver of the 2.4 GHz radio, \<open>drivers/nrf24l01p/nrf24l01p.c\<close>: register access over SPI, the
  configuration, the modes, sending, and the interrupt thread with its delivery of frames.  The SPI bus and
  the pins are functions over an unspecified world; what other threads do while the driver's lock is free
  is a function the step takes as an argument.  Delays are not modelled.
\<close>

section \<open>Commands, registers and bits (\<open>nrf24l01p_reg.h\<close>)\<close>

definition R_REGISTER :: u8 where "R_REGISTER = 0x00"
definition W_REGISTER :: u8 where "W_REGISTER = 0x20"
definition R_RX_PAYLOAD :: u8 where "R_RX_PAYLOAD = 0x61"
definition W_TX_PAYLOAD :: u8 where "W_TX_PAYLOAD = 0xA0"
definition FLUSH_TX :: u8 where "FLUSH_TX = 0xE1"
definition FLUSH_RX :: u8 where "FLUSH_RX = 0xE2"
definition R_RX_PL_WID :: u8 where "R_RX_PL_WID = 0x60"
definition SPI_NOP :: u8 where "SPI_NOP = 0xFF"

definition L01REG_CONFIG :: u8 where "L01REG_CONFIG = 0x00"
definition L01REG_ENAA :: u8 where "L01REG_ENAA = 0x01"
definition L01REG_EN_RXADDR :: u8 where "L01REG_EN_RXADDR = 0x02"
definition L01REG_SETUP_AW :: u8 where "L01REG_SETUP_AW = 0x03"
definition L01REG_SETUP_RETR :: u8 where "L01REG_SETUP_RETR = 0x04"
definition L01REG_RF_CH :: u8 where "L01REG_RF_CH = 0x05"
definition L01REG_RF_SETUP :: u8 where "L01REG_RF_SETUP = 0x06"
definition L01REG_STATUS :: u8 where "L01REG_STATUS = 0x07"
definition L01REG_OBSERVE_TX :: u8 where "L01REG_OBSERVE_TX = 0x08"
definition L01REG_RX_ADDR_P0 :: u8 where "L01REG_RX_ADDR_P0 = 0x0A"
definition L01REG_TX_ADDR :: u8 where "L01REG_TX_ADDR = 0x10"
definition L01REG_RX_PW_P0 :: u8 where "L01REG_RX_PW_P0 = 0x11"
definition L01REG_DYNPD :: u8 where "L01REG_DYNPD = 0x1C"
definition L01REG_FEATURE :: u8 where "L01REG_FEATURE = 0x1D"

lemmas nrf_reg_defs = L01REG_CONFIG_def L01REG_ENAA_def L01REG_EN_RXADDR_def L01REG_SETUP_AW_def L01REG_SETUP_RETR_def
  L01REG_RF_CH_def L01REG_RF_SETUP_def L01REG_STATUS_def L01REG_OBSERVE_TX_def L01REG_RX_ADDR_P0_def
  L01REG_TX_ADDR_def L01REG_RX_PW_P0_def L01REG_DYNPD_def L01REG_FEATURE_def

lemmas nrf_cmd_defs = R_REGISTER_def W_REGISTER_def R_RX_PAYLOAD_def W_TX_PAYLOAD_def FLUSH_TX_def FLUSH_RX_def
  R_RX_PL_WID_def SPI_NOP_def

definition BIT8 :: "nat \<Rightarrow> u8" where "BIT8 n = push_bit n 1"

definition EN_CRC :: nat where "EN_CRC = 3"
definition CRCO :: nat where "CRCO = 2"
definition PWR_UP :: nat where "PWR_UP = 1"
definition PRIM_RX :: nat where "PRIM_RX = 0"
definition RX_DR :: nat where "RX_DR = 6"
definition TX_DS :: nat where "TX_DS = 5"
definition MAX_RT :: nat where "MAX_RT = 4"
definition RF_DR_LOW :: nat where "RF_DR_LOW = 5"
definition RF_DR_HIGH :: nat where "RF_DR_HIGH = 3"

lemmas nrf_bit_defs = BIT8_def EN_CRC_def CRCO_def PWR_UP_def PRIM_RX_def RX_DR_def TX_DS_def MAX_RT_def
  RF_DR_LOW_def RF_DR_HIGH_def

definition IRQ_ALL :: u8 where "IRQ_ALL = BIT8 RX_DR OR BIT8 TX_DS OR BIT8 MAX_RT"
definition TX_FLAGS :: u8 where "TX_FLAGS = BIT8 TX_DS OR BIT8 MAX_RT"
definition NRF24_MAX_PAYLOAD :: nat where "NRF24_MAX_PAYLOAD = 32"

section \<open>Configuration and state\<close>

datatype nrf24_mode = NRF24_MODE_PTX | NRF24_MODE_PRX | NRF24_MODE_STANDBY | NRF24_MODE_POWER_DOWN
datatype nrf24_data_rate = NRF24_RATE_250K | NRF24_RATE_1M | NRF24_RATE_2M
datatype nrf24_tx_power = NRF24_PWR_18DBM | NRF24_PWR_12DBM | NRF24_PWR_6DBM | NRF24_PWR_0DBM
datatype nrf24_payload_mode = NRF24_PAYLOAD_DYNAMIC | NRF24_PAYLOAD_FIXED
datatype nrf24_crc_mode = NRF24_CRC_1_BYTE | NRF24_CRC_2_BYTE

record nrf24_config =
  nc_channel :: u8
  nc_data_rate :: string
  nc_tx_power :: string
  nc_address_width :: u8
  nc_payload_mode :: string
  nc_rx_payload_width :: u8
  nc_crc_mode :: string
  nc_ard :: u8
  nc_arc :: u8
  nc_tx_addr :: bytes

record nrf24_cfg =
  rc_channel :: u8
  rc_data_rate :: nrf24_data_rate
  rc_tx_power :: nrf24_tx_power
  rc_crc_mode :: nrf24_crc_mode
  rc_address_width :: u8
  rc_tx_addr :: "bytes option"

text \<open>
  \<open>spi\<close> transfers a command and gives the result code, the bytes clocked in and the new world; \<open>junk\<close> is
  the value of an uninitialised byte.
\<close>

record 'w nrf_env =
  spi :: "bytes \<Rightarrow> 'w \<Rightarrow> int \<times> bytes \<times> 'w"
  ce_pin :: "bool \<Rightarrow> 'w \<Rightarrow> 'w"
  power_pin :: "bool \<Rightarrow> 'w \<Rightarrow> 'w"
  power_configure :: "'w \<Rightarrow> int"
  has_power :: bool
  bus_ready :: "bool \<times> bool"
  bus_rcs :: "int \<times> int \<times> int \<times> int"
  dcfg :: nrf24_config
  junk :: u8

text \<open>A message queue is its capacity and its contents; the semaphore \<open>tx_done_sem\<close> counts to one.\<close>

type_synonym msgq = "nat \<times> bytes list"

record 'w nrf24_data =
  nrf_w :: 'w
  nrf_mode :: nrf24_mode
  nrf_ready :: bool
  tx_done :: bool
  last_status :: u8
  last_observe_tx :: u8
  rx_msgq :: "msgq option"
  fallback_msgq :: "msgq option"
  rx_cb :: "nat option"
  cb_calls :: "(nat \<times> bytes) list"

definition k_msgq_put :: "bytes \<Rightarrow> msgq \<Rightarrow> msgq" where
  "k_msgq_put f q = (if length (snd q) < fst q then (fst q, snd q @ [f]) else q)"

definition parse_data_rate :: "string \<Rightarrow> nrf24_data_rate" where
  "parse_data_rate s = (if s = ''250k'' then NRF24_RATE_250K else if s = ''2m'' then NRF24_RATE_2M else NRF24_RATE_1M)"

definition parse_tx_power :: "string \<Rightarrow> nrf24_tx_power" where
  "parse_tx_power s = (if s = ''-18dbm'' then NRF24_PWR_18DBM else if s = ''-12dbm'' then NRF24_PWR_12DBM
     else if s = ''-6dbm'' then NRF24_PWR_6DBM else NRF24_PWR_0DBM)"

definition parse_payload_mode :: "string \<Rightarrow> nrf24_payload_mode" where
  "parse_payload_mode s = (if s = ''fixed'' then NRF24_PAYLOAD_FIXED else NRF24_PAYLOAD_DYNAMIC)"

definition parse_crc_mode :: "string \<Rightarrow> nrf24_crc_mode" where
  "parse_crc_mode s = (if s = ''1-byte'' then NRF24_CRC_1_BYTE else NRF24_CRC_2_BYTE)"

fun data_rate_to_str :: "nrf24_data_rate \<Rightarrow> string" where
  "data_rate_to_str NRF24_RATE_250K = ''250k''"
| "data_rate_to_str NRF24_RATE_2M = ''2m''"
| "data_rate_to_str NRF24_RATE_1M = ''1m''"

fun tx_power_to_str :: "nrf24_tx_power \<Rightarrow> string" where
  "tx_power_to_str NRF24_PWR_18DBM = ''-18dbm''"
| "tx_power_to_str NRF24_PWR_12DBM = ''-12dbm''"
| "tx_power_to_str NRF24_PWR_6DBM = ''-6dbm''"
| "tx_power_to_str NRF24_PWR_0DBM = ''0dbm''"

definition crc_mode_to_str :: "nrf24_crc_mode \<Rightarrow> string" where
  "crc_mode_to_str c = (if c = NRF24_CRC_1_BYTE then ''1-byte'' else ''2-byte'')"

fun data_rate_bits :: "nrf24_data_rate \<Rightarrow> u8" where
  "data_rate_bits NRF24_RATE_250K = BIT8 RF_DR_LOW"
| "data_rate_bits NRF24_RATE_2M = BIT8 RF_DR_HIGH"
| "data_rate_bits NRF24_RATE_1M = 0"

fun tx_power_bits :: "nrf24_tx_power \<Rightarrow> u8" where
  "tx_power_bits NRF24_PWR_18DBM = push_bit 1 0"
| "tx_power_bits NRF24_PWR_12DBM = push_bit 1 1"
| "tx_power_bits NRF24_PWR_6DBM = push_bit 1 2"
| "tx_power_bits NRF24_PWR_0DBM = push_bit 1 3"

definition addr_aw_bits :: "u8 \<Rightarrow> u8" where
  "addr_aw_bits aw = (if aw = 3 then 1 else if aw = 4 then 2 else 3)"

section \<open>Registers\<close>

text \<open>A read leaves the caller's variable, here \<open>old\<close>, alone when the transfer fails.\<close>

definition reg_read_locked :: "'w nrf_env \<Rightarrow> u8 \<Rightarrow> u8 \<Rightarrow> 'w \<Rightarrow> (int \<times> u8) \<times> 'w" where
  "reg_read_locked E r old w =
     (let (rc, rx, w) = spi E [R_REGISTER OR (r AND 0x1F), SPI_NOP] w in ((rc, if rc = 0 then rx ! 1 else old), w))"

definition reg_write_locked :: "'w nrf_env \<Rightarrow> u8 \<Rightarrow> u8 \<Rightarrow> 'w \<Rightarrow> int \<times> 'w" where
  "reg_write_locked E r v w = (let (rc, rx, w) = spi E [W_REGISTER OR (r AND 0x1F), v] w in (rc, w))"

definition reg_read_multi_locked :: "'w nrf_env \<Rightarrow> u8 \<Rightarrow> nat \<Rightarrow> 'w \<Rightarrow> (int \<times> bytes option) \<times> 'w" where
  "reg_read_multi_locked E r n w =
     (if n = 0 \<or> n > NRF24_MAX_PAYLOAD then ((- EINVAL, None), w)
      else let (rc, rx, w) = spi E ((R_REGISTER OR (r AND 0x1F)) # replicate n 0) w in
        ((rc, if rc = 0 then Some (take n (tl rx)) else None), w))"

definition reg_write_multi_locked :: "'w nrf_env \<Rightarrow> u8 \<Rightarrow> bytes \<Rightarrow> 'w \<Rightarrow> int \<times> 'w" where
  "reg_write_multi_locked E r d w =
     (if length d = 0 \<or> length d > NRF24_MAX_PAYLOAD then (- EINVAL, w)
      else let (rc, rx, w) = spi E ((W_REGISTER OR (r AND 0x1F)) # d) w in (rc, w))"

definition cmd_locked :: "'w nrf_env \<Rightarrow> u8 \<Rightarrow> 'w \<Rightarrow> int \<times> 'w" where
  "cmd_locked E c w = (let (rc, rx, w) = spi E [c] w in (rc, w))"

definition read_rx_pl_wid_locked :: "'w nrf_env \<Rightarrow> u8 \<Rightarrow> 'w \<Rightarrow> (int \<times> u8) \<times> 'w" where
  "read_rx_pl_wid_locked E old w =
     (let (rc, rx, w) = spi E [R_RX_PL_WID, SPI_NOP] w in ((rc, if rc = 0 then rx ! 1 else old), w))"

definition read_rx_payload_locked :: "'w nrf_env \<Rightarrow> nat \<Rightarrow> 'w \<Rightarrow> (int \<times> bytes) \<times> 'w" where
  "read_rx_payload_locked E n w =
     (let (rc, rx, w) = spi E (R_RX_PAYLOAD # replicate n SPI_NOP) w in ((rc, if rc = 0 then take n (tl rx) else []), w))"

definition write_tx_payload_locked :: "'w nrf_env \<Rightarrow> bytes \<Rightarrow> 'w \<Rightarrow> int \<times> 'w" where
  "write_tx_payload_locked E d w = (let (rc, rx, w) = spi E (W_TX_PAYLOAD # d) w in (rc, w))"

text \<open>The register access of other modules takes the lock around the same transfers.\<close>

definition nrf24_read_reg :: "'w nrf_env \<Rightarrow> u8 \<Rightarrow> u8 \<Rightarrow> 'w nrf24_data \<Rightarrow> (int \<times> u8) \<times> 'w nrf24_data" where
  "nrf24_read_reg E r old d = (let (x, w) = reg_read_locked E r old (nrf_w d) in (x, d\<lparr>nrf_w := w\<rparr>))"

definition nrf24_write_reg :: "'w nrf_env \<Rightarrow> u8 \<Rightarrow> u8 \<Rightarrow> 'w nrf24_data \<Rightarrow> int \<times> 'w nrf24_data" where
  "nrf24_write_reg E r v d = (let (x, w) = reg_write_locked E r v (nrf_w d) in (x, d\<lparr>nrf_w := w\<rparr>))"

definition nrf24_read_reg_multi :: "'w nrf_env \<Rightarrow> u8 \<Rightarrow> nat \<Rightarrow> 'w nrf24_data \<Rightarrow> (int \<times> bytes option) \<times> 'w nrf24_data" where
  "nrf24_read_reg_multi E r n d = (let (x, w) = reg_read_multi_locked E r n (nrf_w d) in (x, d\<lparr>nrf_w := w\<rparr>))"

definition nrf24_write_reg_multi :: "'w nrf_env \<Rightarrow> u8 \<Rightarrow> bytes \<Rightarrow> 'w nrf24_data \<Rightarrow> int \<times> 'w nrf24_data" where
  "nrf24_write_reg_multi E r b d = (let (x, w) = reg_write_multi_locked E r b (nrf_w d) in (x, d\<lparr>nrf_w := w\<rparr>))"

section \<open>Applying a configuration\<close>

text \<open>Writes that stop at the first error, as the chain of early returns does.\<close>

fun write_regs :: "'w nrf_env \<Rightarrow> (u8 \<times> u8) list \<Rightarrow> 'w \<Rightarrow> int \<times> 'w" where
  "write_regs E [] w = (0, w)"
| "write_regs E ((r, v) # rvs) w =
     (let (rc, w) = reg_write_locked E r v w in if rc < 0 then (rc, w) else write_regs E rvs w)"

definition effective_aw :: "nrf24_config \<Rightarrow> u8" where
  "effective_aw c = (if 3 \<le> nc_address_width c \<and> nc_address_width c \<le> 5 then nc_address_width c else 5)"

definition config_value :: "nrf24_config \<Rightarrow> bool \<Rightarrow> u8" where
  "config_value c prim_rx =
     BIT8 EN_CRC OR BIT8 PWR_UP OR (if parse_crc_mode (nc_crc_mode c) = NRF24_CRC_2_BYTE then BIT8 CRCO else 0)
       OR (if prim_rx then BIT8 PRIM_RX else 0)"

definition config_regs :: "nrf24_config \<Rightarrow> bool \<Rightarrow> (u8 \<times> u8) list" where
  "config_regs c prim_rx =
     [(L01REG_CONFIG, 0),
      (L01REG_SETUP_AW, addr_aw_bits (effective_aw c)),
      (L01REG_SETUP_RETR, nc_ard c OR (nc_arc c AND 0x0F)),
      (L01REG_RF_CH, nc_channel c AND 0x7F),
      (L01REG_RF_SETUP, data_rate_bits (parse_data_rate (nc_data_rate c)) OR tx_power_bits (parse_tx_power (nc_tx_power c))),
      (L01REG_ENAA, BIT8 0),
      (L01REG_EN_RXADDR, BIT8 0),
      (L01REG_CONFIG, config_value c prim_rx)]
     @ (if parse_payload_mode (nc_payload_mode c) = NRF24_PAYLOAD_DYNAMIC
        then [(L01REG_DYNPD, BIT8 0), (L01REG_FEATURE, BIT8 2 OR BIT8 1)]
        else [(L01REG_DYNPD, 0), (L01REG_FEATURE, 0), (L01REG_RX_PW_P0, nc_rx_payload_width c AND 0x3F)])"

definition apply_config_with :: "'w nrf_env \<Rightarrow> nrf24_config \<Rightarrow> bool \<Rightarrow> 'w \<Rightarrow> int \<times> 'w" where
  "apply_config_with E c prim_rx w =
     (let (rc, w) = write_regs E (config_regs c prim_rx) w; a = take (unat (effective_aw c)) (nc_tx_addr c) in
      if rc < 0 then (rc, w)
      else let (rc, w) = reg_write_multi_locked E L01REG_TX_ADDR a w in
        if rc < 0 then (rc, w)
        else let (rc, w) = reg_write_multi_locked E L01REG_RX_ADDR_P0 a w in
          if rc < 0 then (rc, w)
          else (0, snd (reg_write_locked E L01REG_STATUS IRQ_ALL (snd (cmd_locked E FLUSH_RX (snd (cmd_locked E FLUSH_TX w)))))))"

section \<open>Modes\<close>

fun mode_bits :: "nrf24_mode \<Rightarrow> u8" where
  "mode_bits NRF24_MODE_PRX = BIT8 PWR_UP OR BIT8 PRIM_RX"
| "mode_bits NRF24_MODE_PTX = BIT8 PWR_UP"
| "mode_bits NRF24_MODE_STANDBY = BIT8 PWR_UP"
| "mode_bits NRF24_MODE_POWER_DOWN = 0"

definition set_mode_locked :: "'w nrf_env \<Rightarrow> nrf24_mode \<Rightarrow> 'w nrf24_data \<Rightarrow> int \<times> 'w nrf24_data" where
  "set_mode_locked E m d =
     (let ((rc, c), w) = reg_read_locked E L01REG_CONFIG (junk E) (nrf_w d) in
      if rc < 0 then (rc, d\<lparr>nrf_w := w\<rparr>)
      else let c = (c AND NOT (BIT8 PWR_UP OR BIT8 PRIM_RX)) OR mode_bits m;
          (rc, w) = reg_write_locked E L01REG_CONFIG c w in
        if rc < 0 then (rc, d\<lparr>nrf_w := w\<rparr>)
        else (0, d\<lparr>nrf_w := ce_pin E (m = NRF24_MODE_PRX) w, nrf_mode := m\<rparr>))"

definition nrf24_set_mode :: "'w nrf_env \<Rightarrow> nrf24_mode \<Rightarrow> 'w nrf24_data \<Rightarrow> int \<times> 'w nrf24_data" where
  "nrf24_set_mode E m d = set_mode_locked E m d"

definition nrf24_start_rx :: "'w nrf_env \<Rightarrow> 'w nrf24_data \<Rightarrow> int \<times> 'w nrf24_data" where
  "nrf24_start_rx E d = nrf24_set_mode E NRF24_MODE_PRX d"

definition nrf24_power_apply :: "'w nrf_env \<Rightarrow> bool \<Rightarrow> 'w \<Rightarrow> int \<times> 'w" where
  "nrf24_power_apply E en w =
     (if \<not> has_power E then (0, w)
      else if power_configure E w < 0 then (power_configure E w, w) else (0, power_pin E en w))"

definition nrf24_power_enable :: "'w nrf_env \<Rightarrow> bool \<Rightarrow> 'w nrf24_data \<Rightarrow> int \<times> 'w nrf24_data" where
  "nrf24_power_enable E en d =
     (if \<not> has_power E then (0, d)
      else if en then
        let (rc, w) = nrf24_power_apply E True (nrf_w d);
            (rc, w) = (if rc = 0 then apply_config_with E (dcfg E) True w else (rc, w)) in
        if rc = 0 then (0, d\<lparr>nrf_ready := True, nrf_mode := NRF24_MODE_PRX, nrf_w := ce_pin E True w\<rparr>)
        else (rc, d\<lparr>nrf_ready := False, nrf_w := w\<rparr>)
      else
        let (rc, d) = set_mode_locked E NRF24_MODE_POWER_DOWN d in
        (0, d\<lparr>nrf_ready := False, nrf_w := snd (nrf24_power_apply E False (nrf_w d))\<rparr>))"

definition nrf24_configure :: "'w nrf_env \<Rightarrow> nrf24_cfg option \<Rightarrow> 'w nrf24_data \<Rightarrow> int \<times> 'w nrf24_data" where
  "nrf24_configure E cfg d =
     (let tmp = (case cfg of None \<Rightarrow> dcfg E
        | Some c \<Rightarrow>
            let tmp = (dcfg E)\<lparr>nc_channel := rc_channel c, nc_data_rate := data_rate_to_str (rc_data_rate c),
                  nc_tx_power := tx_power_to_str (rc_tx_power c), nc_crc_mode := crc_mode_to_str (rc_crc_mode c)\<rparr>;
                tmp = (if 3 \<le> rc_address_width c \<and> rc_address_width c \<le> 5
                  then tmp\<lparr>nc_address_width := rc_address_width c\<rparr> else tmp) in
            (case rc_tx_addr c of None \<Rightarrow> tmp
              | Some a \<Rightarrow> tmp\<lparr>nc_tx_addr := blit 0 (take (unat (nc_address_width tmp)) a) (nc_tx_addr tmp)\<rparr>));
          (rc, w) = apply_config_with E tmp (nrf_mode d = NRF24_MODE_PRX) (nrf_w d) in
      (rc, d\<lparr>nrf_w := w\<rparr>))"

definition nrf24_rx_ready :: "'w nrf_env \<Rightarrow> 'w nrf24_data \<Rightarrow> bool \<times> 'w nrf24_data" where
  "nrf24_rx_ready E d =
     (let ((rc, st), d) = nrf24_read_reg E L01REG_STATUS 0 d in
      (if rc < 0 then False else st AND BIT8 RX_DR \<noteq> 0, d))"

definition nrf24_add_rx_msgq :: "msgq \<Rightarrow> 'w nrf24_data \<Rightarrow> int \<times> 'w nrf24_data" where
  "nrf24_add_rx_msgq q d = (0, d\<lparr>rx_msgq := Some q, rx_cb := None\<rparr>)"

definition nrf24_add_rx_callback :: "nat option \<Rightarrow> 'w nrf24_data \<Rightarrow> int \<times> 'w nrf24_data" where
  "nrf24_add_rx_callback cb d = (0, d\<lparr>rx_msgq := None, rx_cb := cb\<rparr>)"

end
