(* ===== verification/Nrf24Io.thy ===== *)
theory Nrf24Io imports Nrf24 begin

text \<open>
  Sending and receiving in \<open>nrf24l01p.c\<close>: the interrupt thread, \<open>nrf24_send\<close>, \<open>nrf24_recv\<close> and the start of
  the driver.
\<close>

section \<open>The interrupt thread\<close>

definition fetch_rx_payload_locked :: "'w nrf_env \<Rightarrow> 'w \<Rightarrow> bytes \<times> 'w" where
  "fetch_rx_payload_locked E w =
     (if parse_payload_mode (nc_payload_mode (dcfg E)) = NRF24_PAYLOAD_DYNAMIC then
        let ((rc, plen), w) = read_rx_pl_wid_locked E 0 w in
        if rc < 0 then ([], w)
        else if unat plen > NRF24_MAX_PAYLOAD then ([], snd (cmd_locked E FLUSH_RX w))
        else let ((rc, b), w) = read_rx_payload_locked E (unat plen) w in (if rc < 0 then [] else b, w)
      else
        let plen = (if unat (nc_rx_payload_width (dcfg E)) \<le> NRF24_MAX_PAYLOAD then unat (nc_rx_payload_width (dcfg E))
              else NRF24_MAX_PAYLOAD);
            ((rc, b), w) = read_rx_payload_locked E plen w in (if rc < 0 then [] else b, w))"

text \<open>A frame goes to the user's queue, else to the driver's own queue, else to the callback.\<close>

definition deliver :: "bytes \<Rightarrow> 'w nrf24_data \<Rightarrow> 'w nrf24_data" where
  "deliver f d =
     (case rx_msgq d of Some q \<Rightarrow> d\<lparr>rx_msgq := Some (k_msgq_put f q)\<rparr>
      | None \<Rightarrow> (case fallback_msgq d of Some q \<Rightarrow> d\<lparr>fallback_msgq := Some (k_msgq_put f q)\<rparr>
        | None \<Rightarrow> (case rx_cb d of Some h \<Rightarrow> d\<lparr>cb_calls := cb_calls d @ [(h, f)]\<rparr> | None \<Rightarrow> d)))"

definition tx_complete :: "'w nrf_env \<Rightarrow> u8 \<Rightarrow> 'w nrf24_data \<Rightarrow> 'w nrf24_data" where
  "tx_complete E status d =
     (if status AND TX_FLAGS \<noteq> 0 then
        let ((rc, o'), w) = reg_read_locked E L01REG_OBSERVE_TX (last_observe_tx d) (nrf_w d);
            (rc, w) = reg_write_locked E L01REG_STATUS TX_FLAGS w in
        d\<lparr>last_status := status, last_observe_tx := o', nrf_w := w, tx_done := True\<rparr>
      else d)"

text \<open>
  One frame taken from the receive FIFO.  \<open>other\<close> is what other threads do while the frame is delivered
  without the lock; the status is read again at the end.
\<close>

definition rx_step :: "'w nrf_env \<Rightarrow> ('w nrf24_data \<Rightarrow> 'w nrf24_data) \<Rightarrow> u8 \<Rightarrow> 'w nrf24_data \<Rightarrow> u8 \<times> 'w nrf24_data" where
  "rx_step E other status d =
     (let (f, w) = fetch_rx_payload_locked E (nrf_w d);
          (rc, w) = cmd_locked E FLUSH_RX w;
          (rc, w) = reg_write_locked E L01REG_STATUS (BIT8 RX_DR) w;
          d = d\<lparr>nrf_w := w\<rparr>;
          d = (if f \<noteq> [] then other (deliver f d) else d);
          ((rc, status), w) = reg_read_locked E L01REG_STATUS status (nrf_w d) in
      (status, d\<lparr>nrf_w := w\<rparr>))"

text \<open>The loop ends when the chip stops reporting a frame: a run that returns is \<open>Some\<close>.\<close>

partial_function (option) rx_loop ::
  "'w nrf_env \<Rightarrow> ('w nrf24_data \<Rightarrow> 'w nrf24_data) \<Rightarrow> u8 \<Rightarrow> 'w nrf24_data \<Rightarrow> (u8 \<times> 'w nrf24_data) option" where
  "rx_loop E other status d =
     (if status AND BIT8 RX_DR \<noteq> 0
      then rx_loop E other (fst (rx_step E other status d)) (snd (rx_step E other status d))
      else Some (status, d))"

text \<open>One wake-up of the thread; when the radio is off it goes back to waiting.\<close>

definition nrf24_irq_round :: "'w nrf_env \<Rightarrow> ('w nrf24_data \<Rightarrow> 'w nrf24_data) \<Rightarrow> 'w nrf24_data \<Rightarrow> 'w nrf24_data option" where
  "nrf24_irq_round E other d =
     (if \<not> nrf_ready d then Some d
      else let ((rc, status), w) = reg_read_locked E L01REG_STATUS (junk E) (nrf_w d);
          d = tx_complete E status (d\<lparr>nrf_w := w\<rparr>) in
        map_option (\<lambda>(status, d). tx_complete E status d) (rx_loop E other status d))"

section \<open>Sending\<close>

record nrf24_tx_result =
  acked :: bool
  elapsed_ms :: u32
  retransmits :: u8

text \<open>
  \<open>other\<close> is what the rest of the system does while the sender waits, \<open>elapsed\<close> how long that takes; the
  wait succeeds when the interrupt thread has given the semaphore.  The result is \<open>None\<close> when the
  caller's structure is left as it was.
\<close>

definition nrf24_send ::
  "'w nrf_env \<Rightarrow> ('w nrf24_data \<Rightarrow> 'w nrf24_data) \<Rightarrow> u32 \<Rightarrow> bytes \<Rightarrow> 'w nrf24_data \<Rightarrow>
     (int \<times> nrf24_tx_result option) \<times> 'w nrf24_data" where
  "nrf24_send E other elapsed buf d =
     (if length buf = 0 \<or> length buf > NRF24_MAX_PAYLOAD then ((- EINVAL, None), d)
      else let (rc, d) = set_mode_locked E NRF24_MODE_PTX (d\<lparr>tx_done := False\<rparr>) in
        if rc < 0 then ((rc, None), d)
        else let (r, w) = cmd_locked E FLUSH_TX (nrf_w d);
            (r, w) = reg_write_locked E L01REG_STATUS TX_FLAGS w;
            (rc, w) = write_tx_payload_locked E buf w;
            d = d\<lparr>nrf_w := w\<rparr> in
          if rc < 0 then ((rc, None), snd (set_mode_locked E NRF24_MODE_PRX d))
          else let d = other (d\<lparr>nrf_w := ce_pin E True (nrf_w d)\<rparr>);
              done = tx_done d;
              w = ce_pin E False (nrf_w d);
              d = d\<lparr>tx_done := False\<rparr> in
            if \<not> done then
              let (r, w) = cmd_locked E FLUSH_TX w; (r, w) = reg_write_locked E L01REG_STATUS TX_FLAGS w in
              ((- EAGAIN, Some \<lparr>acked = False, elapsed_ms = elapsed, retransmits = 0\<rparr>),
               snd (set_mode_locked E NRF24_MODE_PRX (d\<lparr>nrf_w := w\<rparr>)))
            else let max_rt = (last_status d AND BIT8 MAX_RT \<noteq> 0);
                w = (if max_rt then snd (cmd_locked E FLUSH_TX w) else w) in
              ((if max_rt then - EIO else 0,
                Some \<lparr>acked = \<not> max_rt, elapsed_ms = elapsed, retransmits = last_observe_tx d AND 0x0F\<rparr>),
               snd (set_mode_locked E NRF24_MODE_PRX (d\<lparr>nrf_w := w\<rparr>))))"

section \<open>Polled receive\<close>

text \<open>The wait on the driver's own queue: \<open>other\<close> runs only when the queue is empty.\<close>

definition nrf24_recv ::
  "'w nrf_env \<Rightarrow> ('w nrf24_data \<Rightarrow> 'w nrf24_data) \<Rightarrow> nat \<Rightarrow> 'w nrf24_data \<Rightarrow> (int \<times> bytes) \<times> 'w nrf24_data" where
  "nrf24_recv E other max_len d =
     (let (rc, d) = (if nrf_mode d \<noteq> NRF24_MODE_PRX then nrf24_start_rx E d else (0, d)) in
      if rc < 0 then ((rc, []), d)
      else case fallback_msgq d of None \<Rightarrow> ((- ENOTSUP, []), d)
        | Some q \<Rightarrow>
            let d = (if snd q = [] then other d else d) in
            (case fallback_msgq d of
               Some (n, f # fs) \<Rightarrow>
                 let b = take max_len f in ((int (length b), b), d\<lparr>fallback_msgq := Some (n, fs)\<rparr>)
             | _ \<Rightarrow> ((- EAGAIN, []), d)))"

section \<open>Start\<close>

definition nrf24_bus_init :: "'w nrf_env \<Rightarrow> int" where
  "nrf24_bus_init E =
     (case (bus_ready E, bus_rcs E) of ((spi_ok, gpio_ok), (ce, irq, cb, edge)) \<Rightarrow>
        if \<not> spi_ok then - ENODEV
        else if \<not> gpio_ok then - ENODEV
        else if ce < 0 then ce
        else if irq < 0 then irq
        else if cb < 0 then cb
        else if edge < 0 then edge
        else 0)"

definition nrf24_init :: "'w nrf_env \<Rightarrow> 'w nrf24_data \<Rightarrow> int \<times> 'w nrf24_data" where
  "nrf24_init E d =
     (let d = d\<lparr>nrf_mode := NRF24_MODE_STANDBY, nrf_ready := False, tx_done := False\<rparr>;
          (rc, w) = nrf24_power_apply E True (nrf_w d); d = d\<lparr>nrf_w := w\<rparr> in
      if rc < 0 then (rc, d)
      else if nrf24_bus_init E < 0 then (nrf24_bus_init E, d)
      else let (rc, w) = apply_config_with E (dcfg E) True (nrf_w d); d = d\<lparr>nrf_w := w\<rparr> in
        if rc < 0 then (rc, d)
        else let (x, w) = reg_read_locked E L01REG_SETUP_AW 0 (nrf_w d) in
          (0, d\<lparr>nrf_ready := True, nrf_mode := NRF24_MODE_PRX, nrf_w := ce_pin E True w\<rparr>))"

text \<open>The static initialiser: the driver's own queue holds four frames.\<close>

definition nrf24_data_zero :: "'w \<Rightarrow> 'w nrf24_data" where
  "nrf24_data_zero w = \<lparr>nrf_w = w, nrf_mode = NRF24_MODE_PTX, nrf_ready = False, tx_done = False, last_status = 0,
     last_observe_tx = 0, rx_msgq = None, fallback_msgq = Some (4, []), rx_cb = None, cb_calls = []\<rparr>"

end
