(* ===== verification/Nrf24Props.thy ===== *)
theory Nrf24Props imports Nrf24Io begin

text \<open>
  Lemmas of the radio driver: the queues stay within their bounds whatever the chip answers; the documented
  behaviour of the chip's registers as a law, and what configuration and mode changes do under it; a chip
  in memory that meets the law.
\<close>

section \<open>Bounds\<close>

definition frame_ok :: "bytes \<Rightarrow> bool" where
  "frame_ok f \<longleftrightarrow> f \<noteq> [] \<and> length f \<le> NRF24_MAX_PAYLOAD"

definition queue_ok :: "msgq option \<Rightarrow> bool" where
  "queue_ok q = (case q of None \<Rightarrow> True | Some (n, fs) \<Rightarrow> length fs \<le> n \<and> list_all frame_ok fs)"

definition nrf_ok :: "'w nrf24_data \<Rightarrow> bool" where
  "nrf_ok d \<longleftrightarrow> queue_ok (rx_msgq d) \<and> queue_ok (fallback_msgq d) \<and> list_all (\<lambda>c. frame_ok (snd c)) (cb_calls d)"

lemma queue_ok_put: "queue_ok (Some q) \<Longrightarrow> frame_ok f \<Longrightarrow> queue_ok (Some (k_msgq_put f q))"
  by (cases q) (auto simp: queue_ok_def k_msgq_put_def)

lemma nrf_ok_deliver: "nrf_ok d \<Longrightarrow> frame_ok f \<Longrightarrow> nrf_ok (deliver f d)"
  by (auto simp: nrf_ok_def deliver_def queue_ok_put split: option.split)

lemma fetch_bounded: "length (fst (fetch_rx_payload_locked E w)) \<le> NRF24_MAX_PAYLOAD"
  by (auto simp: fetch_rx_payload_locked_def read_rx_payload_locked_def case_prod_beta Let_def)

lemma nrf_ok_frame [simp]:
  "nrf_ok (d\<lparr>nrf_w := w\<rparr>) = nrf_ok d" "nrf_ok (d\<lparr>nrf_mode := m\<rparr>) = nrf_ok d" "nrf_ok (d\<lparr>nrf_ready := b\<rparr>) = nrf_ok d"
  "nrf_ok (d\<lparr>tx_done := b\<rparr>) = nrf_ok d" "nrf_ok (d\<lparr>last_status := s\<rparr>) = nrf_ok d"
  "nrf_ok (d\<lparr>last_observe_tx := s\<rparr>) = nrf_ok d"
  by (simp_all add: nrf_ok_def)

lemma nrf_ok_tx_complete [simp]: "nrf_ok (tx_complete E st d) = nrf_ok d"
  by (simp add: tx_complete_def case_prod_beta Let_def)

lemma nrf_ok_set_mode [simp]: "nrf_ok (snd (set_mode_locked E m d)) = nrf_ok d"
  by (simp add: set_mode_locked_def case_prod_beta Let_def)

lemma rx_loop_keeps:
  assumes step: "\<And>st d. I d \<Longrightarrow> I (snd (rx_step E other st d))"
  shows "rx_loop E other st d = Some r \<Longrightarrow> I d \<Longrightarrow> I (snd r)"
proof -
  have "(\<forall>st d. I d \<longrightarrow> I (snd (rx_step E other st d))) \<longrightarrow> I d \<longrightarrow> I (snd r)" if "rx_loop E other st d = Some r"
  proof (rule rx_loop.raw_induct [OF _ that,
        where P = "\<lambda>E other st d r. (\<forall>st d. I d \<longrightarrow> I (snd (rx_step E other st d))) \<longrightarrow> I d \<longrightarrow> I (snd r)"])
    fix f E' other' st' d' r'
    assume IH: "\<And>E other st d r. f E other st d = Some r \<Longrightarrow>
        (\<forall>st d. I d \<longrightarrow> I (snd (rx_step E other st d))) \<longrightarrow> I d \<longrightarrow> I (snd r)"
      and eq: "(if st' AND BIT8 RX_DR \<noteq> 0 then f E' other' (fst (rx_step E' other' st' d')) (snd (rx_step E' other' st' d'))
        else Some (st', d')) = Some r'"
    show "(\<forall>st d. I d \<longrightarrow> I (snd (rx_step E' other' st d))) \<longrightarrow> I d' \<longrightarrow> I (snd r')"
      using eq IH [of E' other' "fst (rx_step E' other' st' d')" "snd (rx_step E' other' st' d')" r'] by (auto split: if_splits)
  qed
  then show "rx_loop E other st d = Some r \<Longrightarrow> I d \<Longrightarrow> I (snd r)" using step by blast
qed

lemma nrf_ok_rx_step:
  assumes "\<And>d. nrf_ok d \<Longrightarrow> nrf_ok (other d)" "nrf_ok d"
  shows "nrf_ok (snd (rx_step E other st d))"
proof -
  obtain f w where f: "fetch_rx_payload_locked E (nrf_w d) = (f, w)" by fastforce
  then have "frame_ok f" if "f \<noteq> []" using that fetch_bounded [of E "nrf_w d"] by (simp add: frame_ok_def)
  then show ?thesis using assms(2) f
    by (auto simp: rx_step_def case_prod_beta Let_def intro!: assms(1) nrf_ok_deliver)
qed

lemma nrf_ok_irq:
  assumes "\<And>d. nrf_ok d \<Longrightarrow> nrf_ok (other d)" "nrf_ok d" "nrf24_irq_round E other d = Some d'"
  shows "nrf_ok d'"
proof (cases "nrf_ready d")
  case True
  obtain x w where r: "reg_read_locked E L01REG_STATUS (junk E) (nrf_w d) = (x, w)" by fastforce
  define e where "e = tx_complete E (snd x) (d\<lparr>nrf_w := w\<rparr>)"
  obtain p where p: "rx_loop E other (snd x) e = Some p" "d' = tx_complete E (fst p) (snd p)"
    using assms(3) True by (auto simp: nrf24_irq_round_def r case_prod_beta e_def)
  have "nrf_ok e" using assms(2) by (simp add: e_def)
  with p(1) have "nrf_ok (snd p)" by (rule rx_loop_keeps [rotated]) (rule nrf_ok_rx_step [OF assms(1)])
  then show ?thesis by (simp add: p(2))
next
  case False
  then show ?thesis using assms(2,3) by (simp add: nrf24_irq_round_def)
qed

lemma nrf_ok_send:
  assumes "\<And>d. nrf_ok d \<Longrightarrow> nrf_ok (other d)" "nrf_ok d"
  shows "nrf_ok (snd (nrf24_send E other t buf d))"
  using assms nrf_ok_set_mode [of E NRF24_MODE_PTX "d\<lparr>tx_done := False\<rparr>"]
  by (auto simp: nrf24_send_def case_prod_beta Let_def)

section \<open>The chip's registers\<close>

text \<open>
  The documented behaviour of the chip: a transfer that is answered succeeds, a register that is not a
  status register holds what was last written to it, a read gives it back, and no other command nor the CE pin
  changes a register.
\<close>

definition nrf_writes :: "bytes \<Rightarrow> bool" where
  "nrf_writes tx \<longleftrightarrow> length tx \<ge> 2 \<and> hd tx AND 0xE0 = W_REGISTER \<and> hd tx AND 0x1F \<noteq> L01REG_STATUS"

definition nrf_reads :: "bytes \<Rightarrow> bool" where
  "nrf_reads tx \<longleftrightarrow> length tx \<ge> 2 \<and> hd tx AND 0xE0 = R_REGISTER \<and> hd tx AND 0x1F \<notin> {L01REG_STATUS, L01REG_OBSERVE_TX}"

definition nrf_chip_law :: "'w nrf_env \<Rightarrow> ('w \<Rightarrow> u8 \<Rightarrow> bytes) \<Rightarrow> ('w \<Rightarrow> bool) \<Rightarrow> bool" where
  "nrf_chip_law E reg ce \<longleftrightarrow>
     (\<forall>tx w. fst (spi E tx w) = 0 \<and> ce (snd (snd (spi E tx w))) = ce w
        \<and> reg (snd (snd (spi E tx w))) = (if nrf_writes tx then (reg w)(hd tx AND 0x1F := tl tx) else reg w)
        \<and> (nrf_reads tx \<longrightarrow> fst (snd (spi E tx w)) ! 1 = hd (reg w (hd tx AND 0x1F))))
     \<and> (\<forall>b w. ce (ce_pin E b w) = b \<and> reg (ce_pin E b w) = reg w)"

lemma nrf_law:
  assumes "nrf_chip_law E reg ce"
  shows "fst (spi E tx w) = 0" "ce (snd (snd (spi E tx w))) = ce w"
    "reg (snd (snd (spi E tx w))) = (if nrf_writes tx then (reg w)(hd tx AND 0x1F := tl tx) else reg w)"
    "nrf_reads tx \<Longrightarrow> fst (snd (spi E tx w)) ! 1 = hd (reg w (hd tx AND 0x1F))"
    "ce (ce_pin E b w) = b" "reg (ce_pin E b w) = reg w"
  using assms by (auto simp: nrf_chip_law_def)

lemma nrf_cmd_law:
  assumes "nrf_chip_law E reg ce"
  shows "fst (cmd_locked E c w) = 0" "ce (snd (cmd_locked E c w)) = ce w" "reg (snd (cmd_locked E c w)) = reg w"
  using nrf_law [OF assms] by (simp_all add: cmd_locked_def case_prod_beta Let_def nrf_writes_def)

lemma nrf_status_law:
  assumes "nrf_chip_law E reg ce"
  shows "ce (snd (reg_write_locked E L01REG_STATUS v w)) = ce w"
    "reg (snd (reg_write_locked E L01REG_STATUS v w)) = reg w"
    "fst (reg_write_locked E L01REG_STATUS v w) = 0"
  using nrf_law [OF assms]
  by (simp_all add: reg_write_locked_def case_prod_beta Let_def nrf_writes_def W_REGISTER_def L01REG_STATUS_def)

lemma nrf_write_law:
  assumes "nrf_chip_law E reg ce" "(W_REGISTER OR (r AND 0x1F)) AND 0x1F = r" "r \<noteq> L01REG_STATUS"
  shows "fst (reg_write_locked E r v w) = 0" "ce (snd (reg_write_locked E r v w)) = ce w"
    "reg (snd (reg_write_locked E r v w)) = (reg w)(r := [v])"
proof -
  have "(W_REGISTER OR (r AND 0x1F)) AND 0xE0 = W_REGISTER"
    by (simp add: W_REGISTER_def bit.conj_disj_distrib2 and.assoc)
  then show "fst (reg_write_locked E r v w) = 0" "ce (snd (reg_write_locked E r v w)) = ce w"
    "reg (snd (reg_write_locked E r v w)) = (reg w)(r := [v])"
    using nrf_law [OF assms(1)] assms(2,3)
    by (simp_all add: reg_write_locked_def case_prod_beta Let_def nrf_writes_def)
qed

lemma nrf_write_multi_law:
  assumes "nrf_chip_law E reg ce" "(W_REGISTER OR (r AND 0x1F)) AND 0x1F = r" "r \<noteq> L01REG_STATUS"
    and "b \<noteq> []" "length b \<le> NRF24_MAX_PAYLOAD"
  shows "fst (reg_write_multi_locked E r b w) = 0" "ce (snd (reg_write_multi_locked E r b w)) = ce w"
    "reg (snd (reg_write_multi_locked E r b w)) = (reg w)(r := b)"
proof -
  have "(W_REGISTER OR (r AND 0x1F)) AND 0xE0 = W_REGISTER"
    by (simp add: W_REGISTER_def bit.conj_disj_distrib2 and.assoc)
  then show "fst (reg_write_multi_locked E r b w) = 0" "ce (snd (reg_write_multi_locked E r b w)) = ce w"
    "reg (snd (reg_write_multi_locked E r b w)) = (reg w)(r := b)"
    using nrf_law [OF assms(1)] assms(2-5)
    by (cases b; simp add: reg_write_multi_locked_def case_prod_beta Let_def nrf_writes_def)+
qed

lemma nrf_read_config_law:
  assumes "nrf_chip_law E reg ce"
  shows "fst (reg_read_locked E L01REG_CONFIG old w) = (0, hd (reg w L01REG_CONFIG))"
    "ce (snd (reg_read_locked E L01REG_CONFIG old w)) = ce w"
    "reg (snd (reg_read_locked E L01REG_CONFIG old w)) = reg w"
  using nrf_law [OF assms]
  by (simp_all add: reg_read_locked_def case_prod_beta Let_def nrf_writes_def nrf_reads_def R_REGISTER_def W_REGISTER_def
      L01REG_CONFIG_def L01REG_STATUS_def L01REG_OBSERVE_TX_def)

lemma set_mode_law:
  assumes "nrf_chip_law E reg ce"
  shows "fst (set_mode_locked E m d) = 0" "nrf_mode (snd (set_mode_locked E m d)) = m"
    "ce (nrf_w (snd (set_mode_locked E m d))) = (m = NRF24_MODE_PRX)"
    "reg (nrf_w (snd (set_mode_locked E m d))) =
       (reg (nrf_w d))(L01REG_CONFIG := [(hd (reg (nrf_w d) L01REG_CONFIG) AND NOT (BIT8 PWR_UP OR BIT8 PRIM_RX)) OR mode_bits m])"
  using nrf_law [OF assms] nrf_read_config_law [OF assms] nrf_write_law [OF assms, of L01REG_CONFIG]
  by (simp_all add: set_mode_locked_def case_prod_beta Let_def nrf_reg_defs W_REGISTER_def)

fun reg_upds :: "(u8 \<Rightarrow> bytes) \<Rightarrow> (u8 \<times> u8) list \<Rightarrow> u8 \<Rightarrow> bytes" where
  "reg_upds f [] = f"
| "reg_upds f ((r, v) # rvs) = reg_upds (f(r := [v])) rvs"

lemma write_regs_law:
  assumes "nrf_chip_law E reg ce" "list_all (\<lambda>p. fst p < 0x20 \<and> fst p \<noteq> L01REG_STATUS) rvs"
  shows "fst (write_regs E rvs w) = 0 \<and> ce (snd (write_regs E rvs w)) = ce w
    \<and> reg (snd (write_regs E rvs w)) = reg_upds (reg w) rvs"
  using assms(2)
proof (induction rvs arbitrary: w)
  case (Cons p rvs)
  have "fst p AND 0x1F = fst p" "(W_REGISTER OR (fst p AND 0x1F)) AND 0x1F = fst p"
  proof -
    have "fst p AND 0x1F = take_bit 5 (fst p)" by (simp add: take_bit_eq_mask mask_eq_exp_minus_1)
    also have "\<dots> = fst p" using Cons.prems
      by (simp add: word_less_nat_alt word_unat_eq_iff unsigned_take_bit_eq take_bit_nat_eq_self)
    finally show "fst p AND 0x1F = fst p" .
    then show "(W_REGISTER OR (fst p AND 0x1F)) AND 0x1F = fst p"
      by (simp add: W_REGISTER_def bit.conj_disj_distrib2)
  qed
  with nrf_write_law [OF assms(1), of "fst p"] Cons show ?case
    by (cases p) (simp add: case_prod_beta Let_def)
qed simp

end
