(* ===== verification/Nrf24Theorems.thy ===== *)
theory Nrf24Theorems imports Nrf24Props begin

text \<open>
  Properties of the radio driver: what a configuration puts into the chip, how a send ends, the bounds of
  the frames it queues, and the frames it loses.  The chip in memory at the start meets the law of the
  registers and has the three-deep receive queue of the real one.
\<close>

section \<open>A chip in memory\<close>

record nrf_chip =
  chip_regs :: "u8 \<Rightarrow> bytes"
  chip_flags :: u8
  chip_rx :: "bytes list"
  chip_tx :: "bytes list"
  chip_ce :: bool

definition chip_answer :: "bytes \<Rightarrow> nrf_chip \<Rightarrow> bytes" where
  "chip_answer tx c =
     (let h = hd tx; st = chip_flags c OR (if chip_rx c = [] then 0x0E else 0) in
      st # (if h = R_RX_PL_WID then [(case chip_rx c of [] \<Rightarrow> 0 | f # fs \<Rightarrow> of_nat (length f))]
            else if h = R_RX_PAYLOAD then (case chip_rx c of [] \<Rightarrow> [] | f # fs \<Rightarrow> f) @ replicate (length tx - 1) 0
            else if h AND 0xE0 = R_REGISTER then
              (if h AND 0x1F = L01REG_STATUS then [st] else if h AND 0x1F = L01REG_OBSERVE_TX then [0]
               else hd (chip_regs c (h AND 0x1F)) # tl (chip_regs c (h AND 0x1F)))
            else replicate (length tx - 1) 0))"

definition chip_next :: "bytes \<Rightarrow> nrf_chip \<Rightarrow> nrf_chip" where
  "chip_next tx c =
     (let h = hd tx in
      if nrf_writes tx then c\<lparr>chip_regs := (chip_regs c)(h AND 0x1F := tl tx)\<rparr>
      else if h AND 0xE0 = W_REGISTER \<and> h AND 0x1F = L01REG_STATUS \<and> length tx \<ge> 2
        then c\<lparr>chip_flags := chip_flags c AND NOT (tx ! 1 AND IRQ_ALL)\<rparr>
      else if h = R_RX_PAYLOAD then c\<lparr>chip_rx := tl (chip_rx c)\<rparr>
      else if h = W_TX_PAYLOAD then c\<lparr>chip_tx := chip_tx c @ [tl tx]\<rparr>
      else if h = FLUSH_TX then c\<lparr>chip_tx := []\<rparr>
      else if h = FLUSH_RX then c\<lparr>chip_rx := []\<rparr>
      else c)"

definition chip_config :: nrf24_config where
  "chip_config = \<lparr>nc_channel = 76, nc_data_rate = ''1m'', nc_tx_power = ''0dbm'', nc_address_width = 5,
     nc_payload_mode = ''dynamic'', nc_rx_payload_width = 32, nc_crc_mode = ''2-byte'', nc_ard = 0x10, nc_arc = 3,
     nc_tx_addr = [0xE7, 0xE7, 0xE7, 0xE7, 0xE7]\<rparr>"

definition chip_env :: "nrf_chip nrf_env" where
  "chip_env = \<lparr>spi = \<lambda>tx c. (0, chip_answer tx c, chip_next tx c), ce_pin = \<lambda>b c. c\<lparr>chip_ce := b\<rparr>,
     power_pin = \<lambda>b c. c, power_configure = \<lambda>c. 0, has_power = False, bus_ready = (True, True),
     bus_rcs = (0, 0, 0, 0), dcfg = chip_config, junk = 0\<rparr>"

lemma chip_law: "nrf_chip_law chip_env chip_regs chip_ce"
  by (auto simp: nrf_chip_law_def chip_env_def chip_next_def Let_def chip_answer_def nrf_reads_def nrf_cmd_defs)

definition chip_zero :: "bytes list \<Rightarrow> nrf_chip" where
  "chip_zero fs = \<lparr>chip_regs = (\<lambda>r. [0]), chip_flags = (if fs = [] then 0 else BIT8 RX_DR), chip_rx = fs, chip_tx = [],
     chip_ce = False\<rparr>"

section \<open>What a configuration puts into the chip\<close>

lemma parse_to_str [simp]:
  "parse_data_rate (data_rate_to_str r) = r" "parse_tx_power (tx_power_to_str p) = p"
  "parse_crc_mode (crc_mode_to_str c) = c"
  subgoal by (cases r) (simp_all add: parse_data_rate_def)
  subgoal by (cases p) (simp_all add: parse_tx_power_def)
  subgoal by (cases c) (simp_all add: parse_crc_mode_def crc_mode_to_str_def)
  done

lemma config_regs_ok: "list_all (\<lambda>p. fst p < 0x20 \<and> fst p \<noteq> L01REG_STATUS) (config_regs c prx)"
  by (simp add: config_regs_def nrf_reg_defs)

lemma apply_config_law:
  assumes "nrf_chip_law E reg ce" "length (nc_tx_addr c) = 5"
  shows "fst (apply_config_with E c prx w) = 0 \<and> ce (snd (apply_config_with E c prx w)) = ce w
    \<and> reg (snd (apply_config_with E c prx w)) =
       (reg_upds (reg w) (config_regs c prx))
         (L01REG_TX_ADDR := take (unat (effective_aw c)) (nc_tx_addr c),
          L01REG_RX_ADDR_P0 := take (unat (effective_aw c)) (nc_tx_addr c))"
proof -
  have a: "effective_aw c = 3 \<or> effective_aw c = 4 \<or> effective_aw c = 5"
  proof -
    have "3 \<le> effective_aw c" "effective_aw c \<le> 5" by (auto simp: effective_aw_def)
    then have "unat (effective_aw c) \<in> {3, 4, 5}" by (auto simp: word_le_nat_alt)
    then show ?thesis by (auto simp: word_unat_eq_iff)
  qed
  define b where "b = take (unat (effective_aw c)) (nc_tx_addr c)"
  have b: "b \<noteq> []" "length b \<le> NRF24_MAX_PAYLOAD"
    using a assms(2) by (auto simp: b_def NRF24_MAX_PAYLOAD_def)
  show ?thesis
    using write_regs_law [OF assms(1) config_regs_ok, of c prx w] nrf_cmd_law [OF assms(1)] nrf_status_law [OF assms(1)]
      nrf_write_multi_law [OF assms(1), of L01REG_TX_ADDR b] nrf_write_multi_law [OF assms(1), of L01REG_RX_ADDR_P0 b] b
    by (simp add: apply_config_with_def case_prod_beta Let_def nrf_reg_defs W_REGISTER_def flip: b_def)
qed

text \<open>
  Under the documented behaviour of the registers, \<open>nrf24_configure\<close> succeeds and puts into the chip
  exactly what the typed configuration asks for: the channel, the rate and power bits, the CRC width with
  the radio powered and in its present mode, the address width, and the same address (that of the
  configuration, cut to its width) for sending and for the pipe acknowledgements come in on.
\<close>
theorem configure_writes_registers:
  assumes "nrf_chip_law E reg ce" "length (nc_tx_addr (dcfg E)) = 5"
    and "3 \<le> rc_address_width c" "rc_address_width c \<le> 5"
    and "rc_tx_addr c = Some a" "unat (rc_address_width c) \<le> length a"
  shows "fst (nrf24_configure E (Some c) d) = 0
    \<and> (let R = reg (nrf_w (snd (nrf24_configure E (Some c) d))) in
       R L01REG_RF_CH = [rc_channel c AND 0x7F]
       \<and> R L01REG_RF_SETUP = [data_rate_bits (rc_data_rate c) OR tx_power_bits (rc_tx_power c)]
       \<and> R L01REG_CONFIG = [BIT8 EN_CRC OR BIT8 PWR_UP OR (if rc_crc_mode c = NRF24_CRC_2_BYTE then BIT8 CRCO else 0)
             OR (if nrf_mode d = NRF24_MODE_PRX then BIT8 PRIM_RX else 0)]
       \<and> R L01REG_SETUP_AW = [rc_address_width c - 2]
       \<and> R L01REG_TX_ADDR = take (unat (rc_address_width c)) a
       \<and> R L01REG_RX_ADDR_P0 = take (unat (rc_address_width c)) a)
    \<and> ce (nrf_w (snd (nrf24_configure E (Some c) d))) = ce (nrf_w d)"
proof -
  define tmp where "tmp = (dcfg E)\<lparr>nc_channel := rc_channel c, nc_data_rate := data_rate_to_str (rc_data_rate c),
      nc_tx_power := tx_power_to_str (rc_tx_power c), nc_crc_mode := crc_mode_to_str (rc_crc_mode c),
      nc_address_width := rc_address_width c,
      nc_tx_addr := blit 0 (take (unat (rc_address_width c)) a) (nc_tx_addr (dcfg E))\<rparr>"
  have w: "effective_aw tmp = rc_address_width c" using assms(3,4) by (simp add: effective_aw_def tmp_def)
  have u: "unat (rc_address_width c) \<le> 5" using assms(4) by (simp add: word_le_nat_alt)
  have l: "length (nc_tx_addr tmp) = 5" using assms(2) u by (simp add: tmp_def blit_def)
  have t: "take (unat (rc_address_width c)) (nc_tx_addr tmp) = take (unat (rc_address_width c)) a"
    using assms(6) by (simp add: tmp_def blit_def)
  have aw: "addr_aw_bits (rc_address_width c) = rc_address_width c - 2"
  proof -
    have "unat (rc_address_width c) \<in> {3, 4, 5}" using assms(3,4) by (auto simp: word_le_nat_alt)
    then have "rc_address_width c = 3 \<or> rc_address_width c = 4 \<or> rc_address_width c = 5" by (auto simp: word_unat_eq_iff)
    then show ?thesis by (auto simp: addr_aw_bits_def)
  qed
  have e: "nrf24_configure E (Some c) d = (let (rc, w) = apply_config_with E tmp (nrf_mode d = NRF24_MODE_PRX) (nrf_w d) in
      (rc, d\<lparr>nrf_w := w\<rparr>))"
    using assms(3,4,5) by (simp add: nrf24_configure_def tmp_def)
  have p: "nc_channel tmp = rc_channel c" "parse_data_rate (nc_data_rate tmp) = rc_data_rate c"
    "parse_tx_power (nc_tx_power tmp) = rc_tx_power c" "parse_crc_mode (nc_crc_mode tmp) = rc_crc_mode c"
    by (simp_all add: tmp_def)
  show ?thesis
    using apply_config_law [OF assms(1) l, of "nrf_mode d = NRF24_MODE_PRX" "nrf_w d"]
    by (simp add: e case_prod_beta Let_def w t config_regs_def config_value_def nrf_reg_defs p aw)
qed

theorem configure_writes_registers_witness:
  "let c = \<lparr>rc_channel = 90, rc_data_rate = NRF24_RATE_250K, rc_tx_power = NRF24_PWR_0DBM, rc_crc_mode = NRF24_CRC_2_BYTE,
        rc_address_width = 5, rc_tx_addr = Some [1, 2, 3, 4, 5]\<rparr>;
     R = chip_regs (nrf_w (snd (nrf24_configure chip_env (Some c) (nrf24_data_zero (chip_zero []))))) in
   R L01REG_RF_CH = [90] \<and> R L01REG_RF_SETUP = [0x26] \<and> R L01REG_CONFIG = [0x0E] \<and> R L01REG_TX_ADDR = [1, 2, 3, 4, 5]"
  using configure_writes_registers [OF chip_law, where d = "nrf24_data_zero (chip_zero [])"
      and c = "\<lparr>rc_channel = 90, rc_data_rate = NRF24_RATE_250K, rc_tx_power = NRF24_PWR_0DBM, rc_crc_mode = NRF24_CRC_2_BYTE,
        rc_address_width = 5, rc_tx_addr = Some [1, 2, 3, 4, 5]\<rparr>" and a = "[1, 2, 3, 4, 5]"]
  by (simp add: Let_def chip_env_def chip_config_def nrf_bit_defs nrf24_data_zero_def)

section \<open>How a send ends\<close>

lemma rx_loop_unfold:
  "rx_loop E other st d = (if st AND BIT8 RX_DR \<noteq> 0
     then rx_loop E other (fst (rx_step E other st d)) (snd (rx_step E other st d)) else Some (st, d))"
  by (subst rx_loop.simps) (rule refl)

text \<open>
  \<open>irq_sees E other st\<close>: during the wait the chip does something to the world and the interrupt thread
  runs once, reading \<open>st\<close> from the status register.
\<close>

definition irq_sees :: "'w nrf_env \<Rightarrow> ('w nrf24_data \<Rightarrow> 'w nrf24_data) \<Rightarrow> u8 \<Rightarrow> bool" where
  "irq_sees E other st \<longleftrightarrow> (\<forall>d. \<exists>w w'. reg_read_locked E L01REG_STATUS (junk E) w = ((0, st), w') \<and>
     nrf24_irq_round E (\<lambda>d. d) (d\<lparr>nrf_w := w\<rparr>) = Some (other d))"

lemma byte_and_bit: "(st :: u8) AND push_bit n 1 = 0 \<longleftrightarrow> \<not> bit st n"
  by (simp add: push_bit_eq_mult and_exp_eq_0_iff_not_bit)

lemma byte_tx_flags: "st AND TX_FLAGS \<noteq> 0 \<longleftrightarrow> bit st 4 \<or> bit st 5"
proof -
  have "st AND TX_FLAGS = (st AND push_bit 5 1) OR (st AND push_bit 4 1)"
    by (simp only: TX_FLAGS_def BIT8_def TX_DS_def MAX_RT_def bit.conj_disj_distrib)
  then have "st AND TX_FLAGS = 0 \<longleftrightarrow> st AND push_bit 5 1 = 0 \<and> st AND push_bit 4 1 = 0"
    by (simp only: or_eq_0_iff)
  then show ?thesis unfolding byte_and_bit by auto
qed

lemma irq_sees_done:
  assumes "irq_sees E other st" "\<not> bit st 6" "\<not> tx_done d"
  shows "tx_done (other d) \<longleftrightarrow> nrf_ready d \<and> (bit st 4 \<or> bit st 5)"
    "tx_done (other d) \<Longrightarrow> last_status (other d) = st"
proof -
  obtain w w' where r: "reg_read_locked E L01REG_STATUS (junk E) w = ((0, st), w')"
    "nrf24_irq_round E (\<lambda>d. d) (d\<lparr>nrf_w := w\<rparr>) = Some (other d)"
    using assms(1) unfolding irq_sees_def by blast
  have "st AND BIT8 RX_DR = 0" using assms(2) byte_and_bit [of st 6] by (simp add: BIT8_def RX_DR_def)
  then have l: "rx_loop E o' st x = Some (st, x)" for o' x by (subst rx_loop_unfold) simp
  have o: "other d = (if nrf_ready d then tx_complete E st (tx_complete E st (d\<lparr>nrf_w := w'\<rparr>)) else d\<lparr>nrf_w := w\<rparr>)"
    using r(2) by (auto simp: nrf24_irq_round_def r(1) l split: if_splits)
  have t: "tx_done (tx_complete E st x) \<longleftrightarrow> tx_done x \<or> bit st 4 \<or> bit st 5"
    "bit st 4 \<or> bit st 5 \<Longrightarrow> last_status (tx_complete E st x) = st" for x
    using byte_tx_flags [of st] by (auto simp: tx_complete_def case_prod_beta Let_def)
  show "tx_done (other d) \<longleftrightarrow> nrf_ready d \<and> (bit st 4 \<or> bit st 5)" using assms(3) by (simp add: o t(1))
  then show "last_status (other d) = st" if "tx_done (other d)" using that by (simp add: o t(2))
qed

text \<open>
  C30. How a send of 1 to 32 bytes ends, as long as the transfers on the SPI bus succeed, whatever else
  the chip and the other threads do during the wait.  The radio is back in receive mode with CE high.
  The result is a timeout if the completion was not signalled by the end of the wait, an I/O error if it
  was and the status recorded with it has the MAX_RT flag (bit 4: the retransmissions ran out), and
  success otherwise; the report says acknowledged exactly on success.  In particular, when the
  interrupt thread runs once during the wait and no frame came in, the result follows from the status byte
  it reads from the chip: success for TX_DS (bit 5) alone, an I/O error whenever MAX_RT is set, and a
  timeout when neither is set or the driver is not ready.
\<close>
theorem send_returns_to_receive:
  assumes "nrf_chip_law E reg ce" "buf \<noteq> []" "length buf \<le> NRF24_MAX_PAYLOAD"
  shows "let ((rc, r), d') = nrf24_send E other t buf d in
    (\<exists>x. r = Some x \<and> elapsed_ms x = t \<and> (rc = 0) = acked x \<and> retransmits x \<le> 15)
    \<and> (\<exists>d1. nrf_mode d1 = NRF24_MODE_PTX \<and> ce (nrf_w d1) \<and> \<not> tx_done d1 \<and>
        rc = (if \<not> tx_done (other d1) then - EAGAIN else if bit (last_status (other d1)) 4 then - EIO else 0))
    \<and> (\<forall>st. irq_sees E other st \<and> \<not> bit st 6 \<longrightarrow>
        rc = (if nrf_ready d \<and> (bit st 4 \<or> bit st 5) then if bit st 4 then - EIO else 0 else - EAGAIN))
    \<and> nrf_mode d' = NRF24_MODE_PRX \<and> ce (nrf_w d') \<and> hd (reg (nrf_w d') L01REG_CONFIG) AND (BIT8 PWR_UP OR BIT8 PRIM_RX) = BIT8 PWR_UP OR BIT8 PRIM_RX"
proof -
  have w: "fst (write_tx_payload_locked E buf w) = 0" for w
    using nrf_law(1) [OF assms(1)] by (simp add: write_tx_payload_locked_def case_prod_beta Let_def)
  have o: "x AND 15 \<le> (15::u8)" for x by (rule word_and_le1)
  have b: "((x AND NOT m) OR m) AND m = (m::u8)" for x m
    by (simp add: bit.conj_disj_distrib2 and.assoc)
  have m: "st AND BIT8 MAX_RT \<noteq> 0 \<longleftrightarrow> bit st 4" for st using byte_and_bit [of st 4] by (simp add: BIT8_def MAX_RT_def)
  define d0 where "d0 = snd (set_mode_locked E NRF24_MODE_PTX (d\<lparr>tx_done := False\<rparr>))"
  define d1 where "d1 = d0\<lparr>nrf_w := ce_pin E True (snd (write_tx_payload_locked E buf
      (snd (reg_write_locked E L01REG_STATUS TX_FLAGS (snd (cmd_locked E FLUSH_TX (nrf_w d0)))))))\<rparr>"
  have "tx_done d0 = False" "nrf_ready d0 = nrf_ready d"
    by (simp_all add: d0_def set_mode_locked_def case_prod_beta Let_def)
  then have d1: "nrf_mode d1 = NRF24_MODE_PTX" "ce (nrf_w d1)" "\<not> tx_done d1" "nrf_ready d1 = nrf_ready d"
    using set_mode_law [OF assms(1)] nrf_law(5) [OF assms(1)] by (simp_all add: d1_def) (simp_all add: d0_def)
  have rc: "fst (fst (nrf24_send E other t buf d)) =
      (if \<not> tx_done (other d1) then - EAGAIN else if bit (last_status (other d1)) 4 then - EIO else 0)"
    using assms(2,3) by (simp add: nrf24_send_def case_prod_beta Let_def set_mode_law [OF assms(1)] w m flip: d0_def d1_def)
  have st: "irq_sees E other st \<and> \<not> bit st 6 \<longrightarrow> fst (fst (nrf24_send E other t buf d)) =
      (if nrf_ready d \<and> (bit st 4 \<or> bit st 5) then if bit st 4 then - EIO else 0 else - EAGAIN)" for st
    using irq_sees_done [of E other st d1] d1(3,4) unfolding rc by auto
  have r: "\<exists>x. snd (fst (nrf24_send E other t buf d)) = Some x \<and> elapsed_ms x = t \<and>
      (fst (fst (nrf24_send E other t buf d)) = 0) = acked x \<and> retransmits x \<le> 15"
    using assms(2,3)
    by (simp add: nrf24_send_def case_prod_beta Let_def set_mode_law [OF assms(1)] w o errno_defs)
  have e: "nrf_mode d' = NRF24_MODE_PRX \<and> ce (nrf_w d') \<and> hd (reg (nrf_w d') L01REG_CONFIG) AND (BIT8 PWR_UP OR BIT8 PRIM_RX) = BIT8 PWR_UP OR BIT8 PRIM_RX"
    if "d' = snd (nrf24_send E other t buf d)" for d'
    unfolding that using assms(2,3) b [of _ "BIT8 PWR_UP OR BIT8 PRIM_RX"]
    by (simp add: nrf24_send_def case_prod_beta Let_def set_mode_law [OF assms(1)] w)
  show ?thesis unfolding Let_def case_prod_beta
    by (intro conjI allI r st exI [of _ d1] d1(1-3) rc e [THEN conjunct1] e [THEN conjunct2, THEN conjunct1]
        e [THEN conjunct2, THEN conjunct2] refl)
qed

text \<open>What the chip does in the witness: the retransmissions run out and the interrupt thread handles it.\<close>

definition chip_gives_up :: "nrf_chip nrf24_data \<Rightarrow> nrf_chip nrf24_data" where
  "chip_gives_up d = the (nrf24_irq_round chip_env (\<lambda>d. d) (d\<lparr>nrf_w := (nrf_w d)\<lparr>chip_flags := BIT8 MAX_RT, chip_rx := []\<rparr>\<rparr>))"

lemma chip_gives_up_sees: "irq_sees chip_env chip_gives_up 0x1E"
proof -
  have st: "reg_read_locked chip_env L01REG_STATUS x w = ((0, chip_flags w OR (if chip_rx w = [] then 0x0E else 0)), w)" for x w
    by (simp add: reg_read_locked_def chip_env_def chip_answer_def chip_next_def nrf_writes_def nrf_cmd_defs nrf_reg_defs Let_def)
  have "nrf24_irq_round chip_env (\<lambda>d. d) (d\<lparr>nrf_w := (nrf_w d)\<lparr>chip_flags := BIT8 MAX_RT, chip_rx := []\<rparr>\<rparr>) = Some (chip_gives_up d)" for d
    by (simp add: chip_gives_up_def nrf24_irq_round_def st rx_loop_unfold [of _ _ "0x1E"] nrf_bit_defs case_prod_beta)
  then show ?thesis unfolding irq_sees_def
    by (intro allI exI conjI [rotated]) (assumption | simp add: st nrf_bit_defs)+
qed

theorem send_returns_to_receive_witness:
  "let ((rc, r), d') = nrf24_send chip_env chip_gives_up 3 [1, 2] ((nrf24_data_zero (chip_zero []))\<lparr>nrf_ready := True\<rparr>) in
     rc = - EIO \<and> nrf_mode d' = NRF24_MODE_PRX \<and> chip_ce (nrf_w d')"
proof -
  let ?d = "(nrf24_data_zero (chip_zero []))\<lparr>nrf_ready := True\<rparr>"
  have bits: "\<not> bit (0x1E :: u8) 6" "bit (0x1E :: u8) 4" by simp_all
  have buf: "[1, 2] \<noteq> ([] :: bytes)" "length [1, 2 :: u8] \<le> NRF24_MAX_PAYLOAD" by (simp_all add: NRF24_MAX_PAYLOAD_def)
  note S = send_returns_to_receive [OF chip_law buf, of chip_gives_up 3 ?d, unfolded Let_def case_prod_beta]
  have "fst (fst (nrf24_send chip_env chip_gives_up 3 [1, 2] ?d)) = - EIO"
    using S [THEN conjunct2, THEN conjunct2, THEN conjunct1, THEN spec [of _ "0x1E"]] chip_gives_up_sees bits by simp
  then show ?thesis using S [THEN conjunct2, THEN conjunct2, THEN conjunct2] by (simp add: case_prod_beta)
qed

section \<open>Bounds of the queued frames\<close>

text \<open>
  Whatever the chip answers on the bus, the interrupt thread queues only frames of 1 to 32 bytes and
  never more of them than the queue holds, provided the other threads keep the queues that way.
\<close>
theorem irq_queues_bounded:
  assumes "\<And>d. nrf_ok d \<Longrightarrow> nrf_ok (other d)" "nrf_ok d" "nrf24_irq_round E other d = Some d'"
  shows "nrf_ok d'"
  using assms by (rule nrf_ok_irq)

section \<open>Frames lost\<close>

text \<open>
  When the chip holds frames \<open>f\<close>, \<open>fs\<close> as the thread starts, it delivers \<open>f\<close> alone: the FIFO is flushed
  after the first frame, and the flag cleared, so that every frame of \<open>fs\<close> is lost.
\<close>
theorem irq_delivers_first_only:
  assumes "frame_ok f" "nrf_ready d" "rx_msgq d = None" "fallback_msgq d = Some (4, [])"
    and "chip_rx (nrf_w d) = f # fs" "chip_flags (nrf_w d) = BIT8 RX_DR"
  shows "\<exists>d'. nrf24_irq_round chip_env id d = Some d' \<and> fallback_msgq d' = Some (4, [f]) \<and> chip_rx (nrf_w d') = []
    \<and> chip_flags (nrf_w d') = 0"
proof -
  have l: "length f \<le> 32" "0 < length f" using assms(1) by (auto simp: frame_ok_def NRF24_MAX_PAYLOAD_def)
  then have u: "unat (of_nat (length f) :: u8) = length f" by (simp add: unat_of_nat take_bit_nat_eq_self)
  let ?w = "nrf_w d"
  have st: "reg_read_locked chip_env L01REG_STATUS x w = ((0, chip_flags w OR (if chip_rx w = [] then 0x0E else 0)), w)" for x w
    by (simp add: reg_read_locked_def chip_env_def chip_answer_def chip_next_def nrf_writes_def nrf_cmd_defs nrf_reg_defs Let_def)
  have fetch: "fetch_rx_payload_locked chip_env ?w = (f, ?w\<lparr>chip_rx := fs\<rparr>)"
    using l u assms(5)
    by (simp add: fetch_rx_payload_locked_def chip_env_def chip_config_def parse_payload_mode_def read_rx_pl_wid_locked_def
        read_rx_payload_locked_def chip_answer_def chip_next_def nrf_writes_def nrf_cmd_defs nrf_reg_defs NRF24_MAX_PAYLOAD_def)
  have flush: "cmd_locked chip_env FLUSH_RX w = (0, w\<lparr>chip_rx := []\<rparr>)" for w
    by (simp add: cmd_locked_def chip_env_def chip_next_def nrf_writes_def nrf_cmd_defs)
  have clear: "reg_write_locked chip_env L01REG_STATUS v w = (0, w\<lparr>chip_flags := chip_flags w AND NOT (v AND IRQ_ALL)\<rparr>)" for v w
    by (simp add: reg_write_locked_def chip_env_def chip_next_def nrf_writes_def nrf_cmd_defs nrf_reg_defs)
  have step: "rx_step chip_env id s d = (0x0E, d\<lparr>nrf_w := ?w\<lparr>chip_rx := [], chip_flags := 0\<rparr>, fallback_msgq := Some (4, [f])\<rparr>)" for s
    using l assms(3,4,6)
    by (auto simp: rx_step_def fetch flush clear st deliver_def k_msgq_put_def nrf_bit_defs IRQ_ALL_def)
  show ?thesis
    using assms(2,5,6) step
    by (simp add: nrf24_irq_round_def st rx_loop_unfold [of _ _ "0x40"] rx_loop_unfold [of _ _ "0x0E"] tx_complete_def nrf_bit_defs TX_FLAGS_def)
qed

theorem irq_delivers_first_only_witness:
  "\<exists>d'. nrf24_irq_round chip_env id ((nrf24_data_zero (chip_zero [[1, 2], [3], [4]]))\<lparr>nrf_ready := True\<rparr>) = Some d'
    \<and> fallback_msgq d' = Some (4, [[1, 2]]) \<and> chip_rx (nrf_w d') = [] \<and> chip_flags (nrf_w d') = 0"
  by (rule irq_delivers_first_only [of _ _ "[[3], [4]]"])
    (simp_all add: frame_ok_def NRF24_MAX_PAYLOAD_def nrf24_data_zero_def chip_zero_def)

theorem irq_queues_bounded_witness:
  "\<exists>d'. nrf24_irq_round chip_env id ((nrf24_data_zero (chip_zero [[1, 2], [3], [4]]))\<lparr>nrf_ready := True\<rparr>) = Some d' \<and> nrf_ok d'"
proof -
  let ?d = "(nrf24_data_zero (chip_zero [[1, 2], [3], [4]]))\<lparr>nrf_ready := True\<rparr>"
  obtain d' where d: "nrf24_irq_round chip_env id ?d = Some d'"
    using irq_delivers_first_only [of "[1, 2]" ?d "[[3], [4]]"]
    by (auto simp: frame_ok_def NRF24_MAX_PAYLOAD_def nrf24_data_zero_def chip_zero_def)
  have "nrf_ok ?d" by (simp add: nrf24_data_zero_def nrf_ok_def queue_ok_def)
  then have "nrf_ok d'" using irq_queues_bounded [of id ?d chip_env d'] d by simp
  with d show ?thesis by blast
qed

end
