(* ===== verification/RfLink.thy ===== *)
theory RfLink imports Nrf24Io RfCrypt begin

text \<open>
  What the two radio applications, the handler (\<open>angle-handler\<close>) and the gateway (\<open>n2e-gw\<close>), do alike on top
  of the driver: the frame \<open>[id, big endian][data]\<close>, encrypted when the build says so, sent with retries.
\<close>

definition RF24_PAYLOAD_MAX :: nat where "RF24_PAYLOAD_MAX = 32"
definition RF24_ID_SIZE :: nat where "RF24_ID_SIZE = 2"
definition RF24_TX_RETRIES :: nat where "RF24_TX_RETRIES = 5"
definition RF24_ADDR_LEN :: nat where "RF24_ADDR_LEN = 5"
definition RF24_FIXED_CH :: u8 where "RF24_FIXED_CH = 1"

definition COBID_HEATBEAT :: u16 where "COBID_HEATBEAT = 0x763"
definition TEST_FRAME :: u16 where "TEST_FRAME = 0x777"
definition HANDLER_STATE :: u16 where "HANDLER_STATE = 0x1E3"
definition OVERBREAK_LASER :: u16 where "OVERBREAK_LASER = 0x263"
definition COORD_XY :: u16 where "COORD_XY = 0x363"
definition COORD_Z :: u16 where "COORD_Z = 0x463"

lemmas can_id_vals = COBID_HEATBEAT_def TEST_FRAME_def HANDLER_STATE_def OVERBREAK_LASER_def COORD_XY_def COORD_Z_def

text \<open>The longest payload depends on whether the counter byte of the encryption is added.\<close>

definition rf_data_max :: "bool \<Rightarrow> nat" where
  "rf_data_max crypt = RF24_PAYLOAD_MAX - RF24_ID_SIZE - (if crypt then 1 else 0)"

text \<open>The frame that goes to the radio; \<open>None\<close> when sealing refuses it.\<close>

definition rf_frame :: "bool \<Rightarrow> u16 \<Rightarrow> bytes \<Rightarrow> crypt_st \<Rightarrow> bytes option \<times> crypt_st" where
  "rf_frame crypt i d c = (if crypt then nrf24_crypt_seal (put_be16 i @ d) c else (Some (put_be16 i @ d), c))"

definition rf_unframe :: "bool \<Rightarrow> bytes \<Rightarrow> crypt_st \<Rightarrow> bytes option \<times> crypt_st" where
  "rf_unframe crypt f c = (if crypt then nrf24_crypt_open f c else (Some f, c))"

text \<open>
  The schedule of a send: for each attempt, what the rest of the system does to the radio while the sender
  waits, how long that takes, and what it does during the back-off after a failed attempt.
\<close>

type_synonym 'w sched = "nat \<Rightarrow> ('w nrf24_data \<Rightarrow> 'w nrf24_data) \<times> u32 \<times> ('w nrf24_data \<Rightarrow> 'w nrf24_data)"

text \<open>
  The retry loop; \<open>left\<close> retries remain.  \<open>res\<close> is the caller's result structure, which an early failure of
  \<open>nrf24_send\<close> does not write.
\<close>

fun send_retry ::
  "'w nrf_env \<Rightarrow> 'w sched \<Rightarrow> bytes \<Rightarrow> nat \<Rightarrow> nrf24_tx_result \<Rightarrow> 'w nrf24_data \<Rightarrow> (int \<times> nrf24_tx_result) \<times> 'w nrf24_data" where
  "send_retry E sch buf left res d =
     (let (during, t, backoff) = sch (RF24_TX_RETRIES - left);
          ((ret, r), d) = nrf24_send E during t buf d;
          res = (case r of None \<Rightarrow> res | Some x \<Rightarrow> x) in
      if ret = 0 then ((ret, res), d)
      else case left of 0 \<Rightarrow> ((ret, res), d)
        | Suc n \<Rightarrow> send_retry E sch buf n res (backoff d))"

declare send_retry.simps [simp del]

section \<open>The radio set up for the link\<close>

text \<open>
  The configuration both sides apply: the fixed channel and the address.  The designated initialiser leaves
  data rate, power and CRC mode zero, which are the first constants of their enumerations.
\<close>

definition rf_link_cfg :: "bytes \<Rightarrow> nrf24_cfg" where
  "rf_link_cfg addr = \<lparr>rc_channel = RF24_FIXED_CH, rc_data_rate = NRF24_RATE_250K, rc_tx_power = NRF24_PWR_18DBM,
     rc_crc_mode = NRF24_CRC_1_BYTE, rc_address_width = of_nat RF24_ADDR_LEN, rc_tx_addr = Some addr\<rparr>"

text \<open>The queue the application registers holds eight frames; registering it again keeps what is in it.\<close>

definition rf24_rx_queue :: "'w nrf24_data \<Rightarrow> msgq" where
  "rf24_rx_queue d = (case rx_msgq d of Some q \<Rightarrow> q | None \<Rightarrow> (8, []))"

definition rf24_rx_get :: "'w nrf24_data \<Rightarrow> (bytes \<times> 'w nrf24_data) option" where
  "rf24_rx_get d = (case rx_msgq d of Some (n, f # fs) \<Rightarrow> Some (f, d\<lparr>rx_msgq := Some (n, fs)\<rparr>) | _ \<Rightarrow> None)"

end
