(* ===== verification/Handler.thy ===== *)
theory Handler imports RfLink CanFw SettingsApi "HOL-Library.Signed_Division" begin

text \<open>
  The hand-held joystick unit \<open>applications/angle-handler\<close>: its global parameters and their persistence
  (\<open>persist.c\<close>), the CAN side with the parser of the scanner frames (\<open>can.c\<close>), the radio side (\<open>rf24.c\<close>), the
  choice between them (\<open>common.c\<close>).  Calls of the display are recorded in the field \<open>shown\<close>; logging is left out.
\<close>

section \<open>Parameters (\<open>common.h\<close>)\<close>

datatype battery_status = BATTERY_STATUS_UNKNOWN | BATTERY_STATUS_FULL | BATTERY_STATUS_CHARGING
  | BATTERY_STATUS_NOT_CHARGING | BATTERY_STATUS_DISCHARGING

record scanner_data =
  overbreak_valid :: u8
  overbreak_value :: u32
  laser_valid :: u8
  laser_distance :: u32
  coord_xy_valid :: u8
  coord_x :: u32
  coord_y :: u32
  coord_z_valid :: u8
  coord_z :: u32

definition WAKE_EVENT :: u32 where "WAKE_EVENT = push_bit 0 1"
definition CAN_EVENT :: u32 where "CAN_EVENT = push_bit 2 1"
definition RF24_EVENT :: u32 where "RF24_EVENT = push_bit 3 1"

lemmas h_event_defs = WAKE_EVENT_def CAN_EVENT_def RF24_EVENT_def

definition CAN_TYPE :: u8 where "CAN_TYPE = 1"
definition RF24_TYPE :: u8 where "RF24_TYPE = 2"
definition REPORT_PERIOD_MS :: u32 where "REPORT_PERIOD_MS = 800"

datatype display_call = Show_can | Show_rf24 u8 | Show_battery int battery_status | Show_scanner scanner_data
  | Show_all | Display_reinit

text \<open>
  \<open>crypt_on\<close> is the build option of the encryption; \<open>can_send_rc\<close> the driver's answer to a frame, \<open>tx_junk\<close>
  the value of an uninitialised result structure.
\<close>

record 'w h_env =
  nrf :: "'w nrf_env"
  crypt_on :: bool
  radio_ready :: bool
  can_send_rc :: "can_frame \<Rightarrow> int"
  save_rc :: int
  tx_junk :: nrf24_tx_result
  next_name :: name_next

record 'w handler =
  x_degree :: int
  y_degree :: int
  h_button :: u8
  power_mv :: int
  connect_type :: u8
  report_period :: u32
  battery :: battery_status
  scanner :: scanner_data
  rssi :: u8
  sleeping :: bool
  h_events :: u32
  rf24_addr :: bytes
  last_activity_time :: u32
  waking :: bool
  rf24_quality :: int
  h_crypt :: crypt_st
  h_radio :: "'w nrf24_data"
  has_can_dev :: bool
  can_sent :: "can_frame list"
  can_power :: bool
  dis_power :: bool
  handler_power :: bool
  shown :: "display_call list"
  h_store :: store
  ping_wait_seq :: u8
  rf24_ping_msgq :: "u8 list"
  x_samples :: "int list"
  y_samples :: "int list"
  power_samples :: "int list"

definition show_call :: "display_call \<Rightarrow> 'w handler \<Rightarrow> 'w handler" where
  "show_call c s = s\<lparr>shown := shown s @ [c]\<rparr>"

definition event_post :: "u32 \<Rightarrow> 'w handler \<Rightarrow> 'w handler" where
  "event_post e s = s\<lparr>h_events := h_events s OR e\<rparr>"

definition event_clear :: "u32 \<Rightarrow> 'w handler \<Rightarrow> 'w handler" where
  "event_clear e s = s\<lparr>h_events := h_events s AND NOT e\<rparr>"

section \<open>Persistence (\<open>persist.c\<close>)\<close>

definition persist_set :: "'w h_env \<Rightarrow> string \<Rightarrow> bytes \<Rightarrow> 'w handler \<Rightarrow> int \<times> 'w handler" where
  "persist_set E n v s =
     (let (l, rest) = next_name E n in
      if rest = None \<and> NAME_STARTS n l ''connect_type'' then
        (0, if length v = 1 \<and> (hd v = CAN_TYPE \<or> hd v = RF24_TYPE) then s\<lparr>connect_type := hd v\<rparr> else s)
      else if rest = None \<and> NAME_STARTS n l ''rf24_addr'' then
        (0, if length v = RF24_ADDR_LEN then s\<lparr>rf24_addr := v\<rparr> else s)
      else (- ENOENT, s))"

definition persist_export :: "'w handler \<Rightarrow> (string \<times> bytes) list" where
  "persist_export s = [(''persist/connect_type'', [connect_type s]), (''persist/rf24_addr'', rf24_addr s)]"

definition persist_save_connect_type :: "'w h_env \<Rightarrow> 'w handler \<Rightarrow> 'w handler" where
  "persist_save_connect_type E s =
     (if save_rc E = 0 then s\<lparr>h_store := store_put [(''persist/connect_type'', [connect_type s])] (h_store s)\<rparr> else s)"

definition persist_save_rf24_config :: "'w h_env \<Rightarrow> 'w handler \<Rightarrow> 'w handler" where
  "persist_save_rf24_config E s =
     (if save_rc E = 0 then s\<lparr>h_store := store_put [(''persist/rf24_addr'', rf24_addr s)] (h_store s)\<rparr> else s)"

text \<open>\<open>settings_load\<close> hands every stored pair below the handler's name to \<open>persist_set\<close>.\<close>

definition handler_settings_load :: "'w h_env \<Rightarrow> 'w handler \<Rightarrow> 'w handler" where
  "handler_settings_load E s = store_load ''persist/'' (\<lambda>n v s. snd (persist_set E n v s)) (h_store s) s"

text \<open>The start of the backend deletes the key of an older release.\<close>

definition settings_backend_init :: "int \<Rightarrow> 'w handler \<Rightarrow> int \<times> 'w handler" where
  "settings_backend_init rc s =
     (rc, if rc \<noteq> 0 then s else s\<lparr>h_store := AList.delete ''persist/rf24_channel'' (h_store s)\<rparr>)"

section \<open>CAN (\<open>can.c\<close>)\<close>

definition RF24_CONFIG_CMD :: u32 where "RF24_CONFIG_CMD = 0x110"
definition RF24_CONFIG_RESP :: u32 where "RF24_CONFIG_RESP = 0x111"
definition RF24_CMD_GET_CONFIG :: u8 where "RF24_CMD_GET_CONFIG = 0x02"

definition handler_can_send :: "'w h_env \<Rightarrow> can_frame \<Rightarrow> 'w handler \<Rightarrow> int \<times> 'w handler" where
  "handler_can_send E f s =
     (if \<not> has_can_dev s then (- ENODEV, s)
      else (can_send_rc E f, if can_send_rc E f = 0 then s\<lparr>can_sent := can_sent s @ [f]\<rparr> else s))"

text \<open>A 16-bit value read as signed and widened, as the cast \<open>(int16_t)\<close> assigned to 32 bits.\<close>

definition s16_to_s32 :: "u16 \<Rightarrow> u32" where "s16_to_s32 v = scast v"

definition flag_valid :: "u8 \<Rightarrow> u8 \<Rightarrow> u8" where
  "flag_valid b m = (if b AND m \<noteq> 0 then 1 else - 1)"

text \<open>The frame's data are eight bytes.\<close>

definition mod_can_parse_scanner :: "u32 \<Rightarrow> bytes \<Rightarrow> 'w handler \<Rightarrow> 'w handler" where
  "mod_can_parse_scanner i d s =
     (let c = scanner s in
      if i = ucast OVERBREAK_LASER then
        let c = c\<lparr>overbreak_valid := flag_valid (d ! 0) 1, laser_valid := flag_valid (d ! 0) 2,
              overbreak_value := s16_to_s32 (be16_at (drop 2 d)), laser_distance := be32_at (drop 4 d)\<rparr> in
        show_call (Show_scanner c) (s\<lparr>scanner := c\<rparr>)
      else if i = ucast COORD_XY then
        s\<lparr>scanner := c\<lparr>coord_x := be32_at d, coord_y := be32_at (drop 4 d), coord_xy_valid := 1\<rparr>\<rparr>
      else if i = ucast COORD_Z then
        let v = flag_valid (d ! 4) 1 in
        s\<lparr>scanner := c\<lparr>coord_z := be32_at d, coord_z_valid := v, coord_xy_valid := v\<rparr>\<rparr>
      else s)"

definition rf24_send_config_resp :: "'w h_env \<Rightarrow> u8 \<Rightarrow> 'w handler \<Rightarrow> 'w handler" where
  "rf24_send_config_resp E c s =
     snd (handler_can_send E \<lparr>fr_id = RF24_CONFIG_RESP, fr_dlc = 8, fr_data = pad8 (c # rf24_addr s)\<rparr> s)"

definition mod_can_rf24_config :: "'w h_env \<Rightarrow> can_frame \<Rightarrow> 'w handler \<Rightarrow> 'w handler" where
  "mod_can_rf24_config E f s =
     (if fr_dlc f < 1 then s
      else if fr_data f ! 0 = RF24_CMD_GET_CONFIG then rf24_send_config_resp E (fr_data f ! 0) s else s)"

definition handler_can_app_rx :: "'w h_env \<Rightarrow> can_frame \<Rightarrow> 'w handler \<Rightarrow> bool \<times> 'w handler" where
  "handler_can_app_rx E f s =
     (if fr_id f = ucast OVERBREAK_LASER \<or> fr_id f = ucast COORD_XY \<or> fr_id f = ucast COORD_Z
      then (True, mod_can_parse_scanner (fr_id f) (fr_data f) s)
      else if fr_id f = RF24_CONFIG_CMD then (True, mod_can_rf24_config E f s)
      else (False, s))"

text \<open>The library hands out the CAN device when the handler is registered.\<close>

definition handler_can_init :: "bool \<Rightarrow> 'w handler \<Rightarrow> int \<times> 'w handler" where
  "handler_can_init dev s = (0, s\<lparr>has_can_dev := dev\<rparr>)"

end
