(* ===== verification/HandlerRadio.thy ===== *)
theory HandlerRadio imports Handler begin

text \<open>
  The radio side of the handler: \<open>rf24.c\<close> with the link quality, sending and one round of the receive thread;
  the test frames and address command of \<open>rf24_shell.c\<close>; the state report and the heartbeat of \<open>common.c\<close>.
\<close>

section \<open>Link quality\<close>

definition RF24_QUAL_ALPHA_NUM :: int where "RF24_QUAL_ALPHA_NUM = 1"
definition RF24_QUAL_ALPHA_DEN :: int where "RF24_QUAL_ALPHA_DEN = 8"
definition RF24_QUAL_FAIL_DROP :: int where "RF24_QUAL_FAIL_DROP = 2 * RF24_QUAL_ALPHA_DEN"
definition RF24_QUAL_INIT :: int where "RF24_QUAL_INIT = 4 * RF24_QUAL_ALPHA_DEN"

lemmas rf24_qual_defs = RF24_QUAL_ALPHA_NUM_def RF24_QUAL_ALPHA_DEN_def RF24_QUAL_FAIL_DROP_def RF24_QUAL_INIT_def

definition rf24_tx_level :: "bool \<Rightarrow> u8 \<Rightarrow> u8" where
  "rf24_tx_level ack retrans =
     (if \<not> ack then 0 else if retrans \<le> 1 then 4 else if retrans \<le> 4 then 3 else if retrans \<le> 9 then 2 else 1)"

definition quality_step :: "bool \<Rightarrow> u8 \<Rightarrow> int \<Rightarrow> int" where
  "quality_step ack retrans q =
     (let q = (uint (rf24_tx_level ack retrans) * RF24_QUAL_ALPHA_DEN * RF24_QUAL_ALPHA_NUM
            + q * (RF24_QUAL_ALPHA_DEN - RF24_QUAL_ALPHA_NUM)) sdiv RF24_QUAL_ALPHA_DEN in
      if \<not> ack then (if q - RF24_QUAL_FAIL_DROP < 0 then 0 else q - RF24_QUAL_FAIL_DROP) else q)"

definition quality_level :: "int \<Rightarrow> u8" where
  "quality_level q = (if q \<ge> 28 then 4 else if q \<ge> 20 then 3 else if q \<ge> 12 then 2 else if q \<ge> 4 then 1 else 0)"

definition rf24_update_rssi :: "bool \<Rightarrow> u8 \<Rightarrow> 'w handler \<Rightarrow> 'w handler" where
  "rf24_update_rssi ack retrans s =
     (let q = quality_step ack retrans (rf24_quality s); level = quality_level q; s = s\<lparr>rf24_quality := q\<rparr> in
      if rssi s \<noteq> level then show_call (Show_rf24 level) (s\<lparr>rssi := level\<rparr>) else s)"

section \<open>Start and stop\<close>

definition rf24_init :: "'w h_env \<Rightarrow> 'w handler \<Rightarrow> 'w handler" where
  "rf24_init E s =
     (if \<not> radio_ready E then s
      else let (rc, d) = nrf24_power_enable (nrf E) True (h_radio s);
          s = (if crypt_on E then s\<lparr>h_crypt := nrf24_crypt_rx_reset (nrf24_crypt_set_key (rf24_addr s) (h_crypt s))\<rparr> else s);
          (rc, d) = nrf24_configure (nrf E) (Some (rf_link_cfg (rf24_addr s))) d;
          (rc, d) = nrf24_add_rx_msgq (rf24_rx_queue d) d;
          (ret, d) = nrf24_start_rx (nrf E) d;
          s = s\<lparr>h_radio := d\<rparr> in
        if ret \<noteq> 0 then s else s\<lparr>rf24_quality := RF24_QUAL_INIT\<rparr>)"

definition rf24_deinit :: "'w h_env \<Rightarrow> 'w handler \<Rightarrow> 'w handler" where
  "rf24_deinit E s =
     (if \<not> radio_ready E then s
      else s\<lparr>h_radio := snd (nrf24_power_enable (nrf E) False (h_radio s))\<rparr>)"

section \<open>Sending\<close>

definition rf24_data_send :: "'w h_env \<Rightarrow> 'w sched \<Rightarrow> u16 \<Rightarrow> bytes \<Rightarrow> 'w handler \<Rightarrow> bool \<times> 'w handler" where
  "rf24_data_send E sch can_id data s =
     (if \<not> radio_ready E then (False, s)
      else if length data > rf_data_max (crypt_on E) then (False, s)
      else let (f, c) = rf_frame (crypt_on E) can_id data (h_crypt s); s = s\<lparr>h_crypt := c\<rparr> in
        case f of None \<Rightarrow> (False, s)
        | Some buf \<Rightarrow>
            let ((ret, r), d) = send_retry (nrf E) sch buf RF24_TX_RETRIES (tx_junk E) (h_radio s);
                s = rf24_update_rssi (acked r) (retransmits r) (s\<lparr>h_radio := d\<rparr>) in
            (ret = 0, s))"

definition send_handler_state :: "'w h_env \<Rightarrow> 'w sched \<Rightarrow> bytes \<Rightarrow> 'w handler \<Rightarrow> int \<times> 'w handler" where
  "send_handler_state E sch data s =
     (if sleeping s then (- EBUSY, s)
      else if connect_type s = CAN_TYPE then
        handler_can_send E \<lparr>fr_id = ucast HANDLER_STATE, fr_dlc = of_nat (length data), fr_data = pad8 data\<rparr> s
      else let (ok, s) = rf24_data_send E sch HANDLER_STATE data s in (if ok then 0 else - EIO, s))"

text \<open>One round of the heartbeat thread; without a link event it keeps waiting.\<close>

definition heart_round :: "'w h_env \<Rightarrow> 'w sched \<Rightarrow> 'w handler \<Rightarrow> 'w handler" where
  "heart_round E sch s =
     (if h_events s AND (CAN_EVENT OR RF24_EVENT) = 0 then s
      else if sleeping s then s
      else if connect_type s = CAN_TYPE then
        snd (handler_can_send E \<lparr>fr_id = ucast COBID_HEATBEAT, fr_dlc = 1, fr_data = pad8 [5]\<rparr> s)
      else snd (rf24_data_send E sch COBID_HEATBEAT [5] s))"

section \<open>Test frames\<close>

definition RF24_TEST_PING :: u8 where "RF24_TEST_PING = 0x01"
definition RF24_TEST_ECHO :: u8 where "RF24_TEST_ECHO = 0x02"
definition RF24_TEST_DATA :: u8 where "RF24_TEST_DATA = 0x03"

definition ping_put :: "u8 \<Rightarrow> u8 list \<Rightarrow> u8 list" where
  "ping_put x q = (if length q < 2 then q @ [x] else q)"

text \<open>A data frame is only printed.\<close>

definition rf24_test_handle_rx :: "'w h_env \<Rightarrow> 'w sched \<Rightarrow> bytes \<Rightarrow> 'w handler \<Rightarrow> 'w handler" where
  "rf24_test_handle_rx E sch d s =
     (if length d < 1 then s
      else if d ! 0 = RF24_TEST_PING then
        snd (rf24_data_send E sch TEST_FRAME [RF24_TEST_ECHO, if length d \<ge> 2 then d ! 1 else 0xFF, 0] s)
      else if d ! 0 = RF24_TEST_ECHO then
        (if length d \<ge> 2 \<and> ping_wait_seq s = d ! 1 then s\<lparr>rf24_ping_msgq := ping_put (d ! 1) (rf24_ping_msgq s)\<rparr> else s)
      else s)"

definition rf24_apply_config :: "'w h_env \<Rightarrow> 'w handler \<Rightarrow> 'w handler" where
  "rf24_apply_config E s =
     (let (rc, d) = nrf24_configure (nrf E) (Some (rf_link_cfg (rf24_addr s))) (h_radio s);
          (rc, d) = nrf24_start_rx (nrf E) d in s\<lparr>h_radio := d\<rparr>)"

text \<open>
  The shell command that sets the address; \<open>vs\<close> are the numbers \<open>strtol\<close> reads from the arguments.  The
  bytes before an invalid one have been stored.
\<close>

fun set_addr_bytes :: "nat \<Rightarrow> int list \<Rightarrow> 'w handler \<Rightarrow> bool \<times> 'w handler" where
  "set_addr_bytes i [] s = (True, s)"
| "set_addr_bytes i (v # vs) s =
     (if v < 0 \<or> v > 0xFF then (False, s) else set_addr_bytes (Suc i) vs (s\<lparr>rf24_addr := (rf24_addr s)[i := of_int v]\<rparr>))"

definition cmd_rf24_addr :: "'w h_env \<Rightarrow> int list \<Rightarrow> 'w handler \<Rightarrow> int \<times> 'w handler" where
  "cmd_rf24_addr E vs s =
     (if length vs < 5 then (- EINVAL, s)
      else if \<not> radio_ready E then (- EIO, s)
      else let (ok, s) = set_addr_bytes 0 (take RF24_ADDR_LEN vs) s in
        if \<not> ok then (- EINVAL, s) else (0, rf24_apply_config E s))"

section \<open>Receiving\<close>

text \<open>
  One round of the receive thread: asleep or off the radio link it waits.  The data of a scanner frame are
  copied into the eight bytes of a CAN frame without a check of their length: \<open>None\<close> is the overrun.
\<close>

definition scanner_frame :: "bytes \<Rightarrow> bytes option" where
  "scanner_frame d = (if length d > 8 then None else Some (pad8 d))"

definition rf24_dispatch :: "'w h_env \<Rightarrow> 'w sched \<Rightarrow> bytes \<Rightarrow> 'w handler \<Rightarrow> 'w handler option" where
  "rf24_dispatch E sch f s =
     (let can_id = be16_at f; d = drop 2 f in
      if can_id = TEST_FRAME then Some (rf24_test_handle_rx E sch d s)
      else if can_id \<noteq> OVERBREAK_LASER \<and> can_id \<noteq> COORD_XY \<and> can_id \<noteq> COORD_Z then Some s
      else map_option (\<lambda>d. mod_can_parse_scanner (ucast can_id) d s) (scanner_frame d))"

definition rf24_rx_round :: "'w h_env \<Rightarrow> 'w sched \<Rightarrow> 'w handler \<Rightarrow> 'w handler option" where
  "rf24_rx_round E sch s =
     (if sleeping s then Some s
      else if h_events s AND RF24_EVENT = 0 then Some s
      else case rf24_rx_get (h_radio s) of None \<Rightarrow> Some s
        | Some (f, d) \<Rightarrow>
            let s = s\<lparr>h_radio := d\<rparr> in
            if length f < RF24_ID_SIZE then Some s
            else let (m, c) = rf_unframe (crypt_on E) f (h_crypt s); s = s\<lparr>h_crypt := c\<rparr> in
              (case m of None \<Rightarrow> Some s | Some f \<Rightarrow> rf24_dispatch E sch f s))"

end
