(* ===== verification/HandlerPower.thy ===== *)
theory HandlerPower imports HandlerRadio begin

text \<open>
  Power and link control of the handler (\<open>gpio.c\<close>), its main loop (\<open>main.c\<close>): the start, the switch between CAN
  and radio, sleep and wake-up.  Delayed work is run by separate steps; the level of a pin is an argument.
  Going to sleep and waking each pause in the middle, where other threads run: they are two functions.
\<close>

section \<open>The serial number\<close>

definition crc32_bit :: "u32 \<Rightarrow> u32" where
  "crc32_bit c = drop_bit 1 c XOR (0xEDB88320 AND - (c AND 1))"

definition crc32_byte :: "u8 \<Rightarrow> u32 \<Rightarrow> u32" where
  "crc32_byte b c = (crc32_bit ^^ 8) (c XOR ucast b)"

definition uid_to_sn :: "bytes \<Rightarrow> bytes" where
  "uid_to_sn uid =
     (let crc = fold crc32_byte (take 12 uid) 0xFFFFFFFF;
          sn = [ucast (crc AND 0xFF), ucast (drop_bit 8 crc AND 0xFF), ucast (drop_bit 16 crc AND 0xFF), ucast (drop_bit 24 crc AND 0xFF)] in
      sn @ [sn ! 0 XOR sn ! 1 XOR sn ! 2 XOR sn ! 3])"

section \<open>Pins and battery\<close>

definition can_power_enable :: "bool \<Rightarrow> 'w handler \<Rightarrow> 'w handler" where
  "can_power_enable up s = s\<lparr>can_power := up\<rparr>"

definition dis_power_enable :: "bool \<Rightarrow> 'w handler \<Rightarrow> 'w handler" where
  "dis_power_enable up s = s\<lparr>dis_power := up\<rparr>"

definition handler_power_enable :: "bool \<Rightarrow> 'w handler \<Rightarrow> 'w handler" where
  "handler_power_enable up s = s\<lparr>handler_power := up\<rparr>"

definition read_battery_status :: "int \<Rightarrow> int \<Rightarrow> battery_status" where
  "read_battery_status charge_full_pin charging_pin =
     (if charge_full_pin = 0 then BATTERY_STATUS_FULL
      else if charging_pin = 0 then BATTERY_STATUS_CHARGING else BATTERY_STATUS_DISCHARGING)"

text \<open>The report \<open>[x][y][button][0xFF, 0xFF, 0xFF]\<close> of the angles and the button.\<close>

definition state_report :: "'w handler \<Rightarrow> bytes" where
  "state_report s = put_be16 (of_int (x_degree s)) @ put_be16 (of_int (y_degree s)) @ [h_button s, 0xFF, 0xFF, 0xFF]"

section \<open>Link switch, sleep and wake-up\<close>

text \<open>The argument of \<open>connect_switch\<close> is not used.\<close>

definition connect_switch :: "'w h_env \<Rightarrow> u8 \<Rightarrow> 'w handler \<Rightarrow> 'w handler" where
  "connect_switch E type s =
     persist_save_connect_type E
       (if connect_type s = CAN_TYPE then
          show_call Show_can (event_post CAN_EVENT (can_power_enable True (rf24_deinit E (event_clear RF24_EVENT s))))
        else let s = event_post RF24_EVENT (rf24_init E (can_power_enable False (event_clear CAN_EVENT s))) in
          show_call (Show_rf24 (rssi s)) s)"

definition linksw_work_handler :: "'w h_env \<Rightarrow> int \<Rightarrow> 'w handler \<Rightarrow> 'w handler" where
  "linksw_work_handler E pin s =
     (if pin = 0 then
        let s = s\<lparr>connect_type := (if connect_type s = CAN_TYPE then RF24_TYPE else CAN_TYPE)\<rparr> in
        connect_switch E (connect_type s) s
      else s)"

definition btn_display_work_handler :: "'w h_env \<Rightarrow> 'w sched \<Rightarrow> u8 \<Rightarrow> u32 \<Rightarrow> 'w handler \<Rightarrow> 'w handler" where
  "btn_display_work_handler E sch pin now s =
     (if sleeping s then s
      else let s = s\<lparr>h_button := pin, last_activity_time := now\<rparr> in snd (send_handler_state E sch (state_report s) s))"

text \<open>
  Going to sleep and waking up wait in the middle (100 ms and 200 ms) while the other threads run: each is
  what happens before the wait and what happens after it.
\<close>

definition sleep_begin :: "'w handler \<Rightarrow> 'w handler" where
  "sleep_begin s = (event_clear WAKE_EVENT s)\<lparr>sleeping := True\<rparr>"

definition sleep_end :: "'w h_env \<Rightarrow> 'w handler \<Rightarrow> 'w handler" where
  "sleep_end E s =
     (let s = (if connect_type s = CAN_TYPE then can_power_enable False s else rf24_deinit E s) in
      handler_power_enable False (dis_power_enable False s))"

definition system_sleep :: "'w h_env \<Rightarrow> 'w handler \<Rightarrow> 'w handler" where
  "system_sleep E s = sleep_end E (sleep_begin s)"

definition wake_begin :: "'w h_env \<Rightarrow> 'w handler \<Rightarrow> 'w handler" where
  "wake_begin E s =
     (let s = dis_power_enable True (handler_power_enable True (s\<lparr>waking := True\<rparr>)) in
      if connect_type s = CAN_TYPE then can_power_enable True s else rf24_init E s)"

definition wake_end :: "u32 \<Rightarrow> 'w handler \<Rightarrow> 'w handler" where
  "wake_end now s =
     (let s = (show_call Display_reinit s)\<lparr>sleeping := False\<rparr>;
          s = (show_call Show_all s)\<lparr>waking := False, last_activity_time := now\<rparr> in
      event_post WAKE_EVENT s)"

definition system_wake :: "'w h_env \<Rightarrow> u32 \<Rightarrow> 'w handler \<Rightarrow> 'w handler" where
  "system_wake E now s = wake_end now (wake_begin E s)"

definition power_key_wakes :: "int \<Rightarrow> 'w handler \<Rightarrow> bool" where
  "power_key_wakes pin s = (pin = 0 \<and> sleeping s \<and> \<not> waking s)"

definition sleep_work_handler :: "'w h_env \<Rightarrow> int \<Rightarrow> u32 \<Rightarrow> 'w handler \<Rightarrow> 'w handler" where
  "sleep_work_handler E pin now s = (if power_key_wakes pin s then system_wake E now s else s)"

text \<open>The power policy: asleep and not waking, every idle period enters the stop state.\<close>

definition pm_policy_next_state :: "'w handler \<Rightarrow> bool" where
  "pm_policy_next_state s = (sleeping s \<and> \<not> waking s)"

text \<open>The interrupts only schedule work: whether the button's and the link switch's do.\<close>

datatype h_work = Sleep_work | Btn_work | Linksw_work

definition gpio_irq :: "bool \<Rightarrow> bool \<Rightarrow> 'w handler \<Rightarrow> h_work option" where
  "gpio_irq power_pin_hit button_pin_hit s =
     (if power_pin_hit then Some Sleep_work
      else if button_pin_hit then (if sleeping s then None else Some Btn_work) else None)"

definition linksw_irq :: "'w handler \<Rightarrow> h_work option" where
  "linksw_irq s = (if sleeping s then None else Some Linksw_work)"

section \<open>Start\<close>

definition power_init :: "int list \<Rightarrow> bytes \<Rightarrow> 'w handler \<Rightarrow> int \<times> 'w handler" where
  "power_init rcs uid s =
     (if rcs ! 0 < 0 then (rcs ! 0, s)
      else if rcs ! 1 < 0 then (rcs ! 1, s)
      else if rcs ! 2 < 0 then (rcs ! 2, s)
      else (0, handler_power_enable True (can_power_enable True (dis_power_enable True
        (event_post CAN_EVENT (s\<lparr>report_period := REPORT_PERIOD_MS, connect_type := CAN_TYPE,
           rf24_addr := uid_to_sn uid, h_events := 0\<rparr>))))))"

text \<open>The ready checks and configurations of \<open>gpio_init\<close> in their order: it stops at the first that fails.\<close>

fun first_error :: "int list \<Rightarrow> int" where
  "first_error [] = 0"
| "first_error (rc # rcs) = (if rc < 0 then rc else first_error rcs)"

definition gpio_init :: "bool list \<Rightarrow> int list \<Rightarrow> int \<Rightarrow> u8 \<Rightarrow> 'w handler \<Rightarrow> int \<times> 'w handler" where
  "gpio_init ready cfg_rcs linksw_rc button s =
     (if \<not> list_all id ready then (- ENODEV, s)
      else if first_error cfg_rcs < 0 then (first_error cfg_rcs, s)
      else if linksw_rc < 0 then (linksw_rc, s)
      else (0, s\<lparr>h_button := button\<rparr>))"

section \<open>The main loop (\<open>main.c\<close>)\<close>

definition ACTIVITY_TIMEOUT_MS :: u32 where "ACTIVITY_TIMEOUT_MS = 10 * 60 * 1000"

definition handler_main_start :: "'w h_env \<Rightarrow> ('w handler \<Rightarrow> 'w handler) \<Rightarrow> u32 \<Rightarrow> 'w handler \<Rightarrow> 'w handler" where
  "handler_main_start E hw now s =
     (let s = handler_settings_load E (hw (s\<lparr>last_activity_time := now\<rparr>)) in connect_switch E (connect_type s) s)"

definition idle_too_long :: "u32 \<Rightarrow> 'w handler \<Rightarrow> bool" where
  "idle_too_long now s = (if sleeping s then False else now - last_activity_time s > ACTIVITY_TIMEOUT_MS)"

definition handler_main_round :: "'w h_env \<Rightarrow> u32 \<Rightarrow> 'w handler \<Rightarrow> 'w handler" where
  "handler_main_round E now s = (if idle_too_long now s then system_sleep E s else s)"

section \<open>Shell commands that change the link\<close>

definition cmd_link :: "'w h_env \<Rightarrow> u8 \<Rightarrow> 'w handler \<Rightarrow> int \<times> 'w handler" where
  "cmd_link E type s = (0, connect_switch E type (s\<lparr>connect_type := type\<rparr>))"

definition cmd_sleep :: "'w h_env \<Rightarrow> 'w handler \<Rightarrow> int \<times> 'w handler" where
  "cmd_sleep E s = (0, if sleeping s then s else system_sleep E s)"

text \<open>
  \<open>link test\<close> sends up to 100 test frames over the link in use and counts the ones that went out; \<open>sch i\<close> is
  the schedule of frame \<open>i\<close>.
\<close>

definition link_test_count :: "int option \<Rightarrow> nat" where
  "link_test_count n = (case n of None \<Rightarrow> 10 | Some c \<Rightarrow> if c < 1 then 1 else if c > 100 then 100 else nat c)"

fun link_test_loop :: "'w h_env \<Rightarrow> (nat \<Rightarrow> 'w sched) \<Rightarrow> nat list \<Rightarrow> nat \<Rightarrow> 'w handler \<Rightarrow> nat \<times> 'w handler" where
  "link_test_loop E sch [] ok s = (ok, s)"
| "link_test_loop E sch (i # is') ok s =
     (let (sent_ok, s) =
        (if connect_type s = CAN_TYPE then
           let (rc, s) = handler_can_send E \<lparr>fr_id = ucast TEST_FRAME, fr_dlc = 1, fr_data = pad8 [of_nat i]\<rparr> s in (rc \<ge> 0, s)
         else rf24_data_send E (sch i) TEST_FRAME [of_nat i] s) in
      link_test_loop E sch is' (if sent_ok then Suc ok else ok) s)"

definition cmd_link_test :: "'w h_env \<Rightarrow> (nat \<Rightarrow> 'w sched) \<Rightarrow> int option \<Rightarrow> 'w handler \<Rightarrow> (nat \<times> nat) \<times> 'w handler" where
  "cmd_link_test E sch arg s =
     (let n = link_test_count arg; (ok, s) = link_test_loop E sch [0..<n] 0 s in ((ok, n - ok), s))"

end
