(* ===== verification/HandlerAdc.thy ===== *)
theory HandlerAdc imports HandlerPower "HOL-Library.Multiset" begin

text \<open>
  The sampling threads of the handler (\<open>adc.c\<close>): the joystick angles from ten fast samples without the two
  extremes, rounded to whole degrees with a dead zone, and the supply voltage.
\<close>

definition XY_SAMPLE_COUNT :: nat where "XY_SAMPLE_COUNT = 10"
definition POWER_SAMPLE_COUNT :: nat where "POWER_SAMPLE_COUNT = 10"
definition CAN_SLEEP_MS :: u32 where "CAN_SLEEP_MS = 20"
definition RF24_SLEEP_MS :: u32 where "RF24_SLEEP_MS = 50"

text \<open>Setting up the channels: each is whether its device is ready and the result of its set-up.\<close>

fun adc_init_channels :: "int \<Rightarrow> (bool \<times> int) list \<Rightarrow> int" where
  "adc_init_channels ret [] = ret"
| "adc_init_channels ret ((ready, rc) # cs) =
     (if \<not> ready then - ENODEV else if rc < 0 then rc else adc_init_channels rc cs)"

definition trim_step :: "int \<Rightarrow> int \<times> int \<times> int \<Rightarrow> int \<times> int \<times> int" where
  "trim_step v st = (case st of (mn, mx, sm) \<Rightarrow> (if v < mn then v else mn, if v > mx then v else mx, sm + v))"

definition trim_avg :: "int list \<Rightarrow> int" where
  "trim_avg samples =
     (case fold trim_step samples (samples ! 0, samples ! 0, 0) of (mn, mx, sm) \<Rightarrow> (sm - mn - mx) sdiv (int (length samples) - 2))"

definition mv_to_degree :: "int \<Rightarrow> int" where
  "mv_to_degree mv = ((if mv > 2700 then 2700 else if mv < 300 then 300 else mv) - 300) * 400 sdiv 2400 - 200"

text \<open>
  The channels of sample \<open>j\<close>: the first is x, the others y; a channel that cannot be read, \<open>None\<close>, leaves the
  value of an earlier round in place.
\<close>

fun sample_channels :: "nat \<Rightarrow> nat \<Rightarrow> int option list \<Rightarrow> int list \<times> int list \<Rightarrow> int list \<times> int list" where
  "sample_channels j i [] xy = xy"
| "sample_channels j i (None # rs) xy = sample_channels j (Suc i) rs xy"
| "sample_channels j i (Some mv # rs) xy =
     sample_channels j (Suc i) rs
       (if i = 0 then ((fst xy)[j := mv_to_degree mv], snd xy) else (fst xy, (snd xy)[j := mv_to_degree mv]))"

fun sample_rounds :: "nat \<Rightarrow> int option list list \<Rightarrow> int list \<times> int list \<Rightarrow> int list \<times> int list" where
  "sample_rounds j [] xy = xy"
| "sample_rounds j (rs # rss) xy = sample_rounds (Suc j) rss (sample_channels j 0 rs xy)"

definition quantise :: "int \<Rightarrow> int" where
  "quantise a = (if a > -10 \<and> a < 10 then 0 else a sdiv 10 * 10)"

text \<open>One round of the angle thread on ten readings of the channels; \<open>now\<close> is the clock when the angles are known.\<close>

definition adc_read_round :: "'w h_env \<Rightarrow> 'w sched \<Rightarrow> int option list list \<Rightarrow> u32 \<Rightarrow> 'w handler \<Rightarrow> 'w handler" where
  "adc_read_round E sch readings now s =
     (if sleeping s then s
      else let (xs, ys) = sample_rounds 0 (take XY_SAMPLE_COUNT readings) (x_samples s, y_samples s);
          s = s\<lparr>x_samples := xs, y_samples := ys\<rparr>;
          x = quantise (trim_avg xs); y = quantise (trim_avg ys);
          s = (if x \<noteq> x_degree s \<or> y \<noteq> y_degree s
               then s\<lparr>last_activity_time := now, x_degree := x, y_degree := y\<rparr> else s) in
        snd (send_handler_state E sch (state_report s) s))"

definition adc_sleep_ms :: "u32 \<Rightarrow> 'w handler \<Rightarrow> u32" where
  "adc_sleep_ms diff s =
     (let ms = (if connect_type s = CAN_TYPE then CAN_SLEEP_MS else RF24_SLEEP_MS) in if diff < ms then ms - diff else 0)"

text \<open>
  One round of the supply thread: \<open>reading\<close> is the voltage in millivolts, \<open>None\<close> when it is not available.
\<close>

definition adc_power_round :: "int option \<Rightarrow> battery_status \<Rightarrow> 'w handler \<Rightarrow> 'w handler" where
  "adc_power_round reading bat s =
     (if sleeping s then s
      else let s = (case reading of None \<Rightarrow> s | Some mv \<Rightarrow> s\<lparr>power_samples := power_samples s @ [mv * 2]\<rparr>) in
        if length (power_samples s) \<ge> POWER_SAMPLE_COUNT then
          let mv = trim_avg (power_samples s); s = s\<lparr>power_samples := []\<rparr> in
          if mv \<noteq> power_mv s \<or> battery s \<noteq> bat
          then (show_call (Show_battery mv bat) s)\<lparr>power_mv := mv, battery := bat\<rparr> else s
        else s)"

end
