(* ===== verification/HandlerProps.thy ===== *)
theory HandlerProps imports HandlerAdc begin

text \<open>Lemmas of the handler: the angle arithmetic, the link quality, and which fields each operation leaves alone.\<close>

section \<open>Angles\<close>

lemma trim_fold:
  "fold trim_step xs (mn, mx, sm) = (fold min xs mn, fold max xs mx, sm + sum_list xs)"
proof (induction xs arbitrary: mn mx sm)
  case (Cons x xs)
  have "trim_step x (mn, mx, sm) = (min x mn, max x mx, sm + x)" by (auto simp: trim_step_def min_def max_def)
  then show ?case using Cons by simp
qed simp

lemma sdiv_nonneg: "0 \<le> a \<Longrightarrow> 0 < b \<Longrightarrow> a sdiv b = a div b" for a b :: int
  by (cases "a = 0") (simp_all add: signed_divide_int_def)

lemma abs_sdiv: "b \<noteq> 0 \<Longrightarrow> \<bar>a sdiv b\<bar> = \<bar>a\<bar> div \<bar>b\<bar>" for a b :: int
proof -
  assume b: "b \<noteq> 0"
  then have "0 \<le> \<bar>a\<bar> div \<bar>b\<bar>" by (simp add: pos_imp_zdiv_nonneg_iff)
  then show ?thesis using b by (cases "a = 0") (simp_all add: signed_divide_int_def abs_mult abs_sgn_eq)
qed

lemma sort_ends:
  assumes "xs \<noteq> []"
  shows "hd (sort xs) = Min (set xs)" "last (sort xs) = Max (set xs)"
proof -
  have ne: "sort xs \<noteq> []" using assms by (metis length_0_conv length_sort)
  obtain a as where a: "sort xs = a # as" using ne by (cases "sort xs") auto
  have "set xs = insert a (set as)" by (metis a list.simps(15) set_sort)
  moreover have "\<forall>x\<in>set as. a \<le> x" using sorted_sort [of xs] by (simp add: a)
  ultimately show "hd (sort xs) = Min (set xs)" by (auto simp: a intro!: Min_eqI [symmetric])
  obtain bs b where b: "sort xs = bs @ [b]" using ne by (cases "sort xs" rule: rev_cases) auto
  have "set xs = insert b (set bs)" using arg_cong [OF b, of set] by simp
  moreover have "\<forall>x\<in>set bs. x \<le> b" using sorted_sort [of xs] by (simp add: b sorted_append)
  ultimately show "last (sort xs) = Max (set xs)" by (auto simp: b intro!: Max_eqI [symmetric])
qed

lemma sum_sort: "sum_list (sort xs) = sum_list xs" for xs :: "int list"
  by (metis mset_sort sum_mset_sum_list)

lemma sum_middle:
  fixes ys :: "int list" assumes "2 \<le> length ys"
  shows "sum_list (butlast (tl ys)) = sum_list ys - hd ys - last ys"
proof -
  obtain a bs b where "ys = a # bs @ [b]"
    using assms by (cases ys; cases "tl ys" rule: rev_cases) auto
  then show ?thesis by simp
qed

text \<open>The average without the extremes is the average of the middle of the sorted samples.\<close>

lemma trim_avg_sorted:
  assumes "2 \<le> length xs"
  shows "trim_avg xs = sum_list (butlast (tl (sort xs))) sdiv (int (length xs) - 2)"
proof -
  have ne: "xs \<noteq> []" using assms by auto
  have mn: "fold min xs (xs ! 0) = hd (sort xs)" and mx: "fold max xs (xs ! 0) = last (sort xs)"
    using ne by (simp_all add: sort_ends insert_absorb flip: Min.set_eq_fold Max.set_eq_fold)
  show ?thesis
    using assms by (simp add: trim_avg_def trim_fold mn mx sum_middle sum_sort)
qed

lemma sdiv_mult_bounds: "\<bar>a sdiv b\<bar> * \<bar>b\<bar> \<le> \<bar>a\<bar>" for a b :: int
proof (cases "b = 0")
  case False
  then have "\<bar>a\<bar> div \<bar>b\<bar> * \<bar>b\<bar> \<le> \<bar>a\<bar>"
    using div_mult_mod_eq [of "\<bar>a\<bar>" "\<bar>b\<bar>"] pos_mod_sign [of "\<bar>b\<bar>" "\<bar>a\<bar>"] by linarith
  then show ?thesis using False by (simp add: abs_sdiv)
qed simp

lemma sum_list_bounds:
  fixes xs :: "int list" assumes "list_all (\<lambda>x. \<bar>x\<bar> \<le> c) xs"
  shows "\<bar>sum_list xs\<bar> \<le> c * int (length xs)"
  using assms by (induction xs) (auto simp: algebra_simps)

lemma trim_avg_bounds:
  assumes "list_all (\<lambda>x. \<bar>x\<bar> \<le> c) xs" "3 \<le> length xs"
  shows "\<bar>trim_avg xs\<bar> \<le> c"
proof -
  let ?m = "butlast (tl (sort xs))"
  have "list_all (\<lambda>x. \<bar>x\<bar> \<le> c) (sort xs)" using assms(1) by (simp add: list_all_iff)
  then have "list_all (\<lambda>x. \<bar>x\<bar> \<le> c) ?m"
    by (cases "sort xs") (auto simp: list_all_iff dest!: in_set_butlastD)
  then have "\<bar>sum_list ?m\<bar> \<le> c * (int (length xs) - 2)"
    using sum_list_bounds [of c ?m] assms(2) by (simp add: of_nat_diff)
  moreover have "\<bar>trim_avg xs\<bar> * (int (length xs) - 2) \<le> \<bar>sum_list ?m\<bar>"
    using sdiv_mult_bounds [of "sum_list ?m" "int (length xs) - 2"] assms(2) by (simp add: trim_avg_sorted)
  ultimately have "\<bar>trim_avg xs\<bar> * (int (length xs) - 2) \<le> c * (int (length xs) - 2)" by (rule order_trans [rotated])
  then show ?thesis using assms(2) mult_right_le_imp_le [of "\<bar>trim_avg xs\<bar>" "int (length xs) - 2" c] by simp
qed

lemma mv_to_degree_bounds: "\<bar>mv_to_degree mv\<bar> \<le> 200"
proof -
  define m where "m = (if mv > 2700 then 2700 else if mv < 300 then 300 else mv) - (300::int)"
  have "0 \<le> m" "m \<le> 2400" by (auto simp: m_def)
  then have "0 \<le> m * 400 sdiv 2400" "m * 400 sdiv 2400 \<le> 400" by (auto simp: sdiv_nonneg)
  then show ?thesis by (simp add: mv_to_degree_def flip: m_def)
qed

lemma quantise_spec: "\<bar>quantise a\<bar> \<le> \<bar>a\<bar>" "10 dvd quantise a" "\<bar>a\<bar> < 10 \<Longrightarrow> quantise a = 0" "\<bar>quantise a - a\<bar> < 10"
proof -
  have "\<bar>a sdiv 10 * 10\<bar> \<le> \<bar>a\<bar>" using sdiv_mult_bounds [of a 10] by (simp add: abs_mult)
  then show "\<bar>quantise a\<bar> \<le> \<bar>a\<bar>" by (simp add: quantise_def)
  show "10 dvd quantise a" "\<bar>a\<bar> < 10 \<Longrightarrow> quantise a = 0" by (auto simp: quantise_def)
  show "\<bar>quantise a - a\<bar> < 10" by (auto simp: quantise_def signed_divide_int_def sgn_if)
qed

definition samples_ok :: "int list \<Rightarrow> bool" where
  "samples_ok xs \<longleftrightarrow> length xs = XY_SAMPLE_COUNT \<and> list_all (\<lambda>x. \<bar>x\<bar> \<le> 200) xs"

lemma samples_ok_update: "samples_ok xs \<Longrightarrow> samples_ok (xs[j := mv_to_degree mv])"
  by (auto simp: samples_ok_def list_all_iff mv_to_degree_bounds dest!: set_update_subset_insert [THEN subsetD])

lemma samples_ok_channels:
  "samples_ok (fst xy) \<and> samples_ok (snd xy) \<Longrightarrow>
   samples_ok (fst (sample_channels j i rs xy)) \<and> samples_ok (snd (sample_channels j i rs xy))"
  by (induction j i rs xy rule: sample_channels.induct) (auto simp: samples_ok_update)

lemma samples_ok_rounds:
  "samples_ok (fst xy) \<and> samples_ok (snd xy) \<Longrightarrow>
   samples_ok (fst (sample_rounds j rss xy)) \<and> samples_ok (snd (sample_rounds j rss xy))"
  by (induction j rss xy rule: sample_rounds.induct) (simp_all add: samples_ok_channels)

lemma degree_bounds:
  assumes "samples_ok xs" shows "\<bar>quantise (trim_avg xs)\<bar> \<le> 200"
  using trim_avg_bounds [of 200 xs] quantise_spec(1) [of "trim_avg xs"] assms
  by (simp add: samples_ok_def XY_SAMPLE_COUNT_def)

section \<open>Link quality\<close>

lemma rf24_tx_level_le: "uint (rf24_tx_level a r) \<le> 4" "0 \<le> uint (rf24_tx_level a r)"
  by (auto simp: rf24_tx_level_def)

lemma quality_step_div:
  "0 \<le> q \<Longrightarrow> quality_step a r q =
     (let q' = (8 * uint (rf24_tx_level a r) + 7 * q) div 8 in if a then q' else max 0 (q' - 16))"
proof -
  assume "0 \<le> q"
  then have "(uint (rf24_tx_level a r) * 8 * 1 + q * (8 - 1)) sdiv 8 = (8 * uint (rf24_tx_level a r) + 7 * q) div 8"
    by (subst sdiv_nonneg) (simp_all add: mult.commute)
  then show ?thesis by (simp only: quality_step_def rf24_qual_defs Let_def max_def) auto
qed

lemma quality_bounds:
  assumes "0 \<le> q" "q \<le> c" "27 \<le> c"
  shows "0 \<le> quality_step a r q" "quality_step a r q \<le> max c 32"
proof -
  have "(8 * uint (rf24_tx_level a r) + 7 * q) div 8 \<le> max c 32"
    using rf24_tx_level_le [of a r] assms by (auto simp: max_def)
  then show "0 \<le> quality_step a r q" "quality_step a r q \<le> max c 32"
    using assms by (auto simp: quality_step_div Let_def)
qed

text \<open>From 27 on no result brings the quality back above 27.\<close>

lemma quality_stuck:
  assumes "0 \<le> q" "q \<le> 27" shows "quality_step a r q \<le> 27"
  using assms rf24_tx_level_le [of a r] by (auto simp: quality_step_div Let_def)

end
