(* ===== verification/HandlerLink.thy ===== *)
theory HandlerLink imports HandlerProps Nrf24Theorems begin

text \<open>
  The link state of the handler - which link is chosen, what is powered, whether it sleeps - over every
  sequence of the events the program reacts to.
\<close>

section \<open>The link state\<close>

type_synonym link_view = "u8 \<times> bool \<times> bool \<times> u32 \<times> bool \<times> bool \<times> bool \<times> bool"

definition lview :: "'w handler \<Rightarrow> link_view" where
  "lview s = (connect_type s, sleeping s, waking s, h_events s, can_power s, dis_power s, handler_power s, nrf_ready (h_radio s))"

text \<open>
  One of the two links is chosen and its event is set (the event bits other than the links' and the
  wake-up's are clear); \<open>link_on\<close>: the chosen link and only it is powered, with the display and the joystick;
  \<open>link_ok\<close>: that is so while the handler is awake, and asleep everything is off.
\<close>

definition link_chosen :: "'w handler \<Rightarrow> bool" where
  "link_chosen s \<longleftrightarrow> (connect_type s = CAN_TYPE \<or> connect_type s = RF24_TYPE)
     \<and> h_events s AND NOT WAKE_EVENT = (if connect_type s = CAN_TYPE then CAN_EVENT else RF24_EVENT)"

definition link_on :: "'w handler \<Rightarrow> bool" where
  "link_on s \<longleftrightarrow> link_chosen s \<and> can_power s = (connect_type s = CAN_TYPE) \<and> dis_power s \<and> handler_power s
     \<and> nrf_ready (h_radio s) = (connect_type s = RF24_TYPE)"

definition link_ok :: "'w handler \<Rightarrow> bool" where
  "link_ok s \<longleftrightarrow> link_chosen s \<and> \<not> waking s
     \<and> (if sleeping s then \<not> can_power s \<and> \<not> dis_power s \<and> \<not> handler_power s \<and> \<not> nrf_ready (h_radio s)
        else link_on s)"

lemma link_on_view: "lview s = lview t \<Longrightarrow> link_on s = link_on t"
  by (simp add: lview_def link_on_def link_chosen_def)

lemma link_ok_view: "lview s = lview t \<Longrightarrow> link_ok s = link_ok t"
  by (simp add: lview_def link_ok_def link_on_def link_chosen_def)

section \<open>What leaves the link state alone\<close>

definition keeps_ready :: "('w nrf24_data \<Rightarrow> 'w nrf24_data) \<Rightarrow> bool" where
  "keeps_ready g \<longleftrightarrow> (\<forall>d. nrf_ready (g d) = nrf_ready d)"

definition sched_keeps :: "'w sched \<Rightarrow> bool" where
  "sched_keeps sch \<longleftrightarrow> (\<forall>i. keeps_ready (fst (sch i)) \<and> keeps_ready (snd (snd (sch i))))"

lemma ready_simps [simp]:
  "nrf_ready (snd (set_mode_locked E m d)) = nrf_ready d"
  "nrf_ready (snd (nrf24_start_rx E d)) = nrf_ready d"
  "nrf_ready (snd (nrf24_configure E c d)) = nrf_ready d"
  "nrf_ready (snd (nrf24_add_rx_msgq q d)) = nrf_ready d"
  by (simp_all add: set_mode_locked_def nrf24_start_rx_def nrf24_set_mode_def nrf24_configure_def nrf24_add_rx_msgq_def
      case_prod_beta Let_def)

lemma ready_send: "keeps_ready other \<Longrightarrow> nrf_ready (snd (nrf24_send E other t b d)) = nrf_ready d"
  by (simp add: nrf24_send_def keeps_ready_def case_prod_beta Let_def)

lemma ready_retry:
  assumes "sched_keeps sch" shows "nrf_ready (snd (send_retry E sch b n r d)) = nrf_ready d"
proof (induction n arbitrary: r d)
  case 0
  then show ?case using assms
    by (subst send_retry.simps) (simp add: case_prod_beta Let_def ready_send sched_keeps_def)
next
  case (Suc n)
  then show ?case using assms
    by (subst send_retry.simps) (simp add: case_prod_beta Let_def ready_send sched_keeps_def keeps_ready_def)
qed

lemma lview_updates [simp]:
  "lview (s\<lparr>h_crypt := c\<rparr>) = lview s" "lview (s\<lparr>scanner := sc\<rparr>) = lview s" "lview (s\<lparr>x_samples := xs\<rparr>) = lview s"
  "lview (s\<lparr>y_samples := xs\<rparr>) = lview s" "lview (s\<lparr>power_samples := xs\<rparr>) = lview s" "lview (s\<lparr>x_degree := x\<rparr>) = lview s"
  "lview (s\<lparr>y_degree := x\<rparr>) = lview s" "lview (s\<lparr>last_activity_time := t\<rparr>) = lview s" "lview (s\<lparr>h_button := b\<rparr>) = lview s"
  "lview (s\<lparr>power_mv := p\<rparr>) = lview s" "lview (s\<lparr>battery := bt\<rparr>) = lview s" "lview (s\<lparr>rf24_ping_msgq := q\<rparr>) = lview s"
  "lview (s\<lparr>rf24_addr := a\<rparr>) = lview s" "lview (s\<lparr>can_sent := l\<rparr>) = lview s" "lview (s\<lparr>h_store := st\<rparr>) = lview s"
  "lview (s\<lparr>rf24_quality := q'\<rparr>) = lview s" "lview (s\<lparr>rssi := r\<rparr>) = lview s" "lview (show_call cl s) = lview s"
  "nrf_ready d = nrf_ready (h_radio s) \<Longrightarrow> lview (s\<lparr>h_radio := d\<rparr>) = lview s"
  by (simp_all add: lview_def show_call_def)

lemma lview_rssi [simp]: "lview (rf24_update_rssi a r s) = lview s"
  by (simp add: rf24_update_rssi_def Let_def)

lemma lview_can_send [simp]: "lview (snd (handler_can_send E f s)) = lview s"
  by (simp add: handler_can_send_def)

lemma lview_data_send [simp]: "sched_keeps sch \<Longrightarrow> lview (snd (rf24_data_send E sch i d s)) = lview s"
  by (simp add: rf24_data_send_def case_prod_beta Let_def ready_retry split: option.split)

lemma lview_state [simp]: "sched_keeps sch \<Longrightarrow> lview (snd (send_handler_state E sch d s)) = lview s"
  by (simp add: send_handler_state_def case_prod_beta Let_def)

lemma lview_heart [simp]: "sched_keeps sch \<Longrightarrow> lview (heart_round E sch s) = lview s"
  by (simp add: heart_round_def)

lemma lview_test [simp]: "sched_keeps sch \<Longrightarrow> lview (rf24_test_handle_rx E sch d s) = lview s"
  by (simp add: rf24_test_handle_rx_def)

lemma lview_parse [simp]: "lview (mod_can_parse_scanner i d s) = lview s"
  by (simp add: mod_can_parse_scanner_def Let_def)

lemma lview_can_rx [simp]: "lview (snd (handler_can_app_rx E f s)) = lview s"
  by (simp add: handler_can_app_rx_def mod_can_rf24_config_def rf24_send_config_resp_def)

lemma lview_rx:
  assumes "sched_keeps sch" "rf24_rx_round E sch s = Some s'"
  shows "lview s' = lview s"
proof -
  have get: "nrf_ready d = nrf_ready (h_radio s)" if "rf24_rx_get (h_radio s) = Some (f, d)" for f d
    using that by (auto simp: rf24_rx_get_def split: option.splits list.splits)
  show ?thesis using assms get
    by (auto simp: rf24_rx_round_def rf24_dispatch_def case_prod_beta Let_def split: if_splits option.splits)
qed

lemma lview_set_addr [simp]: "lview (snd (set_addr_bytes i vs s)) = lview s"
  by (induction i vs s rule: set_addr_bytes.induct) simp_all

lemma lview_addr [simp]: "lview (snd (cmd_rf24_addr E vs s)) = lview s"
proof -
  have "lview (rf24_apply_config E s) = lview s" for s by (simp add: rf24_apply_config_def case_prod_beta Let_def)
  then show ?thesis by (simp add: cmd_rf24_addr_def case_prod_beta Let_def)
qed

lemma lview_adc [simp]: "sched_keeps sch \<Longrightarrow> lview (adc_read_round E sch rs now s) = lview s"
  by (simp add: adc_read_round_def case_prod_beta Let_def)

lemma lview_supply [simp]: "lview (adc_power_round r bat s) = lview s"
  by (simp add: adc_power_round_def Let_def split: option.split)

lemma lview_button [simp]: "sched_keeps sch \<Longrightarrow> lview (btn_display_work_handler E sch pin now s) = lview s"
  by (simp add: btn_display_work_handler_def Let_def)

lemma lview_save [simp]: "lview (persist_save_connect_type E s) = lview s"
  by (simp add: persist_save_connect_type_def)

section \<open>Switching, sleeping and waking\<close>

text \<open>
  The environment: the radio answers and keeps its registers, its supply is switched by a pin that can be
  configured, and the device tree gives a five-byte address.
\<close>

definition h_env_ok :: "'w h_env \<Rightarrow> ('w \<Rightarrow> u8 \<Rightarrow> bytes) \<Rightarrow> ('w \<Rightarrow> bool) \<Rightarrow> bool" where
  "h_env_ok E reg ce \<longleftrightarrow> nrf_chip_law (nrf E) reg ce \<and> radio_ready E \<and> has_power (nrf E)
     \<and> (\<forall>w. power_configure (nrf E) w \<ge> 0) \<and> length (nc_tx_addr (dcfg (nrf E))) = 5"

lemma power_on_ready:
  assumes "h_env_ok E reg ce" shows "nrf_ready (snd (nrf24_power_enable (nrf E) True d))"
proof -
  have p: "\<not> power_configure (nrf E) w < 0" for w using assms by (simp add: h_env_ok_def not_less)
  then have "fst (nrf24_power_apply (nrf E) True w) = 0" for w
    by (simp add: nrf24_power_apply_def)
  moreover have "fst (apply_config_with (nrf E) (dcfg (nrf E)) True w) = 0" for w
    using apply_config_law [of "nrf E" reg ce "dcfg (nrf E)" True w] assms by (simp add: h_env_ok_def)
  ultimately show ?thesis
    using assms by (simp add: nrf24_power_enable_def h_env_ok_def case_prod_beta Let_def)
qed

lemma power_off_ready:
  assumes "h_env_ok E reg ce" shows "\<not> nrf_ready (snd (nrf24_power_enable (nrf E) False d))"
  using assms by (simp add: nrf24_power_enable_def h_env_ok_def case_prod_beta Let_def)

lemma lview_init:
  assumes "h_env_ok E reg ce"
  shows "lview (rf24_init E s) = lview (s\<lparr>h_radio := (h_radio s)\<lparr>nrf_ready := True\<rparr>\<rparr>)"
  using assms power_on_ready [OF assms, of "h_radio s"]
  by (simp add: rf24_init_def h_env_ok_def case_prod_beta Let_def lview_def)

lemma lview_deinit:
  assumes "h_env_ok E reg ce"
  shows "lview (rf24_deinit E s) = lview (s\<lparr>h_radio := (h_radio s)\<lparr>nrf_ready := False\<rparr>\<rparr>)"
  using assms power_off_ready [OF assms, of "h_radio s"]
  by (simp add: rf24_deinit_def h_env_ok_def lview_def)

lemma event_bits:
  "(x AND NOT RF24_EVENT OR CAN_EVENT) AND NOT WAKE_EVENT = ((x AND NOT WAKE_EVENT) AND NOT RF24_EVENT) OR CAN_EVENT"
  "(x AND NOT CAN_EVENT OR RF24_EVENT) AND NOT WAKE_EVENT = ((x AND NOT WAKE_EVENT) AND NOT CAN_EVENT) OR RF24_EVENT"
  "(x AND NOT WAKE_EVENT) AND NOT WAKE_EVENT = x AND NOT WAKE_EVENT"
  "(x OR WAKE_EVENT) AND NOT WAKE_EVENT = x AND NOT WAKE_EVENT"
  "CAN_EVENT AND NOT WAKE_EVENT = CAN_EVENT" "RF24_EVENT AND NOT WAKE_EVENT = RF24_EVENT"
  by (simp_all add: h_event_defs bit.conj_disj_distrib2 and.assoc)

lemma switch_view:
  assumes "h_env_ok E reg ce"
  shows "lview (connect_switch E t s) = lview (s\<lparr>h_radio := (h_radio s)\<lparr>nrf_ready := (connect_type s \<noteq> CAN_TYPE)\<rparr>,
      can_power := (connect_type s = CAN_TYPE),
      h_events := (if connect_type s = CAN_TYPE then h_events s AND NOT RF24_EVENT OR CAN_EVENT
        else h_events s AND NOT CAN_EVENT OR RF24_EVENT)\<rparr>)"
  using lview_init [OF assms] lview_deinit [OF assms]
  by (simp add: connect_switch_def Let_def event_post_def event_clear_def can_power_enable_def) (simp add: lview_def)

lemma switch_on:
  assumes "h_env_ok E reg ce" "connect_type s = CAN_TYPE \<or> connect_type s = RF24_TYPE"
    and "dis_power s" "handler_power s" "h_events s AND NOT WAKE_EVENT \<in> {CAN_EVENT, RF24_EVENT}"
  shows "link_on (connect_switch E t s)" "sleeping (connect_switch E t s) = sleeping s"
    "waking (connect_switch E t s) = waking s"
proof -
  define e where "e = h_events s AND NOT WAKE_EVENT"
  have "e AND NOT RF24_EVENT OR CAN_EVENT = CAN_EVENT" "e AND NOT CAN_EVENT OR RF24_EVENT = RF24_EVENT"
    using assms(5) [folded e_def] by (auto simp: h_event_defs)
  note ev = this [unfolded e_def]
  show "link_on (connect_switch E t s)" unfolding link_on_view [OF switch_view [OF assms(1)]] using assms(2-4)
    by (auto simp: link_on_def link_chosen_def event_bits ev CAN_TYPE_def RF24_TYPE_def)
  show "sleeping (connect_switch E t s) = sleeping s" "waking (connect_switch E t s) = waking s"
    using switch_view [OF assms(1), of t s] by (simp_all add: lview_def)
qed

lemma link_on_switch:
  assumes "h_env_ok E reg ce" "link_on s" "t = CAN_TYPE \<or> t = RF24_TYPE"
  shows "link_on (connect_switch E t' (s\<lparr>connect_type := t\<rparr>))"
    "sleeping (connect_switch E t' (s\<lparr>connect_type := t\<rparr>)) = sleeping s"
    "waking (connect_switch E t' (s\<lparr>connect_type := t\<rparr>)) = waking s"
proof -
  have "h_events s AND NOT WAKE_EVENT \<in> {CAN_EVENT, RF24_EVENT}" "dis_power s" "handler_power s"
    using assms(2) by (auto simp: link_on_def link_chosen_def)
  then show "link_on (connect_switch E t' (s\<lparr>connect_type := t\<rparr>))"
    "sleeping (connect_switch E t' (s\<lparr>connect_type := t\<rparr>)) = sleeping s"
    "waking (connect_switch E t' (s\<lparr>connect_type := t\<rparr>)) = waking s"
    using switch_on [OF assms(1), of "s\<lparr>connect_type := t\<rparr>" t'] assms(3) by simp_all
qed

lemma sleep_begin_on: "link_on s \<Longrightarrow> link_on (sleep_begin s) \<and> sleeping (sleep_begin s) \<and> waking (sleep_begin s) = waking s"
  by (simp add: sleep_begin_def event_clear_def link_on_def link_chosen_def event_bits)

lemma sleep_end_view:
  assumes "h_env_ok E reg ce" "link_on s"
  shows "lview (sleep_end E s) = lview (s\<lparr>can_power := False,
      h_radio := (h_radio s)\<lparr>nrf_ready := False\<rparr>, dis_power := False, handler_power := False\<rparr>)"
  using lview_deinit [OF assms(1)] assms(2)
  by (auto simp: sleep_end_def Let_def can_power_enable_def dis_power_enable_def handler_power_enable_def
      lview_def link_on_def link_chosen_def CAN_TYPE_def RF24_TYPE_def)

lemma sleep_end_ok:
  assumes "h_env_ok E reg ce" "link_on s" "sleeping s" "\<not> waking s"
  shows "link_ok (sleep_end E s)" "sleeping (sleep_end E s)" "connect_type (sleep_end E s) = connect_type s"
  using sleep_end_view [OF assms(1,2)] link_ok_view [OF sleep_end_view [OF assms(1,2)]] assms(2-4)
  by (auto simp: lview_def link_ok_def link_on_def link_chosen_def)

lemma wake_begin_view:
  assumes "h_env_ok E reg ce" "link_chosen s"
  shows "lview (wake_begin E s) = lview (s\<lparr>waking := True, dis_power := True, handler_power := True,
      can_power := (connect_type s = CAN_TYPE \<or> can_power s),
      h_radio := (h_radio s)\<lparr>nrf_ready := (connect_type s \<noteq> CAN_TYPE \<or> nrf_ready (h_radio s))\<rparr>\<rparr>)"
  using lview_init [OF assms(1)] assms(2)
  by (auto simp: wake_begin_def Let_def can_power_enable_def dis_power_enable_def handler_power_enable_def
      lview_def link_chosen_def)

lemma wake_begin_on:
  assumes "h_env_ok E reg ce" "link_ok s" "sleeping s"
  shows "link_on (wake_begin E s)" "sleeping (wake_begin E s)" "waking (wake_begin E s)"
proof -
  have c: "link_chosen s" using assms(2) by (simp add: link_ok_def)
  note v = wake_begin_view [OF assms(1) c]
  show "link_on (wake_begin E s)" unfolding link_on_view [OF v]
    using assms(2,3) by (auto simp: link_ok_def link_on_def link_chosen_def CAN_TYPE_def RF24_TYPE_def)
  show "sleeping (wake_begin E s)" "waking (wake_begin E s)" using v assms(3) by (simp_all add: lview_def)
qed

lemma wake_end_ok: "link_on s \<Longrightarrow> link_ok (wake_end now s) \<and> \<not> sleeping (wake_end now s)"
  by (simp add: wake_end_def Let_def event_post_def show_call_def link_ok_def link_on_def link_chosen_def event_bits)

section \<open>Every sequence of events\<close>

text \<open>
  What the program reacts to: the delayed work of the power key, the button and the link switch, the rounds of
  its threads, frames of the bus, the shell, and whatever the radio's interrupt thread does.
\<close>

datatype 'w h_event = Ev_power int u32 | Ev_woken u32 | Ev_button "'w sched" u8 u32 | Ev_link int | Ev_main u32
  | Ev_slept | Ev_heart "'w sched" | Ev_adc "'w sched" "int option list list" u32 | Ev_supply "int option" battery_status
  | Ev_rx "'w sched" | Ev_can can_frame | Ev_cmd_link u8 | Ev_cmd_sleep | Ev_cmd_addr "int list"
  | Ev_radio "'w nrf24_data \<Rightarrow> 'w nrf24_data"

text \<open>
  The handler goes to sleep and wakes up in two steps, with other events in between: the phase says
  whether one of the two is half done.
\<close>

datatype h_phase = Steady | Going_down | Waking_up

fun h_step :: "'w h_env \<Rightarrow> 'w h_event \<Rightarrow> h_phase \<times> 'w handler \<Rightarrow> (h_phase \<times> 'w handler) option" where
  "h_step E (Ev_power pin now) (ph, s) = Some (if power_key_wakes pin s then (Waking_up, wake_begin E s) else (ph, s))"
| "h_step E (Ev_woken now) (ph, s) = Some (Steady, wake_end now s)"
| "h_step E (Ev_button sch pin now) (ph, s) = Some (ph, btn_display_work_handler E sch pin now s)"
| "h_step E (Ev_link pin) (ph, s) = Some (ph, linksw_work_handler E pin s)"
| "h_step E (Ev_main now) (ph, s) = Some (if idle_too_long now s then (Going_down, sleep_begin s) else (ph, s))"
| "h_step E Ev_slept (ph, s) = Some (Steady, sleep_end E s)"
| "h_step E (Ev_heart sch) (ph, s) = Some (ph, heart_round E sch s)"
| "h_step E (Ev_adc sch rs now) (ph, s) = Some (ph, adc_read_round E sch rs now s)"
| "h_step E (Ev_supply r bat) (ph, s) = Some (ph, adc_power_round r bat s)"
| "h_step E (Ev_rx sch) (ph, s) = map_option (Pair ph) (rf24_rx_round E sch s)"
| "h_step E (Ev_can f) (ph, s) = Some (ph, snd (handler_can_app_rx E f s))"
| "h_step E (Ev_cmd_link t) (ph, s) = Some (ph, snd (cmd_link E t s))"
| "h_step E Ev_cmd_sleep (ph, s) = Some (if sleeping s then (ph, s) else (Going_down, sleep_begin s))"
| "h_step E (Ev_cmd_addr vs) (ph, s) = Some (ph, snd (cmd_rf24_addr E vs s))"
| "h_step E (Ev_radio g) (ph, s) = Some (ph, s\<lparr>h_radio := g (h_radio s)\<rparr>)"

text \<open>The two halves together are the whole operations.\<close>

lemma h_step_whole:
  "sleep_work_handler E pin now s = (if power_key_wakes pin s then wake_end now (wake_begin E s) else s)"
  "handler_main_round E now s = (if idle_too_long now s then sleep_end E (sleep_begin s) else s)"
  "snd (cmd_sleep E s) = (if sleeping s then s else sleep_end E (sleep_begin s))"
  by (simp_all add: sleep_work_handler_def system_wake_def handler_main_round_def system_sleep_def cmd_sleep_def)

text \<open>
  What the events keep to.  Other threads do not switch the radio on or off in the middle of a send.  While
  the handler wakes up the work queue is busy, so no other work runs.  The power key is not pressed
  while the handler is going down (what happens then is \<open>wake_during_sleep\<close>).  Once it is all asleep the
  clocks are stopped: neither the shell nor the work of the link switch, which was queued 20 ms
  ahead, is there any more (what it would do is \<open>link_switch_while_asleep\<close>); and the shell knows two links.
\<close>

fun h_allowed :: "'w h_event \<Rightarrow> h_phase \<Rightarrow> 'w handler \<Rightarrow> bool" where
  "h_allowed (Ev_power pin now) ph s = (ph = Steady)"
| "h_allowed (Ev_woken now) ph s = (ph = Waking_up)"
| "h_allowed Ev_slept ph s = (ph = Going_down)"
| "h_allowed (Ev_button sch pin now) ph s = (sched_keeps sch \<and> ph \<noteq> Waking_up)"
| "h_allowed (Ev_heart sch) ph s = sched_keeps sch"
| "h_allowed (Ev_adc sch rs now) ph s = sched_keeps sch"
| "h_allowed (Ev_rx sch) ph s = sched_keeps sch"
| "h_allowed (Ev_radio g) ph s = keeps_ready g"
| "h_allowed (Ev_link pin) ph s = (ph \<noteq> Waking_up \<and> \<not> (ph = Steady \<and> sleeping s))"
| "h_allowed (Ev_cmd_link t) ph s = (\<not> (ph = Steady \<and> sleeping s) \<and> (t = CAN_TYPE \<or> t = RF24_TYPE))"
| "h_allowed e ph s = True"

inductive h_reach :: "'w h_env \<Rightarrow> h_phase \<Rightarrow> 'w handler \<Rightarrow> bool" for E where
  start: "\<lbrakk>\<not> sleeping s0; \<not> waking s0; fst (power_init rcs uid s0) = 0; s1 = snd (power_init rcs uid s0);
      hw = (\<lambda>s. snd (gpio_init ready cfgs lrc b (snd (settings_backend_init brc (snd (handler_can_init dev s))))))\<rbrakk>
    \<Longrightarrow> h_reach E Steady (handler_main_start E hw now s1)"
| event: "h_reach E ph s \<Longrightarrow> h_allowed e ph s \<Longrightarrow> h_step E e (ph, s) = Some (ph', s') \<Longrightarrow> h_reach E ph' s'"

definition link_phase :: "h_phase \<Rightarrow> 'w handler \<Rightarrow> bool" where
  "link_phase ph s \<longleftrightarrow> (case ph of Steady \<Rightarrow> link_ok s
     | Going_down \<Rightarrow> sleeping s \<and> \<not> waking s \<and> link_on s
     | Waking_up \<Rightarrow> sleeping s \<and> waking s \<and> link_on s)"

lemma link_phase_view: "lview s = lview t \<Longrightarrow> link_phase ph s = link_phase ph t"
proof -
  assume v: "lview s = lview t"
  then have "sleeping s = sleeping t" "waking s = waking t" by (simp_all add: lview_def)
  then show ?thesis using link_ok_view [OF v] link_on_view [OF v] by (simp add: link_phase_def split: h_phase.split)
qed

text \<open>Loading the settings changes the chosen link only, and only to one of the two.\<close>

definition link_loaded :: "'w handler \<Rightarrow> 'w handler \<Rightarrow> bool" where
  "link_loaded s t \<longleftrightarrow> (connect_type t = CAN_TYPE \<or> connect_type t = RF24_TYPE)
     \<and> lview (t\<lparr>connect_type := 0\<rparr>) = lview (s\<lparr>connect_type := 0\<rparr>)"

lemma link_loaded_set: "link_loaded s t \<Longrightarrow> link_loaded s (snd (persist_set E n v t))"
  by (auto simp: link_loaded_def persist_set_def case_prod_beta Let_def lview_def)

lemma settings_load_view:
  assumes "connect_type s = CAN_TYPE \<or> connect_type s = RF24_TYPE"
  shows "link_loaded s (handler_settings_load E s)"
  unfolding handler_settings_load_def store_load_def
  by (rule fold_invariant [where Q = "\<lambda>e. True"]) (use assms in \<open>auto simp: link_loaded_def [of s s] link_loaded_set split: option.split\<close>)

lemma link_ok_start:
  assumes "h_env_ok E reg ce" "\<not> sleeping s0" "\<not> waking s0" "fst (power_init rcs uid s0) = 0"
    and "s1 = snd (power_init rcs uid s0)"
    and hw: "hw = (\<lambda>s. snd (gpio_init ready cfgs lrc b (snd (settings_backend_init brc (snd (handler_can_init dev s))))))"
  shows "link_ok (handler_main_start E hw now s1) \<and> \<not> sleeping (handler_main_start E hw now s1)"
proof -
  have s1: "connect_type s1 = CAN_TYPE" "\<not> sleeping s1" "\<not> waking s1" "dis_power s1" "handler_power s1" "h_events s1 = CAN_EVENT"
    using assms(2-5) by (auto simp: power_init_def event_post_def dis_power_enable_def can_power_enable_def
        handler_power_enable_def split: if_splits)
  define s where "s = hw (s1\<lparr>last_activity_time := now\<rparr>)"
  have "lview s = lview s1"
    by (simp add: s_def hw gpio_init_def settings_backend_init_def handler_can_init_def lview_def)
  moreover have "link_loaded s (handler_settings_load E s)"
    using calculation s1(1) by (intro settings_load_view) (simp add: lview_def)
  ultimately have l: "link_loaded s1 (handler_settings_load E s)"
    by (simp add: link_loaded_def lview_def)
  let ?t = "handler_settings_load E s"
  have t: "connect_type ?t = CAN_TYPE \<or> connect_type ?t = RF24_TYPE" "dis_power ?t" "handler_power ?t"
    "h_events ?t AND NOT WAKE_EVENT \<in> {CAN_EVENT, RF24_EVENT}" "\<not> sleeping ?t" "\<not> waking ?t"
    using s1 l by (auto simp: link_loaded_def lview_def event_bits)
  have "link_ok (connect_switch E (connect_type ?t) ?t) \<and> \<not> sleeping (connect_switch E (connect_type ?t) ?t)"
    using switch_on [OF assms(1) t(1-4), of "connect_type ?t"] t(5,6)
    by (simp add: link_ok_def) (simp add: link_on_def)
  then show ?thesis
    unfolding handler_main_start_def s_def [symmetric] Let_def by simp
qed

lemma link_phase_on: "link_phase ph s \<Longrightarrow> \<not> (ph = Steady \<and> sleeping s) \<Longrightarrow> link_on s"
  by (auto simp: link_phase_def link_ok_def split: h_phase.splits)

lemma link_phase_keep:
  "link_phase ph s \<Longrightarrow> link_on s \<Longrightarrow> link_on t \<Longrightarrow> sleeping t = sleeping s \<Longrightarrow> waking t = waking s \<Longrightarrow> link_phase ph t"
  by (auto simp: link_phase_def link_ok_def link_on_def split: h_phase.splits if_splits)

lemma link_phase_switch:
  assumes "h_env_ok E reg ce" "link_phase ph s" "\<not> (ph = Steady \<and> sleeping s)" "t = CAN_TYPE \<or> t = RF24_TYPE"
  shows "link_phase ph (connect_switch E t' (s\<lparr>connect_type := t\<rparr>))"
  using link_phase_keep [OF assms(2) link_phase_on [OF assms(2,3)]] link_on_switch [OF assms(1) link_phase_on [OF assms(2,3)] assms(4)]
  by blast

lemma link_phase_down:
  assumes "link_phase ph s" "\<not> sleeping s"
  shows "link_phase Going_down (sleep_begin s)"
proof -
  have "link_on s" "\<not> waking s" using assms by (auto simp: link_phase_def link_ok_def split: h_phase.splits)
  then show ?thesis using sleep_begin_on [of s] by (simp add: link_phase_def)
qed

lemma link_phase_step:
  assumes "h_env_ok E reg ce" "link_phase ph s" "h_allowed e ph s" "h_step E e (ph, s) = Some (ph', s')"
  shows "link_phase ph' s'"
proof (cases e)
  case (Ev_rx sch)
  then show ?thesis using assms(2-4) lview_rx [of sch E s s'] link_phase_view [of s' s] by auto
next
  case (Ev_radio g)
  then show ?thesis using assms(2-4) link_phase_view [of s' s] by (auto simp: keeps_ready_def lview_def)
next
  case (Ev_link pin)
  then show ?thesis using assms link_phase_switch [OF assms(1,2)]
    by (auto simp: linksw_work_handler_def Let_def CAN_TYPE_def RF24_TYPE_def)
next
  case (Ev_cmd_link t)
  then show ?thesis using assms link_phase_switch [OF assms(1,2)] by (auto simp: cmd_link_def)
next
  case (Ev_power pin now)
  then show ?thesis using assms wake_begin_on [OF assms(1), of s]
    by (auto simp: power_key_wakes_def link_phase_def split: if_splits)
next
  case (Ev_woken now)
  then show ?thesis using assms wake_end_ok [of s now] by (auto simp: link_phase_def)
next
  case (Ev_main now)
  then show ?thesis using assms link_phase_down [OF assms(2)] by (auto simp: idle_too_long_def split: if_splits)
next
  case Ev_slept
  then show ?thesis using assms sleep_end_ok [OF assms(1), of s] by (auto simp: link_phase_def)
next
  case Ev_cmd_sleep
  then show ?thesis using assms link_phase_down [OF assms(2)] by (auto split: if_splits)
qed (use assms(2-4) link_phase_view [of s' s] in auto)

lemma h_reach_link_ok: "h_reach E ph s \<Longrightarrow> h_env_ok E reg ce \<Longrightarrow> link_phase ph s"
proof (induction rule: h_reach.induct)
  case (start s0 rcs uid s1 hw ready cfgs lrc b brc dev now)
  then show ?case using link_ok_start unfolding link_phase_def h_phase.case by blast
next
  case (event ph s e ph' s')
  then show ?case using link_phase_step by blast
qed

end
