(* ===== verification/HandlerTheorems.thy ===== *)
theory HandlerTheorems imports HandlerLink begin

text \<open>
  Properties of the joystick handler: the angles it reports, its link state over all events, its stored
  parameters, and two errors of the code.
\<close>

section \<open>A handler in memory\<close>

definition demo_h_env :: "nrf_chip h_env" where
  "demo_h_env = \<lparr>nrf = chip_env\<lparr>has_power := True\<rparr>, crypt_on = True, radio_ready = True, can_send_rc = \<lambda>f. 0, save_rc = 0,
     tx_junk = \<lparr>acked = True, elapsed_ms = 0, retransmits = 0\<rparr>, next_name = name_next_std\<rparr>"

definition demo_handler :: "nrf_chip handler" where
  "demo_handler = \<lparr>x_degree = 0, y_degree = 0, h_button = 0, power_mv = 0, connect_type = 0, report_period = 0,
     battery = BATTERY_STATUS_UNKNOWN, scanner = \<lparr>overbreak_valid = 0, overbreak_value = 0, laser_valid = 0, laser_distance = 0,
       coord_xy_valid = 0, coord_x = 0, coord_y = 0, coord_z_valid = 0, coord_z = 0\<rparr>, rssi = 0, sleeping = False, h_events = 0,
     rf24_addr = [], last_activity_time = 0, waking = False, rf24_quality = RF24_QUAL_INIT, h_crypt = crypt_init,
     h_radio = nrf24_data_zero (chip_zero []), has_can_dev = False, can_sent = [], can_power = False, dis_power = False,
     handler_power = False, shown = [], h_store = [], ping_wait_seq = 0, rf24_ping_msgq = [],
     x_samples = replicate 10 0, y_samples = replicate 10 0, power_samples = []\<rparr>"




section \<open>Angles\<close>

text \<open>
  What a round of the joystick thread reports: the angles are whole degrees (multiples of ten tenths)
  between -20 and +20, less than a degree away from the average of the samples without the two extremes (the
  middle eight of the sorted ten), zero inside the dead zone; the report carries them so that the receiver
  decodes the same numbers; and the samples stay within range whatever the converter returns.
\<close>
theorem adc_reports_angles:
  assumes "samples_ok (x_samples s)" "samples_ok (y_samples s)" "\<not> sleeping s" "s' = adc_read_round E sch readings now s"
  shows "samples_ok (x_samples s') \<and> samples_ok (y_samples s')
    \<and> list_all (\<lambda>(deg, xs). let avg = sum_list (butlast (tl (sort xs))) sdiv 8 in
        10 dvd deg \<and> \<bar>deg\<bar> \<le> 200 \<and> \<bar>deg - avg\<bar> < 10 \<and> (\<bar>avg\<bar> < 10) = (deg = 0))
      [(x_degree s', x_samples s'), (y_degree s', y_samples s')]
    \<and> sint (be16_at (state_report s')) = x_degree s' \<and> sint (be16_at (drop 2 (state_report s'))) = y_degree s'"
proof -
  obtain xs ys where r: "sample_rounds 0 (take XY_SAMPLE_COUNT readings) (x_samples s, y_samples s) = (xs, ys)" by fastforce
  have ok: "samples_ok xs" "samples_ok ys"
    using samples_ok_rounds [of "(x_samples s, y_samples s)" 0 "take XY_SAMPLE_COUNT readings"] assms(1,2) by (simp_all add: r)
  have keep: "x_samples (snd (send_handler_state E sch d t)) = x_samples t" "y_samples (snd (send_handler_state E sch d t)) = y_samples t"
    "x_degree (snd (send_handler_state E sch d t)) = x_degree t" "y_degree (snd (send_handler_state E sch d t)) = y_degree t" for d t
    by (simp_all add: send_handler_state_def handler_can_send_def rf24_data_send_def rf24_update_rssi_def show_call_def
        case_prod_beta Let_def split: option.split)
  have s': "x_samples s' = xs" "y_samples s' = ys" "x_degree s' = quantise (trim_avg xs)" "y_degree s' = quantise (trim_avg ys)"
    using assms(3) by (auto simp: assms(4) adc_read_round_def r keep Let_def)
  have avg: "trim_avg zs = sum_list (butlast (tl (sort zs))) sdiv 8" if "samples_ok zs" for zs
    using trim_avg_sorted [of zs] that by (simp add: samples_ok_def XY_SAMPLE_COUNT_def)
  have zero: "(\<bar>a\<bar> < 10) = (quantise a = 0)" for a
    using quantise_spec(3,4) [of a] by auto
  have deg: "10 dvd quantise a \<and> \<bar>quantise a - a\<bar> < 10 \<and> (\<bar>a\<bar> < 10) = (quantise a = 0)" for a
    using quantise_spec(2,4) zero by simp
  have dec: "sint (of_int v :: u16) = v" if "\<bar>v\<bar> \<le> 200" for v
    using that by (auto simp: signed_of_int signed_take_bit_int_eq_self_iff)
  have d2: "drop 2 (put_be16 v @ r) = r" for v :: u16 and r by simp
  show ?thesis
    using ok degree_bounds [OF ok(1)] degree_bounds [OF ok(2)] deg [of "trim_avg xs"] deg [of "trim_avg ys"]
    by (simp add: s' Let_def dec state_report_def del: zero) (simp add: avg)
qed

theorem adc_reports_angles_witness:
  "let s' = adc_read_round demo_h_env (\<lambda>i. (id, 0, id)) (replicate 10 [Some 1500, Some 2700]) 0 (demo_handler\<lparr>connect_type := CAN_TYPE\<rparr>) in
   x_degree s' = 0 \<and> y_degree s' = 200 \<and> sint (be16_at (drop 2 (state_report s'))) = 200"
proof -
  let ?s = "demo_handler\<lparr>connect_type := CAN_TYPE\<rparr>"
  let ?s' = "adc_read_round demo_h_env (\<lambda>i. (id, 0, id)) (replicate 10 [Some 1500, Some 2700]) 0 ?s"
  have "samples_ok (replicate 10 0)" by (simp add: samples_ok_def XY_SAMPLE_COUNT_def list_all_iff)
  then have "sint (be16_at (drop 2 (state_report ?s'))) = y_degree ?s'"
    using adc_reports_angles [of ?s ?s' demo_h_env "\<lambda>i. (id, 0, id)" "replicate 10 [Some 1500, Some 2700]" 0]
    by (simp add: demo_handler_def)
  moreover have "x_degree ?s' = 0 \<and> y_degree ?s' = 200" by code_simp
  ultimately show ?thesis by (simp add: Let_def)
qed

section \<open>The link\<close>



text \<open>
  The work of the link switch does not look whether the handler sleeps: when it runs after the handler has gone
  to sleep, the new link is powered up behind the switched-off handler.
\<close>
theorem link_switch_while_asleep:
  assumes "h_reach E Steady s" "h_env_ok E reg ce" "sleeping s" "s' = linksw_work_handler E 0 s"
  shows "sleeping s' \<and> (can_power s' \<or> nrf_ready (h_radio s'))"
proof -
  let ?t = "s\<lparr>connect_type := (if connect_type s = CAN_TYPE then RF24_TYPE else CAN_TYPE)\<rparr>"
  have "s' = connect_switch E (connect_type ?t) ?t" by (simp add: assms(4) linksw_work_handler_def Let_def)
  then have "lview s' = lview (connect_switch E (connect_type ?t) ?t)" by simp
  with switch_view [OF assms(2), of "connect_type ?t" ?t] assms(3) show ?thesis by (simp add: lview_def)
qed

text \<open>
  The power key pressed while the handler is going to sleep: the key finds it sleeping and starts to wake it
  up, then the second half of going to sleep switches everything off, and the second half of waking up ends
  with a handler that counts as awake and has its link, display and joystick off.
\<close>
theorem wake_during_sleep:
  assumes "h_reach E Steady s" "h_env_ok E reg ce" "\<not> sleeping s"
    and "s' = wake_end now (sleep_end E (wake_begin E (sleep_begin s)))"
  shows "power_key_wakes 0 (sleep_begin s) \<and> \<not> sleeping s' \<and> \<not> can_power s' \<and> \<not> dis_power s' \<and> \<not> handler_power s'
    \<and> \<not> nrf_ready (h_radio s')"
proof -
  have "link_ok s" using h_reach_link_ok [OF assms(1,2)] by (simp add: link_phase_def)
  then have s: "link_on s" "\<not> waking s" using assms(3) by (simp_all add: link_ok_def)
  let ?b = "sleep_begin s"
  have b: "link_on ?b" "sleeping ?b" "\<not> waking ?b" using sleep_begin_on [OF s(1)] s(2) by simp_all
  have v: "lview (wake_begin E ?b) = lview (?b\<lparr>waking := True\<rparr>)"
    using wake_begin_view [OF assms(2), of ?b] b(1) by (auto simp: link_on_def lview_def link_chosen_def)
  have "link_on (?b\<lparr>waking := True\<rparr>)" using b(1) by (simp add: link_on_def link_chosen_def)
  then have "link_on (wake_begin E ?b)" by (simp only: link_on_view [OF v])
  from sleep_end_view [OF assms(2) this] b show ?thesis
    by (auto simp: assms(4) power_key_wakes_def wake_end_def Let_def event_post_def show_call_def lview_def)
qed

section \<open>Link quality\<close>

text \<open>
  The quality stays within its scale over any sequence of results, but once it has fallen to 27 it never shows
  the best level again, however good the link becomes: the average settles at 25.
\<close>
theorem quality_never_recovers:
  assumes "0 \<le> q" "q \<le> 27"
  shows "0 \<le> fold (\<lambda>r. quality_step (fst r) (snd r)) rs q \<and> quality_level (fold (\<lambda>r. quality_step (fst r) (snd r)) rs q) < 4"
proof -
  have "0 \<le> fold (\<lambda>r. quality_step (fst r) (snd r)) rs q \<and> fold (\<lambda>r. quality_step (fst r) (snd r)) rs q \<le> 27"
    using assms by (induction rs arbitrary: q) (simp_all add: quality_bounds(1) [of _ 27] quality_stuck)
  then show ?thesis by (simp add: quality_level_def)
qed

theorem quality_never_recovers_witness:
  "quality_level (fold (\<lambda>r. quality_step (fst r) (snd r)) (replicate 100 (True, 0)) 27) < 4"
  using quality_never_recovers [of 27 "replicate 100 (True, 0)"] by simp

section \<open>Parameters\<close>

text \<open>
  Saving and restarting restores the parameters: after both are saved, loading the store gives any other
  state the chosen link and the radio address.
\<close>
theorem handler_settings_roundtrip:
  assumes "name_next_law (next_name E)" "save_rc E = 0" "connect_type s = CAN_TYPE \<or> connect_type s = RF24_TYPE"
    and "length (rf24_addr s) = RF24_ADDR_LEN" "distinct (map fst (h_store s))"
    and "fst ` set (h_store s) \<subseteq> {''persist/connect_type'', ''persist/rf24_addr'', ''persist/rf24_channel''}"
    and "h_store t = h_store (persist_save_rf24_config E (persist_save_connect_type E s))"
  shows "connect_type (handler_settings_load E t) = connect_type s \<and> rf24_addr (handler_settings_load E t) = rf24_addr s"
proof -
  let ?kvs = "[(''persist/connect_type'', [connect_type s]), (''persist/rf24_addr'', rf24_addr s)]"
  let ?st = "store_put ?kvs (h_store s)"
  have st: "h_store t = ?st"
    using assms(2,7) by (simp add: persist_save_rf24_config_def persist_save_connect_type_def store_put_def)
  have d: "distinct (map fst ?st)" by (rule store_put_distinct [OF assms(5)])
  have dom: "fst ` set ?st \<subseteq> {''persist/connect_type'', ''persist/rf24_addr'', ''persist/rf24_channel''}"
    using assms(6) by (simp add: store_put_def dom_update)
  have get: "map_of ?st (''persist/'' @ ''connect_type'') = Some [connect_type s]"
    "map_of ?st (''persist/'' @ ''rf24_addr'') = Some (rf24_addr s)"
    by (simp_all add: store_put_get)
  have name: "n \<in> {''connect_type'', ''rf24_addr'', ''rf24_channel''}" if "''persist/'' @ n \<in> fst ` set ?st" for n
    using that dom by auto
  have law: "snd (next_name E n) = None" "fst (next_name E n) = length n"
    if "n \<in> {''connect_type'', ''rf24_addr'', ''rf24_channel''}" for n
    using that assms(1) by (auto simp: name_next_law_def)
  have ps: "snd (persist_set E ''connect_type'' v x) = (if length v = 1 \<and> (hd v = CAN_TYPE \<or> hd v = RF24_TYPE) then x\<lparr>connect_type := hd v\<rparr> else x)"
    "snd (persist_set E ''rf24_addr'' v x) = (if length v = RF24_ADDR_LEN then x\<lparr>rf24_addr := v\<rparr> else x)"
    "snd (persist_set E ''rf24_channel'' v x) = x" for v x
    using law by (simp_all add: persist_set_def case_prod_beta Let_def NAME_STARTS_def)
  have other: "connect_type (snd (persist_set E n v x)) = connect_type x"
    if "''persist/'' @ n \<in> fst ` set ?st" "n \<noteq> ''connect_type''" for n v x
    using name [OF that(1)] that(2) by (elim insertE emptyE) (simp_all add: ps)
  have other': "rf24_addr (snd (persist_set E n v x)) = rf24_addr x"
    if "''persist/'' @ n \<in> fst ` set ?st" "n \<noteq> ''rf24_addr''" for n v x
    using name [OF that(1)] that(2) by (elim insertE emptyE) (simp_all add: ps)
  show ?thesis
    unfolding handler_settings_load_def st
    using store_load_get [OF d get(1), of connect_type "\<lambda>n v s. snd (persist_set E n v s)" "connect_type s" t, OF other]
      store_load_get [OF d get(2), of rf24_addr "\<lambda>n v s. snd (persist_set E n v s)" "rf24_addr s" t, OF other'] assms(3,4)
    by (simp add: ps)
qed

definition demo_saved :: "nrf_chip handler" where
  "demo_saved = demo_handler\<lparr>connect_type := RF24_TYPE, rf24_addr := [1, 2, 3, 4, 5]\<rparr>"

theorem handler_settings_roundtrip_witness:
  "let t = demo_handler\<lparr>h_store := h_store (persist_save_rf24_config demo_h_env (persist_save_connect_type demo_h_env demo_saved))\<rparr> in
   connect_type (handler_settings_load demo_h_env t) = RF24_TYPE \<and> rf24_addr (handler_settings_load demo_h_env t) = [1, 2, 3, 4, 5]"
proof -
  let ?t = "demo_handler\<lparr>h_store := h_store (persist_save_rf24_config demo_h_env (persist_save_connect_type demo_h_env demo_saved))\<rparr>"
  have "connect_type (handler_settings_load demo_h_env ?t) = connect_type demo_saved \<and>
      rf24_addr (handler_settings_load demo_h_env ?t) = rf24_addr demo_saved"
    by (rule handler_settings_roundtrip)
      (simp_all add: demo_h_env_def demo_saved_def demo_handler_def name_next_std_law RF24_ADDR_LEN_def)
  then show ?thesis by (simp add: demo_saved_def)
qed

end
