(* ===== verification/Gateway.thy ===== *)
theory Gateway imports RfLink SettingsApi begin

text \<open>
  The radio gateway \<open>applications/n2e-gw\<close>: between the radio link of the handler and UDP.  Its parameters and
  their persistence (\<open>persist.c\<close>, \<open>config.c\<close>), the lamps (\<open>led.c\<close>), the radio side (\<open>rf24.c\<close>, \<open>rf24_shell.c\<close>), the UDP side with the
  configuration commands (\<open>udp.c\<close>), start and network (\<open>main.c\<close>), the setting commands of the shell (\<open>net_shell.c\<close>).
  IP addresses in text are byte strings without the NUL; \<open>inet_pton\<close> and \<open>inet_ntop\<close> are parameters.
\<close>

section \<open>State (\<open>n2e_gw.h\<close>)\<close>

definition N2E_GW_DEFAULT_IP :: bytes where
  "N2E_GW_DEFAULT_IP = map (\<lambda>c. of_nat (of_char c)) ''192.168.11.100''"
definition N2E_GW_DATA_PORT_DEFAULT :: u16 where "N2E_GW_DATA_PORT_DEFAULT = 9600"
definition GW_USE_DHCP_DEFAULT :: u8 where "GW_USE_DHCP_DEFAULT = 0"
definition N2E_GW_HOST_DEFAULT_IP :: bytes where
  "N2E_GW_HOST_DEFAULT_IP = map (\<lambda>c. of_nat (of_char c)) ''192.168.11.150''"
definition N2E_GW_HOST_PORT_DEFAULT :: u16 where "N2E_GW_HOST_PORT_DEFAULT = 9602"
definition GW_TX_FRAME_MAX :: nat where "GW_TX_FRAME_MAX = 32"

record 'w gw_env =
  g_nrf :: "'w nrf_env"
  g_crypt :: bool
  g_radio_ready :: bool
  inet_pton :: "bytes \<Rightarrow> bytes option"
  inet_ntop :: "bytes \<Rightarrow> bytes"
  config_port :: u16
  g_name_next :: name_next
  g_tx_junk :: nrf24_tx_result

record 'w gateway =
  gw_rf24_addr :: bytes
  gw_ip_addr :: bytes
  gw_data_port :: u16
  gw_use_dhcp :: u8
  gw_host_ip :: bytes
  gw_host_port :: u16
  gw_running :: bool
  gw_net_link_up :: bool
  gw_dhcp_started :: bool
  gw_radio :: "'w nrf24_data"
  gw_cipher :: crypt_st
  gw_tx_msgq :: "bytes list"
  data_sock :: bool
  udp_sent :: "(bytes \<times> u16 \<times> bytes) list"
  cfg_replies :: "(u8 \<times> bytes) list"
  gw_store :: store
  gw_rebooted :: bool
  led_rf24 :: bool
  led_err :: bool
  led_sys :: bool
  error_latched :: bool
  blinking :: bool
  rf24_last_activity :: u32
  gw_ping_wait_seq :: u8
  gw_ping_msgq :: "u8 list"

section \<open>Lamps (\<open>led.c\<close>)\<close>

definition RF24_ACTIVITY_TIMEOUT_MS :: u32 where "RF24_ACTIVITY_TIMEOUT_MS = 400"

definition gw_led_init :: "'w gateway \<Rightarrow> 'w gateway" where
  "gw_led_init s = s\<lparr>led_rf24 := True, led_err := True, led_sys := False, blinking := False\<rparr>"

definition err_selftest_work_handler :: "'w gateway \<Rightarrow> 'w gateway" where
  "err_selftest_work_handler s = s\<lparr>led_err := False\<rparr>"

definition gw_led_sys_on :: "'w gateway \<Rightarrow> 'w gateway" where
  "gw_led_sys_on s = s\<lparr>led_sys := True\<rparr>"

definition gw_led_error_on :: "'w gateway \<Rightarrow> 'w gateway" where
  "gw_led_error_on s = s\<lparr>error_latched := True, led_err := True\<rparr>"

text \<open>Half a blinking period later: whether the work is scheduled again is the first result.\<close>

definition led_blink_work_handler :: "u32 \<Rightarrow> 'w gateway \<Rightarrow> bool \<times> 'w gateway" where
  "led_blink_work_handler now s =
     (if now - rf24_last_activity s < RF24_ACTIVITY_TIMEOUT_MS then (True, s\<lparr>led_rf24 := \<not> led_rf24 s\<rparr>)
      else (False, s\<lparr>led_rf24 := True, blinking := False\<rparr>))"

definition gw_led_rf24_activity :: "u32 \<Rightarrow> 'w gateway \<Rightarrow> 'w gateway" where
  "gw_led_rf24_activity now s =
     (let s = s\<lparr>rf24_last_activity := now\<rparr> in if \<not> blinking s then s\<lparr>blinking := True, led_rf24 := False\<rparr> else s)"

text \<open>The fatal error handler lights the lamp for a smashed stack or a CPU exception.\<close>

definition gw_fatal_error :: "bool \<Rightarrow> 'w gateway \<Rightarrow> 'w gateway" where
  "gw_fatal_error stack_or_cpu s = (if stack_or_cpu then gw_led_error_on s else s)"

section \<open>Persistence (\<open>persist.c\<close>)\<close>

definition c_string :: "bytes \<Rightarrow> bytes" where "c_string b = takeWhile (\<lambda>x. x \<noteq> 0) b"

definition gw_persist_set :: "'w gw_env \<Rightarrow> string \<Rightarrow> bytes \<Rightarrow> 'w gateway \<Rightarrow> int \<times> 'w gateway" where
  "gw_persist_set E n v s =
     (let (l, rest) = g_name_next E n; is_key = (\<lambda>k. rest = None \<and> NAME_STARTS n l k) in
      if is_key ''rf24_addr'' then (0, if length v = RF24_ADDR_LEN then s\<lparr>gw_rf24_addr := v\<rparr> else s)
      else if is_key ''ip_addr'' then (0, if length v < 16 then s\<lparr>gw_ip_addr := c_string v\<rparr> else s)
      else if is_key ''data_port'' then (0, if length v = 2 then s\<lparr>gw_data_port := get_le16 v\<rparr> else s)
      else if is_key ''use_dhcp'' then (0, if length v = 1 then s\<lparr>gw_use_dhcp := hd v\<rparr> else s)
      else if is_key ''host_ip'' then (0, if length v < 16 then s\<lparr>gw_host_ip := c_string v\<rparr> else s)
      else if is_key ''host_port'' then (0, if length v = 2 then s\<lparr>gw_host_port := get_le16 v\<rparr> else s)
      else (- ENOENT, s))"

definition network_entries :: "'w gateway \<Rightarrow> (string \<times> bytes) list" where
  "network_entries s = [(''gw/ip_addr'', gw_ip_addr s), (''gw/data_port'', put_le16 (gw_data_port s)),
     (''gw/use_dhcp'', [gw_use_dhcp s]), (''gw/host_ip'', gw_host_ip s), (''gw/host_port'', put_le16 (gw_host_port s))]"

definition gw_persist_export :: "'w gateway \<Rightarrow> (string \<times> bytes) list" where
  "gw_persist_export s = (''gw/rf24_addr'', gw_rf24_addr s) # network_entries s"

definition gw_save_rf24_config :: "'w gateway \<Rightarrow> 'w gateway" where
  "gw_save_rf24_config s = s\<lparr>gw_store := store_put [(''gw/rf24_addr'', gw_rf24_addr s)] (gw_store s)\<rparr>"

definition gw_save_network_config :: "'w gateway \<Rightarrow> 'w gateway" where
  "gw_save_network_config s = s\<lparr>gw_store := store_put (network_entries s) (gw_store s)\<rparr>"

definition gw_config_save :: "'w gateway \<Rightarrow> 'w gateway" where
  "gw_config_save s = gw_save_network_config (gw_save_rf24_config s)"

definition gw_config_load :: "'w gw_env \<Rightarrow> 'w gateway \<Rightarrow> 'w gateway" where
  "gw_config_load E s = store_load ''gw/'' (\<lambda>n v s. snd (gw_persist_set E n v s)) (gw_store s) s"

definition gw_settings_init :: "int \<Rightarrow> 'w gateway \<Rightarrow> int \<times> 'w gateway" where
  "gw_settings_init rc s =
     (rc, if rc \<noteq> 0 then s else s\<lparr>gw_store :=
        AList.delete ''gw/rf24_channel'' (AList.delete ''gw/gateway'' (AList.delete ''gw/netmask'' (gw_store s)))\<rparr>)"

section \<open>The radio side (\<open>rf24.c\<close>)\<close>

definition gw_rf24_set_config :: "'w gw_env \<Rightarrow> bytes \<Rightarrow> 'w gateway \<Rightarrow> 'w gateway" where
  "gw_rf24_set_config E addr s =
     (let s = s\<lparr>gw_rf24_addr := take RF24_ADDR_LEN addr\<rparr>;
          s = (if g_crypt E then s\<lparr>gw_cipher := nrf24_crypt_set_key addr (gw_cipher s)\<rparr> else s) in
      if \<not> g_radio_ready E then s
      else let (rc, d) = nrf24_configure (g_nrf E) (Some (rf_link_cfg (gw_rf24_addr s))) (gw_radio s);
          (rc, d) = nrf24_start_rx (g_nrf E) d in s\<lparr>gw_radio := d\<rparr>)"

definition gw_rf24_init :: "'w gw_env \<Rightarrow> 'w gateway \<Rightarrow> 'w gateway" where
  "gw_rf24_init E s =
     (if \<not> g_radio_ready E then gw_led_error_on s
      else let s = gw_rf24_set_config E (gw_rf24_addr s) s;
          (rc, d) = nrf24_add_rx_msgq (rf24_rx_queue (gw_radio s)) (gw_radio s);
          (ret, d) = nrf24_start_rx (g_nrf E) d; s = s\<lparr>gw_radio := d\<rparr> in
        if ret \<noteq> 0 then gw_led_error_on s else s)"

definition gw_rf24_send :: "'w gw_env \<Rightarrow> 'w sched \<Rightarrow> u32 \<Rightarrow> u16 \<Rightarrow> bytes \<Rightarrow> 'w gateway \<Rightarrow> bool \<times> 'w gateway" where
  "gw_rf24_send E sch now can_id data s =
     (if \<not> g_radio_ready E then (False, s)
      else if length data > rf_data_max (g_crypt E) then (False, s)
      else let (f, c) = rf_frame (g_crypt E) can_id data (gw_cipher s); s = s\<lparr>gw_cipher := c\<rparr> in
        case f of None \<Rightarrow> (False, s)
        | Some buf \<Rightarrow>
            let ((ret, r), d) = send_retry (g_nrf E) sch buf RF24_TX_RETRIES (g_tx_junk E) (gw_radio s); s = s\<lparr>gw_radio := d\<rparr> in
            if ret \<noteq> 0 then (False, s) else (True, gw_led_rf24_activity now s))"

definition GW_TEST_PING :: u8 where "GW_TEST_PING = 0x01"
definition GW_TEST_ECHO :: u8 where "GW_TEST_ECHO = 0x02"
definition GW_TEST_DATA :: u8 where "GW_TEST_DATA = 0x03"

definition gw_ping_put :: "u8 \<Rightarrow> u8 list \<Rightarrow> u8 list" where
  "gw_ping_put x q = (if length q < 2 then q @ [x] else q)"

definition gw_test_handle_rx :: "'w gw_env \<Rightarrow> 'w sched \<Rightarrow> u32 \<Rightarrow> bytes \<Rightarrow> 'w gateway \<Rightarrow> 'w gateway" where
  "gw_test_handle_rx E sch now d s =
     (if length d < 1 then s
      else if d ! 0 = GW_TEST_PING then
        snd (gw_rf24_send E sch now TEST_FRAME [GW_TEST_ECHO, if length d \<ge> 2 then d ! 1 else 0xFF, 0] s)
      else if d ! 0 = GW_TEST_ECHO then
        (if length d \<ge> 2 \<and> gw_ping_wait_seq s = d ! 1 then s\<lparr>gw_ping_msgq := gw_ping_put (d ! 1) (gw_ping_msgq s)\<rparr> else s)
      else s)"

section \<open>The UDP side (\<open>udp.c\<close>)\<close>

definition gw_udp_send :: "bytes \<Rightarrow> 'w gateway \<Rightarrow> 'w gateway" where
  "gw_udp_send data s =
     (if length data = 0 \<or> length data > GW_TX_FRAME_MAX then s
      else if \<not> gw_net_link_up s then s
      else if length (gw_tx_msgq s) < 8 then s\<lparr>gw_tx_msgq := gw_tx_msgq s @ [data]\<rparr> else s)"

definition gw_udp_do_send :: "'w gw_env \<Rightarrow> bytes \<Rightarrow> 'w gateway \<Rightarrow> 'w gateway" where
  "gw_udp_do_send E data s =
     (if \<not> data_sock s \<or> length data = 0 then s
      else if \<not> gw_net_link_up s then s
      else case inet_pton E (gw_host_ip s) of None \<Rightarrow> s
        | Some ip \<Rightarrow> s\<lparr>udp_sent := udp_sent s @ [(ip, gw_host_port s, data)]\<rparr>)"

text \<open>One round of the sending thread; with nothing queued it waits.\<close>

definition udp_tx_round :: "'w gw_env \<Rightarrow> 'w gateway \<Rightarrow> 'w gateway" where
  "udp_tx_round E s =
     (case gw_tx_msgq s of [] \<Rightarrow> s | e # es \<Rightarrow> gw_udp_do_send E e (s\<lparr>gw_tx_msgq := es\<rparr>))"

text \<open>One round of the radio's receive thread.\<close>

definition gw_rf24_rx_round :: "'w gw_env \<Rightarrow> 'w sched \<Rightarrow> u32 \<Rightarrow> 'w gateway \<Rightarrow> 'w gateway" where
  "gw_rf24_rx_round E sch now s =
     (case rf24_rx_get (gw_radio s) of None \<Rightarrow> s
      | Some (f, d) \<Rightarrow>
          let s = s\<lparr>gw_radio := d\<rparr> in
          if length f < RF24_ID_SIZE then s
          else let (m, c) = rf_unframe (g_crypt E) f (gw_cipher s); s = s\<lparr>gw_cipher := c\<rparr> in
            (case m of None \<Rightarrow> s
             | Some f \<Rightarrow>
                 let s = gw_led_rf24_activity now s; can_id = be16_at f in
                 if can_id = TEST_FRAME then gw_test_handle_rx E sch now (drop 2 f) s
                 else if can_id \<noteq> HANDLER_STATE \<and> can_id \<noteq> COBID_HEATBEAT then s
                 else gw_udp_send f s))"

text \<open>One datagram on the data port; the buffer holds 512 bytes.\<close>

definition udp_data_rx :: "'w gw_env \<Rightarrow> 'w sched \<Rightarrow> u32 \<Rightarrow> bytes \<Rightarrow> 'w gateway \<Rightarrow> 'w gateway" where
  "udp_data_rx E sch now dgram s =
     (let b = take 512 dgram in
      if length b \<ge> 2 \<and> (be16_at b = OVERBREAK_LASER \<or> be16_at b = COORD_XY \<or> be16_at b = COORD_Z)
      then snd (gw_rf24_send E sch now (be16_at b) (drop 2 b) s) else s)"

definition udp_data_start :: "bool \<Rightarrow> bool \<Rightarrow> 'w gateway \<Rightarrow> 'w gateway" where
  "udp_data_start sock_ok bind_ok s = s\<lparr>data_sock := sock_ok \<and> bind_ok\<rparr>"

definition pack_host :: "'w gw_env \<Rightarrow> 'w gateway \<Rightarrow> bytes" where
  "pack_host E s =
     (case inet_pton E (gw_host_ip s) of None \<Rightarrow> [0, 0, 0, 0] | Some ip \<Rightarrow> ip) @ put_be16 (gw_host_port s)"

definition gw_ip_is_valid :: "bytes \<Rightarrow> bool" where
  "gw_ip_is_valid ip =
     (let a = be32_at ip; b0 = (ucast (drop_bit 24 a) :: u8) in
      if a = 0 then False else if a = 0xFFFFFFFF then False else if b0 = 127 then False else if b0 \<ge> 224 then False else True)"

definition gw_reply :: "u8 \<Rightarrow> bytes \<Rightarrow> 'w gateway \<Rightarrow> 'w gateway" where
  "gw_reply c b s = s\<lparr>cfg_replies := cfg_replies s @ [(c, b)]\<rparr>"

definition gw_cmd_set_ip :: "'w gw_env \<Rightarrow> u8 \<Rightarrow> bytes \<Rightarrow> 'w gateway \<Rightarrow> 'w gateway" where
  "gw_cmd_set_ip E cmd d s =
     (if length d \<ge> 4 \<and> gw_use_dhcp s = 0 \<and> gw_ip_is_valid (take 4 d)
      then gw_reply cmd [1] (gw_save_network_config (s\<lparr>gw_ip_addr := inet_ntop E (take 4 d)\<rparr>))
      else gw_reply cmd [0] s)"

definition gw_cmd_get_net :: "'w gw_env \<Rightarrow> u8 \<Rightarrow> 'w gateway \<Rightarrow> 'w gateway" where
  "gw_cmd_get_net E cmd s = gw_reply cmd (put_be16 (gw_data_port s) @ pack_host E s) s"

definition gw_cmd_set_rf24 :: "'w gw_env \<Rightarrow> u8 \<Rightarrow> bytes \<Rightarrow> 'w gateway \<Rightarrow> 'w gateway" where
  "gw_cmd_set_rf24 E cmd d s =
     (if length d \<ge> RF24_ADDR_LEN then
        let s = gw_save_rf24_config (s\<lparr>gw_rf24_addr := take RF24_ADDR_LEN d\<rparr>);
            s = gw_rf24_set_config E (gw_rf24_addr s) s in gw_reply cmd (gw_rf24_addr s) s
      else s)"

definition gw_cmd_set_host :: "'w gw_env \<Rightarrow> u8 \<Rightarrow> bytes \<Rightarrow> 'w gateway \<Rightarrow> 'w gateway" where
  "gw_cmd_set_host E cmd d s =
     (if length d \<ge> 6 then
        let s = gw_save_network_config (s\<lparr>gw_host_ip := inet_ntop E (take 4 d), gw_host_port := be16_at (drop 4 d)\<rparr>) in
        gw_reply cmd (pack_host E s) s
      else s)"

definition gw_cmd_discover :: "'w gw_env \<Rightarrow> bytes option \<Rightarrow> u8 \<Rightarrow> 'w gateway \<Rightarrow> 'w gateway" where
  "gw_cmd_discover E live cmd s =
     (let ip = (case live of Some ip \<Rightarrow> ip
        | None \<Rightarrow> (case inet_pton E (gw_ip_addr s) of Some ip \<Rightarrow> ip | None \<Rightarrow> [0, 0, 0, 0])) in
      gw_reply cmd (ip @ put_be16 (config_port E)) s)"

definition gw_cmd_factory_reset :: "int \<Rightarrow> int \<Rightarrow> u8 \<Rightarrow> 'w gateway \<Rightarrow> 'w gateway" where
  "gw_cmd_factory_reset open_rc erase_rc cmd s =
     (let rc = (if open_rc = 0 then erase_rc else open_rc); s = (if open_rc = 0 \<and> erase_rc = 0 then s\<lparr>gw_store := []\<rparr> else s) in
      if rc = 0 then (gw_reply cmd [1] s)\<lparr>gw_rebooted := True\<rparr> else gw_reply cmd [0] s)"

text \<open>The callback of the upgrade library; \<open>live\<close> is the interface's address, \<open>rcs\<close> the results of the flash driver.\<close>

definition gw_cmd_handler :: "'w gw_env \<Rightarrow> bytes option \<Rightarrow> int \<times> int \<Rightarrow> u8 \<Rightarrow> bytes \<Rightarrow> 'w gateway \<Rightarrow> bool \<times> 'w gateway" where
  "gw_cmd_handler E live rcs cmd d s =
     (if cmd = 0x10 then (True, gw_cmd_set_ip E cmd d s)
      else if cmd = 0x11 then (True, gw_cmd_get_net E cmd s)
      else if cmd = 0x12 then (True, gw_cmd_set_rf24 E cmd d s)
      else if cmd = 0x13 then (True, gw_reply cmd (gw_rf24_addr s) s)
      else if cmd = 0x14 then (True, gw_cmd_set_host E cmd d s)
      else if cmd = 0x15 then (True, gw_cmd_discover E live cmd s)
      else if cmd = 0x16 then (True, gw_cmd_factory_reset (fst rcs) (snd rcs) cmd s)
      else (False, s))"

section \<open>Start and network (\<open>main.c\<close>)\<close>

definition gw_net_event :: "bool \<Rightarrow> bool \<Rightarrow> 'w gateway \<Rightarrow> 'w gateway" where
  "gw_net_event up down s =
     (if up then s\<lparr>gw_net_link_up := True, gw_dhcp_started := (gw_use_dhcp s \<noteq> 0 \<or> gw_dhcp_started s)\<rparr>
      else if down then s\<lparr>gw_net_link_up := False\<rparr> else s)"

definition gw_derive_mac :: "bytes option \<Rightarrow> bytes" where
  "gw_derive_mac uid = [0x00, 0x08, 0xDC] @
     (case uid of Some u \<Rightarrow> map (\<lambda>i. u ! i XOR u ! (i + 3) XOR u ! (i + 6) XOR u ! (i + 9)) [0, 1, 2] | None \<Rightarrow> [1, 2, 3])"

text \<open>
  The static configuration set on the interface - address, /24 mask, gateway \<open>a.b.c.1\<close> - or \<open>None\<close> with DHCP;
  the code is the result.
\<close>

definition gw_net_init :: "'w gw_env \<Rightarrow> bool \<Rightarrow> 'w gateway \<Rightarrow> int \<times> (bytes \<times> bytes \<times> bytes) option" where
  "gw_net_init E iface s =
     (if \<not> iface then (- ENODEV, None)
      else if gw_use_dhcp s \<noteq> 0 then (0, None)
      else case inet_pton E (gw_ip_addr s) of None \<Rightarrow> (- EINVAL, None)
        | Some ip \<Rightarrow> (0, Some (ip, [0xFF, 0xFF, 0xFF, 0], ip[3 := 1])))"

definition gw_defaults :: "'w gateway \<Rightarrow> 'w gateway" where
  "gw_defaults s = s\<lparr>gw_rf24_addr := replicate 5 0, gw_ip_addr := N2E_GW_DEFAULT_IP, gw_data_port := N2E_GW_DATA_PORT_DEFAULT,
     gw_use_dhcp := GW_USE_DHCP_DEFAULT, gw_host_ip := N2E_GW_HOST_DEFAULT_IP, gw_host_port := N2E_GW_HOST_PORT_DEFAULT\<rparr>"

text \<open>\<open>wait\<close> is what happens while the link comes up.\<close>

definition gw_main :: "'w gw_env \<Rightarrow> ('w gateway \<Rightarrow> 'w gateway) \<Rightarrow> 'w gateway \<Rightarrow> 'w gateway" where
  "gw_main E wait s =
     gw_led_sys_on ((wait (gw_rf24_init E (gw_led_init (gw_config_load E (gw_defaults s)))))\<lparr>gw_running := True\<rparr>)"

section \<open>Setting commands of the shell (\<open>net_shell.c\<close>, \<open>rf24_shell.c\<close>)\<close>

definition cmd_gw_ip :: "bytes \<Rightarrow> 'w gateway \<Rightarrow> int \<times> 'w gateway" where
  "cmd_gw_ip arg s =
     (if gw_use_dhcp s \<noteq> 0 then (- EINVAL, s)
      else if length arg \<ge> 16 then (- EINVAL, s)
      else (0, gw_save_network_config (s\<lparr>gw_ip_addr := arg\<rparr>)))"

definition cmd_gw_port :: "int \<Rightarrow> 'w gateway \<Rightarrow> int \<times> 'w gateway" where
  "cmd_gw_port p s =
     (if p < 1 \<or> p > 65535 then (- EINVAL, s) else (0, gw_save_network_config (s\<lparr>gw_data_port := of_int p\<rparr>)))"

definition cmd_gw_reset :: "int \<Rightarrow> int \<Rightarrow> 'w gateway \<Rightarrow> int \<times> 'w gateway" where
  "cmd_gw_reset open_rc erase_rc s =
     (if open_rc \<noteq> 0 then (- EIO, s) else if erase_rc \<noteq> 0 then (- EIO, s) else (0, s\<lparr>gw_store := []\<rparr>))"

text \<open>The bytes of \<open>gw send\<close>, at most 62 of them: an invalid one ends the command.\<close>

fun hex_args :: "int list \<Rightarrow> nat \<Rightarrow> bytes option" where
  "hex_args [] n = Some []"
| "hex_args (v # vs) n =
     (if n = 0 then Some []
      else if v < 0 \<or> v > 0xFF then None else map_option ((#) (of_int v)) (hex_args vs (n - 1)))"

definition cmd_gw_send :: "int \<Rightarrow> int list \<Rightarrow> 'w gateway \<Rightarrow> int \<times> 'w gateway" where
  "cmd_gw_send i vs s =
     (if length vs < 1 then (- EINVAL, s)
      else if i < 0 \<or> i > 0x7FF then (- EINVAL, s)
      else case hex_args vs 62 of None \<Rightarrow> (- EINVAL, s) | Some b \<Rightarrow> (0, gw_udp_send (put_be16 (of_int i) @ b) s))"

definition gw_cmd_rf24_addr :: "'w gw_env \<Rightarrow> int list \<Rightarrow> 'w gateway \<Rightarrow> int \<times> 'w gateway" where
  "gw_cmd_rf24_addr E vs s =
     (if length vs < 5 then (- EINVAL, s)
      else if \<not> g_radio_ready E then (- EIO, s)
      else case hex_args (take 5 vs) 5 of None \<Rightarrow> (- EINVAL, s)
        | Some a \<Rightarrow> (0, gw_save_rf24_config (gw_rf24_set_config E a s)))"

end
