(* ===== verification/GatewayProps.thy ===== *)
theory GatewayProps imports Gateway begin

text \<open>
  The gateway over every sequence of its events: what is bounded, and what a restart would read back from flash.
\<close>

section \<open>Events\<close>

datatype 'w g_event =
    Ev_driver "'w nrf24_data"
  | Ev_radio_rx "'w sched" u32
  | Ev_udp_tx
  | Ev_datagram "'w sched" u32 bytes
  | Ev_command "bytes option" "int \<times> int" u8 bytes
  | Ev_net bool bool
  | Ev_socket bool bool
  | Ev_blink u32
  | Ev_selftest
  | Ev_fatal bool
  | Ev_sh_ip bytes
  | Ev_sh_port int
  | Ev_sh_reset int int
  | Ev_sh_send int "int list"
  | Ev_sh_addr "int list"

text \<open>The driver's threads may leave the radio in any state; every other event is an operation of the program.\<close>

fun g_step :: "'w gw_env \<Rightarrow> 'w g_event \<Rightarrow> 'w gateway \<Rightarrow> 'w gateway" where
  "g_step E (Ev_driver d) s = s\<lparr>gw_radio := d\<rparr>"
| "g_step E (Ev_radio_rx sch now) s = gw_rf24_rx_round E sch now s"
| "g_step E Ev_udp_tx s = udp_tx_round E s"
| "g_step E (Ev_datagram sch now d) s = udp_data_rx E sch now d s"
| "g_step E (Ev_command live rcs c d) s = snd (gw_cmd_handler E live rcs c d s)"
| "g_step E (Ev_net up down) s = gw_net_event up down s"
| "g_step E (Ev_socket a b) s = udp_data_start a b s"
| "g_step E (Ev_blink now) s = snd (led_blink_work_handler now s)"
| "g_step E Ev_selftest s = err_selftest_work_handler s"
| "g_step E (Ev_fatal b) s = gw_fatal_error b s"
| "g_step E (Ev_sh_ip a) s = snd (cmd_gw_ip a s)"
| "g_step E (Ev_sh_port p) s = snd (cmd_gw_port p s)"
| "g_step E (Ev_sh_reset a b) s = snd (cmd_gw_reset a b s)"
| "g_step E (Ev_sh_send i vs) s = snd (cmd_gw_send i vs s)"
| "g_step E (Ev_sh_addr vs) s = snd (gw_cmd_rf24_addr E vs s)"

definition g_run :: "'w gw_env \<Rightarrow> 'w g_event list \<Rightarrow> 'w gateway \<Rightarrow> 'w gateway" where
  "g_run E evs s = fold (g_step E) evs s"

text \<open>A command line argument is a C string.\<close>

fun g_event_ok :: "'w g_event \<Rightarrow> bool" where
  "g_event_ok (Ev_sh_ip a) = (0 \<notin> set a)"
| "g_event_ok e = True"

fun g_resets :: "'w g_event \<Rightarrow> bool" where
  "g_resets (Ev_command live rcs c d) = (c = 0x16)"
| "g_resets (Ev_sh_reset a b) = True"
| "g_resets e = False"

text \<open>What the documentation of \<open>inet_pton\<close> and \<open>inet_ntop\<close> promises: dotted text of at most 15 characters.\<close>

definition inet_law :: "'w gw_env \<Rightarrow> bool" where
  "inet_law E \<longleftrightarrow> (\<forall>a. length a = 4 \<longrightarrow> inet_pton E (inet_ntop E a) = Some a \<and> length (inet_ntop E a) < 16 \<and> 0 \<notin> set (inet_ntop E a))
     \<and> (\<forall>t a. inet_pton E t = Some a \<longrightarrow> length a = 4)"

lemma inet_facts:
  assumes "inet_law E" "length a = 4"
  shows "inet_pton E (inet_ntop E a) = Some a" "length (inet_ntop E a) < 16" "0 \<notin> set (inet_ntop E a)"
  using assms by (simp_all add: inet_law_def)

section \<open>What is bounded\<close>

definition text_ok :: "bytes \<Rightarrow> bool" where "text_ok t \<longleftrightarrow> length t < 16 \<and> 0 \<notin> set t"

definition gw_ok :: "'w gateway \<Rightarrow> bool" where
  "gw_ok s \<longleftrightarrow> length (gw_rf24_addr s) = RF24_ADDR_LEN \<and> text_ok (gw_ip_addr s) \<and> text_ok (gw_host_ip s)
     \<and> length (gw_tx_msgq s) \<le> 8 \<and> list_all (\<lambda>f. 1 \<le> length f \<and> length f \<le> GW_TX_FRAME_MAX) (gw_tx_msgq s)
     \<and> length (gw_ping_msgq s) \<le> 2 \<and> list_all (\<lambda>e. length (snd (snd e)) \<le> GW_TX_FRAME_MAX) (udp_sent s)"

text \<open>The view the invariant depends on, and the operations that leave it alone.\<close>

definition gview where
  "gview s = (gw_rf24_addr s, gw_ip_addr s, gw_host_ip s, gw_tx_msgq s, gw_ping_msgq s, udp_sent s)"

definition gcfg where
  "gcfg s = (gw_rf24_addr s, gw_ip_addr s, gw_data_port s, gw_use_dhcp s, gw_host_ip s, gw_host_port s)"

lemma gw_ok_view: "gview s = gview t \<Longrightarrow> gw_ok s = gw_ok t"
  by (simp add: gview_def gw_ok_def)

lemma activity_keeps [simp]: "gview (gw_led_rf24_activity t s) = gview s" "gcfg (gw_led_rf24_activity t s) = gcfg s"
    "gw_store (gw_led_rf24_activity t s) = gw_store s"
  by (simp_all add: gw_led_rf24_activity_def gview_def gcfg_def Let_def)

lemma send_keeps [simp]: "gview (snd (gw_rf24_send E sch t i d s)) = gview s" "gcfg (snd (gw_rf24_send E sch t i d s)) = gcfg s"
    "gw_store (snd (gw_rf24_send E sch t i d s)) = gw_store s"
  by (simp_all add: gw_rf24_send_def case_prod_beta Let_def gview_def gcfg_def gw_led_rf24_activity_def split: option.split)

lemma view_ok [simp]: "gw_ok (snd (gw_rf24_send E sch t i d s)) = gw_ok s" "gw_ok (gw_led_rf24_activity t s) = gw_ok s"
  by (rule gw_ok_view, simp)+

lemma radio_ok [simp]: "gw_ok (s\<lparr>gw_radio := d\<rparr>) = gw_ok s" "gw_ok (s\<lparr>gw_cipher := c\<rparr>) = gw_ok s"
    "gw_ok (s\<lparr>gw_radio := d, gw_cipher := c\<rparr>) = gw_ok s"
  by (simp_all add: gw_ok_def)

lemma reply_keeps [simp]: "gview (gw_reply c b s) = gview s" "gcfg (gw_reply c b s) = gcfg s"
    "gw_store (gw_reply c b s) = gw_store s" "gw_ok (gw_reply c b s) = gw_ok s"
  by (simp_all add: gw_reply_def gview_def gcfg_def gw_ok_def)

lemma set_config_fields [simp]:
  "gw_rf24_addr (gw_rf24_set_config E a s) = take RF24_ADDR_LEN a" "gw_ip_addr (gw_rf24_set_config E a s) = gw_ip_addr s"
  "gw_host_ip (gw_rf24_set_config E a s) = gw_host_ip s" "gw_tx_msgq (gw_rf24_set_config E a s) = gw_tx_msgq s"
  "gw_ping_msgq (gw_rf24_set_config E a s) = gw_ping_msgq s" "udp_sent (gw_rf24_set_config E a s) = udp_sent s"
  "gw_store (gw_rf24_set_config E a s) = gw_store s" "gw_data_port (gw_rf24_set_config E a s) = gw_data_port s"
  "gw_use_dhcp (gw_rf24_set_config E a s) = gw_use_dhcp s" "gw_host_port (gw_rf24_set_config E a s) = gw_host_port s"
  by (simp_all add: gw_rf24_set_config_def case_prod_beta Let_def)

lemma save_fields [simp]: "gview (gw_save_network_config s) = gview s" "gview (gw_save_rf24_config s) = gview s"
    "gcfg (gw_save_network_config s) = gcfg s" "gcfg (gw_save_rf24_config s) = gcfg s"
    "gw_ok (gw_save_network_config s) = gw_ok s" "gw_ok (gw_save_rf24_config s) = gw_ok s"
  by (simp_all add: gw_save_network_config_def gw_save_rf24_config_def gview_def gcfg_def gw_ok_def)

lemma cfg_keeps [simp]: "gcfg (gw_udp_send d s) = gcfg s" "gw_store (gw_udp_send d s) = gw_store s"
    "gcfg (gw_test_handle_rx E sch now d s) = gcfg s" "gw_store (gw_test_handle_rx E sch now d s) = gw_store s"
    "gcfg (s\<lparr>gw_radio := r\<rparr>) = gcfg s" "gcfg (s\<lparr>gw_cipher := c\<rparr>) = gcfg s" "gcfg (s\<lparr>gw_radio := r, gw_cipher := c\<rparr>) = gcfg s"
  subgoal by (simp add: gw_udp_send_def gcfg_def)
  subgoal by (simp add: gw_udp_send_def)
  subgoal by (simp add: gw_test_handle_rx_def) (simp add: gcfg_def)
  by (simp_all add: gw_test_handle_rx_def gcfg_def)

lemma hex_args_length: "hex_args vs n = Some b \<Longrightarrow> length b = min n (length vs)"
  by (induction vs n arbitrary: b rule: hex_args.induct) (auto split: if_splits)

lemma udp_send_ok: "gw_ok s \<Longrightarrow> gw_ok (gw_udp_send d s)"
  by (auto simp: gw_udp_send_def gw_ok_def Suc_le_eq)

lemma rx_round_ok:
  assumes "gw_ok s" shows "gw_ok (gw_rf24_rx_round E sch now s)"
proof -
  have test: "gw_ok (gw_test_handle_rx E sch now d t)" if "gw_ok t" for d t
  proof -
    have "gw_ok (t\<lparr>gw_ping_msgq := gw_ping_put x (gw_ping_msgq t)\<rparr>)" for x
      using that by (simp add: gw_ok_def gw_ping_put_def)
    then show ?thesis using that by (simp add: gw_test_handle_rx_def)
  qed
  show ?thesis using assms
    by (simp add: gw_rf24_rx_round_def case_prod_beta Let_def test udp_send_ok split: option.split)
qed

lemma g_step_ok:
  assumes "inet_law E" "g_event_ok e" "gw_ok s" shows "gw_ok (g_step E e s)"
proof (cases e)
  case (Ev_command live rcs c d)
  have "gw_ok (gw_save_rf24_config s)" using assms(3) by simp
  then show ?thesis using assms(3) inet_facts [OF assms(1), of "take 4 d"]
    by (auto simp: Ev_command gw_cmd_handler_def gw_cmd_set_ip_def gw_cmd_get_net_def gw_cmd_set_rf24_def gw_cmd_set_host_def
        gw_cmd_discover_def gw_cmd_factory_reset_def gw_reply_def gw_save_rf24_config_def gw_save_network_config_def Let_def
        gw_ok_def text_ok_def)
next
  case (Ev_radio_rx sch now)
  then show ?thesis using rx_round_ok assms(3) by simp
next
  case Ev_udp_tx
  then show ?thesis using assms(3)
    by (auto simp: udp_tx_round_def gw_udp_do_send_def gw_ok_def split: list.split option.split)
next
  case (Ev_datagram sch now d)
  then show ?thesis using assms(3) by (simp add: udp_data_rx_def Let_def)
next
  case (Ev_sh_addr vs)
  have "gw_ok (gw_rf24_set_config E a s)" if "length a = 5" for a
    using assms(3) that by (simp add: gw_ok_def RF24_ADDR_LEN_def)
  then show ?thesis using assms(3) hex_args_length [of "take 5 vs" 5]
    by (simp add: Ev_sh_addr gw_cmd_rf24_addr_def split: option.split)
next
  case (Ev_sh_send i vs)
  then show ?thesis using assms(3) by (simp add: cmd_gw_send_def udp_send_ok split: option.split)
qed (use assms(2,3) in \<open>auto simp: gw_ok_def text_ok_def gw_net_event_def udp_data_start_def led_blink_work_handler_def
   err_selftest_work_handler_def gw_fatal_error_def gw_led_error_on_def cmd_gw_ip_def cmd_gw_port_def cmd_gw_reset_def
   gw_save_network_config_def\<close>)

lemma g_run_ok: "inet_law E \<Longrightarrow> list_all g_event_ok evs \<Longrightarrow> gw_ok s \<Longrightarrow> gw_ok (g_run E evs s)"
  unfolding g_run_def by (induction evs arbitrary: s) (simp_all add: g_step_ok)

section \<open>What a restart reads back\<close>

definition gw_keys :: "string list" where
  "gw_keys = [''rf24_addr'', ''ip_addr'', ''data_port'', ''use_dhcp'', ''host_ip'', ''host_port'', ''netmask'', ''gateway'', ''rf24_channel'']"

text \<open>Under the gateway's prefix flash holds only names this or an older version of the program has written.\<close>

definition gw_store_ok :: "store \<Rightarrow> bool" where
  "gw_store_ok st \<longleftrightarrow> distinct (map fst st) \<and> (\<forall>n. ''gw/'' @ n \<in> fst ` set st \<longrightarrow> n \<in> set gw_keys)"

text \<open>The value of a parameter a restart will have: the stored one when it has the right size, else the default.\<close>

definition stored :: "store \<Rightarrow> string \<Rightarrow> (bytes \<Rightarrow> bool) \<Rightarrow> (bytes \<Rightarrow> 'v) \<Rightarrow> 'v \<Rightarrow> 'v" where
  "stored st k valid rd d = (case map_of st (''gw/'' @ k) of Some v \<Rightarrow> if valid v then rd v else d | None \<Rightarrow> d)"

definition gw_stored where
  "gw_stored st = (stored st ''rf24_addr'' (\<lambda>v. length v = RF24_ADDR_LEN) id (replicate 5 0),
     stored st ''ip_addr'' (\<lambda>v. length v < 16) c_string N2E_GW_DEFAULT_IP,
     stored st ''data_port'' (\<lambda>v. length v = 2) get_le16 N2E_GW_DATA_PORT_DEFAULT,
     stored st ''use_dhcp'' (\<lambda>v. length v = 1) hd GW_USE_DHCP_DEFAULT,
     stored st ''host_ip'' (\<lambda>v. length v < 16) c_string N2E_GW_HOST_DEFAULT_IP,
     stored st ''host_port'' (\<lambda>v. length v = 2) get_le16 N2E_GW_HOST_PORT_DEFAULT)"

lemma key_match: "n \<in> set gw_keys \<Longrightarrow> k \<in> set gw_keys \<Longrightarrow> NAME_STARTS n (length n) k = (n = k)"
proof -
  have "list_all (\<lambda>n. list_all (\<lambda>k. NAME_STARTS n (length n) k = (n = k)) gw_keys) gw_keys" by code_simp
  then show "n \<in> set gw_keys \<Longrightarrow> k \<in> set gw_keys \<Longrightarrow> NAME_STARTS n (length n) k = (n = k)" by (simp add: list_all_iff)
qed

lemma keys_in: "''rf24_addr'' \<in> set gw_keys" "''ip_addr'' \<in> set gw_keys" "''data_port'' \<in> set gw_keys" "''use_dhcp'' \<in> set gw_keys"
    "''host_ip'' \<in> set gw_keys" "''host_port'' \<in> set gw_keys"
  by (simp_all add: gw_keys_def)

lemma persist_key:
  assumes "name_next_law (g_name_next E)" "n \<in> set gw_keys"
  shows "snd (gw_persist_set E n v s) =
    (if n = ''rf24_addr'' then if length v = RF24_ADDR_LEN then s\<lparr>gw_rf24_addr := v\<rparr> else s
     else if n = ''ip_addr'' then if length v < 16 then s\<lparr>gw_ip_addr := c_string v\<rparr> else s
     else if n = ''data_port'' then if length v = 2 then s\<lparr>gw_data_port := get_le16 v\<rparr> else s
     else if n = ''use_dhcp'' then if length v = 1 then s\<lparr>gw_use_dhcp := hd v\<rparr> else s
     else if n = ''host_ip'' then if length v < 16 then s\<lparr>gw_host_ip := c_string v\<rparr> else s
     else if n = ''host_port'' then if length v = 2 then s\<lparr>gw_host_port := get_le16 v\<rparr> else s
     else s)"
proof -
  have "CHR ''='' \<notin> set n \<and> CHR ''/'' \<notin> set n"
  proof -
    have "list_all (\<lambda>n. CHR ''='' \<notin> set n \<and> CHR ''/'' \<notin> set n) gw_keys" by code_simp
    then show ?thesis using assms(2) by (simp add: list_all_iff)
  qed
  then have law: "snd (g_name_next E n) = None" "fst (g_name_next E n) = length n"
    using assms(1) by (auto simp: name_next_law_def)
  show ?thesis
    by (simp only: gw_persist_set_def case_prod_beta Let_def law key_match [OF assms(2) keys_in(1)] key_match [OF assms(2) keys_in(2)]
        key_match [OF assms(2) keys_in(3)] key_match [OF assms(2) keys_in(4)] key_match [OF assms(2) keys_in(5)]
        key_match [OF assms(2) keys_in(6)] simp_thms if_distrib [of snd] snd_conv)
qed

lemma gw_load_stored:
  fixes x :: "'w gateway"
  assumes "name_next_law (g_name_next E)" "gw_store_ok (gw_store x)"
  shows "gcfg (gw_config_load E (gw_defaults x)) = gw_stored (gw_store x)"
proof -
  let ?h = "\<lambda>n v s. snd (gw_persist_set E n v s) :: 'w gateway"
  have key: "n \<in> set gw_keys" if "''gw/'' @ n \<in> fst ` set (gw_store x)" for n
    using assms(2) that by (auto simp: gw_store_ok_def)
  have d: "distinct (map fst (gw_store x))" using assms(2) by (simp add: gw_store_ok_def)
  have one: "get (gw_config_load E (gw_defaults x)) = stored (gw_store x) k valid rd (get (gw_defaults x))"
    if "\<And>n v s. n \<in> set gw_keys \<Longrightarrow> n \<noteq> k \<Longrightarrow> get (?h n v s) = get s" "\<And>v s. get (?h k v s) = (if valid v then rd v else get s)"
    for get :: "'w gateway \<Rightarrow> 'v" and k valid rd
  proof -
    have "get (store_load ''gw/'' ?h (gw_store x) (gw_defaults x)) =
      (case map_of (gw_store x) (''gw/'' @ k) of Some v \<Rightarrow> if valid v then rd v else get (gw_defaults x) | None \<Rightarrow> get (gw_defaults x))"
      by (rule store_load_field [OF d]) (use that key in auto)
    moreover have "gw_store (gw_defaults x) = gw_store x" by (simp add: gw_defaults_def)
    ultimately show ?thesis by (simp add: gw_config_load_def stored_def)
  qed
  note pk = persist_key [OF assms(1)] persist_key [OF assms(1) keys_in(1)] persist_key [OF assms(1) keys_in(2)]
    persist_key [OF assms(1) keys_in(3)] persist_key [OF assms(1) keys_in(4)] persist_key [OF assms(1) keys_in(5)]
    persist_key [OF assms(1) keys_in(6)]
  have "gw_rf24_addr (gw_config_load E (gw_defaults x)) = stored (gw_store x) ''rf24_addr'' (\<lambda>v. length v = RF24_ADDR_LEN) id (replicate 5 0)"
    by (subst one [of "''rf24_addr''"]) (simp_all add: pk gw_defaults_def)
  moreover have "gw_ip_addr (gw_config_load E (gw_defaults x)) = stored (gw_store x) ''ip_addr'' (\<lambda>v. length v < 16) c_string N2E_GW_DEFAULT_IP"
    by (subst one [of "''ip_addr''"]) (simp_all add: pk gw_defaults_def)
  moreover have "gw_data_port (gw_config_load E (gw_defaults x)) = stored (gw_store x) ''data_port'' (\<lambda>v. length v = 2) get_le16 N2E_GW_DATA_PORT_DEFAULT"
    by (subst one [of "''data_port''"]) (simp_all add: pk gw_defaults_def)
  moreover have "gw_use_dhcp (gw_config_load E (gw_defaults x)) = stored (gw_store x) ''use_dhcp'' (\<lambda>v. length v = 1) hd GW_USE_DHCP_DEFAULT"
    by (subst one [of "''use_dhcp''"]) (simp_all add: pk gw_defaults_def)
  moreover have "gw_host_ip (gw_config_load E (gw_defaults x)) = stored (gw_store x) ''host_ip'' (\<lambda>v. length v < 16) c_string N2E_GW_HOST_DEFAULT_IP"
    by (subst one [of "''host_ip''"]) (simp_all add: pk gw_defaults_def)
  moreover have "gw_host_port (gw_config_load E (gw_defaults x)) = stored (gw_store x) ''host_port'' (\<lambda>v. length v = 2) get_le16 N2E_GW_HOST_PORT_DEFAULT"
    by (subst one [of "''host_port''"]) (simp_all add: pk gw_defaults_def)
  ultimately show ?thesis by (simp add: gcfg_def gw_stored_def)
qed

section \<open>The running configuration is the stored one\<close>

definition gw_synced :: "'w gateway \<Rightarrow> bool" where
  "gw_synced s \<longleftrightarrow> gw_ok s \<and> gw_store_ok (gw_store s) \<and> gcfg s = gw_stored (gw_store s)"

lemma store_put_ok:
  assumes "gw_store_ok st" "\<And>n. ''gw/'' @ n \<in> fst ` set kvs \<Longrightarrow> n \<in> set gw_keys"
  shows "gw_store_ok (store_put kvs st)"
proof -
  have "dom (map_of (store_put kvs st)) = dom (map_of st) \<union> dom (map_of (rev kvs))"
    by (simp add: store_put_get Un_commute)
  then have d: "fst ` set (store_put kvs st) = fst ` set st \<union> fst ` set kvs" by (simp add: dom_map_of_conv_image_fst)
  have "distinct (map fst (store_put kvs st))" using assms(1) by (simp add: gw_store_ok_def store_put_distinct)
  moreover have "n \<in> set gw_keys" if "''gw/'' @ n \<in> fst ` set (store_put kvs st)" for n
  proof -
    have "''gw/'' @ n \<in> fst ` set st \<or> ''gw/'' @ n \<in> fst ` set kvs" using that unfolding d by (rule UnE) simp_all
    then show ?thesis using assms unfolding gw_store_ok_def by blast
  qed
  ultimately show ?thesis unfolding gw_store_ok_def by blast
qed

lemma saved_network:
  assumes "text_ok (gw_ip_addr s)" "text_ok (gw_host_ip s)"
  shows "gw_stored (store_put (network_entries s) st) = (fst (gw_stored st), snd (gcfg s))"
proof -
  have c: "c_string t = t" if "text_ok t" for t
    using that by (auto simp: c_string_def text_ok_def takeWhile_eq_all_conv)
  show ?thesis using assms
    by (simp add: gw_stored_def stored_def store_put_get network_entries_def gcfg_def c map_add_def)
      (simp add: text_ok_def put_le16_def)
qed

lemma saved_rf24: "length a = RF24_ADDR_LEN \<Longrightarrow> gw_stored (store_put [(''gw/rf24_addr'', a)] st) = (a, snd (gw_stored st))"
  by (simp add: gw_stored_def stored_def store_put_get map_add_def)

lemma synced_network:
  assumes "gw_synced s" "text_ok ip" "text_ok h"
  shows "gw_synced (gw_save_network_config (s\<lparr>gw_ip_addr := ip, gw_data_port := p, gw_host_ip := h, gw_host_port := q\<rparr>))"
proof -
  let ?s = "s\<lparr>gw_ip_addr := ip, gw_data_port := p, gw_host_ip := h, gw_host_port := q\<rparr>"
  have "gw_store_ok (store_put (network_entries ?s) (gw_store s))"
    using assms(1) by (intro store_put_ok) (auto simp: gw_synced_def network_entries_def gw_keys_def)
  moreover have "fst (gw_stored (gw_store s)) = gw_rf24_addr s" using assms(1) by (metis gw_synced_def gcfg_def fst_conv)
  ultimately show ?thesis using assms saved_network [of ?s "gw_store s"]
    by (simp add: gw_synced_def gw_save_network_config_def gw_ok_def gcfg_def)
qed

lemma synced_rf24:
  assumes "gw_synced s" "gcfg t = gcfg (s\<lparr>gw_rf24_addr := a\<rparr>)" "length a = RF24_ADDR_LEN" "gw_store t = gw_store s" "gw_ok t"
  shows "gw_synced (gw_save_rf24_config t)"
proof -
  have "gw_store_ok (store_put [(''gw/rf24_addr'', a)] (gw_store s))"
    using assms(1) by (intro store_put_ok) (auto simp: gw_synced_def gw_keys_def)
  moreover have "snd (gw_stored (gw_store s)) = snd (gcfg s)" using assms(1) by (simp add: gw_synced_def)
  ultimately show ?thesis using assms saved_rf24 [OF assms(3), of "gw_store s"]
    by (simp add: gw_synced_def gw_save_rf24_config_def gw_ok_def gcfg_def)
qed

lemma synced_view: "gcfg s' = gcfg s \<Longrightarrow> gw_store s' = gw_store s \<Longrightarrow> gw_ok s' \<Longrightarrow> gw_synced s \<Longrightarrow> gw_synced s'"
  by (simp add: gw_synced_def)

end
