(* ===== verification/GatewayTheorems.thy ===== *)
theory GatewayTheorems imports GatewayProps Nrf24Theorems RfCryptTheorems begin

text \<open>
  The gateway's properties: what stays bounded over any run, that a restart keeps the configuration, and that a
  new host address takes effect at once.
\<close>

section \<open>Start\<close>

lemma c_string_ok: "length v < 16 \<Longrightarrow> text_ok (c_string v)"
  using length_takeWhile_le [of "\<lambda>x. x \<noteq> 0" v] set_takeWhileD [of 0 "\<lambda>x. x \<noteq> 0" v] by (auto simp: text_ok_def c_string_def)

lemma stored_range: "(\<And>v. valid v \<Longrightarrow> P (rd v)) \<Longrightarrow> P d \<Longrightarrow> P (stored st k valid rd d)"
  by (simp add: stored_def split: option.split)

lemma defaults_ok: "text_ok N2E_GW_DEFAULT_IP" "text_ok N2E_GW_HOST_DEFAULT_IP"
  by code_simp+

lemma gw_main_synced:
  fixes s0 :: "'w gateway"
  assumes "name_next_law (g_name_next E)" "gw_store_ok (gw_store s0)" "gw_tx_msgq s0 = []" "gw_ping_msgq s0 = []" "udp_sent s0 = []"
  shows "gw_synced (gw_main E id s0)"
proof -
  let ?l = "gw_config_load E (gw_defaults s0)"
  have cfg: "gcfg ?l = gw_stored (gw_store s0)" by (rule gw_load_stored [OF assms(1,2)])
  have keep: "get ?l = get (gw_defaults s0)" if "\<And>n v s. get (snd (gw_persist_set E n v s)) = get s" for get :: "'w gateway \<Rightarrow> 'v"
  proof -
    have "get (fold (\<lambda>e s. case under ''gw/'' (fst e) of None \<Rightarrow> s | Some n \<Rightarrow> snd (gw_persist_set E n (snd e) s)) es s) = get s" for es s
      by (induction es arbitrary: s) (simp_all add: that split: option.split)
    then show ?thesis by (simp add: gw_config_load_def store_load_def)
  qed
  have rest: "gw_store ?l = gw_store s0" "gw_tx_msgq ?l = []" "gw_ping_msgq ?l = []" "udp_sent ?l = []"
    using keep [of gw_store] keep [of gw_tx_msgq] keep [of gw_ping_msgq] keep [of udp_sent] assms(3-5)
    by (simp_all add: gw_persist_set_def case_prod_beta Let_def gw_defaults_def)
  have "length (fst (gw_stored (gw_store s0))) = RF24_ADDR_LEN" "text_ok (fst (snd (gw_stored (gw_store s0))))"
    "text_ok (fst (snd (snd (snd (snd (gw_stored (gw_store s0)))))))"
    by (simp_all add: gw_stored_def stored_range [where P = "\<lambda>v. length v = 5"] stored_range [where P = text_ok] RF24_ADDR_LEN_def
        c_string_ok defaults_ok)
  then have f: "length (gw_rf24_addr ?l) = RF24_ADDR_LEN" "text_ok (gw_ip_addr ?l)" "text_ok (gw_host_ip ?l)"
    unfolding cfg [symmetric] by (simp_all add: gcfg_def)
  have init: "gview (gw_rf24_init E (gw_led_init ?l)) = gview ?l" "gcfg (gw_rf24_init E (gw_led_init ?l)) = gcfg ?l"
    "gw_store (gw_rf24_init E (gw_led_init ?l)) = gw_store ?l"
    using f(1) by (simp_all add: gw_rf24_init_def gw_led_init_def gw_led_error_on_def case_prod_beta Let_def gview_def gcfg_def)
  have "gw_synced ?l" using cfg rest f assms(2) by (simp add: gw_synced_def gw_ok_def)
  moreover have "gview (gw_main E id s0) = gview ?l" "gcfg (gw_main E id s0) = gcfg ?l" "gw_store (gw_main E id s0) = gw_store ?l"
    using init by (simp_all add: gw_main_def gw_led_sys_on_def gview_def gcfg_def)
  ultimately show ?thesis using gw_ok_view synced_view by (metis gw_synced_def)
qed

section \<open>A concrete gateway\<close>

text \<open>Dotted text: one \<open>inet_ntop\<close>/\<open>inet_pton\<close> pair that does what the documentation says.\<close>

definition ntop_std :: "bytes \<Rightarrow> bytes" where
  "ntop_std a = dec (unat (a ! 0)) @ 46 # dec (unat (a ! 1)) @ 46 # dec (unat (a ! 2)) @ 46 # dec (unat (a ! 3))"

fun split_dots :: "bytes \<Rightarrow> bytes list" where
  "split_dots [] = [[]]"
| "split_dots (x # xs) = (if x = 46 then [] # split_dots xs else (x # hd (split_dots xs)) # tl (split_dots xs))"

definition dec_val :: "bytes \<Rightarrow> nat" where "dec_val t = foldl (\<lambda>v c. 10 * v + (unat c - 48)) 0 t"

definition pton_std :: "bytes \<Rightarrow> bytes option" where
  "pton_std t = (let ps = split_dots t in
     if length ps = 4 \<and> list_all (\<lambda>p. p \<noteq> [] \<and> list_all (\<lambda>c. 48 \<le> c \<and> c \<le> 57) p \<and> dec_val p < 256) ps
     then Some (map (\<lambda>p. of_nat (dec_val p)) ps) else None)"

lemma split_dots_ne [simp]: "split_dots t \<noteq> []"
  by (cases t) simp_all

lemma split_dots_append: "46 \<notin> set x \<Longrightarrow> split_dots (x @ 46 # r) = x # split_dots r"
  by (induction x) simp_all

lemma split_dots_single: "46 \<notin> set x \<Longrightarrow> split_dots x = [x]"
  by (induction x) simp_all

lemma dec_chars: "dec_val (dec n) = n \<and> list_all (\<lambda>c. 48 \<le> c \<and> c \<le> 57) (dec n)"
proof (induction n rule: dec.induct)
  case (1 n)
  have d: "48 \<le> ascii_digit k \<and> ascii_digit k \<le> 57 \<and> unat (ascii_digit k) = 48 + k" if "k < 10" for k
    using that by (simp add: ascii_digit_def word_le_nat_alt unat_of_nat take_bit_nat_eq_self del: of_nat_add)
  show ?case
  proof (cases "n < 10")
    case True
    then have "dec n = [ascii_digit n]" by (subst dec.simps) simp
    with d [OF True] show ?thesis by (simp add: dec_val_def)
  next
    case False
    then have "dec n = dec (n div 10) @ [ascii_digit (n mod 10)]" by (subst dec.simps) simp
    with 1 False d [of "n mod 10"] show ?thesis by (simp add: dec_val_def)
  qed
qed

lemma dec_no_dot: "46 \<notin> set (dec n)"
proof
  assume "46 \<in> set (dec n)"
  then have "(48 :: u8) \<le> 46" using dec_chars [of n] unfolding list_all_iff by blast
  then show False by simp
qed

lemma ntop_pton:
  assumes "length a = 4"
  shows "pton_std (ntop_std a) = Some a" "length (ntop_std a) < 16" "0 \<notin> set (ntop_std a)"
proof -
  obtain b c d e where a: "a = [b, c, d, e]"
    using assms by (auto simp: numeral_eq_Suc length_Suc_conv)
  have lt: "unat x < 256" for x :: u8 using unsigned_less [of x, where ?'a = nat] by simp
  have l3: "length (dec (unat x)) \<le> 3" for x :: u8
    using lt [of x] by (intro length_dec_le3) simp
  have "split_dots (ntop_std a) = [dec (unat b), dec (unat c), dec (unat d), dec (unat e)]"
    by (simp add: a ntop_std_def split_dots_append split_dots_single dec_no_dot)
  then show "pton_std (ntop_std a) = Some a" by (simp add: pton_std_def Let_def dec_chars lt a)
  show "length (ntop_std a) < 16" using l3 [of b] l3 [of c] l3 [of d] l3 [of e] by (simp add: a ntop_std_def)
  show "0 \<notin> set (ntop_std a)" by (simp add: a ntop_std_def dec_no_nul)
qed

definition demo_gw_env :: "nrf_chip gw_env" where
  "demo_gw_env = \<lparr>g_nrf = chip_env\<lparr>has_power := True\<rparr>, g_crypt = True, g_radio_ready = True, inet_pton = pton_std,
     inet_ntop = ntop_std, config_port = 8600, g_name_next = name_next_std,
     g_tx_junk = \<lparr>acked = True, elapsed_ms = 0, retransmits = 0\<rparr>\<rparr>"

lemma demo_inet_law: "inet_law demo_gw_env"
  using ntop_pton by (auto simp: inet_law_def demo_gw_env_def pton_std_def Let_def split: if_splits)

definition demo_gw :: "nrf_chip gateway" where
  "demo_gw = \<lparr>gw_rf24_addr = [], gw_ip_addr = [], gw_data_port = 0, gw_use_dhcp = 0, gw_host_ip = [], gw_host_port = 0,
     gw_running = False, gw_net_link_up = False, gw_dhcp_started = False, gw_radio = nrf24_data_zero (chip_zero []),
     gw_cipher = crypt_init, gw_tx_msgq = [], data_sock = False, udp_sent = [], cfg_replies = [],
     gw_store = [(''gw/netmask'', [1]), (''gw/ip_addr'', replicate 99 0x31)], gw_rebooted = False, led_rf24 = False,
     led_err = False, led_sys = False, error_latched = False, blinking = False, rf24_last_activity = 0, gw_ping_wait_seq = 0,
     gw_ping_msgq = []\<rparr>"

text \<open>The gateway comes up, gets a new host and a new radio address, and a frame is sent from the shell.\<close>

definition demo_events :: "nrf_chip g_event list" where
  "demo_events = [Ev_socket True True, Ev_net True False, Ev_selftest, Ev_command None (0, 0) 0x14 [10, 0, 0, 7, 0x25, 0x80],
     Ev_command None (0, 0) 0x12 [1, 2, 3, 4, 5], Ev_sh_send 0x1E3 [1, 2, 3]]"

lemma demo_gw_ok: "gw_store_ok (gw_store demo_gw)" "gw_tx_msgq demo_gw = []" "gw_ping_msgq demo_gw = []" "udp_sent demo_gw = []"
    "list_all g_event_ok demo_events" "list_all (\<lambda>e. \<not> g_resets e) demo_events" "name_next_law (g_name_next demo_gw_env)"
  by (auto simp: gw_store_ok_def gw_keys_def demo_gw_def demo_events_def demo_gw_env_def name_next_std_law)

section \<open>Bounds over any run\<close>

text \<open>
  Over any sequence of radio frames, datagrams, commands of any content, shell commands, network events and
  lamp timers after start, with anything in flash under the known names: the transmit queue holds at most eight
  frames of 1 to 32 bytes, the ping queue at most two, no datagram is longer than 32 bytes, and the parameters
  keep their form - an address of five bytes, IP texts that end before their 16-byte buffers do.
\<close>
theorem gateway_bounded:
  assumes "inet_law E" "name_next_law (g_name_next E)" "gw_store_ok (gw_store s0)"
    and "gw_tx_msgq s0 = []" "gw_ping_msgq s0 = []" "udp_sent s0 = []"
    and "list_all g_event_ok evs" "s = g_run E evs (gw_main E id s0)"
  shows "length (gw_tx_msgq s) \<le> 8 \<and> list_all (\<lambda>f. 1 \<le> length f \<and> length f \<le> 32) (gw_tx_msgq s)
    \<and> length (gw_ping_msgq s) \<le> 2 \<and> list_all (\<lambda>e. length (snd (snd e)) \<le> 32) (udp_sent s)
    \<and> length (gw_rf24_addr s) = 5 \<and> length (gw_ip_addr s) < 16 \<and> length (gw_host_ip s) < 16"
proof -
  have "gw_ok s" using g_run_ok [OF assms(1,7)] gw_main_synced [OF assms(2-6)] by (simp add: assms(8) gw_synced_def)
  then show ?thesis by (simp add: gw_ok_def GW_TX_FRAME_MAX_def RF24_ADDR_LEN_def text_ok_def)
qed

theorem gateway_bounded_witness:
  "list_all (\<lambda>f. 1 \<le> length f \<and> length f \<le> 32) (gw_tx_msgq (g_run demo_gw_env demo_events (gw_main demo_gw_env id demo_gw)))"
  using gateway_bounded [OF demo_inet_law demo_gw_ok(7,1-5) refl] by blast

section \<open>Restart\<close>

lemma g_step_synced:
  assumes "inet_law E" "g_event_ok e" "\<not> g_resets e" "gw_synced s" shows "gw_synced (g_step E e s)"
proof -
  have ok: "gw_ok (g_step E e s)" using g_step_ok [OF assms(1,2)] assms(4) by (simp add: gw_synced_def)
  have tok: "text_ok (gw_ip_addr s)" "text_ok (gw_host_ip s)" "length (gw_rf24_addr s) = RF24_ADDR_LEN"
    using assms(4) by (simp_all add: gw_synced_def gw_ok_def)
  have rep: "gw_synced (gw_reply c b t) = gw_synced t" for c b t by (simp add: gw_synced_def)
  note net = synced_network [OF assms(4)]
  show ?thesis
  proof (cases e)
    case (Ev_command live rcs c d)
    have "gw_synced (gw_cmd_set_ip E c d s)"
      using net [OF _ tok(2), where ip = "inet_ntop E (take 4 d)" and p = "gw_data_port s" and q = "gw_host_port s"] inet_facts [OF assms(1), of "take 4 d"] assms(4)
      by (simp add: gw_cmd_set_ip_def rep text_ok_def)
    moreover have "gw_synced (gw_cmd_set_host E c d s)"
      using net [OF tok(1), where h = "inet_ntop E (take 4 d)" and p = "gw_data_port s" and q = "be16_at (drop 4 d)"] inet_facts [OF assms(1), of "take 4 d"] assms(4)
      by (simp add: gw_cmd_set_host_def rep text_ok_def Let_def)
    moreover have "gw_synced (gw_cmd_set_rf24 E c d s)"
    proof (cases "length d \<ge> RF24_ADDR_LEN")
      case True
      let ?t = "s\<lparr>gw_rf24_addr := take RF24_ADDR_LEN d\<rparr>"
      have "gw_synced (gw_save_rf24_config ?t)"
        by (rule synced_rf24 [OF assms(4), of _ "take RF24_ADDR_LEN d"]) (use True assms(4) in \<open>simp_all add: gw_synced_def gw_ok_def\<close>)
      then have "gw_synced (gw_rf24_set_config E (gw_rf24_addr (gw_save_rf24_config ?t)) (gw_save_rf24_config ?t))"
        by (rule synced_view [rotated -1]) (use True assms(4) in \<open>simp_all add: gcfg_def gw_save_rf24_config_def gw_synced_def gw_ok_def\<close>)
      then show ?thesis using True by (simp add: gw_cmd_set_rf24_def rep Let_def)
    qed (use assms(4) in \<open>simp add: gw_cmd_set_rf24_def\<close>)
    ultimately show ?thesis using assms(3,4)
      by (auto simp: Ev_command gw_cmd_handler_def gw_cmd_get_net_def gw_cmd_discover_def rep Let_def)
  next
    case (Ev_sh_ip a)
    then show ?thesis using net [OF _ tok(2), where ip = a and p = "gw_data_port s" and q = "gw_host_port s"] assms(2,4) by (simp add: cmd_gw_ip_def text_ok_def)
  next
    case (Ev_sh_port p)
    then show ?thesis using net [OF tok(1,2), where p = "of_int p" and q = "gw_host_port s"] assms(4) by (simp add: cmd_gw_port_def)
  next
    case (Ev_sh_addr vs)
    have "gw_synced (gw_save_rf24_config (gw_rf24_set_config E a s))" if "length a = 5" for a
      by (rule synced_rf24 [OF assms(4), of _ a])
        (use that assms(4) in \<open>simp_all add: gcfg_def RF24_ADDR_LEN_def gw_synced_def gw_ok_def\<close>)
    then show ?thesis using assms(4) hex_args_length [of "take 5 vs" 5]
      by (simp add: Ev_sh_addr gw_cmd_rf24_addr_def split: option.split)
  next
    case (Ev_radio_rx sch now)
    have "gcfg (g_step E e s) = gcfg s" "gw_store (g_step E e s) = gw_store s"
      by (simp_all add: Ev_radio_rx gw_rf24_rx_round_def case_prod_beta Let_def split: option.split)
    then show ?thesis using synced_view ok assms(4) by blast
  next
    case (Ev_datagram sch now d)
    have "gcfg (g_step E e s) = gcfg s" "gw_store (g_step E e s) = gw_store s"
      by (simp_all add: Ev_datagram udp_data_rx_def Let_def)
    then show ?thesis using synced_view ok assms(4) by blast
  next
    case (Ev_sh_send i vs)
    have "gcfg (g_step E e s) = gcfg s" "gw_store (g_step E e s) = gw_store s"
      by (simp_all add: Ev_sh_send cmd_gw_send_def split: option.split)
    then show ?thesis using synced_view ok assms(4) by blast
  qed (insert assms(3), (rule synced_view [OF _ _ ok assms(4)]; simp add: gcfg_def udp_tx_round_def gw_udp_do_send_def gw_net_event_def
      udp_data_start_def led_blink_work_handler_def err_selftest_work_handler_def gw_fatal_error_def gw_led_error_on_def
      split: list.split option.split)+)
qed

text \<open>
  A restart keeps the configuration: after any run without a factory reset, what a start reads from flash
  is exactly the running configuration - every command that changes a parameter has saved it - and after a
  factory reset it is the defaults.
\<close>
theorem gateway_restart_keeps_config:
  assumes "inet_law E" "name_next_law (g_name_next E)" "gw_store_ok (gw_store s0)"
    and "gw_tx_msgq s0 = []" "gw_ping_msgq s0 = []" "udp_sent s0 = []"
    and "list_all g_event_ok evs" "list_all (\<lambda>e. \<not> g_resets e) evs" "s = g_run E evs (gw_main E id s0)"
  shows "gcfg (gw_config_load E (gw_defaults (x\<lparr>gw_store := gw_store s\<rparr>))) = gcfg s
    \<and> gcfg (gw_config_load E (gw_defaults (x\<lparr>gw_store := gw_store (snd (gw_cmd_handler E live (0, 0) 0x16 d s))\<rparr>))) = gcfg (gw_defaults x)"
proof -
  have "gw_synced (g_run E evs t)" if "gw_synced t" for t
    using that assms(7,8) unfolding g_run_def by (induction evs arbitrary: t) (simp_all add: g_step_synced [OF assms(1)])
  then have "gw_synced s" using gw_main_synced [OF assms(2-6)] by (simp add: assms(9))
  then have "gcfg (gw_config_load E (gw_defaults (x\<lparr>gw_store := gw_store s\<rparr>))) = gcfg s"
    using gw_load_stored [OF assms(2), of "x\<lparr>gw_store := gw_store s\<rparr>"] by (simp add: gw_synced_def)
  moreover have "gw_store (snd (gw_cmd_handler E live (0, 0) 0x16 d s)) = []"
    by (simp add: gw_cmd_handler_def gw_cmd_factory_reset_def gw_reply_def)
  ultimately show ?thesis
    by (simp add: gw_config_load_def store_load_def gcfg_def gw_defaults_def)
qed

theorem gateway_restart_keeps_config_witness:
  "let s = g_run demo_gw_env demo_events (gw_main demo_gw_env id demo_gw) in
   gcfg (gw_config_load demo_gw_env (gw_defaults (demo_gw\<lparr>gw_store := gw_store s\<rparr>))) = gcfg s \<and> gw_rf24_addr s = [1, 2, 3, 4, 5]"
proof -
  let ?s = "g_run demo_gw_env demo_events (gw_main demo_gw_env id demo_gw)"
  have "gw_rf24_addr ?s = [1, 2, 3, 4, 5]"
    by (simp add: g_run_def demo_events_def gw_cmd_handler_def gw_cmd_set_rf24_def gw_cmd_set_host_def gw_save_rf24_config_def
        gw_save_network_config_def gw_reply_def cmd_gw_send_def gw_udp_send_def RF24_ADDR_LEN_def Let_def split: option.split)
  then show ?thesis using gateway_restart_keeps_config [OF demo_inet_law demo_gw_ok(7,1-6) refl] by (simp add: Let_def)
qed

section \<open>The host\<close>

text \<open>
  SET_HOST answers with the address and port it was given, and the next frame goes there; whatever the address is.
\<close>
theorem set_host_redirects:
  assumes "inet_law E" "length d \<ge> 6" "gw_tx_msgq s = f # fs" "f \<noteq> []" "gw_net_link_up s" "data_sock s"
    and "s' = snd (gw_cmd_handler E live rcs 0x14 d s)"
  shows "cfg_replies s' = cfg_replies s @ [(0x14, take 4 d @ put_be16 (be16_at (drop 4 d)))]
    \<and> udp_sent (udp_tx_round E s') = udp_sent s @ [(take 4 d, be16_at (drop 4 d), f)]"
proof -
  have "inet_pton E (inet_ntop E (take 4 d)) = Some (take 4 d)" using inet_facts [OF assms(1), of "take 4 d"] assms(2) by simp
  then show ?thesis using assms(2-6)
    by (simp add: assms(7) gw_cmd_handler_def gw_cmd_set_host_def gw_save_network_config_def gw_reply_def pack_host_def
        udp_tx_round_def gw_udp_do_send_def Let_def)
qed

theorem set_host_redirects_witness:
  "let s = demo_gw\<lparr>gw_tx_msgq := [[1, 0xE3, 9]], gw_net_link_up := True, data_sock := True\<rparr> in
   udp_sent (udp_tx_round demo_gw_env (snd (gw_cmd_handler demo_gw_env None (0, 0) 0x14 [10, 0, 0, 7, 0x25, 0x80] s))) =
     [([10, 0, 0, 7], 0x2580, [1, 0xE3, 9])]"
proof -
  let ?s = "demo_gw\<lparr>gw_tx_msgq := [[1, 0xE3, 9]], gw_net_link_up := True, data_sock := True\<rparr>"
  have "be16_at [0x25, 0x80] = 0x2580" by code_simp
  then show ?thesis
    using set_host_redirects [OF demo_inet_law, of "[10, 0, 0, 7, 0x25, 0x80]" ?s "[1, 0xE3, 9]" "[]" _ None "(0, 0)", OF _ _ _ _ _ refl]
    by (simp add: Let_def demo_gw_def)
qed

section \<open>The error lamp\<close>

text \<open>
  The lamp the failed radio start has lit is switched off by the self test that is still running, though the
  error is latched.
\<close>
lemma selftest_hides_error:
  "\<not> g_radio_ready E \<Longrightarrow> error_latched (gw_main E id s) \<and> led_err (gw_main E id s)
     \<and> \<not> led_err (err_selftest_work_handler (gw_main E id s)) \<and> error_latched (err_selftest_work_handler (gw_main E id s))"
  by (simp add: gw_main_def gw_rf24_init_def gw_led_error_on_def gw_led_sys_on_def err_selftest_work_handler_def)

end
