(* ===== verification/RadioTheorems.thy ===== *)
theory RadioTheorems imports HandlerTheorems GatewayTheorems RfCryptTheorems begin

text \<open>
  What goes on the air when a frame is sent, and that a framed message is read back by a receiver in step.
  Handler and gateway composed over the radio: a joystick report ends as a datagram at the host, a scanner
  datagram of the host ends in the handler's display data - or, when it is too long, behind the handler's buffer.
\<close>

section \<open>On the air\<close>

text \<open>
  \<open>air\<close> is the transmit queue of the chip: a payload write appends to it, a flush empties it, and nothing else
  changes it.
\<close>

definition nrf_air_law :: "'w nrf_env \<Rightarrow> ('w \<Rightarrow> u8 \<Rightarrow> bytes) \<Rightarrow> ('w \<Rightarrow> bool) \<Rightarrow> ('w \<Rightarrow> bytes list) \<Rightarrow> bool" where
  "nrf_air_law E reg ce air \<longleftrightarrow> nrf_chip_law E reg ce
     \<and> (\<forall>tx w. air (snd (snd (spi E tx w))) = (if hd tx = W_TX_PAYLOAD then air w @ [tl tx] else if hd tx = FLUSH_TX then [] else air w))
     \<and> (\<forall>b w. air (ce_pin E b w) = air w)"

lemma chip_air_law: "nrf_air_law (chip_env\<lparr>has_power := p\<rparr>) chip_regs chip_ce chip_tx"
proof -
  have "nrf_chip_law (chip_env\<lparr>has_power := p\<rparr>) chip_regs chip_ce" using chip_law by (simp add: nrf_chip_law_def)
  then show ?thesis
    by (auto simp: nrf_air_law_def chip_env_def chip_next_def Let_def nrf_writes_def nrf_cmd_defs)
qed

text \<open>The interrupt thread completes the send: acknowledged at the first attempt.\<close>

definition sched_acks :: "'w sched \<Rightarrow> bool" where
  "sched_acks sch \<longleftrightarrow> (\<forall>d. fst (sch 0) d = d\<lparr>tx_done := True, last_status := BIT8 TX_DS\<rparr>)"

lemma send_on_air:
  assumes "nrf_air_law E reg ce air" "sched_acks sch" "b \<noteq> []" "length b \<le> NRF24_MAX_PAYLOAD"
  shows "fst (fst (send_retry E sch b RF24_TX_RETRIES r d)) = 0"
    "acked (snd (fst (send_retry E sch b RF24_TX_RETRIES r d)))"
    "air (nrf_w (snd (send_retry E sch b RF24_TX_RETRIES r d))) = [b]"
proof -
  have law: "nrf_chip_law E reg ce" and
    air: "air (snd (snd (spi E tx w))) = (if hd tx = W_TX_PAYLOAD then air w @ [tl tx] else if hd tx = FLUSH_TX then [] else air w)"
    "air (ce_pin E p w) = air w" for tx p w
    using assms(1) by (simp_all add: nrf_air_law_def)
  have wr: "air (snd (reg_write_locked E L01REG_CONFIG v w)) = air w" "air (snd (reg_write_locked E L01REG_STATUS v w)) = air w"
    "air (snd (reg_read_locked E L01REG_CONFIG j w)) = air w" "air (snd (cmd_locked E FLUSH_TX w)) = []"
    "air (snd (write_tx_payload_locked E b w)) = air w @ [b]" for v w j
    by (simp_all add: reg_write_locked_def reg_read_locked_def cmd_locked_def write_tx_payload_locked_def case_prod_beta Let_def air
        nrf_cmd_defs nrf_reg_defs)
  have mode: "air (nrf_w (snd (set_mode_locked E m d))) = air (nrf_w d)" for m d
    by (simp add: set_mode_locked_def case_prod_beta Let_def wr air)
  have w: "fst (write_tx_payload_locked E b w) = 0" for w
    using nrf_law(1) [OF law] by (simp add: write_tx_payload_locked_def case_prod_beta Let_def)
  have n: "BIT8 TX_DS AND BIT8 MAX_RT = 0" by (simp add: nrf_bit_defs)
  obtain during t bo where s0: "sch 0 = (during, t, bo)" by (cases "sch 0") auto
  have dur: "during d = d\<lparr>tx_done := True, last_status := BIT8 TX_DS\<rparr>" for d
    using assms(2) by (simp add: sched_acks_def s0)
  define R where "R = nrf24_send E during t b d"
  have R: "fst (fst R) = 0" "\<exists>x. snd (fst R) = Some x \<and> acked x" "air (nrf_w (snd R)) = [b]"
    using assms(3,4) by (simp_all add: R_def nrf24_send_def case_prod_beta Let_def set_mode_law [OF law] w dur n mode wr air)
  have e: "send_retry E sch b RF24_TX_RETRIES r d = ((fst (fst R), case snd (fst R) of None \<Rightarrow> r | Some x \<Rightarrow> x), snd R)"
    using R(1) by (subst send_retry.simps) (simp add: s0 case_prod_beta Let_def flip: R_def)
  show "fst (fst (send_retry E sch b RF24_TX_RETRIES r d)) = 0"
    "acked (snd (fst (send_retry E sch b RF24_TX_RETRIES r d)))"
    "air (nrf_w (snd (send_retry E sch b RF24_TX_RETRIES r d))) = [b]"
    using R by (auto simp: e)
qed

section \<open>Framing\<close>

text \<open>Sender and receiver in step: without encryption always, with it when fewer than 32 frames were lost.\<close>

definition link_sync :: "bool \<Rightarrow> crypt_st \<Rightarrow> crypt_st \<Rightarrow> bool" where
  "link_sync crypt tc rc = (\<not> crypt \<or> (\<exists>g\<le>31. in_sync g tc rc))"

lemma rf_frame_read:
  assumes "link_sync crypt tc rc" "length d \<le> rf_data_max crypt"
  obtains f tc' rc' where "rf_frame crypt i d tc = (Some f, tc')" "rf_unframe crypt f rc = (Some (put_be16 i @ d), rc')"
    "2 \<le> length f" "length f \<le> 32"
proof (cases crypt)
  case True
  then obtain g where g: "in_sync g tc rc" "g \<le> 31" using assms(1) by (auto simp: link_sync_def)
  have l: "2 \<le> length (put_be16 i @ d)" "length (put_be16 i @ d) \<le> 31"
    using assms(2) True by (simp_all add: rf_data_max_def RF24_PAYLOAD_MAX_def RF24_ID_SIZE_def)
  show ?thesis
    by (rule that [of "ucast (tx_counter tc) # ctr_xor (crypt_key tc) (tx_counter tc) (put_be16 i @ d)"
          "tc\<lparr>tx_counter := tx_counter tc + 1\<rparr>" "rc\<lparr>rx_counter := tx_counter tc, rx_initialized := True\<rparr>"])
      (use True seal_ok [OF l, of tc] open_in_sync [OF g l] l in \<open>simp_all add: rf_frame_def rf_unframe_def\<close>)
next
  case False
  then show ?thesis using assms(2)
    by (intro that [of "put_be16 i @ d" tc rc])
      (simp_all add: rf_frame_def rf_unframe_def rf_data_max_def RF24_PAYLOAD_MAX_def RF24_ID_SIZE_def)
qed

section \<open>Concrete instances\<close>

definition demo_acks :: "nrf_chip sched" where
  "demo_acks i = (\<lambda>d. d\<lparr>tx_done := True, last_status := BIT8 TX_DS\<rparr>, 3, id)"

definition demo_gateway :: "nrf_chip gateway" where
  "demo_gateway = demo_gw\<lparr>gw_host_ip := N2E_GW_HOST_DEFAULT_IP, gw_host_port := 9602, gw_net_link_up := True, data_sock := True,
     gw_radio := (nrf24_data_zero (chip_zero []))\<lparr>nrf_ready := True, nrf24_data.rx_msgq := Some (8, [])\<rparr>\<rparr>"

lemma demo_host_text: "pton_std N2E_GW_HOST_DEFAULT_IP = Some [192, 168, 11, 150]"
  by code_simp

definition demo_joystick :: "nrf_chip handler" where
  "demo_joystick = demo_handler\<lparr>connect_type := RF24_TYPE, h_events := RF24_EVENT, h_button := 1,
     h_radio := (nrf24_data_zero (chip_zero []))\<lparr>nrf_ready := True, nrf24_data.rx_msgq := Some (8, [])\<rparr>\<rparr>"

lemma demo_radio [simp]: "sched_acks demo_acks" "link_sync b crypt_init crypt_init"
    "nrf_air_law (nrf demo_h_env) chip_regs chip_ce chip_tx" "nrf_air_law (g_nrf demo_gw_env) chip_regs chip_ce chip_tx"
  by (auto simp: sched_acks_def demo_acks_def link_sync_def in_sync_def crypt_init_def demo_h_env_def demo_gw_env_def
      chip_air_law intro: exI [of _ 0])

section \<open>From the joystick to the host\<close>

lemma h_send_on_air:
  assumes "nrf_air_law (nrf E) reg ce air" "radio_ready E" "sched_acks sch" "link_sync (crypt_on E) (h_crypt h) c"
    and "length d \<le> rf_data_max (crypt_on E)"
  obtains f c' where "air (nrf_w (h_radio (snd (rf24_data_send E sch i d h)))) = [f]" "fst (rf24_data_send E sch i d h)"
    "rf_unframe (crypt_on E) f c = (Some (put_be16 i @ d), c')" "2 \<le> length f" "length f \<le> 32"
proof -
  obtain f tc' rc' where f: "rf_frame (crypt_on E) i d (h_crypt h) = (Some f, tc')"
    "rf_unframe (crypt_on E) f c = (Some (put_be16 i @ d), rc')" "2 \<le> length f" "length f \<le> 32"
    using rf_frame_read [OF assms(4,5)] by metis
  have "f \<noteq> []" using f(3) by auto
  note on = send_on_air [OF assms(1,3) this f(4) [folded NRF24_MAX_PAYLOAD_def]]
  have "h_radio (rf24_update_rssi a r s) = h_radio s" for a r and s :: "'a handler"
    by (simp add: rf24_update_rssi_def Let_def show_call_def)
  then show ?thesis using assms(2,5) f on
    by (intro that [of f rc']) (simp_all add: rf24_data_send_def case_prod_beta Let_def)
qed

text \<open>
  C31. A joystick report reaches the host: when the handler, awake and on the radio link, measures its angles and
  the frame is acknowledged, the frame on the air, received by a gateway in step with it, makes the gateway send
  the host exactly one datagram - the identifier 0x1E3 and the report, in which the host reads the angles of the
  handler as signed numbers and its button.
\<close>
theorem joystick_reaches_host:
  assumes "nrf_air_law (nrf E) reg ce air" "radio_ready E" "sched_acks sch" "\<not> sleeping h" "connect_type h \<noteq> CAN_TYPE"
    and "samples_ok (x_samples h)" "samples_ok (y_samples h)" "h' = adc_read_round E sch readings now h"
    and "link_sync (crypt_on E) (h_crypt h) (gw_cipher g)" "g_crypt G = crypt_on E"
    and "nrf24_data.rx_msgq (gw_radio g) = Some (8, [])" "gw_tx_msgq g = []" "gw_net_link_up g" "data_sock g"
    and "inet_pton G (gw_host_ip g) = Some ip"
  shows "let f = hd (air (nrf_w (h_radio h')));
      g' = udp_tx_round G (gw_rf24_rx_round G sch' t (g\<lparr>gw_radio := deliver f (gw_radio g)\<rparr>)) in
    \<exists>d. udp_sent g' = udp_sent g @ [(ip, gw_host_port g, d)] \<and> length d = 10 \<and> be16_at d = HANDLER_STATE
      \<and> sint (be16_at (drop 2 d)) = x_degree h' \<and> sint (be16_at (drop 4 d)) = y_degree h' \<and> d ! 6 = h_button h"
proof -
  obtain h1 where h1: "h' = snd (send_handler_state E sch (state_report h1) h1)" "h_crypt h1 = h_crypt h" "\<not> sleeping h1"
    "connect_type h1 \<noteq> CAN_TYPE" "state_report h' = state_report h1" "h_button h1 = h_button h"
  proof -
    define xy where "xy = sample_rounds 0 (take XY_SAMPLE_COUNT readings) (x_samples h, y_samples h)"
    define h0 where "h0 = h\<lparr>x_samples := fst xy, y_samples := snd xy\<rparr>"
    define x where "x = quantise (trim_avg (fst xy))"
    define y where "y = quantise (trim_avg (snd xy))"
    define h1 where "h1 = (if x \<noteq> x_degree h0 \<or> y \<noteq> y_degree h0
      then h0\<lparr>last_activity_time := now, x_degree := x, y_degree := y\<rparr> else h0)"
    have keep: "state_report (snd (send_handler_state E sch d s)) = state_report s" for d s
      by (simp add: state_report_def send_handler_state_def handler_can_send_def rf24_data_send_def rf24_update_rssi_def
          show_call_def case_prod_beta Let_def split: option.split)
    have "h' = snd (send_handler_state E sch (state_report h1) h1)"
      using assms(4) by (simp add: assms(8) adc_read_round_def case_prod_beta Let_def xy_def h0_def x_def y_def h1_def)
    then show ?thesis using assms(4,5) by (intro that [of h1]) (simp_all add: keep h1_def h0_def)
  qed
  have len: "length (state_report h1) = 8" by (simp add: state_report_def)
  then have le: "length (state_report h1) \<le> rf_data_max (crypt_on E)"
    by (simp add: rf_data_max_def RF24_PAYLOAD_MAX_def RF24_ID_SIZE_def)
  have sync: "link_sync (crypt_on E) (h_crypt h1) (gw_cipher g)" using assms(9) h1(2) by simp
  obtain f c' where f0: "air (nrf_w (h_radio (snd (rf24_data_send E sch HANDLER_STATE (state_report h1) h1)))) = [f]"
    and f1: "rf_unframe (crypt_on E) f (gw_cipher g) = (Some (put_be16 HANDLER_STATE @ state_report h1), c')" "2 \<le> length f"
    using h_send_on_air [OF assms(1-3) sync le] by metis
  have "h' = snd (rf24_data_send E sch HANDLER_STATE (state_report h1) h1)"
    using h1(1,3,4) by (simp add: send_handler_state_def case_prod_beta Let_def)
  with f0 f1 have f: "air (nrf_w (h_radio h')) = [f]"
    "rf_unframe (crypt_on E) f (gw_cipher g) = (Some (put_be16 HANDLER_STATE @ state_report h1), c')" "2 \<le> length f" by simp_all
  let ?d = "put_be16 HANDLER_STATE @ state_report h1"
  have ids: "HANDLER_STATE \<noteq> TEST_FRAME" by (simp add: can_id_vals)
  have "udp_sent (udp_tx_round G (gw_rf24_rx_round G sch' t (g\<lparr>gw_radio := deliver f (gw_radio g)\<rparr>))) =
      udp_sent g @ [(ip, gw_host_port g, ?d)]"
    using assms(10-15) f(2,3) ids len
    by (simp add: gw_rf24_rx_round_def deliver_def k_msgq_put_def rf24_rx_get_def RF24_ID_SIZE_def gw_led_rf24_activity_def
        gw_udp_send_def GW_TX_FRAME_MAX_def udp_tx_round_def gw_udp_do_send_def case_prod_beta Let_def)
  moreover have "sint (be16_at (state_report h1)) = x_degree h'" "sint (be16_at (drop 2 (state_report h1))) = y_degree h'"
    using adc_reports_angles [OF assms(6,7,4,8)] h1(5) by simp_all
  moreover have "drop 4 ?d = drop 2 (state_report h1)" "?d ! 6 = h_button h"
    by (simp_all add: put_be16_def state_report_def h1(6))
  ultimately show ?thesis by (simp add: Let_def f(1) len)
qed

theorem joystick_reaches_host_witness:
  "let h' = adc_read_round demo_h_env demo_acks (replicate 10 [Some 1500, Some 2700]) 0 demo_joystick; f = hd (chip_tx (nrf_w (h_radio h')));
      g' = udp_tx_round demo_gw_env (gw_rf24_rx_round demo_gw_env demo_acks 0 (demo_gateway\<lparr>gw_radio := deliver f (gw_radio demo_gateway)\<rparr>)) in
    \<exists>d. udp_sent g' = [([192, 168, 11, 150], 9602, d)] \<and> length d = 10 \<and> be16_at d = HANDLER_STATE
      \<and> sint (be16_at (drop 2 d)) = x_degree h' \<and> sint (be16_at (drop 4 d)) = y_degree h' \<and> d ! 6 = 1"
proof -
  define h' where "h' = adc_read_round demo_h_env demo_acks (replicate 10 [Some 1500, Some 2700]) 0 demo_joystick"
  have "samples_ok (replicate 10 0)" by (simp add: samples_ok_def XY_SAMPLE_COUNT_def list_all_iff)
  moreover have "RF24_TYPE \<noteq> CAN_TYPE" by (simp add: RF24_TYPE_def CAN_TYPE_def)
  ultimately have "let f = hd (chip_tx (nrf_w (h_radio h')));
      g' = udp_tx_round demo_gw_env (gw_rf24_rx_round demo_gw_env demo_acks 0 (demo_gateway\<lparr>gw_radio := deliver f (gw_radio demo_gateway)\<rparr>)) in
    \<exists>d. udp_sent g' = udp_sent demo_gateway @ [([192, 168, 11, 150], gw_host_port demo_gateway, d)] \<and> length d = 10
      \<and> be16_at d = HANDLER_STATE \<and> sint (be16_at (drop 2 d)) = x_degree h' \<and> sint (be16_at (drop 4 d)) = y_degree h'
      \<and> d ! 6 = h_button demo_joystick"
    by (intro joystick_reaches_host [OF demo_radio(3) _ demo_radio(1) _ _ _ _ h'_def])
      (simp_all add: demo_joystick_def demo_handler_def demo_gateway_def demo_gw_def demo_h_env_def demo_host_text demo_gw_env_def)
  then show ?thesis by (simp add: h'_def demo_gateway_def demo_gw_def demo_joystick_def)
qed

section \<open>From the host to the display\<close>

lemma g_send_on_air:
  assumes "nrf_air_law (g_nrf G) reg ce air" "g_radio_ready G" "sched_acks sch" "link_sync (g_crypt G) (gw_cipher g) c"
    and "length d \<le> rf_data_max (g_crypt G)"
  obtains f c' where "air (nrf_w (gw_radio (snd (gw_rf24_send G sch t i d g)))) = [f]"
    "rf_unframe (g_crypt G) f c = (Some (put_be16 i @ d), c')" "2 \<le> length f" "length f \<le> 32"
proof -
  obtain f tc' rc' where f: "rf_frame (g_crypt G) i d (gw_cipher g) = (Some f, tc')"
    "rf_unframe (g_crypt G) f c = (Some (put_be16 i @ d), rc')" "2 \<le> length f" "length f \<le> 32"
    using rf_frame_read [OF assms(4,5)] by metis
  have "f \<noteq> []" using f(3) by auto
  note on = send_on_air [OF assms(1,3) this f(4) [folded NRF24_MAX_PAYLOAD_def]]
  have "gw_radio (gw_led_rf24_activity t s) = gw_radio s" for s :: "'a gateway"
    by (simp add: gw_led_rf24_activity_def Let_def)
  then show ?thesis using assms(2,5) f on
    by (intro that [of f rc']) (simp_all add: gw_rf24_send_def case_prod_beta Let_def)
qed

text \<open>
  C32. What a scanner datagram of the host does in the handler.  The gateway relays a datagram with a scanner
  identifier as long as its data fit a frame (30 bytes, 29 encrypted), and the handler, awake and on the radio
  link, parses them exactly like the CAN frame with that identifier - when there are at most eight bytes; longer
  data are copied beyond the eight-byte buffer of the handler's receive thread.
\<close>
theorem scanner_datagram_at_handler:
  assumes "nrf_air_law (g_nrf G) reg ce air" "g_radio_ready G" "sched_acks sch"
    and "i \<in> {OVERBREAK_LASER, COORD_XY, COORD_Z}" "length d \<le> rf_data_max (g_crypt G)"
    and "link_sync (g_crypt G) (gw_cipher g) (h_crypt h)" "crypt_on E = g_crypt G"
    and "\<not> sleeping h" "h_events h AND RF24_EVENT \<noteq> 0" "nrf24_data.rx_msgq (h_radio h) = Some (8, [])"
    and "f = hd (air (nrf_w (gw_radio (udp_data_rx G sch t (put_be16 i @ d) g))))"
  shows "rel_option (\<lambda>a b. scanner a = scanner b \<and> shown a = shown b)
    (rf24_rx_round E sch' (h\<lparr>h_radio := deliver f (h_radio h)\<rparr>))
    (if length d \<le> 8 then Some (mod_can_parse_scanner (ucast i) (pad8 d) h) else None)"
proof -
  have "length d \<le> 30" using assms(5) by (cases "g_crypt G") (simp_all add: rf_data_max_def RF24_PAYLOAD_MAX_def RF24_ID_SIZE_def)
  then have "udp_data_rx G sch t (put_be16 i @ d) g = snd (gw_rf24_send G sch t i d g)"
    using assms(4) by (auto simp: udp_data_rx_def)
  moreover obtain f' c' where f': "air (nrf_w (gw_radio (snd (gw_rf24_send G sch t i d g)))) = [f']"
    "rf_unframe (g_crypt G) f' (h_crypt h) = (Some (put_be16 i @ d), c')" "2 \<le> length f'"
    using g_send_on_air [OF assms(1-3,6,5)] by metis
  ultimately have f: "f = f'" using assms(11) by simp
  have ids: "i \<noteq> TEST_FRAME" using assms(4) by (auto simp: can_id_vals)
  have parse: "scanner (mod_can_parse_scanner j b (s\<lparr>h_radio := x, h_crypt := y\<rparr>)) = scanner (mod_can_parse_scanner j b s)"
    "shown (mod_can_parse_scanner j b (s\<lparr>h_radio := x, h_crypt := y\<rparr>)) = shown (mod_can_parse_scanner j b s)"
    for j b x y and s :: "'b handler"
    by (simp_all add: mod_can_parse_scanner_def show_call_def Let_def)
  show ?thesis
    using assms(4,7-10) f'(2,3) ids
    by (auto simp: f rf24_rx_round_def deliver_def k_msgq_put_def rf24_rx_get_def RF24_ID_SIZE_def rf24_dispatch_def
        scanner_frame_def parse case_prod_beta Let_def)
qed

theorem scanner_datagram_at_handler_witness:
  "let f = \<lambda>d. hd (chip_tx (nrf_w (gw_radio (udp_data_rx demo_gw_env demo_acks 0 (put_be16 COORD_XY @ d) demo_gateway))));
      h = \<lambda>d. rf24_rx_round demo_h_env demo_acks (demo_joystick\<lparr>h_radio := deliver (f d) (h_radio demo_joystick)\<rparr>) in
    map_option (\<lambda>s. coord_y (scanner s)) (h [0, 0, 0, 1, 0, 0, 0, 2]) = Some 2 \<and> h (replicate 9 0) = None"
proof -
  define f where "f d = hd (chip_tx (nrf_w (gw_radio (udp_data_rx demo_gw_env demo_acks 0 (put_be16 COORD_XY @ d) demo_gateway))))" for d
  define h where "h d = rf24_rx_round demo_h_env demo_acks (demo_joystick\<lparr>h_radio := deliver (f d) (h_radio demo_joystick)\<rparr>)" for d
  have ev: "RF24_EVENT \<noteq> 0" by (simp add: RF24_EVENT_def)
  have r: "rel_option (\<lambda>a b. scanner a = scanner b \<and> shown a = shown b) (h d)
      (if length d \<le> 8 then Some (mod_can_parse_scanner (ucast COORD_XY) (pad8 d) demo_joystick) else None)"
    if "length d \<le> 29" for d
    unfolding h_def
    by (rule scanner_datagram_at_handler [OF demo_radio(4) _ demo_radio(1) _ _ _ _ _ _ _ f_def])
      (use that ev in \<open>simp_all add: demo_joystick_def demo_handler_def demo_gateway_def demo_gw_def demo_h_env_def demo_gw_env_def rf_data_max_def
        RF24_PAYLOAD_MAX_def RF24_ID_SIZE_def\<close>)
  have "coord_y (scanner (mod_can_parse_scanner (ucast COORD_XY) (pad8 [0, 0, 0, 1, 0, 0, 0, 2]) demo_joystick)) = 2" by code_simp
  with r [of "[0, 0, 0, 1, 0, 0, 0, 2]"] r [of "replicate 9 0"] show ?thesis
    by (auto simp: option_rel_Some2 f_def h_def Let_def)
qed

end
