(* ===== verification/Toe.thy ===== *)
theory Toe imports Prelude begin

text \<open>
  The socket offload driver of the W5500 network chip (\<open>drivers/w5500_toe/w5500_toe.c\<close>): its bus access, the
  table of sockets, the listener pools and the readiness worker.  The chip and the bus are parameters over a world
  \<open>'w\<close>; sockets are indices into the table of eight, the ring of pending connections and the used prefix of
  \<open>lsn_hw\<close> are lists.
\<close>

section \<open>Registers\<close>

definition W5500_BSB :: "u32 \<Rightarrow> u32 \<Rightarrow> u32" where "W5500_BSB bsb r = push_bit 16 bsb OR r"
definition BSB_COMMON :: u32 where "BSB_COMMON = 0x00"
definition BSB_SOCK :: "int \<Rightarrow> u32" where "BSB_SOCK n = of_int (0x01 + n * 4)"
definition BSB_TXBUF :: "int \<Rightarrow> u32" where "BSB_TXBUF n = of_int (0x02 + n * 4)"
definition BSB_RXBUF :: "int \<Rightarrow> u32" where "BSB_RXBUF n = of_int (0x03 + n * 4)"

definition W5500_MR :: u32 where "W5500_MR = 0x0000"
definition W5500_MR_RST :: u8 where "W5500_MR_RST = 0x80"
definition W5500_GAR :: u32 where "W5500_GAR = 0x0001"
definition W5500_SUBR :: u32 where "W5500_SUBR = 0x0005"
definition W5500_SHAR :: u32 where "W5500_SHAR = 0x0009"
definition W5500_SIPR :: u32 where "W5500_SIPR = 0x000F"
definition W5500_IR :: u32 where "W5500_IR = 0x0015"
definition W5500_SIR :: u32 where "W5500_SIR = 0x0016"
definition W5500_SIMR :: u32 where "W5500_SIMR = 0x0018"
definition W5500_RTR :: u32 where "W5500_RTR = 0x0019"
definition W5500_RTR_DEFAULT :: u16 where "W5500_RTR_DEFAULT = 0x07D0"
definition W5500_PHYCFGR :: u32 where "W5500_PHYCFGR = 0x002E"
definition W5500_PHYCFGR_LNK :: u8 where "W5500_PHYCFGR_LNK = 0x80"

definition W5500_Sn_MR :: u32 where "W5500_Sn_MR = 0x0000"
definition W5500_Sn_CR :: u32 where "W5500_Sn_CR = 0x0001"
definition W5500_Sn_IR :: u32 where "W5500_Sn_IR = 0x0002"
definition W5500_Sn_SR :: u32 where "W5500_Sn_SR = 0x0003"
definition W5500_Sn_PORT :: u32 where "W5500_Sn_PORT = 0x0004"
definition W5500_Sn_DIPR :: u32 where "W5500_Sn_DIPR = 0x000C"
definition W5500_Sn_DPORT :: u32 where "W5500_Sn_DPORT = 0x0010"
definition W5500_Sn_TX_FSR :: u32 where "W5500_Sn_TX_FSR = 0x0020"
definition W5500_Sn_TX_WR :: u32 where "W5500_Sn_TX_WR = 0x0024"
definition W5500_Sn_RX_RSR :: u32 where "W5500_Sn_RX_RSR = 0x0026"
definition W5500_Sn_RX_RD :: u32 where "W5500_Sn_RX_RD = 0x0028"
definition W5500_Sn_IMR :: u32 where "W5500_Sn_IMR = 0x0016"
definition W5500_Sn_RXMEM_SIZE :: u32 where "W5500_Sn_RXMEM_SIZE = 0x001E"
definition W5500_Sn_TXMEM_SIZE :: u32 where "W5500_Sn_TXMEM_SIZE = 0x001F"

definition Sn_MR_TCP_ND :: u8 where "Sn_MR_TCP_ND = 0x21"
definition Sn_MR_UDP :: u8 where "Sn_MR_UDP = 0x02"
definition Sn_CR_OPEN :: u8 where "Sn_CR_OPEN = 0x01"
definition Sn_CR_LISTEN :: u8 where "Sn_CR_LISTEN = 0x02"
definition Sn_CR_CONNECT :: u8 where "Sn_CR_CONNECT = 0x04"
definition Sn_CR_CLOSE :: u8 where "Sn_CR_CLOSE = 0x10"
definition Sn_CR_SEND :: u8 where "Sn_CR_SEND = 0x20"
definition Sn_CR_RECV :: u8 where "Sn_CR_RECV = 0x40"

definition SR_CLOSED :: u8 where "SR_CLOSED = 0x00"
definition SR_INIT :: u8 where "SR_INIT = 0x13"
definition SR_LISTEN :: u8 where "SR_LISTEN = 0x14"
definition SR_SYNRECV :: u8 where "SR_SYNRECV = 0x16"
definition SR_ESTABLISHED :: u8 where "SR_ESTABLISHED = 0x17"
definition SR_CLOSE_WAIT :: u8 where "SR_CLOSE_WAIT = 0x1C"
definition SR_UDP :: u8 where "SR_UDP = 0x22"

lemmas sr_defs = SR_CLOSED_def SR_INIT_def SR_LISTEN_def SR_SYNRECV_def SR_ESTABLISHED_def SR_CLOSE_WAIT_def SR_UDP_def

definition W5500_NUM_SOCKETS :: nat where "W5500_NUM_SOCKETS = 8"
definition W5500_SOCK_BUF_SIZE :: nat where "W5500_SOCK_BUF_SIZE = 2048"
definition W5500_LISTEN_KEEP :: nat where "W5500_LISTEN_KEEP = 2"
definition W5500_FAST_MIN :: nat where "W5500_FAST_MIN = 32"

section \<open>Bus access\<close>

text \<open>
  The SPI driver: a command of three bytes followed by bytes read or written; \<open>t_stream\<close> is the register-level
  transfer of the same frames (its second argument the bytes sent, \<open>None\<close> for a read), \<open>t_delay\<close> what the chip
  does in a short wait.  A read delivers what the buffer holds afterwards, also when it fails.
\<close>

record 'w toe_env =
  spi_rd :: "bytes \<Rightarrow> nat \<Rightarrow> 'w \<Rightarrow> (int \<times> bytes) \<times> 'w"
  spi_wr :: "bytes \<Rightarrow> bytes \<Rightarrow> 'w \<Rightarrow> int \<times> 'w"
  t_stream :: "bytes \<Rightarrow> bytes option \<Rightarrow> nat \<Rightarrow> 'w \<Rightarrow> bytes \<times> 'w"
  t_delay :: "'w \<Rightarrow> 'w"
  t_uptime :: "'w \<Rightarrow> int"
  t_reserve_fd :: "'w \<Rightarrow> int \<times> 'w"

definition rd_cmd :: "u32 \<Rightarrow> bytes" where
  "rd_cmd addr = [ucast (drop_bit 8 addr), ucast addr, ucast (push_bit 3 (drop_bit 16 addr))]"

definition wr_cmd :: "u32 \<Rightarrow> bytes" where
  "wr_cmd addr = [ucast (drop_bit 8 addr), ucast addr, ucast (push_bit 3 (drop_bit 16 addr)) OR 4]"

definition w5500_read :: "'w toe_env \<Rightarrow> u32 \<Rightarrow> nat \<Rightarrow> 'w \<Rightarrow> (int \<times> bytes) \<times> 'w" where
  "w5500_read E addr len w = spi_rd E (rd_cmd addr) len w"

definition w5500_write :: "'w toe_env \<Rightarrow> u32 \<Rightarrow> bytes \<Rightarrow> 'w \<Rightarrow> int \<times> 'w" where
  "w5500_write E addr data w = spi_wr E (wr_cmd addr) data w"

definition w5500_rd8 :: "'w toe_env \<Rightarrow> u32 \<Rightarrow> 'w \<Rightarrow> u8 \<times> 'w" where
  "w5500_rd8 E addr w = (let ((rc, d), w) = w5500_read E addr 1 w in (hd (d @ [0]), w))"

definition w5500_rd16 :: "'w toe_env \<Rightarrow> u32 \<Rightarrow> 'w \<Rightarrow> u16 \<times> 'w" where
  "w5500_rd16 E addr w = (let ((rc, d), w) = w5500_read E addr 2 w in (be16_at (d @ [0, 0]), w))"

definition w5500_wr8 :: "'w toe_env \<Rightarrow> u32 \<Rightarrow> u8 \<Rightarrow> 'w \<Rightarrow> 'w" where
  "w5500_wr8 E addr v w = snd (w5500_write E addr [v] w)"

definition w5500_wr16 :: "'w toe_env \<Rightarrow> u32 \<Rightarrow> u16 \<Rightarrow> 'w \<Rightarrow> 'w" where
  "w5500_wr16 E addr v w = snd (w5500_write E addr (put_be16 v) w)"

definition sock_reg :: "int \<Rightarrow> u32 \<Rightarrow> u32" where
  "sock_reg hw r = W5500_BSB (BSB_SOCK hw) r"

text \<open>Waiting for the command register to clear, at most 300 polls.\<close>

fun cmd_poll :: "'w toe_env \<Rightarrow> nat \<Rightarrow> int \<Rightarrow> 'w \<Rightarrow> int \<times> 'w" where
  "cmd_poll E 0 hw w = (- EIO, w)"
| "cmd_poll E (Suc n) hw w =
     (let (v, w) = w5500_rd8 E (sock_reg hw W5500_Sn_CR) w in if v = 0 then (0, w) else cmd_poll E n hw (t_delay E w))"

definition w5500_cmd :: "'w toe_env \<Rightarrow> int \<Rightarrow> u8 \<Rightarrow> 'w \<Rightarrow> int \<times> 'w" where
  "w5500_cmd E hw c w = cmd_poll E 300 hw (w5500_wr8 E (sock_reg hw W5500_Sn_CR) c w)"

definition sock_sr :: "'w toe_env \<Rightarrow> int \<Rightarrow> 'w \<Rightarrow> u8 \<times> 'w" where
  "sock_sr E hw w = w5500_rd8 E (sock_reg hw W5500_Sn_SR) w"

definition sock_rsr :: "'w toe_env \<Rightarrow> int \<Rightarrow> 'w \<Rightarrow> u16 \<times> 'w" where
  "sock_rsr E hw w = w5500_rd16 E (sock_reg hw W5500_Sn_RX_RSR) w"

definition sock_fsr :: "'w toe_env \<Rightarrow> int \<Rightarrow> 'w \<Rightarrow> u16 \<times> 'w" where
  "sock_fsr E hw w = w5500_rd16 E (sock_reg hw W5500_Sn_TX_FSR) w"

definition w5500_read_fast :: "'w toe_env \<Rightarrow> u32 \<Rightarrow> nat \<Rightarrow> 'w \<Rightarrow> (int \<times> bytes) \<times> 'w" where
  "w5500_read_fast E addr len w = (let (d, w) = t_stream E (rd_cmd addr) None len w in ((0, d), w))"

definition w5500_write_fast :: "'w toe_env \<Rightarrow> u32 \<Rightarrow> bytes \<Rightarrow> 'w \<Rightarrow> int \<times> 'w" where
  "w5500_write_fast E addr data w = (0, snd (t_stream E (wr_cmd addr) (Some data) (length data) w))"

definition xfer_read :: "'w toe_env \<Rightarrow> u32 \<Rightarrow> nat \<Rightarrow> 'w \<Rightarrow> (int \<times> bytes) \<times> 'w" where
  "xfer_read E addr len w = (if len \<ge> W5500_FAST_MIN then w5500_read_fast E addr len w else w5500_read E addr len w)"

definition xfer_write :: "'w toe_env \<Rightarrow> u32 \<Rightarrow> bytes \<Rightarrow> 'w \<Rightarrow> int \<times> 'w" where
  "xfer_write E addr data w =
     (if length data \<ge> W5500_FAST_MIN then w5500_write_fast E addr data w else w5500_write E addr data w)"

text \<open>The buffers are rings of 2 KiB: a transfer is split where it wraps.\<close>

definition ring_at :: "u32 \<Rightarrow> u16 \<Rightarrow> u32" where
  "ring_at base ptr = base + ucast (ptr AND of_nat (W5500_SOCK_BUF_SIZE - 1))"

definition ring_first :: "u16 \<Rightarrow> nat \<Rightarrow> nat" where
  "ring_first ptr len = min len (W5500_SOCK_BUF_SIZE - unat (ptr AND of_nat (W5500_SOCK_BUF_SIZE - 1)))"

definition sock_buf_read :: "'w toe_env \<Rightarrow> int \<Rightarrow> bool \<Rightarrow> u16 \<Rightarrow> nat \<Rightarrow> 'w \<Rightarrow> (int \<times> bytes) \<times> 'w" where
  "sock_buf_read E hw tx_side ptr len w =
     (let base = W5500_BSB (if tx_side then BSB_TXBUF hw else BSB_RXBUF hw) 0; first = ring_first ptr len;
          ((rc, d), w) = xfer_read E (ring_at base ptr) first w in
      if rc < 0 then ((rc, d), w)
      else if first = len then ((0, d), w)
      else let ((rc, d'), w) = xfer_read E base (len - first) w in ((rc, d @ d'), w))"

definition sock_buf_write :: "'w toe_env \<Rightarrow> int \<Rightarrow> u16 \<Rightarrow> bytes \<Rightarrow> 'w \<Rightarrow> int \<times> 'w" where
  "sock_buf_write E hw ptr buf w =
     (let base = W5500_BSB (BSB_TXBUF hw) 0; first = ring_first ptr (length buf);
          (rc, w) = xfer_write E (ring_at base ptr) (take first buf) w in
      if rc < 0 then (rc, w)
      else if first = length buf then (0, w)
      else xfer_write E base (drop first buf) w)"

text \<open>Closing a hardware socket, and opening one as a listener with up to three attempts.\<close>

definition hw_close :: "'w toe_env \<Rightarrow> int \<Rightarrow> 'w \<Rightarrow> 'w" where
  "hw_close E hw w = snd (w5500_cmd E hw Sn_CR_CLOSE (w5500_wr8 E (sock_reg hw W5500_Sn_IR) 0xFF w))"

fun open_listen_try :: "'w toe_env \<Rightarrow> nat \<Rightarrow> int \<Rightarrow> u16 \<Rightarrow> 'w \<Rightarrow> int \<times> 'w" where
  "open_listen_try E 0 hw port w = (- EIO, w)"
| "open_listen_try E (Suc n) hw port w =
     (let w = w5500_wr8 E (sock_reg hw W5500_Sn_MR) Sn_MR_TCP_ND w; w = w5500_wr16 E (sock_reg hw W5500_Sn_PORT) port w;
          (rc, w) = w5500_cmd E hw Sn_CR_OPEN w in
      if rc < 0 then open_listen_try E n hw port w
      else let (rc, w) = w5500_cmd E hw Sn_CR_LISTEN w in
        if rc < 0 then open_listen_try E n hw port w
        else let (sr, w) = sock_sr E hw w in
          if sr = SR_LISTEN then (0, w) else open_listen_try E n hw port (t_delay E w))"

definition tcp_open_listen :: "'w toe_env \<Rightarrow> int \<Rightarrow> u16 \<Rightarrow> 'w \<Rightarrow> int \<times> 'w" where
  "tcp_open_listen E hw port w = open_listen_try E 3 hw port w"

section \<open>The socket table\<close>

datatype sock_kind = SOCK_STREAM | SOCK_DGRAM | SOCK_other
datatype ip_proto = IPPROTO_default | IPPROTO_TCP | IPPROTO_UDP | IPPROTO_other

datatype toe_err = E_AFNOSUPPORT | E_PROTONOSUPPORT | E_SOCKTNOSUPPORT | E_NFILE | E_NOBUFS | E_INVAL | E_IO | E_BADF
  | E_ISCONN | E_NOTCONN | E_CONNREFUSED | E_INPROGRESS | E_TIMEDOUT | E_OPNOTSUPP | E_AGAIN | E_PIPE | E_DESTADDRREQ
  | E_MSGSIZE | E_CONNRESET | E_NOPROTOOPT | E_NOMEM

record w5500_sock =
  sk_in_use :: bool
  sk_hw :: int
  sk_type :: sock_kind
  sk_proto :: ip_proto
  sk_nonblock :: bool
  sk_recv_to :: int
  sk_send_to :: int
  sk_shut_rd :: bool
  sk_shut_wr :: bool
  sk_err :: "toe_err option"
  sk_port :: u16
  sk_peer :: "(bytes \<times> u16) option"
  sk_listening :: bool
  sk_lsn :: "int list"
  sk_has_fd :: bool
  sk_users :: u8
  sk_zombie :: bool
  sk_pend :: "nat list"
  sk_sem :: bool
  sk_sig :: bool
  sk_notified :: bool

record 'w toe =
  tw :: 'w
  socks :: "w5500_sock list"
  next_ephemeral :: u16
  toe_link_up :: bool
  toe_carrier :: bool
  poll_armed :: bool
  worker_on :: bool
  irq_pending :: bool
  irq_mode :: bool
  toe_mac :: bytes
  hw_broken :: u8
  hw_fail :: "u8 list"
  toe_fds :: "(int \<times> nat) list"

definition sock_zero :: w5500_sock where
  "sock_zero = \<lparr>sk_in_use = False, sk_hw = 0, sk_type = SOCK_other, sk_proto = IPPROTO_default, sk_nonblock = False,
     sk_recv_to = 0, sk_send_to = 0, sk_shut_rd = False, sk_shut_wr = False, sk_err = None, sk_port = 0, sk_peer = None,
     sk_listening = False, sk_lsn = [], sk_has_fd = False, sk_users = 0, sk_zombie = False, sk_pend = [], sk_sem = False,
     sk_sig = False, sk_notified = False\<rparr>"

abbreviation sk :: "'w toe \<Rightarrow> nat \<Rightarrow> w5500_sock" where "sk t i \<equiv> socks t ! i"

definition sk_upd :: "nat \<Rightarrow> (w5500_sock \<Rightarrow> w5500_sock) \<Rightarrow> 'w toe \<Rightarrow> 'w toe" where
  "sk_upd i f t = t\<lparr>socks := (socks t)[i := f (socks t ! i)]\<rparr>"

text \<open>Chip access from the table functions.\<close>

definition on_chip :: "('w \<Rightarrow> 'r \<times> 'w) \<Rightarrow> 'w toe \<Rightarrow> 'r \<times> 'w toe" where
  "on_chip f t = (fst (f (tw t)), t\<lparr>tw := snd (f (tw t))\<rparr>)"

definition chip_do :: "('w \<Rightarrow> 'w) \<Rightarrow> 'w toe \<Rightarrow> 'w toe" where
  "chip_do f t = t\<lparr>tw := f (tw t)\<rparr>"

definition sock_slot_alloc :: "'w toe \<Rightarrow> nat option \<times> 'w toe" where
  "sock_slot_alloc t =
     (case filter (\<lambda>i. \<not> sk_in_use (sk t i)) [0..<W5500_NUM_SOCKETS] of [] \<Rightarrow> (None, t)
      | i # _ \<Rightarrow> (Some i, sk_upd i (\<lambda>_. sock_zero\<lparr>sk_in_use := True, sk_hw := -1, sk_recv_to := -1, sk_send_to := -1\<rparr>) t))"

text \<open>
  A free hardware socket is one no table entry holds, not black-listed, and closed as far as the chip says; the
  listener pools do not count as holders.
\<close>

fun hw_scan :: "'w toe_env \<Rightarrow> bool list \<Rightarrow> u8 \<Rightarrow> nat list \<Rightarrow> 'w \<Rightarrow> int \<times> 'w" where
  "hw_scan E taken broken [] w = (-1, w)"
| "hw_scan E taken broken (i # is) w =
     (if taken ! i \<or> bit broken i then hw_scan E taken broken is w
      else let (sr, w) = sock_sr E (int i) w in if sr = SR_CLOSED then (int i, w) else hw_scan E taken broken is w)"

definition hw_taken :: "w5500_sock list \<Rightarrow> bool list" where
  "hw_taken ss = map (\<lambda>h. list_ex (\<lambda>s. sk_in_use s \<and> sk_hw s = int h) ss) [0..<W5500_NUM_SOCKETS]"

definition hw_alloc :: "'w toe_env \<Rightarrow> 'w toe \<Rightarrow> int \<times> 'w toe" where
  "hw_alloc E t = on_chip (hw_scan E (hw_taken (socks t)) (hw_broken t) [0..<W5500_NUM_SOCKETS]) t"

definition alloc_ephemeral :: "'w toe \<Rightarrow> u16 \<times> 'w toe" where
  "alloc_ephemeral t =
     (let p = next_ephemeral t in
      if p < 49152 then (49152, t\<lparr>next_ephemeral := 49152\<rparr>) else (p, t\<lparr>next_ephemeral := p + 1\<rparr>))"

definition udp_open :: "'w toe_env \<Rightarrow> nat \<Rightarrow> 'w toe \<Rightarrow> int \<times> 'w toe" where
  "udp_open E i t =
     (let (port, t) = (if sk_port (sk t i) \<noteq> 0 then (sk_port (sk t i), t) else alloc_ephemeral t);
          hw = sk_hw (sk t i);
          (rc, t) = on_chip (\<lambda>w. w5500_cmd E hw Sn_CR_OPEN
             (w5500_wr16 E (sock_reg hw W5500_Sn_PORT) port (w5500_wr8 E (sock_reg hw W5500_Sn_MR) Sn_MR_UDP w))) t in
      if rc < 0 then (- EIO, t) else (0, sk_upd i (\<lambda>s. s\<lparr>sk_port := port\<rparr>) t))"

text \<open>An operation in flight keeps the table entry of a socket that is closed meanwhile.\<close>

definition sock_hold :: "nat \<Rightarrow> 'w toe \<Rightarrow> bool \<times> 'w toe" where
  "sock_hold i t =
     (if \<not> sk_in_use (sk t i) \<or> sk_zombie (sk t i) then (False, t)
      else (True, sk_upd i (\<lambda>s. s\<lparr>sk_users := sk_users s + 1\<rparr>) t))"

definition sock_release :: "nat \<Rightarrow> 'w toe \<Rightarrow> 'w toe" where
  "sock_release i t =
     (let t = sk_upd i (\<lambda>s. s\<lparr>sk_users := sk_users s - 1\<rparr>) t in
      if sk_zombie (sk t i) \<and> sk_users (sk t i) = 0 then sk_upd i (\<lambda>s. s\<lparr>sk_in_use := False\<rparr>) t else t)"

definition sock_notify :: "nat \<Rightarrow> 'w toe \<Rightarrow> 'w toe" where
  "sock_notify i t =
     (if sk_notified (sk t i) then t else sk_upd i (\<lambda>s. s\<lparr>sk_notified := True, sk_sig := True, sk_sem := True\<rparr>) t)"

definition sock_notify_drain :: "nat \<Rightarrow> 'w toe \<Rightarrow> 'w toe" where
  "sock_notify_drain i t = sk_upd i (\<lambda>s. s\<lparr>sk_notified := False, sk_sig := False\<rparr>) t"

section \<open>Listeners\<close>

text \<open>Refilling the pool; a hardware socket that fails three times in a row is black-listed.\<close>

fun listener_refill :: "'w toe_env \<Rightarrow> nat \<Rightarrow> nat \<Rightarrow> 'w toe \<Rightarrow> 'w toe" where
  "listener_refill E 0 li t = t"
| "listener_refill E (Suc attempts) li t =
     (if length (sk_lsn (sk t li)) \<ge> W5500_LISTEN_KEEP then t
      else let (hw, t) = hw_alloc E t in
        if hw < 0 then t
        else let (rc, t) = on_chip (tcp_open_listen E hw (sk_port (sk t li))) t in
          if rc < 0 then
            let n = hw_fail t ! nat hw + 1; t = t\<lparr>hw_fail := (hw_fail t)[nat hw := n]\<rparr>;
                t = (if n \<ge> 3 then t\<lparr>hw_broken := set_bit (nat hw) (hw_broken t)\<rparr> else t) in
            listener_refill E attempts li t
          else listener_refill E attempts li
            (sk_upd li (\<lambda>s. s\<lparr>sk_lsn := sk_lsn s @ [hw]\<rparr>) (t\<lparr>hw_fail := (hw_fail t)[nat hw := 0]\<rparr>)))"

definition listener_fill :: "'w toe_env \<Rightarrow> nat \<Rightarrow> 'w toe \<Rightarrow> 'w toe" where
  "listener_fill E li t = listener_refill E W5500_NUM_SOCKETS li t"

definition listener_pool_remove :: "nat \<Rightarrow> nat \<Rightarrow> 'w toe \<Rightarrow> 'w toe" where
  "listener_pool_remove li idx t = sk_upd li (\<lambda>s. s\<lparr>sk_lsn := take idx (sk_lsn s) @ drop (Suc idx) (sk_lsn s)\<rparr>) t"

definition listener_promote :: "'w toe_env \<Rightarrow> nat \<Rightarrow> nat \<Rightarrow> 'w toe \<Rightarrow> 'w toe" where
  "listener_promote E li idx t =
     (let hw = sk_lsn (sk t li) ! idx in
      if length (sk_pend (sk t li)) \<ge> W5500_NUM_SOCKETS then t
      else case sock_slot_alloc t of (None, t) \<Rightarrow> t
        | (Some c, t) \<Rightarrow>
            let ls = sk t li;
                t = sk_upd c (\<lambda>s. s\<lparr>sk_hw := hw, sk_type := sk_type ls, sk_proto := sk_proto ls, sk_recv_to := sk_recv_to ls,
                  sk_send_to := sk_send_to ls, sk_has_fd := False\<rparr>) t;
                t = listener_fill E li (listener_pool_remove li idx t) in
            sock_notify li (sk_upd li (\<lambda>s. s\<lparr>sk_pend := sk_pend s @ [c]\<rparr>) t))"

definition sock_readable :: "'w toe_env \<Rightarrow> nat \<Rightarrow> 'w toe \<Rightarrow> bool \<times> 'w toe" where
  "sock_readable E i t =
     (let hw = sk_hw (sk t i) in
      if hw < 0 then (False, t)
      else let (n, t) = on_chip (sock_rsr E hw) t in
        if n > 0 then (True, t)
        else if sk_type (sk t i) = SOCK_STREAM then
          let (sr, t) = on_chip (sock_sr E hw) t in (sr = SR_CLOSED \<or> sr = SR_CLOSE_WAIT, t)
        else (False, t))"

section \<open>The readiness worker\<close>

text \<open>
  The pass over one listener's pool.  An established socket is promoted and its place looked at again; the loop
  need not end.
\<close>

partial_function (option) listener_scan :: "'w toe_env \<Rightarrow> nat \<Rightarrow> nat \<Rightarrow> 'w toe \<Rightarrow> 'w toe option" where
  "listener_scan E li idx t =
     (if idx < length (sk_lsn (sk t li)) then
        let hw = sk_lsn (sk t li) ! idx; r = on_chip (sock_sr E hw) t in
        if fst r = SR_ESTABLISHED then listener_scan E li idx (listener_promote E li idx (snd r))
        else if fst r \<noteq> SR_LISTEN \<and> fst r \<noteq> SR_INIT \<and> fst r \<noteq> SR_SYNRECV then
          listener_scan E li idx (listener_pool_remove li idx (chip_do (hw_close E hw) (snd r)))
        else listener_scan E li (Suc idx) (snd r)
      else Some t)"

definition service_sock :: "'w toe_env \<Rightarrow> nat \<Rightarrow> 'w toe \<Rightarrow> 'w toe option" where
  "service_sock E i t =
     (if \<not> sk_in_use (sk t i) then Some t
      else if sk_listening (sk t i) then
        (case listener_scan E i 0 t of None \<Rightarrow> None
         | Some t \<Rightarrow> let t = listener_fill E i t in Some (if sk_pend (sk t i) \<noteq> [] then sock_notify i t else t))
      else if sk_has_fd (sk t i) then
        let (r, t) = sock_readable E i t in Some (if r then sock_notify i t else t)
      else Some t)"

fun service_all :: "'w toe_env \<Rightarrow> nat list \<Rightarrow> 'w toe \<Rightarrow> 'w toe option" where
  "service_all E [] t = Some t"
| "service_all E (i # is) t = (case service_sock E i t of None \<Rightarrow> None | Some t \<Rightarrow> service_all E is t)"

definition service_link :: "'w toe_env \<Rightarrow> 'w toe \<Rightarrow> 'w toe" where
  "service_link E t =
     (let (v, t) = on_chip (w5500_rd8 E (W5500_BSB BSB_COMMON W5500_PHYCFGR)) t; link = (v AND W5500_PHYCFGR_LNK \<noteq> 0) in
      if link \<noteq> toe_link_up t then t\<lparr>toe_link_up := link, toe_carrier := link\<rparr> else t)"

definition w5500_service :: "'w toe_env \<Rightarrow> 'w toe \<Rightarrow> 'w toe option" where
  "w5500_service E t = service_all E [0..<W5500_NUM_SOCKETS] (service_link E t)"

definition w5500_toe_poll_fn :: "'w toe_env \<Rightarrow> 'w toe \<Rightarrow> 'w toe option" where
  "w5500_toe_poll_fn E t = map_option (\<lambda>t. t\<lparr>poll_armed := (\<not> irq_mode t \<and> worker_on t)\<rparr>) (w5500_service E t)"

fun clear_flags :: "'w toe_env \<Rightarrow> u8 \<Rightarrow> nat list \<Rightarrow> 'w \<Rightarrow> 'w" where
  "clear_flags E sir [] w = w"
| "clear_flags E sir (i # is) w =
     clear_flags E sir is (if bit sir i then w5500_wr8 E (sock_reg (int i) W5500_Sn_IR) 0x1F w else w)"

text \<open>\<open>pin\<close> is the level read after the pass: asserted, the work is submitted again.\<close>

definition w5500_toe_irq_fn :: "'w toe_env \<Rightarrow> bool \<Rightarrow> 'w toe \<Rightarrow> 'w toe option" where
  "w5500_toe_irq_fn E pin t =
     (let (sir, t) = on_chip (w5500_rd8 E (W5500_BSB BSB_COMMON W5500_SIR)) t;
          t = chip_do (clear_flags E sir [0..<W5500_NUM_SOCKETS]) t in
      map_option (\<lambda>t. t\<lparr>irq_pending := pin\<rparr>) (w5500_service E t))"

definition w5500_toe_irq_isr :: "'w toe \<Rightarrow> 'w toe" where
  "w5500_toe_irq_isr t = t\<lparr>irq_pending := True\<rparr>"

end
