(* ===== verification/ToeApi.thy ===== *)
theory ToeApi imports Toe begin

text \<open>
  The socket operations of the W5500 driver.  An operation that blocks releases the driver's lock: its argument
  \<open>ws\<close> lists what the rest of the system does each time, and with the list used up the result is \<open>None\<close>, still
  blocked.  \<open>Inl\<close> carries the errno of a result of -1.
\<close>

type_synonym 'w waits = "('w toe \<Rightarrow> 'w toe) list"
type_synonym 'r toe_res = "toe_err + 'r"

section \<open>Sockets and addresses\<close>

definition w5500_toe_socket_create :: "'w toe_env \<Rightarrow> bool \<Rightarrow> sock_kind \<Rightarrow> ip_proto \<Rightarrow> 'w toe \<Rightarrow> int toe_res \<times> 'w toe" where
  "w5500_toe_socket_create E is_inet kind proto t =
     (if \<not> is_inet then (Inl E_AFNOSUPPORT, t)
      else if proto = IPPROTO_other then (Inl E_PROTONOSUPPORT, t)
      else if kind = SOCK_other then (Inl E_SOCKTNOSUPPORT, t)
      else let proto = (if kind = SOCK_STREAM then IPPROTO_TCP else IPPROTO_UDP); (fd, t) = on_chip (t_reserve_fd E) t in
        if fd < 0 then (Inl E_NFILE, t)
        else case sock_slot_alloc t of (None, t) \<Rightarrow> (Inl E_NOBUFS, t)
          | (Some i, t) \<Rightarrow> (Inr fd, (sk_upd i (\<lambda>s. s\<lparr>sk_type := kind, sk_proto := proto, sk_has_fd := True\<rparr>) t)
              \<lparr>toe_fds := toe_fds t @ [(fd, i)]\<rparr>))"

definition w5500_toe_is_supported :: "bool \<Rightarrow> sock_kind \<Rightarrow> bool" where
  "w5500_toe_is_supported inet_or_unspec kind = (inet_or_unspec \<and> (kind = SOCK_STREAM \<or> kind = SOCK_DGRAM))"

definition deadline_from :: "'w toe_env \<Rightarrow> int \<Rightarrow> 'w toe \<Rightarrow> int" where
  "deadline_from E ms t = t_uptime E (tw t) + max ms 0"

text \<open>
  One wait in a slice, the lock released before and taken after: \<open>other\<close> runs in between.  The semaphore is taken
  or the slice expires.
\<close>

definition wait_slice :: "'w toe_env \<Rightarrow> nat \<Rightarrow> int \<Rightarrow> int \<Rightarrow> ('w toe \<Rightarrow> 'w toe) \<Rightarrow> 'w toe \<Rightarrow> bool \<times> 'w toe" where
  "wait_slice E i timeout_ms deadline other t =
     (if timeout_ms = 0 then (False, other t)
      else if timeout_ms > 0 \<and> deadline - t_uptime E (tw t) \<le> 0 then (False, other t)
      else (True, sk_upd i (\<lambda>s. s\<lparr>sk_sem := False\<rparr>) (other t)))"

definition set_peer :: "'w toe_env \<Rightarrow> int \<Rightarrow> bytes \<Rightarrow> u16 \<Rightarrow> 'w \<Rightarrow> 'w" where
  "set_peer E hw ip port w =
     w5500_wr16 E (sock_reg hw W5500_Sn_DPORT) port (snd (w5500_write E (sock_reg hw W5500_Sn_DIPR) ip w))"

definition get_peer :: "'w toe_env \<Rightarrow> int \<Rightarrow> 'w \<Rightarrow> (bytes \<times> u16) \<times> 'w" where
  "get_peer E hw w = (let ((rc, ip), w) = w5500_read E (sock_reg hw W5500_Sn_DIPR) 4 w;
     (port, w) = w5500_rd16 E (sock_reg hw W5500_Sn_DPORT) w in ((ip, port), w))"

text \<open>An address argument is \<open>None\<close> when it is absent, too short or not of the IPv4 family.\<close>

definition w5500_bind :: "'w toe_env \<Rightarrow> nat \<Rightarrow> (bytes \<times> u16) option \<Rightarrow> 'w toe \<Rightarrow> unit toe_res \<times> 'w toe" where
  "w5500_bind E i addr t =
     (case addr of None \<Rightarrow> (Inl E_INVAL, t)
      | Some (ip, port) \<Rightarrow>
          if sk_type (sk t i) = SOCK_STREAM then (Inr (), sk_upd i (\<lambda>s. s\<lparr>sk_port := port\<rparr>) t)
          else let t = (if sk_hw (sk t i) \<ge> 0 \<and> port \<noteq> sk_port (sk t i)
                 then sk_upd i (\<lambda>s. s\<lparr>sk_hw := -1\<rparr>) (chip_do (hw_close E (sk_hw (sk t i))) t) else t) in
            if sk_hw (sk t i) < 0 then
              let (hw, t) = hw_alloc E t; t = sk_upd i (\<lambda>s. s\<lparr>sk_hw := hw\<rparr>) t in
              if hw < 0 then (Inl E_NOBUFS, t)
              else let (rc, t) = udp_open E i (sk_upd i (\<lambda>s. s\<lparr>sk_port := port\<rparr>) t) in
                if rc < 0 then (Inl E_IO, sk_upd i (\<lambda>s. s\<lparr>sk_hw := -1\<rparr>) t) else (Inr (), t)
            else (Inr (), t))"

section \<open>Connecting\<close>

definition refused :: "nat \<Rightarrow> 'w toe \<Rightarrow> unit toe_res \<times> 'w toe" where
  "refused i t = (Inl E_CONNREFUSED, sk_upd i (\<lambda>s. s\<lparr>sk_hw := -1, sk_err := Some E_CONNREFUSED\<rparr>) t)"

fun connect_loop :: "'w toe_env \<Rightarrow> nat \<Rightarrow> int \<Rightarrow> 'w waits \<Rightarrow> 'w toe \<Rightarrow> (unit toe_res \<times> 'w toe) option" where
  "connect_loop E i deadline ws t =
     (if sk_zombie (sk t i) then Some (Inl E_BADF, t)
      else if sk_hw (sk t i) < 0 then Some (Inl E_NOTCONN, t)
      else let (sr, t) = on_chip (sock_sr E (sk_hw (sk t i))) t in
        if sr = SR_ESTABLISHED then Some (Inr (), t)
        else if sr = SR_CLOSED then Some (refused i t)
        else if sk_nonblock (sk t i) then Some (Inl E_INPROGRESS, t)
        else case ws of [] \<Rightarrow> None
          | other # ws \<Rightarrow>
              let (ok, t) = wait_slice E i (sk_send_to (sk t i)) deadline other t in
              if ok then connect_loop E i deadline ws t
              else let (sr, t) = on_chip (sock_sr E (sk_hw (sk t i))) t in
                if sr = SR_ESTABLISHED then Some (Inr (), t)
                else if sr = SR_CLOSED then Some (refused i t)
                else Some (Inl E_TIMEDOUT, sk_upd i (\<lambda>s. s\<lparr>sk_err := Some E_TIMEDOUT\<rparr>) t))"

declare connect_loop.simps [simp del]

definition finish :: "nat \<Rightarrow> ('r \<times> 'w toe) option \<Rightarrow> ('r \<times> 'w toe) option" where
  "finish i r = map_option (\<lambda>(v, t). (v, sock_release i t)) r"

definition connect_tcp :: "'w toe_env \<Rightarrow> nat \<Rightarrow> bytes \<Rightarrow> u16 \<Rightarrow> 'w waits \<Rightarrow> 'w toe \<Rightarrow> (unit toe_res \<times> 'w toe) option" where
  "connect_tcp E i ip port ws t =
     (if sk_hw (sk t i) \<ge> 0 then Some (Inl E_ISCONN, t)
      else let (hw, t) = hw_alloc E t; t = sk_upd i (\<lambda>s. s\<lparr>sk_hw := hw\<rparr>) t in
        if hw < 0 then Some (Inl E_NOBUFS, t)
        else let (rc, t) = on_chip (\<lambda>w. w5500_cmd E hw Sn_CR_OPEN (w5500_wr16 E (sock_reg hw W5500_Sn_PORT) (sk_port (sk t i))
                 (w5500_wr8 E (sock_reg hw W5500_Sn_MR) Sn_MR_TCP_ND w))) t in
          if rc < 0 then Some (Inl E_IO, sk_upd i (\<lambda>s. s\<lparr>sk_hw := -1\<rparr>) t)
          else let (rc, t) = on_chip (\<lambda>w. w5500_cmd E hw Sn_CR_CONNECT (set_peer E hw ip port w)) t in
            if rc < 0 then Some (Inl E_IO, sk_upd i (\<lambda>s. s\<lparr>sk_hw := -1\<rparr>) (chip_do (hw_close E hw) t))
            else connect_loop E i (deadline_from E (sk_send_to (sk t i)) t) ws t)"

definition w5500_connect ::
  "'w toe_env \<Rightarrow> nat \<Rightarrow> (bytes \<times> u16) option \<Rightarrow> 'w waits \<Rightarrow> 'w toe \<Rightarrow> (unit toe_res \<times> 'w toe) option" where
  "w5500_connect E i addr ws t =
     (case addr of None \<Rightarrow> Some (Inl E_INVAL, t)
      | Some (ip, port) \<Rightarrow>
          let (held, t) = sock_hold i t in
          if \<not> held then Some (Inl E_BADF, t)
          else if sk_type (sk t i) = SOCK_DGRAM then
            let t = sk_upd i (\<lambda>s. s\<lparr>sk_peer := Some (ip, port)\<rparr>) t; hw = sk_hw (sk t i);
                t = (if hw \<ge> 0 then chip_do (set_peer E hw ip port) t else t) in
            finish i (Some (Inr (), t))
          else finish i (connect_tcp E i ip port ws t))"

section \<open>Listening and accepting\<close>

definition w5500_listen :: "'w toe_env \<Rightarrow> nat \<Rightarrow> 'w toe \<Rightarrow> unit toe_res \<times> 'w toe" where
  "w5500_listen E i t =
     (let (held, t) = sock_hold i t in
      if \<not> held then (Inl E_BADF, t)
      else if sk_type (sk t i) \<noteq> SOCK_STREAM \<or> sk_hw (sk t i) \<ge> 0 then (Inl E_OPNOTSUPP, sock_release i t)
      else (Inr (), sock_release i (listener_fill E i (sk_upd i (\<lambda>s. s\<lparr>sk_listening := True\<rparr>) t))))"

text \<open>Taking the first pending connection that is still alive; dead ones are reaped.\<close>

fun reap_pending :: "'w toe_env \<Rightarrow> nat \<Rightarrow> nat list \<Rightarrow> 'w toe \<Rightarrow> nat option \<times> 'w toe" where
  "reap_pending E li [] t = (None, t)"
| "reap_pending E li (c # cs) t =
     (let t = sk_upd li (\<lambda>s. s\<lparr>sk_pend := cs\<rparr>) t; hw = sk_hw (sk t c) in
      if hw < 0 then reap_pending E li cs (sk_upd c (\<lambda>s. s\<lparr>sk_in_use := False\<rparr>) t)
      else let (sr, t) = on_chip (sock_sr E hw) t in
        if sr \<noteq> SR_CLOSED then (Some c, t)
        else reap_pending E li cs (sk_upd c (\<lambda>s. s\<lparr>sk_in_use := False\<rparr>) (chip_do (hw_close E hw) t)))"

fun promote_first :: "'w toe_env \<Rightarrow> nat \<Rightarrow> nat \<Rightarrow> int list \<Rightarrow> 'w toe \<Rightarrow> 'w toe" where
  "promote_first E li idx [] t = t"
| "promote_first E li idx (hw # hws) t =
     (let (sr, t) = on_chip (sock_sr E hw) t in
      if sr = SR_ESTABLISHED then listener_promote E li idx t else promote_first E li (Suc idx) hws t)"

fun any_established :: "'w toe_env \<Rightarrow> int list \<Rightarrow> 'w toe \<Rightarrow> bool \<times> 'w toe" where
  "any_established E [] t = (False, t)"
| "any_established E (hw # hws) t =
     (let (sr, t) = on_chip (sock_sr E hw) t in if sr = SR_ESTABLISHED then (True, t) else any_established E hws t)"

fun accept_loop :: "'w toe_env \<Rightarrow> nat \<Rightarrow> int \<Rightarrow> 'w waits \<Rightarrow> 'w toe \<Rightarrow> (nat toe_res \<times> 'w toe) option" where
  "accept_loop E li deadline ws t =
     (let (c, t) = reap_pending E li (sk_pend (sk t li)) t;
          t = promote_first E li 0 (sk_lsn (sk t li)) t;
          t = (if c = None then listener_fill E li t else t) in
      if sk_zombie (sk t li) then Some (Inl E_BADF, t)
      else case c of Some c \<Rightarrow> Some (Inr c, t)
      | None \<Rightarrow>
        if sk_nonblock (sk t li) then Some (Inl E_AGAIN, t)
        else case ws of [] \<Rightarrow> None
          | other # ws \<Rightarrow>
              let (ok, t) = wait_slice E li (sk_recv_to (sk t li)) deadline other t in
              if ok \<or> sk_pend (sk t li) \<noteq> [] then accept_loop E li deadline ws t
              else let (est, t) = any_established E (sk_lsn (sk t li)) t in
                if est then accept_loop E li deadline ws t else Some (Inl E_AGAIN, t))"

declare accept_loop.simps [simp del]

text \<open>The new descriptor, and the peer's address when the caller asks for it.\<close>

definition accept_finish :: "'w toe_env \<Rightarrow> bool \<Rightarrow> nat \<Rightarrow> 'w toe \<Rightarrow> (int \<times> (bytes \<times> u16) option) toe_res \<times> 'w toe" where
  "accept_finish E want_addr c t =
     (let (fd, t) = on_chip (t_reserve_fd E) t in
      if fd < 0 then
        (Inl E_NFILE, sk_upd c (\<lambda>s. s\<lparr>sk_hw := -1, sk_in_use := False\<rparr>) (chip_do (hw_close E (sk_hw (sk t c))) t))
      else let t = (sk_upd c (\<lambda>s. s\<lparr>sk_has_fd := True\<rparr>) t)\<lparr>toe_fds := toe_fds t @ [(fd, c)]\<rparr> in
        if want_addr then let (p, t) = on_chip (get_peer E (sk_hw (sk t c))) t in (Inr (fd, Some p), t)
        else (Inr (fd, None), t))"

definition w5500_accept ::
  "'w toe_env \<Rightarrow> nat \<Rightarrow> bool \<Rightarrow> 'w waits \<Rightarrow> 'w toe \<Rightarrow> ((int \<times> (bytes \<times> u16) option) toe_res \<times> 'w toe) option" where
  "w5500_accept E li want_addr ws t =
     (let (held, t) = sock_hold li t in
      if \<not> held then Some (Inl E_BADF, t)
      else if sk_type (sk t li) \<noteq> SOCK_STREAM then finish li (Some (Inl E_OPNOTSUPP, t))
      else finish li (case accept_loop E li (deadline_from E (sk_recv_to (sk t li)) t) ws t of
          None \<Rightarrow> None
        | Some (Inl e, t) \<Rightarrow> Some (Inl e, t)
        | Some (Inr c, t) \<Rightarrow> Some (accept_finish E want_addr c t)))"

section \<open>Sending\<close>

definition stream_open :: "u8 \<Rightarrow> bool" where
  "stream_open sr \<longleftrightarrow> sr = SR_ESTABLISHED \<or> sr = SR_CLOSE_WAIT"

definition pipe_err :: "nat \<Rightarrow> 'w toe \<Rightarrow> 'w toe" where
  "pipe_err i t = sk_upd i (\<lambda>s. s\<lparr>sk_err := Some E_PIPE\<rparr>) t"

text \<open>
  Waiting for room: up to \<open>polls\<close> short busy waits, then slices; the lock is released in both.  The result carries
  the waits that are left.
\<close>

fun send_space ::
  "'w toe_env \<Rightarrow> nat \<Rightarrow> nat \<Rightarrow> bool \<Rightarrow> int \<Rightarrow> nat \<Rightarrow> 'w waits \<Rightarrow> 'w toe \<Rightarrow> ((unit toe_res \<times> 'w waits) \<times> 'w toe) option" where
  "send_space E i chunk nonblock deadline polls ws t =
     (let (fsr, t) = on_chip (sock_fsr E (sk_hw (sk t i))) t in
      if unat fsr \<ge> chunk then Some ((Inr (), ws), t)
      else if nonblock then Some ((Inl E_AGAIN, ws), t)
      else case ws of [] \<Rightarrow> None
        | other # ws \<Rightarrow>
            (case polls of Suc n \<Rightarrow>
               let t = other t in
               if sk_zombie (sk t i) then Some ((Inl E_BADF, ws), t) else send_space E i chunk nonblock deadline n ws t
             | 0 \<Rightarrow>
               let (ok, t) = wait_slice E i (sk_send_to (sk t i)) deadline other t in
               if sk_zombie (sk t i) then Some ((Inl E_BADF, ws), t)
               else if \<not> ok then Some ((Inl E_TIMEDOUT, ws), sk_upd i (\<lambda>s. s\<lparr>sk_err := Some E_TIMEDOUT\<rparr>) t)
               else let (sr, t) = on_chip (sock_sr E (sk_hw (sk t i))) t in
                 if sk_type (sk t i) = SOCK_STREAM \<and> \<not> stream_open sr then Some ((Inl E_PIPE, ws), pipe_err i t)
                 else send_space E i chunk nonblock deadline 0 ws t))"

declare send_space.simps [simp del]

text \<open>One chunk into the transmit ring, and the SEND command.\<close>

definition put_chunk :: "'w toe_env \<Rightarrow> int \<Rightarrow> (bytes \<times> u16) option \<Rightarrow> bytes \<Rightarrow> 'w \<Rightarrow> int \<times> 'w" where
  "put_chunk E hw peer buf w =
     (let w = (case peer of None \<Rightarrow> w | Some (ip, port) \<Rightarrow> set_peer E hw ip port w);
          (wr, w) = w5500_rd16 E (sock_reg hw W5500_Sn_TX_WR) w;
          (rc, w) = sock_buf_write E hw wr buf w in
      if rc < 0 then (rc, w)
      else w5500_cmd E hw Sn_CR_SEND (w5500_wr16 E (sock_reg hw W5500_Sn_TX_WR) (wr + of_nat (length buf)) w))"

text \<open>\<open>off\<close> bytes have been sent; a partial success hides the error.\<close>

definition sent_or :: "nat \<Rightarrow> toe_err \<Rightarrow> nat toe_res" where
  "sent_or off e = (if off > 0 then Inr off else Inl e)"

function send_loop ::
  "'w toe_env \<Rightarrow> nat \<Rightarrow> (bytes \<times> u16) option \<Rightarrow> bool \<Rightarrow> int \<Rightarrow> nat \<Rightarrow> bytes \<Rightarrow> 'w waits \<Rightarrow> 'w toe \<Rightarrow> (nat toe_res \<times> 'w toe) option" where
  "send_loop E i peer nonblock deadline off rest ws t =
     (if rest = [] then Some (Inr off, t)
      else let (sr, t) = on_chip (sock_sr E (sk_hw (sk t i))) t; stream = (sk_type (sk t i) = SOCK_STREAM);
               chunk = (if stream then min (length rest) W5500_SOCK_BUF_SIZE else length rest) in
        if sk_zombie (sk t i) then Some (sent_or off E_BADF, t)
        else if (if stream then \<not> stream_open sr else sr \<noteq> SR_UDP) then Some (sent_or off E_PIPE, pipe_err i t)
        else case send_space E i chunk nonblock deadline 30 ws t of
            None \<Rightarrow> None
          | Some ((Inl e, ws), t) \<Rightarrow> Some (sent_or off e, t)
          | Some ((Inr u, ws), t) \<Rightarrow>
              let (rc, t) = on_chip (put_chunk E (sk_hw (sk t i)) (if stream then None else peer) (take chunk rest)) t in
              if rc < 0 then Some (sent_or off E_IO, t)
              else send_loop E i peer nonblock deadline (off + chunk) (drop chunk rest) ws t)"
  by pat_completeness auto
termination
  by (relation "measure (\<lambda>(E, i, peer, nb, dl, off, rest, ws, t). length rest)")
    (auto simp: W5500_SOCK_BUF_SIZE_def)

declare send_loop.simps [simp del]

text \<open>
  \<open>dest\<close>: no destination, a malformed one, or an address.  The arguments before the loop decide the peer of a
  datagram and open its hardware socket when there is none.
\<close>

datatype dest_addr = No_dest | Bad_dest | Dest bytes u16

definition send_peer :: "nat \<Rightarrow> dest_addr \<Rightarrow> nat \<Rightarrow> 'w toe \<Rightarrow> (bytes \<times> u16) option toe_res" where
  "send_peer i dest len t =
     (if sk_type (sk t i) \<noteq> SOCK_DGRAM then Inr None
      else case (case dest of Dest ip port \<Rightarrow> Inr (ip, port) | Bad_dest \<Rightarrow> Inl E_INVAL
          | No_dest \<Rightarrow> (case sk_peer (sk t i) of Some p \<Rightarrow> Inr p | None \<Rightarrow> Inl E_DESTADDRREQ)) of
        Inl e \<Rightarrow> Inl e
      | Inr p \<Rightarrow> if len > W5500_SOCK_BUF_SIZE - 8 then Inl E_MSGSIZE else Inr (Some p))"

definition lazy_udp :: "'w toe_env \<Rightarrow> nat \<Rightarrow> 'w toe \<Rightarrow> toe_err option \<times> 'w toe" where
  "lazy_udp E i t =
     (if sk_type (sk t i) = SOCK_DGRAM \<and> sk_hw (sk t i) < 0 then
        let (hw, t) = hw_alloc E t; t = sk_upd i (\<lambda>s. s\<lparr>sk_hw := hw\<rparr>) t in
        if hw < 0 then (Some E_NOBUFS, t)
        else let (rc, t) = udp_open E i t in
          if rc < 0 then (Some E_IO, sk_upd i (\<lambda>s. s\<lparr>sk_hw := -1\<rparr>) t) else (None, t)
      else (None, t))"

definition w5500_sendto ::
  "'w toe_env \<Rightarrow> nat \<Rightarrow> bytes \<Rightarrow> bool \<Rightarrow> dest_addr \<Rightarrow> 'w waits \<Rightarrow> 'w toe \<Rightarrow> (nat toe_res \<times> 'w toe) option" where
  "w5500_sendto E i buf dontwait dest ws t =
     (if buf = [] then Some (Inr 0, t)
      else let nonblock = (sk_nonblock (sk t i) \<or> dontwait); (held, t) = sock_hold i t in
        if \<not> held then Some (Inl E_BADF, t)
        else finish i
          (if sk_shut_wr (sk t i) then Some (Inl E_PIPE, t)
           else case send_peer i dest (length buf) t of Inl e \<Rightarrow> Some (Inl e, t)
           | Inr peer \<Rightarrow>
              let (e, t) = lazy_udp E i t in
              (case e of Some e \<Rightarrow> Some (Inl e, t)
               | None \<Rightarrow>
                  if sk_hw (sk t i) < 0 then Some (Inl E_NOTCONN, t)
                  else send_loop E i peer nonblock (deadline_from E (sk_send_to (sk t i)) t) 0 buf ws t)))"

section \<open>Receiving\<close>

text \<open>A datagram in the ring: the sender's address, its port and the length, then the data.\<close>

definition recv_dgram :: "'w toe_env \<Rightarrow> nat \<Rightarrow> nat \<Rightarrow> 'w toe \<Rightarrow> (bytes \<times> (bytes \<times> u16)) \<times> 'w toe" where
  "recv_dgram E i max_len t =
     (let hw = sk_hw (sk t i);
          (rd, t) = on_chip (w5500_rd16 E (sock_reg hw W5500_Sn_RX_RD)) t;
          ((rc, hdr), t) = on_chip (sock_buf_read E hw False rd 8) t;
          port = be16_at (drop 4 hdr); dlen = be16_at (drop 6 hdr); n = min max_len (unat dlen);
          ((rc, d), t) = on_chip (sock_buf_read E hw False (rd + 8) n) t;
          t = chip_do (\<lambda>w. snd (w5500_cmd E hw Sn_CR_RECV (w5500_wr16 E (sock_reg hw W5500_Sn_RX_RD) (rd + 8 + dlen) w))) t;
          (rsr, t) = on_chip (sock_rsr E hw) t;
          t = (if rsr > 0 then sock_notify i t else sock_notify_drain i t) in
      ((d, (take 4 hdr, port)), t))"

definition recv_stream :: "'w toe_env \<Rightarrow> nat \<Rightarrow> nat \<Rightarrow> u16 \<Rightarrow> bool \<Rightarrow> 'w toe \<Rightarrow> (bytes \<times> (bytes \<times> u16) option) \<times> 'w toe" where
  "recv_stream E i max_len rsr want_addr t =
     (let hw = sk_hw (sk t i);
          (rd, t) = on_chip (w5500_rd16 E (sock_reg hw W5500_Sn_RX_RD)) t; n = min max_len (unat rsr);
          ((rc, d), t) = on_chip (sock_buf_read E hw False rd n) t;
          t = chip_do (\<lambda>w. snd (w5500_cmd E hw Sn_CR_RECV (w5500_wr16 E (sock_reg hw W5500_Sn_RX_RD) (rd + of_nat n) w))) t;
          (rsr, t) = on_chip (sock_rsr E hw) t;
          t = (if rsr = 0 then sock_notify_drain i t else t) in
      if want_addr then let (p, t) = on_chip (get_peer E hw) t in ((d, Some p), t) else ((d, None), t))"

fun recv_loop ::
  "'w toe_env \<Rightarrow> nat \<Rightarrow> nat \<Rightarrow> bool \<Rightarrow> bool \<Rightarrow> int \<Rightarrow> 'w waits \<Rightarrow> 'w toe \<Rightarrow> ((bytes \<times> (bytes \<times> u16) option) toe_res \<times> 'w toe) option" where
  "recv_loop E i max_len want_addr nonblock deadline ws t =
     (let (rsr, t) = on_chip (sock_rsr E (sk_hw (sk t i))) t in
      if sk_zombie (sk t i) then Some (Inl E_BADF, t)
      else if rsr > 0 then
        (if sk_type (sk t i) = SOCK_DGRAM then
           let ((d, p), t) = recv_dgram E i max_len t in Some (Inr (d, if want_addr then Some p else None), t)
         else let (r, t) = recv_stream E i max_len rsr want_addr t in Some (Inr r, t))
      else let (sr, t) = (if sk_type (sk t i) = SOCK_DGRAM then (SR_UDP, t) else on_chip (sock_sr E (sk_hw (sk t i))) t) in
        if sr = SR_CLOSE_WAIT then Some (Inr ([], None), sock_notify_drain i t)
        else if sr = SR_CLOSED then
          Some (Inl E_CONNRESET, sk_upd i (\<lambda>s. s\<lparr>sk_err := Some E_CONNRESET\<rparr>) (sock_notify_drain i t))
        else if nonblock then Some (Inl E_AGAIN, t)
        else case ws of [] \<Rightarrow> None
          | other # ws \<Rightarrow>
              let (ok, t) = wait_slice E i (sk_recv_to (sk t i)) deadline other t in
              if sk_zombie (sk t i) then Some (Inl E_BADF, t)
              else if \<not> ok then Some (Inl E_AGAIN, t)
              else recv_loop E i max_len want_addr nonblock deadline ws t)"

declare recv_loop.simps [simp del]

definition w5500_recvfrom ::
  "'w toe_env \<Rightarrow> nat \<Rightarrow> nat \<Rightarrow> bool \<Rightarrow> bool \<Rightarrow> 'w waits \<Rightarrow> 'w toe \<Rightarrow> ((bytes \<times> (bytes \<times> u16) option) toe_res \<times> 'w toe) option" where
  "w5500_recvfrom E i max_len dontwait want_addr ws t =
     (if max_len = 0 then Some (Inr ([], None), t)
      else let nonblock = (sk_nonblock (sk t i) \<or> dontwait); (held, t) = sock_hold i t in
        if \<not> held then Some (Inl E_BADF, t)
        else finish i
          (if sk_hw (sk t i) < 0 then Some (Inl E_NOTCONN, t)
           else if sk_shut_rd (sk t i) then Some (Inr ([], None), t)
           else recv_loop E i max_len want_addr nonblock (deadline_from E (sk_recv_to (sk t i)) t) ws t))"

section \<open>Closing\<close>

fun close_pool :: "'w toe_env \<Rightarrow> int list \<Rightarrow> 'w \<Rightarrow> 'w" where
  "close_pool E [] w = w"
| "close_pool E (hw # hws) w = close_pool E hws (hw_close E hw w)"

fun close_pending :: "'w toe_env \<Rightarrow> nat list \<Rightarrow> 'w toe \<Rightarrow> 'w toe" where
  "close_pending E [] t = t"
| "close_pending E (c # cs) t =
     (let hw = sk_hw (sk t c);
          t = (if hw \<ge> 0 then sk_upd c (\<lambda>s. s\<lparr>sk_hw := -1\<rparr>) (chip_do (hw_close E hw) t) else t) in
      close_pending E cs (sk_upd c (\<lambda>s. s\<lparr>sk_in_use := False\<rparr>) t))"

definition w5500_close :: "'w toe_env \<Rightarrow> nat \<Rightarrow> 'w toe \<Rightarrow> 'w toe" where
  "w5500_close E i t =
     (if sk_zombie (sk t i) then t
      else let t = sk_upd i (\<lambda>s. s\<lparr>sk_zombie := True, sk_listening := False\<rparr>) t;
               t = sk_upd i (\<lambda>s. s\<lparr>sk_lsn := []\<rparr>) (chip_do (close_pool E (sk_lsn (sk t i))) t);
               hw = sk_hw (sk t i);
               t = (if hw \<ge> 0 then sk_upd i (\<lambda>s. s\<lparr>sk_hw := -1\<rparr>) (chip_do (hw_close E hw) t) else t);
               t = close_pending E (sk_pend (sk t i)) (sk_upd i (\<lambda>s. s\<lparr>sk_pend := []\<rparr>) t);
               t = sock_notify i (sock_notify_drain i t) in
        if sk_users (sk t i) = 0 then sk_upd i (\<lambda>s. s\<lparr>sk_in_use := False\<rparr>) t else t)"

datatype shut_how = SHUT_RD | SHUT_WR | SHUT_RDWR

definition w5500_shutdown :: "'w toe_env \<Rightarrow> nat \<Rightarrow> shut_how \<Rightarrow> 'w toe \<Rightarrow> 'w toe" where
  "w5500_shutdown E i how t =
     (let t = sk_upd i (\<lambda>s. s\<lparr>sk_shut_rd := (how \<noteq> SHUT_WR \<or> sk_shut_rd s), sk_shut_wr := (how \<noteq> SHUT_RD \<or> sk_shut_wr s)\<rparr>) t;
          hw = sk_hw (sk t i);
          t = (if how \<noteq> SHUT_RD \<and> hw \<ge> 0 then sk_upd i (\<lambda>s. s\<lparr>sk_hw := -1\<rparr>) (chip_do (hw_close E hw) t) else t) in
      sock_notify i t)"

section \<open>Options, names, polling\<close>

datatype sock_opt = SO_TYPE | SO_ERROR | SO_RCVTIMEO | SO_SNDTIMEO | SO_other
datatype opt_val = Opt_type sock_kind | Opt_err "toe_err option" | Opt_time int int

text \<open>\<open>is_sock\<close>: the level is SOL\_SOCKET; \<open>fits\<close>: the caller's buffer is long enough.\<close>

definition w5500_getsockopt :: "nat \<Rightarrow> bool \<Rightarrow> sock_opt \<Rightarrow> bool \<Rightarrow> 'w toe \<Rightarrow> opt_val toe_res \<times> 'w toe" where
  "w5500_getsockopt i is_sock opt fits t =
     (if \<not> is_sock then (Inl E_NOPROTOOPT, t)
      else case opt of
        SO_TYPE \<Rightarrow> if \<not> fits then (Inl E_INVAL, t) else (Inr (Opt_type (sk_type (sk t i))), t)
      | SO_ERROR \<Rightarrow> if \<not> fits then (Inl E_INVAL, t)
          else (Inr (Opt_err (sk_err (sk t i))), sk_upd i (\<lambda>s. s\<lparr>sk_err := None\<rparr>) t)
      | SO_other \<Rightarrow> (Inl E_NOPROTOOPT, t)
      | _ \<Rightarrow> let ms = (if opt = SO_RCVTIMEO then sk_recv_to (sk t i) else sk_send_to (sk t i)) in
          if \<not> fits then (Inl E_INVAL, t) else (Inr (Opt_time (max ms 0 div 1000) (max ms 0 mod 1000 * 1000)), t))"

definition w5500_setsockopt :: "nat \<Rightarrow> bool \<Rightarrow> sock_opt \<Rightarrow> (int \<times> int) option \<Rightarrow> 'w toe \<Rightarrow> unit toe_res \<times> 'w toe" where
  "w5500_setsockopt i is_sock opt tv t =
     (if \<not> is_sock then (Inr (), t)
      else if opt = SO_RCVTIMEO \<or> opt = SO_SNDTIMEO then
        (case tv of None \<Rightarrow> (Inl E_INVAL, t)
         | Some (sec, usec) \<Rightarrow>
             let ms = sint (of_int (sec * 1000 + usec div 1000) :: 32 word) in
             (Inr (), sk_upd i (\<lambda>s. if opt = SO_RCVTIMEO then s\<lparr>sk_recv_to := ms\<rparr> else s\<lparr>sk_send_to := ms\<rparr>) t))
      else (Inr (), t))"

definition w5500_getsockname :: "'w toe_env \<Rightarrow> nat \<Rightarrow> 'w toe \<Rightarrow> (bytes \<times> u16) \<times> 'w toe" where
  "w5500_getsockname E i t =
     (let hw = sk_hw (sk t i);
          (port, t) = (if hw \<ge> 0 then on_chip (w5500_rd16 E (sock_reg hw W5500_Sn_PORT)) t else (sk_port (sk t i), t));
          ((rc, ip), t) = on_chip (w5500_read E (W5500_BSB BSB_COMMON W5500_SIPR) 4) t in
      ((ip, port), t))"

definition w5500_getpeername :: "'w toe_env \<Rightarrow> nat \<Rightarrow> 'w toe \<Rightarrow> (bytes \<times> u16) toe_res \<times> 'w toe" where
  "w5500_getpeername E i t =
     (if sk_hw (sk t i) < 0 then (Inl E_NOTCONN, t)
      else let (p, t) = on_chip (get_peer E (sk_hw (sk t i))) t in (Inr p, t))"

record poll_bits =
  pollin :: bool
  pollout :: bool
  pollerr :: bool
  pollhup :: bool

text \<open>The second half of \<open>poll\<close>; \<open>fired\<close>: the event registered before has been raised.\<close>

definition poll_update :: "'w toe_env \<Rightarrow> nat \<Rightarrow> bool \<Rightarrow> bool \<Rightarrow> bool \<Rightarrow> 'w toe \<Rightarrow> poll_bits \<times> 'w toe" where
  "poll_update E i ask_in ask_out fired t =
     (let (r_in, t) = (if ask_in then (if fired then (True, t) else sock_readable E i t) else (False, t));
          bad = (sk_shut_wr (sk t i) \<or> sk_err (sk t i) \<noteq> None);
          (sr, t) = (if sk_hw (sk t i) \<ge> 0 \<and> sk_type (sk t i) = SOCK_STREAM then on_chip (sock_sr E (sk_hw (sk t i))) t
                     else (SR_ESTABLISHED, t));
          (hup, t) = (if sr = SR_CLOSED \<or> sr = SR_CLOSE_WAIT then
             let (n, t) = on_chip (sock_rsr E (sk_hw (sk t i))) t in (n = 0, t) else (False, t)) in
      (\<lparr>pollin = r_in, pollout = (ask_out \<and> \<not> bad), pollerr = (ask_out \<and> bad \<or> sk_err (sk t i) \<noteq> None), pollhup = hup\<rparr>, t))"

definition ioctl_fionread :: "'w toe_env \<Rightarrow> nat \<Rightarrow> 'w toe \<Rightarrow> nat \<times> 'w toe" where
  "ioctl_fionread E i t =
     (let hw = sk_hw (sk t i) in
      if hw < 0 then (0, t)
      else let (rsr, t) = on_chip (sock_rsr E hw) t in
        if sk_type (sk t i) = SOCK_DGRAM \<and> rsr \<ge> 8 then
          let (rd, t) = on_chip (w5500_rd16 E (sock_reg hw W5500_Sn_RX_RD)) t;
              ((rc, hdr), t) = on_chip (sock_buf_read E hw False rd 8) t in (unat (be16_at (drop 6 hdr)), t)
        else (unat rsr, t))"

definition ioctl_getfl :: "nat \<Rightarrow> 'w toe \<Rightarrow> bool" where "ioctl_getfl i t = sk_nonblock (sk t i)"

definition ioctl_setfl :: "nat \<Rightarrow> bool \<Rightarrow> 'w toe \<Rightarrow> 'w toe" where
  "ioctl_setfl i nonblock t = sk_upd i (\<lambda>s. s\<lparr>sk_nonblock := nonblock\<rparr>) t"

section \<open>Start\<close>

text \<open>Configuration of the device tree and the answers of the pin driver; \<open>reset_rc\<close> is \<open>None\<close> without a reset pin.\<close>

record toe_cfg =
  cfg_spi_ready :: bool
  cfg_reset_rc :: "int option"
  cfg_mac :: "bytes option"
  cfg_rand3 :: bytes
  cfg_local_ip :: "bytes option option"
  cfg_netmask :: "bytes option option"
  cfg_gateway :: "bytes option option"
  cfg_irq_ready :: bool
  cfg_irq_rc :: int

fun init_bufs :: "'w toe_env \<Rightarrow> nat list \<Rightarrow> 'w \<Rightarrow> 'w" where
  "init_bufs E [] w = w"
| "init_bufs E (i # is) w = init_bufs E is (w5500_wr8 E (sock_reg (int i) W5500_Sn_TXMEM_SIZE) 0x02
     (w5500_wr8 E (sock_reg (int i) W5500_Sn_RXMEM_SIZE) 0x02 w))"

text \<open>The mask is written to the bare offset, not to the socket's block.\<close>

fun init_irq :: "'w toe_env \<Rightarrow> nat list \<Rightarrow> 'w \<Rightarrow> 'w" where
  "init_irq E [] w = w"
| "init_irq E (i # is) w = init_irq E is (w5500_wr8 E W5500_Sn_IMR 0x1F (w5500_wr8 E (sock_reg (int i) W5500_Sn_IR) 0x1F w))"

definition write_opt :: "'w toe_env \<Rightarrow> u32 \<Rightarrow> bytes option option \<Rightarrow> 'w \<Rightarrow> 'w" where
  "write_opt E r v w = (case v of Some (Some a) \<Rightarrow> snd (w5500_write E (W5500_BSB BSB_COMMON r) a w) | _ \<Rightarrow> w)"

definition init_tables :: "'w toe \<Rightarrow> 'w toe" where
  "init_tables t = t\<lparr>toe_link_up := False, socks := map (\<lambda>s. s\<lparr>sk_hw := -1\<rparr>) (socks t), next_ephemeral := 49152\<rparr>"

definition init_addrs :: "'w toe_env \<Rightarrow> toe_cfg \<Rightarrow> bytes \<Rightarrow> bytes \<Rightarrow> 'w \<Rightarrow> 'w" where
  "init_addrs E C mac ip w = write_opt E W5500_GAR (cfg_gateway C) (write_opt E W5500_SUBR (cfg_netmask C)
     (snd (w5500_write E (W5500_BSB BSB_COMMON W5500_SIPR) ip w)))"

definition init_interrupts :: "'w toe_env \<Rightarrow> toe_cfg \<Rightarrow> 'w toe \<Rightarrow> 'w toe" where
  "init_interrupts E C t =
     (if cfg_irq_ready C then
        let t = chip_do (\<lambda>w. w5500_wr8 E (W5500_BSB BSB_COMMON W5500_SIMR) 0xFF
              (w5500_wr8 E (W5500_BSB BSB_COMMON W5500_IR) 0xFF (init_irq E [0..<W5500_NUM_SOCKETS] w))) t in
        if cfg_irq_rc C < 0 then (chip_do (w5500_wr8 E (W5500_BSB BSB_COMMON W5500_SIMR) 0x00) t)\<lparr>irq_mode := False\<rparr>
        else t\<lparr>irq_mode := True\<rparr>
      else t)"

definition w5500_toe_init :: "'w toe_env \<Rightarrow> toe_cfg \<Rightarrow> 'w toe \<Rightarrow> int \<times> 'w toe" where
  "w5500_toe_init E C t =
     (let t = init_tables t in
      if \<not> cfg_spi_ready C then (- ENODEV, t)
      else if (case cfg_reset_rc C of Some rc \<Rightarrow> rc < 0 | None \<Rightarrow> False) then (the (cfg_reset_rc C), t)
      else let t = chip_do (\<lambda>w. w5500_wr8 E (W5500_BSB BSB_COMMON W5500_MR) 0x00
                 (t_delay E (w5500_wr8 E (W5500_BSB BSB_COMMON W5500_MR) W5500_MR_RST w))) t;
               (rtr, t) = on_chip (w5500_rd16 E (W5500_BSB BSB_COMMON W5500_RTR)) t in
        if rtr \<noteq> W5500_RTR_DEFAULT then (- ENODEV, t)
        else let mac = (case cfg_mac C of Some m \<Rightarrow> m | None \<Rightarrow> [0x00, 0x08, 0xdc] @ cfg_rand3 C);
                 t = (chip_do (init_bufs E [0..<W5500_NUM_SOCKETS]) t)\<lparr>toe_mac := mac\<rparr>;
                 t = chip_do (\<lambda>w. snd (w5500_write E (W5500_BSB BSB_COMMON W5500_SHAR) mac w)) t in
          (case cfg_local_ip C of Some (Some ip) \<Rightarrow>
             (0, (init_interrupts E C (chip_do (init_addrs E C mac ip) t))\<lparr>worker_on := True, poll_armed := True\<rparr>)
           | _ \<Rightarrow> (- EINVAL, t)))"

text \<open>The interface: the address with its mask, and the gateway, when their texts parse; the carrier starts off.\<close>

definition w5500_toe_iface_init :: "toe_cfg \<Rightarrow> bool \<Rightarrow> 'w toe \<Rightarrow> ((bytes \<times> bytes option) option \<times> bytes option) \<times> 'w toe" where
  "w5500_toe_iface_init C addr_added t =
     (((case cfg_local_ip C of Some (Some ip) \<Rightarrow> if addr_added then Some (ip, Option.bind (cfg_netmask C) id) else None | _ \<Rightarrow> None,
        Option.bind (cfg_gateway C) id)), t\<lparr>toe_carrier := False\<rparr>)"

end
