(* ===== verification/ToeChip.thy ===== *)
theory ToeChip imports ToeApi begin

text \<open>
  What the data sheet says of the W5500 that streaming rests on, in terms of the bytes on the bus: the frame
  format, the transmit ring and SEND, the receive ring and RECV.
\<close>

section \<open>Frames\<close>

definition frame_off :: "bytes \<Rightarrow> nat" where "frame_off c = unat (be16_at c)"
definition frame_blk :: "bytes \<Rightarrow> nat" where "frame_blk c = unat (drop_bit 3 (c ! 2))"
definition frame_wr :: "bytes \<Rightarrow> bool" where "frame_wr c = bit (c ! 2) 2"

lemma le16_of_bytes: "le16 (ucast a) (ucast (drop_bit 8 a)) = (ucast a :: u16)" for a :: u32
proof -
  have "le16 (ucast (ucast a :: u16)) (ucast (drop_bit 8 (ucast a :: u16))) = (ucast a :: u16)" by (rule le16_put)
  moreover have "(ucast (drop_bit 8 (ucast a :: u16)) :: u8) = ucast (drop_bit 8 a)"
    by (rule bit_word_eqI) (auto simp: bit_simps)
  moreover have "(ucast (ucast a :: u16) :: u8) = ucast a"
    by (rule bit_word_eqI) (auto simp: bit_simps)
  ultimately show ?thesis by simp
qed

lemma bsb_low: "r < 0x10000 \<Longrightarrow> (ucast (W5500_BSB b r) :: u16) = ucast r"
  by (rule bit_word_eqI) (auto simp: W5500_BSB_def bit_simps)

lemma u32_small: "r < 0x10000 \<Longrightarrow> bit r n \<Longrightarrow> n < 16" for r :: u32
proof -
  assume "r < 0x10000" "bit r n"
  then have "take_bit 16 r = r" by (simp add: take_bit_int_eq_self word_less_def unsigned_take_bit_eq word_uint_eq_iff)
  then show "n < 16" using \<open>bit r n\<close> by (metis bit_take_bit_iff)
qed

lemma bsb_high: "r < 0x10000 \<Longrightarrow> drop_bit 16 (W5500_BSB b r) = take_bit 16 b"
  by (rule bit_word_eqI) (auto simp: W5500_BSB_def bit_simps dest: u32_small)

lemma frames:
  assumes "r < 0x10000"
  shows "frame_off (rd_cmd (W5500_BSB b r)) = unat r" "frame_off (wr_cmd (W5500_BSB b r)) = unat r"
    "frame_blk (rd_cmd (W5500_BSB b r)) = unat (take_bit 5 b)" "frame_blk (wr_cmd (W5500_BSB b r)) = unat (take_bit 5 b)"
    "\<not> frame_wr (rd_cmd (W5500_BSB b r))" "frame_wr (wr_cmd (W5500_BSB b r))"
proof -
  have u: "unat (ucast r :: u16) = unat r"
    using assms by (simp add: unsigned_ucast_eq take_bit_nat_eq_self word_less_nat_alt)
  show "frame_off (rd_cmd (W5500_BSB b r)) = unat r" "frame_off (wr_cmd (W5500_BSB b r)) = unat r"
    by (simp_all add: frame_off_def be16_at_def rd_cmd_def wr_cmd_def le16_of_bytes bsb_low [OF assms] u)
  have k: "drop_bit 3 (ucast (push_bit 3 (take_bit 16 b)) :: u8) = (ucast (take_bit 5 b) :: u8)"
    "drop_bit 3 ((ucast (push_bit 3 (take_bit 16 b)) :: u8) OR 4) = (ucast (take_bit 5 b) :: u8)" for b :: u32
    by (rule bit_word_eqI; auto simp: bit_simps)+
  have v: "unat (ucast (take_bit 5 b) :: u8) = unat (take_bit 5 b)"
  proof -
    have "take_bit 8 (take_bit 5 (unat b)) = take_bit 5 (unat b)" by simp
    then show ?thesis by (simp add: unsigned_ucast_eq unsigned_take_bit_eq)
  qed
  show "frame_blk (rd_cmd (W5500_BSB b r)) = unat (take_bit 5 b)" "frame_blk (wr_cmd (W5500_BSB b r)) = unat (take_bit 5 b)"
    by (simp_all add: frame_blk_def rd_cmd_def wr_cmd_def bsb_high [OF assms] k v)
  show "\<not> frame_wr (rd_cmd (W5500_BSB b r))" "frame_wr (wr_cmd (W5500_BSB b r))"
    by (auto simp: frame_wr_def rd_cmd_def wr_cmd_def bit_simps)
qed

lemma sock_blocks:
  assumes "0 \<le> hw" "hw < 8"
  shows "unat (take_bit 5 (BSB_SOCK hw)) = 1 + 4 * nat hw" "unat (take_bit 5 (BSB_TXBUF hw)) = 2 + 4 * nat hw"
    "unat (take_bit 5 (BSB_RXBUF hw)) = 3 + 4 * nat hw"
proof -
  have "hw = 0 \<or> hw = 1 \<or> hw = 2 \<or> hw = 3 \<or> hw = 4 \<or> hw = 5 \<or> hw = 6 \<or> hw = 7" using assms by linarith
  then show "unat (take_bit 5 (BSB_SOCK hw)) = 1 + 4 * nat hw" "unat (take_bit 5 (BSB_TXBUF hw)) = 2 + 4 * nat hw"
    "unat (take_bit 5 (BSB_RXBUF hw)) = 3 + 4 * nat hw"
    by (elim disjE; simp add: BSB_SOCK_def BSB_TXBUF_def BSB_RXBUF_def)+
qed

lemma bsb_plus: "o' < 0x10000 \<Longrightarrow> W5500_BSB b 0 + o' = W5500_BSB b o'"
proof -
  assume o: "o' < 0x10000"
  have "push_bit 16 b + o' = push_bit 16 b OR o'"
    by (rule disjunctive_add_eq_or, rule bit_word_eqI) (auto simp: bit_simps dest: u32_small [OF o])
  then show ?thesis by (simp add: W5500_BSB_def)
qed

section \<open>The transmit side\<close>

text \<open>
  What is observed of the transmit side of one hardware socket: the ring, the write pointer register, the chip's own
  pointer behind the last SEND, the bytes sent to the peer so far, and the room that is free for new data.
\<close>

record 'w tx_obs =
  txm :: "'w \<Rightarrow> nat \<Rightarrow> u8"
  txp :: "'w \<Rightarrow> u16"
  txr :: "'w \<Rightarrow> u16"
  outb :: "'w \<Rightarrow> bytes"
  room :: "'w \<Rightarrow> nat"

definition tx_same :: "'w tx_obs \<Rightarrow> 'w \<Rightarrow> 'w \<Rightarrow> bool" where
  "tx_same Q w w' \<longleftrightarrow> txm Q w' = txm Q w \<and> txp Q w' = txp Q w \<and> txr Q w' = txr Q w \<and> outb Q w' = outb Q w \<and> room Q w \<le> room Q w'"

text \<open>A write of \<open>d\<close> at offset \<open>off\<close> of the ring, inside the free room, changes these bytes and no others.\<close>

definition tx_filled :: "'w tx_obs \<Rightarrow> nat \<Rightarrow> bytes \<Rightarrow> 'w \<Rightarrow> 'w \<Rightarrow> bool" where
  "tx_filled Q off d w w' \<longleftrightarrow> txm Q w' = (\<lambda>k. if off \<le> k \<and> k < off + length d then d ! (k - off) else txm Q w k)
     \<and> txp Q w' = txp Q w \<and> txr Q w' = txr Q w \<and> outb Q w' = outb Q w \<and> room Q w \<le> room Q w'"

text \<open>
  The law for hardware socket \<open>h\<close>: reads change nothing, the registers read what is observed (the free size at most
  the room), data go to the ring when there is room for them, SEND sends what lies between the pointers, and a
  command is accepted at once.
\<close>

definition tx_law :: "'w toe_env \<Rightarrow> nat \<Rightarrow> 'w tx_obs \<Rightarrow> bool" where
  "tx_law E h Q \<longleftrightarrow>
     (\<forall>c n w. \<not> frame_wr c \<longrightarrow> tx_same Q w (snd (spi_rd E c n w)) \<and> tx_same Q w (snd (t_stream E c None n w)))
   \<and> (\<forall>w. tx_same Q w (t_delay E w))
   \<and> (\<forall>c w. \<not> frame_wr c \<longrightarrow> frame_blk c = 1 + 4 * h \<longrightarrow>
        (frame_off c = 0x01 \<longrightarrow> snd (fst (spi_rd E c 1 w)) = [0])
      \<and> (frame_off c = 0x24 \<longrightarrow> snd (fst (spi_rd E c 2 w)) = put_be16 (txp Q w))
      \<and> (frame_off c = 0x20 \<longrightarrow> (\<exists>v. snd (fst (spi_rd E c 2 w)) = put_be16 v \<and> unat v \<le> room Q w)))
   \<and> (\<forall>c d j w. frame_wr c \<longrightarrow> frame_blk c = 2 + 4 * h \<longrightarrow> frame_off c + length d \<le> 2048
        \<longrightarrow> frame_off c = (unat (txr Q w) + j) mod 2048 \<longrightarrow> j + length d \<le> room Q w \<longrightarrow>
        fst (spi_wr E c d w) = 0 \<and> tx_filled Q (frame_off c) d w (snd (spi_wr E c d w))
      \<and> tx_filled Q (frame_off c) d w (snd (t_stream E c (Some d) (length d) w)))
   \<and> (\<forall>c v w. frame_wr c \<longrightarrow> frame_blk c = 1 + 4 * h \<longrightarrow> frame_off c = 0x24 \<longrightarrow>
        (let w' = snd (spi_wr E c (put_be16 v) w) in txm Q w' = txm Q w \<and> txp Q w' = v \<and> txr Q w' = txr Q w
           \<and> outb Q w' = outb Q w \<and> room Q w \<le> room Q w'))
   \<and> (\<forall>c w. frame_wr c \<longrightarrow> frame_blk c = 1 + 4 * h \<longrightarrow> frame_off c = 0x01 \<longrightarrow> unat (txp Q w - txr Q w) \<le> room Q w \<longrightarrow>
        (let w' = snd (spi_wr E c [0x20] w) in txp Q w' = txp Q w \<and> txr Q w' = txp Q w
           \<and> outb Q w' = outb Q w @ map (\<lambda>k. txm Q w ((unat (txr Q w) + k) mod 2048)) [0..<unat (txp Q w - txr Q w)]))
   \<and> (\<forall>w. room Q w \<le> 2048)"

section \<open>The receive side\<close>

text \<open>The read pointer register, the chip's own pointer behind the last RECV, and the bytes in the ring that wait to be
  read.\<close>

record 'w rx_obs =
  rxp :: "'w \<Rightarrow> u16"
  rxc :: "'w \<Rightarrow> u16"
  rxq :: "'w \<Rightarrow> bytes"

text \<open>Data may arrive at any time.\<close>

definition rx_more :: "'w rx_obs \<Rightarrow> 'w \<Rightarrow> 'w \<Rightarrow> bool" where
  "rx_more R w w' \<longleftrightarrow> rxp R w' = rxp R w \<and> rxc R w' = rxc R w \<and> (\<exists>m. rxq R w' = rxq R w @ m)"

definition rx_law :: "'w toe_env \<Rightarrow> nat \<Rightarrow> 'w rx_obs \<Rightarrow> bool" where
  "rx_law E h R \<longleftrightarrow>
     (\<forall>c n w. \<not> frame_wr c \<longrightarrow> rx_more R w (snd (spi_rd E c n w)) \<and> rx_more R w (snd (t_stream E c None n w)))
   \<and> (\<forall>w. rx_more R w (t_delay E w))
   \<and> (\<forall>c w. \<not> frame_wr c \<longrightarrow> frame_blk c = 1 + 4 * h \<longrightarrow>
        (frame_off c = 0x01 \<longrightarrow> snd (fst (spi_rd E c 1 w)) = [0])
      \<and> (frame_off c = 0x28 \<longrightarrow> snd (fst (spi_rd E c 2 w)) = put_be16 (rxp R w))
      \<and> (frame_off c = 0x26 \<longrightarrow> (\<exists>v. snd (fst (spi_rd E c 2 w)) = put_be16 v \<and> unat v \<le> length (rxq R w))))
   \<and> (\<forall>c n j w. \<not> frame_wr c \<longrightarrow> frame_blk c = 3 + 4 * h \<longrightarrow> frame_off c + n \<le> 2048
        \<longrightarrow> frame_off c = (unat (rxc R w) + j) mod 2048 \<longrightarrow> j + n \<le> length (rxq R w) \<longrightarrow>
        fst (spi_rd E c n w) = (0, take n (drop j (rxq R w))) \<and> fst (t_stream E c None n w) = take n (drop j (rxq R w)))
   \<and> (\<forall>c v w. frame_wr c \<longrightarrow> frame_blk c = 1 + 4 * h \<longrightarrow> frame_off c = 0x28 \<longrightarrow>
        (let w' = snd (spi_wr E c (put_be16 v) w) in rxp R w' = v \<and> rxc R w' = rxc R w \<and> (\<exists>m. rxq R w' = rxq R w @ m)))
   \<and> (\<forall>c w. frame_wr c \<longrightarrow> frame_blk c = 1 + 4 * h \<longrightarrow> frame_off c = 0x01 \<longrightarrow>
        unat (rxp R w - rxc R w) \<le> length (rxq R w) \<longrightarrow>
        (let w' = snd (spi_wr E c [0x40] w) in rxp R w' = rxp R w \<and> rxc R w' = rxp R w
           \<and> (\<exists>m. rxq R w' = drop (unat (rxp R w - rxc R w)) (rxq R w) @ m)))
   \<and> (\<forall>w. length (rxq R w) \<le> 2048)"

end
