(* ===== verification/ToeStream.thy ===== *)
theory ToeStream imports ToeChip begin

text \<open>
  Streaming over the W5500: a chunk put into the transmit ring is sent as it is, and what is read from the receive
  ring is what has arrived, wherever the rings wrap.
\<close>

section \<open>Ring arithmetic\<close>

lemma ring_mask: "unat (p AND of_nat (W5500_SOCK_BUF_SIZE - 1)) = unat p mod 2048" for p :: u16
proof -
  have "p AND 2047 = take_bit 11 p" by (simp add: take_bit_eq_mask mask_eq_exp_minus_1)
  moreover have "unat (take_bit 11 p) = take_bit 11 (unat p)" by (rule unsigned_take_bit_eq)
  moreover have "take_bit 11 (unat p) = unat p mod 2048" by (simp add: take_bit_eq_mod)
  ultimately show ?thesis by (simp only: W5500_SOCK_BUF_SIZE_def) simp
qed

lemma ring_ucast: "unat (ucast (p AND of_nat (W5500_SOCK_BUF_SIZE - 1)) :: u32) = unat p mod 2048"
    "ucast (p AND of_nat (W5500_SOCK_BUF_SIZE - 1)) < (0x10000 :: u32)" for p :: u16
proof -
  have l: "unat p mod 2048 < 2048" by simp
  then have "take_bit 32 (unat p mod 2048) = unat p mod 2048" by (intro take_bit_nat_eq_self) simp
  then show u: "unat (ucast (p AND of_nat (W5500_SOCK_BUF_SIZE - 1)) :: u32) = unat p mod 2048"
    by (simp only: unsigned_ucast_eq ring_mask) simp
  show "ucast (p AND of_nat (W5500_SOCK_BUF_SIZE - 1)) < (0x10000 :: u32)"
    using l unfolding word_less_nat_alt u by simp
qed

lemma ring_first_val: "ring_first p n = min n (2048 - unat p mod 2048)"
  by (simp only: ring_first_def ring_mask) (simp add: W5500_SOCK_BUF_SIZE_def)

lemma ring_wrap: "(p + (2048 - p mod 2048)) mod 2048 = (0::nat)"
proof -
  have "p mod 2048 < 2048" by simp
  then have "(p mod 2048 + (2048 - p mod 2048)) mod 2048 = (0::nat)" by simp
  then show ?thesis by (metis mod_add_left_eq)
qed

lemma ring_at_bsb: "ring_at (W5500_BSB b 0) p = W5500_BSB b (ucast (p AND of_nat (W5500_SOCK_BUF_SIZE - 1)))"
  unfolding ring_at_def by (rule bsb_plus [OF ring_ucast(2)])

section \<open>The frames of one socket\<close>

lemma reg_frames:
  assumes "0 \<le> hw" "hw < 8" "r < 0x10000"
  shows "frame_off (rd_cmd (sock_reg hw r)) = unat r" "frame_off (wr_cmd (sock_reg hw r)) = unat r"
    "frame_blk (rd_cmd (sock_reg hw r)) = 1 + 4 * nat hw" "frame_blk (wr_cmd (sock_reg hw r)) = 1 + 4 * nat hw"
    "frame_wr (wr_cmd (sock_reg hw r))"
  unfolding sock_reg_def by (simp_all add: frames [OF assms(3)] sock_blocks [OF assms(1,2)])

lemma reg_read_frame: "r < 0x10000 \<Longrightarrow> \<not> frame_wr (rd_cmd (sock_reg hw r))"
  unfolding sock_reg_def by (rule frames(5))

lemma ring_frames:
  assumes "0 \<le> hw" "hw < 8"
  shows "frame_off (wr_cmd (ring_at (W5500_BSB (BSB_TXBUF hw) 0) p)) = unat p mod 2048"
    "frame_blk (wr_cmd (ring_at (W5500_BSB (BSB_TXBUF hw) 0) p)) = 2 + 4 * nat hw"
    "frame_wr (wr_cmd (ring_at (W5500_BSB (BSB_TXBUF hw) 0) p))"
    "frame_off (rd_cmd (ring_at (W5500_BSB (BSB_RXBUF hw) 0) p)) = unat p mod 2048"
    "frame_blk (rd_cmd (ring_at (W5500_BSB (BSB_RXBUF hw) 0) p)) = 3 + 4 * nat hw"
    "\<not> frame_wr (rd_cmd (ring_at (W5500_BSB (BSB_RXBUF hw) 0) p))"
proof -
  define a :: u32 where "a = ucast (p AND of_nat (W5500_SOCK_BUF_SIZE - 1))"
  have a: "a < 0x10000" "unat a = unat p mod 2048" unfolding a_def by (rule ring_ucast)+
  show "frame_off (wr_cmd (ring_at (W5500_BSB (BSB_TXBUF hw) 0) p)) = unat p mod 2048"
    "frame_blk (wr_cmd (ring_at (W5500_BSB (BSB_TXBUF hw) 0) p)) = 2 + 4 * nat hw"
    "frame_wr (wr_cmd (ring_at (W5500_BSB (BSB_TXBUF hw) 0) p))"
    "frame_off (rd_cmd (ring_at (W5500_BSB (BSB_RXBUF hw) 0) p)) = unat p mod 2048"
    "frame_blk (rd_cmd (ring_at (W5500_BSB (BSB_RXBUF hw) 0) p)) = 3 + 4 * nat hw"
    "\<not> frame_wr (rd_cmd (ring_at (W5500_BSB (BSB_RXBUF hw) 0) p))"
    unfolding ring_at_bsb a_def [symmetric] by (simp_all add: frames [OF a(1)] a(2) sock_blocks [OF assms])
qed

lemma base_frames:
  assumes "0 \<le> hw" "hw < 8"
  shows "frame_off (wr_cmd (W5500_BSB (BSB_TXBUF hw) 0)) = 0" "frame_blk (wr_cmd (W5500_BSB (BSB_TXBUF hw) 0)) = 2 + 4 * nat hw"
    "frame_wr (wr_cmd (W5500_BSB (BSB_TXBUF hw) 0))"
    "frame_off (rd_cmd (W5500_BSB (BSB_RXBUF hw) 0)) = 0" "frame_blk (rd_cmd (W5500_BSB (BSB_RXBUF hw) 0)) = 3 + 4 * nat hw"
    "\<not> frame_wr (rd_cmd (W5500_BSB (BSB_RXBUF hw) 0))"
  using frames [of 0 "BSB_TXBUF hw"] frames [of 0 "BSB_RXBUF hw"] sock_blocks [OF assms] by simp_all

section \<open>The transmit law on the driver's accesses\<close>

lemma tx_read:
  assumes "tx_law E h Q" "r < 0x10000"
  shows "tx_same Q w (snd (w5500_rd8 E (sock_reg hw r) w))" "tx_same Q w (snd (w5500_rd16 E (sock_reg hw r) w))"
proof -
  have "tx_same Q w (snd (spi_rd E (rd_cmd (sock_reg hw r)) n w))" for n
    using assms(1) reg_read_frame [OF assms(2), of hw] unfolding tx_law_def by blast
  then show "tx_same Q w (snd (w5500_rd8 E (sock_reg hw r) w))" "tx_same Q w (snd (w5500_rd16 E (sock_reg hw r) w))"
    by (simp_all add: w5500_rd8_def w5500_rd16_def w5500_read_def case_prod_beta Let_def)
qed

lemma tx_values:
  assumes "tx_law E (nat hw) Q" "0 \<le> hw" "hw < 8"
  shows "fst (w5500_rd16 E (sock_reg hw W5500_Sn_TX_WR) w) = txp Q w" "unat (fst (sock_fsr E hw w)) \<le> room Q w"
    "fst (w5500_rd8 E (sock_reg hw W5500_Sn_CR) w) = 0"
proof -
  have reg: "(frame_off c = 0x01 \<longrightarrow> snd (fst (spi_rd E c 1 w)) = [0])
      \<and> (frame_off c = 0x24 \<longrightarrow> snd (fst (spi_rd E c 2 w)) = put_be16 (txp Q w))
      \<and> (frame_off c = 0x20 \<longrightarrow> (\<exists>v. snd (fst (spi_rd E c 2 w)) = put_be16 v \<and> unat v \<le> room Q w))"
    if "\<not> frame_wr c" "frame_blk c = 1 + 4 * nat hw" for c w
    using assms(1) that unfolding tx_law_def by blast
  have at: "\<not> frame_wr (rd_cmd (sock_reg hw r))" "frame_blk (rd_cmd (sock_reg hw r)) = 1 + 4 * nat hw"
    "frame_off (rd_cmd (sock_reg hw r)) = unat r" if "r < 0x10000" for r
    using reg_frames [OF assms(2,3) that] reg_read_frame [OF that] by auto
  have wr: "W5500_Sn_TX_WR < 0x10000" "unat W5500_Sn_TX_WR = 0x24" and fs: "W5500_Sn_TX_FSR < 0x10000" "unat W5500_Sn_TX_FSR = 0x20"
    and cr: "W5500_Sn_CR < 0x10000" "unat W5500_Sn_CR = 1"
    by (simp_all add: W5500_Sn_TX_WR_def W5500_Sn_TX_FSR_def W5500_Sn_CR_def)
  have "snd (fst (spi_rd E (rd_cmd (sock_reg hw W5500_Sn_TX_WR)) 2 w)) = put_be16 (txp Q w)"
    using reg [OF at(1,2) [OF wr(1)]] at(3) [OF wr(1)] wr(2) by metis
  then show "fst (w5500_rd16 E (sock_reg hw W5500_Sn_TX_WR) w) = txp Q w"
    by (simp add: w5500_rd16_def w5500_read_def case_prod_beta)
  obtain v where "snd (fst (spi_rd E (rd_cmd (sock_reg hw W5500_Sn_TX_FSR)) 2 w)) = put_be16 v" "unat v \<le> room Q w"
    using reg [OF at(1,2) [OF fs(1)]] at(3) [OF fs(1)] fs(2) by metis
  then show "unat (fst (sock_fsr E hw w)) \<le> room Q w"
    by (simp add: sock_fsr_def w5500_rd16_def w5500_read_def case_prod_beta)
  have "snd (fst (spi_rd E (rd_cmd (sock_reg hw W5500_Sn_CR)) 1 w)) = [0]"
    using reg [OF at(1,2) [OF cr(1)]] at(3) [OF cr(1)] cr(2) by metis
  then show "fst (w5500_rd8 E (sock_reg hw W5500_Sn_CR) w) = 0"
    by (simp add: w5500_rd8_def w5500_read_def case_prod_beta)
qed

lemma tx_ring_write:
  assumes "tx_law E h Q" "frame_wr (wr_cmd a)" "frame_blk (wr_cmd a) = 2 + 4 * h" "frame_off (wr_cmd a) + length d \<le> 2048"
    and "frame_off (wr_cmd a) = (unat (txr Q w) + j) mod 2048" "j + length d \<le> room Q w"
  shows "fst (xfer_write E a d w) = 0" "tx_filled Q (frame_off (wr_cmd a)) d w (snd (xfer_write E a d w))"
proof -
  have "\<forall>c d j w. frame_wr c \<longrightarrow> frame_blk c = 2 + 4 * h \<longrightarrow> frame_off c + length d \<le> 2048
        \<longrightarrow> frame_off c = (unat (txr Q w) + j) mod 2048 \<longrightarrow> j + length d \<le> room Q w \<longrightarrow>
        fst (spi_wr E c d w) = 0 \<and> tx_filled Q (frame_off c) d w (snd (spi_wr E c d w))
      \<and> tx_filled Q (frame_off c) d w (snd (t_stream E c (Some d) (length d) w))"
    using assms(1) unfolding tx_law_def by blast
  note this [rule_format, OF assms(2-6)]
  then show "fst (xfer_write E a d w) = 0" "tx_filled Q (frame_off (wr_cmd a)) d w (snd (xfer_write E a d w))"
    by (simp_all add: xfer_write_def w5500_write_fast_def w5500_write_def)
qed

text \<open>The ring holds \<open>b\<close> from position \<open>p\<close> on.\<close>

definition ring_has :: "(nat \<Rightarrow> u8) \<Rightarrow> nat \<Rightarrow> bytes \<Rightarrow> bool" where
  "ring_has m p b \<longleftrightarrow> (\<forall>k < length b. m ((p + k) mod 2048) = b ! k)"

lemma tx_buf_write:
  assumes "tx_law E (nat hw) Q" "0 \<le> hw" "hw < 8" "length b \<le> room Q w"
  shows "fst (sock_buf_write E hw (txr Q w) b w) = 0"
    "ring_has (txm Q (snd (sock_buf_write E hw (txr Q w) b w))) (unat (txr Q w)) b"
    "txp Q (snd (sock_buf_write E hw (txr Q w) b w)) = txp Q w" "txr Q (snd (sock_buf_write E hw (txr Q w) b w)) = txr Q w"
    "outb Q (snd (sock_buf_write E hw (txr Q w) b w)) = outb Q w" "room Q w \<le> room Q (snd (sock_buf_write E hw (txr Q w) b w))"
proof -
  let ?p = "unat (txr Q w)"
  let ?n = "ring_first (txr Q w) (length b)"
  let ?a = "ring_at (W5500_BSB (BSB_TXBUF hw) 0) (txr Q w)"
  define r1 where "r1 = xfer_write E ?a (take ?n b) w"
  define r2 where "r2 = xfer_write E (W5500_BSB (BSB_TXBUF hw) 0) (drop ?n b) (snd r1)"
  have n: "?n \<le> length b" "?p mod 2048 + ?n \<le> 2048" using mod_less_divisor [of 2048 ?p] by (auto simp: ring_first_val)
  note fr = ring_frames [OF assms(2,3), of "txr Q w"] base_frames [OF assms(2,3)]
  have 1: "fst r1 = 0" "tx_filled Q (?p mod 2048) (take ?n b) w (snd r1)"
    using tx_ring_write [OF assms(1) fr(3,2), of "take ?n b" w 0] fr(1) n assms(4) by (simp_all add: r1_def min_def)
  have room1: "room Q w \<le> room Q (snd r1)" "txr Q (snd r1) = txr Q w" using 1(2) by (simp_all add: tx_filled_def)
  have split: "?n < length b \<Longrightarrow> ?n = 2048 - ?p mod 2048" by (simp add: ring_first_val min_def split: if_splits)
  have le: "length b \<le> 2048" using assms(1,4) unfolding tx_law_def by (meson le_trans)
  have 2: "fst r2 = 0" "tx_filled Q 0 (drop ?n b) (snd r1) (snd r2)" if "?n < length b"
    using tx_ring_write [OF assms(1) fr(9,8), of "drop ?n b" "snd r1" ?n] fr(7) le assms(4) room1 split [OF that] that
      ring_wrap [of ?p]
    by (simp_all add: r2_def)
  have e: "sock_buf_write E hw (txr Q w) b w = (if ?n = length b then (0, snd r1) else r2)"
    using 1(1) by (simp add: sock_buf_write_def case_prod_beta Let_def r1_def r2_def)
  have has: "ring_has (txm Q (snd (if ?n = length b then (0, snd r1) else r2))) ?p b"
    unfolding ring_has_def
  proof (intro allI impI)
    fix k assume k: "k < length b"
    show "txm Q (snd (if ?n = length b then (0, snd r1) else r2)) ((?p + k) mod 2048) = b ! k"
    proof (cases "k < ?n")
      case True
      then have "?p mod 2048 + k < 2048" using n(2) by linarith
      then have m: "(?p + k) mod 2048 = ?p mod 2048 + k" by (subst mod_add_left_eq [symmetric]) (rule mod_less)
      have f1: "txm Q (snd r1) ((?p + k) mod 2048) = b ! k"
        using 1(2) True k by (simp add: tx_filled_def m)
      show ?thesis
      proof (cases "?n = length b")
        case False
        then have lt: "?n < length b" using n(1) by simp
        have "length b - ?n \<le> ?p mod 2048" using le split [OF lt] by simp
        then show ?thesis using 2(2) [OF lt] f1 False m by (simp add: tx_filled_def)
      qed (use f1 in simp)
    next
      case False
      then have lt: "?n < length b" using k by simp
      have "(?p + k) mod 2048 = (?p + ?n + (k - ?n)) mod 2048" using False by simp
      also have "\<dots> = ((?p + ?n) mod 2048 + (k - ?n)) mod 2048" by (metis mod_add_left_eq)
      also have "\<dots> = k - ?n" using ring_wrap [of ?p] split [OF lt] le k by simp
      finally have m: "(?p + k) mod 2048 = k - ?n" .
      have d: "k - ?n < length b - ?n" using False k by (simp add: diff_less_mono)
      have "?n + (k - ?n) = k" using False by simp
      then have "drop ?n b ! (k - ?n) = b ! k" using n(1) by (metis nth_drop)
      then show ?thesis using 2(2) [OF lt] lt d by (simp add: tx_filled_def m)
    qed
  qed
  show "fst (sock_buf_write E hw (txr Q w) b w) = 0" using e 2(1) n(1) by (cases "?n = length b") auto
  show "ring_has (txm Q (snd (sock_buf_write E hw (txr Q w) b w))) ?p b" using has by (simp add: e)
  show "txp Q (snd (sock_buf_write E hw (txr Q w) b w)) = txp Q w" "txr Q (snd (sock_buf_write E hw (txr Q w) b w)) = txr Q w"
    "outb Q (snd (sock_buf_write E hw (txr Q w) b w)) = outb Q w" "room Q w \<le> room Q (snd (sock_buf_write E hw (txr Q w) b w))"
    using 1(2) 2(2) n(1) by (cases "?n = length b"; force simp: e tx_filled_def)+
qed

end
