(* ===== verification/ToeSend.thy ===== *)
theory ToeSend imports ToeStream begin

text \<open>
  Sending over a W5500 stream socket: a chunk goes out as it is, and \<open>send\<close> accounts exactly for what went out.
\<close>

section \<open>One chunk\<close>

lemma tx_room: "tx_law E h Q \<Longrightarrow> room Q w \<le> 2048"
  unfolding tx_law_def by blast

lemma tx_reg_write:
  assumes "tx_law E (nat hw) Q" "0 \<le> hw" "hw < 8"
  shows "txm Q (w5500_wr16 E (sock_reg hw W5500_Sn_TX_WR) v w) = txm Q w"
    "txp Q (w5500_wr16 E (sock_reg hw W5500_Sn_TX_WR) v w) = v" "txr Q (w5500_wr16 E (sock_reg hw W5500_Sn_TX_WR) v w) = txr Q w"
    "outb Q (w5500_wr16 E (sock_reg hw W5500_Sn_TX_WR) v w) = outb Q w"
    "room Q w \<le> room Q (w5500_wr16 E (sock_reg hw W5500_Sn_TX_WR) v w)"
proof -
  have r: "W5500_Sn_TX_WR < 0x10000" "unat W5500_Sn_TX_WR = 0x24" by (simp_all add: W5500_Sn_TX_WR_def)
  note fr = reg_frames [OF assms(2,3) r(1)]
  have "let w' = snd (spi_wr E (wr_cmd (sock_reg hw W5500_Sn_TX_WR)) (put_be16 v) w) in txm Q w' = txm Q w \<and> txp Q w' = v
      \<and> txr Q w' = txr Q w \<and> outb Q w' = outb Q w \<and> room Q w \<le> room Q w'"
    using assms(1) fr(2,4,5) r(2) unfolding tx_law_def by metis
  then show "txm Q (w5500_wr16 E (sock_reg hw W5500_Sn_TX_WR) v w) = txm Q w"
    "txp Q (w5500_wr16 E (sock_reg hw W5500_Sn_TX_WR) v w) = v" "txr Q (w5500_wr16 E (sock_reg hw W5500_Sn_TX_WR) v w) = txr Q w"
    "outb Q (w5500_wr16 E (sock_reg hw W5500_Sn_TX_WR) v w) = outb Q w"
    "room Q w \<le> room Q (w5500_wr16 E (sock_reg hw W5500_Sn_TX_WR) v w)"
    by (simp_all add: w5500_wr16_def w5500_write_def Let_def)
qed

lemma tx_send_cmd:
  assumes "tx_law E (nat hw) Q" "0 \<le> hw" "hw < 8" "unat (txp Q w - txr Q w) \<le> room Q w"
  shows "fst (w5500_cmd E hw Sn_CR_SEND w) = 0" "txp Q (snd (w5500_cmd E hw Sn_CR_SEND w)) = txp Q w"
    "txr Q (snd (w5500_cmd E hw Sn_CR_SEND w)) = txp Q w"
    "outb Q (snd (w5500_cmd E hw Sn_CR_SEND w)) =
       outb Q w @ map (\<lambda>k. txm Q w ((unat (txr Q w) + k) mod 2048)) [0..<unat (txp Q w - txr Q w)]"
proof -
  have r: "W5500_Sn_CR < 0x10000" "unat W5500_Sn_CR = 0x01" by (simp_all add: W5500_Sn_CR_def)
  note fr = reg_frames [OF assms(2,3) r(1)]
  define w1 where "w1 = w5500_wr8 E (sock_reg hw W5500_Sn_CR) Sn_CR_SEND w"
  have "let w' = snd (spi_wr E (wr_cmd (sock_reg hw W5500_Sn_CR)) [0x20] w) in txp Q w' = txp Q w \<and> txr Q w' = txp Q w
      \<and> outb Q w' = outb Q w @ map (\<lambda>k. txm Q w ((unat (txr Q w) + k) mod 2048)) [0..<unat (txp Q w - txr Q w)]"
    using assms(1,4) fr(2,4,5) r(2) unfolding tx_law_def by metis
  then have 1: "txp Q w1 = txp Q w" "txr Q w1 = txp Q w"
    "outb Q w1 = outb Q w @ map (\<lambda>k. txm Q w ((unat (txr Q w) + k) mod 2048)) [0..<unat (txp Q w - txr Q w)]"
    by (simp_all add: w1_def w5500_wr8_def w5500_write_def Sn_CR_SEND_def Let_def)
  have poll: "w5500_cmd E hw Sn_CR_SEND w = (0, snd (w5500_rd8 E (sock_reg hw W5500_Sn_CR) w1))"
    using tx_values(3) [OF assms(1-3), of w1]
    by (simp add: w5500_cmd_def w1_def numeral_eq_Suc case_prod_beta Let_def)
  have 2: "tx_same Q w1 (snd (w5500_rd8 E (sock_reg hw W5500_Sn_CR) w1))" by (rule tx_read(1) [OF assms(1) r(1)])
  show "fst (w5500_cmd E hw Sn_CR_SEND w) = 0" "txp Q (snd (w5500_cmd E hw Sn_CR_SEND w)) = txp Q w"
    "txr Q (snd (w5500_cmd E hw Sn_CR_SEND w)) = txp Q w"
    "outb Q (snd (w5500_cmd E hw Sn_CR_SEND w)) =
       outb Q w @ map (\<lambda>k. txm Q w ((unat (txr Q w) + k) mod 2048)) [0..<unat (txp Q w - txr Q w)]"
    using 1 2 by (simp_all add: poll tx_same_def)
qed

text \<open>With the pointers together and room for it, a chunk goes out whole, and the pointers are together again.\<close>

lemma put_chunk_sends:
  assumes "tx_law E (nat hw) Q" "0 \<le> hw" "hw < 8" "txp Q w = txr Q w" "length b \<le> room Q w"
  shows "fst (put_chunk E hw None b w) = 0" "outb Q (snd (put_chunk E hw None b w)) = outb Q w @ b"
    "txp Q (snd (put_chunk E hw None b w)) = txr Q (snd (put_chunk E hw None b w))"
proof -
  define w1 where "w1 = snd (w5500_rd16 E (sock_reg hw W5500_Sn_TX_WR) w)"
  have v: "fst (w5500_rd16 E (sock_reg hw W5500_Sn_TX_WR) w) = txr Q w"
    using tx_values(1) [OF assms(1-3)] assms(4) by simp
  have s1: "tx_same Q w w1" unfolding w1_def by (rule tx_read(2) [OF assms(1)]) (simp add: W5500_Sn_TX_WR_def)
  define w2 where "w2 = snd (sock_buf_write E hw (txr Q w1) b w1)"
  have p1: "txr Q w1 = txr Q w" "txp Q w1 = txr Q w" "outb Q w1 = outb Q w" "length b \<le> room Q w1"
    using s1 assms(4,5) by (simp_all add: tx_same_def)
  note s2 = tx_buf_write [OF assms(1-3) p1(4), folded w2_def]
  define w3 where "w3 = w5500_wr16 E (sock_reg hw W5500_Sn_TX_WR) (txr Q w + of_nat (length b)) w2"
  note s3 = tx_reg_write [OF assms(1-3), where v = "txr Q w + of_nat (length b)" and w = w2, folded w3_def]
  have "length b mod 65536 = length b" using assms(5) tx_room [OF assms(1), of w] by simp
  then have d: "txp Q w3 - txr Q w3 = of_nat (length b)" "unat (of_nat (length b) :: u16) = length b"
    using s2(4) s3(2,3) p1(1) by (simp_all add: unat_of_nat take_bit_eq_mod)
  have rm: "unat (txp Q w3 - txr Q w3) \<le> room Q w3" using d s2(6) s3(5) p1(4) by simp
  have e: "put_chunk E hw None b w = w5500_cmd E hw Sn_CR_SEND w3"
    using s2(1) v by (simp add: put_chunk_def case_prod_beta Let_def w3_def w2_def w1_def [symmetric] p1(1))
  note s4 = tx_send_cmd [OF assms(1-3) rm]
  have "map (\<lambda>k. txm Q w3 ((unat (txr Q w3) + k) mod 2048)) [0..<length b] = b"
    using s2(2) s3(1,3) s2(4) by (intro nth_equalityI) (simp_all add: ring_has_def)
  then show "outb Q (snd (put_chunk E hw None b w)) = outb Q w @ b"
    using s4(4) d s2(5) s3(4) p1(3) by (simp add: e)
  show "fst (put_chunk E hw None b w) = 0" using s4(1) by (simp add: e)
  show "txp Q (snd (put_chunk E hw None b w)) = txr Q (snd (put_chunk E hw None b w))" using s4(2,3) by (simp add: e)
qed

section \<open>The table around a chip access\<close>

lemma on_chip_simps [simp]:
  "tw (snd (on_chip f t)) = snd (f (tw t))" "socks (snd (on_chip f t)) = socks t" "fst (on_chip f t) = fst (f (tw t))"
  by (simp_all add: on_chip_def)

lemma sk_upd_tw [simp]: "tw (sk_upd i f t) = tw t" by (simp add: sk_upd_def)

lemma sk_upd_keeps: "(\<And>s. g (f s) = g s) \<Longrightarrow> g (sk (sk_upd i f t) j) = g (sk t j)"
  by (cases "i < length (socks t)") (simp_all add: sk_upd_def nth_list_update list_update_beyond not_less)

lemma sk_upd_zombie [simp]:
  "sk_zombie (sk (sk_upd i (\<lambda>s. s\<lparr>sk_sem := b\<rparr>) t) j) = sk_zombie (sk t j)"
  "sk_hw (sk (sk_upd i (\<lambda>s. s\<lparr>sk_sem := b\<rparr>) t) j) = sk_hw (sk t j)"
  "sk_type (sk (sk_upd i (\<lambda>s. s\<lparr>sk_sem := b\<rparr>) t) j) = sk_type (sk t j)"
  by (rule sk_upd_keeps; simp)+

section \<open>A whole send\<close>

text \<open>
  What the others do while the lock is released: they send nothing on this hardware socket, and unless the socket
  has been closed they leave its number and its transmit side alone, up to more room.  This leaves out a
  \<open>shutdown\<close> of the socket by another thread, which takes the number away without marking it closed.
\<close>

definition sends_kept :: "'w tx_obs \<Rightarrow> nat \<Rightarrow> ('w toe \<Rightarrow> 'w toe) \<Rightarrow> bool" where
  "sends_kept Q i other \<longleftrightarrow> (\<forall>t. outb Q (tw (other t)) = outb Q (tw t) \<and> sk_type (sk (other t) i) = sk_type (sk t i)
     \<and> (sk_zombie (sk (other t) i) \<or> sk_hw (sk (other t) i) = sk_hw (sk t i) \<and> tx_same Q (tw t) (tw (other t))))"

text \<open>Between two chunks: the socket has its hardware socket, and the pointers are together.\<close>

definition tx_ready :: "'w tx_obs \<Rightarrow> nat \<Rightarrow> int \<Rightarrow> 'w toe \<Rightarrow> bool" where
  "tx_ready Q i hw t \<longleftrightarrow> sk_hw (sk t i) = hw \<and> sk_type (sk t i) = SOCK_STREAM \<and> txp Q (tw t) = txr Q (tw t)"

lemma tx_ready_read: "tx_ready Q i hw t \<Longrightarrow> tx_same Q (tw t) (snd (f (tw t))) \<Longrightarrow> tx_ready Q i hw (snd (on_chip f t))"
  by (simp add: tx_ready_def tx_same_def)

lemma tx_ready_wait:
  assumes "sends_kept Q i other" "tx_ready Q i hw t"
  shows "outb Q (tw (other t)) = outb Q (tw t)" "\<not> sk_zombie (sk (other t) i) \<Longrightarrow> tx_ready Q i hw (other t)"
proof -
  note k = assms(1) [unfolded sends_kept_def, rule_format, of t]
  show "outb Q (tw (other t)) = outb Q (tw t)" using k by simp
  show "\<not> sk_zombie (sk (other t) i) \<Longrightarrow> tx_ready Q i hw (other t)" using k assms(2) by (simp add: tx_ready_def tx_same_def)
qed

lemma wait_slice_cases:
  "wait_slice E i ms dl other t = (False, other t) \<or> wait_slice E i ms dl other t = (True, sk_upd i (\<lambda>s. s\<lparr>sk_sem := False\<rparr>) (other t))"
  by (simp add: wait_slice_def)

definition space_post ::
  "'w tx_obs \<Rightarrow> nat \<Rightarrow> int \<Rightarrow> nat \<Rightarrow> bytes \<Rightarrow> ((unit toe_res \<times> 'w waits) \<times> 'w toe) option \<Rightarrow> bool" where
  "space_post Q i hw chunk b r \<longleftrightarrow> (case r of None \<Rightarrow> True
     | Some ((Inr u, ws), t) \<Rightarrow> tx_ready Q i hw t \<and> chunk \<le> room Q (tw t) \<and> outb Q (tw t) = b \<and> list_all (sends_kept Q i) ws
     | Some ((Inl e, ws), t) \<Rightarrow> outb Q (tw t) = b)"

lemma sock_reads_tx:
  assumes "tx_law E h Q"
  shows "tx_same Q w (snd (sock_sr E hw w))" "tx_same Q w (snd (sock_fsr E hw w))"
  unfolding sock_sr_def sock_fsr_def
  by (rule tx_read [OF assms]; simp add: W5500_Sn_SR_def W5500_Sn_TX_FSR_def)+

lemma send_space_ok:
  assumes "tx_law E (nat hw) Q" "0 \<le> hw" "hw < 8" "list_all (sends_kept Q i) ws" "tx_ready Q i hw t" "outb Q (tw t) = b"
  shows "space_post Q i hw chunk b (send_space E i chunk nb dl polls ws t)"
  using assms(4-6)
proof (induction ws arbitrary: polls t)
  case Nil
  define t1 where "t1 = snd (on_chip (sock_fsr E hw) t)"
  have hw: "sk_hw (sk t i) = hw" using Nil.prems(2) by (simp add: tx_ready_def)
  note same = sock_reads_tx(2) [OF assms(1), of "tw t" hw]
  have t1: "tx_ready Q i hw t1" "outb Q (tw t1) = b" "room Q (tw t) \<le> room Q (tw t1)"
    using tx_ready_read [where f = "sock_fsr E hw", OF Nil.prems(2) same] same Nil.prems(3) by (simp_all add: t1_def hw tx_same_def)
  have v: "unat (fst (sock_fsr E hw (tw t))) \<le> room Q (tw t)" by (rule tx_values(2) [OF assms(1-3)])
  show ?case
    using t1 v by (subst send_space.simps) (simp add: space_post_def case_prod_beta Let_def t1_def [symmetric] hw del: on_chip_simps(1,2))
next
  case (Cons other ws)
  define t1 where "t1 = snd (on_chip (sock_fsr E hw) t)"
  have hw: "sk_hw (sk t i) = hw" using Cons.prems(2) by (simp add: tx_ready_def)
  note same = sock_reads_tx(2) [OF assms(1), of "tw t" hw]
  have t1: "tx_ready Q i hw t1" "outb Q (tw t1) = b" "room Q (tw t) \<le> room Q (tw t1)"
    using tx_ready_read [where f = "sock_fsr E hw", OF Cons.prems(2) same] same Cons.prems(3) by (simp_all add: t1_def hw tx_same_def)
  have v: "unat (fst (sock_fsr E hw (tw t))) \<le> room Q (tw t)" by (rule tx_values(2) [OF assms(1-3)])
  have k: "sends_kept Q i other" "list_all (sends_kept Q i) ws" using Cons.prems(1) by simp_all
  note w = tx_ready_wait [OF k(1) t1(1)]
  have slice: "tx_ready Q i hw (snd (wait_slice E i ms dl other t1)) \<or> sk_zombie (sk (snd (wait_slice E i ms dl other t1)) i)"
    "outb Q (tw (snd (wait_slice E i ms dl other t1))) = b" for ms
    using wait_slice_cases [of E i ms dl other t1] w t1(2) by (auto simp: tx_ready_def)
  define ms where "ms = sk_send_to (sk t1 i)"
  define t2 where "t2 = snd (wait_slice E i ms dl other t1)"
  define t3 where "t3 = snd (on_chip (sock_sr E (sk_hw (sk t2 i))) t2)"
  have t3: "tx_ready Q i hw t3" "outb Q (tw t3) = b" if "\<not> sk_zombie (sk t2 i)"
  proof -
    have r: "tx_ready Q i hw t2" using slice(1) [of ms] that by (simp add: t2_def)
    then have hw: "sk_hw (sk t2 i) = hw" by (simp add: tx_ready_def)
    note same = sock_reads_tx(1) [OF assms(1), of "tw t2" hw]
    show "tx_ready Q i hw t3" "outb Q (tw t3) = b"
      using tx_ready_read [where f = "sock_sr E hw", OF r same] same slice(2) [of ms, folded t2_def]
      by (simp_all add: t3_def hw tx_same_def)
  qed
  show ?case
  proof (cases polls)
    case (Suc n)
    show ?thesis
      using t1 v w k Cons.IH [of "other t1" n]
      by (subst send_space.simps, cases nb) (simp_all add: space_post_def [where r = "Some r" for r] case_prod_beta Let_def t1_def [symmetric] hw Suc
        del: on_chip_simps(1,2))
  next
    case 0
    show ?thesis
      using t1 v k Cons.IH [of t3 0] t3 slice(2) [of ms]
      by (subst send_space.simps, cases nb)
        (simp_all add: space_post_def [where r = "Some r" for r] case_prod_beta Let_def t1_def [symmetric] hw 0 ms_def [symmetric]
          t2_def [symmetric] t3_def [symmetric] pipe_err_def
          del: on_chip_simps(1,2))
  qed
qed

text \<open>What a result accounts for: of \<open>rest\<close>, after \<open>off\<close> bytes sent before.\<close>

definition sent_post :: "'w tx_obs \<Rightarrow> nat \<Rightarrow> bytes \<Rightarrow> bytes \<Rightarrow> (nat toe_res \<times> 'w toe) option \<Rightarrow> bool" where
  "sent_post Q off rest b r \<longleftrightarrow> (case r of None \<Rightarrow> True
     | Some (Inr n, t) \<Rightarrow> off \<le> n \<and> n \<le> off + length rest \<and> outb Q (tw t) = b @ take (n - off) rest
     | Some (Inl e, t) \<Rightarrow> off = 0 \<and> outb Q (tw t) = b)"

lemma sent_post_or: "outb Q (tw t) = b \<Longrightarrow> sent_post Q off rest b (Some (sent_or off e, t))"
  by (simp add: sent_post_def sent_or_def)

lemma send_loop_ok:
  assumes "tx_law E (nat hw) Q" "0 \<le> hw" "hw < 8"
  shows "list_all (sends_kept Q i) ws \<Longrightarrow> tx_ready Q i hw t \<Longrightarrow> outb Q (tw t) = b \<Longrightarrow>
    sent_post Q off rest b (send_loop E i peer nb dl off rest ws t)"
proof (induction "length rest" arbitrary: off rest ws t b rule: less_induct)
  case less
  note ready = less.prems(2)
  have hw: "sk_hw (sk t i) = hw" "sk_type (sk t i) = SOCK_STREAM" using ready by (simp_all add: tx_ready_def)
  show ?case
  proof (cases "rest = []")
    case True
    then show ?thesis using less.prems(3) by (subst send_loop.simps) (simp add: sent_post_def)
  next
    case False
    define t1 where "t1 = snd (on_chip (sock_sr E hw) t)"
    define sr where "sr = fst (sock_sr E hw (tw t))"
    let ?c = "min (length rest) W5500_SOCK_BUF_SIZE"
    note same = sock_reads_tx(1) [OF assms(1), of "tw t" hw]
    have t1: "tx_ready Q i hw t1" "outb Q (tw t1) = b"
      using tx_ready_read [where f = "sock_sr E hw", OF ready same] same less.prems(3) by (simp_all add: t1_def tx_same_def)
    have ty: "sk_type (sk t1 i) = SOCK_STREAM" using t1(1) by (simp add: tx_ready_def)
    have unf: "send_loop E i peer nb dl off rest ws t =
      (if sk_zombie (sk t1 i) then Some (sent_or off E_BADF, t1)
       else if \<not> stream_open sr then Some (sent_or off E_PIPE, pipe_err i t1)
       else case send_space E i ?c nb dl 30 ws t1 of None \<Rightarrow> None
          | Some ((Inl e, ws), t) \<Rightarrow> Some (sent_or off e, t)
          | Some ((Inr u, ws), t) \<Rightarrow>
              let (rc, t) = on_chip (put_chunk E (sk_hw (sk t i)) None (take ?c rest)) t in
              if rc < 0 then Some (sent_or off E_IO, t)
              else send_loop E i peer nb dl (off + ?c) (drop ?c rest) ws t)"
      using False hw ty by (subst send_loop.simps) (simp add: case_prod_beta Let_def t1_def [symmetric] sr_def [symmetric]
          del: on_chip_simps(1,2))
    note space = send_space_ok [OF assms less.prems(1) t1, of ?c nb dl 30]
    show ?thesis
    proof (cases "sk_zombie (sk t1 i) \<or> \<not> stream_open sr")
      case True
      then show ?thesis using t1(2) by (auto simp: unf pipe_err_def intro!: sent_post_or)
    next
      case opn: False
      show ?thesis
      proof (cases "send_space E i ?c nb dl 30 ws t1")
        case None
        then show ?thesis using opn by (simp add: unf sent_post_def)
      next
        case (Some x)
        obtain u ws2 t2 where x: "x = ((u, ws2), t2)" by (metis prod.exhaust)
        show ?thesis
        proof (cases u)
          case (Inl e)
          then have "outb Q (tw t2) = b" using space Some x by (simp add: space_post_def)
          then show ?thesis using opn Some x Inl by (simp add: unf sent_post_or)
        next
          case (Inr y)
          have p: "tx_ready Q i hw t2" "?c \<le> room Q (tw t2)" "outb Q (tw t2) = b" "list_all (sends_kept Q i) ws2"
            using space Some x Inr by (simp_all add: space_post_def)
          define t3 where "t3 = snd (on_chip (put_chunk E hw None (take ?c rest)) t2)"
          have h2: "sk_hw (sk t2 i) = hw" "txp Q (tw t2) = txr Q (tw t2)" using p(1) by (simp_all add: tx_ready_def)
          have "length (take ?c rest) \<le> room Q (tw t2)" using p(2) by simp
          note put = put_chunk_sends [OF assms h2(2) this]
          have t3: "tx_ready Q i hw t3" "outb Q (tw t3) = b @ take ?c rest"
            using p(1,3) put by (simp_all add: t3_def tx_ready_def)
          have lt: "length (drop ?c rest) < length rest" using False by (simp add: W5500_SOCK_BUF_SIZE_def)
          have c: "?c \<le> length rest" by simp
          have e: "send_loop E i peer nb dl off rest ws t = send_loop E i peer nb dl (off + ?c) (drop ?c rest) ws2 t3"
            using opn Some x Inr h2 put(1)
            by (simp add: unf case_prod_beta Let_def t3_def [symmetric] del: on_chip_simps(1,2))
          have "sent_post Q (off + ?c) (drop ?c rest) (b @ take ?c rest) (send_loop E i peer nb dl (off + ?c) (drop ?c rest) ws2 t3)"
            by (rule less.hyps [OF lt p(4) t3])
          then show ?thesis
            using c lt unfolding e sent_post_def
            by (auto split: option.splits sum.splits simp: take_add [symmetric] add.commute)
        qed
      qed
    qed
  qed
qed

end
