(* ===== verification/ToeRecv.thy ===== *)
theory ToeRecv imports ToeSend begin

text \<open>
  Receiving over the W5500: what is read from the receive ring is what has arrived, in order and only once, for
  streams and for datagrams.
\<close>

section \<open>The receive law on the driver's accesses\<close>

lemma rx_more_refl: "rx_more R w w" by (simp add: rx_more_def)

lemma rx_more_trans: "rx_more R w w' \<Longrightarrow> rx_more R w' w'' \<Longrightarrow> rx_more R w w''"
  by (auto simp: rx_more_def)

lemma rx_read:
  assumes "rx_law E h R" "r < 0x10000"
  shows "rx_more R w (snd (w5500_rd8 E (sock_reg hw r) w))" "rx_more R w (snd (w5500_rd16 E (sock_reg hw r) w))"
    "rx_more R w (snd (w5500_read E (sock_reg hw r) n w))"
proof -
  have m: "rx_more R w (snd (spi_rd E (rd_cmd (sock_reg hw r)) n w))" for n
    using assms(1) reg_read_frame [OF assms(2), of hw] unfolding rx_law_def by blast
  show "rx_more R w (snd (w5500_rd8 E (sock_reg hw r) w))" "rx_more R w (snd (w5500_rd16 E (sock_reg hw r) w))"
    "rx_more R w (snd (w5500_read E (sock_reg hw r) n w))"
    using m by (simp_all add: w5500_rd8_def w5500_rd16_def w5500_read_def case_prod_beta Let_def)
qed

lemma rx_room: "rx_law E h R \<Longrightarrow> length (rxq R w) \<le> 2048"
  unfolding rx_law_def by blast

lemma rx_values:
  assumes "rx_law E (nat hw) R" "0 \<le> hw" "hw < 8"
  shows "fst (w5500_rd16 E (sock_reg hw W5500_Sn_RX_RD) w) = rxp R w" "unat (fst (sock_rsr E hw w)) \<le> length (rxq R w)"
    "fst (w5500_rd8 E (sock_reg hw W5500_Sn_CR) w) = 0"
proof -
  have reg: "(frame_off c = 0x01 \<longrightarrow> snd (fst (spi_rd E c 1 w)) = [0])
      \<and> (frame_off c = 0x28 \<longrightarrow> snd (fst (spi_rd E c 2 w)) = put_be16 (rxp R w))
      \<and> (frame_off c = 0x26 \<longrightarrow> (\<exists>v. snd (fst (spi_rd E c 2 w)) = put_be16 v \<and> unat v \<le> length (rxq R w)))"
    if "\<not> frame_wr c" "frame_blk c = 1 + 4 * nat hw" for c w
    using assms(1) that unfolding rx_law_def by blast
  have at: "\<not> frame_wr (rd_cmd (sock_reg hw r))" "frame_blk (rd_cmd (sock_reg hw r)) = 1 + 4 * nat hw"
    "frame_off (rd_cmd (sock_reg hw r)) = unat r" if "r < 0x10000" for r
    using reg_frames [OF assms(2,3) that] reg_read_frame [OF that] by auto
  have rd: "W5500_Sn_RX_RD < 0x10000" "unat W5500_Sn_RX_RD = 0x28" and rs: "W5500_Sn_RX_RSR < 0x10000" "unat W5500_Sn_RX_RSR = 0x26"
    and cr: "W5500_Sn_CR < 0x10000" "unat W5500_Sn_CR = 1"
    by (simp_all add: W5500_Sn_RX_RD_def W5500_Sn_RX_RSR_def W5500_Sn_CR_def)
  have "snd (fst (spi_rd E (rd_cmd (sock_reg hw W5500_Sn_RX_RD)) 2 w)) = put_be16 (rxp R w)"
    using reg [OF at(1,2) [OF rd(1)]] at(3) [OF rd(1)] rd(2) by metis
  then show "fst (w5500_rd16 E (sock_reg hw W5500_Sn_RX_RD) w) = rxp R w"
    by (simp add: w5500_rd16_def w5500_read_def case_prod_beta)
  obtain v where "snd (fst (spi_rd E (rd_cmd (sock_reg hw W5500_Sn_RX_RSR)) 2 w)) = put_be16 v" "unat v \<le> length (rxq R w)"
    using reg [OF at(1,2) [OF rs(1)]] at(3) [OF rs(1)] rs(2) by metis
  then show "unat (fst (sock_rsr E hw w)) \<le> length (rxq R w)"
    by (simp add: sock_rsr_def w5500_rd16_def w5500_read_def case_prod_beta)
  have "snd (fst (spi_rd E (rd_cmd (sock_reg hw W5500_Sn_CR)) 1 w)) = [0]"
    using reg [OF at(1,2) [OF cr(1)]] at(3) [OF cr(1)] cr(2) by metis
  then show "fst (w5500_rd8 E (sock_reg hw W5500_Sn_CR) w) = 0"
    by (simp add: w5500_rd8_def w5500_read_def case_prod_beta)
qed

lemma rx_ring_read:
  assumes "rx_law E h R" "\<not> frame_wr (rd_cmd a)" "frame_blk (rd_cmd a) = 3 + 4 * h" "frame_off (rd_cmd a) + n \<le> 2048"
    and "frame_off (rd_cmd a) = (unat (rxc R w) + j) mod 2048" "j + n \<le> length (rxq R w)"
  shows "fst (xfer_read E a n w) = (0, take n (drop j (rxq R w)))" "rx_more R w (snd (xfer_read E a n w))"
proof -
  have "\<forall>c n j w. \<not> frame_wr c \<longrightarrow> frame_blk c = 3 + 4 * h \<longrightarrow> frame_off c + n \<le> 2048
        \<longrightarrow> frame_off c = (unat (rxc R w) + j) mod 2048 \<longrightarrow> j + n \<le> length (rxq R w) \<longrightarrow>
        fst (spi_rd E c n w) = (0, take n (drop j (rxq R w))) \<and> fst (t_stream E c None n w) = take n (drop j (rxq R w))"
    using assms(1) unfolding rx_law_def by blast
  note v = this [rule_format, OF assms(2-6)]
  have m: "rx_more R w (snd (spi_rd E (rd_cmd a) n w))" "rx_more R w (snd (t_stream E (rd_cmd a) None n w))"
    using assms(1,2) unfolding rx_law_def by blast+
  show "fst (xfer_read E a n w) = (0, take n (drop j (rxq R w)))" "rx_more R w (snd (xfer_read E a n w))"
    using v m by (simp_all add: xfer_read_def w5500_read_fast_def w5500_read_def case_prod_beta Let_def)
qed

lemma ring_add: "unat (p + of_nat j) mod 2048 = (unat p + j) mod 2048" for p :: u16
proof -
  have "unat (p + of_nat j) = (unat p + unat (of_nat j :: u16)) mod 65536" by (simp add: unat_word_ariths)
  moreover have "unat (of_nat j :: u16) = j mod 65536" by (simp add: unat_of_nat take_bit_eq_mod)
  ultimately have "unat (p + of_nat j) = (unat p + j) mod 65536" by (simp add: mod_simps)
  moreover have "(unat p + j) mod 65536 mod 2048 = (unat p + j) mod 2048" by (rule mod_mod_cancel) simp
  ultimately show ?thesis by (simp only:)
qed

lemma rx_buf_read:
  assumes "rx_law E (nat hw) R" "0 \<le> hw" "hw < 8" "j + n \<le> length (rxq R w)"
  shows "fst (sock_buf_read E hw False (rxc R w + of_nat j) n w) = (0, take n (drop j (rxq R w)))"
    "rx_more R w (snd (sock_buf_read E hw False (rxc R w + of_nat j) n w))"
proof -
  let ?p = "rxc R w + of_nat j"
  let ?n = "ring_first ?p n"
  let ?b = "W5500_BSB (BSB_RXBUF hw) 0"
  define r1 where "r1 = xfer_read E (ring_at ?b ?p) ?n w"
  define r2 where "r2 = xfer_read E ?b (n - ?n) (snd r1)"
  have pm: "unat ?p mod 2048 = (unat (rxc R w) + j) mod 2048" by (rule ring_add)
  have n: "?n \<le> n" "unat ?p mod 2048 + ?n \<le> 2048" using mod_less_divisor [of 2048 "unat ?p"] by (auto simp: ring_first_val)
  note fr = ring_frames [OF assms(2,3), of ?p] base_frames [OF assms(2,3)]
  have a1: "frame_off (rd_cmd (ring_at ?b ?p)) + ?n \<le> 2048" using fr(4) n(2) by simp
  have a2: "frame_off (rd_cmd (ring_at ?b ?p)) = (unat (rxc R w) + j) mod 2048" using fr(4) pm by simp
  have a3: "j + ?n \<le> length (rxq R w)" using n(1) assms(4) by simp
  note 1 = rx_ring_read [OF assms(1) fr(6,5) a1 a2 a3, folded r1_def]
  have split: "?n < n \<Longrightarrow> ?n = 2048 - unat ?p mod 2048" by (simp add: ring_first_val min_def split: if_splits)
  have e1: "sock_buf_read E hw False ?p n w = (if ?n = n then (fst r1, snd r1) else ((fst (fst r2), snd (fst r1) @ snd (fst r2)), snd r2))"
    using 1(1) by (cases "?n = n") (simp_all add: sock_buf_read_def case_prod_beta Let_def r1_def r2_def)
  show "fst (sock_buf_read E hw False ?p n w) = (0, take n (drop j (rxq R w)))" "rx_more R w (snd (sock_buf_read E hw False ?p n w))"
  proof -
    obtain m where m: "rxc R (snd r1) = rxc R w" "rxq R (snd r1) = rxq R w @ m" using 1(2) by (auto simp: rx_more_def)
    have 2: "fst r2 = (0, take (n - ?n) (drop (j + ?n) (rxq R w)))" "rx_more R (snd r1) (snd r2)" if lt: "?n < n"
    proof -
      have z: "(unat (rxc R w) + (j + ?n)) mod 2048 = 0"
      proof -
        have "(unat (rxc R w) + (j + ?n)) mod 2048 = ((unat (rxc R w) + j) mod 2048 + ?n) mod 2048"
          by (simp only: mod_add_left_eq add.assoc)
        also have "\<dots> = (unat ?p mod 2048 + ?n) mod 2048" by (simp only: pm)
        also have "\<dots> = 2048 mod 2048" using split [OF lt] mod_less_divisor [of 2048 "unat ?p"] by (metis le_add_diff_inverse less_imp_le zero_less_numeral)
        finally show ?thesis by simp
      qed
      have b1: "frame_off (rd_cmd ?b) + (n - ?n) \<le> 2048" using fr(10) assms(4) rx_room [OF assms(1), of w] by simp
      have b2: "frame_off (rd_cmd ?b) = (unat (rxc R (snd r1)) + (j + ?n)) mod 2048" using fr(10) z m(1) by simp
      have b3: "j + ?n + (n - ?n) \<le> length (rxq R (snd r1))" using lt assms(4) m(2) by simp
      have len: "j + n \<le> length (rxq R w)" by (rule assms(4))
      show "fst r2 = (0, take (n - ?n) (drop (j + ?n) (rxq R w)))" "rx_more R (snd r1) (snd r2)"
        using rx_ring_read [OF assms(1) fr(12,11) b1 b2 b3, folded r2_def] m(2) lt len by simp_all
    qed
    have "take ?n (drop j x) @ take (n - ?n) (drop (j + ?n) x) = take n (drop j x)" for x :: bytes
      using take_add [of ?n "n - ?n" "drop j x"] n(1) by (simp add: add.commute)
    then show "fst (sock_buf_read E hw False ?p n w) = (0, take n (drop j (rxq R w)))"
      using 1(1) 2(1) n(1) unfolding e1 by (cases "?n = n") simp_all
    show "rx_more R w (snd (sock_buf_read E hw False ?p n w))"
      using 1(2) 2(2) n(1) unfolding e1 by (cases "?n = n") (auto intro: rx_more_trans)
  qed
qed

section \<open>The read pointer and RECV\<close>

lemma rx_reg_write:
  assumes "rx_law E (nat hw) R" "0 \<le> hw" "hw < 8"
  shows "rxp R (w5500_wr16 E (sock_reg hw W5500_Sn_RX_RD) v w) = v" "rxc R (w5500_wr16 E (sock_reg hw W5500_Sn_RX_RD) v w) = rxc R w"
    "\<exists>m. rxq R (w5500_wr16 E (sock_reg hw W5500_Sn_RX_RD) v w) = rxq R w @ m"
proof -
  have r: "W5500_Sn_RX_RD < 0x10000" "unat W5500_Sn_RX_RD = 0x28" by (simp_all add: W5500_Sn_RX_RD_def)
  note fr = reg_frames [OF assms(2,3) r(1)]
  have "let w' = snd (spi_wr E (wr_cmd (sock_reg hw W5500_Sn_RX_RD)) (put_be16 v) w) in rxp R w' = v \<and> rxc R w' = rxc R w
      \<and> (\<exists>m. rxq R w' = rxq R w @ m)"
    using assms(1) fr(2,4,5) r(2) unfolding rx_law_def by metis
  then show "rxp R (w5500_wr16 E (sock_reg hw W5500_Sn_RX_RD) v w) = v"
    "rxc R (w5500_wr16 E (sock_reg hw W5500_Sn_RX_RD) v w) = rxc R w"
    "\<exists>m. rxq R (w5500_wr16 E (sock_reg hw W5500_Sn_RX_RD) v w) = rxq R w @ m"
    by (simp_all add: w5500_wr16_def w5500_write_def Let_def)
qed

lemma rx_recv_cmd:
  assumes "rx_law E (nat hw) R" "0 \<le> hw" "hw < 8" "unat (rxp R w - rxc R w) \<le> length (rxq R w)"
  shows "rxp R (snd (w5500_cmd E hw Sn_CR_RECV w)) = rxp R w" "rxc R (snd (w5500_cmd E hw Sn_CR_RECV w)) = rxp R w"
    "\<exists>m. rxq R (snd (w5500_cmd E hw Sn_CR_RECV w)) = drop (unat (rxp R w - rxc R w)) (rxq R w) @ m"
proof -
  have r: "W5500_Sn_CR < 0x10000" "unat W5500_Sn_CR = 0x01" by (simp_all add: W5500_Sn_CR_def)
  note fr = reg_frames [OF assms(2,3) r(1)]
  define w1 where "w1 = w5500_wr8 E (sock_reg hw W5500_Sn_CR) Sn_CR_RECV w"
  have "let w' = snd (spi_wr E (wr_cmd (sock_reg hw W5500_Sn_CR)) [0x40] w) in rxp R w' = rxp R w \<and> rxc R w' = rxp R w
      \<and> (\<exists>m. rxq R w' = drop (unat (rxp R w - rxc R w)) (rxq R w) @ m)"
    using assms(1,4) fr(2,4,5) r(2) unfolding rx_law_def by metis
  then have 1: "rxp R w1 = rxp R w" "rxc R w1 = rxp R w" "\<exists>m. rxq R w1 = drop (unat (rxp R w - rxc R w)) (rxq R w) @ m"
    by (simp_all add: w1_def w5500_wr8_def w5500_write_def Sn_CR_RECV_def Let_def)
  have poll: "w5500_cmd E hw Sn_CR_RECV w = (0, snd (w5500_rd8 E (sock_reg hw W5500_Sn_CR) w1))"
    using rx_values(3) [OF assms(1-3), of w1]
    by (simp add: w5500_cmd_def w1_def numeral_eq_Suc case_prod_beta Let_def)
  have 2: "rx_more R w1 (snd (w5500_rd8 E (sock_reg hw W5500_Sn_CR) w1))" by (rule rx_read(1) [OF assms(1) r(1)])
  show "rxp R (snd (w5500_cmd E hw Sn_CR_RECV w)) = rxp R w" "rxc R (snd (w5500_cmd E hw Sn_CR_RECV w)) = rxp R w"
    "\<exists>m. rxq R (snd (w5500_cmd E hw Sn_CR_RECV w)) = drop (unat (rxp R w - rxc R w)) (rxq R w) @ m"
    using 1 2 by (auto simp: poll rx_more_def)
qed

text \<open>Together: with the pointers together, \<open>n\<close> bytes are taken from the front of the ring.\<close>

lemma rx_take:
  assumes "rx_law E (nat hw) R" "0 \<le> hw" "hw < 8" "rxp R w = rxc R w" "unat n \<le> length (rxq R w)"
    and "w' = snd (w5500_cmd E hw Sn_CR_RECV (w5500_wr16 E (sock_reg hw W5500_Sn_RX_RD) (rxc R w + n) w))"
  shows "rxp R w' = rxc R w'" "\<exists>m. rxq R w' = drop (unat n) (rxq R w) @ m"
proof -
  define w1 where "w1 = w5500_wr16 E (sock_reg hw W5500_Sn_RX_RD) (rxc R w + n) w"
  note 1 = rx_reg_write [OF assms(1-3), where v = "rxc R w + n" and w = w, folded w1_def]
  obtain m where m: "rxq R w1 = rxq R w @ m" using 1(3) by blast
  have d: "rxp R w1 - rxc R w1 = n" using 1(1,2) by simp
  then have "unat (rxp R w1 - rxc R w1) \<le> length (rxq R w1)" using assms(5) m by simp
  note 2 = rx_recv_cmd [OF assms(1-3) this]
  have e: "w' = snd (w5500_cmd E hw Sn_CR_RECV w1)" by (simp add: assms(6) w1_def)
  show "rxp R w' = rxc R w'" using 2(1,2) by (simp add: e)
  show "\<exists>m. rxq R w' = drop (unat n) (rxq R w) @ m" using 2(3) m d assms(5) by (auto simp: e)
qed

section \<open>One read of a stream\<close>

text \<open>From \<open>w\<close> to \<open>w'\<close>, \<open>n\<close> bytes have been taken from the front, and others may have arrived at the end.\<close>

definition rx_taken :: "'w rx_obs \<Rightarrow> nat \<Rightarrow> 'w \<Rightarrow> 'w \<Rightarrow> bool" where
  "rx_taken R n w w' \<longleftrightarrow> rxp R w' = rxc R w' \<and> (\<exists>m. rxq R w' = drop n (rxq R w) @ m)"

lemma rx_taken_more: "rx_taken R n w w' \<Longrightarrow> rx_more R w' w'' \<Longrightarrow> rx_taken R n w w''"
  by (auto simp: rx_taken_def rx_more_def)

lemma rx_more_taken: "rx_more R w w' \<Longrightarrow> rx_taken R n w' w'' \<Longrightarrow> n \<le> length (rxq R w) \<Longrightarrow> rx_taken R n w w''"
  by (auto simp: rx_taken_def rx_more_def)

lemma rx_more_ready: "rx_more R w w' \<Longrightarrow> rxp R w = rxc R w \<Longrightarrow> rx_taken R 0 w w'"
  by (auto simp: rx_taken_def rx_more_def)

lemma rx_more_prefix: "rx_more R w w' \<Longrightarrow> j + n \<le> length (rxq R w) \<Longrightarrow>
    j + n \<le> length (rxq R w') \<and> take n (drop j (rxq R w')) = take n (drop j (rxq R w))"
  by (auto simp: rx_more_def)

lemma get_peer_more: "rx_law E h R \<Longrightarrow> rx_more R w (snd (get_peer E hw w))"
  unfolding get_peer_def case_prod_beta Let_def snd_conv
  by (rule rx_more_trans [OF rx_read(3) rx_read(2)]) (simp_all add: W5500_Sn_DIPR_def W5500_Sn_DPORT_def)

lemma sock_reads_rx:
  assumes "rx_law E h R"
  shows "rx_more R w (snd (sock_sr E hw w))" "rx_more R w (snd (sock_rsr E hw w))"
    "rx_more R w (snd (w5500_rd16 E (sock_reg hw W5500_Sn_RX_RD) w))"
  unfolding sock_sr_def sock_rsr_def
  by (rule rx_read [OF assms]; simp add: W5500_Sn_SR_def W5500_Sn_RX_RSR_def W5500_Sn_RX_RD_def)+

lemma notify_tw [simp]: "tw (sock_notify i t) = tw t" "tw (sock_notify_drain i t) = tw t" "tw (sock_release i t) = tw t"
  by (simp_all add: sock_notify_def sock_notify_drain_def sock_release_def Let_def)

lemma chip_do_simps [simp]: "tw (chip_do f t) = f (tw t)" "socks (chip_do f t) = socks t"
  by (simp_all add: chip_do_def)

lemma unat_small: "n \<le> 2048 \<Longrightarrow> unat (of_nat n :: u16) = n"
  by (simp add: unat_of_nat take_bit_eq_mod)

lemma recv_stream_ok:
  assumes "rx_law E (nat hw) R" "0 \<le> hw" "hw < 8" "sk_hw (sk t i) = hw" "rxp R (tw t) = rxc R (tw t)" "unat rsr \<le> length (rxq R (tw t))"
    and n: "n = min max_len (unat rsr)" and r: "r = recv_stream E i max_len rsr want t"
  shows "fst (fst r) = take n (rxq R (tw t))" "rx_taken R n (tw t) (tw (snd r))"
proof -
  define c where "c = rxc R (tw t)"
  define w1 where "w1 = snd (w5500_rd16 E (sock_reg hw W5500_Sn_RX_RD) (tw t))"
  define w2 where "w2 = snd (sock_buf_read E hw False c n w1)"
  define w3 where "w3 = snd (w5500_cmd E hw Sn_CR_RECV (w5500_wr16 E (sock_reg hw W5500_Sn_RX_RD) (c + of_nat n) w2))"
  have rd: "fst (w5500_rd16 E (sock_reg hw W5500_Sn_RX_RD) (tw t)) = c"
    using rx_values(1) [OF assms(1-3)] assms(5) by (simp add: c_def)
  have m1: "rx_more R (tw t) w1" unfolding w1_def by (rule sock_reads_rx(3) [OF assms(1)])
  have c1: "rxc R w1 = c" "rxp R w1 = c" using m1 assms(5) by (simp_all add: rx_more_def c_def)
  have le: "0 + n \<le> length (rxq R (tw t))" using n assms(6) by simp
  note p1 = rx_more_prefix [OF m1 le]
  have b: "fst (sock_buf_read E hw False c n w1) = (0, take n (rxq R (tw t)))" "rx_more R w1 w2"
    using rx_buf_read [OF assms(1-3) p1 [THEN conjunct1]] p1 by (simp_all add: w2_def c1)
  have m2: "rx_more R (tw t) w2" by (rule rx_more_trans [OF m1 b(2)])
  have c2: "rxc R w2 = c" "rxp R w2 = rxc R w2" using b(2) c1 by (simp_all add: rx_more_def)
  have sm: "unat (of_nat n :: u16) = n" by (rule unat_small) (use le rx_room [OF assms(1), of "tw t"] in simp)
  have l2: "unat (of_nat n :: u16) \<le> length (rxq R w2)" using rx_more_prefix [OF m2 le] sm by simp
  have "rx_taken R n w2 w3" using rx_take [OF assms(1-3) c2(2) l2 w3_def [folded c2(1)]] sm by (simp add: rx_taken_def)
  then have t3: "rx_taken R n (tw t) w3" using rx_more_taken [OF m2] le by simp
  have t4: "rx_taken R n (tw t) (snd (sock_rsr E hw w3))" by (rule rx_taken_more [OF t3 sock_reads_rx(2) [OF assms(1)]])
  have t5: "rx_taken R n (tw t) (snd (get_peer E hw (snd (sock_rsr E hw w3))))"
    by (rule rx_taken_more [OF t4 get_peer_more [OF assms(1)]])
  have d: "fst (fst r) = snd (fst (sock_buf_read E hw False c n w1))"
    unfolding r recv_stream_def
    by (simp add: assms(4) rd case_prod_beta Let_def w1_def [symmetric] n [symmetric])
  then show "fst (fst r) = take n (rxq R (tw t))" using b(1) by simp
  have "tw (snd r) = snd (sock_rsr E hw w3) \<or> tw (snd r) = snd (get_peer E hw (snd (sock_rsr E hw w3)))"
    unfolding r recv_stream_def
    by (simp add: assms(4) rd case_prod_beta Let_def w1_def [symmetric] n [symmetric] w2_def [symmetric]
        w3_def [symmetric])
  then show "rx_taken R n (tw t) (tw (snd r))" using t4 t5 by auto
qed

section \<open>One datagram\<close>

definition dgram_frame :: "bytes \<Rightarrow> u16 \<Rightarrow> bytes \<Rightarrow> bytes" where
  "dgram_frame ip port d = ip @ put_be16 port @ put_be16 (of_nat (length d)) @ d"

lemma dgram_parts:
  assumes "length ip = 4" "q = dgram_frame ip port d @ rest" "length d \<le> 2048"
  shows "take 4 (take 8 q) = ip" "be16_at (drop 4 (take 8 q)) = port" "unat (be16_at (drop 6 (take 8 q))) = length d"
    "take (min n (length d)) (drop 8 q) = take n d" "drop (8 + length d) q = rest" "8 + length d \<le> length q"
proof -
  have h: "take 8 q = ip @ put_be16 port @ put_be16 (of_nat (length d))" "drop 8 q = d @ rest"
    using assms(1,2) by (simp_all add: dgram_frame_def)
  have d6: "drop 6 (take 8 q) = put_be16 (of_nat (length d))" using assms(1) by (simp add: h(1))
  show "take 4 (take 8 q) = ip" "be16_at (drop 4 (take 8 q)) = port" using assms(1) by (simp_all add: h)
  show "unat (be16_at (drop 6 (take 8 q))) = length d" using assms(3) by (simp add: d6 unat_small)
  show "take (min n (length d)) (drop 8 q) = take n d" by (simp add: h(2) min_def)
  have "drop (8 + length d) q = drop (length d) (drop 8 q)" by (simp add: add.commute)
  then show "drop (8 + length d) q = rest" by (simp add: h(2))
  show "8 + length d \<le> length q" using assms(1,2) by (simp add: dgram_frame_def)
qed

lemma recv_dgram_ok:
  assumes "rx_law E (nat hw) R" "0 \<le> hw" "hw < 8" "sk_hw (sk t i) = hw" "rxp R (tw t) = rxc R (tw t)"
    and q: "rxq R (tw t) = dgram_frame ip port d @ rest" and ip: "length ip = 4" and r: "r = recv_dgram E i max_len t"
  shows "fst r = (take max_len d, (ip, port))" "rx_taken R (8 + length d) (tw t) (tw (snd r))"
proof -
  define c where "c = rxc R (tw t)"
  define n where "n = min max_len (length d)"
  have len: "8 + length d \<le> 2048" using rx_room [OF assms(1), of "tw t"] q ip by (simp add: dgram_frame_def)
  then have dl: "length d \<le> 2048" by simp
  note parts = dgram_parts [OF ip q dl]
  define w1 where "w1 = snd (w5500_rd16 E (sock_reg hw W5500_Sn_RX_RD) (tw t))"
  define w2 where "w2 = snd (sock_buf_read E hw False c 8 w1)"
  define w3 where "w3 = snd (sock_buf_read E hw False (c + 8) n w2)"
  define dlen :: u16 where "dlen = be16_at (drop 6 (take 8 (rxq R (tw t))))"
  define w4 where "w4 = snd (w5500_cmd E hw Sn_CR_RECV (w5500_wr16 E (sock_reg hw W5500_Sn_RX_RD) (c + (8 + dlen)) w3))"
  have rd: "fst (w5500_rd16 E (sock_reg hw W5500_Sn_RX_RD) (tw t)) = c"
    using rx_values(1) [OF assms(1-3)] assms(5) by (simp add: c_def)
  have m1: "rx_more R (tw t) w1" unfolding w1_def by (rule sock_reads_rx(3) [OF assms(1)])
  have c1: "rxc R w1 = c" "rxp R w1 = c" using m1 assms(5) by (simp_all add: rx_more_def c_def)
  have le8: "0 + 8 \<le> length (rxq R (tw t))" and len8: "8 + n \<le> length (rxq R (tw t))"
    using parts(6) by (simp_all add: n_def)
  note p1 = rx_more_prefix [OF m1 le8]
  have b: "fst (sock_buf_read E hw False c 8 w1) = (0, take 8 (rxq R (tw t)))" "rx_more R w1 w2"
    using rx_buf_read [OF assms(1-3) p1 [THEN conjunct1]] p1 by (simp_all add: w2_def c1)
  have m2: "rx_more R (tw t) w2" by (rule rx_more_trans [OF m1 b(2)])
  have c2: "rxc R w2 = c" "rxp R w2 = c" using b(2) c1 by (simp_all add: rx_more_def)
  note p2 = rx_more_prefix [OF m2 len8]
  have b2: "fst (sock_buf_read E hw False (c + 8) n w2) = (0, take n (drop 8 (rxq R (tw t))))" "rx_more R w2 w3"
    using rx_buf_read [OF assms(1-3) p2 [THEN conjunct1]] p2 by (simp_all add: w3_def c2)
  have m3: "rx_more R (tw t) w3" by (rule rx_more_trans [OF m2 b2(2)])
  have c3: "rxc R w3 = c" "rxp R w3 = rxc R w3" using b2(2) c2 by (simp_all add: rx_more_def)
  have dn: "unat dlen = length d" using parts(3) by (simp add: dlen_def)
  have "unat (8 + dlen) = length d + 8"
  proof -
    have "dlen = of_nat (length d)" using dn unat_small [OF dl] by (simp add: word_unat_eq_iff)
    then have "8 + dlen = of_nat (8 + length d)" by simp
    then show ?thesis using unat_small [OF len] by simp
  qed
  then have u8: "unat (8 + dlen) = 8 + length d" by simp
  have l3: "unat (8 + dlen) \<le> length (rxq R w3)" using m3 parts(6) u8 by (auto simp: rx_more_def)
  have "rx_taken R (8 + length d) w3 w4"
    using rx_take [OF assms(1-3) c3(2) l3 w4_def [folded c3(1)]] u8 by (simp add: rx_taken_def)
  then have t4: "rx_taken R (8 + length d) (tw t) w4" by (rule rx_more_taken [OF m3 _ parts(6)])
  have t5: "rx_taken R (8 + length d) (tw t) (snd (sock_rsr E hw w4))" by (rule rx_taken_more [OF t4 sock_reads_rx(2) [OF assms(1)]])
  have cc: "c + 8 + dlen = c + (8 + dlen)" by simp
  show "fst r = (take max_len d, (ip, port))"
    unfolding r recv_dgram_def
    using parts(1,2) parts(4) [of max_len, folded n_def] b(1) b2(1)
    by (simp add: assms(4) rd case_prod_beta Let_def w1_def [symmetric] w2_def [symmetric] dlen_def [symmetric] dn
        n_def [symmetric])
  have "tw (snd r) = snd (sock_rsr E hw w4)"
    unfolding r recv_dgram_def
    by (simp add: assms(4) rd case_prod_beta Let_def w1_def [symmetric] w2_def [symmetric] b(1) dlen_def [symmetric] dn
        n_def [symmetric] w3_def [symmetric] cc w4_def [symmetric] del: add.assoc)
  then show "rx_taken R (8 + length d) (tw t) (tw (snd r))" using t5 by simp
qed

section \<open>A whole receive\<close>

text \<open>
  What the others do meanwhile: unless the socket has been closed, they leave its number alone and read nothing
  from its ring.  This leaves out a \<open>shutdown\<close> of the socket by another thread.
\<close>

definition recvs_kept :: "'w rx_obs \<Rightarrow> nat \<Rightarrow> ('w toe \<Rightarrow> 'w toe) \<Rightarrow> bool" where
  "recvs_kept R i other \<longleftrightarrow> (\<forall>t. sk_type (sk (other t) i) = sk_type (sk t i)
     \<and> (sk_zombie (sk (other t) i) \<or> sk_hw (sk (other t) i) = sk_hw (sk t i) \<and> rx_more R (tw t) (tw (other t))))"

definition rx_ready :: "'w rx_obs \<Rightarrow> nat \<Rightarrow> int \<Rightarrow> sock_kind \<Rightarrow> 'w toe \<Rightarrow> bool" where
  "rx_ready R i hw kind t \<longleftrightarrow> sk_hw (sk t i) = hw \<and> sk_type (sk t i) = kind \<and> rxp R (tw t) = rxc R (tw t)"

lemma rx_ready_read: "rx_ready R i hw kind t \<Longrightarrow> rx_more R (tw t) (snd (f (tw t))) \<Longrightarrow> rx_ready R i hw kind (snd (on_chip f t))"
  by (simp add: rx_ready_def rx_more_def)

text \<open>One read by \<open>recv_stream\<close> or \<open>recv_dgram\<close> from a state in which nothing has been taken yet.\<close>

definition got_read ::
  "'w toe_env \<Rightarrow> 'w rx_obs \<Rightarrow> nat \<Rightarrow> int \<Rightarrow> sock_kind \<Rightarrow> nat \<Rightarrow> bool \<Rightarrow> 'w \<Rightarrow> bytes \<times> (bytes \<times> u16) option \<Rightarrow> 'w toe \<Rightarrow> bool" where
  "got_read E R i hw kind max_len want w0 x t \<longleftrightarrow>
     (\<exists>t1 rsr. rx_ready R i hw kind t1 \<and> rx_more R w0 (tw t1) \<and> 0 < rsr \<and> unat rsr \<le> length (rxq R (tw t1))
        \<and> (if kind = SOCK_DGRAM
           then t = snd (recv_dgram E i max_len t1) \<and> x = (let (d, p) = fst (recv_dgram E i max_len t1) in (d, if want then Some p else None))
           else (x, t) = recv_stream E i max_len rsr want t1))"

text \<open>The outcome of waiting: an error, the end of a stream, or one read.\<close>

definition recv_post ::
  "'w toe_env \<Rightarrow> 'w rx_obs \<Rightarrow> nat \<Rightarrow> int \<Rightarrow> sock_kind \<Rightarrow> nat \<Rightarrow> bool \<Rightarrow> 'w \<Rightarrow> ((bytes \<times> (bytes \<times> u16) option) toe_res \<times> 'w toe) option \<Rightarrow> bool" where
  "recv_post E R i hw kind max_len want w0 r \<longleftrightarrow> (case r of None \<Rightarrow> True
     | Some (Inl e, t) \<Rightarrow> e = E_BADF \<or> rx_taken R 0 w0 (tw t)
     | Some (Inr x, t) \<Rightarrow> x = ([], None) \<and> kind \<noteq> SOCK_DGRAM \<and> rx_taken R 0 w0 (tw t) \<and> (\<exists>w. fst (sock_sr E hw w) = SR_CLOSE_WAIT)
         \<or> got_read E R i hw kind max_len want w0 x t)"

lemma got_read_more: "got_read E R i hw kind max_len want w' x t \<Longrightarrow> rx_more R w w' \<Longrightarrow> got_read E R i hw kind max_len want w x t"
  unfolding got_read_def by (meson rx_more_trans)

lemma recv_post_more: "recv_post E R i hw kind max_len want w' r \<Longrightarrow> rx_more R w w' \<Longrightarrow> recv_post E R i hw kind max_len want w r"
  unfolding recv_post_def
  by (auto split: option.splits sum.splits intro: rx_more_taken got_read_more)

text \<open>One pass of the loop up to the wait; the last argument is what follows it.\<close>

definition recv_pass :: "'w toe_env \<Rightarrow> nat \<Rightarrow> nat \<Rightarrow> bool \<Rightarrow> bool \<Rightarrow> 'w toe
    \<Rightarrow> ('w toe \<Rightarrow> ((bytes \<times> (bytes \<times> u16) option) toe_res \<times> 'w toe) option)
    \<Rightarrow> ((bytes \<times> (bytes \<times> u16) option) toe_res \<times> 'w toe) option" where
  "recv_pass E i max_len want nb t k =
     (let (rsr, t) = on_chip (sock_rsr E (sk_hw (sk t i))) t in
      if sk_zombie (sk t i) then Some (Inl E_BADF, t)
      else if rsr > 0 then
        (if sk_type (sk t i) = SOCK_DGRAM then
           let ((d, p), t) = recv_dgram E i max_len t in Some (Inr (d, if want then Some p else None), t)
         else let (r, t) = recv_stream E i max_len rsr want t in Some (Inr r, t))
      else let (sr, t) = (if sk_type (sk t i) = SOCK_DGRAM then (SR_UDP, t) else on_chip (sock_sr E (sk_hw (sk t i))) t) in
        if sr = SR_CLOSE_WAIT then Some (Inr ([], None), sock_notify_drain i t)
        else if sr = SR_CLOSED then
          Some (Inl E_CONNRESET, sk_upd i (\<lambda>s. s\<lparr>sk_err := Some E_CONNRESET\<rparr>) (sock_notify_drain i t))
        else if nb then Some (Inl E_AGAIN, t)
        else k t)"

lemma recv_pass_ok:
  assumes law: "rx_law E (nat hw) R" and hw: "0 \<le> hw" "hw < 8" and ready: "rx_ready R i hw kind t"
    and k: "\<And>t'. rx_ready R i hw kind t' \<Longrightarrow> recv_post E R i hw kind max_len want (tw t') (k t')"
  shows "recv_post E R i hw kind max_len want (tw t) (recv_pass E i max_len want nb t k)"
proof -
  define t1 where "t1 = snd (on_chip (sock_rsr E hw) t)"
  define rsr where "rsr = fst (sock_rsr E hw (tw t))"
  define r2 where "r2 = (if kind = SOCK_DGRAM then (SR_UDP, t1) else on_chip (sock_sr E hw) t1)"
  have t: "sk_hw (sk t i) = hw" "rxp R (tw t) = rxc R (tw t)" using ready by (simp_all add: rx_ready_def)
  have t1: "rx_ready R i hw kind t1" "rx_more R (tw t) (tw t1)"
    using rx_ready_read [where f = "sock_rsr E hw", OF ready] sock_reads_rx(2) [OF law] by (simp_all add: t1_def)
  have h1: "sk_hw (sk t1 i) = hw" "sk_type (sk t1 i) = kind" using t1(1) by (simp_all add: rx_ready_def)
  have n: "unat rsr \<le> length (rxq R (tw t1))"
    using rx_values(2) [OF law hw, of "tw t"] t1(2) by (auto simp: rsr_def rx_more_def)
  have r2: "rx_ready R i hw kind (snd r2)" "rx_more R (tw t1) (tw (snd r2))"
    using rx_ready_read [where f = "sock_sr E hw", OF t1(1)] t1(1) sock_reads_rx(1) [OF law]
    by (cases "kind = SOCK_DGRAM"; simp add: r2_def rx_more_refl)+
  have m2: "rx_more R (tw t) (tw (snd r2))" by (rule rx_more_trans [OF t1(2) r2(2)])
  note z2 = rx_more_ready [OF m2 t(2)]
  have dg: "fst r2 = SR_CLOSE_WAIT \<Longrightarrow> kind \<noteq> SOCK_DGRAM \<and> (\<exists>w. fst (sock_sr E hw w) = SR_CLOSE_WAIT)"
    by (auto simp: r2_def sr_defs split: if_splits)
  have g: "0 < rsr \<Longrightarrow> recv_post E R i hw kind max_len want (tw t)
      (if kind = SOCK_DGRAM then let ((d, p), t) = recv_dgram E i max_len t1 in Some (Inr (d, if want then Some p else None), t)
       else let (r, t) = recv_stream E i max_len rsr want t1 in Some (Inr r, t))"
    unfolding recv_post_def got_read_def using t1 n by (auto simp: case_prod_beta Let_def)
  have k2: "recv_post E R i hw kind max_len want (tw t) (k (snd r2))" by (rule recv_post_more [OF k [OF r2(1)] m2])
  have unf: "recv_pass E i max_len want nb t k = (if sk_zombie (sk t1 i) then Some (Inl E_BADF, t1)
      else if rsr > 0 then
       (if kind = SOCK_DGRAM then let ((d, p), t) = recv_dgram E i max_len t1 in Some (Inr (d, if want then Some p else None), t)
        else let (r, t) = recv_stream E i max_len rsr want t1 in Some (Inr r, t))
      else if fst r2 = SR_CLOSE_WAIT then Some (Inr ([], None), sock_notify_drain i (snd r2))
      else if fst r2 = SR_CLOSED then
        Some (Inl E_CONNRESET, sk_upd i (\<lambda>s. s\<lparr>sk_err := Some E_CONNRESET\<rparr>) (sock_notify_drain i (snd r2)))
      else if nb then Some (Inl E_AGAIN, snd r2) else k (snd r2))"
    unfolding recv_pass_def
    by (cases "kind = SOCK_DGRAM")
      (simp_all add: case_prod_beta t1_def [symmetric] rsr_def [symmetric] t h1 r2_def Let_def del: on_chip_simps(1,2))
  show ?thesis
    unfolding unf using g k2 z2 dg by (auto simp: recv_post_def [where r = "Some r" for r])
qed

lemma recv_loop_ok:
  assumes law: "rx_law E (nat hw) R" and hw: "0 \<le> hw" "hw < 8"
  shows "list_all (recvs_kept R i) ws \<Longrightarrow> rx_ready R i hw kind t \<Longrightarrow>
    recv_post E R i hw kind max_len want (tw t) (recv_loop E i max_len want nb dl ws t)"
proof (induction ws arbitrary: t)
  case Nil
  have "recv_loop E i max_len want nb dl [] t = recv_pass E i max_len want nb t (\<lambda>_. None)"
    by (subst recv_loop.simps) (simp only: recv_pass_def list.case)
  moreover have "recv_post E R i hw kind max_len want (tw t) (recv_pass E i max_len want nb t (\<lambda>_. None))"
    by (rule recv_pass_ok [OF law hw Nil.prems(2)]) (simp add: recv_post_def)
  ultimately show ?case by simp
next
  case (Cons other ws)
  define k where "k t = (let (ok, t) = wait_slice E i (sk_recv_to (sk t i)) dl other t in
     if sk_zombie (sk t i) then Some (Inl E_BADF, t) else if \<not> ok then Some (Inl E_AGAIN, t)
     else recv_loop E i max_len want nb dl ws t)" for t
  have "recv_loop E i max_len want nb dl (other # ws) t = recv_pass E i max_len want nb t k"
    by (subst recv_loop.simps) (simp only: recv_pass_def k_def list.case)
  moreover have "recv_post E R i hw kind max_len want (tw t) (recv_pass E i max_len want nb t k)"
  proof (rule recv_pass_ok [OF law hw Cons.prems(2)])
    fix t' assume r: "rx_ready R i hw kind t'"
    define s where "s = wait_slice E i (sk_recv_to (sk t' i)) dl other t'"
    have kept: "recvs_kept R i other" "list_all (recvs_kept R i) ws" using Cons.prems(1) by simp_all
    have s: "rx_ready R i hw kind (snd s) \<and> rx_more R (tw t') (tw (snd s))" if "\<not> sk_zombie (sk (snd s) i)"
      using kept(1) [unfolded recvs_kept_def, rule_format, of t'] r that wait_slice_cases [of E i "sk_recv_to (sk t' i)" dl other t']
      by (auto simp: s_def rx_ready_def rx_more_def)
    show "recv_post E R i hw kind max_len want (tw t') (k t')"
    proof (cases "sk_zombie (sk (snd s) i)")
      case True
      then show ?thesis by (simp add: k_def s_def [symmetric] case_prod_beta recv_post_def)
    next
      case False
      note sk = s [OF False]
      have "rx_taken R 0 (tw t') (tw (snd s))" using rx_more_ready [OF sk [THEN conjunct2]] r by (simp add: rx_ready_def)
      then have e: "recv_post E R i hw kind max_len want (tw t') (Some (Inl E_AGAIN, snd s))" by (simp add: recv_post_def)
      have "recv_post E R i hw kind max_len want (tw t') (recv_loop E i max_len want nb dl ws (snd s))"
        by (rule recv_post_more [OF Cons.IH [OF kept(2) sk [THEN conjunct1]] sk [THEN conjunct2]])
      then show ?thesis using e False by (simp add: k_def s_def [symmetric] case_prod_beta)
    qed
  qed
  ultimately show ?case by simp
qed

end
