(* ===== verification/ToeFaults.thy ===== *)
theory ToeFaults imports ToeRecv begin

text \<open>
  Where the W5500 driver does not do what it means to: the worker that never ends, hardware sockets with two owners,
  accesses to a socket that is gone.
\<close>

section \<open>The worker with a full table\<close>

definition table_full :: "'w toe \<Rightarrow> bool" where
  "table_full t \<longleftrightarrow> filter (\<lambda>i. \<not> sk_in_use (sk t i)) [0..<W5500_NUM_SOCKETS] = []"

lemma promote_full: "table_full t \<Longrightarrow> listener_promote E li idx t = t"
  by (simp add: listener_promote_def sock_slot_alloc_def table_full_def)

lemma on_chip_table [simp]: "table_full (snd (on_chip f t)) = table_full t"
  by (simp add: table_full_def)

definition stuck :: "'w toe_env \<Rightarrow> nat \<Rightarrow> nat \<Rightarrow> 'w toe \<Rightarrow> bool" where
  "stuck E li idx t \<longleftrightarrow> table_full t \<and> idx < length (sk_lsn (sk t li)) \<and> (\<forall>w. fst (sock_sr E (sk_lsn (sk t li) ! idx) w) = SR_ESTABLISHED)"

lemma scan_stuck_raw: "listener_scan E li idx t = Some t' \<Longrightarrow> \<not> stuck E li idx t"
proof (rule listener_scan.raw_induct [where P = "\<lambda>E li idx t t'. \<not> stuck E li idx t"], rule notI)
  fix scan :: "'a toe_env \<Rightarrow> nat \<Rightarrow> nat \<Rightarrow> 'a toe \<Rightarrow> 'a toe option" and E li idx t t'
  assume IH: "\<And>E li idx t t'. scan E li idx t = Some t' \<Longrightarrow> \<not> stuck E li idx t"
    and body: "(if idx < length (sk_lsn (sk t li)) then
        let hw = sk_lsn (sk t li) ! idx; r = on_chip (sock_sr E hw) t in
        if fst r = SR_ESTABLISHED then scan E li idx (listener_promote E li idx (snd r))
        else if fst r \<noteq> SR_LISTEN \<and> fst r \<noteq> SR_INIT \<and> fst r \<noteq> SR_SYNRECV then
          scan E li idx (listener_pool_remove li idx (chip_do (hw_close E hw) (snd r)))
        else scan E li (Suc idx) (snd r)
      else Some t) = Some t'"
    and st: "stuck E li idx t"
  define t1 where "t1 = snd (on_chip (sock_sr E (sk_lsn (sk t li) ! idx)) t)"
  have st1: "stuck E li idx t1" using st by (simp add: stuck_def t1_def)
  then have "listener_promote E li idx t1 = t1" by (simp add: stuck_def promote_full)
  then have "scan E li idx t1 = Some t'" using body st by (simp add: stuck_def Let_def t1_def [symmetric])
  then show False using IH st1 by blast
qed

text \<open>
  When all entries of the table are in use and a pooled socket has completed a handshake, the pass over the pool
  looks at the same socket for ever.
\<close>

lemma scan_full_never_ends:
  assumes "table_full t" "idx < length (sk_lsn (sk t li))" "\<forall>w. fst (sock_sr E (sk_lsn (sk t li) ! idx) w) = SR_ESTABLISHED"
  shows "listener_scan E li idx t = None"
  using scan_stuck_raw [of E li idx t] assms by (cases "listener_scan E li idx t") (auto simp: stuck_def)

text \<open>What a pass over another listener leaves alone, with a full table.\<close>

definition keeps_li :: "nat \<Rightarrow> 'w toe \<Rightarrow> 'w toe \<Rightarrow> bool" where
  "keeps_li li t t' \<longleftrightarrow> table_full t' \<and> sk_lsn (sk t' li) = sk_lsn (sk t li) \<and> sk_listening (sk t' li) = sk_listening (sk t li)
     \<and> sk_in_use (sk t' li) = sk_in_use (sk t li)"

lemma keeps_li_trans: "keeps_li li t t1 \<Longrightarrow> keeps_li li t1 t2 \<Longrightarrow> keeps_li li t t2"
  by (simp add: keeps_li_def)

lemma sk_upd_other [simp]: "j \<noteq> i \<Longrightarrow> sk (sk_upd i f t) j = sk t j"
  by (simp add: sk_upd_def)

lemma table_full_upd: "(\<And>s. sk_in_use (f s) = sk_in_use s) \<Longrightarrow> table_full (sk_upd i f t) = table_full t"
  by (simp add: table_full_def sk_upd_keeps)

lemma keeps_li_same: "table_full t \<Longrightarrow> socks t' = socks t \<Longrightarrow> keeps_li li t t'"
  by (simp add: keeps_li_def table_full_def)

lemma keeps_li_upd: "table_full t \<Longrightarrow> j \<noteq> li \<Longrightarrow> (\<And>s. sk_in_use (f s) = sk_in_use s) \<Longrightarrow> keeps_li li t (sk_upd j f t)"
  by (simp add: keeps_li_def table_full_upd)

lemma hw_alloc_socks [simp]: "socks (snd (hw_alloc E t)) = socks t"
  by (simp add: hw_alloc_def)

lemma refill_keeps_li: "j \<noteq> li \<Longrightarrow> table_full t \<Longrightarrow> keeps_li li t (listener_refill E n j t)"
proof (induction n arbitrary: t)
  case 0
  then show ?case by (simp add: keeps_li_same)
next
  case (Suc n)
  define a where "a = hw_alloc E t"
  define r where "r = on_chip (tcp_open_listen E (fst a) (sk_port (sk t j))) (snd a)"
  define t3 where "t3 = sk_upd j (\<lambda>s. s\<lparr>sk_lsn := sk_lsn s @ [fst a]\<rparr>) ((snd r)\<lparr>hw_fail := (hw_fail (snd r))[nat (fst a) := 0]\<rparr>)"
  have s: "socks (snd a) = socks t" "socks (snd r) = socks t" by (simp_all add: a_def r_def)
  have same: "keeps_li li t t'" if "socks t' = socks t" for t' by (rule keeps_li_same [OF Suc.prems(2) that])
  have g: "keeps_li li t (listener_refill E n j t')" if "keeps_li li t t'" for t'
    using Suc.IH [OF Suc.prems(1), of t'] that by (meson keeps_li_def keeps_li_trans)
  have "keeps_li li t ((snd r)\<lparr>hw_fail := (hw_fail (snd r))[nat (fst a) := 0]\<rparr>)" by (rule same) (simp add: s)
  moreover from this have "keeps_li li ((snd r)\<lparr>hw_fail := (hw_fail (snd r))[nat (fst a) := 0]\<rparr>) t3"
    unfolding t3_def by (intro keeps_li_upd) (simp_all add: keeps_li_def Suc.prems(1))
  ultimately have k3: "keeps_li li t t3" by (rule keeps_li_trans)
  show ?case
    using g [OF k3]
    by (simp add: a_def [symmetric] r_def [symmetric] t3_def [symmetric] case_prod_beta Let_def same g s)
qed

lemma remove_keeps_li: "j \<noteq> li \<Longrightarrow> table_full t \<Longrightarrow> keeps_li li t (listener_pool_remove j idx t)"
  unfolding listener_pool_remove_def by (rule keeps_li_upd) simp_all

lemma scan_keeps_li: "listener_scan E j idx t = Some t' \<Longrightarrow> j \<noteq> li \<Longrightarrow> table_full t \<longrightarrow> keeps_li li t t'"
proof (rule listener_scan.raw_induct [where P = "\<lambda>E j idx t t'. j \<noteq> li \<longrightarrow> table_full t \<longrightarrow> keeps_li li t t'", THEN mp], rule impI, rule impI)
  fix scan :: "'a toe_env \<Rightarrow> nat \<Rightarrow> nat \<Rightarrow> 'a toe \<Rightarrow> 'a toe option" and E j idx t t'
  assume IH: "\<And>E j idx t t'. scan E j idx t = Some t' \<Longrightarrow> j \<noteq> li \<longrightarrow> table_full t \<longrightarrow> keeps_li li t t'"
    and body: "(if idx < length (sk_lsn (sk t j)) then
        let hw = sk_lsn (sk t j) ! idx; r = on_chip (sock_sr E hw) t in
        if fst r = SR_ESTABLISHED then scan E j idx (listener_promote E j idx (snd r))
        else if fst r \<noteq> SR_LISTEN \<and> fst r \<noteq> SR_INIT \<and> fst r \<noteq> SR_SYNRECV then
          scan E j idx (listener_pool_remove j idx (chip_do (hw_close E hw) (snd r)))
        else scan E j (Suc idx) (snd r)
      else Some t) = Some t'"
    and j: "j \<noteq> li" and full: "table_full t"
  define hw where "hw = sk_lsn (sk t j) ! idx"
  define t1 where "t1 = snd (on_chip (sock_sr E hw) t)"
  define t2 where "t2 = listener_pool_remove j idx (chip_do (hw_close E hw) t1)"
  have step: "keeps_li li t t'" if "scan E k x t0 = Some t'" "k \<noteq> li" "keeps_li li t t0" for k x t0
    using IH [OF that(1)] that(2,3) by (meson keeps_li_def keeps_li_trans)
  have k1: "keeps_li li t t1" by (rule keeps_li_same [OF full]) (simp add: t1_def)
  have k1c: "keeps_li li t (chip_do (hw_close E hw) t1)" by (rule keeps_li_same [OF full]) (simp add: t1_def)
  have "keeps_li li (chip_do (hw_close E hw) t1) t2"
    unfolding t2_def by (rule remove_keeps_li [OF j]) (use k1c in \<open>simp add: keeps_li_def\<close>)
  with k1c have k2: "keeps_li li t t2" by (rule keeps_li_trans)
  have p: "listener_promote E j idx t1 = t1" using k1 by (simp add: keeps_li_def promote_full)
  have cases: "scan E j idx t1 = Some t' \<or> scan E j idx t2 = Some t' \<or> scan E j (Suc idx) t1 = Some t' \<or> t' = t"
    using body unfolding hw_def [symmetric] Let_def t1_def [symmetric] t2_def [symmetric] p by (auto split: if_splits)
  have z: "keeps_li li t t" by (rule keeps_li_same [OF full refl])
  show "keeps_li li t t'" using cases step [OF _ j k1] step [OF _ j k2] z by blast
qed

lemma service_keeps_li:
  assumes "service_sock E j t = Some t'" "j \<noteq> li" "table_full t"
  shows "keeps_li li t t'"
proof -
  have same: "keeps_li li t t'" if "socks t' = socks t" for t' by (rule keeps_li_same [OF assms(3) that])
  have n: "keeps_li li t0 (sock_notify j t0)" if "table_full t0" for t0
    using that keeps_li_same [OF that refl] assms(2) by (simp add: sock_notify_def keeps_li_upd)
  have nn: "keeps_li li t (sock_notify j t0)" if "keeps_li li t t0" for t0
    by (rule keeps_li_trans [OF that n]) (use that in \<open>simp add: keeps_li_def\<close>)
  have l: "keeps_li li t (listener_fill E j t0)" if "listener_scan E j 0 t = Some t0" for t0
  proof -
    have k: "keeps_li li t t0" using scan_keeps_li [OF that assms(2)] assms(3) by simp
    show ?thesis unfolding listener_fill_def
      by (rule keeps_li_trans [OF k refill_keeps_li [OF assms(2)]]) (use k in \<open>simp add: keeps_li_def\<close>)
  qed
  have rd: "socks (snd (sock_readable E j t)) = socks t"
    by (simp add: sock_readable_def case_prod_beta Let_def)
  show ?thesis
    using assms(1) same [of t] nn l same [OF rd]
    by (auto simp: service_sock_def case_prod_beta Let_def split: if_splits option.splits)
qed

lemma service_full_never_ends:
  "li \<in> set is \<Longrightarrow> distinct is \<Longrightarrow> sk_in_use (sk t li) \<Longrightarrow> sk_listening (sk t li) \<Longrightarrow> stuck E li 0 t \<Longrightarrow> service_all E is t = None"
proof (induction "is" arbitrary: t)
  case (Cons j js)
  show ?case
  proof (cases "j = li")
    case True
    then have "service_sock E j t = None"
      using Cons.prems scan_full_never_ends [of t 0 li E] by (simp add: service_sock_def stuck_def)
    then show ?thesis by simp
  next
    case False
    show ?thesis
    proof (cases "service_sock E j t")
      case (Some t')
      have "keeps_li li t t'" by (rule service_keeps_li [OF Some False]) (use Cons.prems in \<open>simp add: stuck_def\<close>)
      then have "service_all E js t' = None" using Cons False by (intro Cons.IH) (auto simp: keeps_li_def stuck_def)
      then show ?thesis using Some by simp
    qed simp
  qed
qed simp

section \<open>A socket that is gone\<close>

text \<open>
  After \<open>shutdown\<close> has set the number of a socket to -1, the accesses of a call that was waiting go to the blocks of
  hardware socket 7: the block number has only five bits in the frame.
\<close>

lemma gone_frames:
  assumes "r < 0x10000"
  shows "rd_cmd (sock_reg (-1) r) = rd_cmd (sock_reg 7 r)" "wr_cmd (sock_reg (-1) r) = wr_cmd (sock_reg 7 r)"
    "rd_cmd (W5500_BSB (BSB_RXBUF (-1)) r) = rd_cmd (W5500_BSB (BSB_RXBUF 7) r)"
proof -
  have b: "(ucast (push_bit 3 (take_bit 16 (BSB_SOCK (-1)))) :: u8) = ucast (push_bit 3 (take_bit 16 (BSB_SOCK 7)))"
    "(ucast (push_bit 3 (take_bit 16 (BSB_RXBUF (-1)))) :: u8) = ucast (push_bit 3 (take_bit 16 (BSB_RXBUF 7)))"
    by code_simp+
  have low: "(ucast (drop_bit 8 (W5500_BSB x r)) :: u8) = ucast (drop_bit 8 (W5500_BSB y r))"
    "(ucast (W5500_BSB x r) :: u8) = ucast (W5500_BSB y r)" for x y
    by (rule bit_word_eqI; auto simp: W5500_BSB_def bit_simps)+
  show "rd_cmd (sock_reg (-1) r) = rd_cmd (sock_reg 7 r)" "wr_cmd (sock_reg (-1) r) = wr_cmd (sock_reg 7 r)"
    "rd_cmd (W5500_BSB (BSB_RXBUF (-1)) r) = rd_cmd (W5500_BSB (BSB_RXBUF 7) r)"
    by (simp_all only: rd_cmd_def wr_cmd_def sock_reg_def bsb_high [OF assms] b
        low [of "BSB_SOCK (-1)" "BSB_SOCK 7"] low [of "BSB_RXBUF (-1)" "BSB_RXBUF 7"])
qed

lemma gone_regs:
  assumes "r < 0x10000"
  shows "w5500_rd8 E (sock_reg (-1) r) w = w5500_rd8 E (sock_reg 7 r) w" "w5500_rd16 E (sock_reg (-1) r) w = w5500_rd16 E (sock_reg 7 r) w"
    "w5500_wr8 E (sock_reg (-1) r) v w = w5500_wr8 E (sock_reg 7 r) v w" "w5500_wr16 E (sock_reg (-1) r) v' w = w5500_wr16 E (sock_reg 7 r) v' w"
    "w5500_read E (sock_reg (-1) r) n w = w5500_read E (sock_reg 7 r) n w"
  by (simp_all add: w5500_rd8_def w5500_rd16_def w5500_wr8_def w5500_wr16_def w5500_read_def w5500_write_def gone_frames [OF assms])

lemma gone_ops:
  "w5500_cmd E (-1) c w = w5500_cmd E 7 c w" "sock_rsr E (-1) w = sock_rsr E 7 w" "sock_sr E (-1) w = sock_sr E 7 w"
  "get_peer E (-1) w = get_peer E 7 w" "sock_buf_read E (-1) False p n w = sock_buf_read E 7 False p n w"
proof -
  have r: "W5500_Sn_CR < 0x10000" "W5500_Sn_RX_RSR < 0x10000" "W5500_Sn_SR < 0x10000" "W5500_Sn_DIPR < 0x10000" "W5500_Sn_DPORT < 0x10000"
    by (simp_all add: W5500_Sn_CR_def W5500_Sn_RX_RSR_def W5500_Sn_SR_def W5500_Sn_DIPR_def W5500_Sn_DPORT_def)
  have poll: "cmd_poll E k (-1) w = cmd_poll E k 7 w" for k w
    by (induction k arbitrary: w) (simp_all add: gone_regs(1) [OF r(1)] case_prod_beta)
  show "w5500_cmd E (-1) c w = w5500_cmd E 7 c w" by (simp add: w5500_cmd_def poll gone_regs(3) [OF r(1)])
  show "sock_rsr E (-1) w = sock_rsr E 7 w" "sock_sr E (-1) w = sock_sr E 7 w"
    by (simp_all add: sock_rsr_def sock_sr_def gone_regs(1) [OF r(3)] gone_regs(2) [OF r(2)])
  show "get_peer E (-1) w = get_peer E 7 w" by (simp add: get_peer_def gone_regs(5) [OF r(4)] gone_regs(2) [OF r(5)])
  have xr: "xfer_read E (W5500_BSB (BSB_RXBUF (-1)) a) m v = xfer_read E (W5500_BSB (BSB_RXBUF 7) a) m v" if "a < 0x10000" for a m v
    by (simp add: xfer_read_def w5500_read_fast_def w5500_read_def gone_frames(3) [OF that])
  have at: "xfer_read E (ring_at (W5500_BSB (BSB_RXBUF (-1)) 0) p) m v = xfer_read E (ring_at (W5500_BSB (BSB_RXBUF 7) 0) p) m v" for m v
    unfolding ring_at_bsb by (rule xr [OF ring_ucast(2)])
  show "sock_buf_read E (-1) False p n w = sock_buf_read E 7 False p n w"
    by (simp add: sock_buf_read_def at xr case_prod_beta Let_def)
qed

text \<open>A stream read of such a socket takes the data of the connection on hardware socket 7.\<close>

theorem shutdown_reads_socket_seven:
  assumes law: "rx_law E 7 R" and gone: "sk_hw (sk t i) = -1" and i: "i < length (socks t)"
    and ptr: "rxp R (tw t) = rxc R (tw t)" and n: "unat rsr \<le> length (rxq R (tw t))"
  shows "fst (fst (recv_stream E i max_len rsr want t)) = take (min max_len (unat rsr)) (rxq R (tw t))"
    "rx_taken R (min max_len (unat rsr)) (tw t) (tw (snd (recv_stream E i max_len rsr want t)))"
proof -
  define t7 where "t7 = sk_upd i (\<lambda>s. s\<lparr>sk_hw := 7\<rparr>) t"
  have k: "sk_hw (sk t7 i) = 7" "tw t7 = tw t" using i by (simp_all add: t7_def sk_upd_def)
  have r: "W5500_Sn_RX_RD < 0x10000" by (simp add: W5500_Sn_RX_RD_def)
  have e: "fst (fst (recv_stream E i max_len rsr want t)) = fst (fst (recv_stream E i max_len rsr want t7))"
    "tw (snd (recv_stream E i max_len rsr want t)) = tw (snd (recv_stream E i max_len rsr want t7))"
    unfolding recv_stream_def
    by (simp_all add: gone k case_prod_beta Let_def gone_ops gone_regs(2,4) [OF r])
  have law': "rx_law E (nat 7) R" using law by simp
  have p: "rxp R (tw t7) = rxc R (tw t7)" "unat rsr \<le> length (rxq R (tw t7))" using ptr n k by simp_all
  note s = recv_stream_ok [OF law' _ _ k(1) p refl refl, of max_len want]
  show "fst (fst (recv_stream E i max_len rsr want t)) = take (min max_len (unat rsr)) (rxq R (tw t))"
    "rx_taken R (min max_len (unat rsr)) (tw t) (tw (snd (recv_stream E i max_len rsr want t)))"
    using s e k(2) by simp_all
qed

section \<open>Hardware sockets with two owners, or none\<close>

text \<open>A pooled socket whose handshake has been broken off reads as closed, and is handed out although it is in a pool.\<close>

lemma hw_alloc_takes_pooled:
  assumes "sk_lsn (sk t li) = [0]" "list_all (\<lambda>s. sk_hw s \<noteq> 0) (socks t)" "\<not> bit (hw_broken t) 0" "fst (sock_sr E 0 (tw t)) = SR_CLOSED"
  shows "fst (hw_alloc E t) = 0"
proof -
  have "hw_taken (socks t) ! 0 = False"
    using assms(2) by (auto simp: hw_taken_def W5500_NUM_SOCKETS_def list_ex_iff list_all_iff)
  moreover have "[0..<W5500_NUM_SOCKETS] = 0 # [1..<8]" by (simp add: W5500_NUM_SOCKETS_def upt_rec)
  ultimately show ?thesis using assms(3,4) by (simp add: hw_alloc_def case_prod_beta)
qed

text \<open>A chip of which only the states of the sockets are seen.\<close>

definition sr_chip :: "u8 list toe_env" where
  "sr_chip = \<lparr>spi_rd = (\<lambda>c n w. ((0, if frame_blk c mod 4 = 1 \<and> frame_off c = 3 then [w ! (frame_blk c div 4)] else [0, 0]), w)),
     spi_wr = (\<lambda>c d w. (0, if frame_blk c mod 4 = 1 \<and> frame_off c = 1
        then w[frame_blk c div 4 := (if d = [0x01] then SR_INIT else if d = [0x02] then SR_LISTEN else SR_CLOSED)] else w)),
     t_stream = (\<lambda>c d n w. ([], w)), t_delay = (\<lambda>w. w), t_uptime = (\<lambda>w. 0), t_reserve_fd = (\<lambda>w. (3, w))\<rparr>"

definition listener_toe :: "u8 list toe" where
  "listener_toe = \<lparr>tw = [0x14, 0x14, 0, 0, 0, 0, 0, 0],
     socks = sock_zero\<lparr>sk_in_use := True, sk_hw := -1, sk_type := SOCK_STREAM, sk_recv_to := -1, sk_listening := True, sk_lsn := [0, 1]\<rparr>
       # replicate 7 sock_zero,
     next_ephemeral = 49152, toe_link_up = True, toe_carrier = True, poll_armed = True, worker_on = True, irq_pending = False,
     irq_mode = False, toe_mac = [], hw_broken = 0, hw_fail = replicate 8 0, toe_fds = []\<rparr>"

text \<open>
  An \<open>accept\<close> that waits while another thread closes the listener arms two hardware sockets again before it sees that
  the listener is gone: they listen on, and no table entry in use knows of them.
\<close>

lemma accept_after_close_leaks:
  "map_option (\<lambda>(r, t). (r = Inl E_BADF, map sk_in_use (socks t) = replicate 8 False, tw t)) (w5500_accept sr_chip 0 False [w5500_close sr_chip 0] listener_toe)
    = Some (True, True, [0x14, 0x14, 0, 0, 0, 0, 0, 0])"
  by code_simp

end
