(* ===== verification/ToeInv.thy ===== *)
theory ToeInv imports ToeFaults begin

text \<open>
  The table of the W5500 driver stays well formed whatever the chip answers: every number that is used as an index -
  into the registers, the pools, the pending ring, the failure counters - is in range.
\<close>

section \<open>The invariant\<close>

definition sock_ok :: "w5500_sock \<Rightarrow> bool" where
  "sock_ok s \<longleftrightarrow> -1 \<le> sk_hw s \<and> sk_hw s < 8 \<and> length (sk_lsn s) \<le> W5500_LISTEN_KEEP \<and> list_all (\<lambda>h. 0 \<le> h \<and> h < 8) (sk_lsn s)
     \<and> length (sk_pend s) \<le> W5500_NUM_SOCKETS \<and> list_all (\<lambda>c. c < W5500_NUM_SOCKETS) (sk_pend s)"

definition toe_inv :: "'w toe \<Rightarrow> bool" where
  "toe_inv t \<longleftrightarrow> length (socks t) = W5500_NUM_SOCKETS \<and> length (hw_fail t) = W5500_NUM_SOCKETS \<and> list_all sock_ok (socks t)"

named_theorems toe_keeps

lemma inv_at: "toe_inv t \<Longrightarrow> i < W5500_NUM_SOCKETS \<Longrightarrow> sock_ok (sk t i)"
  by (simp add: toe_inv_def list_all_length)

lemma inv_upd: "toe_inv t \<Longrightarrow> (\<And>s. sock_ok s \<Longrightarrow> sock_ok (f s)) \<Longrightarrow> toe_inv (sk_upd i f t)"
  by (cases "i < length (socks t)")
    (auto simp: toe_inv_def sk_upd_def list_all_length nth_list_update list_update_beyond)

lemma inv_upd_at: "toe_inv t \<Longrightarrow> (i < W5500_NUM_SOCKETS \<Longrightarrow> sock_ok (sk t i) \<Longrightarrow> sock_ok (f (sk t i))) \<Longrightarrow> toe_inv (sk_upd i f t)"
  by (cases "i < length (socks t)")
    (auto simp: toe_inv_def sk_upd_def list_all_length nth_list_update list_update_beyond)

lemma inv_world: "toe_inv (t\<lparr>tw := w\<rparr>) = toe_inv t"
  by (simp add: toe_inv_def)

lemma inv_chip [simp]: "toe_inv (snd (on_chip f t)) = toe_inv t" "toe_inv (chip_do g t) = toe_inv t"
  by (simp_all add: on_chip_def chip_do_def inv_world)

text \<open>The updates that leave the indices alone.\<close>

lemma ok_simps [simp]:
  "sock_ok (s\<lparr>sk_in_use := b\<rparr>) = sock_ok s" "sock_ok (s\<lparr>sk_users := u\<rparr>) = sock_ok s" "sock_ok (s\<lparr>sk_sem := b\<rparr>) = sock_ok s"
  "sock_ok (s\<lparr>sk_err := e\<rparr>) = sock_ok s" "sock_ok (s\<lparr>sk_port := p\<rparr>) = sock_ok s" "sock_ok (s\<lparr>sk_peer := q\<rparr>) = sock_ok s"
  "sock_ok (s\<lparr>sk_listening := b\<rparr>) = sock_ok s" "sock_ok (s\<lparr>sk_has_fd := b\<rparr>) = sock_ok s" "sock_ok (s\<lparr>sk_nonblock := b\<rparr>) = sock_ok s"
  "sock_ok (s\<lparr>sk_recv_to := n\<rparr>) = sock_ok s" "sock_ok (s\<lparr>sk_send_to := n\<rparr>) = sock_ok s" "sock_ok (s\<lparr>sk_zombie := b\<rparr>) = sock_ok s"
  "sock_ok (s\<lparr>sk_notified := b\<rparr>) = sock_ok s" "sock_ok (s\<lparr>sk_sig := b\<rparr>) = sock_ok s" "sock_ok (s\<lparr>sk_type := k\<rparr>) = sock_ok s"
  "sock_ok (s\<lparr>sk_proto := pr\<rparr>) = sock_ok s" "sock_ok (s\<lparr>sk_shut_rd := b\<rparr>) = sock_ok s" "sock_ok (s\<lparr>sk_shut_wr := b\<rparr>) = sock_ok s"
  by (simp_all add: sock_ok_def)

lemma ok_sets:
  "sock_ok s \<Longrightarrow> -1 \<le> h \<Longrightarrow> h < 8 \<Longrightarrow> sock_ok (s\<lparr>sk_hw := h\<rparr>)" "sock_ok s \<Longrightarrow> sock_ok (s\<lparr>sk_lsn := []\<rparr>)"
  "sock_ok s \<Longrightarrow> sock_ok (s\<lparr>sk_pend := []\<rparr>)" "sock_ok s \<Longrightarrow> sk_pend s = c # cs \<Longrightarrow> sock_ok (s\<lparr>sk_pend := cs\<rparr>)"
  "sock_ok sock_zero"
  by (simp_all add: sock_ok_def sock_zero_def W5500_LISTEN_KEEP_def W5500_NUM_SOCKETS_def)

lemma inv_fields [simp]:
  "toe_inv (t\<lparr>next_ephemeral := e\<rparr>) = toe_inv t" "toe_inv (t\<lparr>toe_fds := f\<rparr>) = toe_inv t" "toe_inv (t\<lparr>hw_broken := b\<rparr>) = toe_inv t"
  "toe_inv (t\<lparr>hw_fail := (hw_fail t)[k := v]\<rparr>) = toe_inv t" "toe_inv (t\<lparr>toe_link_up := l, toe_carrier := l'\<rparr>) = toe_inv t"
  "toe_inv (t\<lparr>poll_armed := b'\<rparr>) = toe_inv t" "toe_inv (t\<lparr>irq_pending := b'\<rparr>) = toe_inv t"
  by (simp_all add: toe_inv_def)

section \<open>Table functions\<close>

lemma slot_alloc_cases:
  obtains (full) "sock_slot_alloc t = (None, t)"
  | (slot) c where "c < W5500_NUM_SOCKETS"
      "sock_slot_alloc t = (Some c, sk_upd c (\<lambda>_. sock_zero\<lparr>sk_in_use := True, sk_hw := -1, sk_recv_to := -1, sk_send_to := -1\<rparr>) t)"
proof (cases "filter (\<lambda>i. \<not> sk_in_use (sk t i)) [0..<W5500_NUM_SOCKETS]")
  case Nil
  then show ?thesis using full by (simp add: sock_slot_alloc_def)
next
  case (Cons c cs)
  then have "c \<in> set (filter (\<lambda>i. \<not> sk_in_use (sk t i)) [0..<W5500_NUM_SOCKETS])" by simp
  then have "c \<in> set [0..<W5500_NUM_SOCKETS]" by (meson filter_is_subset subsetD)
  then have "c < W5500_NUM_SOCKETS" by simp
  then show ?thesis using slot [of c] Cons by (simp add: sock_slot_alloc_def)
qed

lemma fresh_ok: "sock_ok (sock_zero\<lparr>sk_in_use := True, sk_hw := -1, sk_recv_to := -1, sk_send_to := -1\<rparr>)"
  by (simp add: ok_sets)

lemma slot_alloc_inv:
  assumes "toe_inv t"
  shows "toe_inv (snd (sock_slot_alloc t))" "fst (sock_slot_alloc t) = Some c \<Longrightarrow> c < W5500_NUM_SOCKETS"
proof -
  show "toe_inv (snd (sock_slot_alloc t))"
  proof (cases t rule: slot_alloc_cases)
    case (slot c)
    show ?thesis unfolding slot(2) snd_conv by (rule inv_upd [OF assms]) (rule fresh_ok)
  qed (simp add: assms)
  show "fst (sock_slot_alloc t) = Some c \<Longrightarrow> c < W5500_NUM_SOCKETS" by (cases t rule: slot_alloc_cases) auto
qed

lemma hw_scan_range: "fst (hw_scan E taken broken is w) = -1 \<or> (\<exists>i \<in> set is. fst (hw_scan E taken broken is w) = int i)"
  by (induction "is" arbitrary: w) (auto simp: case_prod_beta Let_def)

lemma hw_alloc_range: "-1 \<le> fst (hw_alloc E t)" "fst (hw_alloc E t) < 8"
  using hw_scan_range [of E "hw_taken (socks t)" "hw_broken t" "[0..<W5500_NUM_SOCKETS]" "tw t"]
  by (auto simp: hw_alloc_def W5500_NUM_SOCKETS_def)

lemma hw_alloc_inv [simp]: "toe_inv (snd (hw_alloc E t)) = toe_inv t"
  by (simp add: hw_alloc_def)

lemma ephemeral_inv [simp]: "toe_inv (snd (alloc_ephemeral t)) = toe_inv t"
  by (simp add: alloc_ephemeral_def Let_def)

lemma udp_open_inv: "toe_inv t \<Longrightarrow> toe_inv (snd (udp_open E i t))"
  by (auto simp: udp_open_def case_prod_beta Let_def intro!: inv_upd)

lemma hold_inv: "toe_inv t \<Longrightarrow> toe_inv (snd (sock_hold i t))"
  by (auto simp: sock_hold_def intro!: inv_upd)

lemma release_inv: "toe_inv t \<Longrightarrow> toe_inv (sock_release i t)"
  by (auto simp: sock_release_def Let_def intro!: inv_upd)

lemma notify_inv: "toe_inv t \<Longrightarrow> toe_inv (sock_notify i t)" "toe_inv t \<Longrightarrow> toe_inv (sock_notify_drain i t)"
  by (auto simp: sock_notify_def sock_notify_drain_def intro!: inv_upd)

lemma refill_inv: "toe_inv t \<Longrightarrow> toe_inv (listener_refill E n li t)"
proof (induction n arbitrary: t)
  case (Suc n)
  define a where "a = hw_alloc E t"
  define r where "r = on_chip (tcp_open_listen E (fst a) (sk_port (sk t li))) (snd a)"
  have s: "toe_inv (snd a)" "toe_inv (snd r)" "socks (snd a) = socks t" "socks (snd r) = socks t"
    using Suc.prems by (simp_all add: a_def r_def)
  have up: "toe_inv (sk_upd li (\<lambda>s. s\<lparr>sk_lsn := sk_lsn s @ [fst a]\<rparr>) ((snd r)\<lparr>hw_fail := (hw_fail (snd r))[k := v]\<rparr>))"
    if "\<not> W5500_LISTEN_KEEP \<le> length (sk_lsn (sk t li))" "\<not> fst a < 0" for k v
    using that s(2) hw_alloc_range [of E t] by (intro inv_upd_at) (auto simp: sock_ok_def a_def s(4))
  show ?case
    using Suc.prems s up by (auto simp: case_prod_beta Let_def a_def [symmetric] r_def [symmetric] intro!: Suc.IH)
qed simp

lemma fill_inv: "toe_inv t \<Longrightarrow> toe_inv (listener_fill E li t)"
  by (simp add: listener_fill_def refill_inv)

lemma remove_inv: "toe_inv t \<Longrightarrow> toe_inv (listener_pool_remove li idx t)"
proof -
  assume t: "toe_inv t"
  have "set (take idx l @ drop (Suc idx) l) \<subseteq> set l" for l :: "int list" by (auto dest: in_set_takeD in_set_dropD)
  then show ?thesis unfolding listener_pool_remove_def
    using t by (intro inv_upd) (auto simp: sock_ok_def list_all_iff dest: in_set_takeD in_set_dropD)
qed

lemma refill_pend: "sk_pend (sk (listener_refill E n li t) j) = sk_pend (sk t j)"
proof (induction n arbitrary: t)
  case (Suc n)
  have "socks (snd (hw_alloc E t)) = socks t" by (simp add: hw_alloc_def)
  then show ?case using Suc.IH by (simp add: case_prod_beta Let_def sk_upd_keeps)
qed simp

lemma slot_alloc_pend: "length (sk_pend (sk (snd (sock_slot_alloc t)) j)) \<le> length (sk_pend (sk t j))"
proof (cases t rule: slot_alloc_cases)
  case (slot c)
  have "sk_pend (sk (snd (sock_slot_alloc t)) j) = (if j = c \<and> c < length (socks t) then [] else sk_pend (sk t j))"
    unfolding slot(2) snd_conv sk_upd_def
    by (cases "c < length (socks t)") (simp_all add: nth_list_update list_update_beyond sock_zero_def)
  then show ?thesis by simp
qed simp

lemma promote_inv:
  assumes "toe_inv t" "li < W5500_NUM_SOCKETS" "idx < length (sk_lsn (sk t li))"
  shows "toe_inv (listener_promote E li idx t)"
proof (cases "length (sk_pend (sk t li)) \<ge> W5500_NUM_SOCKETS \<or> fst (sock_slot_alloc t) = None")
  case True
  then show ?thesis using assms(1) slot_alloc_inv(1) [OF assms(1)]
    by (auto simp: listener_promote_def case_prod_beta split: option.splits)
next
  case False
  obtain c where c: "fst (sock_slot_alloc t) = Some c" using False by auto
  define ts where "ts = snd (sock_slot_alloc t)"
  define hw where "hw = sk_lsn (sk t li) ! idx"
  define f where "f = (\<lambda>s :: w5500_sock. s\<lparr>sk_hw := hw, sk_type := sk_type (sk ts li), sk_proto := sk_proto (sk ts li),
    sk_recv_to := sk_recv_to (sk ts li), sk_send_to := sk_send_to (sk ts li), sk_has_fd := False\<rparr>)"
  define t1 where "t1 = sk_upd c f ts"
  define t2 where "t2 = listener_fill E li (listener_pool_remove li idx t1)"
  have hw: "-1 \<le> hw" "hw < 8"
    using inv_at [OF assms(1,2)] assms(3) by (auto simp: sock_ok_def hw_def list_all_length)
  have "toe_inv ts" unfolding ts_def by (rule slot_alloc_inv(1) [OF assms(1)])
  then have "toe_inv t1" unfolding t1_def by (rule inv_upd) (simp add: f_def ok_sets(1) hw)
  then have i2: "toe_inv t2" unfolding t2_def by (intro fill_inv remove_inv)
  have "sk_pend (sk t2 li) = sk_pend (sk ts li)"
    by (simp add: t2_def t1_def listener_fill_def refill_pend listener_pool_remove_def sk_upd_keeps f_def)
  then have "length (sk_pend (sk t2 li)) < W5500_NUM_SOCKETS"
    using False slot_alloc_pend [of t li] by (simp add: ts_def)
  then have "toe_inv (sk_upd li (\<lambda>s. s\<lparr>sk_pend := sk_pend s @ [c]\<rparr>) t2)"
    using slot_alloc_inv(2) [OF assms(1) c] by (intro inv_upd_at i2) (simp add: sock_ok_def)
  then have "toe_inv (sock_notify li (sk_upd li (\<lambda>s. s\<lparr>sk_pend := sk_pend s @ [c]\<rparr>) t2))" by (rule notify_inv)
  moreover have "listener_promote E li idx t = sock_notify li (sk_upd li (\<lambda>s. s\<lparr>sk_pend := sk_pend s @ [c]\<rparr>) t2)"
    using False c by (simp add: listener_promote_def case_prod_beta Let_def ts_def [symmetric] hw_def [symmetric] f_def [symmetric]
        t1_def [symmetric] t2_def [symmetric])
  ultimately show ?thesis by simp
qed

section \<open>The worker\<close>

lemma readable_inv [simp]: "toe_inv (snd (sock_readable E i t)) = toe_inv t"
  by (simp add: sock_readable_def case_prod_beta Let_def)

lemma scan_inv: "listener_scan E li idx t = Some t' \<Longrightarrow> li < W5500_NUM_SOCKETS \<longrightarrow> toe_inv t \<longrightarrow> toe_inv t'"
proof (rule listener_scan.raw_induct [where P = "\<lambda>E li idx t t'. li < W5500_NUM_SOCKETS \<longrightarrow> toe_inv t \<longrightarrow> toe_inv t'"], intro impI)
  fix scan :: "'a toe_env \<Rightarrow> nat \<Rightarrow> nat \<Rightarrow> 'a toe \<Rightarrow> 'a toe option" and E li idx t t'
  assume IH: "\<And>E li idx t t'. scan E li idx t = Some t' \<Longrightarrow> li < W5500_NUM_SOCKETS \<longrightarrow> toe_inv t \<longrightarrow> toe_inv t'"
    and body: "(if idx < length (sk_lsn (sk t li)) then
        let hw = sk_lsn (sk t li) ! idx; r = on_chip (sock_sr E hw) t in
        if fst r = SR_ESTABLISHED then scan E li idx (listener_promote E li idx (snd r))
        else if fst r \<noteq> SR_LISTEN \<and> fst r \<noteq> SR_INIT \<and> fst r \<noteq> SR_SYNRECV then
          scan E li idx (listener_pool_remove li idx (chip_do (hw_close E hw) (snd r)))
        else scan E li (Suc idx) (snd r)
      else Some t) = Some t'"
    and li: "li < W5500_NUM_SOCKETS" and inv: "toe_inv t"
  define t1 where "t1 = snd (on_chip (sock_sr E (sk_lsn (sk t li) ! idx)) t)"
  have t1: "toe_inv t1" "idx < length (sk_lsn (sk t li)) \<Longrightarrow> toe_inv (listener_promote E li idx t1)"
    using inv li by (auto simp: t1_def intro!: promote_inv)
  show "toe_inv t'"
    using body IH li t1 inv remove_inv [of "chip_do f t1" for f]
    by (auto simp: Let_def t1_def [symmetric] split: if_splits)
qed

lemma service_sock_inv: "service_sock E i t = Some t' \<Longrightarrow> i < W5500_NUM_SOCKETS \<Longrightarrow> toe_inv t \<Longrightarrow> toe_inv t'"
  using scan_inv [of E i 0 t]
  by (auto simp: service_sock_def case_prod_beta Let_def notify_inv fill_inv split: if_splits option.splits)

lemma service_all_inv: "service_all E is t = Some t' \<Longrightarrow> list_all (\<lambda>i. i < W5500_NUM_SOCKETS) is \<Longrightarrow> toe_inv t \<Longrightarrow> toe_inv t'"
  by (induction "is" arbitrary: t) (auto split: option.splits dest: service_sock_inv)

lemma worker_inv:
  assumes "toe_inv t"
  shows "w5500_service E t = Some t' \<Longrightarrow> toe_inv t'" "w5500_toe_poll_fn E t = Some t' \<Longrightarrow> toe_inv t'"
    "w5500_toe_irq_fn E pin t = Some t' \<Longrightarrow> toe_inv t'"
proof -
  have "toe_inv (service_link E t0) = toe_inv t0" for t0 by (simp add: service_link_def case_prod_beta Let_def)
  then have s: "w5500_service E t0 = Some t' \<Longrightarrow> toe_inv t0 \<Longrightarrow> toe_inv t'" for t0 t'
    using service_all_inv [of E "[0..<W5500_NUM_SOCKETS]" "service_link E t0" t'] by (simp add: w5500_service_def list_all_iff)
  show "w5500_service E t = Some t' \<Longrightarrow> toe_inv t'" using s assms by blast
  show "w5500_toe_poll_fn E t = Some t' \<Longrightarrow> toe_inv t'" using s assms by (auto simp: w5500_toe_poll_fn_def)
  show "w5500_toe_irq_fn E pin t = Some t' \<Longrightarrow> toe_inv t'"
    using s assms by (auto simp: w5500_toe_irq_fn_def case_prod_beta Let_def)
qed

section \<open>The socket operations\<close>

definition keeps_inv :: "('w toe \<Rightarrow> 'w toe) \<Rightarrow> bool" where
  "keeps_inv other \<longleftrightarrow> (\<forall>t. toe_inv t \<longrightarrow> toe_inv (other t))"

definition inv_result :: "('r \<times> 'w toe) option \<Rightarrow> bool" where
  "inv_result r \<longleftrightarrow> (case r of None \<Rightarrow> True | Some (v, t) \<Rightarrow> toe_inv t)"

lemma inv_result_none [simp]: "inv_result None"
  by (simp add: inv_result_def)

lemma inv_result_if: "inv_result (if b then x else y) = (if b then inv_result x else inv_result y)"
  by simp

lemma slice_inv: "toe_inv t \<Longrightarrow> keeps_inv other \<Longrightarrow> toe_inv (snd (wait_slice E i ms dl other t))"
  by (auto simp: wait_slice_def keeps_inv_def intro!: inv_upd)

text \<open>
  Sequencing: an operation is a chain of steps, each of which hands on a state; \<open>inv_res\<close> speaks of a step's result,
  \<open>inv_result\<close> of that of a call that may block.
\<close>

definition inv_res :: "'r \<times> 'w toe \<Rightarrow> bool" where
  "inv_res r \<longleftrightarrow> toe_inv (snd r)"

lemma inv_res_pair [simp]: "inv_res (v, t) = toe_inv t" by (simp add: inv_res_def)

lemma inv_result_some [simp]: "inv_result (Some r) = inv_res r"
  by (simp add: inv_result_def inv_res_def case_prod_beta)

lemma finish_inv: "inv_result r \<Longrightarrow> inv_result (finish i r)"
  by (cases r) (auto simp: finish_def case_prod_beta inv_res_def intro: release_inv)

lemma inv_seq:
  "inv_res p \<Longrightarrow> (\<And>v t. p = (v, t) \<Longrightarrow> toe_inv t \<Longrightarrow> inv_res (f v t)) \<Longrightarrow> inv_res (case p of (v, t) \<Rightarrow> f v t)"
  "inv_res p \<Longrightarrow> (\<And>v t. p = (v, t) \<Longrightarrow> toe_inv t \<Longrightarrow> inv_result (g v t)) \<Longrightarrow> inv_result (case p of (v, t) \<Rightarrow> g v t)"
  "inv_res p \<Longrightarrow> (\<And>v t. p = (v, t) \<Longrightarrow> toe_inv t \<Longrightarrow> toe_inv (h v t)) \<Longrightarrow> toe_inv (case p of (v, t) \<Rightarrow> h v t)"
  by (simp_all add: inv_res_def case_prod_beta)

lemma inv_alloc:
  assumes "toe_inv t"
  shows "(\<And>v t'. toe_inv t' \<Longrightarrow> -1 \<le> v \<Longrightarrow> v < 8 \<Longrightarrow> inv_res (f v t')) \<Longrightarrow> inv_res (case hw_alloc E t of (v, t') \<Rightarrow> f v t')"
    "(\<And>v t'. toe_inv t' \<Longrightarrow> -1 \<le> v \<Longrightarrow> v < 8 \<Longrightarrow> inv_result (g v t')) \<Longrightarrow> inv_result (case hw_alloc E t of (v, t') \<Rightarrow> g v t')"
  using hw_alloc_range [of E t] hw_alloc_inv [of E t] assms by (simp_all add: case_prod_beta del: hw_alloc_inv)

lemma inv_ifs: "(b \<Longrightarrow> inv_res x) \<Longrightarrow> (\<not> b \<Longrightarrow> inv_res y) \<Longrightarrow> inv_res (if b then x else y)"
  "(b \<Longrightarrow> inv_result x') \<Longrightarrow> (\<not> b \<Longrightarrow> inv_result y') \<Longrightarrow> inv_result (if b then x' else y')"
  "(b \<Longrightarrow> toe_inv t) \<Longrightarrow> (\<not> b \<Longrightarrow> toe_inv t') \<Longrightarrow> toe_inv (if b then t else t')"
  by simp_all

lemma step_res:
  "inv_res (on_chip f t) = toe_inv t" "inv_res (hw_alloc E t) = toe_inv t"
  "toe_inv t \<Longrightarrow> inv_res (sock_hold i t)" "toe_inv t \<Longrightarrow> inv_res (udp_open E i t)" "toe_inv t \<Longrightarrow> inv_res (sock_slot_alloc t)"
  "toe_inv t \<Longrightarrow> keeps_inv other \<Longrightarrow> inv_res (wait_slice E i ms dl other t)"
  "toe_inv t \<Longrightarrow> inv_res (refused i t)" "inv_res (sock_readable E i t) = toe_inv t"
  by (auto simp: inv_res_def hold_inv udp_open_inv slice_inv slot_alloc_inv refused_def intro!: inv_upd ok_sets)

lemmas seq_intros = inv_seq inv_ifs step_res(3-7) finish_inv release_inv fill_inv notify_inv inv_upd ok_sets
lemmas seq_simps = step_res(1,2,8) Let_def

lemma create_inv: "toe_inv t \<Longrightarrow> inv_res (w5500_toe_socket_create E is_inet kind proto t)"
  unfolding w5500_toe_socket_create_def
  by (auto simp: seq_simps split: option.split intro!: seq_intros)

lemma bind_inv: "toe_inv t \<Longrightarrow> inv_res (w5500_bind E i addr t)"
  unfolding w5500_bind_def
  by (cases addr) (auto simp: seq_simps intro!: seq_intros inv_alloc)

lemma connect_loop_inv: "toe_inv t \<Longrightarrow> list_all keeps_inv ws \<Longrightarrow> inv_result (connect_loop E i dl ws t)"
proof (induction ws arbitrary: t)
  case Nil
  then show ?case by (subst connect_loop.simps) (auto simp: seq_simps intro!: seq_intros)
next
  case (Cons other ws)
  then show ?case by (subst connect_loop.simps) (auto simp: seq_simps intro!: seq_intros)
qed

lemma connect_inv: "toe_inv t \<Longrightarrow> list_all keeps_inv ws \<Longrightarrow> inv_result (w5500_connect E i addr ws t)"
  unfolding w5500_connect_def connect_tcp_def
  by (cases addr) (auto simp: seq_simps intro!: seq_intros connect_loop_inv inv_alloc)

lemma listen_inv: "toe_inv t \<Longrightarrow> inv_res (w5500_listen E i t)"
  unfolding w5500_listen_def
  by (auto simp: seq_simps intro!: seq_intros)

section \<open>Accepting\<close>

lemma reap_inv: "toe_inv t \<Longrightarrow> list_all (\<lambda>c. c < W5500_NUM_SOCKETS) cs \<Longrightarrow> length cs \<le> W5500_NUM_SOCKETS \<Longrightarrow>
    inv_res (reap_pending E li cs t)"
proof (induction cs arbitrary: t)
  case (Cons c cs)
  have "toe_inv (sk_upd li (\<lambda>s. s\<lparr>sk_pend := cs\<rparr>) t)" using Cons.prems by (intro inv_upd) (simp_all add: sock_ok_def)
  then show ?case using Cons.prems(2,3) by (auto simp: seq_simps intro!: inv_seq inv_ifs step_res(3-7) Cons.IH inv_upd)
qed simp

lemma reap_index: "list_all (\<lambda>c. c < W5500_NUM_SOCKETS) cs \<Longrightarrow> fst (reap_pending E li cs t) = Some d \<Longrightarrow> d < W5500_NUM_SOCKETS"
  by (induction cs arbitrary: t) (auto simp: case_prod_beta Let_def split: if_splits)

lemma promote_first_inv: "toe_inv t \<Longrightarrow> li < W5500_NUM_SOCKETS \<Longrightarrow> idx + length hws \<le> length (sk_lsn (sk t li)) \<Longrightarrow> toe_inv (promote_first E li idx hws t)"
proof (induction hws arbitrary: idx t)
  case (Cons hw hws)
  then show ?case by (auto simp: case_prod_beta Let_def intro!: promote_inv Cons.IH)
qed simp

lemma any_established_inv: "toe_inv t \<Longrightarrow> inv_res (any_established E hws t)"
  by (induction hws arbitrary: t) (auto simp: seq_simps intro!: seq_intros)

lemma accept_finish_inv: "toe_inv t \<Longrightarrow> inv_res (accept_finish E want c t)"
  unfolding accept_finish_def
  by (auto simp: seq_simps intro!: seq_intros)

section \<open>Sending and receiving\<close>

lemma send_space_inv: "toe_inv t \<Longrightarrow> list_all keeps_inv ws \<Longrightarrow> inv_result (send_space E i chunk nb dl polls ws t)"
proof (induction ws arbitrary: polls t)
  case Nil
  then show ?case by (subst send_space.simps) (auto simp: seq_simps intro!: seq_intros)
next
  case (Cons other ws)
  have "toe_inv t0 \<Longrightarrow> toe_inv (other t0)" for t0 using Cons.prems(2) by (simp add: keeps_inv_def)
  then show ?case using Cons
    by (subst send_space.simps) (auto simp: seq_simps pipe_err_def split: nat.split intro!: seq_intros)
qed

lemma recv_inv: "toe_inv t \<Longrightarrow> inv_res (recv_dgram E i n t)" "toe_inv t \<Longrightarrow> inv_res (recv_stream E i n rsr want t)"
  unfolding recv_dgram_def recv_stream_def
  by (auto simp: seq_simps intro!: seq_intros)

lemma recv_loop_inv: "toe_inv t \<Longrightarrow> list_all keeps_inv ws \<Longrightarrow> inv_result (recv_loop E i n want nb dl ws t)"
proof (induction ws arbitrary: t)
  case Nil
  then show ?case by (subst recv_loop.simps) (auto simp: seq_simps intro!: seq_intros recv_inv)
next
  case (Cons other ws)
  then show ?case by (subst recv_loop.simps) (auto simp: seq_simps intro!: seq_intros recv_inv)
qed

lemma reap_at: "toe_inv t \<Longrightarrow> li < W5500_NUM_SOCKETS \<Longrightarrow> inv_res (reap_pending E li (sk_pend (sk t li)) t)"
  using inv_at [of t li] by (auto simp: sock_ok_def intro!: reap_inv)

lemma accept_loop_inv:
  "toe_inv t \<Longrightarrow> li < W5500_NUM_SOCKETS \<Longrightarrow> list_all keeps_inv ws \<Longrightarrow> inv_result (accept_loop E li dl ws t)"
proof (induction ws arbitrary: t)
  case Nil
  then show ?case
    by (subst accept_loop.simps) (auto simp: seq_simps split: option.split intro!: seq_intros reap_at promote_first_inv)
next
  case (Cons other ws)
  then show ?case
    by (subst accept_loop.simps)
      (auto simp: seq_simps split: option.split intro!: seq_intros reap_at promote_first_inv any_established_inv Cons.IH)
qed

lemma accept_inv:
  assumes "toe_inv t" "li < W5500_NUM_SOCKETS" "list_all keeps_inv ws"
  shows "inv_result (w5500_accept E li want ws t)"
proof -
  have a: "inv_result (case accept_loop E li dl ws t0 of None \<Rightarrow> None | Some (Inl e, t) \<Rightarrow> Some (Inl e, t)
      | Some (Inr c, t) \<Rightarrow> Some (accept_finish E want c t))" if "toe_inv t0" for dl t0
  proof (cases "accept_loop E li dl ws t0")
    case (Some x)
    obtain v t1 where x: "x = (v, t1)" by (cases x)
    have "toe_inv t1" using accept_loop_inv [OF that assms(2,3), of E dl] Some x by simp
    then show ?thesis using Some x by (cases v) (simp_all add: accept_finish_inv)
  qed simp
  show ?thesis unfolding w5500_accept_def using assms(1) a by (auto simp: seq_simps intro!: seq_intros)
qed

lemma send_space_ws: "list_all P ws \<Longrightarrow> send_space E i chunk nb dl polls ws t = Some ((r, ws'), t') \<Longrightarrow> list_all P ws'"
proof (induction ws arbitrary: polls t)
  case Nil
  then show ?case by (subst (asm) send_space.simps) (auto simp: case_prod_beta Let_def split: if_splits)
next
  case (Cons other ws)
  then show ?case
    by (subst (asm) (2) send_space.simps) (auto simp: case_prod_beta Let_def split: if_splits nat.splits)
qed

lemma send_loop_inv: "toe_inv t \<Longrightarrow> list_all keeps_inv ws \<Longrightarrow> inv_result (send_loop E i peer nb dl off rest ws t)"
proof (induction "length rest" arbitrary: off rest ws t rule: less_induct)
  case less
  have chunk: "inv_result (case send_space E i c nb dl 30 ws t0 of None \<Rightarrow> None
      | Some ((Inl e, ws), t) \<Rightarrow> Some (sent_or off e, t)
      | Some ((Inr u, ws), t) \<Rightarrow>
          let (rc, t) = on_chip (put_chunk E (sk_hw (sk t i)) q (take c rest)) t in
          if rc < 0 then Some (sent_or off E_IO, t) else send_loop E i peer nb dl (off + c) (drop c rest) ws t)"
    if "toe_inv t0" "rest \<noteq> []" "0 < c" for t0 c q
  proof (cases "send_space E i c nb dl 30 ws t0")
    case (Some x)
    obtain u ws2 t2 where x: "x = ((u, ws2), t2)" by (metis prod.exhaust)
    have t2: "toe_inv t2" using send_space_inv [OF that(1) less.prems(2), of E i c nb dl 30] Some x by (simp add: inv_res_def)
    have ws2: "list_all keeps_inv ws2" by (rule send_space_ws [OF less.prems(2)]) (use Some x in simp)
    have lt: "length (drop c rest) < length rest" using that(2,3) by simp
    show ?thesis
      using Some x t2 ws2 lt by (cases u) (auto simp: seq_simps intro!: seq_intros less.hyps)
  qed simp
  show ?case
    by (subst send_loop.simps, unfold Let_def, intro inv_ifs inv_seq chunk [unfolded Let_def])
      (use less.prems in \<open>auto simp: seq_simps pipe_err_def W5500_SOCK_BUF_SIZE_def intro!: inv_upd\<close>)
qed

lemma sendto_inv: "toe_inv t \<Longrightarrow> list_all keeps_inv ws \<Longrightarrow> inv_result (w5500_sendto E i buf dontwait dest ws t)"
proof -
  assume t: "toe_inv t" and ws: "list_all keeps_inv ws"
  have l: "inv_res (lazy_udp E i t0)" if "toe_inv t0" for t0
    unfolding lazy_udp_def using that by (auto simp: seq_simps intro!: seq_intros inv_alloc)
  show ?thesis unfolding w5500_sendto_def
    using t ws l by (auto simp: seq_simps split: sum.split option.split intro!: seq_intros send_loop_inv)
qed

lemma recvfrom_inv: "toe_inv t \<Longrightarrow> list_all keeps_inv ws \<Longrightarrow> inv_result (w5500_recvfrom E i n dontwait want ws t)"
  unfolding w5500_recvfrom_def
  by (auto simp: seq_simps intro!: seq_intros recv_loop_inv)

section \<open>Closing and the rest\<close>

lemma close_pending_inv: "toe_inv t \<Longrightarrow> toe_inv (close_pending E cs t)"
proof (induction cs arbitrary: t)
  case (Cons c cs)
  then show ?case by (auto simp: Let_def intro!: Cons.IH seq_intros)
qed simp

lemma close_inv: "toe_inv t \<Longrightarrow> toe_inv (w5500_close E i t)"
  unfolding w5500_close_def
  by (auto simp: Let_def intro!: seq_intros close_pending_inv)

lemma shutdown_inv: "toe_inv t \<Longrightarrow> toe_inv (w5500_shutdown E i how t)"
  unfolding w5500_shutdown_def
  by (auto simp: Let_def intro!: seq_intros)

lemma options_inv:
  "toe_inv t \<Longrightarrow> inv_res (w5500_getsockopt i is_sock opt fits t)" "toe_inv t \<Longrightarrow> inv_res (w5500_setsockopt i is_sock opt tv t)"
  "toe_inv t \<Longrightarrow> toe_inv (ioctl_setfl i nb t)" "toe_inv t \<Longrightarrow> inv_res (ioctl_fionread E i t)"
  "toe_inv t \<Longrightarrow> inv_res (poll_update E i ask_in ask_out fired t)"
  "toe_inv t \<Longrightarrow> inv_res (w5500_getsockname E i t)" "toe_inv t \<Longrightarrow> inv_res (w5500_getpeername E i t)"
  unfolding w5500_getsockopt_def w5500_setsockopt_def ioctl_setfl_def ioctl_fionread_def poll_update_def w5500_getsockname_def w5500_getpeername_def
  by (auto simp: seq_simps split: sock_opt.split option.split intro!: seq_intros)

section \<open>Sequences of calls\<close>

text \<open>
  The calls on table entry \<open>i\<close> and the runs of the worker, in any order.  A call that stays blocked gives \<open>None\<close>.
\<close>

datatype 'w toe_call =
    T_socket bool sock_kind ip_proto
  | T_bind nat "(bytes \<times> u16) option"
  | T_connect nat "(bytes \<times> u16) option" "('w toe \<Rightarrow> 'w toe) list"
  | T_listen nat
  | T_accept nat bool "('w toe \<Rightarrow> 'w toe) list"
  | T_send nat bytes bool dest_addr "('w toe \<Rightarrow> 'w toe) list"
  | T_recv nat nat bool bool "('w toe \<Rightarrow> 'w toe) list"
  | T_close nat
  | T_shutdown nat shut_how
  | T_setsockopt nat sock_opt "(int \<times> int) option"
  | T_poll nat bool bool bool
  | T_worker
  | T_irq bool

fun toe_do :: "'w toe_env \<Rightarrow> 'w toe_call \<Rightarrow> 'w toe \<Rightarrow> 'w toe option" where
  "toe_do E (T_socket is_inet kind proto) t = Some (snd (w5500_toe_socket_create E is_inet kind proto t))"
| "toe_do E (T_bind i addr) t = Some (snd (w5500_bind E i addr t))"
| "toe_do E (T_connect i addr ws) t = map_option snd (w5500_connect E i addr ws t)"
| "toe_do E (T_listen i) t = Some (snd (w5500_listen E i t))"
| "toe_do E (T_accept i want ws) t = map_option snd (w5500_accept E i want ws t)"
| "toe_do E (T_send i buf dontwait dest ws) t = map_option snd (w5500_sendto E i buf dontwait dest ws t)"
| "toe_do E (T_recv i n dontwait want ws) t = map_option snd (w5500_recvfrom E i n dontwait want ws t)"
| "toe_do E (T_close i) t = Some (w5500_close E i t)"
| "toe_do E (T_shutdown i how) t = Some (w5500_shutdown E i how t)"
| "toe_do E (T_setsockopt i opt tv) t = Some (snd (w5500_setsockopt i True opt tv t))"
| "toe_do E (T_poll i a b fired) t = Some (snd (poll_update E i a b fired t))"
| "toe_do E T_worker t = w5500_toe_poll_fn E t"
| "toe_do E (T_irq pin) t = w5500_toe_irq_fn E pin t"

fun toe_run :: "'w toe_env \<Rightarrow> 'w toe_call list \<Rightarrow> 'w toe \<Rightarrow> 'w toe option" where
  "toe_run E [] t = Some t"
| "toe_run E (c # cs) t = (case toe_do E c t of None \<Rightarrow> None | Some t \<Rightarrow> toe_run E cs t)"

fun call_ok :: "'w toe_call \<Rightarrow> bool" where
  "call_ok (T_connect i addr ws) = list_all keeps_inv ws"
| "call_ok (T_accept i want ws) = (i < W5500_NUM_SOCKETS \<and> list_all keeps_inv ws)"
| "call_ok (T_send i buf dontwait dest ws) = list_all keeps_inv ws"
| "call_ok (T_recv i n dontwait want ws) = list_all keeps_inv ws"
| "call_ok c = True"

lemma result_at: "inv_result r \<Longrightarrow> r = Some (a, t) \<Longrightarrow> toe_inv t"
  by simp

lemma toe_do_inv:
  assumes inv: "toe_inv t" and ok: "call_ok c" and run: "toe_do E c t = Some t'"
  shows "toe_inv t'"
proof (cases c)
  case (T_connect i addr ws)
  then show ?thesis using ok run result_at [OF connect_inv [OF inv, of ws E i addr]] by auto
next
  case (T_accept i want ws)
  then show ?thesis using ok run result_at [OF accept_inv [OF inv, of i ws E want]] by auto
next
  case (T_send i buf dontwait dest ws)
  then show ?thesis using ok run result_at [OF sendto_inv [OF inv, of ws E i buf dontwait dest]] by auto
next
  case (T_recv i n dontwait want ws)
  then show ?thesis using ok run result_at [OF recvfrom_inv [OF inv, of ws E i n dontwait want]] by auto
next
  case (T_socket is_inet kind proto)
  then show ?thesis using run create_inv [OF inv, of E is_inet kind proto] by (auto simp: inv_res_def)
next
  case (T_bind i addr)
  then show ?thesis using run bind_inv [OF inv, of E i addr] by (auto simp: inv_res_def)
next
  case (T_listen i)
  then show ?thesis using run listen_inv [OF inv, of E i] by (auto simp: inv_res_def)
next
  case (T_setsockopt i opt tv)
  then show ?thesis using run options_inv(2) [OF inv, of i True opt tv] by (auto simp: inv_res_def)
next
  case (T_poll i a b fired)
  then show ?thesis using run options_inv(5) [OF inv, of E i a b fired] by (auto simp: inv_res_def)
next
  case (T_irq pin)
  then show ?thesis using run worker_inv(3) [OF inv] by auto
next
  case T_worker
  then show ?thesis using run worker_inv(2) [OF inv] by auto
qed (use run close_inv [OF inv] shutdown_inv [OF inv] in auto)

lemma toe_run_inv: "toe_inv t \<Longrightarrow> list_all call_ok cs \<Longrightarrow> toe_run E cs t = Some t' \<Longrightarrow> toe_inv t'"
  by (induction cs arbitrary: t) (auto split: option.splits dest: toe_do_inv)

lemma init_inv:
  assumes "socks t = replicate 8 sock_zero" "length (hw_fail t) = 8"
  shows "toe_inv (snd (w5500_toe_init E C t))"
proof -
  have i: "toe_inv (init_tables t)"
    using assms by (simp add: toe_inv_def init_tables_def W5500_NUM_SOCKETS_def list_all_length ok_sets)
  have f [simp]: "toe_inv (t'\<lparr>toe_mac := m\<rparr>) = toe_inv t'" "toe_inv (t'\<lparr>irq_mode := b\<rparr>) = toe_inv t'"
    "toe_inv (t'\<lparr>worker_on := b\<rparr>) = toe_inv t'" for t' :: "'a toe" and m b
    by (simp_all add: toe_inv_def)
  have n: "toe_inv (init_interrupts E C t') = toe_inv t'" for t' by (simp add: init_interrupts_def Let_def)
  show ?thesis
    unfolding w5500_toe_init_def using i
    by (auto simp: Let_def case_prod_beta n split: option.splits)
qed

end
