(* ===== verification/ToeTheorems.thy ===== *)
theory ToeTheorems imports ToeInv begin

text \<open>What the socket operations of the W5500 driver promise to a program that uses them.\<close>

section \<open>A chip that keeps the laws\<close>

text \<open>
  One hardware socket with an established connection: SEND puts the bytes on the wire at once, and what the peer
  sends waits in a queue of which the ring shows the first 2 KiB.
\<close>

record demo_chip =
  dc_mem :: "nat \<Rightarrow> u8"
  dc_wr :: u16
  dc_sent :: u16
  dc_wire :: bytes
  dc_rd :: u16
  dc_read :: u16
  dc_in :: bytes
  dc_sr :: u8

definition demo_reg :: "bytes \<Rightarrow> nat \<Rightarrow> demo_chip \<Rightarrow> bytes" where
  "demo_reg c n w =
     (if frame_blk c = 1 then
        (if frame_off c = 0x01 then [0] else if frame_off c = 0x03 then [dc_sr w]
         else if frame_off c = 0x24 then put_be16 (dc_wr w) else if frame_off c = 0x20 then put_be16 2048
         else if frame_off c = 0x28 then put_be16 (dc_rd w)
         else if frame_off c = 0x26 then put_be16 (of_nat (min 2048 (length (dc_in w)))) else [192, 168, 1, 20])
      else if frame_blk c = 3 then take n (drop ((frame_off c + 2048 - unat (dc_read w) mod 2048) mod 2048) (take 2048 (dc_in w)))
      else [192, 168])"

definition demo_rd :: "bytes \<Rightarrow> nat \<Rightarrow> demo_chip \<Rightarrow> (int \<times> bytes) \<times> demo_chip" where
  "demo_rd c n w = ((0, demo_reg c n w), w)"

definition demo_wr :: "bytes \<Rightarrow> bytes \<Rightarrow> demo_chip \<Rightarrow> int \<times> demo_chip" where
  "demo_wr c d w = (0,
     if frame_blk c = 2 then
       w\<lparr>dc_mem := (\<lambda>k. if frame_off c \<le> k \<and> k < frame_off c + length d then d ! (k - frame_off c) else dc_mem w k)\<rparr>
     else if frame_blk c = 1 then
       (if frame_off c = 0x24 then w\<lparr>dc_wr := be16_at d\<rparr>
        else if frame_off c = 0x28 then w\<lparr>dc_rd := be16_at d\<rparr>
        else if frame_off c = 0x01 \<and> d = [0x20] then
          w\<lparr>dc_sent := dc_wr w, dc_wire := dc_wire w @ map (\<lambda>k. dc_mem w ((unat (dc_sent w) + k) mod 2048)) [0..<unat (dc_wr w - dc_sent w)]\<rparr>
        else if frame_off c = 0x01 \<and> d = [0x40] then
          w\<lparr>dc_read := dc_rd w, dc_in := drop (unat (dc_rd w - dc_read w)) (dc_in w)\<rparr>
        else w)
     else w)"

definition demo_chip :: "demo_chip toe_env" where
  "demo_chip = \<lparr>spi_rd = demo_rd, spi_wr = demo_wr,
     t_stream = (\<lambda>c d n w. case d of None \<Rightarrow> (demo_reg c n w, w) | Some d \<Rightarrow> ([], snd (demo_wr c d w))),
     t_delay = (\<lambda>w. w), t_uptime = (\<lambda>w. 0), t_reserve_fd = (\<lambda>w. (3, w))\<rparr>"

definition toe_demo_tx :: "demo_chip tx_obs" where
  "toe_demo_tx = \<lparr>txm = dc_mem, txp = dc_wr, txr = dc_sent, outb = dc_wire, room = (\<lambda>_. 2048)\<rparr>"

definition toe_demo_rx :: "demo_chip rx_obs" where
  "toe_demo_rx = \<lparr>rxp = dc_rd, rxc = dc_read, rxq = (\<lambda>w. take 2048 (dc_in w))\<rparr>"

lemma toe_demo_tx_simps [simp]:
  "txm toe_demo_tx = dc_mem" "txp toe_demo_tx = dc_wr" "txr toe_demo_tx = dc_sent" "outb toe_demo_tx = dc_wire" "room toe_demo_tx w = 2048"
  by (simp_all add: toe_demo_tx_def)

lemma toe_demo_rx_simps [simp]: "rxp toe_demo_rx = dc_rd" "rxc toe_demo_rx = dc_read" "rxq toe_demo_rx w = take 2048 (dc_in w)"
  by (simp_all add: toe_demo_rx_def)

lemma toe_demo_tx_law: "tx_law demo_chip 0 toe_demo_tx"
proof -
  have "\<exists>v. put_be16 2048 = put_be16 v \<and> unat v \<le> 2048" by (rule exI [of _ 2048]) simp
  then show ?thesis
    unfolding tx_law_def
    by (simp add: demo_chip_def demo_rd_def demo_wr_def demo_reg_def tx_same_def tx_filled_def Let_def cong: if_cong)
qed

lemma ring_offset: "((r + j) mod 2048 + 2048 - r mod 2048) mod 2048 = j mod (2048::nat)"
proof -
  have "((r + j) mod 2048 + (2048 - r mod 2048)) mod 2048 = (r + j + (2048 - r mod 2048)) mod 2048" by (rule mod_add_left_eq)
  also have "\<dots> = (j + (r + (2048 - r mod 2048))) mod 2048" by (simp only: ac_simps)
  also have "\<dots> = (j + (r + (2048 - r mod 2048)) mod 2048) mod 2048" by (simp only: mod_add_right_eq)
  also have "\<dots> = j mod 2048" by (simp only: ring_wrap add_0_right)
  finally show ?thesis using mod_less_divisor [of 2048 r] by simp
qed

lemma demo_ring:
  assumes "j + n \<le> length (take 2048 q)"
  shows "take n (drop (((r + j) mod 2048 + 2048 - r mod 2048) mod 2048) (take 2048 q)) = take n (drop j (take 2048 q))"
proof (cases "n = 0")
  case False
  then have "j < 2048" using assms by simp
  then show ?thesis by (simp only: ring_offset mod_less)
qed simp

lemma toe_demo_rx_law: "rx_law demo_chip 0 toe_demo_rx"
proof -
  have more: "rx_more toe_demo_rx w w" for w by (rule rx_more_refl)
  have len: "unat (of_nat (min 2048 n) :: u16) \<le> n" for n by (simp add: unat_small)
  have q: "\<exists>m. take 2048 (drop k x) = drop k (take 2048 x) @ m" for k and x :: bytes
    by (rule exI [of _ "drop (2048 - k) (take 2048 (drop k x))"],
        use append_take_drop_id [of "2048 - k" "take 2048 (drop k x)"] in
        \<open>simp only: drop_take take_take min.absorb1 diff_le_self\<close>)
  have l: "\<exists>v. put_be16 (of_nat (min 2048 (length x))) = put_be16 v \<and> unat v \<le> length (take 2048 x)" for x :: bytes
    by (rule exI, rule conjI, rule refl) (simp add: unat_small min.commute)
  have m: "length (take 2048 x) \<le> 2048" for x :: bytes by simp
  show ?thesis
    unfolding rx_law_def
    using more l q m
    by (intro conjI allI impI; simp add: demo_chip_def demo_rd_def demo_wr_def demo_reg_def Let_def demo_ring del: length_take)
qed

definition toe_demo_sock :: w5500_sock where
  "toe_demo_sock = sock_zero\<lparr>sk_in_use := True, sk_type := SOCK_STREAM, sk_recv_to := -1, sk_send_to := -1, sk_has_fd := True\<rparr>"

definition toe_demo_world :: "bytes \<Rightarrow> demo_chip" where
  "toe_demo_world q = \<lparr>dc_mem = (\<lambda>_. 0), dc_wr = 2046, dc_sent = 2046, dc_wire = [], dc_rd = 2044, dc_read = 2044, dc_in = q, dc_sr = 0x17\<rparr>"

definition demo_toe :: "sock_kind \<Rightarrow> bytes \<Rightarrow> demo_chip toe" where
  "demo_toe kind q = \<lparr>tw = toe_demo_world q, socks = toe_demo_sock\<lparr>sk_type := kind\<rparr> # replicate 7 sock_zero, next_ephemeral = 49152,
     toe_link_up = True, toe_carrier = True, poll_armed = True, worker_on = True, irq_pending = False, irq_mode = False,
     toe_mac = [], hw_broken = 0, hw_fail = replicate 8 0, toe_fds = []\<rparr>"

section \<open>Sending\<close>

lemma sock_hold_keeps [simp]:
  "tw (snd (sock_hold i t)) = tw t" "sk_hw (sk (snd (sock_hold i t)) j) = sk_hw (sk t j)"
  "sk_type (sk (snd (sock_hold i t)) j) = sk_type (sk t j)" "sk_shut_wr (sk (snd (sock_hold i t)) j) = sk_shut_wr (sk t j)"
  "sk_shut_rd (sk (snd (sock_hold i t)) j) = sk_shut_rd (sk t j)"
  by (simp_all add: sock_hold_def sk_upd_keeps)

lemma finish_some: "finish i r = Some (v, t') \<longleftrightarrow> (\<exists>t. r = Some (v, t) \<and> t' = sock_release i t)"
  by (auto simp: finish_def)

text \<open>
  C34. Sending over a stream socket of the W5500 accounts exactly for what goes out, as long as the bus
  transfers succeed and the chip accepts its commands: whatever the chip says of its free space, wherever the
  ring wraps and however the chunks are cut, the bytes sent to the peer are the first ones of the caller's
  buffer, as many as the result says, none of them twice or changed; on an error none at all.  Other threads may
  do anything in the waits, closing the socket included, except send on the same socket or shut it down: a
  shutdown makes the driver go on with another hardware socket, as the lemma on shutdown shows.
\<close>
theorem toe_send_exact:
  assumes law: "tx_law E (nat hw) Q" and hw: "0 \<le> hw" "hw < 8" "sk_hw (sk t i) = hw" "sk_type (sk t i) = SOCK_STREAM"
    and ptr: "txp Q (tw t) = txr Q (tw t)" and others: "list_all (sends_kept Q i) ws"
    and call: "w5500_sendto E i buf dontwait dest ws t = Some (r, t')"
  shows "outb Q (tw t') = outb Q (tw t) @ take (case r of Inr n \<Rightarrow> n | Inl e \<Rightarrow> 0) buf
    \<and> (case r of Inr n \<Rightarrow> n \<le> length buf | Inl e \<Rightarrow> True)"
proof (cases "buf = [] \<or> \<not> fst (sock_hold i t) \<or> sk_shut_wr (sk t i)")
  case True
  then show ?thesis using call by (auto simp: w5500_sendto_def case_prod_beta finish_def Let_def split: if_splits)
next
  case False
  define th where "th = snd (sock_hold i t)"
  have ready: "tx_ready Q i hw th" "outb Q (tw th) = outb Q (tw t)" using hw ptr by (simp_all add: tx_ready_def th_def)
  have run: "w5500_sendto E i buf dontwait dest ws t =
      finish i (send_loop E i None (sk_nonblock (sk t i) \<or> dontwait) (deadline_from E (sk_send_to (sk th i)) th) 0 buf ws th)"
    using False hw by (simp add: w5500_sendto_def case_prod_beta Let_def th_def [symmetric] send_peer_def lazy_udp_def)
      (simp add: th_def)
  then obtain t2 where t2: "send_loop E i None (sk_nonblock (sk t i) \<or> dontwait) (deadline_from E (sk_send_to (sk th i)) th) 0 buf ws th
      = Some (r, t2)" "t' = sock_release i t2"
    using call unfolding run finish_some by blast
  have "sent_post Q 0 buf (outb Q (tw t)) (Some (r, t2))"
    using send_loop_ok [OF law hw(1,2) others ready, of 0 buf] t2(1) by metis
  then show ?thesis by (cases r) (simp_all add: sent_post_def t2(2))
qed


lemma demo_sends: "map_option fst (w5500_sendto demo_chip 0 [1, 2, 3, 4, 5] True No_dest [] (demo_toe SOCK_STREAM [])) = Some (Inr 5)"
  by code_simp

theorem toe_send_exact_witness:
  "\<exists>t'. w5500_sendto demo_chip 0 [1, 2, 3, 4, 5] True No_dest [] (demo_toe SOCK_STREAM []) = Some (Inr 5, t')
     \<and> outb toe_demo_tx (tw t') = [1, 2, 3, 4, 5]"
proof -
  obtain t' where c: "w5500_sendto demo_chip 0 [1, 2, 3, 4, 5] True No_dest [] (demo_toe SOCK_STREAM []) = Some (Inr 5, t')"
    using demo_sends by auto
  have law: "tx_law demo_chip (nat 0) toe_demo_tx" by (simp add: toe_demo_tx_law)
  have "outb toe_demo_tx (tw t') = outb toe_demo_tx (tw (demo_toe SOCK_STREAM [])) @ take 5 [1, 2, 3, 4, 5]"
    using toe_send_exact [OF law _ _ _ _ _ _ c] by (simp add: demo_toe_def toe_demo_sock_def toe_demo_world_def sock_zero_def)
  then show ?thesis using c by (simp add: demo_toe_def toe_demo_world_def)
qed

section \<open>Receiving\<close>

lemma recvfrom_run:
  assumes call: "w5500_recvfrom E i max_len dontwait want ws t = Some (r, t')"
    and n: "max_len \<noteq> 0" "fst (sock_hold i t)" "sk_hw (sk t i) \<ge> 0" "\<not> sk_shut_rd (sk t i)"
  obtains nb dl t2 where "recv_loop E i max_len want nb dl ws (snd (sock_hold i t)) = Some (r, t2)" "t' = sock_release i t2"
proof -
  define th where "th = snd (sock_hold i t)"
  have h: "sk_hw (sk th i) \<ge> 0" "\<not> sk_shut_rd (sk th i)" using n by (simp_all add: th_def)
  have run: "w5500_recvfrom E i max_len dontwait want ws t =
      finish i (recv_loop E i max_len want (sk_nonblock (sk t i) \<or> dontwait) (deadline_from E (sk_recv_to (sk th i)) th) ws th)"
    using n h by (simp add: w5500_recvfrom_def case_prod_beta Let_def th_def [symmetric])
  show ?thesis using call that unfolding run finish_some th_def by blast
qed

text \<open>
  C35. Receiving from a stream socket of the W5500 loses, repeats and reorders nothing, as long as the bus
  transfers succeed: what a call returns, followed by what then waits in the ring, is what waited before,
  followed by what has arrived meanwhile; at most as much as was asked for is returned, and the pointers are
  together for the next call.  On an error nothing is taken, except that after EBADF, when the socket has been
  closed, nothing is said of its ring.  Other threads may do anything in the waits, closing the socket
  included, except receive from the same socket or shut it down: a shutdown makes the driver go on with
  another hardware socket, as the lemma on shutdown shows.
\<close>
theorem toe_recv_exact:
  assumes law: "rx_law E (nat hw) R" and hw: "0 \<le> hw" "hw < 8" "sk_hw (sk t i) = hw" "sk_type (sk t i) = SOCK_STREAM"
    and ptr: "rxp R (tw t) = rxc R (tw t)" and others: "list_all (recvs_kept R i) ws"
    and call: "w5500_recvfrom E i max_len dontwait want ws t = Some (r, t')"
  shows "case r of Inr (d, p) \<Rightarrow> length d \<le> max_len \<and> rxp R (tw t') = rxc R (tw t')
        \<and> (\<exists>more. d @ rxq R (tw t') = rxq R (tw t) @ more)
        \<and> (d = [] \<and> max_len \<noteq> 0 \<and> \<not> sk_shut_rd (sk t i) \<longrightarrow> (\<exists>w. fst (sock_sr E hw w) = SR_CLOSE_WAIT))
      | Inl e \<Rightarrow> e = E_BADF \<or> rxp R (tw t') = rxc R (tw t') \<and> (\<exists>more. rxq R (tw t') = rxq R (tw t) @ more)"
proof (cases "max_len = 0 \<or> \<not> fst (sock_hold i t) \<or> sk_shut_rd (sk t i)")
  case True
  then show ?thesis using call ptr hw by (auto simp: w5500_recvfrom_def case_prod_beta finish_def Let_def split: if_splits)
next
  case False
  define th where "th = snd (sock_hold i t)"
  have hw0: "sk_hw (sk t i) \<ge> 0" using hw(1,3) by simp
  have ready: "rx_ready R i hw SOCK_STREAM th" using hw ptr by (simp add: rx_ready_def th_def)
  obtain nb dl t2 where t2: "recv_loop E i max_len want nb dl ws th = Some (r, t2)" "t' = sock_release i t2"
    using recvfrom_run [OF call _ _ hw0] False unfolding th_def by metis
  have post: "recv_post E R i hw SOCK_STREAM max_len want (tw t) (Some (r, t2))"
    using recv_loop_ok [OF law hw(1,2) others ready, of max_len want nb dl] t2(1) by (simp add: th_def)
  show ?thesis
  proof (cases r)
    case (Inl e)
    then show ?thesis using post by (auto simp: recv_post_def rx_taken_def t2(2))
  next
    case (Inr x)
    show ?thesis
    proof (cases "got_read E R i hw SOCK_STREAM max_len want (tw t) x t2")
      case False
      then show ?thesis using post Inr by (auto simp: recv_post_def rx_taken_def t2(2))
    next
      case True
      obtain t1 rsr where t1: "rx_ready R i hw SOCK_STREAM t1" "rx_more R (tw t) (tw t1)" "unat rsr \<le> length (rxq R (tw t1))" "0 < rsr"
        "(x, t2) = recv_stream E i max_len rsr want t1"
        using True unfolding got_read_def by auto
      note s = recv_stream_ok [OF law hw(1,2) _ _ t1(3) refl t1(5)]
      have k: "sk_hw (sk t1 i) = hw" "rxp R (tw t1) = rxc R (tw t1)" using t1(1) by (simp_all add: rx_ready_def)
      obtain m where m: "rxq R (tw t1) = rxq R (tw t) @ m" using t1(2) by (auto simp: rx_more_def)
      obtain m2 where m2: "rxq R (tw t2) = drop (min max_len (unat rsr)) (rxq R (tw t1)) @ m2" "rxp R (tw t2) = rxc R (tw t2)"
        using s(2) [OF k] by (auto simp: rx_taken_def)
      have d: "fst x = take (min max_len (unat rsr)) (rxq R (tw t1))" using s(1) [OF k] by simp
      have "fst x @ rxq R (tw t2) = rxq R (tw t) @ (m @ m2)"
        unfolding d m2(1) using m by (metis append_assoc append_take_drop_id)
      moreover have "0 < unat rsr" using t1(4) by (simp add: word_less_nat_alt)
      then have "fst x \<noteq> []" using d t1(3) \<open>\<not> (max_len = 0 \<or> \<not> fst (sock_hold i t) \<or> sk_shut_rd (sk t i))\<close> by auto
      ultimately show ?thesis using d m2(2) Inr by (cases x) (auto simp: t2(2))
    qed
  qed
qed

lemma demo_recvs: "map_option fst (w5500_recvfrom demo_chip 0 6 True False [] (demo_toe SOCK_STREAM [1, 2, 3, 4, 5, 6, 7, 8]))
    = Some (Inr ([1, 2, 3, 4, 5, 6], None))"
  by code_simp

theorem toe_recv_exact_witness:
  "\<exists>t' more. w5500_recvfrom demo_chip 0 6 True False [] (demo_toe SOCK_STREAM [1, 2, 3, 4, 5, 6, 7, 8])
       = Some (Inr ([1, 2, 3, 4, 5, 6], None), t')
     \<and> [1, 2, 3, 4, 5, 6] @ rxq toe_demo_rx (tw t') = [1, 2, 3, 4, 5, 6, 7, 8] @ more"
proof -
  obtain t' where c: "w5500_recvfrom demo_chip 0 6 True False [] (demo_toe SOCK_STREAM [1, 2, 3, 4, 5, 6, 7, 8])
      = Some (Inr ([1, 2, 3, 4, 5, 6], None), t')"
    using demo_recvs by auto
  have law: "rx_law demo_chip (nat 0) toe_demo_rx" by (simp add: toe_demo_rx_law)
  have "\<exists>more. [1, 2, 3, 4, 5, 6] @ rxq toe_demo_rx (tw t') = rxq toe_demo_rx (tw (demo_toe SOCK_STREAM [1, 2, 3, 4, 5, 6, 7, 8])) @ more"
    using toe_recv_exact [OF law _ _ _ _ _ _ c] by (simp add: demo_toe_def toe_demo_sock_def toe_demo_world_def sock_zero_def)
  then show ?thesis using c by (auto simp: demo_toe_def toe_demo_world_def)
qed

text \<open>
  A datagram is received whole and once: with one at the front of the ring, a call that returns data returns its
  bytes, cut to the size asked for, with its sender's address and port, and the ring goes on behind it - the rest of
  a datagram that was too long is never taken for the next one.
\<close>
theorem toe_datagram_whole:
  assumes law: "rx_law E (nat hw) R" and hw: "0 \<le> hw" "hw < 8" "sk_hw (sk t i) = hw" "sk_type (sk t i) = SOCK_DGRAM"
    and ptr: "rxp R (tw t) = rxc R (tw t)" and q: "rxq R (tw t) = dgram_frame ip port d @ rest" "length ip = 4"
    and others: "list_all (recvs_kept R i) ws" and n: "max_len \<noteq> 0" "\<not> sk_shut_rd (sk t i)"
    and call: "w5500_recvfrom E i max_len dontwait want ws t = Some (Inr (data, sender), t')"
  shows "data = take max_len d \<and> sender = (if want then Some (ip, port) else None)
    \<and> rxp R (tw t') = rxc R (tw t') \<and> (\<exists>more. rxq R (tw t') = rest @ more)"
proof -
  define th where "th = snd (sock_hold i t)"
  have hw0: "sk_hw (sk t i) \<ge> 0" using hw(1,3) by simp
  have held: "fst (sock_hold i t)"
    using call n(1) by (auto simp: w5500_recvfrom_def case_prod_beta finish_def Let_def split: if_splits)
  have ready: "rx_ready R i hw SOCK_DGRAM th" using hw ptr by (simp add: rx_ready_def th_def)
  obtain nb dl t2 where t2: "recv_loop E i max_len want nb dl ws th = Some (Inr (data, sender), t2)" "t' = sock_release i t2"
    using recvfrom_run [OF call n(1) held hw0 n(2)] unfolding th_def by metis
  have "recv_post E R i hw SOCK_DGRAM max_len want (tw t) (Some (Inr (data, sender), t2))"
    using recv_loop_ok [OF law hw(1,2) others ready, of max_len want nb dl] t2(1) by (simp add: th_def)
  then obtain t1 where t1: "rx_ready R i hw SOCK_DGRAM t1" "rx_more R (tw t) (tw t1)" "t2 = snd (recv_dgram E i max_len t1)"
    "(data, sender) = (let (d, p) = fst (recv_dgram E i max_len t1) in (d, if want then Some p else None))"
    unfolding recv_post_def got_read_def by auto
  obtain m where m: "rxq R (tw t1) = dgram_frame ip port d @ (rest @ m)" using t1(2) q(1) by (auto simp: rx_more_def)
  have k: "sk_hw (sk t1 i) = hw" "rxp R (tw t1) = rxc R (tw t1)" using t1(1) by (simp_all add: rx_ready_def)
  note s = recv_dgram_ok [OF law hw(1,2) k m q(2) refl]
  have len: "length (dgram_frame ip port d) = 8 + length d" using q(2) by (simp add: dgram_frame_def)
  have "drop (8 + length d) (rxq R (tw t1)) = rest @ m" by (simp add: m len)
  then show ?thesis using s(1) [of max_len] s(2) [of max_len] t1(3,4) by (auto simp: rx_taken_def t2(2))
qed

definition toe_demo_in :: bytes where "toe_demo_in = dgram_frame [10, 0, 0, 7] 80 [1, 2, 3] @ [10, 0, 0, 8]"

lemma demo_waiting: "0 < fst (sock_rsr demo_chip 0 (toe_demo_world toe_demo_in))"
  by code_simp

lemma demo_dgram: "\<exists>x t'. w5500_recvfrom demo_chip 0 2 True True [] (demo_toe SOCK_DGRAM toe_demo_in) = Some (Inr x, t')"
proof -
  let ?t = "snd (sock_hold 0 (demo_toe SOCK_DGRAM toe_demo_in))"
  have h: "fst (sock_hold 0 (demo_toe SOCK_DGRAM toe_demo_in))" "sk_hw (sk ?t 0) = 0" "sk_type (sk ?t 0) = SOCK_DGRAM" "\<not> sk_zombie (sk ?t 0)"
    "\<not> sk_shut_rd (sk ?t 0)" "tw ?t = toe_demo_world toe_demo_in"
    by (simp_all add: sock_hold_def sk_upd_def demo_toe_def toe_demo_sock_def sock_zero_def)
  have "\<exists>x t'. recv_loop demo_chip 0 2 True True dl [] ?t = Some (Inr x, t')" for dl
    using h demo_waiting by (subst recv_loop.simps) (simp add: case_prod_beta Let_def)
  then show ?thesis using h by (simp add: w5500_recvfrom_def case_prod_beta finish_def Let_def)
qed

theorem toe_datagram_whole_witness:
  "\<exists>t' more. w5500_recvfrom demo_chip 0 2 True True [] (demo_toe SOCK_DGRAM toe_demo_in) = Some (Inr ([1, 2], Some ([10, 0, 0, 7], 80)), t')
     \<and> rxq toe_demo_rx (tw t') = [10, 0, 0, 8] @ more"
proof -
  obtain d p t' where c: "w5500_recvfrom demo_chip 0 2 True True [] (demo_toe SOCK_DGRAM toe_demo_in) = Some (Inr (d, p), t')"
    using demo_dgram by auto
  have law: "rx_law demo_chip (nat 0) toe_demo_rx" by (simp add: toe_demo_rx_law)
  have q: "rxq toe_demo_rx (tw (demo_toe SOCK_DGRAM toe_demo_in)) = dgram_frame [10, 0, 0, 7] 80 [1, 2, 3] @ [10, 0, 0, 8]"
    by (simp add: demo_toe_def toe_demo_world_def dgram_frame_def toe_demo_in_def)
  have "d = [1, 2] \<and> p = Some ([10, 0, 0, 7], 80) \<and> (\<exists>more. rxq toe_demo_rx (tw t') = [10, 0, 0, 8] @ more)"
    using toe_datagram_whole [OF law _ _ _ _ _ q _ _ _ _ c]
    by (simp add: demo_toe_def toe_demo_sock_def toe_demo_world_def sock_zero_def)
  then show ?thesis using c by auto
qed

section \<open>The table of sockets\<close>

text \<open>
  C36. The socket table stays well formed: after the start of the driver and any sequence of socket calls and worker
  runs, in any order and with anything the other threads do in the waits that keeps the table well formed, whatever
  the chip answers and on every error path, each number the driver uses as an index is in range - hardware sockets
  are -1 to 7, a listener holds at most two of them and all are real, and the pending ring holds at most eight
  entries of the table.
\<close>
theorem toe_table_invariant:
  assumes "socks t = replicate 8 sock_zero" "length (hw_fail t) = 8" "list_all call_ok calls"
    and "toe_run E calls (snd (w5500_toe_init E C t)) = Some t'"
  shows "length (socks t') = 8 \<and> length (hw_fail t') = 8
    \<and> list_all (\<lambda>s. -1 \<le> sk_hw s \<and> sk_hw s < 8 \<and> length (sk_lsn s) \<le> 2 \<and> list_all (\<lambda>h. 0 \<le> h \<and> h < 8) (sk_lsn s)
        \<and> length (sk_pend s) \<le> 8 \<and> list_all (\<lambda>c. c < 8) (sk_pend s)) (socks t')"
proof -
  have "toe_inv t'" by (rule toe_run_inv [OF init_inv [OF assms(1,2)] assms(3,4)])
  then show ?thesis
    by (simp add: toe_inv_def sock_ok_def [abs_def] W5500_NUM_SOCKETS_def W5500_LISTEN_KEEP_def)
qed

definition toe_demo_calls :: "u8 list toe_call list" where
  "toe_demo_calls = [T_socket True SOCK_STREAM IPPROTO_TCP, T_bind 0 (Some ([0, 0, 0, 0], 80)), T_listen 0, T_worker, T_accept 0 True [w5500_close sr_chip 0]]"

definition toe_demo_cfg :: toe_cfg where
  "toe_demo_cfg = \<lparr>cfg_spi_ready = True, cfg_reset_rc = None, cfg_mac = None, cfg_rand3 = [1, 2, 3], cfg_local_ip = Some (Some [192, 168, 1, 2]),
     cfg_netmask = None, cfg_gateway = None, cfg_irq_ready = False, cfg_irq_rc = 0\<rparr>"

definition toe_demo_start :: "u8 list toe" where
  "toe_demo_start = listener_toe\<lparr>socks := replicate 8 sock_zero, tw := replicate 8 0\<rparr>"

lemma toe_demo_calls_ok: "list_all call_ok toe_demo_calls"
  by (simp add: toe_demo_calls_def W5500_NUM_SOCKETS_def keeps_inv_def close_inv)

declare listener_scan.simps [code]

lemma demo_runs: "map_option (\<lambda>t. map sk_hw (socks t)) (toe_run sr_chip toe_demo_calls (snd (w5500_toe_init sr_chip toe_demo_cfg toe_demo_start)))
    = Some (replicate 8 (-1))"
  by code_simp

theorem toe_table_invariant_witness:
  "\<exists>t'. toe_run sr_chip toe_demo_calls (snd (w5500_toe_init sr_chip toe_demo_cfg toe_demo_start)) = Some t' \<and> length (socks t') = 8"
proof -
  obtain t' where r: "toe_run sr_chip toe_demo_calls (snd (w5500_toe_init sr_chip toe_demo_cfg toe_demo_start)) = Some t'"
    using demo_runs by auto
  have "length (socks t') = 8"
    using toe_table_invariant [OF _ _ toe_demo_calls_ok r] by (simp add: toe_demo_start_def listener_toe_def)
  then show ?thesis using r by blast
qed

text \<open>
  C37. The readiness worker does not end while all eight entries of the table are in use and the first hardware
  socket of a listener's pool has completed a handshake: as there is no entry for the new connection, the pass looks
  at the same socket again for ever - in the polling worker and in the interrupt worker, holding the driver's lock -
  for as long as the peer keeps its connection open.
\<close>
theorem toe_full_table_hangs_worker:
  assumes "list_all sk_in_use (socks t)" "length (socks t) = 8" "li < 8" "sk_listening (sk t li)" "sk_lsn (sk t li) = hw # hws"
    and "\<And>w. fst (sock_sr E hw w) = SR_ESTABLISHED"
  shows "w5500_service E t = None \<and> w5500_toe_poll_fn E t = None \<and> w5500_toe_irq_fn E pin t = None"
proof -
  have "w5500_service E t0 = None" if "socks t0 = socks t" for t0
  proof -
    have "\<And>i. i < 8 \<Longrightarrow> sk_in_use (sk t i)" using assms(1,2) by (simp add: list_all_length)
    then have "stuck E li 0 (service_link E t0)" "sk_in_use (sk (service_link E t0) li)" "sk_listening (sk (service_link E t0) li)"
      using assms that by (simp_all add: stuck_def table_full_def W5500_NUM_SOCKETS_def service_link_def case_prod_beta Let_def)
    then show ?thesis
      using assms(3) unfolding w5500_service_def by (intro service_full_never_ends) (simp_all add: W5500_NUM_SOCKETS_def)
  qed
  then show ?thesis by (simp add: w5500_toe_poll_fn_def w5500_toe_irq_fn_def case_prod_beta Let_def)
qed

definition busy_chip :: "u8 list toe_env" where
  "busy_chip = sr_chip\<lparr>spi_rd := (\<lambda>c n w. ((0, [0x17]), w))\<rparr>"

definition busy_toe :: "u8 list toe" where
  "busy_toe = listener_toe\<lparr>socks := map (\<lambda>s. s\<lparr>sk_in_use := True\<rparr>) (socks listener_toe)\<rparr>"

theorem toe_full_table_hangs_worker_witness: "w5500_service busy_chip busy_toe = None"
proof -
  have e: "fst (sock_sr busy_chip hw w) = SR_ESTABLISHED" for hw w
    by (simp add: sock_sr_def w5500_rd8_def w5500_read_def busy_chip_def sr_defs)
  have b: "list_all sk_in_use (socks busy_toe)" "length (socks busy_toe) = 8" "sk_listening (sk busy_toe 0)" "sk_lsn (sk busy_toe 0) = [0, 1]"
    by (simp_all add: busy_toe_def listener_toe_def list_all_iff)
  show ?thesis using toe_full_table_hangs_worker [OF b(1,2) _ b(3,4) e, where pin = False] by simp
qed

end
