(* ===== verification/ApolloFont.thy ===== *)
theory ApolloFont imports ZephyrApi begin

text \<open>
  The Chinese font of \<open>apollo-v2\<close> in its flash partition (\<open>font_qspi.c\<close>): the check of the header, the
  search for a glyph that the graphics library asks for, and the installation from a file.  The flash
  partition and the file system are parameters; the file-scope variables are the record \<open>font_st\<close>.
\<close>

section \<open>The services\<close>

record 'f font_flash =
  fp_open :: "'f \<Rightarrow> int"
  fp_read :: "u32 \<Rightarrow> nat \<Rightarrow> 'f \<Rightarrow> int \<times> bytes"
  fp_erase :: "u32 \<Rightarrow> nat \<Rightarrow> 'f \<Rightarrow> int \<times> 'f"
  fp_write :: "u32 \<Rightarrow> bytes \<Rightarrow> 'f \<Rightarrow> int \<times> 'f"

text \<open>One file is open at a time; a read gives its return value and the bytes it left in the buffer.\<close>

record 'w font_file =
  fnt_open :: "string \<Rightarrow> 'w \<Rightarrow> int \<times> 'w"
  fnt_read :: "nat \<Rightarrow> 'w \<Rightarrow> (int \<times> bytes) \<times> 'w"
  fnt_close :: "'w \<Rightarrow> 'w"

section \<open>The header\<close>

definition FONT_SIZE :: u32 where "FONT_SIZE = 0x400000"
definition AF16_MAGIC :: u32 where "AF16_MAGIC = 0x36314641"
definition GLYPH_BMP_SIZE :: nat where "GLYPH_BMP_SIZE = 128"
definition FONT_LINE_H :: int where "FONT_LINE_H = 16"
definition FONT_BASELINE :: int where "FONT_BASELINE = 3"

definition af16_bad :: "u32 \<Rightarrow> u32 \<Rightarrow> u32 \<Rightarrow> u32 \<Rightarrow> bool" where
  "af16_bad magic count index_off bitmap \<longleftrightarrow>
     magic \<noteq> AF16_MAGIC \<or> count = 0 \<or> count > 6000 \<or> index_off \<noteq> 16 \<or> bitmap \<noteq> 16 + count * 8"

record font_st =
  font_ok :: bool
  font_fa :: bool
  idx_count :: u32
  bitmap_off :: u32
  glyph_bitmap_buf :: bytes

definition font_init :: font_st where
  "font_init = \<lparr>font_ok = False, font_fa = False, idx_count = 0, bitmap_off = 0,
     glyph_bitmap_buf = replicate GLYPH_BMP_SIZE 0\<rparr>"

definition font_load :: "'f font_flash \<Rightarrow> 'f \<Rightarrow> font_st \<Rightarrow> bool \<times> font_st" where
  "font_load F f s =
     (if font_ok s then (True, s)
      else if fp_open F f \<noteq> 0 then (False, s)
      else let (rc, hdr) = fp_read F 0 16 f in
        if rc \<noteq> 0 then (False, s\<lparr>font_fa := False\<rparr>)
        else
          let s = s\<lparr>idx_count := get_le32 (drop 4 hdr), bitmap_off := get_le32 (drop 12 hdr)\<rparr> in
          if af16_bad (get_le32 hdr) (idx_count s) (get_le32 (drop 8 hdr)) (bitmap_off s)
          then (False, s\<lparr>font_fa := False\<rparr>)
          else (True, s\<lparr>font_ok := True, font_fa := True\<rparr>))"

definition apollo_font_qspi_ready :: "'f font_flash \<Rightarrow> 'f \<Rightarrow> font_st \<Rightarrow> bool \<times> font_st" where
  "apollo_font_qspi_ready F f s = font_load F f s"

text \<open>\<open>apollo_font_ui\<close>: whether it is the font in flash, else no font.\<close>

definition apollo_font_ui :: "font_st \<Rightarrow> bool" where
  "apollo_font_ui s = font_ok s"

section \<open>Glyphs\<close>

text \<open>What the graphics library gets to know of a glyph; \<open>gid_src\<close> says that its bitmap is the static buffer.\<close>

record glyph_dsc =
  adv_w :: nat
  box_w :: nat
  box_h :: nat
  ofs_x :: int
  ofs_y :: int
  glyph_stride :: nat
  glyph_a4 :: bool
  is_placeholder :: bool
  gid_src :: bool

text \<open>
  The binary search; its bounds are 32-bit and their sum wraps, so it is a loop that may not end.
  \<open>Some None\<close> is the end without a match or with a read error.
\<close>

partial_function (option) glyph_search :: "'f font_flash \<Rightarrow> 'f \<Rightarrow> u32 \<Rightarrow> u32 \<Rightarrow> u32 \<Rightarrow> u32 option option" where
  "glyph_search F f letter lo hi =
     (if lo < hi
      then let mid = (lo + hi) div 2; (rc, item) = fp_read F (16 + mid * 8) 8 f in
        if rc \<noteq> 0 then Some None
        else let key = get_le32 item in
          if key < letter then glyph_search F f letter (mid + 1) hi
          else if key > letter then glyph_search F f letter lo mid
          else Some (Some (get_le32 (drop 4 item)))
      else Some None)"

definition glyph_metrics :: "glyph_dsc \<Rightarrow> glyph_dsc" where
  "glyph_metrics d = d\<lparr>adv_w := 16, box_w := 16, box_h := 16, ofs_x := 0, ofs_y := - (FONT_LINE_H - FONT_BASELINE),
     glyph_stride := 8, glyph_a4 := True, is_placeholder := False\<rparr>"

definition qspi_font_get_glyph_dsc ::
  "'f font_flash \<Rightarrow> 'f \<Rightarrow> glyph_dsc \<Rightarrow> u32 \<Rightarrow> font_st \<Rightarrow> (bool \<times> glyph_dsc \<times> font_st) option" where
  "qspi_font_get_glyph_dsc F f d letter s =
     (let (ok, s) = font_load F f s in
      if \<not> ok then Some (False, d, s)
      else case glyph_search F f letter 0 (idx_count s) of
          None \<Rightarrow> None
        | Some None \<Rightarrow> Some (False, d, s)
        | Some (Some bmp_rel) \<Rightarrow>
            let d = glyph_metrics d; (rc, bmp) = fp_read F (bitmap_off s + bmp_rel) GLYPH_BMP_SIZE f in
            Some (if rc \<noteq> 0 then (False, d, s) else (True, d\<lparr>gid_src := True\<rparr>, s\<lparr>glyph_bitmap_buf := bmp\<rparr>)))"

definition qspi_font_get_glyph_bitmap :: "glyph_dsc \<Rightarrow> font_st \<Rightarrow> bytes option" where
  "qspi_font_get_glyph_bitmap d s = (if gid_src d then Some (glyph_bitmap_buf s) else None)"

section \<open>Installation\<close>

definition font_bin_qspi :: string where "font_bin_qspi = ''/QSPI:/font.bin''"
definition font_bin_sd :: string where "font_bin_sd = ''/SD:/font.bin''"

text \<open>The erase loop of \<open>n\<close> sectors from \<open>eo\<close> on.\<close>

fun font_erase_loop :: "'f font_flash \<Rightarrow> nat \<Rightarrow> u32 \<Rightarrow> 'f \<Rightarrow> bool \<times> 'f" where
  "font_erase_loop F 0 eo f = (True, f)"
| "font_erase_loop F (Suc n) eo f =
     (let (rc, f) = fp_erase F eo 4096 f in if rc \<noteq> 0 then (False, f) else font_erase_loop F n (eo + 4096) f)"

text \<open>
  The copy loop: the result says whether every write succeeded, and the offset reached.  A file system
  that returns more than it was asked for could make it run for ever.
\<close>

partial_function (option) font_copy_loop ::
  "'f font_flash \<Rightarrow> 'w font_file \<Rightarrow> u32 \<Rightarrow> u32 \<Rightarrow> 'f \<Rightarrow> 'w \<Rightarrow> (bool \<times> u32 \<times> 'f \<times> 'w) option" where
  "font_copy_loop F FS tot off f w =
     (if off < tot
      then let ((n, buf), w) = fnt_read FS (min 4096 (unat (tot - off))) w in
        if n \<le> 0 then Some (True, off, f, w)
        else let (rc, f) = fp_write F off buf f in
          if rc \<noteq> 0 then Some (False, off, f, w)
          else font_copy_loop F FS tot (off + of_int n) f w
      else Some (True, off, f, w))"

definition font_open_file :: "'w font_file \<Rightarrow> 'w \<Rightarrow> int \<times> 'w" where
  "font_open_file FS w =
     (let (rc, w) = fnt_open FS font_bin_qspi w in if rc \<noteq> 0 then fnt_open FS font_bin_sd w else (rc, w))"

definition apollo_font_install ::
  "'f font_flash \<Rightarrow> 'w font_file \<Rightarrow> 'f \<Rightarrow> 'w \<Rightarrow> (int \<times> 'f \<times> 'w) option" where
  "apollo_font_install F FS f w =
     (let (rc, w) = font_open_file FS w in
      if rc \<noteq> 0 then Some (rc, f, w)
      else let ((n, hdr), w) = fnt_read FS 16 w in
        if n \<noteq> 16 then Some (- EIO, f, fnt_close FS w)
        else
          let count = get_le32 (drop 4 hdr); bitmap = get_le32 (drop 12 hdr) in
          if af16_bad (get_le32 hdr) count (get_le32 (drop 8 hdr)) bitmap then Some (- EINVAL, f, fnt_close FS w)
          else let tot = bitmap + count * of_nat GLYPH_BMP_SIZE in
            if tot > FONT_SIZE then Some (- EINVAL, f, fnt_close FS w)
            else let rc = fp_open F f in
              if rc \<noteq> 0 then Some (rc, f, fnt_close FS w)
              else let (erased, f) = font_erase_loop F (unat (round_up32 tot 4096) div 4096) 0 f in
                if \<not> erased then Some (- EIO, f, fnt_close FS w)
                else case font_copy_loop F FS tot 0 f w of
                    None \<Rightarrow> None
                  | Some (written, off, f, w) \<Rightarrow>
                      Some (if \<not> written \<or> off \<noteq> tot then - EIO else 0, f, fnt_close FS w))"

end
