(* ===== verification/ApolloFontTheorems.thy ===== *)
theory ApolloFontTheorems imports ApolloFont begin

text \<open>
  The font of \<open>apollo-v2\<close>: the format of a font file, the laws of flash and file system, that the search finds
  exactly the glyphs of the table, what the installation puts into the partition, and the properties.
\<close>

section \<open>The file format\<close>

type_synonym glyph_table = "(u32 \<times> u32) list"

definition af16_index :: "glyph_table \<Rightarrow> bytes" where
  "af16_index tbl = concat (map (\<lambda>(c, r). put_le32 c @ put_le32 r) tbl)"

definition af16_header :: "glyph_table \<Rightarrow> bytes" where
  "af16_header tbl = put_le32 AF16_MAGIC @ put_le32 (of_nat (length tbl)) @ put_le32 16 @ put_le32 (16 + of_nat (length tbl) * 8)"

definition af16_file :: "glyph_table \<Rightarrow> bytes \<Rightarrow> bytes" where
  "af16_file tbl bm = af16_header tbl @ af16_index tbl @ bm"

text \<open>One bitmap per code, every offset of the table inside the bitmaps, codes ascending.\<close>

definition af16_wf :: "glyph_table \<Rightarrow> bytes \<Rightarrow> bool" where
  "af16_wf tbl bm \<longleftrightarrow> 0 < length tbl \<and> length tbl \<le> 6000 \<and> length bm = length tbl * GLYPH_BMP_SIZE \<and>
     sorted_wrt (<) (map fst tbl) \<and> (\<forall>(c, r) \<in> set tbl. unat r + GLYPH_BMP_SIZE \<le> length bm)"

lemma length_af16_header [simp]: "length (af16_header tbl) = 16"
  by (simp add: af16_header_def)

lemma length_af16_index [simp]: "length (af16_index tbl) = 8 * length tbl"
  by (induction tbl) (auto simp: af16_index_def)

lemma length_af16_file: "af16_wf tbl bm \<Longrightarrow> length (af16_file tbl bm) = 16 + 136 * length tbl"
  by (simp add: af16_file_def af16_wf_def GLYPH_BMP_SIZE_def)

lemma drop_put_le32 [simp]: "drop 4 (put_le32 v @ r) = r" "drop 8 (put_le32 v @ r) = drop 4 r" "drop 12 (put_le32 v @ r) = drop 8 r"
  by (simp_all add: put_le32_def)

lemma af16_header_fields:
  "get_le32 (af16_header tbl) = AF16_MAGIC" "get_le32 (drop 4 (af16_header tbl)) = of_nat (length tbl)"
  "get_le32 (drop 8 (af16_header tbl)) = 16" "get_le32 (drop 12 (af16_header tbl)) = 16 + of_nat (length tbl) * 8"
  by (simp_all add: af16_header_def)

lemma af16_index_entry:
  "i < length tbl \<Longrightarrow> take 8 (drop (8 * i) (af16_index tbl @ r)) = put_le32 (fst (tbl ! i)) @ put_le32 (snd (tbl ! i))"
proof (induction tbl arbitrary: i)
  case (Cons e tbl)
  obtain c v where e: "e = (c, v)" by (cases e)
  have ix: "af16_index (e # tbl) = (put_le32 c @ put_le32 v) @ af16_index tbl" by (simp add: af16_index_def e)
  show ?case
  proof (cases i)
    case 0 then show ?thesis unfolding ix by (simp add: e)
  next
    case (Suc j)
    then show ?thesis using Cons by (simp add: ix)
  qed
qed simp

section \<open>The laws\<close>

text \<open>
  The partition holds \<open>FONT_SIZE\<close> bytes: reads inside it return them, erasing whole sectors fills them with
  ones, and writing to erased bytes stores what is written.
\<close>

definition font_flash_laws :: "'f font_flash \<Rightarrow> ('f \<Rightarrow> bytes) \<Rightarrow> bool" where
  "font_flash_laws F fb \<longleftrightarrow>
     (\<forall>f. fp_open F f = 0 \<and> length (fb f) = unat FONT_SIZE) \<and>
     (\<forall>off n f. unat off + n \<le> unat FONT_SIZE \<longrightarrow> fp_read F off n f = (0, take n (drop (unat off) (fb f)))) \<and>
     (\<forall>off n f. unat off + n \<le> unat FONT_SIZE \<and> 4096 dvd unat off \<and> 4096 dvd n \<longrightarrow>
        (\<exists>f'. fp_erase F off n f = (0, f') \<and> fb f' = blit (unat off) (replicate n 0xFF) (fb f))) \<and>
     (\<forall>off d f. unat off + length d \<le> unat FONT_SIZE \<and> take (length d) (drop (unat off) (fb f)) = replicate (length d) 0xFF \<longrightarrow>
        (\<exists>f'. fp_write F off d f = (0, f') \<and> fb f' = blit (unat off) d (fb f)))"

text \<open>The file \<open>/QSPI:/font.bin\<close> is there with the given content; \<open>rest\<close> is what is still to be read.\<close>

definition font_file_laws :: "'w font_file \<Rightarrow> ('w \<Rightarrow> bytes) \<Rightarrow> bytes \<Rightarrow> bool" where
  "font_file_laws FS rest content \<longleftrightarrow>
     (\<forall>w. \<exists>w'. fnt_open FS font_bin_qspi w = (0, w') \<and> rest w' = content) \<and>
     (\<forall>n w. \<exists>w'. fnt_read FS n w = ((int (length (take n (rest w))), take n (rest w)), w') \<and> rest w' = drop n (rest w))"

lemma flash_read_law:
  "font_flash_laws F fb \<Longrightarrow> unat off + n \<le> unat FONT_SIZE \<Longrightarrow> fp_read F off n f = (0, take n (drop (unat off) (fb f)))"
  by (simp add: font_flash_laws_def)

lemma flash_open_law: "font_flash_laws F fb \<Longrightarrow> fp_open F f = 0"
  by (simp add: font_flash_laws_def)

lemma flash_length_law: "font_flash_laws F fb \<Longrightarrow> length (fb f) = unat FONT_SIZE"
  by (simp add: font_flash_laws_def)

lemma unat_FONT_SIZE: "unat FONT_SIZE = 4194304"
  by (simp add: FONT_SIZE_def)

section \<open>Loading and searching\<close>

lemma af16_header_good: "0 < length tbl \<Longrightarrow> length tbl \<le> 6000 \<Longrightarrow> \<not> af16_bad AF16_MAGIC (of_nat (length tbl)) 16 (16 + of_nat (length tbl) * 8)"
  by (auto simp: af16_bad_def word_less_nat_alt unat_of_nat_u32 word_unat_eq_iff)

text \<open>A partition that starts with a header of a table is loaded, whatever follows.\<close>

lemma font_load_header:
  assumes "font_flash_laws F fb" and "take 16 (fb f) = af16_header tbl" and "0 < length tbl" and "length tbl \<le> 6000"
    and "\<not> font_ok s"
  shows "font_load F f s = (True, s\<lparr>font_ok := True, font_fa := True, idx_count := of_nat (length tbl),
           bitmap_off := 16 + of_nat (length tbl) * 8\<rparr>)"
proof -
  have "fp_read F 0 16 f = (0, af16_header tbl)"
    using flash_read_law [OF assms(1), of 0 16 f] assms(2) by (simp add: unat_FONT_SIZE)
  with assms af16_header_good [of tbl] flash_open_law [OF assms(1)] show ?thesis
    by (simp add: font_load_def Let_def af16_header_fields)
qed

text \<open>The index entry read at position \<open>i\<close>.\<close>

lemma read_entry:
  assumes "font_flash_laws F fb" and "fb f = af16_header tbl @ af16_index tbl @ r" and "length tbl \<le> 6000" and "i < length tbl"
  shows "fp_read F (16 + of_nat i * 8) 8 f = (0, put_le32 (fst (tbl ! i)) @ put_le32 (snd (tbl ! i)))"
proof -
  have u: "unat (16 + of_nat i * 8 :: u32) = 16 + 8 * i"
    using assms(3,4) by (simp add: unat_word_ariths unat_of_nat_u32)
  have "unat (16 + of_nat i * 8 :: u32) + 8 \<le> unat FONT_SIZE"
    using assms(3,4) by (simp add: u unat_FONT_SIZE)
  from flash_read_law [OF assms(1) this] show ?thesis
    using af16_index_entry [OF assms(4), of r] by (simp add: u assms(2))
qed

lemma glyph_search_finds:
  assumes "font_flash_laws F fb" and "fb f = af16_header tbl @ af16_index tbl @ r" and "length tbl \<le> 6000"
    and "sorted_wrt (<) (map fst tbl)"
    and "lo \<le> hi" and "hi \<le> length tbl"
    and "\<And>i. i < lo \<Longrightarrow> fst (tbl ! i) < letter" and "\<And>i. hi \<le> i \<Longrightarrow> i < length tbl \<Longrightarrow> letter < fst (tbl ! i)"
  shows "glyph_search F f letter (of_nat lo) (of_nat hi) = Some (map_of tbl letter)"
  using assms(5-8)
proof (induction "hi - lo" arbitrary: lo hi rule: less_induct)
  case less
  have dist: "distinct (map fst tbl)" using assms(4) strict_sorted_iff by blast
  have mono: "i < j \<Longrightarrow> j < length tbl \<Longrightarrow> fst (tbl ! i) < fst (tbl ! j)" for i j
    using assms(4) by (simp add: sorted_wrt_iff_nth_less)
  show ?case
  proof (cases "lo < hi")
    case False
    then have "fst (tbl ! i) \<noteq> letter" if "i < length tbl" for i
      using that less.prems(3) [of i] less.prems(4) [of i] less.prems(1) by (cases "i < lo") auto
    then have "map_of tbl letter = None"
      by (force simp: map_of_eq_None_iff in_set_conv_nth)
    with False less.prems assms(3) show ?thesis
      by (subst glyph_search.simps) (simp add: word_less_nat_alt unat_of_nat_u32)
  next
    case True
    define mid where "mid = (lo + hi) div 2"
    have mid: "lo \<le> mid" "mid < hi" using True by (auto simp: mid_def)
    then have m_len: "mid < length tbl" using less.prems by simp
    have w_mid: "(of_nat lo + of_nat hi) div 2 = (of_nat mid :: u32)"
      using less.prems assms(3) by (simp add: mid_def word_unat_eq_iff unat_div unat_word_ariths unat_of_nat_u32)
    have lt: "(of_nat lo :: u32) < of_nat hi"
      using True less.prems assms(3) by (simp add: word_less_nat_alt unat_of_nat_u32)
    obtain key rel where e: "tbl ! mid = (key, rel)" by (cases "tbl ! mid")
    have rd: "fp_read F (16 + of_nat mid * 8) 8 f = (0, put_le32 key @ put_le32 rel)"
      using read_entry [OF assms(1-3) m_len] by (simp add: e)
    have sm: "of_nat mid + 1 = (of_nat (Suc mid) :: u32)" by simp
    have step: "glyph_search F f letter (of_nat lo) (of_nat hi) =
       (if key < letter then glyph_search F f letter (of_nat (Suc mid)) (of_nat hi)
        else if key > letter then glyph_search F f letter (of_nat lo) (of_nat mid) else Some (Some rel))"
      using w_mid rd lt sm by (subst glyph_search.simps) (simp add: Let_def del: of_nat_Suc)
    consider "key < letter" | "letter < key" | "key = letter" by fastforce
    then show ?thesis
    proof cases
      case 1
      have "glyph_search F f letter (of_nat (Suc mid)) (of_nat hi) = Some (map_of tbl letter)"
      proof (rule less.hyps)
        show "hi - Suc mid < hi - lo" using mid by simp
        show "fst (tbl ! i) < letter" if "i < Suc mid" for i
          using that mono [of i mid] 1 e m_len by (cases "i = mid") auto
      qed (use less.prems mid in auto)
      with 1 show ?thesis by (simp add: step)
    next
      case 2
      have "glyph_search F f letter (of_nat lo) (of_nat mid) = Some (map_of tbl letter)"
      proof (rule less.hyps)
        show "mid - lo < hi - lo" using mid by simp
        show "letter < fst (tbl ! i)" if "mid \<le> i" "i < length tbl" for i
          using that mono [of mid i] 2 e by (cases "i = mid") auto
      qed (use less.prems mid in auto)
      moreover have "\<not> key < letter" using 2 by simp
      ultimately show ?thesis using 2 by (simp add: step)
    next
      case 3
      then have "map_of tbl letter = Some rel"
        using dist m_len e by (metis map_of_eq_Some_iff nth_mem)
      with 3 show ?thesis by (simp add: step)
    qed
  qed
qed

text \<open>What is drawn for a letter: the bitmap the callbacks hand to the library, if they find the glyph.\<close>

definition glyph_shown :: "'f font_flash \<Rightarrow> 'f \<Rightarrow> glyph_dsc \<Rightarrow> u32 \<Rightarrow> font_st \<Rightarrow> bytes option option" where
  "glyph_shown F f d letter s =
     map_option (\<lambda>(ok, d, s). if ok then qspi_font_get_glyph_bitmap d s else None) (qspi_font_get_glyph_dsc F f d letter s)"

lemma glyph_shown_table:
  assumes "font_flash_laws F fb" and "fb f = af16_file tbl bm @ r" and wf: "af16_wf tbl bm"
  shows "glyph_shown F f d letter font_init = Some (map_option (\<lambda>rel. take GLYPH_BMP_SIZE (drop (unat rel) bm)) (map_of tbl letter))"
proof -
  have len: "0 < length tbl" "length tbl \<le> 6000" "sorted_wrt (<) (map fst tbl)" using wf by (auto simp: af16_wf_def)
  have fb: "fb f = af16_header tbl @ af16_index tbl @ bm @ r" using assms(2) by (simp add: af16_file_def)
  let ?s = "font_init\<lparr>font_ok := True, font_fa := True, idx_count := of_nat (length tbl), bitmap_off := 16 + of_nat (length tbl) * 8\<rparr>"
  have load: "font_load F f font_init = (True, ?s)"
    by (rule font_load_header [OF assms(1) _ len(1,2)]) (simp_all add: fb font_init_def)
  have search: "glyph_search F f letter 0 (of_nat (length tbl)) = Some (map_of tbl letter)"
    using glyph_search_finds [OF assms(1) fb len(2,3), of 0 "length tbl" letter] by simp
  show ?thesis
  proof (cases "map_of tbl letter")
    case None
    then show ?thesis by (simp add: glyph_shown_def qspi_font_get_glyph_dsc_def load search)
  next
    case (Some rel)
    then have rel: "unat rel + GLYPH_BMP_SIZE \<le> length bm" using wf map_of_SomeD [OF Some] by (auto simp: af16_wf_def)
    have bm: "length bm = length tbl * 128" using wf by (simp add: af16_wf_def GLYPH_BMP_SIZE_def)
    have u: "unat (16 + of_nat (length tbl) * 8 + rel) = 16 + 8 * length tbl + unat rel"
      using len rel bm by (simp add: unat_word_ariths unat_of_nat_u32 GLYPH_BMP_SIZE_def)
    have "unat (16 + of_nat (length tbl) * 8 + rel) + GLYPH_BMP_SIZE \<le> unat FONT_SIZE"
      using len rel bm by (simp add: u unat_FONT_SIZE)
    from flash_read_law [OF assms(1) this, of f]
    have "fp_read F (16 + of_nat (length tbl) * 8 + rel) GLYPH_BMP_SIZE f = (0, take GLYPH_BMP_SIZE (drop (unat rel) bm))"
      using rel by (simp add: u fb)
    with Some show ?thesis by (simp add: glyph_shown_def qspi_font_get_glyph_dsc_def load search qspi_font_get_glyph_bitmap_def)
  qed
qed

section \<open>Installing\<close>

lemma blit_adjacent:
  "off + length a + length b \<le> length xs \<Longrightarrow> blit (off + length a) b (blit off a xs) = blit off (a @ b) xs"
  by (cases "a = []") (auto simp: blit_def min_def add.assoc add.commute [of "length b"] le_diff_conv2 simp flip: length_greater_0_conv)

lemma font_erase_loop_ok:
  assumes "font_flash_laws F fb" and "unat eo + 4096 * n \<le> unat FONT_SIZE" and "4096 dvd unat eo"
  shows "\<exists>f'. font_erase_loop F n eo f = (True, f') \<and> fb f' = blit (unat eo) (replicate (4096 * n) 0xFF) (fb f)"
  using assms(2,3)
proof (induction n arbitrary: eo f)
  case 0
  then show ?case by (simp add: blit_def)
next
  case (Suc n)
  obtain f1 where f1: "fp_erase F eo 4096 f = (0, f1)" "fb f1 = blit (unat eo) (replicate 4096 0xFF) (fb f)"
  proof -
    have "unat eo + 4096 \<le> unat FONT_SIZE" using Suc.prems(1) by simp
    with assms(1) Suc.prems(2) have "\<exists>f1. fp_erase F eo 4096 f = (0, f1) \<and> fb f1 = blit (unat eo) (replicate 4096 0xFF) (fb f)"
      unfolding font_flash_laws_def by (elim conjE allE [where x = eo]) simp
    then show ?thesis using that by blast
  qed
  show ?case
  proof (cases n)
    case 0
    with f1 show ?thesis by simp
  next
    case (Suc m)
    have u: "unat (eo + 4096) = unat eo + 4096"
      using Suc.prems Suc by (simp add: unat_word_ariths unat_FONT_SIZE)
    have "\<exists>f'. font_erase_loop F n (eo + 4096) f1 = (True, f') \<and>
        fb f' = blit (unat (eo + 4096)) (replicate (4096 * n) 0xFF) (fb f1)"
      by (rule Suc.IH) (use Suc.prems u in auto)
    then obtain f' where f': "font_erase_loop F n (eo + 4096) f1 = (True, f')"
        "fb f' = blit (unat eo + 4096) (replicate (4096 * n) 0xFF) (blit (unat eo) (replicate 4096 0xFF) (fb f))"
      using f1 u by auto
    have "fb f' = blit (unat eo) (replicate 4096 0xFF @ replicate (4096 * n) 0xFF) (fb f)"
      using blit_adjacent [of "unat eo" "replicate 4096 0xFF" "replicate (4096 * n) (0xFF :: u8)" "fb f"] Suc.prems
        flash_length_law [OF assms(1), of f] by (simp add: f'(2))
    with f' f1 show ?thesis by (simp add: replicate_add)
  qed
qed

text \<open>The copy loop ends, having stored what is left of the file up to its end or up to the announced total.\<close>

lemma font_copy_loop_ok:
  assumes "font_flash_laws F fb" and "font_file_laws FS rest file" and "unat tot \<le> unat FONT_SIZE"
    and "unat off \<le> unat tot" and "unat off \<le> length content" and "rest w = drop (unat off) content"
    and "fb f = take (unat off) content @ X" and "take (unat tot - unat off) X = replicate (unat tot - unat off) 0xFF"
  shows "\<exists>f' w' Y. font_copy_loop F FS tot off f w = Some (True, of_nat (min (unat tot) (length content)), f', w') \<and>
    fb f' = take (min (unat tot) (length content)) content @ Y"
  using assms(4-8)
proof (induction "unat tot - unat off" arbitrary: off f w X rule: less_induct)
  case less
  show ?case
  proof (cases "off < tot")
    case False
    then have "off = tot" using less.prems(1) by (simp add: word_le_nat_alt [symmetric])
    moreover from this have "min (unat tot) (length content) = unat off" using less.prems by simp
    ultimately show ?thesis using False less.prems by (subst font_copy_loop.simps) auto
  next
    case True
    define k where "k = min 4096 (unat (tot - off))"
    have sub: "unat (tot - off) = unat tot - unat off" using True by (simp add: unat_sub_if' word_less_nat_alt)
    define d where "d = take k (drop (unat off) content)"
    obtain w1 where w1: "fnt_read FS k w = ((int (length d), d), w1)" "rest w1 = drop k (drop (unat off) content)"
      using assms(2) less.prems unfolding font_file_laws_def d_def by metis
    show ?thesis
    proof (cases "d = []")
      case e: True
      then have "length content = unat off" using True sub less.prems by (auto simp: d_def k_def word_less_nat_alt)
      then have "min (unat tot) (length content) = unat off" using less.prems by simp
      with True e w1 less.prems show ?thesis
        by (subst font_copy_loop.simps) (auto simp: k_def [symmetric] intro!: exI [of _ X])
    next
      case False
      define m where "m = length d"
      have m: "0 < m" "m \<le> unat tot - unat off" "m \<le> k" "unat off + m \<le> length content"
        using False sub by (auto simp: m_def d_def k_def)
      have dk: "drop k (drop (unat off) content) = drop m (drop (unat off) content)"
        by (cases "k \<le> length content - unat off") (simp_all add: m_def d_def min_def)
      have X: "take m X = replicate m 0xFF"
        using arg_cong [OF less.prems(5), of "take m"] m(2) by (simp add: min_def)
      have lX: "m \<le> length X" using arg_cong [OF X, of length] by simp
      obtain f1 where f1: "fp_write F off d f = (0, f1)" "fb f1 = blit (unat off) d (fb f)"
      proof -
        have "unat off + length d \<le> unat FONT_SIZE" using m less.prems(1) assms(3) by (simp add: m_def)
        moreover have "take (length d) (drop (unat off) (fb f)) = replicate (length d) 0xFF"
          using less.prems(2) X by (simp add: less.prems(4) m_def)
        ultimately show ?thesis using assms(1) that unfolding font_flash_laws_def by blast
      qed
      have tk: "take (unat off + m) content = take (unat off) content @ d"
        using m by (simp add: take_add d_def m_def min_def)
      have fb1: "fb f1 = take (unat off + m) content @ drop m X"
        using less.prems(2) lX unfolding f1(2) less.prems(4) blit_def m_def [symmetric] tk by simp
      have u: "unat (off + of_nat m) = unat off + m"
        using m assms(3) by (simp add: unat_word_ariths unat_of_nat_u32 unat_FONT_SIZE)
      have "\<exists>f' w' Y. font_copy_loop F FS tot (off + of_nat m) f1 w1 = Some (True, of_nat (min (unat tot) (length content)), f', w') \<and>
          fb f' = take (min (unat tot) (length content)) content @ Y"
      proof (rule less.hyps)
        show "rest w1 = drop (unat (off + of_nat m)) content"
          using dk by (simp add: u w1(2) add.commute)
        show "take (unat tot - unat (off + of_nat m)) (drop m X) = replicate (unat tot - unat (off + of_nat m)) 0xFF"
          using arg_cong [OF less.prems(5), of "drop m"] m(2) by (simp add: u drop_take)
      qed (use m fb1 u less.prems in auto)
      then show ?thesis using True False w1 f1 m(1)
        by (subst font_copy_loop.simps) (simp add: k_def [symmetric] m_def)
    qed
  qed
qed

section \<open>From the file to the partition\<close>

lemma get_le32_take:
  "16 \<le> n \<Longrightarrow> take 16 (take n (af16_file tbl bm)) = af16_header tbl"
  by (simp add: af16_file_def min_def)

lemma unat_round_up32_4096:
  assumes "unat t \<le> 4000000"
  shows "unat (round_up32 t 4096) = (unat t + 4095) div 4096 * 4096"
proof -
  define q where "q = (unat t + 4095) div 4096"
  have q: "q \<le> 1000" using assms by (simp add: q_def)
  have "unat (t + (4096 - 1)) = unat t + 4095" using assms by (simp add: unat_word_ariths)
  then have d: "unat ((t + (4096 - 1)) div 4096) = q" by (simp add: unat_div q_def)
  have "unat (round_up32 t 4096) = (q * 4096) mod 2 ^ 32"
    unfolding round_up32_def unat_word_ariths(2) d by simp
  also have "\<dots> = q * 4096" using q by (intro mod_less) simp
  finally show ?thesis by (simp add: q_def)
qed

lemma font_total:
  assumes "af16_wf tbl bm"
  defines "tot \<equiv> 16 + of_nat (length tbl) * 8 + of_nat (length tbl) * of_nat GLYPH_BMP_SIZE :: u32"
  shows "unat tot = length (af16_file tbl bm)" and "unat tot \<le> unat FONT_SIZE"
    and "unat (round_up32 tot 4096) \<le> unat FONT_SIZE" and "unat tot \<le> unat (round_up32 tot 4096)"
    and "4096 * (unat (round_up32 tot 4096) div 4096) = unat (round_up32 tot 4096)"
proof -
  have l: "length tbl \<le> 6000" using assms(1) by (simp add: af16_wf_def)
  show u: "unat tot = length (af16_file tbl bm)"
    using l by (simp add: tot_def length_af16_file [OF assms(1)] GLYPH_BMP_SIZE_def unat_word_ariths unat_of_nat_u32)
  then have b: "unat tot \<le> 816016" using l by (simp add: length_af16_file [OF assms(1)])
  then show "unat tot \<le> unat FONT_SIZE" by (simp add: unat_FONT_SIZE)
  note r = unat_round_up32_4096 [of tot]
  show "unat (round_up32 tot 4096) \<le> unat FONT_SIZE" using r b by (simp add: unat_FONT_SIZE)
  show "unat tot \<le> unat (round_up32 tot 4096)" using r b by simp
  show "4096 * (unat (round_up32 tot 4096) div 4096) = unat (round_up32 tot 4096)" using r b by simp
qed

text \<open>
  The installation of a well-formed font file, with any bytes after its end.  The sixteen bytes of the header
  are read to be checked and the file is not wound back, so the copy starts behind them.
\<close>

lemma font_install_file:
  assumes F: "font_flash_laws F fb" and wf: "af16_wf tbl bm"
    and FS: "font_file_laws FS rest (af16_file tbl bm @ pad)"
  shows "\<exists>f' w' Y. apollo_font_install F FS f w = Some (if length pad < 16 then - EIO else 0, f', w') \<and>
     fb f' = af16_index tbl @ bm @ take 16 pad @ Y"
proof -
  define c where "c = af16_index tbl @ bm @ pad"
  define tot where "tot = (16 + of_nat (length tbl) * 8 + of_nat (length tbl) * of_nat GLYPH_BMP_SIZE :: u32)"
  note tot = font_total [OF wf, folded tot_def]
  have len: "0 < length tbl" "length tbl \<le> 6000" using wf by (auto simp: af16_wf_def)
  have lt: "unat tot = 16 + length (af16_index tbl @ bm)" by (simp add: tot(1) af16_file_def)
  have rd: "\<exists>w'. fnt_read FS k u = ((int (length (take k (rest u))), take k (rest u)), w') \<and> rest w' = drop k (rest u)" for k u
    using FS unfolding font_file_laws_def by blast
  obtain w1 where w1: "fnt_open FS font_bin_qspi w = (0, w1)" "rest w1 = af16_header tbl @ c"
    using FS unfolding font_file_laws_def c_def af16_file_def by force
  obtain w2 where w2: "fnt_read FS 16 w1 = ((16, af16_header tbl), w2)" "rest w2 = c"
    using rd [of 16 w1] by (auto simp: w1(2))
  obtain f1 where f1: "font_erase_loop F (unat (round_up32 tot 4096) div 4096) 0 f = (True, f1)"
      "fb f1 = blit 0 (replicate (unat (round_up32 tot 4096)) 0xFF) (fb f)"
    using font_erase_loop_ok [OF F, of 0 "unat (round_up32 tot 4096) div 4096" f] tot(3) by (auto simp: tot(5))
  have "take (unat tot) (fb f1) = replicate (unat tot) 0xFF"
    using tot(4) by (simp add: f1(2) blit_def)
  then obtain f2 w3 Y where cp: "font_copy_loop F FS tot 0 f1 w2 = Some (True, of_nat (min (unat tot) (length c)), f2, w3)"
      "fb f2 = take (min (unat tot) (length c)) c @ Y"
    using font_copy_loop_ok [OF F FS tot(2), of 0 c w2 f1 "fb f1"] w2(2) by auto
  have "min (unat tot) (length c) = (if length pad < 16 then length c else unat tot)"
    by (simp add: c_def lt)
  moreover have "(of_nat (length c) :: u32) = tot \<longleftrightarrow> length pad = 16" if "length pad < 16"
  proof -
    have "length c < 2 ^ 32" using that lt tot(2) by (simp add: c_def unat_FONT_SIZE)
    moreover have "length c \<noteq> unat tot" using that lt by (simp add: c_def)
    ultimately have "(of_nat (length c) :: u32) \<noteq> tot" using unat_of_nat_u32 by metis
    with that show ?thesis by simp
  qed
  ultimately have off: "(of_nat (min (unat tot) (length c)) \<noteq> tot) = (length pad < 16)" by auto
  have "take (min (unat tot) (length c)) c = af16_index tbl @ bm @ take 16 pad"
    by (cases "length pad \<le> 16") (simp_all add: c_def lt min_def)
  with cp have fb2: "fb f2 = af16_index tbl @ bm @ take 16 pad @ Y" by simp
  have fits: "\<not> FONT_SIZE < tot" using tot(2) by (simp add: word_less_nat_alt)
  have "apollo_font_install F FS f w = Some (if length pad < 16 then - EIO else 0, f2, fnt_close FS w3)"
    using fits off cp(1) f1(1) flash_open_law [OF F, of f] af16_header_good [OF len]
    by (simp add: apollo_font_install_def font_open_file_def w1(1) w2(1) af16_header_fields tot_def [symmetric])
  with fb2 show ?thesis by blast
qed

text \<open>Without the header no font is loaded.\<close>

lemma headerless_not_loaded:
  assumes F: "font_flash_laws F fb" and fb: "fb f = af16_index tbl @ r" and two: "2 \<le> length tbl"
    and srt: "sorted_wrt (<) (map fst tbl)"
  shows "\<not> fst (font_load F f font_init)"
proof -
  obtain c0 r0 c1 r1 t where tbl: "tbl = (c0, r0) # (c1, r1) # t"
    using two by (cases tbl rule: remdups_adj.cases) auto
  have "fp_read F 0 16 f = (0, put_le32 c0 @ put_le32 r0 @ put_le32 c1 @ put_le32 r1)"
    using flash_read_law [OF F, of 0 16 f] by (simp add: unat_FONT_SIZE fb tbl af16_index_def)
  moreover have "c0 \<noteq> AF16_MAGIC \<or> c1 \<noteq> 16"
    using srt by (auto simp: tbl AF16_MAGIC_def)
  ultimately show ?thesis using flash_open_law [OF F, of f]
    by (auto simp: font_load_def font_init_def af16_bad_def)
qed

section \<open>A partition and a file in memory\<close>

definition ram_font :: "(nat \<Rightarrow> u8) font_flash" where
  "ram_font = \<lparr>fp_open = (\<lambda>_. 0),
     fp_read = (\<lambda>off n f. (0, map f [unat off..<unat off + n])),
     fp_erase = (\<lambda>off n f. (0, \<lambda>i. if unat off \<le> i \<and> i < unat off + n then 0xFF else f i)),
     fp_write = (\<lambda>off d f. (0, \<lambda>i. if unat off \<le> i \<and> i < unat off + length d then d ! (i - unat off) else f i))\<rparr>"

definition ram_font_bytes :: "(nat \<Rightarrow> u8) \<Rightarrow> bytes" where
  "ram_font_bytes f = map f [0..<unat FONT_SIZE]"

definition ram_file :: "bytes \<Rightarrow> bytes font_file" where
  "ram_file c = \<lparr>fnt_open = (\<lambda>_ _. (0, c)), fnt_read = (\<lambda>n w. ((int (length (take n w)), take n w), drop n w)), fnt_close = (\<lambda>w. w)\<rparr>"

lemma ram_font_laws: "font_flash_laws ram_font ram_font_bytes"
proof -
  have rd: "map f [off..<off + n] = take n (drop off (ram_font_bytes f))" if "off + n \<le> unat FONT_SIZE" for f :: "nat \<Rightarrow> u8" and off n
    using that by (auto simp: ram_font_bytes_def list_eq_iff_nth_eq)
  have wr: "ram_font_bytes (\<lambda>i. if off \<le> i \<and> i < off + length d then d ! (i - off) else f i) = blit off d (ram_font_bytes f)"
    if "off + length d \<le> unat FONT_SIZE" for f :: "nat \<Rightarrow> u8" and off d
    using that by (simp add: list_eq_iff_nth_eq nth_blit) (simp add: ram_font_bytes_def nth_blit)
  have er: "ram_font_bytes (\<lambda>i. if off \<le> i \<and> i < off + n then 0xFF else f i) = blit off (replicate n 0xFF) (ram_font_bytes f)"
    if "off + n \<le> unat FONT_SIZE" for f :: "nat \<Rightarrow> u8" and off n
  proof -
    have "(\<lambda>i. if off \<le> i \<and> i < off + n then 0xFF else f i) =
        (\<lambda>i. if off \<le> i \<and> i < off + length (replicate n (0xFF :: u8)) then replicate n 0xFF ! (i - off) else f i)"
      by (auto simp: fun_eq_iff)
    with wr [of off "replicate n 0xFF" f] that show ?thesis by simp
  qed
  show ?thesis
    by (simp add: font_flash_laws_def ram_font_def rd wr er) (simp add: ram_font_bytes_def)
qed

lemma ram_file_laws: "font_file_laws (ram_file c) (\<lambda>w. w) c"
  by (simp add: font_file_laws_def ram_file_def)

definition demo_font :: "glyph_table \<times> bytes" where
  "demo_font = ([(0x41, 0), (0x4E00, 128)], replicate 128 0x11 @ replicate 128 0x22)"

lemma demo_font_wf: "af16_wf (fst demo_font) (snd demo_font)" "length (fst demo_font) = 2"
  by (simp_all add: demo_font_def af16_wf_def GLYPH_BMP_SIZE_def)

section \<open>Properties\<close>

text \<open>
  C38. After a start, with a well-formed font at the beginning of its partition, the binary search finds exactly the
  letters of the table: the callbacks give the graphics library the bitmap the table names for the letter, and
  nothing for a letter that is not in it; the search ends.
\<close>
theorem glyph_lookup_exact:
  assumes "font_flash_laws F fb" and "fb f = af16_file tbl bm @ r" and "af16_wf tbl bm"
  shows "glyph_shown F f d letter font_init = Some (map_option (\<lambda>rel. take GLYPH_BMP_SIZE (drop (unat rel) bm)) (map_of tbl letter))"
  by (rule glyph_shown_table [OF assms])

definition demo_partition :: "nat \<Rightarrow> u8" where
  "demo_partition i = (let c = af16_file (fst demo_font) (snd demo_font) in if i < length c then c ! i else 0xFF)"

lemma demo_partition_holds:
  "ram_font_bytes demo_partition = af16_file (fst demo_font) (snd demo_font) @ drop 288 (ram_font_bytes demo_partition)"
proof -
  have l: "length (af16_file (fst demo_font) (snd demo_font)) = 288"
    by (simp add: length_af16_file [OF demo_font_wf(1)] demo_font_wf(2))
  have "take 288 (ram_font_bytes demo_partition) = af16_file (fst demo_font) (snd demo_font)"
    by (rule nth_equalityI) (auto simp: l ram_font_bytes_def unat_FONT_SIZE demo_partition_def Let_def)
  then show ?thesis by (metis append_take_drop_id)
qed

theorem glyph_lookup_exact_witness:
  "(\<forall>d. glyph_shown ram_font demo_partition d 0x4E00 font_init = Some (Some (replicate 128 0x22))) \<and>
   (\<forall>d. glyph_shown ram_font demo_partition d 0x42 font_init = Some None)"
  by (simp add: glyph_lookup_exact [where fb = ram_font_bytes and f = demo_partition, OF ram_font_laws demo_partition_holds demo_font_wf(1)])
     (simp add: demo_font_def GLYPH_BMP_SIZE_def)

text \<open>
  C39. The installation command of \<open>apollo-v2\<close> cannot install a font. For every well-formed font file of two
  glyphs or more it returns, with flash and file system working, the error `file incomplete`, has erased the
  font that was installed and written the file from its seventeenth byte on; after a restart no letter is
  found in the font partition. The sixteen header bytes that were read to check the file are never written.
\<close>
theorem font_install_loses_header:
  assumes "font_flash_laws F fb" and "af16_wf tbl bm" and "2 \<le> length tbl"
    and "font_file_laws FS rest (af16_file tbl bm)"
  shows "\<exists>f' w' Y. apollo_font_install F FS f w = Some (- EIO, f', w') \<and> fb f' = drop 16 (af16_file tbl bm) @ Y \<and>
     (\<forall>letter d. glyph_shown F f' d letter font_init = Some None)"
proof -
  obtain f' w' Y where i: "apollo_font_install F FS f w = Some (- EIO, f', w')" "fb f' = af16_index tbl @ bm @ Y"
    using font_install_file [OF assms(1,2), of FS rest "[]" f w] assms(4) by auto
  have "\<not> fst (font_load F f' font_init)"
    using headerless_not_loaded [OF assms(1) i(2) assms(3)] assms(2) by (simp add: af16_wf_def)
  then have "glyph_shown F f' d letter font_init = Some None" for letter d
    by (simp add: glyph_shown_def qspi_font_get_glyph_dsc_def case_prod_beta Let_def)
  with i show ?thesis by (auto simp: af16_file_def)
qed

theorem font_install_loses_header_witness:
  "\<exists>f' w' Y. apollo_font_install ram_font (ram_file (af16_file (fst demo_font) (snd demo_font))) (\<lambda>_. 0xFF) [] = Some (- EIO, f', w') \<and>
     ram_font_bytes f' = drop 16 (af16_file (fst demo_font) (snd demo_font)) @ Y \<and>
     (\<forall>letter d. glyph_shown ram_font f' d letter font_init = Some None)"
  by (rule font_install_loses_header [OF ram_font_laws demo_font_wf(1) _ ram_file_laws]) (simp add: demo_font_wf(2))

end
