(* ===== verification/ApolloTime.thy ===== *)
theory ApolloTime imports FtpPath begin

text \<open>
  The clock of \<open>apollo-v2\<close> (\<open>app_time.c\<close>): the real-time clock keeps UTC, everything shown or entered is
  UTC+8.  \<open>gmtime\<close> is the C library's function, for years from 1 on; \<open>timeutil_timegm\<close> belongs to the
  operating system and is a parameter.
\<close>

section \<open>Calendar\<close>

record tm =
  tm_sec :: int
  tm_min :: int
  tm_hour :: int
  tm_mday :: int
  tm_mon :: int
  tm_year :: int
  tm_wday :: int
  tm_yday :: int

text \<open>Days before the first of January of year \<open>y\<close>, counted from year 1.\<close>

definition before_year :: "nat \<Rightarrow> nat" where
  "before_year y = (let p = y - 1 in 365 * p + p div 4 - p div 100 + p div 400)"

definition leap_year :: "nat \<Rightarrow> bool" where
  "leap_year y \<longleftrightarrow> y mod 4 = 0 \<and> (y mod 100 \<noteq> 0 \<or> y mod 400 = 0)"

definition month_lengths :: "nat \<Rightarrow> nat list" where
  "month_lengths y = [31, if leap_year y then 29 else 28, 31, 30, 31, 30, 31, 31, 30, 31, 30, 31]"

fun month_of :: "nat list \<Rightarrow> nat \<Rightarrow> nat \<times> nat" where
  "month_of [] d = (0, d)"
| "month_of (l # ls) d = (if d < l then (0, d) else let (m, r) = month_of ls (d - l) in (Suc m, r))"

text \<open>The year a day falls in, searched upwards from a year that is not too late.\<close>

lemma before_year_ge: "365 * (y - 1) \<le> before_year y"
  by (simp add: before_year_def Let_def)

function year_search :: "nat \<Rightarrow> nat \<Rightarrow> nat" where
  "year_search d y = (if before_year (Suc y) \<le> d then year_search d (Suc y) else y)"
  by auto
termination
proof (relation "measure (\<lambda>(d, y). Suc d - y)", simp)
  fix d y assume "before_year (Suc y) \<le> d"
  with before_year_ge [of "Suc y"] have "365 * y \<le> d" by simp
  then show "((d, Suc y), d, y) \<in> measure (\<lambda>(d, y). Suc d - y)" by simp
qed

declare year_search.simps [simp del]

definition EPOCH_DAYS :: nat where "EPOCH_DAYS = 719162"

definition gmtime :: "int \<Rightarrow> tm" where
  "gmtime t =
     (let days = nat (t div 86400 + int EPOCH_DAYS); secs = t mod 86400;
          y = year_search days (days div 366 + 1); yday = days - before_year y; (m, d) = month_of (month_lengths y) yday in
      \<lparr>tm_sec = secs mod 60, tm_min = secs div 60 mod 60, tm_hour = secs div 3600, tm_mday = int d + 1,
       tm_mon = int m, tm_year = int y - 1900, tm_wday = (int days + 1) mod 7, tm_yday = int yday\<rparr>)"

section \<open>The clock chip\<close>

record 'r rtc_api =
  rtc_ready :: bool
  rtc_get_time :: "'r \<Rightarrow> int \<times> tm"
  rtc_set_time :: "tm \<Rightarrow> 'r \<Rightarrow> int \<times> 'r"
  timeutil_timegm :: "tm \<Rightarrow> int"
  scan_ovf :: "int \<Rightarrow> int"

definition LOCAL_UTC_OFFSET_SEC :: int where "LOCAL_UTC_OFFSET_SEC = 8 * 3600"

text \<open>\<open>unix_to_rtc_tm\<close> and \<open>rtc_tm_to_unix\<close> copy the fields; the chip's record has the same ones.\<close>

definition unix_to_rtc_tm :: "int \<Rightarrow> tm" where "unix_to_rtc_tm t = gmtime t"

definition rtc_tm_to_unix :: "'r rtc_api \<Rightarrow> tm \<Rightarrow> int" where "rtc_tm_to_unix R rt = timeutil_timegm R rt"

text \<open>The result, and the seconds when they were stored through the pointer.\<close>

definition app_time_get_utc :: "'r rtc_api \<Rightarrow> 'r \<Rightarrow> bool \<times> int option" where
  "app_time_get_utc R r =
     (if \<not> rtc_ready R then (False, None)
      else let (rc, rt) = rtc_get_time R r in
        if rc \<noteq> 0 then (False, None) else (tm_year rt + 1900 \<ge> 2025, Some (rtc_tm_to_unix R rt)))"

definition app_time_set_utc :: "'r rtc_api \<Rightarrow> int \<Rightarrow> 'r \<Rightarrow> int \<times> 'r" where
  "app_time_set_utc R t r = (if \<not> rtc_ready R then (- ENODEV, r) else rtc_set_time R (unix_to_rtc_tm t) r)"

definition app_time_get_local :: "'r rtc_api \<Rightarrow> 'r \<Rightarrow> tm option" where
  "app_time_get_local R r =
     (case app_time_get_utc R r of (True, Some utc) \<Rightarrow> Some (gmtime (utc + LOCAL_UTC_OFFSET_SEC)) | _ \<Rightarrow> None)"

text \<open>\<open>%d\<close>; what a number beyond \<open>int\<close> converts to is left open by C: \<open>scan_ovf\<close>.\<close>

definition scan_d :: "(int \<Rightarrow> int) \<Rightarrow> string \<Rightarrow> (int \<times> string) option" where
  "scan_d ovf s =
     (let t = dropWhile is_space s;
          sign = (if t \<noteq> [] \<and> (hd t = CHR ''-'' \<or> hd t = CHR ''+'') then 1 else 0);
          ds = takeWhile is_digit (drop sign t);
          v = (if sign = 1 \<and> hd t = CHR ''-'' then - int (digits_val ds) else int (digits_val ds)) in
      if ds = [] then None
      else Some (if - (2 ^ 31) \<le> v \<and> v < 2 ^ 31 then v else ovf v, drop (sign + length ds) t))"

text \<open>\<open>sscanf\<close> with three numbers and a separator; \<open>None\<close> when fewer than three are converted.\<close>

definition scan3 :: "(int \<Rightarrow> int) \<Rightarrow> char \<Rightarrow> string \<Rightarrow> (int \<times> int \<times> int) option" where
  "scan3 ovf sep s =
     (case scan_d ovf s of None \<Rightarrow> None
      | Some (a, s) \<Rightarrow> (case scan_lit sep s of None \<Rightarrow> None
      | Some s \<Rightarrow> (case scan_d ovf s of None \<Rightarrow> None
      | Some (b, s) \<Rightarrow> (case scan_lit sep s of None \<Rightarrow> None
      | Some s \<Rightarrow> (case scan_d ovf s of None \<Rightarrow> None | Some (c, s) \<Rightarrow> Some (a, b, c))))))"

definition app_time_set_local_str :: "'r rtc_api \<Rightarrow> string \<Rightarrow> string \<Rightarrow> 'r \<Rightarrow> int \<times> 'r" where
  "app_time_set_local_str R date time r =
     (case scan3 (scan_ovf R) CHR ''-'' date of None \<Rightarrow> (- EINVAL, r)
      | Some (y, mo, d) \<Rightarrow>
        (case scan3 (scan_ovf R) CHR '':'' time of None \<Rightarrow> (- EINVAL, r)
         | Some (h, mi, s) \<Rightarrow>
             if y < 100 \<or> y > 3000 \<or> mo < 1 \<or> mo > 12 \<or> d < 1 \<or> d > 31 then (- EINVAL, r)
             else app_time_set_utc R (timeutil_timegm R \<lparr>tm_sec = s, tm_min = mi, tm_hour = h, tm_mday = d,
                 tm_mon = mo - 1, tm_year = y - 1900, tm_wday = 0, tm_yday = 0\<rparr> - LOCAL_UTC_OFFSET_SEC) r))"

text \<open>\<open>%0nd\<close> of a number that is not negative, as all the fields printed are.\<close>

definition zpad :: "nat \<Rightarrow> int \<Rightarrow> string" where
  "zpad n i = replicate (n - length (dec_text (nat i))) CHR ''0'' @ dec_text (nat i)"

definition local_date :: "tm \<Rightarrow> string" where
  "local_date t = zpad 4 (tm_year t + 1900) @ ''-'' @ zpad 2 (tm_mon t + 1) @ ''-'' @ zpad 2 (tm_mday t)"

definition local_time :: "tm \<Rightarrow> string" where
  "local_time t = zpad 2 (tm_hour t) @ '':'' @ zpad 2 (tm_min t) @ '':'' @ zpad 2 (tm_sec t)"

definition app_time_local_str :: "'r rtc_api \<Rightarrow> 'r \<Rightarrow> string" where
  "app_time_local_str R r =
     (case app_time_get_local R r of None \<Rightarrow> ''----.--.-- --:--:--''
      | Some t \<Rightarrow> take 23 (local_date t @ '' '' @ local_time t))"

section \<open>The calendar is one\<close>

lemma before_year_alt: "before_year (Suc p) + p div 100 = 365 * p + p div 4 + p div 400"
  using trans_le_add2 [OF div_le_mono2 [of 4 100 p], of "365 * p"] by (simp add: before_year_def Let_def)

lemma before_year_Suc: "0 < y \<Longrightarrow> before_year (Suc y) = before_year y + (if leap_year y then 366 else 365)"
proof -
  assume "0 < y"
  then obtain p where y: "y = Suc p" by (cases y) auto
  have years: "y1 + q100 = 365 * n + q4 + q400 \<Longrightarrow> y2 + (q100 + b) = 365 * Suc n + (q4 + a) + (q400 + c) \<Longrightarrow>
      y2 + b = y1 + 365 + a + c" for y1 y2 q4 q100 q400 n a b c :: nat
    by simp
  define a where "a = (if Suc p mod 4 = 0 then 1 else 0 :: nat)"
  define b where "b = (if Suc p mod 100 = 0 then 1 else 0 :: nat)"
  define c where "c = (if Suc p mod 400 = 0 then 1 else 0 :: nat)"
  have "Suc p div 4 = p div 4 + a" "Suc p div 100 = p div 100 + b" "Suc p div 400 = p div 400 + c"
    by (simp_all add: div_Suc a_def b_def c_def)
  then have e: "before_year (Suc y) + b = before_year y + 365 + a + c"
    using years [OF before_year_alt [of p], of "before_year (Suc y)" b a c] before_year_alt [of y] by (simp only: y)
  have "Suc p mod 400 = 0 \<Longrightarrow> Suc p mod 100 = 0" "Suc p mod 100 = 0 \<Longrightarrow> Suc p mod 4 = 0"
    using dvd_trans [of 100 400 "Suc p"] dvd_trans [of 4 100 "Suc p"] by (simp_all add: mod_eq_0_iff_dvd)
  then have "365 + a + c = (if leap_year y then 366 else 365) + b"
    unfolding leap_year_def y a_def b_def c_def by (simp split: if_splits)
  with e show ?thesis by linarith
qed

lemma year_search_ok:
  "0 < y \<Longrightarrow> before_year y \<le> d \<Longrightarrow>
   0 < year_search d y \<and> before_year (year_search d y) \<le> d \<and> d < before_year (Suc (year_search d y))"
proof (induction d y rule: year_search.induct)
  case (1 d y)
  then show ?case by (subst (1 2 3) year_search.simps) auto
qed

lemma before_year_le: "before_year y \<le> 366 * (y - 1)"
proof -
  have "p div 4 + p div 400 \<le> p + p div 100" for p :: nat
    by (intro add_mono div_le_dividend div_le_mono2) simp_all
  then show ?thesis by (auto simp: before_year_def Let_def)
qed

lemma month_of_ok:
  "d < sum_list ls \<Longrightarrow> fst (month_of ls d) < length ls \<and> snd (month_of ls d) < ls ! fst (month_of ls d) \<and>
     sum_list (take (fst (month_of ls d)) ls) + snd (month_of ls d) = d"
proof (induction ls arbitrary: d)
  case (Cons a ls)
  show ?case
  proof (cases "d < a")
    case False
    then have "d - a < sum_list ls" using Cons.prems by simp
    moreover obtain m r where mr: "month_of ls (d - a) = (m, r)" by fastforce
    ultimately have "m < length ls \<and> r < ls ! m \<and> sum_list (take m ls) + r = d - a" using Cons.IH [of "d - a"] by simp
    moreover have "a \<le> d" using False by simp
    ultimately have "a + sum_list (take m ls) + r = d" by linarith
    with \<open>m < length ls \<and> _\<close> False mr show ?thesis by simp
  qed simp
qed simp

end
