(* ===== verification/ApolloTimeTheorems.thy ===== *)
theory ApolloTimeTheorems imports ApolloTime begin

text \<open>
  The clock of \<open>apollo-v2\<close>: \<open>gmtime\<close> gives calendar fields from which the seconds are computed back, and a
  local time that is entered is the one that is shown.
\<close>

section \<open>Fields of a time\<close>

definition civil_secs :: "tm \<Rightarrow> int" where
  "civil_secs t =
     (let y = nat (tm_year t + 1900) in
      (int (before_year y + sum_list (take (nat (tm_mon t)) (month_lengths y))) + (tm_mday t - 1) - int EPOCH_DAYS) * 86400 +
      tm_hour t * 3600 + tm_min t * 60 + tm_sec t)"

lemma sum_month_lengths: "sum_list (month_lengths y) = (if leap_year y then 366 else 365)"
  by (simp add: month_lengths_def)

lemma length_month_lengths [simp]: "length (month_lengths y) = 12"
  by (simp add: month_lengths_def)

lemma month_length_le: "m < 12 \<Longrightarrow> month_lengths y ! m \<le> 31"
  by (auto simp: month_lengths_def less_Suc_eq numeral_eq_Suc)

lemma year_search_ge: "y \<le> year_search d y"
proof (induction d y rule: year_search.induct)
  case (1 d y)
  then show ?case by (subst year_search.simps) auto
qed

lemma div_less_iff_less_mult_int: "(a :: int) div 3600 < 24 \<longleftrightarrow> a < 86400"
  by linarith

text \<open>Where the year, month and day of a time stand in the calendar.\<close>

lemma gmtime_calendar:
  assumes "0 \<le> t"
  obtains y m d where "1900 < y" "m < 12" "d < month_lengths y ! m"
    "int (before_year y + sum_list (take m (month_lengths y)) + d) = t div 86400 + int EPOCH_DAYS"
    "tm_year (gmtime t) = int y - 1900" "tm_mon (gmtime t) = int m" "tm_mday (gmtime t) = int d + 1"
proof -
  define days where "days = nat (t div 86400 + int EPOCH_DAYS)"
  define y where "y = year_search days (days div 366 + 1)"
  have "before_year (days div 366 + 1) \<le> days"
    using before_year_le [of "days div 366 + 1"] by simp
  then have y: "0 < y" "before_year y \<le> days" "days < before_year (Suc y)"
    using year_search_ok [of "days div 366 + 1" days] by (simp_all add: y_def)
  have "719162 \<le> days" using assms by (simp add: days_def EPOCH_DAYS_def pos_imp_zdiv_nonneg_iff)
  then have "719162 div 366 \<le> days div 366" by (rule div_le_mono)
  then have y1900: "1900 < y" using year_search_ge [of "days div 366 + 1" days] by (simp add: y_def)
  define yday where "yday = days - before_year y"
  obtain m d where md: "month_of (month_lengths y) yday = (m, d)" by fastforce
  have "yday < sum_list (month_lengths y)"
    using y before_year_Suc [OF y(1)] by (simp add: yday_def sum_month_lengths split: if_splits)
  from month_of_ok [OF this] md have m: "m < 12" "d < month_lengths y ! m" "sum_list (take m (month_lengths y)) + d = yday"
    by simp_all
  have "int days = t div 86400 + int EPOCH_DAYS" using assms by (simp add: days_def)
  then have "int (before_year y + sum_list (take m (month_lengths y)) + d) = t div 86400 + int EPOCH_DAYS"
    using m(3) y(2) by (simp add: yday_def)
  moreover have "tm_year (gmtime t) = int y - 1900" "tm_mon (gmtime t) = int m" "tm_mday (gmtime t) = int d + 1"
    by (simp_all only: gmtime_def Let_def days_def [symmetric] y_def [symmetric] yday_def [symmetric] md prod.case tm.select_convs)
  ultimately show ?thesis using that y1900 m(1,2) by blast
qed

lemma gmtime_clock:
  "tm_sec (gmtime t) = t mod 60" "tm_min (gmtime t) = t mod 86400 div 60 mod 60" "tm_hour (gmtime t) = t mod 86400 div 3600"
  by (simp_all add: gmtime_def Let_def case_prod_beta mod_mod_cancel)

lemma civil_secs_gmtime: "0 \<le> t \<Longrightarrow> civil_secs (gmtime t) = t"
proof -
  assume "0 \<le> t"
  then obtain y m d where f: "int (before_year y + sum_list (take m (month_lengths y)) + d) = t div 86400 + int EPOCH_DAYS"
      "tm_year (gmtime t) = int y - 1900" "tm_mon (gmtime t) = int m" "tm_mday (gmtime t) = int d + 1"
    by (rule gmtime_calendar)
  have s: "s div 3600 * 3600 + s div 60 mod 60 * 60 + s mod 60 = s" for s :: int
  proof -
    have lin: "s = x * 60 + c \<Longrightarrow> x = a * 60 + b \<Longrightarrow> a * 3600 + b * 60 + c = s" for a b c x :: int by simp
    have "s div 60 div 60 = s div 3600" by (simp add: zdiv_zmult2_eq [symmetric])
    moreover have "s = s div 60 * 60 + s mod 60" "s div 60 = s div 60 div 60 * 60 + s div 60 mod 60" by simp_all
    ultimately show ?thesis using lin by metis
  qed
  have "t mod 86400 mod 60 = t mod 60" by (simp add: mod_mod_cancel)
  with s [of "t mod 86400"] have "t mod 86400 div 3600 * 3600 + t mod 86400 div 60 mod 60 * 60 + t mod 60 = t mod 86400" by simp
  moreover have "int (before_year y + sum_list (take m (month_lengths y))) + int d - int EPOCH_DAYS = t div 86400"
    using f(1) by simp
  moreover have "civil_secs (gmtime t) = (int (before_year y + sum_list (take m (month_lengths y))) + int d - int EPOCH_DAYS) * 86400 +
      (t mod 86400 div 3600 * 3600 + t mod 86400 div 60 mod 60 * 60 + t mod 60)"
    by (simp add: civil_secs_def f(2-4) gmtime_clock)
  ultimately have "civil_secs (gmtime t) = t div 86400 * 86400 + t mod 86400" by (simp only:)
  then show ?thesis by simp
qed

section \<open>Printing and scanning the fields\<close>

lemma digit_char: "d < 10 \<Longrightarrow> digit_val (char_of (unat (ascii_digit d))) = d \<and> is_digit (char_of (unat (ascii_digit d)))"
proof -
  assume d: "d < 10"
  then have u: "unat (ascii_digit d) = 48 + d"
    by (simp add: ascii_digit_def unat_of_nat take_bit_nat_eq_self del: of_nat_add)
  have "(of_char (char_of (48 + d) :: char) :: nat) = 48 + d"
    using d by (simp add: of_char_of take_bit_nat_eq_self)
  then show ?thesis using d by (simp add: digit_val_def is_digit_def u)
qed

lemma digits_val_snoc: "digits_val (ds @ [c]) = 10 * digits_val ds + digit_val c"
  by (simp add: digits_val_def)

lemma dec_text_digits: "digits_val (dec_text n) = n \<and> list_all is_digit (dec_text n) \<and> dec_text n \<noteq> []"
proof (induction n rule: less_induct)
  case (less n)
  show ?case
  proof (cases "n < 10")
    case True
    then show ?thesis using digit_char [OF True] by (simp add: dec_text_def dec.simps [of n] digits_val_def)
  next
    case False
    then have e: "dec_text n = dec_text (n div 10) @ [char_of (unat (ascii_digit (n mod 10)))]"
      by (simp add: dec_text_def dec.simps [of n])
    show ?thesis
      using less [of "n div 10"] False digit_char [of "n mod 10"] by (simp add: e digits_val_snoc)
  qed
qed

lemma zpad_digits: "0 \<le> i \<Longrightarrow> digits_val (zpad n i) = nat i \<and> list_all is_digit (zpad n i) \<and> zpad n i \<noteq> []"
proof -
  have z: "digits_val (replicate k CHR ''0'' @ ds) = digits_val ds" for k ds
  proof (induction k)
    case (Suc k)
    then show ?case by (simp add: digits_val_def digit_val_def)
  qed simp
  have "list_all is_digit (replicate k CHR ''0'')" for k by (simp add: list_all_length is_digit_def)
  with z dec_text_digits [of "nat i"] show ?thesis by (simp add: zpad_def)
qed

lemma scan_d_zpad:
  assumes "0 \<le> i" and "i < 2 ^ 31" and "r = [] \<or> \<not> is_digit (hd r)"
  shows "scan_d ovf (zpad n i @ r) = Some (i, r)"
proof -
  have z: "digits_val (zpad n i) = nat i" "list_all is_digit (zpad n i)" "zpad n i \<noteq> []" using zpad_digits [OF assms(1)] by auto
  have h: "is_digit (hd (zpad n i))" using z(2,3) by (cases "zpad n i") auto
  have ns: "\<not> is_space c" "c \<noteq> CHR ''-''" "c \<noteq> CHR ''+''" if "is_digit c" for c
    using that by (auto simp: is_digit_def is_space_def)
  have sp: "dropWhile is_space (zpad n i @ r) = zpad n i @ r" using z(3) ns [OF h] by (cases "zpad n i") auto
  have tw: "takeWhile is_digit (zpad n i @ r) = zpad n i"
    using z(2) assms(3) by (cases r) (auto simp: takeWhile_append list_all_iff)
  show ?thesis using z ns [OF h] assms(1,2) by (simp add: scan_d_def sp tw Let_def)
qed

lemma scan3_zpad:
  assumes "0 \<le> a \<and> a < 2 ^ 31" "0 \<le> b \<and> b < 2 ^ 31" "0 \<le> c \<and> c < 2 ^ 31" and "\<not> is_digit sep"
  shows "scan3 ovf sep (zpad l a @ [sep] @ zpad m b @ [sep] @ zpad n c) = Some (a, b, c)"
  using assms scan_d_zpad [of c "[]" ovf n]
  by (simp add: scan3_def scan_d_zpad scan_lit_def)

lemma length_dec_text_le: "n < 10 ^ k \<Longrightarrow> 0 < k \<Longrightarrow> length (dec_text n) \<le> k"
proof (induction k arbitrary: n)
  case (Suc k)
  show ?case
  proof (cases "n < 10")
    case True
    then show ?thesis by (simp add: dec_text_def dec.simps [of n])
  next
    case False
    then have "0 < k" using Suc.prems by (cases k) auto
    moreover have "n div 10 < 10 ^ k" using Suc.prems by (simp add: less_mult_imp_div_less)
    ultimately have "length (dec_text (n div 10)) \<le> k" using Suc.IH by blast
    with False show ?thesis by (simp add: dec_text_def dec.simps [of n])
  qed
qed simp

lemma length_zpad: "0 \<le> i \<Longrightarrow> i < 10 ^ k \<Longrightarrow> 0 < k \<Longrightarrow> length (zpad k i) = k"
  using length_dec_text_le [of "nat i" k] by (simp add: zpad_def nat_less_iff)

section \<open>The laws of the clock\<close>

text \<open>
  A clock chip with a two-digit year keeps the dates of 2000 to 2099.  It stores a valid time of those years and gives
  back the same date and time until it ticks; the days of the week and of the year it gives back are left open, as the
  interface lets a driver leave them out.  Nothing is said of other times, which a driver may refuse.
  \<open>timeutil_timegm\<close> inverts \<open>gmtime\<close>, those two fields ignored.
\<close>

definition chip_year :: "int \<Rightarrow> bool" where
  "chip_year t \<longleftrightarrow> 2000 \<le> tm_year (gmtime t) + 1900 \<and> tm_year (gmtime t) + 1900 \<le> 2099"

definition rtc_laws :: "'r rtc_api \<Rightarrow> bool" where
  "rtc_laws R \<longleftrightarrow> rtc_ready R \<and>
     (\<forall>t r. 0 \<le> t \<longrightarrow> chip_year t \<longrightarrow>
        (\<exists>r' w d. rtc_set_time R (gmtime t) r = (0, r') \<and> rtc_get_time R r' = (0, (gmtime t)\<lparr>tm_wday := w, tm_yday := d\<rparr>))) \<and>
     (\<forall>t w d. 0 \<le> t \<longrightarrow> chip_year t \<longrightarrow> timeutil_timegm R ((gmtime t)\<lparr>tm_wday := w, tm_yday := d\<rparr>) = t)"

text \<open>A chip that refuses the years it has no digits for and keeps no day of the year.\<close>

definition bcd_rtc :: "tm rtc_api" where
  "bcd_rtc = \<lparr>rtc_ready = True, rtc_get_time = (\<lambda>r. (0, r)),
     rtc_set_time = (\<lambda>t r. if tm_year t < 100 \<or> 199 < tm_year t then (- EINVAL, r) else (0, t\<lparr>tm_yday := - 1\<rparr>)),
     timeutil_timegm = civil_secs, scan_ovf = (\<lambda>v. v)\<rparr>"

lemma bcd_rtc_laws: "rtc_laws bcd_rtc"
proof -
  have "civil_secs (t\<lparr>tm_wday := w, tm_yday := d\<rparr>) = civil_secs t" for t w d by (simp add: civil_secs_def)
  moreover have "\<exists>w d. t\<lparr>tm_yday := - 1\<rparr> = t\<lparr>tm_wday := w, tm_yday := d\<rparr>" for t :: tm
    by (intro exI [of _ "tm_wday t"] exI [of _ "- 1"]) simp
  ultimately show ?thesis
    by (simp add: rtc_laws_def bcd_rtc_def civil_secs_gmtime chip_year_def)
qed

lemma before_year_mono: "0 < y \<Longrightarrow> y \<le> z \<Longrightarrow> before_year y \<le> before_year z"
proof (induction z)
  case (Suc z)
  then show ?case using before_year_Suc [of z] by (cases "y = Suc z") auto
qed simp

lemma gmtime_year_ok:
  assumes "0 \<le> t"
  obtains y where "0 < y" "tm_year (gmtime t) = int y - 1900" "before_year y \<le> nat (t div 86400 + int EPOCH_DAYS)"
    "nat (t div 86400 + int EPOCH_DAYS) < before_year (Suc y)"
proof -
  define days where "days = nat (t div 86400 + int EPOCH_DAYS)"
  have "before_year (days div 366 + 1) \<le> days"
    using before_year_le [of "days div 366 + 1"] by simp
  from year_search_ok [OF _ this] that show thesis
    by (simp add: days_def gmtime_def Let_def case_prod_beta)
qed

lemma gmtime_year_mono:
  assumes "0 \<le> s" and "s \<le> t"
  shows "tm_year (gmtime s) \<le> tm_year (gmtime t)"
proof -
  have "0 \<le> t" using assms by simp
  obtain y where y: "0 < y" "tm_year (gmtime s) = int y - 1900" "before_year y \<le> nat (s div 86400 + int EPOCH_DAYS)"
    using assms(1) by (rule gmtime_year_ok)
  obtain z where z: "0 < z" "tm_year (gmtime t) = int z - 1900" "nat (t div 86400 + int EPOCH_DAYS) < before_year (Suc z)"
    using \<open>0 \<le> t\<close> by (rule gmtime_year_ok)
  have "nat (s div 86400 + int EPOCH_DAYS) \<le> nat (t div 86400 + int EPOCH_DAYS)"
    using zdiv_mono1 [OF assms(2), of 86400] by (intro nat_mono) simp
  then have "\<not> Suc z \<le> y" using y(3) z(3) before_year_mono [of "Suc z" y] by auto
  then show ?thesis using y(2) z(2) by simp
qed

text \<open>
  C40. The clock of \<open>apollo-v2\<close> shows what was entered. With a clock chip that keeps the dates of 2000 to 2099, for
  every local time whose date in UTC is in 2025 or later and whose local date is in 2099 or earlier, its date and time
  texts are accepted, and the text shown before the clock next ticks is the same date and time; in between the chip
  keeps it as UTC, eight hours earlier. Whatever day of the week or of the year the chip gives back has no effect.
\<close>
theorem clock_shows_what_was_set:
  assumes R: "rtc_laws R" and t: "28800 \<le> t" and lo: "2025 \<le> tm_year (gmtime (t - 28800)) + 1900"
    and hi: "tm_year (gmtime t) + 1900 \<le> 2099"
  shows "\<exists>r' w d. app_time_set_local_str R (local_date (gmtime t)) (local_time (gmtime t)) r = (0, r') \<and>
     rtc_get_time R r' = (0, (gmtime (t - 28800))\<lparr>tm_wday := w, tm_yday := d\<rparr>) \<and>
     app_time_local_str R r' = local_date (gmtime t) @ '' '' @ local_time (gmtime t)"
proof -
  let ?g = "gmtime t"
  have "0 \<le> t" using t by simp
  then obtain y m d where f: "1900 < y" "m < 12" "d < month_lengths y ! m"
      "tm_year ?g = int y - 1900" "tm_mon ?g = int m" "tm_mday ?g = int d + 1"
    by (rule gmtime_calendar)
  have d31: "d < 31" using f(2,3) month_length_le [of m y] by simp
  have year: "1900 < tm_year ?g + 1900" using f by simp
  have clock: "0 \<le> tm_sec ?g \<and> tm_sec ?g < 60" "0 \<le> tm_min ?g \<and> tm_min ?g < 60" "0 \<le> tm_hour ?g \<and> tm_hour ?g < 24"
    using pos_mod_bound [of 86400 t] by (simp_all add: gmtime_clock pos_imp_zdiv_nonneg_iff div_less_iff_less_mult_int)
  have date: "scan3 (scan_ovf R) CHR ''-'' (local_date ?g) = Some (tm_year ?g + 1900, tm_mon ?g + 1, tm_mday ?g)"
    using scan3_zpad [of "tm_year ?g + 1900" "tm_mon ?g + 1" "tm_mday ?g" "CHR ''-''" "scan_ovf R" 4 2 2] f d31 hi
    by (simp add: local_date_def is_digit_def)
  have time: "scan3 (scan_ovf R) CHR '':'' (local_time ?g) = Some (tm_hour ?g, tm_min ?g, tm_sec ?g)"
    using scan3_zpad [of "tm_hour ?g" "tm_min ?g" "tm_sec ?g" "CHR '':''" "scan_ovf R" 2 2 2] clock
    by (simp add: local_time_def is_digit_def)
  let ?tm = "\<lparr>tm_sec = tm_sec ?g, tm_min = tm_min ?g, tm_hour = tm_hour ?g, tm_mday = tm_mday ?g,
     tm_mon = tm_mon ?g, tm_year = tm_year ?g, tm_wday = 0, tm_yday = 0\<rparr>"
  have e: "?tm = ?g\<lparr>tm_wday := 0, tm_yday := 0\<rparr>" by (rule tm.equality) simp_all
  have years: "chip_year t" "chip_year (t - 28800)"
    using lo hi t gmtime_year_mono [of "t - 28800" t] by (auto simp: chip_year_def)
  have tg: "timeutil_timegm R ?tm = t" using R t years unfolding e rtc_laws_def by simp
  obtain r' w d where r': "rtc_set_time R (gmtime (t - 28800)) r = (0, r')"
      "rtc_get_time R r' = (0, (gmtime (t - 28800))\<lparr>tm_wday := w, tm_yday := d\<rparr>)"
    using R t years unfolding rtc_laws_def by (metis diff_ge_0_iff_ge)
  have ready: "rtc_ready R" using R by (simp add: rtc_laws_def)
  have set: "app_time_set_local_str R (local_date ?g) (local_time ?g) r = (0, r')"
    using year hi f(2,5,6) d31 tg r'(1) ready
    by (simp add: app_time_set_local_str_def date time app_time_set_utc_def unix_to_rtc_tm_def LOCAL_UTC_OFFSET_SEC_def)
  have "timeutil_timegm R ((gmtime (t - 28800))\<lparr>tm_wday := w, tm_yday := d\<rparr>) = t - 28800"
    using R t years unfolding rtc_laws_def by simp
  then have local: "app_time_get_local R r' = Some ?g"
    using ready r'(2) lo by (simp add: app_time_get_local_def app_time_get_utc_def rtc_tm_to_unix_def LOCAL_UTC_OFFSET_SEC_def)
  have "length (local_date ?g @ '' '' @ local_time ?g) = 19"
    using hi f d31 clock by (simp add: local_date_def local_time_def length_zpad)
  then have "app_time_local_str R r' = local_date ?g @ '' '' @ local_time ?g"
    unfolding app_time_local_str_def local by simp
  with set r'(2) show ?thesis by blast
qed

lemma gmtime_year:
  "t div 86400 = int n - int EPOCH_DAYS \<Longrightarrow> tm_year (gmtime t) = int (year_search n (n div 366 + 1)) - 1900"
  by (simp add: gmtime_def Let_def case_prod_beta)

lemma demo_year: "tm_year (gmtime 1788643800) = 126" "tm_year (gmtime 1788615000) = 126"
proof -
  have "year_search 739863 2022 = 2026" by (simp add: year_search.simps [of 739863] before_year_def)
  then show "tm_year (gmtime 1788643800) = 126" "tm_year (gmtime 1788615000) = 126"
    by (simp_all add: gmtime_year [of _ 739863] EPOCH_DAYS_def)
qed

theorem clock_shows_what_was_set_witness:
  "\<exists>r' w d. app_time_set_local_str bcd_rtc (local_date (gmtime 1788643800)) (local_time (gmtime 1788643800)) (gmtime 0) = (0, r') \<and>
     rtc_get_time bcd_rtc r' = (0, (gmtime (1788643800 - 28800))\<lparr>tm_wday := w, tm_yday := d\<rparr>) \<and>
     app_time_local_str bcd_rtc r' = local_date (gmtime 1788643800) @ '' '' @ local_time (gmtime 1788643800)"
proof (rule clock_shows_what_was_set [OF bcd_rtc_laws])
  show "2025 \<le> tm_year (gmtime (1788643800 - 28800)) + 1900" by (simp add: demo_year)
  show "tm_year (gmtime 1788643800) + 1900 \<le> 2099" by (simp add: demo_year)
qed simp

text \<open>Dates and times that do not exist are not refused: they are what the clock is set from.\<close>

lemma impossible_time_accepted:
  "rtc_ready R \<Longrightarrow> app_time_set_local_str R ''2026-02-31'' ''99:99:99'' r =
     rtc_set_time R (gmtime (timeutil_timegm R \<lparr>tm_sec = 99, tm_min = 99, tm_hour = 99, tm_mday = 31, tm_mon = 1,
       tm_year = 126, tm_wday = 0, tm_yday = 0\<rparr> - 28800)) r"
proof -
  have "scan3 (scan_ovf R) CHR ''-'' ''2026-02-31'' = Some (2026, 2, 31)"
    "scan3 (scan_ovf R) CHR '':'' ''99:99:99'' = Some (99, 99, 99)"
    by code_simp+
  then show "rtc_ready R \<Longrightarrow> ?thesis"
    by (simp add: app_time_set_local_str_def app_time_set_utc_def unix_to_rtc_tm_def LOCAL_UTC_OFFSET_SEC_def)
qed

end
