(* ===== verification/Spec2Isabelle.thy ===== *)
theory Spec2Isabelle imports CanBoot CanUpgrade UdpUpgrade RegTheorems TcpClients HubTheorems FtpTransfer WebTheorems WsTheorems RfCryptTheorems Nrf24Theorems HandlerTheorems GatewayTheorems RadioTheorems ToeTheorems ApolloFontTheorems ApolloTimeTheorems begin

text \<open>
  A verification development for the iot-zephyr-app firmware: the canonical application
  \<open>applications/io-edge-hub\<close>, the firmware upgrade libraries under \<open>libs/\<close>, the host tool
  \<open>tools/firmware_upgrade\<close> that drives them, and the radio system of \<open>applications/angle-handler\<close> and
  \<open>applications/n2e-gw\<close> over \<open>drivers/nrf24l01p\<close>, the socket driver \<open>drivers/w5500_toe\<close>,
  and font and clock of \<open>applications/apollo-v2\<close>.

  \<^bold>\<open>The program.\<close>  The hub is a Modbus I/O node on Zephyr.  Its registers (\<open>modbus/function.c\<close>) are
  written by Modbus RTU and TCP, UDP and HTTP, follow the inputs (\<open>io/dio.c\<close>, \<open>io/adc.c\<close>), drive the
  output pins and are saved to flash (\<open>settings/init.c\<close>).  Samples are recorded to rotating files
  (\<open>history/history.c\<close>), which an FTP server hands out (\<open>ftp_server/ftpd.c\<close>).  New firmware arrives
  over CAN (\<open>libs/can_fw_upgrade\<close>) or UDP (\<open>libs/udp_fw_upgrade\<close>), one channel at a time
  (\<open>fw_upgrade_state.c\<close>); after a failed boot the boot loader waits for the host (\<open>can_fw_boot.c\<close>).
  The joystick handler samples two angles, reports them over CAN or an encrypted radio link and sleeps
  when idle; the gateway relays its reports to a host by UDP and scanner data back.

  \<^bold>\<open>Theories and the code they model.\<close>
  \<^item> \<open>Prelude\<close>, \<open>ZephyrApi\<close>: machine integers, buffers, byte order, decimal text; the flash image
    interface as a record of functions with its documented laws.
  \<^item> \<open>CanFw\<close>, \<open>CanFwProps\<close>, \<open>CanFwTheorems\<close>: \<open>can_fw_upgrade.c\<close> - the file-scope state is the record
    \<open>can_st\<close>, each handler of the receive thread a function on it.  \<open>CanBoot\<close>: \<open>boot_go_hook\<close>.
  \<^item> \<open>UpgradeLock\<close>: \<open>fw_upgrade_state.c\<close> and its two clients.
  \<^item> \<open>UdpFw\<close>, \<open>UdpFwProps\<close>, \<open>UdpFwTheorems\<close>: \<open>udp_fw_upgrade.c\<close>, its commands, receive thread and hooks.
  \<^item> \<open>HostImage\<close>, \<open>HostCan\<close>, \<open>HostUdp\<close>: the image parser, CRC and the CAN and UDP sessions of
    \<open>firmware_upgrade.c\<close>; \<open>CanUpgrade\<close>, \<open>UdpStream\<close>, \<open>UdpUpgrade\<close>: host and device composed.
  \<^item> \<open>HubState\<close>, \<open>Regs\<close>, \<open>RegProps\<close>, \<open>RegTheorems\<close>: registers, callbacks, settings, sampling, clock; the
    locale \<open>register_bank\<close> is the interface of the two register arrays, interpreted on both.
  \<^item> \<open>History\<close>, \<open>HistoryProps\<close>, \<open>HistoryTheorems\<close>: the history writer and its mount.
  \<^item> \<open>ModbusTcp\<close>, \<open>ModbusTcpTheorems\<close>, \<open>TcpClients\<close>: \<open>modbus/tcp.c\<close>.
  \<^item> \<open>HubApp\<close>, \<open>HubTheorems\<close>: \<open>udp.c\<close>, \<open>can.c\<close>, \<open>main.c\<close>, \<open>modbus/rtu.c\<close>, \<open>sys/watchdog.c\<close>.
  \<^item> \<open>FtpPath\<close>, \<open>FtpServer\<close>, \<open>FtpCmds\<close>, \<open>FtpThread\<close>: \<open>ftpd.c\<close>; \<open>FtpProps\<close>, \<open>FtpFrames\<close>, \<open>FtpDemo\<close>,
    \<open>FtpTheorems\<close>, \<open>FtpTransfer\<close>: its lemmas, an in-memory system and its properties.
  \<^item> \<open>WebJson\<close>, \<open>WebHttp\<close>: \<open>web/web_json.h\<close> and \<open>web/httpd.c\<close>, the scanners, executors and handlers;
    \<open>WebProps\<close>, \<open>WebTheorems\<close>: their lemmas and properties.  \<open>WsIo\<close>: \<open>web/ws_io.c\<close>; \<open>WsProps\<close>,
    \<open>WsKeyhash\<close>, \<open>WsTheorems\<close>: the invariant of its upgrade session, its image check, its properties.

  \<^item> \<open>RfCrypt\<close>, \<open>RfCryptTheorems\<close>: \<open>drivers/nrf24l01p/nrf24_crypt.c\<close>, the link encryption;
    \<open>Nrf24\<close>, \<open>Nrf24Io\<close>: the radio driver \<open>nrf24l01p.c\<close>; \<open>Nrf24Props\<close>, \<open>Nrf24Theorems\<close>: the law of the
    chip's registers and what configuration, sending and the interrupt thread do under it.
  \<^item> \<open>SettingsApi\<close>: names and store of the settings library, as the three applications use it.
    \<open>RfLink\<close>: the frame, retries and configuration both radio applications share.
  \<^item> \<open>Handler\<close> (\<open>common.h\<close>, \<open>persist.c\<close>, \<open>can.c\<close>), \<open>HandlerRadio\<close> (\<open>rf24.c\<close>, \<open>common.c\<close>,
    \<open>rf24_shell.c\<close>), \<open>HandlerPower\<close> (\<open>gpio.c\<close>, \<open>main.c\<close>), \<open>HandlerAdc\<close> (\<open>adc.c\<close>): the handler;
    \<open>HandlerProps\<close>, \<open>HandlerLink\<close>, \<open>HandlerTheorems\<close>: its arithmetic, its link state over all events, its
    properties.  \<open>Gateway\<close>: all sources of \<open>n2e-gw\<close>; \<open>GatewayProps\<close>, \<open>GatewayTheorems\<close>: its events, bounds,
    and flash against running configuration.  \<open>RadioTheorems\<close>: both composed over the air.
  \<^item> \<open>Toe\<close>, \<open>ToeApi\<close>: \<open>drivers/w5500_toe/w5500_toe.c\<close>, the sockets of the W5500 chip: bus frames, rings, the table,
    listener pools and worker; the socket operations and the start.  \<open>ToeChip\<close>: the data sheet's laws of the rings;
    \<open>ToeStream\<close>, \<open>ToeSend\<close>, \<open>ToeRecv\<close>: streams and datagrams over them; \<open>ToeInv\<close>: the table's invariant over all
    calls; \<open>ToeFaults\<close>: the worker that does not end, and sockets that are gone; \<open>ToeTheorems\<close>: its properties.
  \<^item> \<open>ApolloFont\<close> (\<open>font_qspi.c\<close>) and \<open>ApolloTime\<close> (\<open>app_time.c\<close>): the font in flash and the clock of
    \<open>apollo-v2\<close>; \<open>ApolloFontTheorems\<close>: the font format, the laws of flash and files, the search and the installation;
    \<open>ApolloTimeTheorems\<close>: the calendar and the round trip of a time.

  \<^bold>\<open>What the lemmas show.\<close>  Upgrades: an accepted image is complete and is the one the host sent, byte for
  byte, whatever the bus or network loses, repeats or reorders; a wrong key is refused; tables do not
  overflow; the channels exclude each other; the boot wait ends.  Registers: outputs follow the register
  while no two writers of them overlap, and a link loss in the middle of a write can leave them on; settings
  survive a restart, commands do not stick.  Modbus TCP: at most one reply per request, in order, and no
  descriptor is lost.  History: files stay bounded, records keep their order.  FTP: paths
  stay below the root and resolve as specified, without the password no file changes - with the one way
  around it that the code leaves -, transfers carry the file, from the position REST or APPE gives.  Web: requests mean the same however they
  are cut, commands are Modbus writes, texts fit; an upgrade over the WebSocket is accepted exactly when the host
  tool's parser accepts it and its TLV area is aligned.  Radio: frames are delivered once and in order within the receive window;
  a joystick report reaches the host with the angles that were measured, the powered link of the handler is the
  one chosen, through the pauses of going to sleep and waking too, the gateway's flash always holds its running configuration.  W5500: send accounts exactly for
  what goes out and receive loses and repeats nothing as long as no other thread closes, shuts down or uses the
  socket meanwhile, datagrams stay whole, indices stay in range.  Apollo: the glyph
  search finds exactly the table, a time entered is the time shown on a clock chip that keeps the years 2000 to 2099, the installation command loses the font's
  header.  Errors found on the way are stated as
  theorems about the code as it is.

  \<^bold>\<open>How it is modelled.\<close>  Mutable file-scope data are records passed explicitly; C integers keep their
  width as words; function pointers are numbers, with 0 or \<open>None\<close> for NULL; configuration variants are
  Booleans of the environment record.  What is not in the repository (kernel, drivers, file system,
  sockets, settings backend, CRC of the host libraries) is a record of functions over an unspecified
  world, with laws as named hypotheses that an in-memory instance is shown to satisfy.  Loops without a
  structural bound are \<open>partial_function\<close>s whose termination is proved (\<open>history_sync_returns\<close>, the
  transfer loops of FTP, the acknowledgement loop of the host) or take fuel: the boot wait reads the
  clock once per step of its schedule, and \<open>boot_hook_returns\<close> gives a number of steps that is enough for any
  clock that advances at least once within every \<open>N\<close> of them.  Where threads of the program
  touch the same data without a lock they are interleaved: the atomic actions of the register operations
  (\<open>io_write_acts\<close>, \<open>net_if_acts\<close>) in any order by \<open>hub_reach\<close>, and the events of the handler between the two
  halves of \<open>system_sleep\<close> and \<open>system_wake\<close> by \<open>h_reach\<close>; the other steps are taken one at a time.  How long
  the main loop's sleeps, history synchronisation and log drain take is an argument (\<open>loop_ms\<close>).  A call that blocks
  in the W5500 driver takes the list of what the others do in its waits; the pass over a listener's pool is a
  \<open>partial_function\<close> because it need not end (\<open>toe_full_table_hangs_worker\<close>).

  \<^bold>\<open>Not modelled.\<close>  The shell and the network throughput test of the hub; the printing and option parsing
  of the host tool; drawing on the handler's display and the shell commands of handler and gateway that print,
  ping or measure; \<open>canopen-io\<close>, which largely repeats the hub and otherwise rests on a CANopen stack that is
  not in the repository; the poll registration and message texts of the W5500 driver; of \<open>apollo-v2\<close> the
  display pages, web panel, WebSocket, board I/O and start-up of its services; the Ethernet PHY driver, the examples, fonts and the generated CANopen object dictionary.
\<close>

end
